(* ===== verification/Prelude.thy ===== *)
theory Prelude
  imports Main "HOL-Library.Sublist"
begin

section \<open>Prelude: results, request actions, tables and Python strings\<close>

text \<open>
  Shared vocabulary of the development.

  \<^item> Every service function of the application reads and writes one database session and
    either returns a value or raises. Such a function is an \<^emph>\<open>action\<close>: a function from the
    state to a pair of a result (\<open>Inl\<close> the exception, \<open>Inr\<close> the value) and the new state. The
    state is returned on both branches, since a Python exception does not undo what the
    function already did to the session.
  \<^item> A database table is a list of rows in insertion order; \<open>upd_where\<close> is the SQL update and
    \<open>find\<close> and \<open>filter\<close> are the queries.
  \<^item> Python strings are \<open>string\<close>, that is lists of 8-bit characters: a character stands for the
    code point of the same number. Text outside that range is not represented.
\<close>

named_theorems preserves_rules "rules that lift an invariant through an action"
named_theorems triple_rules "rules of triples for the combinators"
named_theorems table_simps "rewrite rules for rows selected and updated in a table"

subsection \<open>Actions: state passing with exceptions\<close>

type_synonym ('s, 'e, 'a) act = "'s \<Rightarrow> ('e + 'a) \<times> 's"

definition ret :: "'a \<Rightarrow> ('s, 'e, 'a) act" where
  "ret x = (\<lambda>s. (Inr x, s))"

definition raise :: "'e \<Rightarrow> ('s, 'e, 'a) act" where
  "raise e = (\<lambda>s. (Inl e, s))"

definition bindA :: "('s, 'e, 'a) act \<Rightarrow> ('a \<Rightarrow> ('s, 'e, 'b) act) \<Rightarrow> ('s, 'e, 'b) act" where
  "bindA m f = (\<lambda>s. case m s of (Inl e, s') \<Rightarrow> (Inl e, s') | (Inr x, s') \<Rightarrow> f x s')"

definition modifyA :: "('s \<Rightarrow> 's) \<Rightarrow> ('s, 'e, unit) act" where
  "modifyA f = (\<lambda>s. (Inr (), f s))"

definition getsA :: "('s \<Rightarrow> 'a) \<Rightarrow> ('s, 'e, 'a) act" where
  "getsA f = (\<lambda>s. (Inr (f s), s))"

definition condA :: "bool \<Rightarrow> ('s, 'e, unit) act \<Rightarrow> ('s, 'e, unit) act" where
  "condA b m = (if b then m else ret ())"

text \<open>\<open>try_catch m h\<close> is Python's \<open>try: m except: h\<close>, the handler seeing the exception.\<close>

definition try_catch :: "('s, 'e, 'a) act \<Rightarrow> ('e \<Rightarrow> ('s, 'e, 'a) act) \<Rightarrow> ('s, 'e, 'a) act" where
  "try_catch m h = (\<lambda>s. case m s of (Inl e, s') \<Rightarrow> h e s' | (Inr x, s') \<Rightarrow> (Inr x, s'))"

lemmas act_defs = ret_def raise_def bindA_def modifyA_def getsA_def condA_def try_catch_def

lemma ret_apply [simp]: "ret x s = (Inr x, s)"
  by (simp add: ret_def)

lemma raise_apply [simp]: "raise e s = (Inl e, s)"
  by (simp add: raise_def)

lemma modifyA_apply [simp]: "modifyA f s = (Inr (), f s)"
  by (simp add: modifyA_def)

lemma getsA_apply [simp]: "getsA f s = (Inr (f s), s)"
  by (simp add: getsA_def)

lemma bindA_Inr [simp]: "m s = (Inr x, s') \<Longrightarrow> bindA m f s = f x s'"
  by (simp add: bindA_def)

lemma bindA_Inl [simp]: "m s = (Inl e, s') \<Longrightarrow> bindA m f s = (Inl e, s')"
  by (simp add: bindA_def)

lemma bindA_ret [simp]: "bindA (ret x) f = f x"
  by (simp add: bindA_def fun_eq_iff)

lemma bindA_raise [simp]: "bindA (raise e) f = raise e"
  by (simp add: bindA_def fun_eq_iff)

lemma bindA_getsA [simp]: "bindA (getsA g) f = (\<lambda>s. f (g s) s)"
  by (simp add: bindA_def fun_eq_iff)

lemma bindA_modifyA [simp]: "bindA (modifyA g) f = (\<lambda>s. f () (g s))"
  by (simp add: bindA_def fun_eq_iff)

lemma condA_True [simp]: "condA True m = m"
  by (simp add: condA_def)

lemma condA_False [simp]: "condA False m = ret ()"
  by (simp add: condA_def)

lemma bindA_eq_Inr:
  "bindA m f s = (Inr y, t) \<longleftrightarrow> (\<exists>x s'. m s = (Inr x, s') \<and> f x s' = (Inr y, t))"
  by (auto simp: bindA_def split: prod.splits sum.splits)

lemma bindA_eq_Inl:
  "bindA m f s = (Inl e, t) \<longleftrightarrow>
     m s = (Inl e, t) \<or> (\<exists>x s'. m s = (Inr x, s') \<and> f x s' = (Inl e, t))"
  by (auto simp: bindA_def split: prod.splits sum.splits)

lemma try_catch_eq_Inr:
  "try_catch m h s = (Inr y, t) \<longleftrightarrow>
     m s = (Inr y, t) \<or> (\<exists>e s'. m s = (Inl e, s') \<and> h e s' = (Inr y, t))"
  by (auto simp: try_catch_def split: prod.splits sum.splits)

subsection \<open>Invariants of actions\<close>

text \<open>
  \<open>preserves I m\<close>: the action keeps \<open>I\<close> whether it returns or raises. The rules below reduce an
  action written with the combinators to its primitive steps.
\<close>

definition preserves :: "('s \<Rightarrow> bool) \<Rightarrow> ('s, 'e, 'a) act \<Rightarrow> bool" where
  "preserves I m \<longleftrightarrow> (\<forall>s. I s \<longrightarrow> I (snd (m s)))"

lemma preservesI: "(\<And>s. I s \<Longrightarrow> I (snd (m s))) \<Longrightarrow> preserves I m"
  by (simp add: preserves_def)

lemma preservesD: "preserves I m \<Longrightarrow> I s \<Longrightarrow> I (snd (m s))"
  by (simp add: preserves_def)

lemma preservesD': "preserves I m \<Longrightarrow> m s = (r, t) \<Longrightarrow> I s \<Longrightarrow> I t"
  using preservesD [of I m s] by simp

lemma preserves_ret [preserves_rules]: "preserves I (ret x)"
  by (simp add: preserves_def)

lemma preserves_raise [preserves_rules]: "preserves I (raise e)"
  by (simp add: preserves_def)

lemma preserves_getsA [preserves_rules]: "preserves I (getsA f)"
  by (simp add: preserves_def)

lemma preserves_bindA [preserves_rules]:
  assumes "preserves I m" and "\<And>x. preserves I (f x)"
  shows "preserves I (bindA m f)"
  using assms by (fastforce simp: preserves_def bindA_def split: prod.splits sum.splits)

lemma preserves_try_catch [preserves_rules]:
  assumes "preserves I m" and "\<And>e. preserves I (h e)"
  shows "preserves I (try_catch m h)"
  using assms by (fastforce simp: preserves_def try_catch_def split: prod.splits sum.splits)

lemma preserves_condA [preserves_rules]: "preserves I m \<Longrightarrow> preserves I (condA b m)"
  by (simp add: condA_def preserves_ret)

lemma preserves_modifyA: "(\<And>s. I s \<Longrightarrow> I (f s)) \<Longrightarrow> preserves I (modifyA f)"
  by (simp add: preserves_def)

lemma preserves_if [preserves_rules]:
  "(b \<Longrightarrow> preserves I m) \<Longrightarrow> (\<not> b \<Longrightarrow> preserves I n) \<Longrightarrow> preserves I (if b then m else n)"
  by simp

lemma preserves_case_option [preserves_rules]:
  "(x = None \<Longrightarrow> preserves I m) \<Longrightarrow> (\<And>y. x = Some y \<Longrightarrow> preserves I (f y)) \<Longrightarrow>
   preserves I (case x of None \<Rightarrow> m | Some y \<Rightarrow> f y)"
  by (cases x) auto

lemma preserves_case_sum [preserves_rules]:
  "(\<And>y. x = Inl y \<Longrightarrow> preserves I (f y)) \<Longrightarrow> (\<And>y. x = Inr y \<Longrightarrow> preserves I (g y)) \<Longrightarrow>
   preserves I (case x of Inl y \<Rightarrow> f y | Inr y \<Rightarrow> g y)"
  by (cases x) auto

lemma preserves_Let [preserves_rules]: "preserves I (f x) \<Longrightarrow> preserves I (let y = x in f y)"
  by simp

subsection \<open>Triples\<close>

text \<open>
  \<open>triple P m Q R\<close>: started in a state with \<open>P\<close>, the action returns \<open>x\<close> in a state with \<open>Q x\<close> or raises in a
  state with \<open>R\<close>. Where an invariant needs what an earlier guard has established, it is proved with
  these rules instead of \<open>preserves\<close>.
\<close>

definition triple :: "('s \<Rightarrow> bool) \<Rightarrow> ('s, 'e, 'a) act \<Rightarrow> ('a \<Rightarrow> 's \<Rightarrow> bool) \<Rightarrow> ('s \<Rightarrow> bool) \<Rightarrow> bool" where
  "triple P m Q R \<longleftrightarrow> (\<forall>s. P s \<longrightarrow> (case m s of (Inr x, t) \<Rightarrow> Q x t | (Inl e, t) \<Rightarrow> R t))"

lemma tripleI:
  assumes "\<And>s x t. P s \<Longrightarrow> m s = (Inr x, t) \<Longrightarrow> Q x t" and "\<And>s e t. P s \<Longrightarrow> m s = (Inl e, t) \<Longrightarrow> R t"
  shows "triple P m Q R"
  using assms by (auto simp: triple_def split: prod.splits sum.splits)

lemma tripleD_ok: "triple P m Q R \<Longrightarrow> P s \<Longrightarrow> m s = (Inr x, t) \<Longrightarrow> Q x t"
  by (fastforce simp: triple_def)

lemma tripleD_err: "triple P m Q R \<Longrightarrow> P s \<Longrightarrow> m s = (Inl e, t) \<Longrightarrow> R t"
  by (fastforce simp: triple_def)

lemma triple_pre: "triple P m Q R \<Longrightarrow> (\<And>s. P' s \<Longrightarrow> P s) \<Longrightarrow> triple P' m Q R"
  by (simp add: triple_def)

lemma triple_post: "triple P m Q R \<Longrightarrow> (\<And>x s. Q x s \<Longrightarrow> Q' x s) \<Longrightarrow> triple P m Q' R"
  by (fastforce simp: triple_def split: prod.splits sum.splits)

lemma triple_bindA [triple_rules]:
  assumes "triple P m Q R" and "\<And>x. triple (Q x) (f x) Q' R"
  shows "triple P (bindA m f) Q' R"
  using assms by (fastforce simp: triple_def bindA_def split: prod.splits sum.splits)

lemma triple_ret [triple_rules]: "triple (Q x) (ret x) Q R"
  by (simp add: triple_def)

lemma triple_raise [triple_rules]: "triple R (raise e) Q R"
  by (simp add: triple_def)

lemma triple_preserves: "preserves I m \<Longrightarrow> triple I m (\<lambda>_. I) I"
  by (auto simp: triple_def preserves_def split: prod.splits sum.splits)

text \<open>An action that only raises establishes any postcondition of a normal return.\<close>

definition raises :: "('s, 'e, 'a) act \<Rightarrow> bool" where
  "raises m \<longleftrightarrow> (\<forall>s. \<exists>e. fst (m s) = Inl e)"

lemma raises_raise [simp]: "raises (raise e)"
  by (simp add: raises_def)

lemma raises_bindA_left: "raises m \<Longrightarrow> raises (bindA m f)"
  unfolding raises_def
proof
  fix s assume "\<forall>s. \<exists>e. fst (m s) = Inl e"
  then obtain e t where "m s = (Inl e, t)" by (metis prod.collapse)
  then show "\<exists>e. fst (bindA m f s) = Inl e" by simp
qed

lemma raises_bindA: "(\<And>x. raises (f x)) \<Longrightarrow> raises (bindA m f)"
  unfolding raises_def bindA_def by (auto split: prod.split sum.split)

lemma triple_raises: "raises m \<Longrightarrow> preserves I m \<Longrightarrow> (\<And>s. P s \<Longrightarrow> I s) \<Longrightarrow> (\<And>s. I s \<Longrightarrow> R s) \<Longrightarrow> triple P m Q R"
  unfolding triple_def raises_def preserves_def
  by (auto split: prod.split sum.split) (metis fst_conv snd_conv Inl_Inr_False)+

lemma triple_guard_bind:
  assumes "raises m" and "preserves I m" and "\<not> b \<Longrightarrow> triple (\<lambda>s. I s \<and> F s) (f x) Q I"
  shows "triple (\<lambda>s. I s \<and> F s) (bindA (if b then m else ret x) f) Q I"
proof (cases b)
  case True
  have "triple (\<lambda>s. I s \<and> F s) (bindA m f) Q I"
    by (rule triple_bindA [OF triple_raises [OF assms(1,2), where Q = "\<lambda>_ _. False"]]) (simp_all add: triple_def)
  with True show ?thesis by simp
qed (simp add: assms(3))

lemma raises_not_Inr: "raises m \<Longrightarrow> m s \<noteq> (Inr x, t)"
  unfolding raises_def by (metis fst_conv Inl_Inr_False)

lemma bindA_assoc: "bindA (bindA m f) g = bindA m (\<lambda>x. bindA (f x) g)"
  by (auto simp: bindA_def fun_eq_iff split: prod.splits sum.splits)

lemma preserves_triple: "triple I m (\<lambda>_. I) I \<Longrightarrow> preserves I m"
proof (rule preservesI)
  fix s assume t: "triple I m (\<lambda>_. I) I" and s: "I s"
  obtain r u where m: "m s = (r, u)" by fastforce
  show "I (snd (m s))"
    using tripleD_ok [OF t s] tripleD_err [OF t s] m by (cases r) auto
qed

text \<open>A step that keeps the invariant, with what its normal return tells about its value.\<close>

lemma triple_bind_fact:
  assumes "preserves I m" and "\<And>s x t. m s = (Inr x, t) \<Longrightarrow> F x" and "\<And>x. F x \<Longrightarrow> triple I (f x) Q I"
  shows "triple I (bindA m f) Q I"
proof (rule triple_bindA [where Q = "\<lambda>x s. I s \<and> F x"])
  show "triple I m (\<lambda>x s. I s \<and> F x) I"
    using assms(1,2) by (auto intro!: tripleI dest: preservesD')
  show "triple (\<lambda>s. I s \<and> F x) (f x) Q I" for x
    using assms(3) [of x] by (simp add: triple_def)
qed

lemmas triple_bind_step = triple_bind_fact [where F = "\<lambda>_. True", OF _ TrueI]

subsection \<open>Sequences of requests and single use\<close>

fun run_all :: "('r \<Rightarrow> ('s, 'e, 'a) act) \<Rightarrow> 'r list \<Rightarrow> 's \<Rightarrow> ('e + 'a) list \<times> 's" where
  "run_all serve [] s = ([], s)"
| "run_all serve (r # rs) s = (case serve r s of (x, s') \<Rightarrow> case run_all serve rs s' of (xs, s'') \<Rightarrow> (x # xs, s''))"

text \<open>How many of the requests with key \<open>k\<close> returned normally.\<close>

definition successes :: "('r \<Rightarrow> 'k) \<Rightarrow> 'k \<Rightarrow> 'r list \<Rightarrow> ('e + 'a) list \<Rightarrow> nat" where
  "successes key k rs xs = length (filter (\<lambda>(r, x). key r = k \<and> \<not> isl x) (zip rs xs))"

lemma successes_simps [simp]:
  "successes key k [] xs = 0"
  "successes key k (r # rs) (x # xs) = (if key r = k \<and> \<not> isl x then 1 else 0) + successes key k rs xs"
  by (simp_all add: successes_def)

lemma run_all_invariant:
  assumes "\<And>r s. I s \<Longrightarrow> I (snd (serve r s))" and "I s"
  shows "I (snd (run_all serve rs s))"
  using assms(2)
proof (induction rs arbitrary: s)
  case (Cons r rs)
  obtain x s' where "serve r s = (x, s')" by fastforce
  with Cons.IH [of s'] assms(1) [OF Cons.prems, of r] show ?case by (simp add: case_prod_beta)
qed simp

text \<open>
  How many of the requests that present the credential \<open>k\<close> returned normally, where what a request presents may depend on the
  state it meets, and a request may present none.
\<close>

primrec uses :: "('r \<Rightarrow> ('s, 'e, 'a) act) \<Rightarrow> ('r \<Rightarrow> 's \<Rightarrow> 'k option) \<Rightarrow> 'k \<Rightarrow> 'r list \<Rightarrow> 's \<Rightarrow> nat" where
  "uses serve key k [] s = 0"
| "uses serve key k (r # rs) s =
     (if key r s = Some k \<and> \<not> isl (fst (serve r s)) then 1 else 0) + uses serve key k rs (snd (serve r s))"

lemma successes_uses: "successes key k rs (fst (run_all serve rs s)) = uses serve (\<lambda>r _. Some (key r)) k rs s"
  by (induction rs arbitrary: s) (simp_all add: case_prod_beta)

text \<open>
  The contract of a single-use credential (a confirmation token, an approval link, a one-time code):
  a normal return spends the key, a spent key stays spent whatever is served next, and a request with a
  spent key raises. Then at most one request with that key ever returns normally, in any sequence.
\<close>

locale single_use_at =
  fixes serve :: "'r \<Rightarrow> ('s, 'e, 'a) act" and key :: "'r \<Rightarrow> 's \<Rightarrow> 'k option" and spent :: "'k \<Rightarrow> 's \<Rightarrow> bool"
  assumes spends_at: "key r s = Some k \<Longrightarrow> serve r s = (Inr x, t) \<Longrightarrow> spent k t"
    and stays_at: "spent k s \<Longrightarrow> spent k (snd (serve r s))"
    and refused_at: "key r s = Some k \<Longrightarrow> spent k s \<Longrightarrow> isl (fst (serve r s))"
begin

lemma no_use_when_spent: "spent k s \<Longrightarrow> uses serve key k rs s = 0"
  by (induction rs arbitrary: s) (auto dest: stays_at refused_at)

lemma at_most_one_use: "uses serve key k rs s \<le> 1"
proof (induction rs arbitrary: s)
  case (Cons r rs)
  show ?case
  proof (cases "key r s = Some k \<and> \<not> isl (fst (serve r s))")
    case True
    then have "spent k (snd (serve r s))" using spends_at [of r s k] by (cases "serve r s"; cases "fst (serve r s)") auto
    then show ?thesis by (simp add: no_use_when_spent)
  qed (use Cons.IH [of "snd (serve r s)"] in auto)
qed simp

end

text \<open>The same for requests that name their credential, whatever the state.\<close>

locale single_use =
  fixes serve :: "'r \<Rightarrow> ('s, 'e, 'a) act" and key :: "'r \<Rightarrow> 'k" and spent :: "'k \<Rightarrow> 's \<Rightarrow> bool"
  assumes spends: "serve r s = (Inr x, t) \<Longrightarrow> spent (key r) t"
    and stays: "spent k s \<Longrightarrow> spent k (snd (serve r s))"
    and refused: "spent (key r) s \<Longrightarrow> isl (fst (serve r s))"

sublocale single_use \<subseteq> named: single_use_at serve "\<lambda>r _. Some (key r)" spent
  by unfold_locales (auto dest: spends stays refused)

context single_use
begin

lemma at_most_one_success: "successes key k rs (fst (run_all serve rs s)) \<le> 1"
  using named.at_most_one_use by (simp add: successes_uses)

end

subsection \<open>Tables\<close>

definition upd_where :: "('r \<Rightarrow> bool) \<Rightarrow> ('r \<Rightarrow> 'r) \<Rightarrow> 'r list \<Rightarrow> 'r list" where
  "upd_where p f rs = map (\<lambda>r. if p r then f r else r) rs"

lemma upd_where_Nil [simp]: "upd_where p f [] = []"
  by (simp add: upd_where_def)

lemma upd_where_Cons [simp]:
  "upd_where p f (r # rs) = (if p r then f r else r) # upd_where p f rs"
  by (simp add: upd_where_def)

lemma upd_where_append [simp]: "upd_where p f (rs @ qs) = upd_where p f rs @ upd_where p f qs"
  by (simp add: upd_where_def)

lemma length_upd_where [simp]: "length (upd_where p f rs) = length rs"
  by (simp add: upd_where_def)

lemma set_upd_where: "set (upd_where p f rs) = (\<lambda>r. if p r then f r else r) ` set rs"
  by (simp add: upd_where_def)

lemma map_upd_where_frame [table_simps]:
  "(\<And>r. g (f r) = g r) \<Longrightarrow> map g (upd_where p f rs) = map g rs"
  by (induction rs) auto

lemma upd_where_none [table_simps]: "(\<And>r. r \<in> set rs \<Longrightarrow> \<not> p r) \<Longrightarrow> upd_where p f rs = rs"
  by (induction rs) auto

lemma find_upd_where_other:
  assumes "\<And>r. r \<in> set rs \<Longrightarrow> p r \<Longrightarrow> \<not> q r \<and> \<not> q (f r)"
  shows "find q (upd_where p f rs) = find q rs"
  using assms by (induction rs) auto

lemma find_upd_where_same:
  assumes "\<And>r. q (f r) = q r"
  shows "find q (upd_where p f rs) =
         map_option (\<lambda>r. if p r then f r else r) (find q rs)"
  using assms by (induction rs) auto

lemma find_SomeD: "find p rs = Some r \<Longrightarrow> r \<in> set rs \<and> p r"
  by (induction rs) (auto split: if_splits)

lemma find_None_iff_set: "find p rs = None \<longleftrightarrow> (\<forall>r \<in> set rs. \<not> p r)"
  by (auto simp: find_None_iff)

text \<open>A keyed table: at most one row for each key value.\<close>

lemma find_key_distinct:
  assumes "distinct (map k rs)" and "r \<in> set rs"
  shows "find (\<lambda>x. k x = k r) rs = Some r"
  using assms by (induction rs) (auto simp: image_iff)

lemma sum_list_upd_where_key:
  fixes v :: "'r \<Rightarrow> int"
  assumes "distinct (map k rs)" and "find (\<lambda>x. k x = i) rs = Some r"
  shows "sum_list (map v (upd_where (\<lambda>x. k x = i) f rs)) = sum_list (map v rs) - v r + v (f r)"
  using assms
proof (induction rs)
  case Nil
  then show ?case by simp
next
  case (Cons x xs)
  show ?case
  proof (cases "k x = i")
    case True
    with Cons.prems have "upd_where (\<lambda>x. k x = i) f xs = xs"
      by (intro upd_where_none) (auto simp: image_iff)
    with True Cons.prems show ?thesis by simp
  next
    case False
    with Cons show ?thesis by simp
  qed
qed

lemma sum_list_filter_append:
  fixes v :: "'r \<Rightarrow> int"
  shows "sum_list (map v (filter p (rs @ [r]))) =
         sum_list (map v (filter p rs)) + (if p r then v r else 0)"
  by simp

subsection \<open>Python strings\<close>

definition py_isspace :: "char \<Rightarrow> bool" where
  "py_isspace c \<longleftrightarrow>
     (let n = (of_char c :: nat) in (9 \<le> n \<and> n \<le> 13) \<or> (28 \<le> n \<and> n \<le> 32) \<or> n = 133 \<or> n = 160)"

definition py_isdigit :: "char \<Rightarrow> bool" where
  "py_isdigit c \<longleftrightarrow> (let n = (of_char c :: nat) in 48 \<le> n \<and> n \<le> 57)"

text \<open>\<open>str.casefold\<close> on ASCII letters; other characters of the 8-bit range are left alone.\<close>

definition py_fold_char :: "char \<Rightarrow> char" where
  "py_fold_char c = (let n = (of_char c :: nat) in if 65 \<le> n \<and> n \<le> 90 then char_of (n + 32) else c)"

definition py_upper_char :: "char \<Rightarrow> char" where
  "py_upper_char c = (let n = (of_char c :: nat) in if 97 \<le> n \<and> n \<le> 122 then char_of (n - 32) else c)"

definition py_casefold :: "string \<Rightarrow> string" where
  "py_casefold s = map py_fold_char s"

text \<open>\<^verbatim>\<open>str.lower\<close>, which agrees with \<^verbatim>\<open>str.casefold\<close> on ASCII letters.\<close>

definition py_lower :: "string \<Rightarrow> string" where
  "py_lower s = map py_fold_char s"

definition py_upper :: "string \<Rightarrow> string" where
  "py_upper s = map py_upper_char s"

definition py_lstrip :: "string \<Rightarrow> string" where
  "py_lstrip s = dropWhile py_isspace s"

definition py_strip :: "string \<Rightarrow> string" where
  "py_strip s = rev (dropWhile py_isspace (rev (dropWhile py_isspace s)))"

text \<open>\<open>s[-n:]\<close>: the last \<open>n\<close> characters.\<close>

definition py_last :: "nat \<Rightarrow> string \<Rightarrow> string" where
  "py_last n s = drop (length s - n) s"

lemma py_fold_char_idem: "py_fold_char (py_fold_char c) = py_fold_char c"
  by (auto simp: py_fold_char_def Let_def)

lemma py_casefold_idem [simp]: "py_casefold (py_casefold s) = py_casefold s"
  by (simp add: py_casefold_def py_fold_char_idem)

lemma length_py_casefold [simp]: "length (py_casefold s) = length s"
  by (simp add: py_casefold_def)

lemma py_strip_snoc_space: "py_isspace c \<Longrightarrow> py_strip (s @ [c]) = py_strip s"
proof (cases "\<forall>x \<in> set s. py_isspace x")
  case True
  moreover assume "py_isspace c"
  ultimately have "dropWhile py_isspace (s @ [c]) = []" "dropWhile py_isspace s = []" unfolding dropWhile_eq_Nil_conv by auto
  then show ?thesis by (simp only: py_strip_def)
next
  case False
  moreover assume "py_isspace c"
  ultimately show ?thesis by (auto simp: py_strip_def dropWhile_append1)
qed

lemma py_strip_no_space: "(\<And>c. c \<in> set s \<Longrightarrow> \<not> py_isspace c) \<Longrightarrow> py_strip s = s"
proof -
  assume a: "\<And>c. c \<in> set s \<Longrightarrow> \<not> py_isspace c"
  have "dropWhile py_isspace t = t" if "set t \<subseteq> set s" for t
    using that a by (cases t) auto
  then show ?thesis by (simp add: py_strip_def)
qed

end
