(* ===== verification/Json.thy ===== *)
theory Json
  imports Prelude "HOL-Library.Char_ord" "HOL-Library.List_Lexorder"
begin

section \<open>Canonical JSON\<close>

text \<open>
  The signatures of the ledger and of the audit chain are computed over the text that
  \<^verbatim>\<open>json.dumps(payload, separators=(",", ":"), sort_keys=True)\<close> prints. This theory models that
  printer for the values the application signs (no floats) and proves that it loses nothing:
  two different values never print to the same text, also when more text follows
  (\<open>dumps_append_inject\<close>), so a signature over the text is a signature over the value.
\<close>

datatype json =
    JNull
  | JBool bool
  | JInt int
  | JStr string
  | JArr "json list"
  | JObj "(string \<times> json) list"

subsection \<open>Decimal numerals\<close>

definition digit_char :: "nat \<Rightarrow> char" where
  "digit_char d = char_of (48 + d)"

fun nat_str :: "nat \<Rightarrow> string" where
  "nat_str n = (if n < 10 then [digit_char n] else nat_str (n div 10) @ [digit_char (n mod 10)])"

declare nat_str.simps [simp del]

definition int_str :: "int \<Rightarrow> string" where
  "int_str i = (if i < 0 then ''-'' @ nat_str (nat (- i)) else nat_str (nat i))"

definition digits_val :: "string \<Rightarrow> nat" where
  "digits_val s = foldl (\<lambda>a c. 10 * a + (of_char c - 48)) 0 s"

lemma of_char_digit_char: "d < 10 \<Longrightarrow> of_char (digit_char d) = 48 + d"
  by (simp add: digit_char_def)

lemma isdigit_digit_char [simp]: "d < 10 \<Longrightarrow> py_isdigit (digit_char d)"
  by (simp add: py_isdigit_def of_char_digit_char)

lemma nat_str_digits: "c \<in> set (nat_str n) \<Longrightarrow> py_isdigit c"
proof (induction n rule: nat_str.induct)
  case (1 n)
  then show ?case by (cases "n < 10") (auto simp: nat_str.simps [of n])
qed

lemma nat_str_not_Nil [simp]: "nat_str n \<noteq> []"
  by (subst nat_str.simps) simp

lemma digits_val_nat_str [simp]: "digits_val (nat_str n) = n"
proof (induction n rule: nat_str.induct)
  case (1 n)
  show ?case
  proof (cases "n < 10")
    case True
    then show ?thesis by (simp add: nat_str.simps [of n] digits_val_def of_char_digit_char)
  next
    case False
    with 1 have "digits_val (nat_str (n div 10)) = n div 10" by simp
    with False show ?thesis
      by (simp add: nat_str.simps [of n] digits_val_def of_char_digit_char)
  qed
qed

lemma nat_str_inject [simp]: "nat_str m = nat_str n \<longleftrightarrow> m = n"
  by (metis digits_val_nat_str)

definition no_digit_next :: "string \<Rightarrow> bool" where
  "no_digit_next r \<longleftrightarrow> (case r of [] \<Rightarrow> True | c # _ \<Rightarrow> \<not> py_isdigit c)"

lemma digit_split_unique:
  assumes "\<forall>c \<in> set a. p c" "\<forall>c \<in> set b. p c"
    and "case r of [] \<Rightarrow> True | c # _ \<Rightarrow> \<not> p c" "case r' of [] \<Rightarrow> True | c # _ \<Rightarrow> \<not> p c"
    and "a @ r = b @ r'"
  shows "a = b \<and> r = r'"
proof -
  have tw: "takeWhile p (x @ y) = x" if "\<forall>c \<in> set x. p c" "case y of [] \<Rightarrow> True | c # _ \<Rightarrow> \<not> p c"
    for x y using that by (cases y) (auto simp: takeWhile_append takeWhile_eq_all_conv)
  have "a = b" using tw [of a r] tw [of b r'] assms by simp
  then show ?thesis using assms by simp
qed

lemma nat_str_append_inject:
  "nat_str m @ r = nat_str n @ r' \<Longrightarrow> no_digit_next r \<Longrightarrow> no_digit_next r' \<Longrightarrow> m = n \<and> r = r'"
  using digit_split_unique [of "nat_str m" py_isdigit "nat_str n" r r']
  by (auto simp: no_digit_next_def nat_str_digits)

lemma hd_nat_str_digit: "py_isdigit (hd (nat_str n))"
  using nat_str_digits [of "hd (nat_str n)" n] by simp

lemma not_isdigit_minus [simp]: "\<not> py_isdigit (CHR ''-'')"
  by (simp add: py_isdigit_def)

lemma nat_str_not_minus [simp]: "nat_str n @ r \<noteq> CHR ''-'' # t" "CHR ''-'' # t \<noteq> nat_str n @ r"
  using hd_nat_str_digit [of n] by (cases "nat_str n"; auto)+

lemma int_str_append_inject:
  assumes "int_str i @ r = int_str j @ r'" "no_digit_next r" "no_digit_next r'"
  shows "i = j \<and> r = r'"
proof -
  have sign: "(i < 0) = (j < 0)" using assms(1) by (auto simp: int_str_def split: if_splits)
  show ?thesis
  proof (cases "i < 0")
    case True
    with sign assms(1) have "nat_str (nat (- i)) @ r = nat_str (nat (- j)) @ r'"
      by (simp add: int_str_def)
    from nat_str_append_inject [OF this assms(2,3)] True sign show ?thesis by auto
  next
    case False
    with sign assms(1) have "nat_str (nat i) @ r = nat_str (nat j) @ r'"
      by (simp add: int_str_def)
    from nat_str_append_inject [OF this assms(2,3)] False sign show ?thesis by auto
  qed
qed

lemma int_str_inject [simp]: "int_str i = int_str j \<longleftrightarrow> i = j"
  using int_str_append_inject [of i "[]" j "[]"] by (auto simp: no_digit_next_def)

subsection \<open>String literals\<close>

definition hex_digit :: "nat \<Rightarrow> char" where
  "hex_digit d = (if d < 10 then char_of (48 + d) else char_of (87 + d))"

definition hex_val :: "char \<Rightarrow> nat" where
  "hex_val c = (let n = of_char c in if n < 58 then n - 48 else n - 87)"

text \<open>\<open>py_encode_basestring_ascii\<close>: the escapes of one character.\<close>

definition esc_char :: "char \<Rightarrow> string" where
  "esc_char c =
     (let n = (of_char c :: nat) in
      if n = 34 then [CHR 0x5C, CHR 0x22]
      else if n = 92 then [CHR 0x5C, CHR 0x5C]
      else if n = 8 then [CHR 0x5C, CHR ''b'']
      else if n = 9 then [CHR 0x5C, CHR ''t'']
      else if n = 10 then [CHR 0x5C, CHR ''n'']
      else if n = 12 then [CHR 0x5C, CHR ''f'']
      else if n = 13 then [CHR 0x5C, CHR ''r'']
      else if n < 32 \<or> 126 < n
        then [CHR 0x5C, CHR ''u'', CHR ''0'', CHR ''0'', hex_digit (n div 16), hex_digit (n mod 16)]
      else [c])"

definition json_str :: "string \<Rightarrow> string" where
  "json_str s = CHR 0x22 # concat (map esc_char s) @ [CHR 0x22]"

text \<open>The reading direction, one character at a time.\<close>

fun unesc :: "string \<Rightarrow> (char \<times> string) option" where
  "unesc [] = None"
| "unesc (c # r) =
     (if c = CHR 0x22 then None
      else if c \<noteq> CHR 0x5C then Some (c, r)
      else (case r of
          [] \<Rightarrow> None
        | e # r' \<Rightarrow>
            if e = CHR 0x22 \<or> e = CHR 0x5C then Some (e, r')
            else if e = CHR ''b'' then Some (char_of (8::nat), r')
            else if e = CHR ''t'' then Some (char_of (9::nat), r')
            else if e = CHR ''n'' then Some (char_of (10::nat), r')
            else if e = CHR ''f'' then Some (char_of (12::nat), r')
            else if e = CHR ''r'' then Some (char_of (13::nat), r')
            else if e = CHR ''u'' then
              (case r' of a # b # x # y # r'' \<Rightarrow> Some (char_of (16 * hex_val x + hex_val y), r'')
               | _ \<Rightarrow> None)
            else None))"

lemma hex_val_hex_digit [simp]: "d < 16 \<Longrightarrow> hex_val (hex_digit d) = d"
  by (auto simp: hex_val_def hex_digit_def Let_def)

lemma char_eq_of_char: "c = CHR 0x22 \<longleftrightarrow> of_char c = (34::nat)" "c = CHR 0x5C \<longleftrightarrow> of_char c = (92::nat)"
  by (auto simp flip: of_char_eq_iff [where 'a = nat])

lemma char_of_quote [simp]: "char_of (34::nat) = CHR 0x22" "char_of (92::nat) = CHR 0x5C"
  by code_simp+

lemma esc_char_fixed:
  assumes "n \<in> {34, 92, 8, 9, 10, 12, 13::nat}"
  shows "unesc (esc_char (char_of n) @ r) = Some (char_of n, r)"
  using assms by (auto simp: esc_char_def Let_def char_eq_of_char)

lemma esc_char_other:
  assumes "of_char c \<notin> {34, 92, 8, 9, 10, 12, 13::nat}"
  shows "unesc (esc_char c @ r) = Some (c, r)"
proof (cases "of_char c < (32::nat) \<or> 126 < (of_char c :: nat)")
  case True
  have "of_char c div 16 < (16::nat)"
    using less_mult_imp_div_less [of "of_char c" 16 16] by simp
  then have "char_of (16 * hex_val (hex_digit (of_char c div 16))
      + hex_val (hex_digit (of_char c mod 16))) = c"
    by simp
  with True assms show ?thesis by (auto simp: esc_char_def Let_def)
next
  case False
  with assms show ?thesis by (auto simp: esc_char_def Let_def char_eq_of_char)
qed

lemma unesc_esc_char [simp]: "unesc (esc_char c @ r) = Some (c, r)"
proof (cases "of_char c \<in> {34, 92, 8, 9, 10, 12, 13::nat}")
  case True
  from esc_char_fixed [OF True] show ?thesis by simp
next
  case False
  then show ?thesis by (rule esc_char_other)
qed

lemma esc_char_no_quote [simp]: "esc_char c @ r \<noteq> CHR 0x22 # t" "CHR 0x22 # t \<noteq> esc_char c @ r"
proof -
  have "unesc (esc_char c @ r) \<noteq> unesc (CHR 0x22 # t)" by simp
  then show "esc_char c @ r \<noteq> CHR 0x22 # t" "CHR 0x22 # t \<noteq> esc_char c @ r" by metis+
qed

lemma esc_char_append_inject [simp]: "esc_char c @ x = esc_char d @ y \<longleftrightarrow> c = d \<and> x = y"
  by (metis option.inject prod.inject unesc_esc_char)

lemma esc_string_append_inject:
  "concat (map esc_char s) @ CHR 0x22 # r = concat (map esc_char t) @ CHR 0x22 # r' \<Longrightarrow> s = t \<and> r = r'"
proof (induction s arbitrary: t)
  case Nil
  then show ?case by (cases t) auto
next
  case (Cons c s)
  then show ?case by (cases t) (auto dest!: Cons.IH)
qed

lemma json_str_append_inject [simp]: "json_str s @ r = json_str t @ r' \<longleftrightarrow> s = t \<and> r = r'"
  using esc_string_append_inject [of s r t r'] by (auto simp: json_str_def)

subsection \<open>Values\<close>

fun join :: "string \<Rightarrow> string list \<Rightarrow> string" where
  "join sep [] = []"
| "join sep [x] = x"
| "join sep (x # y # xs) = x @ sep @ join sep (y # xs)"

primrec dumps :: "json \<Rightarrow> string" where
  "dumps JNull = ''null''"
| "dumps (JBool b) = (if b then ''true'' else ''false'')"
| "dumps (JInt i) = int_str i"
| "dumps (JStr s) = json_str s"
| "dumps (JArr xs) = ''['' @ join '','' (map dumps xs) @ '']''"
| "dumps (JObj kvs) =
     ''{'' @ join '','' (map (\<lambda>(k, d). json_str k @ '':'' @ d) (map (map_prod id dumps) kvs)) @ ''}''"

text \<open>\<open>sort_keys=True\<close>: the members of every object in the order of their keys.\<close>

primrec sort_keys :: "json \<Rightarrow> json" where
  "sort_keys JNull = JNull"
| "sort_keys (JBool b) = JBool b"
| "sort_keys (JInt i) = JInt i"
| "sort_keys (JStr s) = JStr s"
| "sort_keys (JArr xs) = JArr (map sort_keys xs)"
| "sort_keys (JObj kvs) = JObj (sort_key fst (map (map_prod id sort_keys) kvs))"

definition json_dumps :: "json \<Rightarrow> string" where
  "json_dumps j = dumps (sort_keys j)"

text \<open>What may follow a value inside a document: nothing, a comma or a closing bracket.\<close>

definition delim :: "string \<Rightarrow> bool" where
  "delim r \<longleftrightarrow> (case r of [] \<Rightarrow> True | c # _ \<Rightarrow> c \<in> set '',]}'')"

lemma delim_simps [simp]:
  "delim []" "delim (CHR '','' # r)" "delim (CHR '']'' # r)" "delim (CHR ''}'' # r)"
  by (simp_all add: delim_def)

lemma delim_no_digit [intro]: "delim r \<Longrightarrow> no_digit_next r"
  by (auto simp: delim_def no_digit_next_def py_isdigit_def split: list.splits)

text \<open>The first character of a printed value tells its constructor.\<close>

definition first_class :: "char \<Rightarrow> nat" where
  "first_class c =
     (if c = CHR ''n'' then 0 else if c = CHR ''t'' then 1 else if c = CHR ''f'' then 2
      else if py_isdigit c \<or> c = CHR ''-'' then 3 else if c = CHR 0x22 then 4
      else if c = CHR ''['' then 5 else if c = CHR ''{'' then 6 else 7)"

fun shape :: "json \<Rightarrow> nat" where
  "shape JNull = 0"
| "shape (JBool b) = (if b then 1 else 2)"
| "shape (JInt i) = 3"
| "shape (JStr s) = 4"
| "shape (JArr xs) = 5"
| "shape (JObj kvs) = 6"

lemma int_str_not_Nil [simp]: "int_str i \<noteq> []"
  by (simp add: int_str_def)

lemma first_class_digit: "py_isdigit c \<Longrightarrow> first_class c = 3"
  by (auto simp: first_class_def py_isdigit_def)

lemma first_class_dumps [simp]: "dumps j \<noteq> [] \<and> first_class (hd (dumps j)) = shape j"
proof (cases j)
  case (JInt i)
  then show ?thesis
    by (auto simp: int_str_def first_class_digit hd_nat_str_digit)
       (simp add: first_class_def)
qed (auto simp: first_class_def json_str_def py_isdigit_def)

lemma dumps_append_shape: "dumps j @ r = dumps k @ r' \<Longrightarrow> shape j = shape k"
  using first_class_dumps [of j] first_class_dumps [of k] by (metis hd_append2)

lemma shape_less [simp]: "shape j < 7"
  by (cases j) auto

lemma dumps_not_close [simp]:
  "dumps j @ r \<noteq> CHR '']'' # t" "CHR '']'' # t \<noteq> dumps j @ r"
proof -
  have "first_class (CHR '']'') = 7" by (simp add: first_class_def py_isdigit_def)
  then show "dumps j @ r \<noteq> CHR '']'' # t" "CHR '']'' # t \<noteq> dumps j @ r"
    using first_class_dumps [of j] shape_less [of j]
    by (metis hd_append2 less_irrefl list.sel(1))+
qed

lemma join_Cons: "join sep (x # xs) = x @ (if xs = [] then [] else sep @ join sep xs)"
  by (cases xs) auto

lemma dumps_list_append_inject:
  assumes IH: "\<And>x y r r'. x \<in> set xs \<Longrightarrow> dumps x @ r = dumps y @ r' \<Longrightarrow> delim r \<Longrightarrow> delim r' \<Longrightarrow> x = y \<and> r = r'"
    and eq: "join '','' (map dumps xs) @ CHR '']'' # r = join '','' (map dumps ys) @ CHR '']'' # r'"
  shows "xs = ys \<and> r = r'"
  using assms
proof (induction xs arbitrary: ys)
  case Nil
  then show ?case by (cases ys) (auto simp: join_Cons)
next
  case (Cons x xs)
  obtain y ys' where ys: "ys = y # ys'"
    using Cons.prems(2) by (cases ys) (auto simp: join_Cons)
  have sub: "\<And>x y r r'. x \<in> set xs \<Longrightarrow> dumps x @ r = dumps y @ r' \<Longrightarrow> delim r \<Longrightarrow> delim r' \<Longrightarrow> x = y \<and> r = r'"
    using Cons.prems(1) by (meson list.set_intros(2))
  define t where "t = (\<lambda>zs q. (if zs = [] then [] else '','' @ join '','' (map dumps zs)) @ CHR '']'' # q)"
  have delim_t: "delim (t zs q)" for zs q by (simp add: t_def)
  have eq: "dumps x @ t xs r = dumps y @ t ys' r'"
    using Cons.prems(2) ys by (simp add: join_Cons t_def split del: if_split)
  have "x = y \<and> t xs r = t ys' r'"
    by (rule Cons.prems(1) [OF _ eq delim_t delim_t]) simp
  then have xy: "x = y" and rest: "t xs r = t ys' r'" by blast+
  have "xs = ys' \<and> r = r'"
  proof (cases "xs = [] \<or> ys' = []")
    case True
    with rest show ?thesis by (auto simp: t_def split: if_splits)
  next
    case False
    with rest have tl: "join '','' (map dumps xs) @ CHR '']'' # r = join '','' (map dumps ys') @ CHR '']'' # r'"
      by (simp add: t_def)
    show ?thesis by (rule Cons.IH [OF sub tl])
  qed
  with xy ys show ?case by simp
qed

definition dump_member :: "string \<times> json \<Rightarrow> string" where
  "dump_member kv = json_str (fst kv) @ '':'' @ dumps (snd kv)"

lemma dump_members_map:
  "map (\<lambda>(k, d). json_str k @ '':'' @ d) (map (map_prod id dumps) kvs) = map dump_member kvs"
  by (auto simp: dump_member_def)

lemma json_str_not_close [simp]:
  "json_str s @ r \<noteq> CHR ''}'' # t" "CHR ''}'' # t \<noteq> json_str s @ r"
  by (simp_all add: json_str_def)

lemma dumps_members_append_inject:
  assumes IH: "\<And>k x y r r'. (k, x) \<in> set xs \<Longrightarrow> dumps x @ r = dumps y @ r' \<Longrightarrow> delim r \<Longrightarrow> delim r' \<Longrightarrow> x = y \<and> r = r'"
    and eq: "join '','' (map dump_member xs) @ CHR ''}'' # r = join '','' (map dump_member ys) @ CHR ''}'' # r'"
  shows "xs = ys \<and> r = r'"
  using assms
proof (induction xs arbitrary: ys)
  case Nil
  then show ?case by (cases ys) (auto simp: join_Cons dump_member_def)
next
  case (Cons x xs)
  obtain y ys' where ys: "ys = y # ys'"
    using Cons.prems(2) by (cases ys) (auto simp: join_Cons dump_member_def)
  have sub: "\<And>k x y r r'. (k, x) \<in> set xs \<Longrightarrow> dumps x @ r = dumps y @ r' \<Longrightarrow> delim r \<Longrightarrow> delim r' \<Longrightarrow> x = y \<and> r = r'"
    using Cons.prems(1) by (meson list.set_intros(2))
  define t where "t = (\<lambda>zs q. (if zs = [] then [] else '','' @ join '','' (map dump_member zs)) @ CHR ''}'' # q)"
  have delim_t: "delim (t zs q)" for zs q by (simp add: t_def)
  have "dump_member x @ t xs r = dump_member y @ t ys' r'"
    using Cons.prems(2) ys by (simp add: join_Cons t_def split del: if_split)
  then have key: "fst x = fst y" and val: "dumps (snd x) @ t xs r = dumps (snd y) @ t ys' r'"
    by (simp_all add: dump_member_def)
  have "(fst x, snd x) \<in> set (x # xs)" by simp
  from Cons.prems(1) [OF this val] delim_t have xy: "snd x = snd y" and rest: "t xs r = t ys' r'"
    by auto
  have "xs = ys' \<and> r = r'"
  proof (cases "xs = [] \<or> ys' = []")
    case True
    with rest show ?thesis by (auto simp: t_def split: if_splits)
  next
    case False
    with rest have tl: "join '','' (map dump_member xs) @ CHR ''}'' # r = join '','' (map dump_member ys') @ CHR ''}'' # r'"
      by (simp add: t_def)
    show ?thesis by (rule Cons.IH [OF sub tl])
  qed
  with xy key ys show ?case by (simp add: prod_eq_iff)
qed

theorem dumps_append_inject:
  "dumps j @ r = dumps k @ r' \<Longrightarrow> delim r \<Longrightarrow> delim r' \<Longrightarrow> j = k \<and> r = r'"
proof (induction j arbitrary: k r r')
  case (JArr xs)
  then obtain ys where k: "k = JArr ys"
    using dumps_append_shape [OF JArr.prems(1)] by (cases k) (auto split: if_splits)
  with JArr.prems have "join '','' (map dumps xs) @ CHR '']'' # r = join '','' (map dumps ys) @ CHR '']'' # r'"
    by simp
  from dumps_list_append_inject [OF JArr.IH this] k show ?case by simp
next
  case (JObj xs)
  then obtain ys where k: "k = JObj ys"
    using dumps_append_shape [OF JObj.prems(1)] by (cases k) (auto split: if_splits)
  with JObj.prems
  have "join '','' (map dump_member xs) @ CHR ''}'' # r = join '','' (map dump_member ys) @ CHR ''}'' # r'"
    by (simp only: dumps.simps dump_members_map) simp
  from dumps_members_append_inject [OF JObj.IH this] k show ?case by (simp add: snds.simps)
next
  case (JInt i)
  then obtain m where k: "k = JInt m"
    using dumps_append_shape [OF JInt.prems(1)] by (cases k) (auto split: if_splits)
  with JInt int_str_append_inject [of i r m r'] show ?case by auto
next
  case (JStr s)
  then show ?case
    using dumps_append_shape [OF JStr.prems(1)] by (cases k) (auto split: if_splits)
next
  case JNull
  then show ?case
    using dumps_append_shape [OF JNull.prems(1)] by (cases k) (auto split: if_splits)
next
  case (JBool b)
  then show ?case
    using dumps_append_shape [OF JBool.prems(1)] by (cases k) (auto split: if_splits)
qed

corollary dumps_inject [simp]: "dumps j = dumps k \<longleftrightarrow> j = k"
  using dumps_append_inject [of j "[]" k "[]"] by auto

text \<open>A document built from a literal dictionary: equal text means equal values, member by member.\<close>

lemma sort_key_fst_inject:
  assumes "sort_key fst xs = sort_key fst ys" and "map fst xs = map fst ys" and "distinct (map fst xs)"
  shows "xs = ys"
proof (rule nth_equalityI)
  show l: "length xs = length ys" using assms(2) by (metis length_map)
  fix i assume i: "i < length xs"
  have "set xs = set ys" using assms(1) by (metis set_sort)
  then obtain j where j: "j < length ys" "xs ! i = ys ! j"
    using i by (metis in_set_conv_nth)
  have "map fst xs ! j = map fst xs ! i" using assms(2) i j l by (metis nth_map)
  then have "j = i" using nth_eq_iff_index_eq [OF assms(3)] i j(1) l by simp
  with j show "xs ! i = ys ! i" by simp
qed

lemma json_dumps_obj_inject:
  assumes "json_dumps (JObj xs) = json_dumps (JObj ys)" and "map fst xs = map fst ys"
    and "distinct (map fst xs)"
  shows "map (sort_keys \<circ> snd) xs = map (sort_keys \<circ> snd) ys"
proof -
  have fst: "map fst (map (map_prod id sort_keys) zs) = map fst zs" for zs :: "(string \<times> json) list"
    by (induction zs) auto
  have snd: "map snd (map (map_prod id sort_keys) zs) = map (sort_keys \<circ> snd) zs" for zs :: "(string \<times> json) list"
    by (induction zs) auto
  have "sort_key fst (map (map_prod id sort_keys) xs) = sort_key fst (map (map_prod id sort_keys) ys)"
    using assms(1) by (simp only: json_dumps_def dumps_inject sort_keys.simps json.inject)
  then have "map (map_prod id sort_keys) xs = map (map_prod id sort_keys) ys"
    by (rule sort_key_fst_inject) (simp only: fst assms(2), simp only: fst assms(3))
  then show ?thesis using snd by metis
qed

lemma sort_keys_sort_keys_scalar [simp]:
  "sort_keys j = JNull \<longleftrightarrow> j = JNull" "sort_keys j = JBool b \<longleftrightarrow> j = JBool b"
  "sort_keys j = JInt i \<longleftrightarrow> j = JInt i" "sort_keys j = JStr s \<longleftrightarrow> j = JStr s"
  by (cases j; simp)+

end
