(* ===== verification/Calendar.thy ===== *)
theory Calendar
  imports Json
begin

section \<open>Instants, the proleptic Gregorian calendar and Singapore time\<close>

text \<open>
  A datetime of the application is an instant: microseconds since 1970-01-01 UTC, as \<open>int\<close>
  (naive values read from the database are interpreted as UTC by every \<^verbatim>\<open>_as_utc\<close> helper, so the
  instant is all that is left of them). Dates are computed as the \<^verbatim>\<open>datetime\<close> module does, by the
  proleptic Gregorian ordinal. The theory proves that ordinal and date determine each other, that
  ISO timestamps are injective, and what the two Singapore-time window functions of
  \<^verbatim>\<open>app/banking/services.py\<close> return.
\<close>

type_synonym time = int

definition second_us :: int where "second_us = 1000000"
definition hour_us :: int where "hour_us = 3600 * 1000000"
definition day_us :: int where "day_us = 86400 * 1000000"

definition seconds :: "int \<Rightarrow> int" where
  "seconds n = n * second_us"

subsection \<open>Dates\<close>

definition is_leap :: "int \<Rightarrow> bool" where
  "is_leap y \<longleftrightarrow> y mod 4 = 0 \<and> (y mod 100 \<noteq> 0 \<or> y mod 400 = 0)"

definition days_before_year :: "int \<Rightarrow> int" where
  "days_before_year y = (y - 1) * 365 + (y - 1) div 4 - (y - 1) div 100 + (y - 1) div 400"

definition days_in_month :: "int \<Rightarrow> int \<Rightarrow> int" where
  "days_in_month y m =
     (if m = 2 then (if is_leap y then 29 else 28)
      else if m = 4 \<or> m = 6 \<or> m = 9 \<or> m = 11 then 30 else 31)"

definition month_table :: "int list" where
  "month_table = [0, 31, 59, 90, 120, 151, 181, 212, 243, 273, 304, 334]"

definition days_before_month :: "bool \<Rightarrow> int \<Rightarrow> int" where
  "days_before_month leap m = month_table ! nat (m - 1) + (if m > 2 \<and> leap then 1 else 0)"

definition ymd2ord :: "int \<Rightarrow> int \<Rightarrow> int \<Rightarrow> int" where
  "ymd2ord y m d = days_before_year y + days_before_month (is_leap y) m + d"

definition valid_date :: "int \<Rightarrow> int \<Rightarrow> int \<Rightarrow> bool" where
  "valid_date y m d \<longleftrightarrow> 1 \<le> m \<and> m \<le> 12 \<and> 1 \<le> d \<and> d \<le> days_in_month y m"

fun scan_month :: "bool \<Rightarrow> int \<Rightarrow> int list \<Rightarrow> int" where
  "scan_month leap e [] = 1"
| "scan_month leap e (m # ms) = (if days_before_month leap m \<le> e then m else scan_month leap e ms)"

definition ord2ymd :: "int \<Rightarrow> int \<times> int \<times> int" where
  "ord2ymd ord =
     (let n = ord - 1;
          n400 = n div 146097; n = n mod 146097;
          n100 = n div 36524; n = n mod 36524;
          n4 = n div 1461; n = n mod 1461;
          n1 = n div 365; n = n mod 365;
          year = n400 * 400 + 1 + n100 * 100 + n4 * 4 + n1
      in if n1 = 4 \<or> n100 = 4 then (year - 1, 12, 31)
         else let leap = (n1 = 3 \<and> (n4 \<noteq> 24 \<or> n100 = 3));
                  m = scan_month leap n [12, 11, 10, 9, 8, 7, 6, 5, 4, 3, 2]
              in (year, m, n - days_before_month leap m + 1))"

lemma month_disj:
  "1 \<le> (m::int) \<Longrightarrow> m \<le> 12 \<Longrightarrow> m = 1 \<or> m = 2 \<or> m = 3 \<or> m = 4 \<or> m = 5 \<or> m = 6
     \<or> m = 7 \<or> m = 8 \<or> m = 9 \<or> m = 10 \<or> m = 11 \<or> m = 12"
  by presburger

lemma days_before_month_simps [simp]:
  "days_before_month l 1 = 0" "days_before_month l 2 = 31"
  "days_before_month l 3 = 59 + of_bool l" "days_before_month l 4 = 90 + of_bool l"
  "days_before_month l 5 = 120 + of_bool l" "days_before_month l 6 = 151 + of_bool l"
  "days_before_month l 7 = 181 + of_bool l" "days_before_month l 8 = 212 + of_bool l"
  "days_before_month l 9 = 243 + of_bool l" "days_before_month l 10 = 273 + of_bool l"
  "days_before_month l 11 = 304 + of_bool l" "days_before_month l 12 = 334 + of_bool l"
  by (simp_all add: days_before_month_def month_table_def)

lemma scan_month_spec:
  assumes "0 \<le> e" "e < 365 + of_bool leap"
    and "m = scan_month leap e [12, 11, 10, 9, 8, 7, 6, 5, 4, 3, 2]"
    and "leap = is_leap y"
  shows "1 \<le> m \<and> m \<le> 12 \<and> days_before_month leap m \<le> e \<and> e - days_before_month leap m < days_in_month y m"
  using assms by (auto simp: days_in_month_def split: if_splits)

lemma year_length: "days_before_year (y + 1) = days_before_year y + 365 + of_bool (is_leap y)"
proof -
  have generic: "y * 365 + (p + a) - (q + b) + (r + c) = (y - 1) * 365 + p - q + r + 365 + a - b + c"
    for p q r a b c :: int by simp
  have *: "y div k = (y - 1) div k + of_bool (y mod k = 0)" if "k > 1" for k :: int
  proof -
    have "y = k * (y div k) + y mod k" by simp
    moreover have "0 \<le> y mod k" "y mod k < k" using that by simp_all
    ultimately show ?thesis
    proof (cases "y mod k = 0")
      case True
      then have "y - 1 = k * (y div k - 1) + (k - 1)" by (auto simp: algebra_simps)
      moreover have "(k * (y div k - 1) + (k - 1)) div k = y div k - 1"
        using that by (simp add: div_pos_pos_trivial)
      ultimately have "(y - 1) div k = y div k - 1" by (simp only:)
      then show ?thesis using True by simp
    next
      case False
      then have "y - 1 = k * (y div k) + (y mod k - 1)" by simp
      moreover have "(k * (y div k) + (y mod k - 1)) div k = y div k"
        using that False \<open>0 \<le> y mod k\<close> \<open>y mod k < k\<close> by (simp add: div_pos_pos_trivial)
      ultimately have "(y - 1) div k = y div k" by (simp only:)
      then show ?thesis using False by simp
    qed
  qed
  have s4: "y div 4 = (y - 1) div 4 + of_bool (y mod 4 = 0)" by (rule *) simp
  have s100: "y div 100 = (y - 1) div 100 + of_bool (y mod 100 = 0)" by (rule *) simp
  have s400: "y div 400 = (y - 1) div 400 + of_bool (y mod 400 = 0)" by (rule *) simp
  have "days_before_year (y + 1) = y * 365 + y div 4 - y div 100 + y div 400"
    by (simp only: days_before_year_def add_diff_cancel_right')
  also have "\<dots> = days_before_year y + 365
      + of_bool (y mod 4 = 0) - of_bool (y mod 100 = 0) + of_bool (y mod 400 = 0)"
    unfolding s4 s100 s400 days_before_year_def by (rule generic)
  finally have diff: "days_before_year (y + 1) = days_before_year y + 365
      + of_bool (y mod 4 = 0) - of_bool (y mod 100 = 0) + of_bool (y mod 400 = 0)" .
  have "y mod 100 = 0 \<Longrightarrow> y mod 4 = 0" "y mod 400 = 0 \<Longrightarrow> y mod 100 = 0" by presburger+
  then have "of_bool (y mod 4 = 0) - of_bool (y mod 100 = 0) + of_bool (y mod 400 = 0) = (of_bool (is_leap y) :: int)"
    unfolding is_leap_def by (cases "y mod 4 = 0"; cases "y mod 100 = 0"; cases "y mod 400 = 0") simp_all
  with diff show ?thesis by linarith
qed

lemma days_before_year_mono: "y \<le> z \<Longrightarrow> days_before_year y \<le> days_before_year z"
proof (induction z rule: int_ge_induct)
  case base
  then show ?case by simp
next
  case (step z)
  then show ?case by (simp add: year_length)
qed

lemma month_end_le_year:
  assumes "valid_date y m d"
  shows "0 < days_before_month (is_leap y) m + d"
    "days_before_month (is_leap y) m + d \<le> 365 + of_bool (is_leap y)"
proof -
  from assms have "1 \<le> m" "m \<le> 12" by (auto simp: valid_date_def)
  from month_disj [OF this] assms show "0 < days_before_month (is_leap y) m + d"
    "days_before_month (is_leap y) m + d \<le> 365 + of_bool (is_leap y)"
    by (auto simp: valid_date_def days_in_month_def split: if_splits)
qed

lemma ymd2ord_year:
  assumes "valid_date y m d"
  shows "days_before_year y < ymd2ord y m d" "ymd2ord y m d \<le> days_before_year (y + 1)"
  using month_end_le_year [OF assms] by (simp_all add: ymd2ord_def year_length)

lemma month_mono:
  assumes "valid_date y m d" "valid_date y n e" "m < n"
  shows "days_before_month (is_leap y) m + d < days_before_month (is_leap y) n + e"
proof -
  have "days_before_month (is_leap y) m + days_in_month y m \<le> days_before_month (is_leap y) n"
    if "1 \<le> m" "m < n" "n \<le> 12"
  proof -
    have "m = 1 \<or> m = 2 \<or> m = 3 \<or> m = 4 \<or> m = 5 \<or> m = 6 \<or> m = 7 \<or> m = 8 \<or> m = 9 \<or> m = 10 \<or> m = 11"
      using month_disj [of m] that by auto
    moreover have "n \<in> {2, 3, 4, 5, 6, 7} \<union> {8, 9, 10, 11, 12}"
      using month_disj [of n] that by auto
    ultimately show ?thesis
      using that(2) by (elim disjE UnE insertE emptyE) (simp_all add: days_in_month_def)
  qed
  with assms show ?thesis by (auto simp: valid_date_def)
qed

lemma ymd2ord_inject:
  assumes "valid_date y m d" "valid_date z n e" "ymd2ord y m d = ymd2ord z n e"
  shows "y = z \<and> m = n \<and> d = e"
proof -
  have "y = z"
  proof (rule ccontr)
    assume "y \<noteq> z"
    then consider "y + 1 \<le> z" | "z + 1 \<le> y" by linarith
    then show False
      by cases (use ymd2ord_year [OF assms(1)] ymd2ord_year [OF assms(2)] assms(3)
        days_before_year_mono [of "y + 1" z] days_before_year_mono [of "z + 1" y] in linarith)+
  qed
  moreover have "m = n"
    using month_mono [of y m d n e] month_mono [of y n e m d] assms \<open>y = z\<close>
    by (cases m n rule: linorder_cases) (auto simp: ymd2ord_def)
  ultimately show ?thesis using assms(3) by (simp add: ymd2ord_def)
qed

lemma div_unique_pos: "(k::int) > 0 \<Longrightarrow> x = k * q + r \<Longrightarrow> 0 \<le> r \<Longrightarrow> r < k \<Longrightarrow> x div k = q"
  by (simp add: div_pos_pos_trivial)

lemma mod_unique_pos: "(k::int) > 0 \<Longrightarrow> x = k * q + r \<Longrightarrow> 0 \<le> r \<Longrightarrow> r < k \<Longrightarrow> x mod k = r"
  by (simp add: mod_pos_pos_trivial)

lemma days_before_year_cycle:
  fixes a b c d :: int
  assumes "0 \<le> b" "b \<le> 3" "0 \<le> c" "c \<le> 24" "0 \<le> d" "d \<le> 3"
  shows "days_before_year (400 * a + 1 + 100 * b + 4 * c + d) = 146097 * a + 36524 * b + 1461 * c + 365 * d"
proof -
  let ?x = "400 * a + 100 * b + 4 * c + d"
  have "?x div 4 = 100 * a + 25 * b + c" using assms by (intro div_unique_pos [where r = d]) auto
  moreover have "?x div 100 = 4 * a + b" using assms by (intro div_unique_pos [where r = "4 * c + d"]) auto
  moreover have "?x div 400 = a" using assms by (intro div_unique_pos [where r = "100 * b + 4 * c + d"]) auto
  moreover have "400 * a + 1 + 100 * b + 4 * c + d - 1 = ?x" by simp
  ultimately show ?thesis unfolding days_before_year_def by (simp add: algebra_simps)
qed

lemma is_leap_cycle:
  fixes a b c d :: int
  assumes "0 \<le> b" "b \<le> 3" "0 \<le> c" "c \<le> 24" "0 \<le> d" "d \<le> 3"
  shows "is_leap (400 * a + 1 + 100 * b + 4 * c + d) \<longleftrightarrow> d = 3 \<and> (c \<noteq> 24 \<or> b = 3)"
proof (cases "d = 3")
  case False
  have "(400 * a + 1 + 100 * b + 4 * c + d) mod 4 = 1 + d"
    using assms False by (intro mod_unique_pos [where q = "100 * a + 25 * b + c"]) auto
  with False assms show ?thesis by (auto simp: is_leap_def)
next
  case True
  let ?y = "400 * a + 1 + 100 * b + 4 * c + d"
  have m4: "?y mod 4 = 0" using True by (intro mod_unique_pos [where q = "100 * a + 25 * b + c + 1"]) auto
  show ?thesis
  proof (cases "c = 24")
    case False
    have "?y mod 100 = 4 * c + 4"
      using assms False True by (intro mod_unique_pos [where q = "4 * a + b"]) auto
    with m4 False True assms show ?thesis by (simp add: is_leap_def)
  next
    case c24: True
    have "?y mod 100 = 0" using True c24 by (intro mod_unique_pos [where q = "4 * a + b + 1"]) auto
    moreover have "?y mod 400 = (if b = 3 then 0 else 100 * (b + 1))"
      using True c24 assms
      by (intro mod_unique_pos [where q = "if b = 3 then a + 1 else a"]) auto
    ultimately show ?thesis using m4 True c24 assms by (auto simp: is_leap_def)
  qed
qed

text \<open>The arithmetic of one step of the cycle decomposition.\<close>

lemma cycle_parts:
  fixes n :: int
  defines "r0 \<equiv> n mod 146097"
  defines "r1 \<equiv> r0 mod 36524"
  defines "r2 \<equiv> r1 mod 1461"
  shows "0 \<le> r0 div 36524" "r0 div 36524 \<le> 4" "0 \<le> r1 div 1461" "r1 div 1461 \<le> 24"
    "0 \<le> r2 div 365" "r2 div 365 \<le> 4" "0 \<le> r2 mod 365" "r2 mod 365 < 365"
    "r0 div 36524 = 4 \<Longrightarrow> r1 = 0" "r2 div 365 = 4 \<Longrightarrow> r2 mod 365 = 0 \<and> r1 div 1461 \<noteq> 24"
    "n = 146097 * (n div 146097) + 36524 * (r0 div 36524) + 1461 * (r1 div 1461)
         + 365 * (r2 div 365) + r2 mod 365"
proof -
  have e0: "n = 146097 * (n div 146097) + r0" and r0: "0 \<le> r0" "r0 < 146097"
    by (simp_all add: r0_def)
  have e1: "r0 = 36524 * (r0 div 36524) + r1" and r1: "0 \<le> r1" "r1 < 36524"
    by (simp_all add: r1_def)
  have e2: "r1 = 1461 * (r1 div 1461) + r2" and r2: "0 \<le> r2" "r2 < 1461"
    by (simp_all add: r2_def)
  have e3: "r2 = 365 * (r2 div 365) + r2 mod 365" and r3: "0 \<le> r2 mod 365" "r2 mod 365 < 365"
    by simp_all
  show "0 \<le> r0 div 36524" "0 \<le> r1 div 1461" "0 \<le> r2 div 365" "0 \<le> r2 mod 365" "r2 mod 365 < 365"
    using r0 r1 r2 by (simp_all add: pos_imp_zdiv_nonneg_iff)
  show "r0 div 36524 \<le> 4" "r0 div 36524 = 4 \<Longrightarrow> r1 = 0" using e1 r0 r1 by linarith+
  show "r1 div 1461 \<le> 24" using e2 r1 r2 by linarith
  show "r2 div 365 \<le> 4" using e3 r2 r3 by linarith
  show "r2 div 365 = 4 \<Longrightarrow> r2 mod 365 = 0 \<and> r1 div 1461 \<noteq> 24" using e2 e3 r1 r2 r3 by linarith
  show "n = 146097 * (n div 146097) + 36524 * (r0 div 36524) + 1461 * (r1 div 1461)
         + 365 * (r2 div 365) + r2 mod 365"
    using e0 e1 e2 e3 by linarith
qed

lemma last_day: "valid_date y 12 31" "ymd2ord y 12 31 = days_before_year (y + 1)"
  by (simp_all add: valid_date_def days_in_month_def ymd2ord_def year_length)

lemma ord2ymd_sound: "ord2ymd k = (y, m, d) \<Longrightarrow> valid_date y m d \<and> ymd2ord y m d = k"
proof -
  assume res: "ord2ymd k = (y, m, d)"
  define n where "n = k - 1"
  define a where "a = n div 146097"
  define r0 where "r0 = n mod 146097"
  define b where "b = r0 div 36524"
  define r1 where "r1 = r0 mod 36524"
  define c where "c = r1 div 1461"
  define r2 where "r2 = r1 mod 1461"
  define f where "f = r2 div 365"
  define e where "e = r2 mod 365"
  define Y where "Y = 400 * a + 1 + 100 * b + 4 * c + f"
  note cp = cycle_parts [of n, folded a_def r0_def, folded b_def r1_def, folded c_def r2_def, folded f_def e_def]
  have parts: "0 \<le> b" "b \<le> 4" "0 \<le> c" "c \<le> 24" "0 \<le> f" "f \<le> 4" "0 \<le> e" "e < 365"
    "b = 4 \<Longrightarrow> r1 = 0" "f = 4 \<Longrightarrow> e = 0 \<and> c \<noteq> 24"
    and n: "n = 146097 * a + 36524 * b + 1461 * c + 365 * f + e"
    by (fact cp)+
  have ord: "ord2ymd k =
      (if f = 4 \<or> b = 4 then (Y - 1, 12, 31)
       else let leap = (f = 3 \<and> (c \<noteq> 24 \<or> b = 3));
                m = scan_month leap e [12, 11, 10, 9, 8, 7, 6, 5, 4, 3, 2]
            in (Y, m, e - days_before_month leap m + 1))"
    unfolding ord2ymd_def Let_def Y_def a_def b_def c_def e_def f_def r0_def r1_def r2_def n_def
    by (simp add: mult.commute)
  show ?thesis
  proof (cases "f = 4 \<or> b = 4")
    case True
    with ord res have ymd: "y = Y - 1" "m = 12" "d = 31" by simp_all
    have "days_before_year Y = k"
    proof (cases "b = 4")
      case True
      with parts have "r1 = 0" by blast
      then have "c = 0" "f = 0" "e = 0" by (simp_all add: c_def f_def e_def r2_def)
      with True n days_before_year_cycle [of 0 0 0 "a + 1"] show ?thesis
        by (simp add: Y_def n_def algebra_simps)
    next
      case False
      with True parts have "f = 4" "e = 0" "c \<le> 23" by auto
      with False parts n days_before_year_cycle [of b "c + 1" 0 a] show ?thesis
        by (simp add: Y_def n_def algebra_simps)
    qed
    with ymd last_day [of "Y - 1"] show ?thesis by simp
  next
    case False
    with parts have bf: "b \<le> 3" "f \<le> 3" by auto
    define leap where "leap = (f = 3 \<and> (c \<noteq> 24 \<or> b = 3))"
    have leap: "leap = is_leap Y"
      using is_leap_cycle [of b c f a] parts bf by (simp add: leap_def Y_def)
    from False ord res have y: "y = Y" and d: "d = e - days_before_month leap m + 1"
      and m: "m = scan_month leap e [12, 11, 10, 9, 8, 7, 6, 5, 4, 3, 2]"
      by (simp_all add: Let_def leap_def)
    have "1 \<le> m \<and> m \<le> 12 \<and> days_before_month leap m \<le> e \<and> e - days_before_month leap m < days_in_month Y m"
      by (rule scan_month_spec [OF _ _ m leap]) (use parts in auto)
    moreover have "days_before_year Y = 146097 * a + 36524 * b + 1461 * c + 365 * f"
      unfolding Y_def by (rule days_before_year_cycle) (use parts bf in auto)
    ultimately show ?thesis
      using n y d leap by (simp add: valid_date_def ymd2ord_def n_def)
  qed
qed

theorem ord2ymd_ymd2ord: "valid_date y m d \<Longrightarrow> ord2ymd (ymd2ord y m d) = (y, m, d)"
proof -
  assume v: "valid_date y m d"
  obtain y' m' d' where o: "ord2ymd (ymd2ord y m d) = (y', m', d')" by (metis prod.exhaust)
  from ord2ymd_sound [OF o] ymd2ord_inject [of y' m' d' y m d] v o show ?thesis by simp
qed

lemma ord2ymd_inject: "ord2ymd k = ord2ymd l \<Longrightarrow> k = l"
proof -
  assume "ord2ymd k = ord2ymd l"
  moreover obtain y m d where "ord2ymd k = (y, m, d)" by (metis prod.exhaust)
  ultimately show ?thesis using ord2ymd_sound by metis
qed

subsection \<open>ISO timestamps\<close>

definition epoch_ord :: int where "epoch_ord = 719163"

definition date_of :: "time \<Rightarrow> int \<times> int \<times> int" where
  "date_of t = ord2ymd (t div day_us + epoch_ord)"

text \<open>\<open>%0kd\<close>: at least \<open>k\<close> digits, padded with zeros.\<close>

definition pad :: "nat \<Rightarrow> int \<Rightarrow> string" where
  "pad k i = replicate (k - length (int_str i)) (CHR ''0'') @ int_str i"

text \<open>\<open>isoformat(timespec="microseconds")\<close> of the UTC instant, without offset.\<close>

definition isoformat_us :: "time \<Rightarrow> string" where
  "isoformat_us t =
     (let (y, m, d) = date_of t; s = t mod day_us in
      pad 4 y @ ''-'' @ pad 2 m @ ''-'' @ pad 2 d @ ''T''
      @ pad 2 (s div hour_us) @ '':'' @ pad 2 (s div (60 * second_us) mod 60)
      @ '':'' @ pad 2 (s div second_us mod 60) @ ''.'' @ pad 6 (s mod second_us))"

text \<open>The instants a \<open>datetime\<close> can hold: years 1 to 9999.\<close>

definition time_ok :: "time \<Rightarrow> bool" where
  "time_ok t \<longleftrightarrow> (case date_of t of (y, m, d) \<Rightarrow> 1 \<le> y \<and> y \<le> 9999)"

lemma digits_val_replicate: "digits_val (replicate k (CHR ''0'') @ s) = digits_val s"
proof -
  have "foldl (\<lambda>a c. 10 * a + (of_char c - 48)) 0 (replicate k (CHR ''0'')) = (0::nat)"
    by (induction k) simp_all
  then show ?thesis by (simp add: digits_val_def)
qed

lemma pad_inject: "0 \<le> i \<Longrightarrow> 0 \<le> j \<Longrightarrow> pad k i = pad k j \<longleftrightarrow> i = j"
proof
  assume ij: "0 \<le> i" "0 \<le> j" and eq: "pad k i = pad k j"
  from eq have "digits_val (pad k i) = digits_val (pad k j)" by simp
  with ij show "i = j" by (simp add: pad_def digits_val_replicate int_str_def)
qed simp

lemma length_nat_str: "0 < k \<Longrightarrow> n < 10 ^ k \<Longrightarrow> length (nat_str n) \<le> k"
proof (induction k arbitrary: n)
  case (Suc k)
  show ?case
  proof (cases "n < 10")
    case False
    then have "0 < k" using Suc.prems by (cases k) auto
    with Suc False have "length (nat_str (n div 10)) \<le> k" by (simp add: less_mult_imp_div_less)
    with False show ?thesis by (simp add: nat_str.simps [of n])
  qed (simp add: nat_str.simps [of n])
qed simp

lemma length_pad: "0 < k \<Longrightarrow> 0 \<le> i \<Longrightarrow> i < 10 ^ k \<Longrightarrow> length (pad k i) = k"
  using length_nat_str [of k "nat i"] by (simp add: pad_def int_str_def nat_less_iff)

lemma pad_append_inject:
  assumes "0 < k" "0 \<le> i" "i < 10 ^ k" "0 \<le> j" "j < 10 ^ k"
  shows "pad k i @ r = pad k j @ r' \<longleftrightarrow> i = j \<and> r = r'"
  using assms by (simp add: length_pad append_eq_append_conv pad_inject)

lemma clock_decompose:
  "s = (s div hour_us) * hour_us + (s div (60 * second_us) mod 60) * (60 * second_us)
       + (s div second_us mod 60) * second_us + s mod second_us"
proof -
  define q where "q = s div second_us"
  have m: "s div (60 * second_us) = q div 60" and h: "s div hour_us = q div 60 div 60"
    unfolding q_def by (simp_all add: second_us_def hour_us_def flip: zdiv_zmult2_eq)
  define a b c where "a = q div 60 div 60" and "b = q div 60 mod 60" and "c = q mod 60"
  have gen: "x = q * 1000000 + r \<Longrightarrow> q = (a * 60 + b) * 60 + c \<Longrightarrow>
      x = a * (3600 * 1000000) + b * (60 * 1000000) + c * 1000000 + r" for x r
    by simp
  have "s = q * 1000000 + s mod 1000000" unfolding q_def second_us_def by simp
  moreover have "q = (a * 60 + b) * 60 + c" unfolding a_def b_def c_def by simp
  ultimately have "s = a * hour_us + b * (60 * second_us) + c * second_us + s mod second_us"
    unfolding hour_us_def second_us_def by (rule gen)
  then show ?thesis unfolding a_def b_def c_def m h q_def [symmetric] .
qed

lemma div_less_24: "s < 24 * 3600000000 \<Longrightarrow> s div 3600000000 < (24::int)"
  by linarith

lemma clock_bounds:
  fixes t :: int
  defines "s \<equiv> t mod day_us"
  shows "0 \<le> s div hour_us" "s div hour_us < 24"
    "0 \<le> s div (60 * second_us) mod 60" "s div (60 * second_us) mod 60 < 60"
    "0 \<le> s div second_us mod 60" "s div second_us mod 60 < 60"
    "0 \<le> s mod second_us" "s mod second_us < 1000000"
proof -
  have "0 \<le> s" "s < day_us" unfolding s_def by (simp_all add: day_us_def)
  moreover have "day_us = 24 * hour_us" by (simp add: day_us_def hour_us_def)
  ultimately show "0 \<le> s div hour_us" "s div hour_us < 24"
    by (auto simp: hour_us_def pos_imp_zdiv_nonneg_iff div_less_24)
qed (simp_all add: second_us_def)

definition iso_fields :: "int \<Rightarrow> int \<Rightarrow> int \<Rightarrow> int \<Rightarrow> int \<Rightarrow> int \<Rightarrow> int \<Rightarrow> string" where
  "iso_fields y m d h i s us = pad 4 y @ ''-'' @ pad 2 m @ ''-'' @ pad 2 d @ ''T''
      @ pad 2 h @ '':'' @ pad 2 i @ '':'' @ pad 2 s @ ''.'' @ pad 6 us"

definition iso_range :: "int \<Rightarrow> int \<Rightarrow> int \<Rightarrow> int \<Rightarrow> int \<Rightarrow> int \<Rightarrow> int \<Rightarrow> bool" where
  "iso_range y m d h i s us \<longleftrightarrow> 0 \<le> y \<and> y < 10000 \<and> 0 \<le> m \<and> m < 100 \<and> 0 \<le> d \<and> d < 100
     \<and> 0 \<le> h \<and> h < 100 \<and> 0 \<le> i \<and> i < 100 \<and> 0 \<le> s \<and> s < 100 \<and> 0 \<le> us"

lemma iso_fields_inject:
  assumes rng: "iso_range y m d h i s us" "iso_range y' m' d' h' i' s' us'"
    and eq: "iso_fields y m d h i s us = iso_fields y' m' d' h' i' s' us'"
  shows "y = y' \<and> m = m' \<and> d = d' \<and> h = h' \<and> i = i' \<and> s = s' \<and> us = us'"
proof -
  note p4 = pad_append_inject [of 4, simplified] and p2 = pad_append_inject [of 2, simplified]
  note rng = rng [unfolded iso_range_def]
  from eq have 1: "y = y'" and "''-'' @ pad 2 m @ ''-'' @ pad 2 d @ ''T''
      @ pad 2 h @ '':'' @ pad 2 i @ '':'' @ pad 2 s @ ''.'' @ pad 6 us = ''-'' @ pad 2 m' @ ''-'' @ pad 2 d' @ ''T''
      @ pad 2 h' @ '':'' @ pad 2 i' @ '':'' @ pad 2 s' @ ''.'' @ pad 6 us'"
    unfolding iso_fields_def using p4 [of y y'] rng by simp_all
  then have "pad 2 m @ ''-'' @ pad 2 d @ ''T''
      @ pad 2 h @ '':'' @ pad 2 i @ '':'' @ pad 2 s @ ''.'' @ pad 6 us = pad 2 m' @ ''-'' @ pad 2 d' @ ''T''
      @ pad 2 h' @ '':'' @ pad 2 i' @ '':'' @ pad 2 s' @ ''.'' @ pad 6 us'" by simp
  then have 2: "m = m'" and "pad 2 d @ ''T''
      @ pad 2 h @ '':'' @ pad 2 i @ '':'' @ pad 2 s @ ''.'' @ pad 6 us = pad 2 d' @ ''T''
      @ pad 2 h' @ '':'' @ pad 2 i' @ '':'' @ pad 2 s' @ ''.'' @ pad 6 us'"
    using p2 [of m m'] rng by simp_all
  then have 3: "d = d'" and "pad 2 h @ '':'' @ pad 2 i @ '':'' @ pad 2 s @ ''.'' @ pad 6 us =
      pad 2 h' @ '':'' @ pad 2 i' @ '':'' @ pad 2 s' @ ''.'' @ pad 6 us'"
    using p2 [of d d'] rng by simp_all
  then have 4: "h = h'" and "pad 2 i @ '':'' @ pad 2 s @ ''.'' @ pad 6 us =
      pad 2 i' @ '':'' @ pad 2 s' @ ''.'' @ pad 6 us'"
    using p2 [of h h'] rng by simp_all
  then have 5: "i = i'" and "pad 2 s @ ''.'' @ pad 6 us = pad 2 s' @ ''.'' @ pad 6 us'"
    using p2 [of i i'] rng by simp_all
  then have 6: "s = s'" and "pad 6 us = pad 6 us'"
    using p2 [of s s'] rng by simp_all
  then have "us = us'" using rng by (simp add: pad_inject)
  with 1 2 3 4 5 6 show ?thesis by simp
qed

theorem isoformat_us_inject:
  assumes ok: "time_ok t" "time_ok u" and eq: "isoformat_us t = isoformat_us u"
  shows "t = u"
proof -
  obtain y m d where t: "date_of t = (y, m, d)" by (metis prod.exhaust)
  obtain y' m' d' where u: "date_of u = (y', m', d')" by (metis prod.exhaust)
  have vt: "valid_date y m d" and vu: "valid_date y' m' d'"
    using ord2ymd_sound t u by (auto simp: date_of_def)
  have rng: "0 \<le> y" "y < 10 ^ 4" "0 \<le> y'" "y' < 10 ^ 4" using ok t u by (auto simp: time_ok_def)
  have dm: "d \<le> 31" "d' \<le> 31"
    using vt vu by (auto simp: valid_date_def days_in_month_def split: if_splits)
  let ?s = "t mod day_us" and ?v = "u mod day_us"
  obtain h i x w where ct: "h = ?s div hour_us" "i = ?s div (60 * second_us) mod 60"
    "x = ?s div second_us mod 60" "w = ?s mod second_us" by blast
  obtain h' i' x' w' where cu: "h' = ?v div hour_us" "i' = ?v div (60 * second_us) mod 60"
    "x' = ?v div second_us mod 60" "w' = ?v mod second_us" by blast
  have fields: "iso_fields y m d h i x w = iso_fields y' m' d' h' i' x' w'"
    using eq unfolding isoformat_us_def iso_fields_def t u ct cu by (simp only: Let_def prod.case)
  have bt: "0 \<le> m" "m \<le> 12" "0 \<le> d" "0 \<le> m'" "m' \<le> 12" "0 \<le> d'"
    using vt vu by (simp_all add: valid_date_def)
  have "y = y' \<and> m = m' \<and> d = d' \<and> h = h' \<and> i = i' \<and> x = x' \<and> w = w'"
  proof (rule iso_fields_inject [OF _ _ fields])
    show "iso_range y m d h i x w"
      using bt dm rng clock_bounds [of t, folded ct] by (simp add: iso_range_def)
    show "iso_range y' m' d' h' i' x' w'"
      using bt dm rng clock_bounds [of u, folded cu] by (simp add: iso_range_def)
  qed
  then have "date_of t = date_of u" and "?s = ?v"
    using t u clock_decompose [of ?s, folded ct] clock_decompose [of ?v, folded cu] by simp_all
  then have "t div day_us = u div day_us"
    using ord2ymd_inject unfolding date_of_def by force
  with \<open>?s = ?v\<close> show ?thesis by (metis div_mult_mod_eq)
qed

text \<open>\<open>isoformat()\<close> leaves the fraction out when it is zero; the audit log writes the offset as \<open>Z\<close>.\<close>

definition utc_iso :: "time \<Rightarrow> string" where
  "utc_iso t = (let s = isoformat_us t in
     (if t mod second_us = 0 then take (length s - 7) s else s) @ ''Z'')"

lemma length_isoformat_us:
  assumes "time_ok t"
  shows "length (isoformat_us t) = 26"
proof -
  obtain y m d where t: "date_of t = (y, m, d)" by (metis prod.exhaust)
  have v: "valid_date y m d" using ord2ymd_sound t by (auto simp: date_of_def)
  have dm: "0 \<le> m" "m < 100" "0 \<le> d" "d < 100"
    using v by (auto simp: valid_date_def days_in_month_def split: if_splits)
  have y: "0 \<le> y" "y < 10 ^ 4" using assms t by (auto simp: time_ok_def)
  note b = clock_bounds [of t]
  have "length (pad 4 y) = 4" "length (pad 2 m) = 2" "length (pad 2 d) = 2"
    using y dm by (simp_all add: length_pad)
  moreover have "length (pad 2 (t mod day_us div hour_us)) = 2"
      "length (pad 2 (t mod day_us div (60 * second_us) mod 60)) = 2"
      "length (pad 2 (t mod day_us div second_us mod 60)) = 2"
      "length (pad 6 (t mod day_us mod second_us)) = 6"
    using b by (simp_all add: length_pad)
  ultimately show ?thesis by (simp add: isoformat_us_def t Let_def)
qed

lemma isoformat_us_whole_second:
  assumes "t mod second_us = 0"
  shows "isoformat_us t = take (length (isoformat_us t) - 7) (isoformat_us t) @ ''.000000''"
proof -
  have "t mod day_us mod second_us = 0"
    using assms by (simp add: day_us_def second_us_def mod_mod_cancel)
  moreover have "pad 6 0 = ''000000''"
    by code_simp
  moreover obtain y m d where "date_of t = (y, m, d)" by (metis prod.exhaust)
  ultimately have "isoformat_us t = (pad 4 y @ ''-'' @ pad 2 m @ ''-'' @ pad 2 d @ ''T''
      @ pad 2 (t mod day_us div hour_us) @ '':'' @ pad 2 (t mod day_us div (60 * second_us) mod 60)
      @ '':'' @ pad 2 (t mod day_us div second_us mod 60)) @ ''.000000''"
    by (simp add: isoformat_us_def Let_def)
  moreover have "z = p @ ''.000000'' \<Longrightarrow> z = take (length z - 7) z @ ''.000000''" for z p :: string
    by simp
  ultimately show ?thesis by blast
qed

theorem utc_iso_inject:
  assumes ok: "time_ok t" "time_ok u" and eq: "utc_iso t = utc_iso u"
  shows "t = u"
proof -
  have len: "length (isoformat_us t) = 26" "length (isoformat_us u) = 26"
    using ok by (simp_all add: length_isoformat_us)
  have "length (utc_iso t) = length (utc_iso u)" using eq by simp
  then have "t mod second_us = 0 \<longleftrightarrow> u mod second_us = 0"
    by (auto simp: utc_iso_def Let_def len split: if_splits)
  then have "isoformat_us t = isoformat_us u"
    using eq isoformat_us_whole_second [of t] isoformat_us_whole_second [of u]
    by (auto simp: utc_iso_def Let_def len split: if_splits)
  with ok show ?thesis by (rule isoformat_us_inject)
qed

subsection \<open>Singapore time windows\<close>

text \<open>\<open>_SGT_OFFSET\<close>: UTC+8, no daylight saving.\<close>

definition sgt_offset :: int where "sgt_offset = 8 * hour_us"

text \<open>
  \<^verbatim>\<open>reference.astimezone(_SGT_OFFSET).replace(hour=0, minute=0, second=0, microsecond=0)\<close>, then back
  to UTC.
\<close>

definition sgt_day_start_utc :: "time \<Rightarrow> time" where
  "sgt_day_start_utc now = (let local = now + sgt_offset in local - local mod day_us - sgt_offset)"

lemma day_us_pos [simp]: "0 < day_us"
  by (simp add: day_us_def)

lemma sgt_day_start_bounds: "sgt_day_start_utc t \<le> t" "t < sgt_day_start_utc t + day_us"
  using pos_mod_bound [OF day_us_pos, of "t + sgt_offset"] pos_mod_sign [OF day_us_pos, of "t + sgt_offset"]
  by (simp_all add: sgt_day_start_utc_def Let_def)

lemma sgt_day_start_eq_iff:
  "sgt_day_start_utc t = sgt_day_start_utc u \<longleftrightarrow> (t + sgt_offset) div day_us = (u + sgt_offset) div day_us"
proof -
  have "sgt_day_start_utc t = (t + sgt_offset) div day_us * day_us - sgt_offset" for t
    by (simp add: sgt_day_start_utc_def Let_def minus_mod_eq_div_mult)
  moreover have "day_us \<noteq> 0" by (simp add: day_us_def)
  ultimately show ?thesis by simp
qed

text \<open>A window \<open>[day start, day start + 24h)\<close> holds exactly the instants with that day start.\<close>

lemma sgt_day_window:
  "sgt_day_start_utc t \<le> u \<and> u < sgt_day_start_utc t + day_us \<longleftrightarrow> sgt_day_start_utc u = sgt_day_start_utc t"
proof
  assume w: "sgt_day_start_utc t \<le> u \<and> u < sgt_day_start_utc t + day_us"
  define q where "q = (t + sgt_offset) div day_us"
  have "sgt_day_start_utc t = q * day_us - sgt_offset"
    by (simp add: q_def sgt_day_start_utc_def Let_def minus_mod_eq_div_mult)
  with w have "u + sgt_offset = day_us * q + (u + sgt_offset - day_us * q)"
    "0 \<le> u + sgt_offset - day_us * q" "u + sgt_offset - day_us * q < day_us"
    by (simp_all add: algebra_simps)
  then have "(u + sgt_offset) div day_us = q" by (rule div_unique_pos [OF day_us_pos])
  then show "sgt_day_start_utc u = sgt_day_start_utc t" by (simp add: sgt_day_start_eq_iff q_def)
next
  assume "sgt_day_start_utc u = sgt_day_start_utc t"
  then show "sgt_day_start_utc t \<le> u \<and> u < sgt_day_start_utc t + day_us"
    using sgt_day_start_bounds [of u] by simp
qed

text \<open>Midnight SGT of a date, as a UTC instant.\<close>

definition sgt_midnight :: "int \<Rightarrow> int \<Rightarrow> int \<Rightarrow> time" where
  "sgt_midnight y m d = (ymd2ord y m d - epoch_ord) * day_us - sgt_offset"

text \<open>\<^verbatim>\<open>(start.replace(day=28) + timedelta(days=4)).replace(day=1)\<close>: the first of the next month.\<close>

definition next_month_first :: "int \<Rightarrow> int \<Rightarrow> int \<times> int" where
  "next_month_first y m = (let (y', m', d') = ord2ymd (ymd2ord y m 28 + 4) in (y', m'))"

lemma next_month_first_eq:
  assumes "1 \<le> m" "m \<le> 12"
  shows "next_month_first y m = (if m = 12 then (y + 1, 1) else (y, m + 1))"
proof -
  define d where "d = 32 - days_in_month y m"
  have d: "1 \<le> d" "d \<le> 4" by (simp_all add: d_def days_in_month_def)
  show ?thesis
  proof (cases "m = 12")
    case True
    then have "ymd2ord y m 28 + 4 = ymd2ord (y + 1) 1 1"
      by (simp add: ymd2ord_def year_length)
    moreover have "valid_date (y + 1) 1 1" by (simp add: valid_date_def days_in_month_def)
    ultimately show ?thesis using True by (simp add: next_month_first_def ord2ymd_ymd2ord)
  next
    case False
    with assms have "m = 1 \<or> m = 2 \<or> m = 3 \<or> m = 4 \<or> m = 5 \<or> m = 6 \<or> m = 7 \<or> m = 8 \<or> m = 9 \<or> m = 10 \<or> m = 11"
      using month_disj [of m] by blast
    then have "ymd2ord y m 28 + 4 = ymd2ord y (m + 1) d"
      by (elim disjE) (simp_all add: ymd2ord_def d_def days_in_month_def)
    moreover have "valid_date y (m + 1) d"
      using d False assms by (simp add: valid_date_def) (simp add: days_in_month_def)
    ultimately show ?thesis using False by (simp add: next_month_first_def ord2ymd_ymd2ord)
  qed
qed

lemma month_start_step:
  assumes "1 \<le> m" "m \<le> 12" and "next_month_first y m = (y', m')"
  shows "sgt_midnight y' m' 1 = sgt_midnight y m 1 + days_in_month y m * day_us"
proof -
  have "ymd2ord y' m' 1 = ymd2ord y m 1 + days_in_month y m"
    using month_disj [OF assms(1,2)] assms(3)
    by (elim disjE) (auto simp: next_month_first_eq ymd2ord_def year_length days_in_month_def)
  then show ?thesis by (simp add: sgt_midnight_def algebra_simps)
qed

end
