(* ===== verification/Models.thy ===== *)
theory Models
  imports Calendar
begin

section \<open>The data model\<close>

text \<open>
  The rows of \<^verbatim>\<open>app/models.py\<close> that the modelled services read or write, one record per model class
  with the class's column names behind a short prefix, the exceptions the services raise, and the
  check and unique constraints the database enforces when a session is committed. Money columns
  \<^verbatim>\<open>Numeric(12, 2)\<close> and \<^verbatim>\<open>Numeric(10, 2)\<close> are integers counting cents; the \<^verbatim>\<open>Numeric(12, 5)\<close> amount of a
  pending transfer counts hundred-thousandths of a dollar. The \<^verbatim>\<open>updated_at\<close> columns of \<^verbatim>\<open>User\<close> and
  \<^verbatim>\<open>PasswordResetTransaction\<close>, which the database maintains and no service reads, are left out.
\<close>

type_synonym cents = int

datatype py_error =
    AuthError string int "int option"
  | FrozenAccountError string int
  | AuditWriteError string
  | RuntimeError string
  | ValueError string
  | IntegrityError
  | DataError
  | OverflowError
  | KeyError
  | NoResultFound
  | MultipleResultsFound
  | InvalidOperation
  | AuthBackoffRequired int
  | DurableRateLimitExceeded int
  | MFASecretEnvelopeError string
  | InvalidTag
  | SessionPayloadIntegrityError string
  | RegistrationOtpError string int "int option"
  | PasswordPolicyError string
  | PasswordReuseError string
  | IdentityPolicyError string
  | ProgrammingError string

abbreviation auth_error :: "string \<Rightarrow> int \<Rightarrow> py_error" where
  "auth_error m c \<equiv> AuthError m c None"

subsection \<open>Rows\<close>

record user =
  u_id :: int
  u_username :: string
  u_email :: string
  u_email_canonical :: "string option"
  u_password_hash :: string
  u_account_type :: string
  u_account_status :: string
  u_full_name :: string
  u_phone_number :: "string option"
  u_payup_nickname :: "string option"
  u_account_number :: "string option"
  u_staff_personal_email :: "string option"
  u_workplace_email_verified_at :: "time option"
  u_password_changed_at :: time
  u_force_password_change :: bool
  u_force_password_change_reason :: "string option"
  u_force_password_change_at :: "time option"
  u_mfa_secret_ciphertext :: "string option"
  u_mfa_secret_nonce :: "string option"
  u_mfa_enabled :: bool
  u_mfa_pending_started_at :: "time option"
  u_mfa_pending_session_hash :: "string option"
  u_balance :: cents
  u_payup_daily_limit :: cents
  u_payup_enabled :: bool
  u_transfer_email_enabled :: bool
  u_local_transfer_daily_limit :: cents
  u_is_frozen :: bool
  u_failed_login_count :: int
  u_security_locked_at :: "time option"
  u_security_lock_reason :: "string option"
  u_created_at :: time
  u_last_login_at :: "time option"

record payee =
  pe_id :: int
  pe_user_id :: int
  pe_nickname :: string
  pe_account_number :: string
  pe_recipient_name :: string
  pe_created_at :: time

record transaction =
  tx_id :: int
  tx_ref :: string
  tx_hash :: string
  tx_key_id :: string
  tx_algorithm :: string
  tx_version :: int
  tx_sender_id :: int
  tx_recipient_id :: int
  tx_payee_id :: "int option"
  tx_amount :: cents
  tx_reference :: string
  tx_status :: string
  tx_type :: string
  tx_created_at :: time

text \<open>The columns shared by \<^verbatim>\<open>RegistrationCredit\<close> and \<^verbatim>\<open>TopUpCredit\<close>.\<close>

record credit =
  cr_id :: int
  cr_ref :: string
  cr_hash :: string
  cr_key_id :: string
  cr_algorithm :: string
  cr_version :: int
  cr_user_id :: int
  cr_amount :: cents
  cr_status :: string
  cr_created_at :: time

record topup_request =
  tr_id :: int
  tr_selector :: string
  tr_verifier_hmac :: string
  tr_user_id :: int
  tr_amount :: cents
  tr_status :: string
  tr_failure_count :: int
  tr_expires_at :: time
  tr_approved_at :: "time option"
  tr_credit_ref :: "string option"
  tr_created_at :: time

record idempotency =
  pi_id :: int
  pi_user_id :: int
  pi_hmac_key_id :: string
  pi_key_fingerprint :: string
  pi_key_verifier :: string
  pi_payload_verifier :: string
  pi_status :: string
  pi_result_reference :: "string option"
  pi_created_at :: time
  pi_updated_at :: time
  pi_expires_at :: time

record pending_transfer =
  pt_id :: int
  pt_token :: string
  pt_amount :: int
  pt_reference :: string
  pt_expires_at :: time
  pt_consumed_at :: "time option"
  pt_consumed_ref :: "string option"
  pt_created_at :: time
  pt_user_id :: int
  pt_payee_id :: int

record payup_pending =
  pp_id :: int
  pp_token :: string
  pp_amount :: int
  pp_reference :: string
  pp_expires_at :: time
  pp_consumed_at :: "time option"
  pp_consumed_ref :: "string option"
  pp_created_at :: time
  pp_user_id :: int
  pp_recipient_user_id :: int

record audit_row =
  ae_id :: int
  ae_event_type :: string
  ae_outcome :: string
  ae_user_id :: "int option"
  ae_ip_address :: string
  ae_user_agent :: string
  ae_correlation_id :: string
  ae_session_ref :: "string option"
  ae_metadata :: json
  ae_previous_hash :: "string option"
  ae_hash :: "string option"
  ae_algorithm :: string
  ae_created_at :: time

record auth_counter =
  ac_id :: int
  ac_scope :: string
  ac_principal_hash :: string
  ac_user_id :: "int option"
  ac_ip_hash :: "string option"
  ac_failure_count :: int
  ac_window_started_at :: time
  ac_window_expires_at :: time
  ac_locked_until :: "time option"
  ac_last_failed_at :: "time option"
  ac_created_at :: time
  ac_updated_at :: time

record totp_replay =
  rp_id :: int
  rp_user_id :: int
  rp_scope :: string
  rp_time_step :: int
  rp_code_digest :: string
  rp_expires_at :: time
  rp_created_at :: time

record recovery_code =
  rc_id :: int
  rc_user_id :: int
  rc_code_hmac :: string
  rc_hmac_version :: int
  rc_purpose :: string
  rc_created_at :: time
  rc_used_at :: "time option"

record password_history_row =
  ph_id :: int
  ph_user_id :: int
  ph_password_hash :: string
  ph_created_at :: time

record reset_token =
  rt_id :: int
  rt_selector :: string
  rt_verifier_hmac :: string
  rt_user_id :: int
  rt_purpose :: string
  rt_created_at :: time
  rt_expires_at :: time
  rt_used_at :: "time option"
  rt_exchanged_at :: "time option"
  rt_requested_ip :: string
  rt_requested_user_agent :: string

record reset_transaction =
  rx_id :: int
  rx_lookup_hash :: string
  rx_token_id :: int
  rx_user_id :: int
  rx_purpose :: string
  rx_mfa_required :: string
  rx_available_mfa_methods :: "string list"
  rx_preferred_mfa_method :: "string option"
  rx_default_mfa_method :: "string option"
  rx_mfa_verified :: bool
  rx_recovery_code_verified :: bool
  rx_no_mfa_user :: bool
  rx_failure_count :: int
  rx_last_failure_reason :: "string option"
  rx_mfa_verified_at :: "int option"
  rx_expires_at :: time
  rx_used_at :: "time option"
  rx_created_at :: time

record manual_recovery =
  mr_id :: int
  mr_identifier_ref :: string
  mr_user_id :: "int option"
  mr_reason :: "string option"
  mr_status :: string
  mr_requested_ip :: string
  mr_requested_user_agent :: string
  mr_request_count :: int
  mr_created_at :: time
  mr_updated_at :: time
  mr_last_submitted_at :: time
  mr_expires_at :: time
  mr_status_changed_at :: time
  mr_completed_at :: "time option"

record admin_action =
  aa_id :: int
  aa_operation_type :: string
  aa_target_type :: string
  aa_target_id :: string
  aa_operation_payload :: "(string \<times> json) list"
  aa_requester_id :: int
  aa_requester_role :: string
  aa_approver_id :: "int option"
  aa_status :: string
  aa_reason_present :: bool
  aa_reason_length :: int
  aa_metadata_hmac :: string
  aa_created_at :: time
  aa_updated_at :: time
  aa_expires_at :: time
  aa_decided_at :: "time option"
  aa_executed_at :: "time option"

record server_session =
  ss_id :: int
  ss_component :: string
  ss_lookup_hash :: string
  ss_session_ref :: "string option"
  ss_payload :: "string option"
  ss_payload_format :: string
  ss_user_id :: "int option"
  ss_created_at :: time
  ss_last_activity_at :: time
  ss_expires_at :: time
  ss_revoked_at :: "time option"
  ss_ended_at :: "time option"
  ss_ended_reason :: "string option"
  ss_ip_address :: string
  ss_user_agent :: string
  ss_risk_fingerprint :: string

record registration_otp =
  ro_id :: int
  ro_session_binding_hash :: string
  ro_email_hash :: string
  ro_otp_hmac :: string
  ro_attempt_count :: int
  ro_resend_available_at :: time
  ro_expires_at :: time
  ro_used_at :: "time option"
  ro_created_at :: time
  ro_updated_at :: time

record dispute =
  di_id :: int
  di_transaction_id :: int
  di_reporter_id :: int
  di_issue_type :: string
  di_reason :: string
  di_status :: string
  di_resolver_id :: "int option"
  di_resolution_note :: "string option"
  di_created_at :: time
  di_updated_at :: time
  di_decided_at :: "time option"

record support_ticket =
  tk_id :: int
  tk_user_id :: int
  tk_category :: string
  tk_subject :: string
  tk_description :: string
  tk_status :: string
  tk_resolved_by_user_id :: "int option"
  tk_resolution_note :: "string option"
  tk_created_at :: time
  tk_updated_at :: time
  tk_resolved_at :: "time option"

record known_device =
  kd_id :: int
  kd_user_id :: int
  kd_device_token_hash :: string
  kd_created_at :: time
  kd_last_seen_at :: time
  kd_expires_at :: time

record alert_dedupe =
  ad_id :: int
  ad_dedupe_key_hash :: string
  ad_event_type :: string
  ad_first_seen_at :: time
  ad_last_seen_at :: time
  ad_expires_at :: time
  ad_count :: int

record circuit_breaker =
  cb_id :: int
  cb_service_name :: string
  cb_state :: string
  cb_failure_count :: int
  cb_opened_until :: "time option"
  cb_last_failure_at :: "time option"
  cb_last_success_at :: "time option"
  cb_created_at :: time
  cb_updated_at :: time

record person_link =
  pl_id :: int
  pl_staff_user_id :: int
  pl_customer_user_id :: int
  pl_created_by_user_id :: "int option"
  pl_created_at :: time
  pl_verified_at :: "time option"
  pl_revoked_at :: "time option"
  pl_notes :: string

record staff_invite =
  si_id :: int
  si_token_hash :: string
  si_workplace_email :: string
  si_role :: string
  si_status :: string
  si_delivery_status :: string
  si_created_by_user_id :: int
  si_setup_user_id :: "int option"
  si_used_by_user_id :: "int option"
  si_revoked_by_user_id :: "int option"
  si_created_at :: time
  si_expires_at :: time
  si_used_at :: "time option"
  si_revoked_at :: "time option"
  si_last_attempt_at :: "time option"
  si_acceptance_session_hash :: "string option"
  si_acceptance_started_at :: "time option"
  si_acceptance_start_count :: int
  si_acceptance_locked_at :: "time option"
  si_verification_code_hmac :: "string option"
  si_verification_sent_at :: "time option"
  si_verification_expires_at :: "time option"
  si_workplace_verified_at :: "time option"
  si_verify_count :: int
  si_verify_locked_at :: "time option"

record database =
  users :: "user list"
  payees :: "payee list"
  transactions :: "transaction list"
  registration_credits :: "credit list"
  topup_credits :: "credit list"
  topup_requests :: "topup_request list"
  idempotency_rows :: "idempotency list"
  pending_transfers :: "pending_transfer list"
  payup_pending_transfers :: "payup_pending list"
  audit_rows :: "audit_row list"
  auth_counters :: "auth_counter list"
  totp_replays :: "totp_replay list"
  recovery_codes :: "recovery_code list"
  password_history :: "password_history_row list"
  reset_tokens :: "reset_token list"
  reset_transactions :: "reset_transaction list"
  manual_recoveries :: "manual_recovery list"
  admin_actions :: "admin_action list"
  server_sessions :: "server_session list"
  registration_otps :: "registration_otp list"
  disputes :: "dispute list"
  support_tickets :: "support_ticket list"
  known_devices :: "known_device list"
  alert_dedupes :: "alert_dedupe list"
  circuit_breakers :: "circuit_breaker list"
  person_links :: "person_link list"
  staff_invites :: "staff_invite list"

definition empty_db :: database where
  "empty_db = \<lparr>users = [], payees = [], transactions = [], registration_credits = [], topup_credits = [],
     topup_requests = [], idempotency_rows = [], pending_transfers = [], payup_pending_transfers = [],
     audit_rows = [], auth_counters = [], totp_replays = [], recovery_codes = [], password_history = [],
     reset_tokens = [], reset_transactions = [], manual_recoveries = [], admin_actions = [], server_sessions = [],
     registration_otps = [], disputes = [], support_tickets = [], known_devices = [], alert_dedupes = [],
     circuit_breakers = [], person_links = [], staff_invites = []\<rparr>"

text \<open>An autoincrement primary key.\<close>

definition next_id :: "int list \<Rightarrow> int" where
  "next_id ids = 1 + fold max ids 0"

lemma fold_max_ge: "i \<in> set ids \<Longrightarrow> i \<le> fold max ids (a::int)" "a \<le> fold max ids (a::int)"
proof (induction ids arbitrary: a)
  case (Cons x xs)
  {
    case 1
    then show ?case using Cons.IH(1) [of "max x a"] Cons.IH(2) [of "max x a"] by auto
  next
    case 2
    show ?case using Cons.IH(2) [of "max x a"] by simp
  }
qed simp_all

lemma next_id_fresh: "next_id ids \<notin> set ids"
  using fold_max_ge(1) [of "next_id ids" ids 0] by (auto simp: next_id_def)

subsection \<open>Constraints\<close>

text \<open>Amounts in cents of \<^verbatim>\<open>MIN_TRANSACTION_AMOUNT\<close>, \<^verbatim>\<open>MAX_TRANSACTION_AMOUNT\<close> and the daily limits.\<close>

definition min_transaction_amount :: cents where "min_transaction_amount = 1"
definition max_transaction_amount :: cents where "max_transaction_amount = 5000000"
definition daily_limit_min :: cents where "daily_limit_min = 10000"
definition daily_limit_max :: cents where "daily_limit_max = 1000000"

definition numeric_12_2 :: "cents \<Rightarrow> bool" where
  "numeric_12_2 x \<longleftrightarrow> \<bar>x\<bar> < 10 ^ 12"

definition user_check :: "user \<Rightarrow> bool" where
  "user_check u \<longleftrightarrow>
     u_account_type u \<in> {''customer'', ''staff'', ''admin'', ''root_admin''}
     \<and> u_account_status u \<in> {''active'', ''setup_pending'', ''revoked'', ''locked''}
     \<and> 0 \<le> u_balance u
     \<and> daily_limit_min \<le> u_payup_daily_limit u \<and> u_payup_daily_limit u \<le> daily_limit_max
     \<and> daily_limit_min \<le> u_local_transfer_daily_limit u
     \<and> u_local_transfer_daily_limit u \<le> daily_limit_max
     \<and> (case u_account_number u of None \<Rightarrow> True
        | Some a \<Rightarrow> length a = 12 \<and> list_all py_isdigit a)"

definition transaction_check :: "transaction \<Rightarrow> bool" where
  "transaction_check t \<longleftrightarrow>
     tx_status t \<in> {''completed'', ''failed''} \<and> 0 < tx_amount t
     \<and> tx_type t \<in> {''local_transfer'', ''payup'', ''topup''}
     \<and> tx_algorithm t = ''hmac-sha256'' \<and> tx_version t = 1"

definition registration_credit_check :: "credit \<Rightarrow> bool" where
  "registration_credit_check c \<longleftrightarrow>
     cr_amount c = 10000 \<and> cr_status c = ''completed''
     \<and> cr_algorithm c = ''hmac-sha256'' \<and> cr_version c = 1"

definition topup_credit_check :: "credit \<Rightarrow> bool" where
  "topup_credit_check c \<longleftrightarrow>
     min_transaction_amount \<le> cr_amount c \<and> cr_amount c \<le> max_transaction_amount
     \<and> cr_status c = ''completed'' \<and> cr_algorithm c = ''hmac-sha256'' \<and> cr_version c = 1"

definition topup_request_check :: "topup_request \<Rightarrow> bool" where
  "topup_request_check r \<longleftrightarrow>
     tr_status r \<in> {''pending'', ''completed'', ''expired'', ''failed''}
     \<and> min_transaction_amount \<le> tr_amount r \<and> tr_amount r \<le> max_transaction_amount"

definition idempotency_check :: "idempotency \<Rightarrow> bool" where
  "idempotency_check r \<longleftrightarrow> pi_status r \<in> {''reserved'', ''completed'', ''failed''}"

definition payee_check :: "payee \<Rightarrow> bool" where
  "payee_check p \<longleftrightarrow> length (pe_account_number p) = 12 \<and> list_all py_isdigit (pe_account_number p)"

definition admin_action_check :: "admin_action \<Rightarrow> bool" where
  "admin_action_check a \<longleftrightarrow>
     aa_operation_type a \<in> {''staff_deactivate'', ''staff_reactivate'', ''staff_reset_activation'',
       ''manual_recovery_approve'', ''manual_recovery_deny'', ''manual_recovery_complete'', ''customer_security_unlock''}
     \<and> aa_target_type a \<in> {''staff_user'', ''manual_recovery_request'', ''customer_user''}
     \<and> aa_requester_role a \<in> {''root_admin''}
     \<and> aa_status a \<in> {''pending'', ''rejected'', ''cancelled'', ''expired'', ''executed'', ''execution_failed''}"

definition staff_invite_check :: "staff_invite \<Rightarrow> bool" where
  "staff_invite_check i \<longleftrightarrow> si_role i \<in> {''staff'', ''admin''}
     \<and> si_status i \<in> {''pending'', ''totp_pending'', ''accepted'', ''revoked'', ''expired''}
     \<and> si_delivery_status i \<in> {''unconfirmed'', ''queued'', ''failed''}"

definition dispute_check :: "dispute \<Rightarrow> bool" where
  "dispute_check d \<longleftrightarrow>
     di_issue_type d \<in> {''unauthorized_transaction'', ''duplicate_charge'', ''incorrect_amount'',
       ''recipient_service_issue'', ''other''}
     \<and> di_status d \<in> {''open'', ''under_review'', ''resolved'', ''rejected''}"

definition support_ticket_check :: "support_ticket \<Rightarrow> bool" where
  "support_ticket_check t \<longleftrightarrow> tk_category t \<in> {''enquiry'', ''security_concern'', ''other'', ''account_recovery''}
     \<and> tk_status t \<in> {''open'', ''in_review'', ''resolved'', ''closed''}"

text \<open>Values that do not fit their column are refused before any constraint is looked at.\<close>

definition numerics_ok :: "database \<Rightarrow> bool" where
  "numerics_ok db \<longleftrightarrow>
     list_all (\<lambda>u. numeric_12_2 (u_balance u)) (users db)
     \<and> list_all (\<lambda>t. numeric_12_2 (tx_amount t)) (transactions db)"

text \<open>A unique index over a nullable column: absent values never clash.\<close>

definition distinct_some :: "'a option list \<Rightarrow> bool" where
  "distinct_some xs = distinct (List.map_filter id xs)"

definition constraints_ok :: "database \<Rightarrow> bool" where
  "constraints_ok db \<longleftrightarrow>
     list_all user_check (users db)
     \<and> distinct (map u_id (users db))
     \<and> distinct (map (\<lambda>u. py_casefold (u_username u)) (users db))
     \<and> distinct (map (\<lambda>u. py_casefold (u_email u)) (users db))
     \<and> distinct_some (map u_email_canonical (users db))
     \<and> distinct_some (map u_phone_number (users db))
     \<and> distinct_some (map u_account_number (users db))
     \<and> list_all payee_check (payees db)
     \<and> distinct (map (\<lambda>p. (pe_user_id p, pe_account_number p)) (payees db))
     \<and> list_all transaction_check (transactions db)
     \<and> distinct (map tx_ref (transactions db)) \<and> distinct (map tx_hash (transactions db))
     \<and> list_all registration_credit_check (registration_credits db)
     \<and> distinct (map cr_user_id (registration_credits db))
     \<and> distinct (map cr_ref (registration_credits db)) \<and> distinct (map cr_hash (registration_credits db))
     \<and> list_all topup_credit_check (topup_credits db)
     \<and> distinct (map cr_ref (topup_credits db)) \<and> distinct (map cr_hash (topup_credits db))
     \<and> list_all topup_request_check (topup_requests db)
     \<and> distinct (map tr_id (topup_requests db)) \<and> distinct (map tr_selector (topup_requests db))
     \<and> list_all idempotency_check (idempotency_rows db)
     \<and> distinct (map (\<lambda>r. (pi_user_id r, pi_key_fingerprint r)) (idempotency_rows db))
     \<and> distinct (map pt_id (pending_transfers db)) \<and> distinct (map pt_token (pending_transfers db))
     \<and> distinct (map pp_id (payup_pending_transfers db)) \<and> distinct (map pp_token (payup_pending_transfers db))
     \<and> distinct (map (\<lambda>c. (ac_scope c, ac_principal_hash c)) (auth_counters db))
     \<and> distinct (map (\<lambda>r. (rp_user_id r, rp_scope r, rp_time_step r, rp_code_digest r)) (totp_replays db))
     \<and> distinct (map rc_id (recovery_codes db)) \<and> distinct (map rc_code_hmac (recovery_codes db))
     \<and> distinct (map rt_selector (reset_tokens db)) \<and> distinct (map rx_lookup_hash (reset_transactions db))
     \<and> list_all admin_action_check (admin_actions db)
     \<and> distinct (map (\<lambda>r. (ss_component r, ss_lookup_hash r)) (server_sessions db))
     \<and> distinct (map (\<lambda>r. (ro_session_binding_hash r, ro_email_hash r)) (registration_otps db))
     \<and> list_all staff_invite_check (staff_invites db) \<and> distinct (map si_token_hash (staff_invites db))
     \<and> distinct (map (\<lambda>l. (pl_staff_user_id l, pl_customer_user_id l)) (person_links db))
     \<and> list_all dispute_check (disputes db)
     \<and> distinct (map di_transaction_id (filter (\<lambda>d. di_status d \<in> {''open'', ''under_review''}) (disputes db)))
     \<and> list_all support_ticket_check (support_tickets db)
     \<and> distinct (map ad_dedupe_key_hash (alert_dedupes db)) \<and> distinct (map cb_service_name (circuit_breakers db))"

end
