(* ===== verification/Request.thy ===== *)
theory Request
  imports Models
begin

section \<open>Requests: environment, database session, keyed digests\<close>

text \<open>
  The environment of one request and the session of the database, with commit and rollback. A
  request reads the clock several times; the model gives it one instant, \<open>now\<close>. What the code gets from
  libraries is a parameter of the environment: the digests \<open>hmac_sha256\<close> and \<open>sha256_hex\<close>, AES-GCM
  (\<open>aead_encrypt\<close>, \<open>aead_decrypt\<close>), base64, \<open>json_loads\<close>, the serializer of the browser session, the TOTP code of an instant (\<open>totp_at\<close>), the raw HMAC
  and PBKDF2 of the password hash, URL-safe base64, the answer of the breached-password service, the network of an IPv6 address, the parser of ISO timestamps, Python's \<open>str\<close> of a container, the random text of a
  request, and the outcome of the audit insert and of the mail relay.

  \<^item> A \<open>world\<close> holds the committed database, the working copy of the open session, the mail that left
    the system and the browser session of the request: its id and its dictionary, keyed as in the source.
    \<open>commitA\<close> publishes the working copy if the constraints hold and raises otherwise; \<open>rollbackA\<close> drops it.
\<close>

record config =
  cfg_ledger_active_key_id :: string
  cfg_ledger_keys :: "(string \<times> string) list"
  cfg_session_active_key_id :: string
  cfg_session_keys :: "(string \<times> string) list"
  cfg_audit_hmac_key :: string
  cfg_payee_cooldown_seconds :: int
  cfg_payup_quick_transfer_cap :: "cents option"
  cfg_payup_quick_daily_cap :: "cents option"
  cfg_payup_session_max_age :: "int option"
  cfg_payup_sensitive_cooldown :: "int option"
  cfg_idempotency_ttl_seconds :: "int option"
  cfg_topup_ttl_seconds :: int
  cfg_mfa_failure_limit :: int
  cfg_mfa_failure_window_seconds :: int
  cfg_totp_login_window :: int
  cfg_totp_high_risk_window :: int
  cfg_password_history_retention :: int
  cfg_session_absolute_lifetime :: int
  cfg_session_inactivity_seconds :: int
  cfg_session_lookup_hmac_key :: string
  cfg_app_mode :: string
  cfg_pending_mfa_max_age :: int
  cfg_fresh_mfa_seconds :: int
  cfg_kek_active_id :: string
  cfg_kek_keys :: "(string \<times> string) list"
  cfg_reset_enabled :: bool
  cfg_reset_token_ttl :: int
  cfg_reset_transaction_ttl :: int
  cfg_manual_recovery_ttl :: int
  cfg_profile_email_ttl :: int
  cfg_staff_invite_ttl :: int
  cfg_staff_verification_ttl :: int
  cfg_admin_mfa_failure_limit :: int
  cfg_admin_mfa_failure_window_seconds :: int
  cfg_password_history_enabled :: bool
  cfg_cleanup_batch_size :: int
  cfg_state_retention_days :: int
  cfg_device_cookie_max_age :: int
  cfg_password_pepper :: string
  cfg_pbkdf2_iterations :: int
  cfg_password_min_length :: int
  cfg_password_max_chars :: int
  cfg_common_passwords :: "string list"
  cfg_hibp_failure_threshold :: int
  cfg_hibp_open_seconds :: int
  cfg_root_admin_emails :: "string list"
  cfg_admin_email_domains :: "string list"
  cfg_temp_email_domains :: "string list"
  cfg_plus_alias_domains :: "string list"
  cfg_dot_insensitive_domains :: "string list"
  cfg_staff_alias_separators :: "string list"

record env =
  now :: time
  new_uuid :: string
  hmac_sha256 :: "string \<Rightarrow> string \<Rightarrow> string"
  sha256_hex :: "string \<Rightarrow> string"
  py_str :: "json \<Rightarrow> string"
  has_request :: bool
  audit_store_ok :: bool
  email_ok :: bool
  req_remote_addr :: string
  req_user_agent :: string
  req_correlation_id :: string
  req_endpoint :: string
  req_path :: string
  random_text :: "nat \<Rightarrow> string"
  totp_at :: "string \<Rightarrow> int \<Rightarrow> string"
  aead_encrypt :: "string \<Rightarrow> string \<Rightarrow> string \<Rightarrow> string \<Rightarrow> string"
  aead_decrypt :: "string \<Rightarrow> string \<Rightarrow> string \<Rightarrow> string \<Rightarrow> string option"
  b64_encode :: "string \<Rightarrow> string"
  b64_decode :: "string \<Rightarrow> string option"
  json_loads :: "string \<Rightarrow> json option"
  session_dumps :: "(string \<times> json) list \<Rightarrow> string"
  session_loads :: "string \<Rightarrow> json option"
  hmac_bytes :: "string \<Rightarrow> string \<Rightarrow> string"
  pbkdf2_hmac :: "string \<Rightarrow> string \<Rightarrow> int \<Rightarrow> string"
  b64url_encode :: "string \<Rightarrow> string"
  b64url_decode :: "string \<Rightarrow> string option"
  hibp_check :: "string \<Rightarrow> bool option"
  random_below :: "nat \<Rightarrow> int \<Rightarrow> int"
  ipv6_network :: "string \<Rightarrow> string option"
  fromisoformat :: "string \<Rightarrow> time option"
  cfg :: config

record email =
  em_to :: string
  em_subject :: string

text \<open>The browser session of a request: \<^verbatim>\<open>DatabaseSession\<close> of \<^verbatim>\<open>app/security/sessions.py\<close>.\<close>

record web_session =
  ws_sid :: string
  ws_data :: "(string \<times> json) list"
  ws_modified :: bool

record world =
  committed :: database
  working :: database
  outbox :: "email list"
  web :: web_session

type_synonym 'a request = "(world, py_error, 'a) act"

subsection \<open>Commit and rollback\<close>

definition commitA :: "unit request" where
  "commitA s =
     (if \<not> numerics_ok (working s) then (Inl DataError, s\<lparr>working := committed s\<rparr>)
      else if \<not> constraints_ok (working s) then (Inl IntegrityError, s\<lparr>working := committed s\<rparr>)
      else (Inr (), s\<lparr>committed := working s\<rparr>))"

definition rollbackA :: "unit request" where
  "rollbackA = modifyA (\<lambda>s. s\<lparr>working := committed s\<rparr>)"

definition updateA :: "(database \<Rightarrow> database) \<Rightarrow> unit request" where
  "updateA f = modifyA (\<lambda>s. s\<lparr>working := f (working s)\<rparr>)"

definition queryA :: "(database \<Rightarrow> 'a) \<Rightarrow> 'a request" where
  "queryA f = getsA (\<lambda>s. f (working s))"

definition storable :: "database \<Rightarrow> bool" where
  "storable db \<longleftrightarrow> numerics_ok db \<and> constraints_ok db"

lemma commitA_ok: "storable (working s) \<Longrightarrow> commitA s = (Inr (), s\<lparr>committed := working s\<rparr>)"
  by (simp add: commitA_def storable_def)

lemma commitA_cases:
  obtains "storable (working s)" "commitA s = (Inr (), s\<lparr>committed := working s\<rparr>)"
  | e where "\<not> storable (working s)" "commitA s = (Inl e, s\<lparr>working := committed s\<rparr>)"
  by (cases "numerics_ok (working s)"; cases "constraints_ok (working s)")
     (auto simp: commitA_def storable_def)

lemma rollbackA_apply [simp]: "rollbackA s = (Inr (), s\<lparr>working := committed s\<rparr>)"
  by (simp add: rollbackA_def)

lemma updateA_apply [simp]: "updateA f s = (Inr (), s\<lparr>working := f (working s)\<rparr>)"
  by (simp add: updateA_def)

lemma queryA_apply [simp]: "queryA f s = (Inr (f (working s)), s)"
  by (simp add: queryA_def)

lemma bindA_queryA [simp]: "bindA (queryA f) g = (\<lambda>s. g (f (working s)) s)"
  by (simp add: queryA_def)

lemma bindA_updateA [simp]: "bindA (updateA f) g = (\<lambda>s. g () (s\<lparr>working := f (working s)\<rparr>))"
  by (simp add: updateA_def)

text \<open>
  The shape of most invariants: one that speaks about the committed database only, and one that
  also holds of the working copy. \<open>both P\<close> is kept by commit and rollback for every \<open>P\<close>.
\<close>

definition both :: "(database \<Rightarrow> bool) \<Rightarrow> world \<Rightarrow> bool" where
  "both P s \<longleftrightarrow> P (committed s) \<and> P (working s)"

lemma preserves_both_commitA [preserves_rules]: "preserves (both P) commitA"
  by (rule preservesI) (auto simp: both_def commitA_def)

lemma preserves_both_rollbackA [preserves_rules]: "preserves (both P) rollbackA"
  by (rule preservesI) (simp add: both_def)

lemma preserves_both_queryA [preserves_rules]: "preserves (both P) (queryA f)"
  by (simp add: queryA_def preserves_getsA)

lemma preserves_both_updateA: "(\<And>db. P db \<Longrightarrow> P (f db)) \<Longrightarrow> preserves (both P) (updateA f)"
  by (rule preservesI) (simp add: both_def)

text \<open>A committed database always satisfied the constraints when it was committed.\<close>

definition committed_ok :: "world \<Rightarrow> bool" where
  "committed_ok s \<longleftrightarrow> storable (committed s)"

lemma committed_ok_commitA [preserves_rules]: "preserves committed_ok commitA"
  by (rule preservesI) (auto simp: committed_ok_def commitA_def storable_def)

lemma committed_ok_rollbackA [preserves_rules]: "preserves committed_ok rollbackA"
  by (rule preservesI) (simp add: committed_ok_def)

lemma committed_ok_updateA [preserves_rules]: "preserves committed_ok (updateA f)"
  by (rule preservesI) (simp add: committed_ok_def)

lemma committed_ok_queryA [preserves_rules]: "preserves committed_ok (queryA f)"
  by (simp add: queryA_def preserves_getsA)

lemma triple_queryA [triple_rules]: "triple (\<lambda>s. Q (f (working s)) s) (queryA f) Q R"
  by (simp add: triple_def)

lemma triple_updateA [triple_rules]: "triple (\<lambda>s. Q () (s\<lparr>working := f (working s)\<rparr>)) (updateA f) Q R"
  by (simp add: triple_def)

lemma triple_commitA [triple_rules]:
  "triple (\<lambda>s. R (s\<lparr>working := committed s\<rparr>) \<and> (storable (working s) \<longrightarrow> Q () (s\<lparr>committed := working s\<rparr>))) commitA Q R"
  by (auto simp: triple_def commitA_def storable_def)

lemma triple_bind_queryA:
  "(\<And>x. triple (\<lambda>s. I s \<and> F s \<and> f (working s) = x) (g x) Q R) \<Longrightarrow> triple (\<lambda>s. I s \<and> F s) (bindA (queryA f) g) Q R"
  unfolding triple_def by simp

lemma triple_bind_getsA:
  "(\<And>x. triple (\<lambda>s. I s \<and> F s \<and> f s = x) (g x) Q R) \<Longrightarrow> triple (\<lambda>s. I s \<and> F s) (bindA (getsA f) g) Q R"
  unfolding triple_def by simp

text \<open>The teardown of a request drops what its session did not commit.\<close>

definition served :: "'a request \<Rightarrow> 'a request" where
  "served m = (\<lambda>s. case m s of (x, t) \<Rightarrow> (x, t\<lparr>working := committed t\<rparr>))"

lemma preserves_served [preserves_rules]: "preserves (both P) m \<Longrightarrow> preserves (both P) (served m)"
  by (auto simp: preserves_def served_def both_def split: prod.split)

lemma served_eq: "served m s = (x, t') \<longleftrightarrow> (\<exists>t. m s = (x, t) \<and> t' = t\<lparr>working := committed t\<rparr>)"
  by (auto simp: served_def split: prod.split)

subsection \<open>Keyed digests of \<^verbatim>\<open>app/security/session_hmac.py\<close>\<close>

text \<open>
  \<open>_active_key\<close>. Startup refuses a keyring without the active key (\<open>validate_session_hmac_config\<close>
  below), so the missing key, a \<^verbatim>\<open>KeyError\<close> of the source, does not arise in a running process.
\<close>

definition active_key :: "env \<Rightarrow> string" where
  "active_key e = (case map_of (cfg_session_keys (cfg e)) (cfg_session_active_key_id (cfg e)) of
     Some k \<Rightarrow> k | None \<Rightarrow> [])"

definition active_hmac_hex :: "env \<Rightarrow> string \<Rightarrow> nat \<Rightarrow> string" where
  "active_hmac_hex e message len = take len (hmac_sha256 e (active_key e) message)"

definition validate_session_hmac_config :: "config \<Rightarrow> py_error + int" where
  "validate_session_hmac_config c =
     (if cfg_session_keys c = [] then Inl (RuntimeError ''At least one session HMAC key is required'')
      else if cfg_session_active_key_id c \<notin> fst ` set (cfg_session_keys c)
        then Inl (RuntimeError ''The active session HMAC key is not configured'')
      else if list_ex (\<lambda>(k, key). py_strip k = [] \<or> length key \<noteq> 32) (cfg_session_keys c)
        then Inl (RuntimeError ''Every session HMAC key must have an identifier and be 32 bytes'')
      else Inr (int (length (cfg_session_keys c))))"

text \<open>\<open>candidate_hmac_hex\<close>: the active key first, then the others in keyring order.\<close>

definition candidate_hmac_hex :: "env \<Rightarrow> string \<Rightarrow> nat \<Rightarrow> string list" where
  "candidate_hmac_hex e message len =
     map (\<lambda>key. take len (hmac_sha256 e key message))
       (active_key e # map snd (filter (\<lambda>(k, _). k \<noteq> cfg_session_active_key_id (cfg e)) (cfg_session_keys (cfg e))))"

definition matches_hmac :: "env \<Rightarrow> string \<Rightarrow> string \<Rightarrow> nat \<Rightarrow> bool" where
  "matches_hmac e expected message len = list_ex (\<lambda>c. expected = c) (candidate_hmac_hex e message len)"

text \<open>A digest made with the active key is recognised, also after the active key is rotated.\<close>

lemma matches_active: "matches_hmac e (active_hmac_hex e m n) m n"
  by (simp add: matches_hmac_def candidate_hmac_hex_def active_hmac_hex_def)

subsection \<open>A concrete environment\<close>

text \<open>
  Values for the examples of the development. The sample HMAC prefixes the message with a mark and
  the key, so it is injective; it is not a digest, and no property but an example mentions it.
\<close>

definition sample_cfg :: config where
  "sample_cfg = \<lparr>cfg_ledger_active_key_id = ''k1'', cfg_ledger_keys = [(''k1'', replicate 32 (CHR ''L''))],
     cfg_session_active_key_id = ''s1'', cfg_session_keys = [(''s1'', replicate 32 (CHR ''S''))],
     cfg_audit_hmac_key = replicate 32 (CHR ''A''), cfg_payee_cooldown_seconds = 43200,
     cfg_payup_quick_transfer_cap = None, cfg_payup_quick_daily_cap = None, cfg_payup_session_max_age = None,
     cfg_payup_sensitive_cooldown = None, cfg_idempotency_ttl_seconds = None, cfg_topup_ttl_seconds = 300,
     cfg_mfa_failure_limit = 5, cfg_mfa_failure_window_seconds = 900, cfg_totp_login_window = 1,
     cfg_totp_high_risk_window = 0, cfg_password_history_retention = 8,
     cfg_session_absolute_lifetime = 28800, cfg_session_inactivity_seconds = 900,
     cfg_session_lookup_hmac_key = replicate 32 (CHR ''K''), cfg_app_mode = ''customer'', cfg_pending_mfa_max_age = 300,
     cfg_fresh_mfa_seconds = 300, cfg_kek_active_id = ''kek1'', cfg_kek_keys = [(''kek1'', replicate 32 (CHR ''E''))],
     cfg_reset_enabled = True, cfg_reset_token_ttl = 900, cfg_reset_transaction_ttl = 900, cfg_manual_recovery_ttl = 86400,
     cfg_profile_email_ttl = 600, cfg_staff_invite_ttl = 86400, cfg_staff_verification_ttl = 600,
     cfg_admin_mfa_failure_limit = 5, cfg_admin_mfa_failure_window_seconds = 900, cfg_password_history_enabled = True,
     cfg_cleanup_batch_size = 500, cfg_state_retention_days = 30, cfg_device_cookie_max_age = 2592000,
     cfg_password_pepper = replicate 32 (CHR ''P''), cfg_pbkdf2_iterations = 600000, cfg_password_min_length = 8,
     cfg_password_max_chars = 256, cfg_common_passwords = [''password1''], cfg_hibp_failure_threshold = 3,
     cfg_hibp_open_seconds = 300, cfg_root_admin_emails = [''root@sit.example''],
     cfg_admin_email_domains = [''sit.example''], cfg_temp_email_domains = [''mailinator.com''],
     cfg_plus_alias_domains = [''gmail.com'', ''googlemail.com''], cfg_dot_insensitive_domains = [''gmail.com'', ''googlemail.com''],
     cfg_staff_alias_separators = [''+'']\<rparr>"

definition sample_env :: env where
  "sample_env = \<lparr>now = 1767225600000000, new_uuid = ''u-1'', hmac_sha256 = (\<lambda>k m. CHR ''h'' # k @ m),
     sha256_hex = (\<lambda>m. CHR ''s'' # m), py_str = (\<lambda>_. []), has_request = True, audit_store_ok = True,
     email_ok = True, req_remote_addr = ''10.0.0.1'', req_user_agent = ''ua'', req_correlation_id = ''c-1'',
     req_endpoint = ''web.dashboard'', req_path = ''/dashboard'',
     random_text = (\<lambda>n. replicate n (CHR ''r'')), totp_at = (\<lambda>secret t. ''000042''),
     aead_encrypt = (\<lambda>k n m a. k @ n @ a @ m),
     aead_decrypt = (\<lambda>k n c a. if take (length (k @ n @ a)) c = k @ n @ a then Some (drop (length (k @ n @ a)) c) else None),
     b64_encode = (\<lambda>x. x), b64_decode = Some, json_loads = (\<lambda>_. None),
     session_dumps = (\<lambda>kvs. json_dumps (JObj kvs)), session_loads = (\<lambda>_. None), hmac_bytes = (\<lambda>k m. CHR ''h'' # k @ m),
     pbkdf2_hmac = (\<lambda>p salt i. p @ salt), b64url_encode = (\<lambda>x. x), b64url_decode = Some, hibp_check = (\<lambda>_. Some False),
     random_below = (\<lambda>_ _. 0), ipv6_network = (\<lambda>_. None),
     fromisoformat = (\<lambda>_. None), cfg = sample_cfg\<rparr>"

text \<open>The same with a digest that is a constant of the right shape.\<close>

definition sample_env64 :: env where
  "sample_env64 = sample_env\<lparr>hmac_sha256 := (\<lambda>_ _. replicate 64 (CHR ''a'')), sha256_hex := (\<lambda>_. replicate 64 (CHR ''b''))\<rparr>"

text \<open>
  The only way two different texts can pass for each other under a keyed digest: these two texts, under
  this key, have the same HMAC. Statements about tampering name the texts and the key.
\<close>

definition hmac_clash :: "env \<Rightarrow> string \<Rightarrow> string \<Rightarrow> string \<Rightarrow> bool" where
  "hmac_clash e key p q \<longleftrightarrow> p \<noteq> q \<and> hmac_sha256 e key p = hmac_sha256 e key q"

definition fresh_world :: "database \<Rightarrow> world" where
  "fresh_world db = \<lparr>committed = db, working = db, outbox = [],
     web = \<lparr>ws_sid = ''sid'', ws_data = [], ws_modified = False\<rparr>\<rparr>"

end
