(* ===== verification/Redaction.thy ===== *)
theory Redaction
  imports Json
begin

section \<open>Redaction of audit metadata\<close>

text \<open>
  \<^verbatim>\<open>app/security/sensitive_values.py\<close> and the sanitising half of \<^verbatim>\<open>app/security/audit.py\<close>: which keys
  and values must not reach the audit log, and the recursive rewriting of a metadata mapping. The
  scan loops of the source, which search for the next occurrence of a scheme from a cursor, are
  recursions over the suffixes of the text. The theory proves that the rewriting keeps nothing
  under a sensitive key and leaves only short, printable, unsuspicious text.
\<close>

definition ascii_in :: "nat \<Rightarrow> nat \<Rightarrow> char \<Rightarrow> bool" where
  "ascii_in a b c \<longleftrightarrow> (let n = (of_char c :: nat) in a \<le> n \<and> n \<le> b)"

definition py_isalnum :: "char \<Rightarrow> bool" where
  "py_isalnum c \<longleftrightarrow> ascii_in 48 57 c \<or> ascii_in 65 90 c \<or> ascii_in 97 122 c"

definition is_word_character :: "char \<Rightarrow> bool" where
  "is_word_character c \<longleftrightarrow> c = CHR ''_'' \<or> py_isalnum c"

definition starts_with :: "string \<Rightarrow> string \<Rightarrow> bool" where
  "starts_with p s \<longleftrightarrow> take (length p) s = p"

fun contains :: "string \<Rightarrow> string \<Rightarrow> bool" where
  "contains p [] = (p = [])"
| "contains p (c # s) = (starts_with p (c # s) \<or> contains p s)"

subsection \<open>Credential and webhook URLs\<close>

text \<open>The loop variable \<open>has_userinfo_separator\<close> is the accumulator.\<close>

fun authority_contains_password :: "bool \<Rightarrow> string \<Rightarrow> bool" where
  "authority_contains_password sep [] = False"
| "authority_contains_password sep (c # s) =
     (if py_isspace c \<or> c = CHR ''/'' then False
      else if c = CHR ''@'' then sep
      else authority_contains_password (sep \<or> c = CHR '':'') s)"

text \<open>One scheme: \<open>prev\<close> is the character before the current position, if there is one.\<close>

fun scheme_scan :: "string \<Rightarrow> char option \<Rightarrow> string \<Rightarrow> bool" where
  "scheme_scan scheme prev [] = False"
| "scheme_scan scheme prev (c # s) =
     ((starts_with scheme (py_casefold (c # s))
       \<and> \<not> (case prev of None \<Rightarrow> False | Some p \<Rightarrow> is_word_character p)
       \<and> authority_contains_password False (drop (length scheme) (c # s)))
      \<or> scheme_scan scheme (Some c) s)"

definition credential_schemes :: "string list" where
  "credential_schemes = [''postgres://'', ''postgresql://'', ''redis://'']"

definition contains_credential_url :: "string \<Rightarrow> bool" where
  "contains_credential_url text = list_ex (\<lambda>scheme. scheme_scan scheme None text) credential_schemes"

text \<open>\<open>_path_start\<close>: the host before the first slash and the path after it, or nothing.\<close>

fun split_host :: "string \<Rightarrow> (string \<times> string) option" where
  "split_host [] = None"
| "split_host (c # s) =
     (if py_isspace c then None
      else if c = CHR ''/'' then Some ([], s)
      else map_option (\<lambda>(h, p). (c # h, p)) (split_host s))"

definition is_webhook_host :: "string \<Rightarrow> bool" where
  "is_webhook_host host \<longleftrightarrow> contains ''hooks'' host \<or> host \<in> {''discord.com'', ''discordapp.com''}"

definition has_webhook_path :: "string \<Rightarrow> bool" where
  "has_webhook_path path =
     (let path = (if starts_with ''api/'' (py_casefold path) then drop 4 path else path);
          secret = (\<lambda>prefix. case drop (length prefix) path of [] \<Rightarrow> False | c # _ \<Rightarrow> \<not> py_isspace c)
      in if starts_with ''webhooks/'' (py_casefold path) then secret ''webhooks/''
         else if starts_with ''services/'' (py_casefold path) then secret ''services/''
         else False)"

fun contains_webhook_url :: "string \<Rightarrow> bool" where
  "contains_webhook_url [] = False"
| "contains_webhook_url (c # s) =
     ((starts_with ''https://'' (py_casefold (c # s))
       \<and> (case split_host (drop 8 (c # s)) of
            None \<Rightarrow> False
          | Some (host, path) \<Rightarrow> is_webhook_host (py_casefold host) \<and> has_webhook_path path))
      \<or> contains_webhook_url s)"

definition contains_sensitive_url :: "string \<Rightarrow> bool" where
  "contains_sensitive_url text \<longleftrightarrow> contains_credential_url text \<or> contains_webhook_url text"

subsection \<open>Text cleaning\<close>

text \<open>\<open>str.split()\<close> with no argument: the maximal runs of non-space characters.\<close>

fun py_split_acc :: "string \<Rightarrow> string \<Rightarrow> string list" where
  "py_split_acc w [] = (if w = [] then [] else [rev w])"
| "py_split_acc w (c # s) =
     (if py_isspace c then (if w = [] then py_split_acc [] s else rev w # py_split_acc [] s)
      else py_split_acc (c # w) s)"

definition py_split :: "string \<Rightarrow> string list" where
  "py_split s = py_split_acc [] s"

definition clean_audit_text :: "string \<Rightarrow> nat \<Rightarrow> string" where
  "clean_audit_text text limit =
     take limit (join '' '' (py_split
       (map (\<lambda>c. if (of_char c :: nat) \<ge> 32 \<and> of_char c \<noteq> (127::nat) then c else CHR '' '') text)))"

subsection \<open>Sensitive keys and values\<close>

definition sensitive_key_parts :: "string list" where
  "sensitive_key_parts =
     [''api_key'', ''apikey'', ''authorization'', ''bearer'', ''challenge'', ''ciphertext'', ''cookie'',
      ''csrf'', ''full_account'', ''iban'', ''mfa_secret'', ''nonce'', ''passwd'', ''password'',
      ''private_key'', ''public_key'', ''raw_redis'', ''redis_payload'', ''session_id'', ''sessionid'',
      ''secret'', ''totp'', ''code'', ''token'', ''uri'', ''url'']"

definition sensitive_exact_keys :: "string list" where
  "sensitive_exact_keys = [''credential'', ''sid'']"

definition account_key_parts :: "string list" where
  "account_key_parts = [''account_number'', ''account_no'', ''payee_account'', ''pan'']"

definition ends_with :: "string \<Rightarrow> string \<Rightarrow> bool" where
  "ends_with p s \<longleftrightarrow> starts_with (rev p) (rev s)"

definition is_sensitive_key :: "string \<Rightarrow> bool" where
  "is_sensitive_key key_lower =
     (if ends_with ''_ref'' key_lower \<or> key_lower \<in> {''principal_ref'', ''session_ref''} then False
      else let k = map (\<lambda>c. if c = CHR ''-'' then CHR ''_'' else c) key_lower in
        k \<in> set sensitive_exact_keys \<or> list_ex (\<lambda>part. contains part k) sensitive_key_parts)"

definition long_token :: "string \<Rightarrow> bool" where
  "long_token s \<longleftrightarrow>
     48 \<le> length s \<and> list_all (\<lambda>c. py_isalnum c \<or> c \<in> set ''_+/=-'') s
     \<and> list_ex (\<lambda>c. ascii_in 65 90 c \<or> ascii_in 97 122 c) s \<and> list_ex py_isdigit s"

definition private_key_marks :: "string list" where
  "private_key_marks =
     [''begin private key'', ''begin rsa private key'', ''begin ec private key'',
      ''begin openssh private key'']"

definition looks_like_sensitive_value :: "string \<Rightarrow> bool" where
  "looks_like_sensitive_value text =
     (let lowered = py_casefold text in
      starts_with ''bearer '' lowered \<or> starts_with ''basic '' lowered \<or> starts_with ''token '' lowered
      \<or> list_ex (\<lambda>m. contains m lowered) private_key_marks
      \<or> long_token (py_strip text))"

definition looks_like_account_value :: "string \<Rightarrow> string \<Rightarrow> bool" where
  "looks_like_account_value key_lower text =
     (if ends_with ''_ref'' key_lower then False
      else if \<not> list_ex (\<lambda>part. contains part key_lower) account_key_parts then False
      else 8 \<le> length (filter py_isdigit text))"

definition redacted_value :: json where
  "redacted_value = JStr ''[redacted]''"

subsection \<open>Sanitising a mapping\<close>

text \<open>Python dictionaries keep the place of the first insertion of a key.\<close>

fun dict_set :: "'k \<Rightarrow> 'v \<Rightarrow> ('k \<times> 'v) list \<Rightarrow> ('k \<times> 'v) list" where
  "dict_set k v [] = [(k, v)]"
| "dict_set k v ((k', v') # d) = (if k = k' then (k, v) # d else (k', v') # dict_set k v d)"

definition dict_of :: "('k \<times> 'v) list \<Rightarrow> ('k \<times> 'v) list" where
  "dict_of kvs = foldl (\<lambda>d (k, v). dict_set k v d) [] kvs"

definition sanitize_text :: "string \<Rightarrow> string \<Rightarrow> json" where
  "sanitize_text key_lower raw_text =
     (if contains_sensitive_url raw_text then redacted_value
      else let text = clean_audit_text raw_text 256 in
        if looks_like_sensitive_value text \<or> looks_like_account_value key_lower text
        then redacted_value else JStr text)"

lemma size_member_obj: "(k, v) \<in> set (take n kvs) \<Longrightarrow> size v < size (JObj kvs)"
proof -
  assume "(k, v) \<in> set (take n kvs)"
  then have "(k, v) \<in> set kvs" by (rule in_set_takeD)
  then show ?thesis by (induction kvs) auto
qed

lemma size_member_arr: "v \<in> set (take n xs) \<Longrightarrow> size v < size (JArr xs)"
proof -
  assume "v \<in> set (take n xs)"
  then have "v \<in> set xs" by (rule in_set_takeD)
  then show ?thesis by (induction xs) auto
qed

text \<open>
  \<open>py_str\<close> is Python's \<open>str\<close> of a container, which is used only where the nesting is four deep; it is
  a parameter.
\<close>

function sanitize_value :: "(json \<Rightarrow> string) \<Rightarrow> string \<Rightarrow> nat \<Rightarrow> json \<Rightarrow> json" where
  "sanitize_value py_str key_lower depth JNull = JNull"
| "sanitize_value py_str key_lower depth (JBool b) = JBool b"
| "sanitize_value py_str key_lower depth (JInt i) = JInt i"
| "sanitize_value py_str key_lower depth (JStr s) = sanitize_text key_lower s"
| "sanitize_value py_str key_lower depth (JObj kvs) =
     (if depth < 4 then
        JObj (dict_of (map (\<lambda>(k, v).
          let k' = clean_audit_text k 64; kl = py_casefold k' in
          (k', if is_sensitive_key kl then redacted_value
               else sanitize_value py_str kl (Suc depth) v)) (take 20 kvs)))
      else sanitize_text key_lower (py_str (JObj kvs)))"
| "sanitize_value py_str key_lower depth (JArr xs) =
     (if depth < 4 then JArr (map (\<lambda>v. sanitize_value py_str key_lower (Suc depth) v) (take 20 xs))
      else sanitize_text key_lower (py_str (JArr xs)))"
  by pat_completeness auto

termination
  by (relation "measure (\<lambda>(_, _, _, j). size j)")
     (auto dest: size_member_obj size_member_arr simp del: json.size)

definition sanitize_metadata :: "(json \<Rightarrow> string) \<Rightarrow> (string \<times> json) list \<Rightarrow> (string \<times> json) list" where
  "sanitize_metadata py_str md =
     dict_of (map (\<lambda>(k, v).
       let k' = clean_audit_text k 64; kl = py_casefold k' in
       (k', if is_sensitive_key kl then redacted_value else sanitize_value py_str kl 0 v)) md)"

subsection \<open>What the sanitiser leaves\<close>

definition printable :: "char \<Rightarrow> bool" where
  "printable c \<longleftrightarrow> 32 \<le> (of_char c :: nat) \<and> of_char c \<noteq> (127::nat)"

definition safe_text :: "string \<Rightarrow> bool" where
  "safe_text s \<longleftrightarrow> length s \<le> 256 \<and> list_all printable s \<and> \<not> looks_like_sensitive_value s"

inductive json_safe :: "json \<Rightarrow> bool" where
  null: "json_safe JNull"
| boolean: "json_safe (JBool b)"
| number: "json_safe (JInt i)"
| redacted: "json_safe redacted_value"
| txt_ok: "safe_text s \<Longrightarrow> json_safe (JStr s)"
| array: "(\<And>x. x \<in> set xs \<Longrightarrow> json_safe x) \<Longrightarrow> json_safe (JArr xs)"
| object: "(\<And>k v. (k, v) \<in> set kvs \<Longrightarrow>
             json_safe v \<and> (is_sensitive_key (py_casefold k) \<longrightarrow> v = redacted_value)) \<Longrightarrow>
           json_safe (JObj kvs)"

lemma keys_dict_set: "set (dict_set k v d) \<subseteq> insert (k, v) (set d)"
  by (induction d) (auto split: if_splits)

lemma set_dict_of: "set (dict_of kvs) \<subseteq> set kvs"
proof -
  have "set (foldl (\<lambda>d (k, v). dict_set k v d) d kvs) \<subseteq> set d \<union> set kvs" for d
  proof (induction kvs arbitrary: d)
    case (Cons kv kvs)
    then show ?case using keys_dict_set [of "fst kv" "snd kv" d] by (fastforce simp: case_prod_beta)
  qed simp
  from this [of "[]"] show ?thesis by (simp add: dict_of_def)
qed

lemma fst_set_dict_set: "fst ` set (dict_set k v d) = insert k (fst ` set d)"
proof (induction d)
  case (Cons kv d)
  then show ?case by (cases kv; cases "k = fst kv") (simp_all add: insert_commute)
qed simp

lemma distinct_dict_set: "distinct (map fst d) \<Longrightarrow> distinct (map fst (dict_set k v d))"
  by (induction d) (auto simp: fst_set_dict_set)

lemma distinct_dict_of: "distinct (map fst (dict_of kvs))"
proof -
  have "distinct (map fst d) \<Longrightarrow> distinct (map fst (foldl (\<lambda>d (k, v). dict_set k v d) d kvs))" for d
    by (induction kvs arbitrary: d) (auto simp: distinct_dict_set)
  from this [of "[]"] show ?thesis by (simp add: dict_of_def)
qed

lemma set_py_split_acc: "w' \<in> set (py_split_acc w s) \<Longrightarrow> set w' \<subseteq> set w \<union> set s"
  by (induction w s rule: py_split_acc.induct) (fastforce split: if_splits)+

lemma set_join: "set (join sep xs) \<subseteq> set sep \<union> \<Union> (set (map set xs))"
  by (induction sep xs rule: join.induct) auto

lemma printable_space [simp]: "printable (CHR '' '')"
  by (simp add: printable_def)

lemma clean_audit_text_printable: "c \<in> set (clean_audit_text text n) \<Longrightarrow> printable c"
proof -
  assume c: "c \<in> set (clean_audit_text text n)"
  let ?t = "map (\<lambda>c. if (of_char c :: nat) \<ge> 32 \<and> of_char c \<noteq> (127::nat) then c else CHR '' '') text"
  have "c \<in> set (join '' '' (py_split ?t))"
    using c unfolding clean_audit_text_def by (rule in_set_takeD)
  then have "c \<in> {CHR '' ''} \<union> \<Union> (set (map set (py_split ?t)))"
    using set_join [of "'' ''" "py_split ?t"] by auto
  moreover have "set w \<subseteq> set ?t" if "w \<in> set (py_split ?t)" for w
    using set_py_split_acc [of w "[]" ?t] that by (simp add: py_split_def)
  moreover have "\<forall>c \<in> set ?t. printable c" by (auto simp: printable_def)
  ultimately show ?thesis by auto
qed

lemma sanitize_text_safe: "json_safe (sanitize_text key raw)"
  by (auto simp: sanitize_text_def Let_def safe_text_def list_all_iff clean_audit_text_printable
      intro!: json_safe.redacted json_safe.txt_ok)
     (auto simp: clean_audit_text_def)

lemma sanitize_value_safe: "json_safe (sanitize_value py_str key depth v)"
proof (induction py_str key depth v rule: sanitize_value.induct)
  case (5 py_str key depth kvs)
  show ?case
  proof (cases "depth < 4")
    case True
    let ?f = "\<lambda>(k, v). let k' = clean_audit_text k 64; kl = py_casefold k' in
          (k', if is_sensitive_key kl then redacted_value else sanitize_value py_str kl (Suc depth) v)"
    have "json_safe v' \<and> (is_sensitive_key (py_casefold k') \<longrightarrow> v' = redacted_value)"
      if "(k', v') \<in> set (dict_of (map ?f (take 20 kvs)))" for k' v'
    proof -
      from that set_dict_of obtain k v where kv: "(k, v) \<in> set (take 20 kvs)" and eq: "(k', v') = ?f (k, v)"
        by fastforce
      show ?thesis
        using 5 [OF True kv refl refl] eq by (auto simp: Let_def intro: json_safe.redacted)
    qed
    with True show ?thesis by (auto intro: json_safe.object)
  qed (simp add: sanitize_text_safe)
next
  case (6 py_str key depth xs)
  then show ?case by (auto simp: sanitize_text_safe intro!: json_safe.array dest: in_set_takeD)
qed (auto simp: sanitize_text_safe intro: json_safe.intros)

theorem sanitize_metadata_safe:
  assumes "(k, v) \<in> set (sanitize_metadata py_str md)"
  shows "json_safe v \<and> (is_sensitive_key (py_casefold k) \<longrightarrow> v = redacted_value) \<and> length k \<le> 64"
proof -
  let ?f = "\<lambda>(k, v). let k' = clean_audit_text k 64; kl = py_casefold k' in
       (k', if is_sensitive_key kl then redacted_value else sanitize_value py_str kl 0 v)"
  from assms set_dict_of obtain k0 v0 where "(k0, v0) \<in> set md" and eq: "(k, v) = ?f (k0, v0)"
    unfolding sanitize_metadata_def by fastforce
  then show ?thesis
    by (auto simp: Let_def sanitize_value_safe clean_audit_text_def intro: json_safe.redacted)
qed

lemma distinct_sanitize_metadata: "distinct (map fst (sanitize_metadata py_str md))"
  by (simp add: sanitize_metadata_def distinct_dict_of)

end
