(* ===== verification/Audit_Log.thy ===== *)
theory Audit_Log
  imports Request Redaction
begin

section \<open>The security audit log\<close>

text \<open>
  \<^verbatim>\<open>app/security/audit.py\<close>: the hash-chained audit table. The writers \<open>audit_event\<close> (owns the session:
  commits it, or rolls it back and returns), \<open>audit_event_required\<close> (only flushes, and raises when it
  cannot) and their system variants, the verifier \<open>verify_audit_hash_chain\<close> with its bounded error
  list, and the comparison with an external anchor. The structured log lines the source also prints are
  not modelled. The lemmas of this theory are the exhaustive outcomes of each writer, which the services
  that write events rest on; \<^verbatim>\<open>Audit_Verify\<close> has the properties of the chain.
\<close>

subsection \<open>Event digests\<close>

definition audit_hash_algorithm :: string where "audit_hash_algorithm = ''hmac-sha256-v1''"
definition legacy_audit_hash_algorithm :: string where "legacy_audit_hash_algorithm = ''sha256-v1''"
definition audit_chain_start_hash :: string where "audit_chain_start_hash = replicate 64 (CHR ''0'')"

definition audit_hmac_key_bytes :: "env \<Rightarrow> py_error + string" where
  "audit_hmac_key_bytes e =
     (if length (cfg_audit_hmac_key (cfg e)) < 32
      then Inl (RuntimeError ''SECURITY_AUDIT_HMAC_KEY must be at least 32 characters'')
      else Inr (cfg_audit_hmac_key (cfg e)))"

definition canonical_json_value :: "json \<Rightarrow> json" where
  "canonical_json_value v = sort_keys v"

definition opt_json :: "('a \<Rightarrow> json) \<Rightarrow> 'a option \<Rightarrow> json" where
  "opt_json f x = (case x of None \<Rightarrow> JNull | Some y \<Rightarrow> f y)"

lemma opt_json_inject [simp]:
  "opt_json JInt x = opt_json JInt y \<longleftrightarrow> x = y" "opt_json JStr u = opt_json JStr v \<longleftrightarrow> u = v"
  by (auto simp: opt_json_def split: option.splits)

lemma sort_keys_opt_json [simp]:
  "sort_keys (opt_json JInt x) = opt_json JInt x" "sort_keys (opt_json JStr y) = opt_json JStr y"
  by (auto simp: opt_json_def split: option.splits)

text \<open>Python's \<open>event.event_metadata or {}\<close>.\<close>

definition or_empty :: "json \<Rightarrow> json" where
  "or_empty v = (if v \<in> {JNull, JBool False, JInt 0, JStr [], JArr []} then JObj [] else v)"

definition canonical_fields :: "audit_row \<Rightarrow> (string \<times> json) list" where
  "canonical_fields ev =
     [(''event_type'', JStr (ae_event_type ev)), (''outcome'', JStr (ae_outcome ev)),
      (''user_id'', opt_json JInt (ae_user_id ev)), (''ip_address'', JStr (ae_ip_address ev)),
      (''user_agent'', JStr (ae_user_agent ev)), (''correlation_id'', JStr (ae_correlation_id ev)),
      (''session_ref'', opt_json JStr (ae_session_ref ev)),
      (''event_metadata'', canonical_json_value (or_empty (ae_metadata ev))),
      (''created_at'', JStr (utc_iso (ae_created_at ev))),
      (''previous_event_hash'', opt_json JStr (ae_previous_hash ev))]"

definition canonical_audit_event_payload :: "audit_row \<Rightarrow> string" where
  "canonical_audit_event_payload ev = json_dumps (JObj (canonical_fields ev))"

definition event_algorithm :: "audit_row \<Rightarrow> string" where
  "event_algorithm ev = (if ae_algorithm ev = [] then legacy_audit_hash_algorithm else ae_algorithm ev)"

definition compute_audit_event_hash :: "env \<Rightarrow> audit_row \<Rightarrow> py_error + string" where
  "compute_audit_event_hash e ev =
     (let payload = canonical_audit_event_payload ev; algorithm = event_algorithm ev in
      if algorithm = audit_hash_algorithm then
        (case audit_hmac_key_bytes e of Inl err \<Rightarrow> Inl err | Inr key \<Rightarrow> Inr (hmac_sha256 e key payload))
      else if algorithm = legacy_audit_hash_algorithm then Inr (sha256_hex e payload)
      else Inl (ValueError (''Unsupported audit hash algorithm: '' @ algorithm)))"

definition hashed :: "audit_row \<Rightarrow> bool" where
  "hashed ev \<longleftrightarrow> ae_hash ev \<noteq> None \<and> ae_hash ev \<noteq> Some []"

definition events_by_id :: "audit_row list \<Rightarrow> audit_row list" where
  "events_by_id rows = sort_key ae_id rows"

definition latest_audit_event_hash :: "audit_row list \<Rightarrow> string" where
  "latest_audit_event_hash rows =
     (case rev (filter (\<lambda>ev. ae_hash ev \<noteq> None) (events_by_id rows)) of
        [] \<Rightarrow> audit_chain_start_hash
      | ev # _ \<Rightarrow> (case ae_hash ev of None \<Rightarrow> audit_chain_start_hash
                    | Some h \<Rightarrow> if h = [] then audit_chain_start_hash else h))"

subsection \<open>Writers\<close>

definition session_fingerprint :: "env \<Rightarrow> string option \<Rightarrow> string option" where
  "session_fingerprint e sid = (case sid of None \<Rightarrow> None
     | Some s \<Rightarrow> if s = [] then None else Some (active_hmac_hex e s 16))"

definition audit_reference :: "env \<Rightarrow> string \<Rightarrow> string \<Rightarrow> nat \<Rightarrow> string option" where
  "audit_reference e namespace value len =
     (let text = py_strip value in
      if text = [] then None
      else let ns = py_casefold (clean_audit_text namespace 48); ns = (if ns = [] then ''audit'' else ns) in
        Some (active_hmac_hex e (''audit-ref:'' @ ns @ '':'' @ py_casefold text) len))"

definition principal_reference :: "env \<Rightarrow> string \<Rightarrow> string option" where
  "principal_reference e identifier = audit_reference e ''principal'' identifier 32"

text \<open>The session an event refers to: the one given, or that of the request.\<close>

definition audit_session_id :: "string option \<Rightarrow> world \<Rightarrow> string option" where
  "audit_session_id session_id s = (if session_id \<in> {None, Some []} then Some (ws_sid (web s)) else session_id)"

text \<open>The event before its own digest is set; \<open>session_id\<close> is the session it refers to.\<close>

definition draft_event ::
  "env \<Rightarrow> string \<Rightarrow> string \<Rightarrow> int option \<Rightarrow> (string \<times> json) list \<Rightarrow> string option \<Rightarrow> audit_row list \<Rightarrow> audit_row"
where
  "draft_event e event_type outcome user_id metadata session_id rows =
     \<lparr>ae_id = next_id (map ae_id rows),
      ae_event_type = clean_audit_text event_type 80, ae_outcome = clean_audit_text outcome 24,
      ae_user_id = user_id,
      ae_ip_address = clean_audit_text (if req_remote_addr e = [] then ''unknown'' else req_remote_addr e) 64,
      ae_user_agent = clean_audit_text (if req_user_agent e = [] then ''unknown'' else req_user_agent e) 256,
      ae_correlation_id = clean_audit_text (req_correlation_id e) 36,
      ae_session_ref = session_fingerprint e session_id,
      ae_metadata = JObj (sanitize_metadata (py_str e) metadata),
      ae_previous_hash = Some (latest_audit_event_hash rows), ae_hash = None,
      ae_algorithm = audit_hash_algorithm, ae_created_at = now e\<rparr>"

definition draft_system_event ::
  "env \<Rightarrow> string \<Rightarrow> string \<Rightarrow> int option \<Rightarrow> (string \<times> json) list \<Rightarrow> audit_row list \<Rightarrow> audit_row"
where
  "draft_system_event e event_type outcome user_id metadata rows =
     \<lparr>ae_id = next_id (map ae_id rows),
      ae_event_type = clean_audit_text event_type 80, ae_outcome = clean_audit_text outcome 24,
      ae_user_id = user_id, ae_ip_address = ''system'', ae_user_agent = ''system'',
      ae_correlation_id = new_uuid e, ae_session_ref = None,
      ae_metadata = JObj (dict_set ''actor'' (JStr ''system'') (sanitize_metadata (py_str e) metadata)),
      ae_previous_hash = Some (latest_audit_event_hash rows), ae_hash = None,
      ae_algorithm = audit_hash_algorithm, ae_created_at = now e\<rparr>"

text \<open>
  Adding the drafted event and flushing it: the digest is set and the row inserted, or the step
  raises (a key that is too short, or an insert the database refuses, \<open>audit_store_ok\<close> false).
\<close>

definition insert_event :: "env \<Rightarrow> (audit_row list \<Rightarrow> audit_row) \<Rightarrow> unit request" where
  "insert_event e draft =
     bindA (queryA audit_rows) (\<lambda>rows.
       let ev = draft rows in
       case compute_audit_event_hash e ev of
         Inl err \<Rightarrow> raise err
       | Inr h \<Rightarrow>
           if audit_store_ok e
           then updateA (\<lambda>db. db\<lparr>audit_rows := audit_rows db @ [ev\<lparr>ae_hash := Some h\<rparr>]\<rparr>)
           else raise DataError)"

definition audit_event ::
  "env \<Rightarrow> string \<Rightarrow> string \<Rightarrow> int option \<Rightarrow> (string \<times> json) list \<Rightarrow> string option \<Rightarrow> unit request"
where
  "audit_event e event_type outcome user_id metadata session_id =
     (if \<not> has_request e then ret ()
      else bindA (getsA (audit_session_id session_id)) (\<lambda>sid. try_catch
        (bindA (insert_event e (draft_event e event_type outcome user_id metadata sid)) (\<lambda>_. commitA))
        (\<lambda>_. rollbackA)))"

definition audit_event_required ::
  "env \<Rightarrow> string \<Rightarrow> string \<Rightarrow> int option \<Rightarrow> (string \<times> json) list \<Rightarrow> string option \<Rightarrow> unit request"
where
  "audit_event_required e event_type outcome user_id metadata session_id =
     (if \<not> has_request e then raise (AuditWriteError ''Required audit events need a request context'')
      else bindA (getsA (audit_session_id session_id)) (\<lambda>sid. try_catch
        (insert_event e (draft_event e event_type outcome user_id metadata sid))
        (\<lambda>_. raise (AuditWriteError ''Required audit event could not be recorded''))))"

text \<open>\<open>_write_system_audit_event\<close> and its three callers; \<open>commit\<close> and \<open>required\<close> are its flags.\<close>

definition write_system_audit_event ::
  "env \<Rightarrow> string \<Rightarrow> string \<Rightarrow> int option \<Rightarrow> (string \<times> json) list \<Rightarrow> bool \<Rightarrow> bool \<Rightarrow> unit request"
where
  "write_system_audit_event e event_type outcome user_id metadata required commit =
     try_catch
       (bindA (insert_event e (draft_system_event e event_type outcome user_id metadata))
          (\<lambda>_. condA commit commitA))
       (\<lambda>_. bindA (condA commit rollbackA) (\<lambda>_.
          condA required (raise (AuditWriteError ''Required system audit event could not be recorded''))))"

definition audit_system_event :: "env \<Rightarrow> string \<Rightarrow> string \<Rightarrow> int option \<Rightarrow> (string \<times> json) list \<Rightarrow> unit request" where
  "audit_system_event e t out uid md = write_system_audit_event e t out uid md False True"

definition audit_system_event_required :: "env \<Rightarrow> string \<Rightarrow> string \<Rightarrow> int option \<Rightarrow> (string \<times> json) list \<Rightarrow> unit request" where
  "audit_system_event_required e t out uid md = write_system_audit_event e t out uid md True True"

definition audit_system_event_in_transaction_required ::
  "env \<Rightarrow> string \<Rightarrow> string \<Rightarrow> int option \<Rightarrow> (string \<times> json) list \<Rightarrow> unit request"
where
  "audit_system_event_in_transaction_required e t out uid md = write_system_audit_event e t out uid md True False"

subsection \<open>Verification\<close>

record chain_error =
  ce_event_id :: int
  ce_reason :: string
  ce_extra :: "(string \<times> string) list"

definition append_chain_error :: "int \<Rightarrow> string \<Rightarrow> (string \<times> string) list \<Rightarrow> chain_error list \<Rightarrow> chain_error list" where
  "append_chain_error event_id reason extra errors =
     (if 20 \<le> length errors then errors
      else errors @ [\<lparr>ce_event_id = event_id, ce_reason = reason,
                      ce_extra = map (\<lambda>(k, v). (clean_audit_text k 48, clean_audit_text v 80)) extra\<rparr>])"

fun error_type :: "py_error \<Rightarrow> string" where
  "error_type (AuthError _ _ _) = ''AuthError''"
| "error_type (FrozenAccountError _ _) = ''FrozenAccountError''"
| "error_type (AuditWriteError _) = ''AuditWriteError''"
| "error_type (RuntimeError _) = ''RuntimeError''"
| "error_type (ValueError _) = ''ValueError''"
| "error_type IntegrityError = ''IntegrityError''"
| "error_type DataError = ''DataError''"
| "error_type OverflowError = ''OverflowError''"
| "error_type KeyError = ''KeyError''"
| "error_type NoResultFound = ''NoResultFound''"
| "error_type MultipleResultsFound = ''MultipleResultsFound''"
| "error_type InvalidOperation = ''InvalidOperation''"
| "error_type (AuthBackoffRequired _) = ''AuthBackoffRequired''"
| "error_type (DurableRateLimitExceeded _) = ''DurableRateLimitExceeded''"
| "error_type (MFASecretEnvelopeError _) = ''MFASecretEnvelopeError''"
| "error_type InvalidTag = ''InvalidTag''"
| "error_type (SessionPayloadIntegrityError _) = ''SessionPayloadIntegrityError''"
| "error_type (RegistrationOtpError _ _ _) = ''RegistrationOtpError''"
| "error_type (PasswordPolicyError _) = ''PasswordPolicyError''"
| "error_type (PasswordReuseError _) = ''PasswordReuseError''"
| "error_type (IdentityPolicyError _) = ''IdentityPolicyError''"
| "error_type (ProgrammingError _) = ''ProgrammingError''"

definition verify_hashed_audit_event :: "env \<Rightarrow> audit_row \<Rightarrow> string \<Rightarrow> chain_error list \<Rightarrow> chain_error list" where
  "verify_hashed_audit_event e ev previous_hash errors =
     (let errors = (if event_algorithm ev \<notin> {audit_hash_algorithm, legacy_audit_hash_algorithm}
            then append_chain_error (ae_id ev) ''unsupported_hash_algorithm'' [(''algorithm'', event_algorithm ev)] errors
            else errors);
          errors = (if ae_previous_hash ev \<noteq> Some previous_hash
            then append_chain_error (ae_id ev) ''previous_hash_mismatch'' [] errors else errors)
      in case compute_audit_event_hash e ev of
           Inl err \<Rightarrow> append_chain_error (ae_id ev) ''hash_compute_failed'' [(''error_type'', error_type err)] errors
         | Inr expected \<Rightarrow>
             if ae_hash ev \<noteq> Some expected
             then append_chain_error (ae_id ev) ''event_hash_mismatch'' [] errors else errors)"

text \<open>The local variables of the loop of \<open>verify_audit_hash_chain\<close>.\<close>

record chain_state =
  cs_previous_hash :: string
  cs_chain_started :: bool
  cs_verified :: int
  cs_legacy :: int
  cs_latest_id :: "int option"
  cs_latest_hash :: "string option"
  cs_errors :: "chain_error list"

definition chain_init :: chain_state where
  "chain_init = \<lparr>cs_previous_hash = audit_chain_start_hash, cs_chain_started = False, cs_verified = 0,
     cs_legacy = 0, cs_latest_id = None, cs_latest_hash = None, cs_errors = []\<rparr>"

text \<open>\<open>_record_missing_event_hash\<close> is the branch of an event without digest.\<close>

definition chain_step :: "env \<Rightarrow> chain_state \<Rightarrow> audit_row \<Rightarrow> chain_state" where
  "chain_step e st ev =
     (if \<not> hashed ev then
        (if cs_chain_started st
         then st\<lparr>cs_errors := append_chain_error (ae_id ev) ''missing_event_hash'' [] (cs_errors st)\<rparr>
         else st\<lparr>cs_legacy := cs_legacy st + 1\<rparr>)
      else
        \<lparr>cs_previous_hash = the (ae_hash ev), cs_chain_started = True, cs_verified = cs_verified st + 1,
         cs_legacy = cs_legacy st, cs_latest_id = Some (ae_id ev), cs_latest_hash = ae_hash ev,
         cs_errors = verify_hashed_audit_event e ev (cs_previous_hash st) (cs_errors st)\<rparr>)"

record chain_report =
  vr_valid :: bool
  vr_event_count :: int
  vr_verified_event_count :: int
  vr_legacy_unhashed_event_count :: int
  vr_latest_event_id :: "int option"
  vr_latest_event_hash :: "string option"
  vr_errors :: "chain_error list"
  vr_anchor_validated :: "bool option"
  vr_anchor_errors :: "chain_error list"
  vr_anchor_status :: string
  vr_anchor_stale :: bool
  vr_anchor_event_id :: "int option"
  vr_events_since_anchor :: "int option"
  vr_anchor_refresh_required :: bool

definition chain_report_of :: "env \<Rightarrow> audit_row list \<Rightarrow> chain_report" where
  "chain_report_of e rows =
     (let st = foldl (chain_step e) chain_init (events_by_id rows) in
      \<lparr>vr_valid = (cs_errors st = []), vr_event_count = int (length rows), vr_verified_event_count = cs_verified st,
       vr_legacy_unhashed_event_count = cs_legacy st, vr_latest_event_id = cs_latest_id st,
       vr_latest_event_hash = cs_latest_hash st, vr_errors = cs_errors st, vr_anchor_validated = None,
       vr_anchor_errors = [], vr_anchor_status = ''not_configured'', vr_anchor_stale = False,
       vr_anchor_event_id = None, vr_events_since_anchor = None, vr_anchor_refresh_required = False\<rparr>)"

subsection \<open>The anchor\<close>

text \<open>An anchor is a JSON object; \<open>anchor_get\<close> is \<open>anchor.get\<close>. \<open>report_fields\<close> reads the report the same way.\<close>

type_synonym anchor = "(string \<times> json) list"

definition anchor_get :: "anchor \<Rightarrow> string \<Rightarrow> json" where
  "anchor_get a k = (case map_of a k of None \<Rightarrow> JNull | Some v \<Rightarrow> v)"

definition report_fields :: "chain_report \<Rightarrow> anchor" where
  "report_fields r =
     [(''hash_algorithm'', JStr audit_hash_algorithm), (''chain_start'', JStr audit_chain_start_hash),
      (''event_count'', JInt (vr_event_count r)), (''verified_event_count'', JInt (vr_verified_event_count r)),
      (''legacy_unhashed_event_count'', JInt (vr_legacy_unhashed_event_count r)),
      (''latest_event_id'', opt_json JInt (vr_latest_event_id r)),
      (''latest_event_hash'', opt_json JStr (vr_latest_event_hash r)), (''valid'', JBool (vr_valid r))]"

definition anchor_head_fields :: "string list" where
  "anchor_head_fields = [''hash_algorithm'', ''chain_start'', ''event_count'', ''verified_event_count'',
     ''legacy_unhashed_event_count'', ''latest_event_id'', ''latest_event_hash'']"

definition count_fields :: "string list" where
  "count_fields = [''event_count'', ''verified_event_count'', ''legacy_unhashed_event_count'']"

definition audit_log_anchor :: "env \<Rightarrow> audit_row list \<Rightarrow> anchor" where
  "audit_log_anchor e rows =
     (''message'', JStr ''security_audit_anchor'') # (''generated_at'', JStr (utc_iso (now e)))
     # report_fields (chain_report_of e rows)"

definition or_zero :: "int option \<Rightarrow> int" where
  "or_zero x = (case x of None \<Rightarrow> 0 | Some i \<Rightarrow> i)"

text \<open>\<open>_anchor_non_negative_int\<close>: the value, and the vr_errors with a malformed field added.\<close>

definition anchor_non_negative_int :: "anchor \<Rightarrow> string \<Rightarrow> int \<Rightarrow> chain_error list \<Rightarrow> int option \<times> chain_error list" where
  "anchor_non_negative_int a field eid errs =
     (case anchor_get a field of
        JInt i \<Rightarrow> if i < 0 then (None, append_chain_error eid ''anchor_malformed'' [(''field'', field)] errs)
                  else (Some i, errs)
      | _ \<Rightarrow> (None, append_chain_error eid ''anchor_malformed'' [(''field'', field)] errs))"

definition anchor_latest_event_id :: "chain_report \<Rightarrow> anchor \<Rightarrow> int \<Rightarrow> chain_error list \<Rightarrow> int option \<times> chain_error list" where
  "anchor_latest_event_id r a eid errs =
     (if anchor_get a ''latest_event_id'' = JNull \<and> vr_latest_event_id r = None then (None, errs)
      else anchor_non_negative_int a ''latest_event_id'' eid errs)"

definition is_hex64 :: "string \<Rightarrow> bool" where
  "is_hex64 s \<longleftrightarrow> length s = 64 \<and> list_all (\<lambda>c. py_isdigit c \<or> ascii_in 97 102 c) s"

definition anchor_latest_event_hash :: "chain_report \<Rightarrow> anchor \<Rightarrow> int \<Rightarrow> chain_error list \<Rightarrow> string option \<times> chain_error list" where
  "anchor_latest_event_hash r a eid errs =
     (if anchor_get a ''latest_event_hash'' = JNull \<and> vr_latest_event_hash r = None then (None, errs)
      else case anchor_get a ''latest_event_hash'' of
        JStr s \<Rightarrow> if is_hex64 s then (Some s, errs)
                  else (None, append_chain_error eid ''anchor_malformed'' [(''field'', ''latest_event_hash'')] errs)
      | _ \<Rightarrow> (None, append_chain_error eid ''anchor_malformed'' [(''field'', ''latest_event_hash'')] errs))"

record anchor_values =
  av_event_count :: "int option"
  av_verified :: "int option"
  av_legacy :: "int option"
  av_latest_id :: "int option"
  av_latest_hash :: "string option"

text \<open>The three counts of the anchor beside those of the report, in the order of \<open>count_fields\<close>.\<close>

definition count_pairs :: "chain_report \<Rightarrow> anchor_values \<Rightarrow> (string \<times> int option \<times> int) list" where
  "count_pairs r v =
     [(''event_count'', av_event_count v, vr_event_count r),
      (''verified_event_count'', av_verified v, vr_verified_event_count r),
      (''legacy_unhashed_event_count'', av_legacy v, vr_legacy_unhashed_event_count r)]"

definition validate_anchor_position :: "chain_report \<Rightarrow> anchor_values \<Rightarrow> chain_error list \<Rightarrow> chain_error list" where
  "validate_anchor_position r v errs =
     (let eid = or_zero (vr_latest_event_id r);
          errs = (case (av_latest_id v, vr_latest_event_id r) of
              (Some a, Some l) \<Rightarrow> if l < a
                then append_chain_error eid ''anchor_current_behind'' [(''field'', ''latest_event_id'')] errs else errs
            | _ \<Rightarrow> errs)
      in foldl (\<lambda>errs (field, a, n). case a of
             Some i \<Rightarrow> if n < i then append_chain_error eid ''anchor_current_behind'' [(''field'', field)] errs else errs
           | None \<Rightarrow> errs) errs (count_pairs r v))"

definition validate_anchor_event_hash :: "audit_row list \<Rightarrow> anchor_values \<Rightarrow> chain_error list \<Rightarrow> chain_error list" where
  "validate_anchor_event_hash rows v errs =
     (if av_latest_id v = None \<and> av_latest_hash v = None then errs
      else let eid = or_zero (av_latest_id v) in
        case (case av_latest_id v of None \<Rightarrow> None | Some i \<Rightarrow> find (\<lambda>ev. ae_id ev = i) rows) of
          None \<Rightarrow> append_chain_error eid ''anchor_event_missing'' [] errs
        | Some ev \<Rightarrow>
            if \<not> hashed ev then append_chain_error eid ''anchor_event_missing'' [] errs
            else if ae_hash ev \<noteq> av_latest_hash v
            then append_chain_error eid ''anchor_event_hash_mismatch'' [] errs else errs)"

definition validated_anchor_values :: "audit_row list \<Rightarrow> chain_report \<Rightarrow> anchor \<Rightarrow> anchor_values \<times> chain_error list" where
  "validated_anchor_values rows r a =
     (let eid = or_zero (vr_latest_event_id r);
          errs = foldl (\<lambda>errs field. if anchor_get a field \<noteq> anchor_get (report_fields r) field
              then append_chain_error eid ''anchor_mismatch'' [(''field'', field)] errs else errs) []
            [''hash_algorithm'', ''chain_start''];
          errs = (if anchor_get a ''valid'' \<noteq> JBool True
              then append_chain_error eid ''anchor_malformed'' [(''field'', ''valid'')] errs else errs);
          (c1, errs) = anchor_non_negative_int a ''event_count'' eid errs;
          (c2, errs) = anchor_non_negative_int a ''verified_event_count'' eid errs;
          (c3, errs) = anchor_non_negative_int a ''legacy_unhashed_event_count'' eid errs;
          (lid, errs) = anchor_latest_event_id r a eid errs;
          (lh, errs) = anchor_latest_event_hash r a eid errs;
          v = \<lparr>av_event_count = c1, av_verified = c2, av_legacy = c3, av_latest_id = lid, av_latest_hash = lh\<rparr>
      in if errs \<noteq> [] then (v, errs)
         else let errs = validate_anchor_position r v errs in
           if errs \<noteq> [] then (v, errs) else (v, validate_anchor_event_hash rows v errs))"

definition anchor_matches_current_head :: "chain_report \<Rightarrow> anchor \<Rightarrow> bool" where
  "anchor_matches_current_head r a = list_all (\<lambda>f. anchor_get a f = anchor_get (report_fields r) f) anchor_head_fields"

definition anchor_is_append_only_stale :: "chain_report \<Rightarrow> anchor_values \<Rightarrow> bool" where
  "anchor_is_append_only_stale r v =
     (case (av_latest_id v, vr_latest_event_id r) of
        (Some a, Some l) \<Rightarrow>
          if l \<le> a then False
          else (case av_event_count v of None \<Rightarrow> False
            | Some c \<Rightarrow> if vr_event_count r \<le> c then False
                else list_all (\<lambda>(_, x, n). case x of None \<Rightarrow> True | Some i \<Rightarrow> i \<le> n) (count_pairs r v))
      | _ \<Rightarrow> False)"

definition set_critical_anchor_errors :: "chain_report \<Rightarrow> chain_error list \<Rightarrow> chain_report" where
  "set_critical_anchor_errors r errs =
     r\<lparr>vr_errors := vr_errors r @ errs, vr_valid := False, vr_anchor_validated := Some False, vr_anchor_stale := False,
       vr_anchor_refresh_required := False, vr_anchor_status := ''critical'', vr_anchor_errors := errs\<rparr>"

definition compare_audit_anchor :: "audit_row list \<Rightarrow> chain_report \<Rightarrow> anchor \<Rightarrow> chain_report" where
  "compare_audit_anchor rows r0 a =
     (let r = r0\<lparr>vr_anchor_status := ''checking'', vr_anchor_validated := Some False, vr_anchor_stale := False,
                 vr_anchor_refresh_required := False\<rparr>;
          (v, errs) = validated_anchor_values rows r a;
          r = r\<lparr>vr_anchor_event_id := av_latest_id v\<rparr>
      in if errs \<noteq> [] then set_critical_anchor_errors r errs
         else if \<not> vr_valid r then r\<lparr>vr_anchor_status := ''not_checked_due_chain_failure'', vr_anchor_errors := []\<rparr>
         else if anchor_matches_current_head r a
           then r\<lparr>vr_anchor_validated := Some True, vr_anchor_status := ''validated'', vr_anchor_errors := [],
                  vr_events_since_anchor := Some 0\<rparr>
         else if anchor_is_append_only_stale r v
           then r\<lparr>vr_anchor_status := ''stale'', vr_anchor_stale := True, vr_anchor_refresh_required := True,
                  vr_anchor_errors := [], vr_events_since_anchor := Some (vr_event_count r - or_zero (av_event_count v))\<rparr>
         else let errs = foldl (\<lambda>errs f. if anchor_get a f \<noteq> anchor_get (report_fields r) f
                then append_chain_error (or_zero (vr_latest_event_id r)) ''anchor_mismatch'' [(''field'', f)] errs
                else errs) [] anchor_head_fields
           in if errs \<noteq> [] then set_critical_anchor_errors r errs else r)"

definition verify_audit_hash_chain :: "env \<Rightarrow> anchor option \<Rightarrow> audit_row list \<Rightarrow> chain_report" where
  "verify_audit_hash_chain e anchor rows =
     (let r = chain_report_of e rows in
      case anchor of None \<Rightarrow> r | Some a \<Rightarrow> compare_audit_anchor rows r a)"

subsection \<open>Effects of the writers\<close>

definition add_audit :: "audit_row \<Rightarrow> database \<Rightarrow> database" where
  "add_audit ev db = db\<lparr>audit_rows := audit_rows db @ [ev]\<rparr>"

lemma storable_add_audit [simp]: "storable (add_audit ev db) = storable db"
  by (simp add: storable_def add_audit_def numerics_ok_def constraints_ok_def)

lemma add_audit_frame [simp]:
  "users (add_audit ev db) = users db"
  "payees (add_audit ev db) = payees db"
  "transactions (add_audit ev db) = transactions db"
  "registration_credits (add_audit ev db) = registration_credits db"
  "topup_credits (add_audit ev db) = topup_credits db"
  "topup_requests (add_audit ev db) = topup_requests db"
  "idempotency_rows (add_audit ev db) = idempotency_rows db"
  "pending_transfers (add_audit ev db) = pending_transfers db"
  "payup_pending_transfers (add_audit ev db) = payup_pending_transfers db"
  "auth_counters (add_audit ev db) = auth_counters db"
  "totp_replays (add_audit ev db) = totp_replays db"
  "recovery_codes (add_audit ev db) = recovery_codes db"
  "password_history (add_audit ev db) = password_history db"
  "reset_tokens (add_audit ev db) = reset_tokens db"
  "reset_transactions (add_audit ev db) = reset_transactions db"
  "manual_recoveries (add_audit ev db) = manual_recoveries db"
  "admin_actions (add_audit ev db) = admin_actions db"
  "server_sessions (add_audit ev db) = server_sessions db"
  "registration_otps (add_audit ev db) = registration_otps db"
  "disputes (add_audit ev db) = disputes db"
  "support_tickets (add_audit ev db) = support_tickets db"
  "known_devices (add_audit ev db) = known_devices db"
  "alert_dedupes (add_audit ev db) = alert_dedupes db"
  "circuit_breakers (add_audit ev db) = circuit_breakers db"
  "person_links (add_audit ev db) = person_links db"
  "staff_invites (add_audit ev db) = staff_invites db"
  "audit_rows (add_audit ev db) = audit_rows db @ [ev]"
  by (simp_all add: add_audit_def)

text \<open>The event an insertion adds to a table, when its digest can be computed.\<close>

definition sealed :: "env \<Rightarrow> (audit_row list \<Rightarrow> audit_row) \<Rightarrow> audit_row list \<Rightarrow> audit_row \<Rightarrow> bool" where
  "sealed e draft rows ev \<longleftrightarrow>
     (\<exists>h. compute_audit_event_hash e (draft rows) = Inr h \<and> ev = (draft rows)\<lparr>ae_hash := Some h\<rparr>)"

lemma insert_event_cases:
  obtains ev where "audit_store_ok e" "sealed e draft (audit_rows (working s)) ev"
      "insert_event e draft s = (Inr (), s\<lparr>working := add_audit ev (working s)\<rparr>)"
  | err where "insert_event e draft s = (Inl err, s)"
proof (cases "compute_audit_event_hash e (draft (audit_rows (working s)))")
  case (Inr h)
  show ?thesis
  proof (cases "audit_store_ok e")
    case True
    have "sealed e draft (audit_rows (working s)) ((draft (audit_rows (working s)))\<lparr>ae_hash := Some h\<rparr>)"
      using Inr by (simp add: sealed_def)
    with True Inr that(1) show ?thesis by (simp add: insert_event_def Let_def add_audit_def)
  next
    case False
    with Inr that(2) show ?thesis by (simp add: insert_event_def Let_def)
  qed
qed (use that(2) in \<open>simp add: insert_event_def Let_def\<close>)

text \<open>
  \<open>audit_event\<close> never raises. It commits the session with one more event, or rolls the session back,
  or (outside a request) does nothing.
\<close>

lemma audit_event_cases:
  obtains ev where "has_request e" "audit_store_ok e" "storable (working s)"
      "sealed e (draft_event e t out uid md (audit_session_id sid s)) (audit_rows (working s)) ev"
      "audit_event e t out uid md sid s =
         (Inr (), s\<lparr>working := add_audit ev (working s), committed := add_audit ev (working s)\<rparr>)"
  | "has_request e" "audit_event e t out uid md sid s = (Inr (), s\<lparr>working := committed s\<rparr>)"
  | "\<not> has_request e" "audit_event e t out uid md sid s = (Inr (), s)"
proof (cases "has_request e")
  case True
  let ?d = "draft_event e t out uid md (audit_session_id sid s)"
  show ?thesis
  proof (cases rule: insert_event_cases [of e ?d s])
    case (1 ev)
    let ?s = "s\<lparr>working := add_audit ev (working s)\<rparr>"
    show ?thesis
    proof (cases rule: commitA_cases [of ?s])
      case c: 1
      show ?thesis
        by (rule that(1)) (use c 1 True in \<open>simp_all add: audit_event_def try_catch_def\<close>)
    next
      case c: (2 err)
      show ?thesis
        by (rule that(2)) (use c 1 True in \<open>simp_all add: audit_event_def try_catch_def\<close>)
    qed
  next
    case (2 err)
    show ?thesis by (rule that(2)) (use 2 True in \<open>simp_all add: audit_event_def try_catch_def\<close>)
  qed
qed (use that(3) in \<open>simp add: audit_event_def\<close>)

text \<open>\<open>audit_event_required\<close> adds one event to the open session, or raises and changes nothing.\<close>

lemma audit_event_required_cases:
  obtains ev where "has_request e" "audit_store_ok e"
      "sealed e (draft_event e t out uid md (audit_session_id sid s)) (audit_rows (working s)) ev"
      "audit_event_required e t out uid md sid s = (Inr (), s\<lparr>working := add_audit ev (working s)\<rparr>)"
  | m where "audit_event_required e t out uid md sid s = (Inl (AuditWriteError m), s)"
proof (cases "has_request e")
  case True
  let ?d = "draft_event e t out uid md (audit_session_id sid s)"
  show ?thesis
  proof (cases rule: insert_event_cases [of e ?d s])
    case (1 ev)
    show ?thesis
      by (rule that(1)) (use 1 True in \<open>simp_all add: audit_event_required_def try_catch_def\<close>)
  next
    case (2 err)
    show ?thesis
      by (rule that(2)) (use 2 True in \<open>simp add: audit_event_required_def try_catch_def\<close>)
  qed
qed (use that(2) in \<open>simp add: audit_event_required_def\<close>)

text \<open>A draft that chains to the newest digest and takes the next id.\<close>

definition chains :: "(audit_row list \<Rightarrow> audit_row) \<Rightarrow> bool" where
  "chains draft \<longleftrightarrow> (\<forall>rows. ae_id (draft rows) = next_id (map ae_id rows)
     \<and> ae_previous_hash (draft rows) = Some (latest_audit_event_hash rows))"

lemma chains_draft_event: "chains (draft_event e t out uid md sid)"
  by (simp add: chains_def draft_event_def)

lemma chains_draft_system_event: "chains (draft_system_event e t out uid md)"
  by (simp add: chains_def draft_system_event_def)

text \<open>
  The invariants an event insertion cannot break. Most say nothing about the audit table and hold
  for that reason; the invariant of the chain itself is one of them too.
\<close>

definition keeps_audit :: "env \<Rightarrow> (database \<Rightarrow> bool) \<Rightarrow> bool" where
  "keeps_audit e P \<longleftrightarrow>
     (\<forall>db draft ev. P db \<longrightarrow> chains draft \<longrightarrow> sealed e draft (audit_rows db) ev \<longrightarrow> P (add_audit ev db))"

lemma keeps_auditI: "(\<And>db ev. P db \<Longrightarrow> P (add_audit ev db)) \<Longrightarrow> keeps_audit e P"
  by (simp add: keeps_audit_def)

text \<open>Equal but for the audit table.\<close>

definition same_but_audit :: "database \<Rightarrow> database \<Rightarrow> bool" where
  "same_but_audit a b \<longleftrightarrow> a\<lparr>audit_rows := []\<rparr> = b\<lparr>audit_rows := []\<rparr>"

lemma same_but_audit_refl [simp]: "same_but_audit a a"
  by (simp add: same_but_audit_def)

lemma same_but_audit_add [simp]: "same_but_audit a (add_audit ev b) = same_but_audit a b"
  by (simp add: same_but_audit_def add_audit_def)

lemma keeps_same_but_audit: "keeps_audit e (same_but_audit a)"
  by (rule keeps_auditI) simp

lemma same_but_auditD:
  assumes "same_but_audit a b"
  shows "users b = users a"
    "payees b = payees a"
    "transactions b = transactions a"
    "registration_credits b = registration_credits a"
    "topup_credits b = topup_credits a"
    "topup_requests b = topup_requests a"
    "idempotency_rows b = idempotency_rows a"
    "pending_transfers b = pending_transfers a"
    "payup_pending_transfers b = payup_pending_transfers a"
    "auth_counters b = auth_counters a"
    "totp_replays b = totp_replays a"
    "recovery_codes b = recovery_codes a"
    "password_history b = password_history a"
    "reset_tokens b = reset_tokens a"
    "reset_transactions b = reset_transactions a"
    "manual_recoveries b = manual_recoveries a"
    "admin_actions b = admin_actions a"
    "server_sessions b = server_sessions a"
    "registration_otps b = registration_otps a"
    "disputes b = disputes a"
    "support_tickets b = support_tickets a"
    "known_devices b = known_devices a"
    "alert_dedupes b = alert_dedupes a"
    "circuit_breakers b = circuit_breakers a"
    "person_links b = person_links a"
    "staff_invites b = staff_invites a"
  using assms unfolding same_but_audit_def by (cases a; cases b; simp)+

lemma preserves_both_insert_event:
  assumes "keeps_audit e P" and "chains draft"
  shows "preserves (both P) (insert_event e draft)"
proof (rule preservesI)
  fix s assume b: "both P s"
  show "both P (snd (insert_event e draft s))"
    by (cases rule: insert_event_cases [of e draft s])
       (use assms b in \<open>auto simp: both_def keeps_audit_def\<close>)
qed

lemma preserves_both_audit_event [preserves_rules]:
  "keeps_audit e P \<Longrightarrow> preserves (both P) (audit_event e t out uid md sid)"
  unfolding audit_event_def by (intro preserves_rules preserves_both_insert_event chains_draft_event)

lemma preserves_both_audit_event_required [preserves_rules]:
  "keeps_audit e P \<Longrightarrow> preserves (both P) (audit_event_required e t out uid md sid)"
  unfolding audit_event_required_def by (intro preserves_rules preserves_both_insert_event chains_draft_event)

lemma preserves_both_write_system_audit_event [preserves_rules]:
  "keeps_audit e P \<Longrightarrow> preserves (both P) (write_system_audit_event e t out uid md req com)"
  unfolding write_system_audit_event_def
  by (intro preserves_rules preserves_both_insert_event chains_draft_system_event)

text \<open>An environment in which an audit event can be written.\<close>

definition audit_ready :: "env \<Rightarrow> bool" where
  "audit_ready e \<longleftrightarrow> has_request e \<and> audit_store_ok e \<and> 32 \<le> length (cfg_audit_hmac_key (cfg e))"

lemma audit_event_required_ready:
  assumes "audit_ready e"
  shows "\<exists>ev. audit_event_required e t out uid md sid s = (Inr (), s\<lparr>working := add_audit ev (working s)\<rparr>)"
proof -
  obtain h where "compute_audit_event_hash e (draft_event e t out uid md (audit_session_id sid s) (audit_rows (working s))) = Inr h"
    using assms
    by (auto simp: compute_audit_event_hash_def audit_hmac_key_bytes_def event_algorithm_def draft_event_def
        audit_hash_algorithm_def audit_ready_def)
  then show ?thesis
    using assms by (auto simp: audit_event_required_def try_catch_def insert_event_def Let_def add_audit_def audit_ready_def)
qed

end
