(* ===== verification/Audit_Verify.thy ===== *)
theory Audit_Verify
  imports Audit_Log
begin

section \<open>Properties of the audit chain\<close>

text \<open>
  A specification of a well chained event table, the proof that the verifier of
  \<^verbatim>\<open>app/security/audit.py\<close> accepts exactly such tables, and the properties that follow: the writers
  keep a verifiable chain verifiable, two verifiable tables with one anchor have the same content or
  exhibit a collision of the keyed digest, and an anchor taken from a verified table validates there
  and is reported stale, and not broken, after further events (unless the table had no digest yet).
\<close>

subsection \<open>The chain specification and the verifier\<close>

definition row_ok :: "env \<Rightarrow> string \<Rightarrow> audit_row \<Rightarrow> bool" where
  "row_ok e prev ev \<longleftrightarrow> ae_previous_hash ev = Some prev
     \<and> (\<exists>h. ae_hash ev = Some h \<and> compute_audit_event_hash e ev = Inr h)"

primrec chain_ok :: "env \<Rightarrow> string \<Rightarrow> audit_row list \<Rightarrow> bool" where
  "chain_ok e prev [] = True"
| "chain_ok e prev (ev # evs) = (row_ok e prev ev \<and> chain_ok e (the (ae_hash ev)) evs)"

definition last_hash :: "string \<Rightarrow> audit_row list \<Rightarrow> string" where
  "last_hash prev evs = (if evs = [] then prev else the (ae_hash (last evs)))"

lemma last_hash_simps [simp]:
  "last_hash p [] = p" "last_hash p (ev # evs) = last_hash (the (ae_hash ev)) evs"
  "last_hash p (evs @ [ev]) = the (ae_hash ev)"
  by (simp_all add: last_hash_def)

lemma chain_ok_append [simp]:
  "chain_ok e p (xs @ ys) \<longleftrightarrow> chain_ok e p xs \<and> chain_ok e (last_hash p xs) ys"
  by (induction xs arbitrary: p) auto

lemma append_chain_error_not_Nil [simp]: "append_chain_error i r x errs \<noteq> []"
  by (auto simp: append_chain_error_def)

lemma compute_supported:
  "compute_audit_event_hash e ev = Inr h \<Longrightarrow>
   event_algorithm ev \<in> {audit_hash_algorithm, legacy_audit_hash_algorithm}"
  by (auto simp: compute_audit_event_hash_def Let_def split: if_splits)

lemma verify_hashed_Nil_iff:
  assumes "hashed ev"
  shows "verify_hashed_audit_event e ev prev errs = [] \<longleftrightarrow> errs = [] \<and> row_ok e prev ev"
proof (cases "compute_audit_event_hash e ev")
  case (Inr h)
  with compute_supported [OF Inr] show ?thesis
    by (auto simp: verify_hashed_audit_event_def row_ok_def Let_def)
qed (auto simp: verify_hashed_audit_event_def row_ok_def Let_def)

text \<open>
  What the loop has computed after some events: the last digest, whether a digest was seen, the
  counts; and its error list is empty exactly when the digests form a chain with no gap after its
  start.
\<close>

definition no_gap :: "audit_row list \<Rightarrow> bool" where
  "no_gap rows \<longleftrightarrow> filter hashed rows = dropWhile (\<lambda>ev. \<not> hashed ev) rows"

lemma no_gap_Nil [simp]: "no_gap []"
  by (simp add: no_gap_def)

lemma no_gap_snoc:
  "no_gap (rows @ [ev]) \<longleftrightarrow> no_gap rows \<and> (hashed ev \<or> filter hashed rows = [])"
proof (cases "filter hashed rows = []")
  case True
  then have "\<forall>r \<in> set rows. \<not> hashed r" by (simp add: filter_empty_conv)
  then have "[] = dropWhile (\<lambda>ev. \<not> hashed ev) rows" by (simp add: eq_commute [of "[]"])
  with True show ?thesis by (simp add: no_gap_def dropWhile_append2 filter_empty_conv)
next
  case False
  then obtain r where r: "r \<in> set rows" "hashed r" by (auto simp: filter_empty_conv)
  then have "dropWhile (\<lambda>ev. \<not> hashed ev) (rows @ [ev]) = dropWhile (\<lambda>ev. \<not> hashed ev) rows @ [ev]"
    by (simp add: dropWhile_append1)
  moreover have "length (filter hashed rows) \<le> length (dropWhile (\<lambda>ev. \<not> hashed ev) rows)"
  proof (induction rows)
    case (Cons a rows)
    then show ?case using le_SucI length_filter_le by (auto intro: le_SucI)
  qed simp
  ultimately show ?thesis using False by (auto simp: no_gap_def)
qed

lemma chain_fold:
  fixes e rows
  defines "st \<equiv> foldl (chain_step e) chain_init rows" and "hs \<equiv> filter hashed rows"
  shows "cs_previous_hash st = last_hash audit_chain_start_hash hs"
    and "cs_chain_started st \<longleftrightarrow> hs \<noteq> []"
    and "cs_verified st = int (length hs)"
    and "cs_latest_id st = (if hs = [] then None else Some (ae_id (last hs)))"
    and "cs_latest_hash st = (if hs = [] then None else ae_hash (last hs))"
    and "cs_errors st = [] \<longleftrightarrow> no_gap rows \<and> chain_ok e audit_chain_start_hash hs"
  unfolding st_def hs_def
  by (induction rows rule: rev_induct)
     (auto simp: chain_init_def chain_step_def no_gap_snoc verify_hashed_Nil_iff)

lemma sort_by_id: "sorted_wrt (<) (map ae_id rows) \<Longrightarrow> events_by_id rows = rows"
  unfolding events_by_id_def
  by (rule sort_key_id_if_sorted) (simp add: strict_sorted_iff)

definition chain_valid :: "env \<Rightarrow> audit_row list \<Rightarrow> bool" where
  "chain_valid e rows \<longleftrightarrow> no_gap (events_by_id rows)
     \<and> chain_ok e audit_chain_start_hash (filter hashed (events_by_id rows))"

lemma vr_valid_iff: "vr_valid (chain_report_of e rows) \<longleftrightarrow> chain_valid e rows"
  by (simp add: chain_report_of_def chain_valid_def Let_def chain_fold)

lemma chain_report_fields:
  fixes e rows
  defines "hs \<equiv> filter hashed (events_by_id rows)"
  shows "vr_verified_event_count (chain_report_of e rows) = int (length hs)"
    and "vr_latest_event_id (chain_report_of e rows) = (if hs = [] then None else Some (ae_id (last hs)))"
    and "vr_latest_event_hash (chain_report_of e rows) = (if hs = [] then None else ae_hash (last hs))"
    and "vr_event_count (chain_report_of e rows) = int (length rows)"
    and "0 \<le> vr_legacy_unhashed_event_count (chain_report_of e rows)"
proof -
  have "0 \<le> cs_legacy (foldl (chain_step e) chain_init xs)" for xs
    by (induction xs rule: rev_induct) (auto simp: chain_init_def chain_step_def)
  then show "0 \<le> vr_legacy_unhashed_event_count (chain_report_of e rows)"
    by (simp add: chain_report_of_def Let_def)
qed (simp_all add: hs_def chain_report_of_def Let_def chain_fold)

lemma latest_hash_of_chain:
  assumes "no_gap rows" and "sorted_wrt (<) (map ae_id rows)"
  shows "latest_audit_event_hash rows = last_hash audit_chain_start_hash (filter hashed rows)"
proof -
  have "(case rev (filter (\<lambda>ev. ae_hash ev \<noteq> None) rows) of [] \<Rightarrow> audit_chain_start_hash
      | ev # _ \<Rightarrow> (case ae_hash ev of None \<Rightarrow> audit_chain_start_hash
                    | Some h \<Rightarrow> if h = [] then audit_chain_start_hash else h))
      = last_hash audit_chain_start_hash (filter hashed rows)"
    using assms(1)
  proof (induction rows rule: rev_induct)
    case (snoc ev rows)
    then show ?case
      using hashed_def [of ev] by (cases "ae_hash ev") (auto simp: no_gap_snoc last_hash_def)
  qed simp
  then show ?thesis using assms(2) by (simp add: latest_audit_event_hash_def sort_by_id)
qed

text \<open>The digest parameters return what \<^verbatim>\<open>hexdigest\<close> does: 64 lower-case hexadecimal digits.\<close>

definition hexdigest_ok :: "env \<Rightarrow> bool" where
  "hexdigest_ok e \<longleftrightarrow> (\<forall>k m. is_hex64 (hmac_sha256 e k m)) \<and> (\<forall>m. is_hex64 (sha256_hex e m))"

lemma compute_hex64: "hexdigest_ok e \<Longrightarrow> compute_audit_event_hash e ev = Inr h \<Longrightarrow> is_hex64 h"
  by (auto simp: compute_audit_event_hash_def hexdigest_ok_def Let_def split: if_splits sum.splits)

text \<open>What digests depend on: the two functions and the key.\<close>

definition audit_env :: "env \<Rightarrow> (string \<Rightarrow> string \<Rightarrow> string) \<times> (string \<Rightarrow> string) \<times> string" where
  "audit_env e = (hmac_sha256 e, sha256_hex e, cfg_audit_hmac_key (cfg e))"

lemma compute_cong: "audit_env e = audit_env e' \<Longrightarrow> compute_audit_event_hash e ev = compute_audit_event_hash e' ev"
  by (simp add: audit_env_def compute_audit_event_hash_def audit_hmac_key_bytes_def Let_def)

lemma chain_report_cong:
  assumes "audit_env e = audit_env e'"
  shows "chain_report_of e rows = chain_report_of e' rows"
proof -
  have "chain_step e = chain_step e'"
    using compute_cong [OF assms] by (simp add: fun_eq_iff chain_step_def verify_hashed_audit_event_def)
  then show ?thesis by (simp add: chain_report_of_def)
qed

lemma chain_ok_cong: "audit_env e = audit_env e' \<Longrightarrow> chain_ok e p evs = chain_ok e' p evs"
  by (induction evs arbitrary: p) (simp_all add: row_ok_def compute_cong [of e e'])

subsection \<open>The invariant of the audit table\<close>

definition audit_inv :: "env \<Rightarrow> database \<Rightarrow> bool" where
  "audit_inv e db \<longleftrightarrow> sorted_wrt (<) (map ae_id (audit_rows db)) \<and> (\<forall>ev \<in> set (audit_rows db). 0 < ae_id ev)
     \<and> chain_valid e (audit_rows db)"

lemma next_id_greater: "i \<in> set ids \<Longrightarrow> i < next_id ids" "0 < next_id ids"
  using fold_max_ge(1) [of i ids 0] fold_max_ge(2) [of 0 ids] by (auto simp: next_id_def)

lemma canonical_hash_irrelevant [simp]:
  "compute_audit_event_hash e (ev\<lparr>ae_hash := h\<rparr>) = compute_audit_event_hash e ev"
  by (simp add: compute_audit_event_hash_def canonical_audit_event_payload_def canonical_fields_def event_algorithm_def)

lemma audit_inv_add:
  assumes inv: "audit_inv e db" and "hexdigest_ok e" and "audit_env e' = audit_env e"
    and "chains draft" and "sealed e' draft (audit_rows db) ev"
  shows "audit_inv e (add_audit ev db)"
proof -
  let ?rows = "audit_rows db"
  obtain h where h: "compute_audit_event_hash e (draft ?rows) = Inr h" and ev: "ev = (draft ?rows)\<lparr>ae_hash := Some h\<rparr>"
    using assms compute_cong [of e' e] by (auto simp: sealed_def)
  have s: "sorted_wrt (<) (map ae_id ?rows)" and v: "chain_valid e ?rows"
    using inv by (simp_all add: audit_inv_def)
  have id: "ae_id ev = next_id (map ae_id ?rows)"
    using assms(4) by (simp add: ev chains_def)
  then have s': "sorted_wrt (<) (map ae_id (?rows @ [ev]))"
    using s next_id_greater(1) [of _ "map ae_id ?rows"] by (auto simp: sorted_wrt_append)
  have "h \<noteq> []" using compute_hex64 [OF assms(2) h] by (auto simp: is_hex64_def)
  then have "hashed ev" by (simp add: ev hashed_def)
  moreover have "row_ok e (last_hash audit_chain_start_hash (filter hashed ?rows)) ev"
    using assms(4) v s h by (simp add: row_ok_def ev chains_def latest_hash_of_chain chain_valid_def sort_by_id)
  ultimately have "chain_valid e (?rows @ [ev])"
    using v s s' by (simp add: chain_valid_def sort_by_id no_gap_snoc)
  then show ?thesis
    using inv s' id next_id_greater(2) [of "map ae_id ?rows"] by (simp add: audit_inv_def)
qed

lemma audit_inv_frame [simp]: "audit_rows db' = audit_rows db \<Longrightarrow> audit_inv e db' = audit_inv e db"
  by (simp add: audit_inv_def)

lemma keeps_audit_inv: "hexdigest_ok e \<Longrightarrow> audit_env e' = audit_env e \<Longrightarrow> keeps_audit e' (audit_inv e)"
  unfolding keeps_audit_def by (blast intro: audit_inv_add)

subsection \<open>Tamper evidence\<close>

lemma canonical_keys:
  "map fst (canonical_fields ev) = [''event_type'', ''outcome'', ''user_id'', ''ip_address'', ''user_agent'',
     ''correlation_id'', ''session_ref'', ''event_metadata'', ''created_at'', ''previous_event_hash'']"
  by (simp add: canonical_fields_def)

lemma canonical_payload_inject:
  assumes "canonical_audit_event_payload x = canonical_audit_event_payload y"
  shows "ae_event_type x = ae_event_type y \<and> ae_outcome x = ae_outcome y \<and> ae_user_id x = ae_user_id y
    \<and> ae_ip_address x = ae_ip_address y \<and> ae_user_agent x = ae_user_agent y
    \<and> ae_correlation_id x = ae_correlation_id y \<and> ae_session_ref x = ae_session_ref y
    \<and> utc_iso (ae_created_at x) = utc_iso (ae_created_at y) \<and> ae_previous_hash x = ae_previous_hash y"
proof -
  have "map (sort_keys \<circ> snd) (canonical_fields x) = map (sort_keys \<circ> snd) (canonical_fields y)"
    using assms unfolding canonical_audit_event_payload_def
    by (rule json_dumps_obj_inject) (simp_all only: canonical_keys, simp)
  then show ?thesis by (simp add: canonical_fields_def)
qed

definition keyed_rows :: "audit_row list \<Rightarrow> bool" where
  "keyed_rows evs \<longleftrightarrow> list_all (\<lambda>ev. event_algorithm ev = audit_hash_algorithm) evs"

text \<open>
  The payload of event \<open>i\<close> differs between two lists of events although it has the same HMAC under the
  audit key in both, and all later events have the same payloads.
\<close>

definition clash_at :: "env \<Rightarrow> audit_row list \<Rightarrow> audit_row list \<Rightarrow> nat \<Rightarrow> bool" where
  "clash_at e xs ys i \<longleftrightarrow> i < length xs
     \<and> hmac_clash e (cfg_audit_hmac_key (cfg e)) (canonical_audit_event_payload (xs ! i)) (canonical_audit_event_payload (ys ! i))
     \<and> map canonical_audit_event_payload (drop (Suc i) xs) = map canonical_audit_event_payload (drop (Suc i) ys)"

lemma row_ok_hmac:
  assumes "row_ok e prev ev" and "event_algorithm ev = audit_hash_algorithm"
  shows "ae_hash ev = Some (hmac_sha256 e (cfg_audit_hmac_key (cfg e)) (canonical_audit_event_payload ev))
    \<and> ae_previous_hash ev = Some prev"
  using assms
  by (auto simp: row_ok_def compute_audit_event_hash_def audit_hmac_key_bytes_def Let_def split: if_splits)

lemma chain_determined:
  assumes "chain_ok e p xs" "chain_ok e p ys" and "keyed_rows xs" "keyed_rows ys"
    and "length xs = length ys" and "last_hash p xs = last_hash p ys"
  shows "map canonical_audit_event_payload xs = map canonical_audit_event_payload ys
    \<or> (\<exists>i. clash_at e xs ys i)"
  using assms
proof (induction xs arbitrary: ys rule: rev_induct)
  case (snoc x xs)
  then obtain y ys' where ys: "ys = ys' @ [y]" by (metis length_0_conv rev_exhaust snoc_eq_iff_butlast)
  let ?h = "hmac_sha256 e (cfg_audit_hmac_key (cfg e))" and ?c = canonical_audit_event_payload
  have x: "ae_hash x = Some (?h (?c x))" "ae_previous_hash x = Some (last_hash p xs)"
    and y: "ae_hash y = Some (?h (?c y))" "ae_previous_hash y = Some (last_hash p ys')"
    using snoc.prems row_ok_hmac by (fastforce simp: ys keyed_rows_def)+
  have heq: "?h (?c x) = ?h (?c y)" using snoc.prems x y by (simp add: ys)
  show ?case
  proof (cases "?c x = ?c y")
    case True
    then have "last_hash p xs = last_hash p ys'" using canonical_payload_inject [OF True] x y by simp
    then have "map ?c xs = map ?c ys' \<or> (\<exists>i. clash_at e xs ys' i)"
      using snoc.prems by (intro snoc.IH) (simp_all add: ys keyed_rows_def)
    moreover have "length ys' = length xs" using snoc.prems by (simp add: ys)
    ultimately show ?thesis using True by (auto simp: ys clash_at_def nth_append intro: exI)
  next
    case False
    have "length ys' = length xs" using snoc.prems by (simp add: ys)
    with False heq have "clash_at e (xs @ [x]) ys (length xs)" by (simp add: clash_at_def hmac_clash_def ys nth_append)
    then show ?thesis by blast
  qed
qed simp

subsection \<open>Anchors\<close>

lemma anchor_get_report:
  "anchor_get (report_fields r) ''hash_algorithm'' = JStr audit_hash_algorithm"
  "anchor_get (report_fields r) ''chain_start'' = JStr audit_chain_start_hash"
  "anchor_get (report_fields r) ''event_count'' = JInt (vr_event_count r)"
  "anchor_get (report_fields r) ''verified_event_count'' = JInt (vr_verified_event_count r)"
  "anchor_get (report_fields r) ''legacy_unhashed_event_count'' = JInt (vr_legacy_unhashed_event_count r)"
  "anchor_get (report_fields r) ''latest_event_id'' = opt_json JInt (vr_latest_event_id r)"
  "anchor_get (report_fields r) ''latest_event_hash'' = opt_json JStr (vr_latest_event_hash r)"
  "anchor_get (report_fields r) ''valid'' = JBool (vr_valid r)"
  by (simp_all add: anchor_get_def report_fields_def)

lemma anchor_get_log_anchor:
  "f \<in> set (''valid'' # anchor_head_fields) \<Longrightarrow>
   anchor_get (audit_log_anchor e rows) f = anchor_get (report_fields (chain_report_of e rows)) f"
  by (auto simp: anchor_get_def audit_log_anchor_def anchor_head_fields_def)

lemmas log_anchor_simps =
  anchor_get_log_anchor [of "''hash_algorithm''", simplified anchor_get_report]
  anchor_get_log_anchor [of "''chain_start''", simplified anchor_get_report]
  anchor_get_log_anchor [of "''event_count''", simplified anchor_get_report]
  anchor_get_log_anchor [of "''verified_event_count''", simplified anchor_get_report]
  anchor_get_log_anchor [of "''legacy_unhashed_event_count''", simplified anchor_get_report]
  anchor_get_log_anchor [of "''latest_event_id''", simplified anchor_get_report]
  anchor_get_log_anchor [of "''latest_event_hash''", simplified anchor_get_report]
  anchor_get_log_anchor [of "''valid''", simplified anchor_get_report]

definition values_of :: "chain_report \<Rightarrow> anchor_values" where
  "values_of r = \<lparr>av_event_count = Some (vr_event_count r), av_verified = Some (vr_verified_event_count r),
     av_legacy = Some (vr_legacy_unhashed_event_count r), av_latest_id = vr_latest_event_id r,
     av_latest_hash = vr_latest_event_hash r\<rparr>"

text \<open>The table invariant over a list of rows, and its prefixes.\<close>

definition rows_inv :: "env \<Rightarrow> audit_row list \<Rightarrow> bool" where
  "rows_inv e rows \<longleftrightarrow> sorted_wrt (<) (map ae_id rows) \<and> (\<forall>ev \<in> set rows. 0 < ae_id ev) \<and> chain_valid e rows"

lemma audit_inv_rows: "audit_inv e db \<longleftrightarrow> rows_inv e (audit_rows db)"
  by (simp add: audit_inv_def rows_inv_def)

lemma no_gap_prefix: "no_gap (xs @ ys) \<Longrightarrow> no_gap xs"
  by (induction ys rule: rev_induct) (simp_all add: no_gap_snoc flip: append_assoc)

lemma rows_inv_prefix: "rows_inv e (xs @ ys) \<Longrightarrow> rows_inv e xs"
  by (auto simp: rows_inv_def chain_valid_def sort_by_id sorted_wrt_append dest: no_gap_prefix)

lemma chain_ok_hash: "chain_ok e p evs \<Longrightarrow> ev \<in> set evs \<Longrightarrow> \<exists>h. ae_hash ev = Some h \<and> compute_audit_event_hash e ev = Inr h"
  by (induction evs arbitrary: p) (auto simp: row_ok_def)

lemma legacy_mono: "cs_legacy (foldl (chain_step e) st xs) \<ge> cs_legacy st"
  by (induction xs rule: rev_induct) (auto simp: chain_step_def)

lemma reports_grow:
  assumes "rows_inv e (xs @ ys)"
  shows "vr_legacy_unhashed_event_count (chain_report_of e xs) \<le> vr_legacy_unhashed_event_count (chain_report_of e (xs @ ys))"
    and "vr_verified_event_count (chain_report_of e xs) \<le> vr_verified_event_count (chain_report_of e (xs @ ys))"
    and "vr_event_count (chain_report_of e xs) \<le> vr_event_count (chain_report_of e (xs @ ys))"
proof -
  have s: "events_by_id xs = xs" "events_by_id (xs @ ys) = xs @ ys"
    using assms rows_inv_prefix [OF assms] by (simp_all add: rows_inv_def sort_by_id)
  show "vr_legacy_unhashed_event_count (chain_report_of e xs) \<le> vr_legacy_unhashed_event_count (chain_report_of e (xs @ ys))"
    by (simp add: chain_report_of_def Let_def s legacy_mono)
  show "vr_verified_event_count (chain_report_of e xs) \<le> vr_verified_event_count (chain_report_of e (xs @ ys))"
    by (simp add: chain_report_fields s)
qed (simp add: chain_report_fields)

lemma latest_of_prefix:
  assumes inv: "rows_inv e (xs @ ys)" and "hexdigest_ok e" and "filter hashed xs \<noteq> []"
  shows "\<exists>ev h. vr_latest_event_id (chain_report_of e xs) = Some (ae_id ev) \<and> 0 < ae_id ev
    \<and> vr_latest_event_hash (chain_report_of e xs) = Some h \<and> is_hex64 h \<and> ae_hash ev = Some h \<and> hashed ev
    \<and> find (\<lambda>r. ae_id r = ae_id ev) (xs @ ys) = Some ev
    \<and> (\<exists>l. vr_latest_event_id (chain_report_of e (xs @ ys)) = Some l \<and> ae_id ev \<le> l
          \<and> (filter hashed ys \<noteq> [] \<longrightarrow> ae_id ev < l))"
proof -
  let ?ev = "last (filter hashed xs)"
  have px: "rows_inv e xs" using inv by (rule rows_inv_prefix)
  have mem: "?ev \<in> set (filter hashed xs)" using assms(3) by (rule last_in_set)
  then obtain h where h: "ae_hash ?ev = Some h" "compute_audit_event_hash e ?ev = Inr h"
    using px chain_ok_hash unfolding rows_inv_def chain_valid_def by (metis sort_by_id)
  have "distinct (map ae_id (xs @ ys))"
    using inv strict_sorted_iff unfolding rows_inv_def by blast
  then have "find (\<lambda>r. ae_id r = ae_id ?ev) (xs @ ys) = Some ?ev"
    using mem by (intro find_key_distinct) auto
  moreover have "ae_id ?ev < ae_id r" if "r \<in> set (filter hashed ys)" for r
    using inv mem that by (auto simp: rows_inv_def sorted_wrt_append)
  moreover have "last (filter hashed ys) \<in> set (filter hashed ys)" if "filter hashed ys \<noteq> []"
    using that by (rule last_in_set)
  moreover from calculation have "ae_id ?ev \<le> ae_id (last (filter hashed xs @ filter hashed ys))"
    by (cases "filter hashed ys = []") (auto simp: order.strict_implies_order)
  ultimately show ?thesis
    using inv px mem h compute_hex64 [OF assms(2) h(2)] assms(3)
    by (intro exI [of _ ?ev] exI [of _ h])
       (auto simp: chain_report_fields rows_inv_def sort_by_id)
qed

lemma anchor_prefix_accepted:
  assumes inv: "rows_inv e (xs @ ys)" and hex: "hexdigest_ok e" and ne: "filter hashed xs \<noteq> []"
    and r: "r = (chain_report_of e (xs @ ys))\<lparr>vr_anchor_status := st, vr_anchor_validated := va,
              vr_anchor_stale := ss, vr_anchor_refresh_required := rr\<rparr>"
  shows "validated_anchor_values (xs @ ys) r (audit_log_anchor e xs) = (values_of (chain_report_of e xs), [])"
proof -
  let ?r0 = "chain_report_of e xs"
  obtain ev h l where p: "vr_latest_event_id ?r0 = Some (ae_id ev)" "0 < ae_id ev"
     "vr_latest_event_hash ?r0 = Some h" "is_hex64 h" "ae_hash ev = Some h" "hashed ev"
     "find (\<lambda>r. ae_id r = ae_id ev) (xs @ ys) = Some ev"
     "vr_latest_event_id (chain_report_of e (xs @ ys)) = Some l" "ae_id ev \<le> l"
    using latest_of_prefix [OF inv hex ne] by metis
  have v: "vr_valid ?r0" using rows_inv_prefix [OF inv] by (simp add: vr_valid_iff rows_inv_def)
  have nn: "\<not> vr_event_count ?r0 < 0" "\<not> vr_verified_event_count ?r0 < 0"
      "\<not> vr_legacy_unhashed_event_count ?r0 < 0" "\<not> ae_id ev < 0"
    using p(2) chain_report_fields(5) [of e xs] by (simp_all add: chain_report_fields(1-4) not_less)
  note f = log_anchor_simps anchor_get_report p v nn opt_json_def r
  have "validate_anchor_position r (values_of ?r0) [] = []"
    using reports_grow [OF inv] p
    by (simp add: validate_anchor_position_def count_pairs_def values_of_def r)
  moreover have "validate_anchor_event_hash (xs @ ys) (values_of ?r0) [] = []"
    using p by (simp add: validate_anchor_event_hash_def values_of_def)
  ultimately show ?thesis
    by (simp add: validated_anchor_values_def f anchor_non_negative_int_def anchor_latest_event_id_def
        anchor_latest_event_hash_def values_of_def anchor_head_fields_def Let_def)
qed

lemma compare_validated:
  assumes "vr_anchor_status (compare_audit_anchor rows r a) = ''validated''"
    and "vr_anchor_status r = ''not_configured''"
  shows "vr_valid r \<and> anchor_matches_current_head r a"
  using assms
  by (auto simp: compare_audit_anchor_def set_critical_anchor_errors_def anchor_matches_current_head_def
      report_fields_def Let_def split: prod.splits if_splits)

lemma status_not_configured: "vr_anchor_status (chain_report_of e rows) = ''not_configured''"
  by (simp add: chain_report_of_def Let_def)

lemma head_equal:
  assumes "anchor_matches_current_head (chain_report_of e rows) (audit_log_anchor e' rows')"
  shows "vr_verified_event_count (chain_report_of e rows) = vr_verified_event_count (chain_report_of e' rows')"
    and "vr_latest_event_hash (chain_report_of e rows) = vr_latest_event_hash (chain_report_of e' rows')"
proof -
  have "\<forall>f \<in> set anchor_head_fields. anchor_get (report_fields (chain_report_of e' rows')) f
      = anchor_get (report_fields (chain_report_of e rows)) f"
    using assms anchor_get_log_anchor by (auto simp: anchor_matches_current_head_def list_all_iff)
  then show "vr_verified_event_count (chain_report_of e rows) = vr_verified_event_count (chain_report_of e' rows')"
    and "vr_latest_event_hash (chain_report_of e rows) = vr_latest_event_hash (chain_report_of e' rows')"
    by (simp_all add: anchor_head_fields_def anchor_get_report)
qed

lemma growing_log_report:
  assumes "rows_inv e (xs @ ys)" and "hexdigest_ok e" and "filter hashed xs \<noteq> []"
    and "filter hashed ys \<noteq> [] \<or> ys = []"
  shows "vr_valid (verify_audit_hash_chain e (Some (audit_log_anchor e xs)) (xs @ ys))
    \<and> vr_anchor_status (verify_audit_hash_chain e (Some (audit_log_anchor e xs)) (xs @ ys))
        = (if ys = [] then ''validated'' else ''stale'')
    \<and> vr_events_since_anchor (verify_audit_hash_chain e (Some (audit_log_anchor e xs)) (xs @ ys))
        = Some (int (length ys))"
proof -
  let ?a = "audit_log_anchor e xs" and ?own = "chain_report_of e xs"
  let ?r = "(chain_report_of e (xs @ ys))\<lparr>vr_anchor_status := ''checking'', vr_anchor_validated := Some False,
              vr_anchor_stale := False, vr_anchor_refresh_required := False\<rparr>"
  have v: "validated_anchor_values (xs @ ys) ?r ?a = (values_of ?own, [])"
    using assms(1-3) by (rule anchor_prefix_accepted) (rule refl)
  have valid: "vr_valid (chain_report_of e (xs @ ys))"
    using assms(1) by (simp add: vr_valid_iff rows_inv_def)
  have head: "anchor_matches_current_head (?r\<lparr>vr_anchor_event_id := i\<rparr>) ?a \<longleftrightarrow> ys = []" for i
  proof
    assume "anchor_matches_current_head (?r\<lparr>vr_anchor_event_id := i\<rparr>) ?a"
    then show "ys = []"
      by (simp add: anchor_matches_current_head_def anchor_head_fields_def log_anchor_simps anchor_get_report
          chain_report_fields)
  next
    assume "ys = []"
    then show "anchor_matches_current_head (?r\<lparr>vr_anchor_event_id := i\<rparr>) ?a"
      by (simp add: anchor_matches_current_head_def anchor_head_fields_def log_anchor_simps anchor_get_report)
  qed
  have stale: "anchor_is_append_only_stale (?r\<lparr>vr_anchor_event_id := i\<rparr>) (values_of ?own)" if "ys \<noteq> []" for i
    using latest_of_prefix [OF assms(1-3)] reports_grow [OF assms(1)] assms(4) that
    by (auto simp: anchor_is_append_only_stale_def values_of_def count_pairs_def chain_report_fields(4))
  obtain zs where zs: "xs @ ys = zs" by blast
  have n: "vr_event_count (chain_report_of e zs) - vr_event_count ?own = int (length ys)"
    by (simp add: chain_report_fields(4) flip: zs)
  note facts = v [unfolded zs] valid [unfolded zs] head [unfolded zs] stale [unfolded zs] n
  have "av_event_count (values_of ?own) = Some (vr_event_count ?own)" by (simp add: values_of_def)
  then show ?thesis
    unfolding zs
    by (cases "ys = []")
       (simp_all add: verify_audit_hash_chain_def compare_audit_anchor_def facts Let_def or_zero_def)
qed

subsection \<open>A sample log\<close>

definition sample_event :: "env \<Rightarrow> audit_row list \<Rightarrow> audit_row" where
  "sample_event e rows =
     (let ev = draft_event e ''login'' ''success'' (Some 7) [] None rows in
      ev\<lparr>ae_hash := Some (hmac_sha256 e (cfg_audit_hmac_key (cfg e)) (canonical_audit_event_payload ev))\<rparr>)"

definition sample_log :: "env \<Rightarrow> audit_row list" where
  "sample_log e = (let rows = [sample_event e []] in rows @ [sample_event e rows])"

lemma hexdigest_ok_sample: "hexdigest_ok sample_env64"
  by (simp add: hexdigest_ok_def sample_env64_def is_hex64_def py_isdigit_def ascii_in_def list_all_iff)

lemma sealed_sample:
  assumes "32 \<le> length (cfg_audit_hmac_key (cfg e))"
  shows "sealed e (draft_event e ''login'' ''success'' (Some 7) [] None) rows (sample_event e rows)"
  using assms
  by (simp add: sealed_def sample_event_def Let_def compute_audit_event_hash_def audit_hmac_key_bytes_def
      event_algorithm_def draft_event_def audit_hash_algorithm_def)

lemma rows_inv_sample:
  assumes "hexdigest_ok e" and "32 \<le> length (cfg_audit_hmac_key (cfg e))"
  shows "rows_inv e (sample_log e)"
proof -
  let ?ev = "sample_event e"
  have "audit_inv e empty_db"
    by (simp add: audit_inv_def empty_db_def chain_valid_def events_by_id_def)
  then have "audit_inv e (add_audit (?ev []) empty_db)"
    by (rule audit_inv_add [OF _ assms(1) refl chains_draft_event])
       (use sealed_sample [OF assms(2)] in \<open>simp add: empty_db_def\<close>)
  then have "audit_inv e (add_audit (?ev [?ev []]) (add_audit (?ev []) empty_db))"
    by (rule audit_inv_add [OF _ assms(1) refl chains_draft_event])
       (use sealed_sample [OF assms(2)] in \<open>simp add: empty_db_def\<close>)
  then show ?thesis by (simp add: audit_inv_rows sample_log_def empty_db_def Let_def)
qed

lemma hashed_sample: "hexdigest_ok e \<Longrightarrow> hashed (sample_event e rows)"
proof -
  assume "hexdigest_ok e"
  then have "is_hex64 (hmac_sha256 e k m)" for k m by (simp add: hexdigest_ok_def)
  then have "length (hmac_sha256 e k m) = 64" for k m by (simp add: is_hex64_def)
  then have "hmac_sha256 e k m \<noteq> []" for k m by (metis length_0_conv zero_neq_numeral)
  then show ?thesis by (simp add: hashed_def sample_event_def Let_def)
qed

lemma sample_event_fields [simp]:
  "ae_id (sample_event e rows) = next_id (map ae_id rows)" "ae_algorithm (sample_event e rows) = audit_hash_algorithm"
  by (simp_all add: sample_event_def draft_event_def Let_def)

lemma sample_key64: "32 \<le> length (cfg_audit_hmac_key (cfg sample_env64))"
  by (simp add: sample_env64_def sample_env_def sample_cfg_def)

lemmas sample64 = rows_inv_sample [OF hexdigest_ok_sample sample_key64] hashed_sample [OF hexdigest_ok_sample]

text \<open>
  A forger who turns the first event of the sample log into a failure and keeps its stored digest, and
  a digest that tells the forged payload from all others.
\<close>

definition forged :: "audit_row list \<Rightarrow> audit_row list" where
  "forged rows = (case rows of [] \<Rightarrow> [] | ev # evs \<Rightarrow> ev\<lparr>ae_outcome := ''failure''\<rparr> # evs)"

definition forged_payload :: string where
  "forged_payload = canonical_audit_event_payload ((draft_event sample_env ''login'' ''success'' (Some 7) [] None [])\<lparr>ae_outcome := ''failure''\<rparr>)"

definition forgery_env :: env where
  "forgery_env = sample_env\<lparr>hmac_sha256 := (\<lambda>_ m. replicate 64 (if m = forged_payload then CHR ''f'' else CHR ''a'')),
     sha256_hex := (\<lambda>_. replicate 64 (CHR ''b''))\<rparr>"

lemma keyed_sample: "keyed_rows (sample_log e)"
  by (simp add: keyed_rows_def sample_log_def sample_event_def draft_event_def event_algorithm_def Let_def
      audit_hash_algorithm_def)

lemma keyed_forged: "keyed_rows (forged (sample_log e))"
  by (simp add: keyed_rows_def forged_def sample_log_def event_algorithm_def audit_hash_algorithm_def Let_def)

lemma sample_log_sorted:
  "filter hashed (events_by_id (sample_log e)) = sample_log e"
  "filter hashed (events_by_id (forged (sample_log e))) = forged (sample_log e)" if "hexdigest_ok e"
  using hashed_sample [OF that]
  by (simp_all add: sort_by_id forged_def sample_log_def next_id_def hashed_def Let_def)

lemma forged_payloads:
  "canonical_audit_event_payload ((sample_event forgery_env [])\<lparr>ae_outcome := ''failure''\<rparr>) = forged_payload"
  "canonical_audit_event_payload (sample_event forgery_env []) \<noteq> forged_payload"
proof -
  show f: "canonical_audit_event_payload ((sample_event forgery_env [])\<lparr>ae_outcome := ''failure''\<rparr>) = forged_payload"
    by (simp add: forged_payload_def canonical_audit_event_payload_def canonical_fields_def sample_event_def Let_def
        draft_event_def forgery_env_def session_fingerprint_def)
  have "clean_audit_text ''success'' 24 \<noteq> ''failure''" by code_simp
  then show "canonical_audit_event_payload (sample_event forgery_env []) \<noteq> forged_payload"
    using canonical_payload_inject [of "sample_event forgery_env []" "(sample_event forgery_env [])\<lparr>ae_outcome := ''failure''\<rparr>"]
    unfolding f by (auto simp: sample_event_def draft_event_def Let_def)
qed

lemma forged_differs:
  "map canonical_audit_event_payload (forged (sample_log forgery_env)) \<noteq> map canonical_audit_event_payload (sample_log forgery_env)"
  "\<not> clash_at forgery_env (forged (sample_log forgery_env)) (sample_log forgery_env) i"
  using forged_payloads
  by (auto simp: forged_def sample_log_def Let_def clash_at_def hmac_clash_def nth_Cons' forgery_env_def)

subsection \<open>Properties\<close>

text \<open>
  C7. The audit log is tamper evident. Take an anchor of a table whose chain verifies. If another
  table is reported \<^emph>\<open>validated\<close> against that anchor, and both hold events of the keyed algorithm only,
  then the two tables have the same number of digested events and their digested contents are the same,
  event by event; or there is a last event whose contents differ, and the two payloads of this event have
  one HMAC under the audit key.
\<close>

theorem anchored_log_determined:
  assumes "vr_valid (verify_audit_hash_chain e None rows)"
    and "vr_anchor_status (verify_audit_hash_chain e (Some (audit_log_anchor e rows)) rows') = ''validated''"
    and "keyed_rows rows" and "keyed_rows rows'"
  shows "length (filter hashed (events_by_id rows')) = length (filter hashed (events_by_id rows))
    \<and> (map canonical_audit_event_payload (filter hashed (events_by_id rows'))
         = map canonical_audit_event_payload (filter hashed (events_by_id rows))
       \<or> (\<exists>i. clash_at e (filter hashed (events_by_id rows')) (filter hashed (events_by_id rows)) i))"
proof -
  let ?f = "\<lambda>rows. filter hashed (events_by_id rows)"
  have m: "vr_valid (chain_report_of e rows')"
      "anchor_matches_current_head (chain_report_of e rows') (audit_log_anchor e rows)"
    using assms(2) compare_validated [of rows' "chain_report_of e rows'"]
    by (simp_all add: verify_audit_hash_chain_def status_not_configured)
  have k: "keyed_rows (?f rows)" "keyed_rows (?f rows')"
    using assms(3,4) by (auto simp: keyed_rows_def list_all_iff events_by_id_def)
  have c: "chain_ok e audit_chain_start_hash (?f rows)" "chain_ok e audit_chain_start_hash (?f rows')"
    using assms(1) m(1) by (simp_all add: verify_audit_hash_chain_def vr_valid_iff chain_valid_def)
  have l: "length (?f rows') = length (?f rows)"
    using head_equal(1) [OF m(2)] by (simp add: chain_report_fields)
  moreover have "last_hash audit_chain_start_hash (?f rows') = last_hash audit_chain_start_hash (?f rows)"
    using head_equal(2) [OF m(2)] l by (auto simp: chain_report_fields last_hash_def split: if_splits)
  ultimately show ?thesis using c k l by (intro conjI chain_determined) simp_all
qed

theorem anchored_log_determined_witness:
  "vr_anchor_status (verify_audit_hash_chain forgery_env (Some (audit_log_anchor forgery_env (sample_log forgery_env)))
     (sample_log forgery_env)) = ''validated''
   \<and> vr_anchor_status (verify_audit_hash_chain forgery_env (Some (audit_log_anchor forgery_env (sample_log forgery_env)))
     (forged (sample_log forgery_env))) \<noteq> ''validated''"
proof (intro conjI notI)
  let ?e = forgery_env and ?l = "sample_log forgery_env"
  have h: "hexdigest_ok ?e"
    by (simp add: hexdigest_ok_def forgery_env_def is_hex64_def py_isdigit_def ascii_in_def list_all_iff)
  have r: "rows_inv ?e ?l"
    by (rule rows_inv_sample [OF h]) (simp add: forgery_env_def sample_env_def sample_cfg_def)
  show "vr_anchor_status (verify_audit_hash_chain ?e (Some (audit_log_anchor ?e ?l)) ?l) = ''validated''"
    using growing_log_report [of ?e ?l "[]"] r h hashed_sample [OF h] by (simp add: sample_log_def Let_def)
  assume v: "vr_anchor_status (verify_audit_hash_chain ?e (Some (audit_log_anchor ?e ?l)) (forged ?l)) = ''validated''"
  have "vr_valid (verify_audit_hash_chain ?e None ?l)"
    using r by (simp add: verify_audit_hash_chain_def vr_valid_iff rows_inv_def)
  from anchored_log_determined [OF this v keyed_sample keyed_forged] forged_differs
  show False unfolding sample_log_sorted [OF h] by blast
qed

text \<open>
  C10. A healthy log never raises a false alarm: an anchor taken from a verified table with at least
  one digested event is reported \<^emph>\<open>validated\<close> on that table, and \<^emph>\<open>stale\<close> (still valid, refresh required,
  with the number of events since) once further events have been chained on.
\<close>

theorem anchor_of_growing_log:
  assumes "rows_inv e (xs @ ys)" and "hexdigest_ok e" and "filter hashed xs \<noteq> []"
    and "filter hashed ys \<noteq> [] \<or> ys = []"
  shows "vr_valid (verify_audit_hash_chain e (Some (audit_log_anchor e xs)) (xs @ ys))
    \<and> vr_anchor_status (verify_audit_hash_chain e (Some (audit_log_anchor e xs)) (xs @ ys))
        = (if ys = [] then ''validated'' else ''stale'')
    \<and> vr_events_since_anchor (verify_audit_hash_chain e (Some (audit_log_anchor e xs)) (xs @ ys))
        = Some (int (length ys))"
  using assms by (rule growing_log_report)

theorem anchor_of_growing_log_witness:
  "vr_anchor_status (verify_audit_hash_chain sample_env64
     (Some (audit_log_anchor sample_env64 [sample_event sample_env64 []])) (sample_log sample_env64)) = ''stale''"
  using anchor_of_growing_log [of sample_env64 "[sample_event sample_env64 []]"
      "[sample_event sample_env64 [sample_event sample_env64 []]]"]
    sample64 hexdigest_ok_sample by (simp add: sample_log_def Let_def)

text \<open>
  C8. The audit writers, with or without a required event, in a request or from the system, leave a
  verifiable table verifiable: events stay in id order and the chain has no gap and no wrong digest,
  in the committed database and in the open session, whether the writer returns, raises, commits or
  rolls back.
\<close>

theorem audit_writers_keep_chain:
  assumes "hexdigest_ok e" and "audit_env e' = audit_env e"
  shows "preserves (both (audit_inv e)) (audit_event e' t out uid md sid)
    \<and> preserves (both (audit_inv e)) (audit_event_required e' t out uid md sid)
    \<and> preserves (both (audit_inv e)) (write_system_audit_event e' t out uid md required commit)"
  using keeps_audit_inv [OF assms] by (intro conjI preserves_rules)

theorem audit_writers_keep_chain_witness:
  "audit_inv sample_env64 (committed (snd (audit_event sample_env64 ''login'' ''success'' (Some 7) [] None
     (fresh_world empty_db))))"
proof -
  have b: "both (audit_inv sample_env64) (fresh_world empty_db)"
    by (simp add: both_def fresh_world_def audit_inv_def empty_db_def chain_valid_def events_by_id_def)
  have "preserves (both (audit_inv sample_env64)) (audit_event sample_env64 ''login'' ''success'' (Some 7) [] None)"
    by (rule conjunct1 [OF audit_writers_keep_chain [OF hexdigest_ok_sample refl]])
  from preservesD [OF this b] show ?thesis by (simp only: both_def)
qed

lemma empty_values_malformed:
  assumes "vr_latest_event_id r = Some l" and "anchor_get a ''latest_event_id'' = JNull"
  shows "snd (validated_anchor_values rows r a) \<noteq> []"
proof -
  have "snd (anchor_latest_event_id r a i errs) \<noteq> []" for i errs
    using assms by (simp add: anchor_latest_event_id_def anchor_non_negative_int_def)
  moreover have "snd (anchor_latest_event_hash r a i errs) \<noteq> []" if "errs \<noteq> []" for i errs
    using that by (auto simp: anchor_latest_event_hash_def split: json.splits)
  ultimately show ?thesis
    by (simp add: validated_anchor_values_def Let_def case_prod_beta)
qed

text \<open>
  C10. An anchor of a table without a digested event cannot grow old: as soon as the first event is
  chained on, verification against it is critical (a malformed \<^verbatim>\<open>latest_event_id\<close>), although the chain
  is intact and only grew. \<^verbatim>\<open>docs/OPERATIONS.md\<close> promises a stale anchor without an alert for a valid
  chain that is ahead of its anchor.
\<close>

theorem anchor_of_empty_log_alarms:
  assumes "rows_inv e (xs @ ys)" and "filter hashed xs = []" and "filter hashed ys \<noteq> []"
  shows "vr_valid (verify_audit_hash_chain e None (xs @ ys))
    \<and> \<not> vr_valid (verify_audit_hash_chain e (Some (audit_log_anchor e xs)) (xs @ ys))
    \<and> vr_anchor_status (verify_audit_hash_chain e (Some (audit_log_anchor e xs)) (xs @ ys)) = ''critical''"
proof -
  have px: "rows_inv e xs" using assms(1) by (rule rows_inv_prefix)
  have s: "events_by_id (xs @ ys) = xs @ ys" "events_by_id xs = xs"
    using assms(1) px by (simp_all add: rows_inv_def sort_by_id)
  have id: "vr_latest_event_id (chain_report_of e (xs @ ys)) = Some (ae_id (last (filter hashed ys)))"
    using assms(2,3) by (simp add: chain_report_fields s)
  have "anchor_get (audit_log_anchor e xs) ''latest_event_id'' = JNull"
    using assms(2) by (simp add: log_anchor_simps anchor_head_fields_def chain_report_fields s opt_json_def)
  then have "snd (validated_anchor_values (xs @ ys) (chain_report_of e (xs @ ys)\<lparr>vr_anchor_status := st,
      vr_anchor_validated := va, vr_anchor_stale := ss, vr_anchor_refresh_required := rr\<rparr>) (audit_log_anchor e xs)) \<noteq> []"
    for st va ss rr
    using id by (intro empty_values_malformed) simp_all
  then show ?thesis
    using assms(1)
    by (simp add: verify_audit_hash_chain_def compare_audit_anchor_def vr_valid_iff rows_inv_def Let_def
        set_critical_anchor_errors_def case_prod_beta)
qed

theorem anchor_of_empty_log_alarms_witness:
  "vr_anchor_status (verify_audit_hash_chain sample_env64 (Some (audit_log_anchor sample_env64 []))
     (sample_log sample_env64)) = ''critical''"
  using anchor_of_empty_log_alarms [of sample_env64 "[]" "sample_log sample_env64"] sample64
  by (simp add: sample_log_def Let_def)

end
