(* ===== verification/Ledger_Integrity.thy ===== *)
theory Ledger_Integrity
  imports Audit_Log
begin

section \<open>Integrity signatures of ledger rows\<close>

text \<open>
  \<^verbatim>\<open>app/security/transaction_integrity.py\<close>: the keyed signatures over transactions and over registration
  and top-up credits, under a keyring with one active key. The locale \<open>ledger_signer\<close> states what a
  signer and its status function promise each other; it is interpreted on the three kinds of row. Its
  lemmas are the round trip (what is signed verifies, also after the active key has been rotated) and
  the evidence of tampering (two rows that verify with one digest have one signing input, or two
  inputs with one HMAC exist). The signing input determines every signed field and the kind of row.
\<close>

definition transaction_integrity_algorithm :: string where "transaction_integrity_algorithm = ''hmac-sha256''"
definition transaction_integrity_version :: int where "transaction_integrity_version = 1"

definition validated_keyring :: "config \<Rightarrow> py_error + (string \<times> string) list" where
  "validated_keyring c =
     (if cfg_ledger_keys c = [] then Inl (RuntimeError ''At least one transaction ledger HMAC key is required'')
      else if map_of (cfg_ledger_keys c) (cfg_ledger_active_key_id c) = None
        then Inl (RuntimeError ''TRANSACTION_LEDGER_HMAC_ACTIVE_KEY_ID must identify a configured key'')
      else if list_ex (\<lambda>(k, key). py_strip k = [] \<or> length key \<noteq> 32) (cfg_ledger_keys c)
        then Inl (RuntimeError ''Every transaction ledger HMAC key must have an identifier and be 32 bytes'')
      else Inr (cfg_ledger_keys c))"

definition validate_transaction_integrity_config :: "config \<Rightarrow> py_error + int" where
  "validate_transaction_integrity_config c =
     (case validated_keyring c of Inl err \<Rightarrow> Inl err | Inr ring \<Rightarrow> Inr (int (length ring)))"

text \<open>\<open>format(amount.quantize(Decimal("0.01")), "f")\<close> of an amount in cents.\<close>

definition money_str :: "cents \<Rightarrow> string" where
  "money_str c = (if c < 0 then ''-'' else []) @ int_str (\<bar>c\<bar> div 100) @ ''.'' @ pad 2 (\<bar>c\<bar> mod 100)"

definition canonical_transaction_payload ::
  "string \<Rightarrow> int \<Rightarrow> int \<Rightarrow> int option \<Rightarrow> cents \<Rightarrow> string \<Rightarrow> string \<Rightarrow> string \<Rightarrow> time \<Rightarrow> string"
where
  "canonical_transaction_payload transaction_ref sender_id recipient_id payee_id amount reference status
     transaction_type created_at = json_dumps (JObj
     [(''amount'', JStr (money_str amount)), (''created_at'', JStr (isoformat_us created_at)),
      (''payee_id'', opt_json JInt payee_id), (''recipient_id'', JInt recipient_id),
      (''reference'', JStr reference), (''sender_id'', JInt sender_id), (''status'', JStr status),
      (''transaction_ref'', JStr transaction_ref), (''transaction_type'', JStr transaction_type)])"

definition canonical_credit_payload :: "string \<Rightarrow> int \<Rightarrow> cents \<Rightarrow> string \<Rightarrow> time \<Rightarrow> string" where
  "canonical_credit_payload credit_ref user_id amount status created_at = json_dumps (JObj
     [(''amount'', JStr (money_str amount)), (''created_at'', JStr (isoformat_us created_at)),
      (''credit_ref'', JStr credit_ref), (''status'', JStr status), (''user_id'', JInt user_id)])"

definition transaction_signing_input :: "string \<Rightarrow> string" where
  "transaction_signing_input payload = ''sitbank-transaction-integrity-v'' @ int_str transaction_integrity_version @ '':'' @ payload"

definition credit_signing_input :: "string \<Rightarrow> string \<Rightarrow> string" where
  "credit_signing_input domain payload =
     ''sitbank-'' @ domain @ ''-integrity-v'' @ int_str transaction_integrity_version @ '':'' @ payload"

definition transaction_digest :: "env \<Rightarrow> string \<Rightarrow> string \<Rightarrow> string" where
  "transaction_digest e key payload = hmac_sha256 e key (transaction_signing_input payload)"

definition credit_digest :: "env \<Rightarrow> string \<Rightarrow> string \<Rightarrow> string \<Rightarrow> string" where
  "credit_digest e domain key payload = hmac_sha256 e key (credit_signing_input domain payload)"

type_synonym signature = "string \<times> string \<times> string \<times> int"

definition ring_key :: "(string \<times> string) list \<Rightarrow> string \<Rightarrow> string" where
  "ring_key ring key_id = (case map_of ring key_id of Some k \<Rightarrow> k | None \<Rightarrow> [])"

definition sign_transaction_integrity ::
  "env \<Rightarrow> string \<Rightarrow> int \<Rightarrow> int \<Rightarrow> int option \<Rightarrow> cents \<Rightarrow> string \<Rightarrow> string \<Rightarrow> string \<Rightarrow> time \<Rightarrow> py_error + signature"
where
  "sign_transaction_integrity e transaction_ref sender_id recipient_id payee_id amount reference status
     transaction_type created_at =
     (let key_id = cfg_ledger_active_key_id (cfg e) in
      case validated_keyring (cfg e) of
        Inl err \<Rightarrow> Inl err
      | Inr keyring \<Rightarrow> Inr (transaction_digest e (ring_key keyring key_id)
          (canonical_transaction_payload transaction_ref sender_id recipient_id payee_id amount reference status
             transaction_type created_at),
          key_id, transaction_integrity_algorithm, transaction_integrity_version))"

definition transaction_integrity_status :: "env \<Rightarrow> transaction \<Rightarrow> string" where
  "transaction_integrity_status e t =
     (if tx_algorithm t \<noteq> transaction_integrity_algorithm \<or> tx_version t \<noteq> transaction_integrity_version
      then ''invalid''
      else case validated_keyring (cfg e) of
        Inl _ \<Rightarrow> ''invalid''
      | Inr keyring \<Rightarrow>
          (case map_of keyring (tx_key_id t) of
             None \<Rightarrow> ''invalid''
           | Some key \<Rightarrow>
               if tx_hash t = transaction_digest e key
                    (canonical_transaction_payload (tx_ref t) (tx_sender_id t) (tx_recipient_id t) (tx_payee_id t)
                       (tx_amount t) (tx_reference t) (tx_status t) (tx_type t) (tx_created_at t))
               then ''valid'' else ''invalid''))"

definition sign_credit_integrity ::
  "env \<Rightarrow> string \<Rightarrow> string \<Rightarrow> int \<Rightarrow> cents \<Rightarrow> string \<Rightarrow> time \<Rightarrow> py_error + signature"
where
  "sign_credit_integrity e domain credit_ref user_id amount status created_at =
     (let key_id = cfg_ledger_active_key_id (cfg e) in
      case validated_keyring (cfg e) of
        Inl err \<Rightarrow> Inl err
      | Inr keyring \<Rightarrow> Inr (credit_digest e domain (ring_key keyring key_id)
          (canonical_credit_payload credit_ref user_id amount status created_at),
          key_id, transaction_integrity_algorithm, transaction_integrity_version))"

definition credit_integrity_status :: "env \<Rightarrow> string \<Rightarrow> credit \<Rightarrow> string" where
  "credit_integrity_status e domain c =
     (if cr_algorithm c \<noteq> transaction_integrity_algorithm \<or> cr_version c \<noteq> transaction_integrity_version
      then ''invalid''
      else case validated_keyring (cfg e) of
        Inl _ \<Rightarrow> ''invalid''
      | Inr keyring \<Rightarrow>
          (case map_of keyring (cr_key_id c) of
             None \<Rightarrow> ''invalid''
           | Some key \<Rightarrow>
               if cr_hash c = credit_digest e domain key
                    (canonical_credit_payload (cr_ref c) (cr_user_id c) (cr_amount c) (cr_status c) (cr_created_at c))
               then ''valid'' else ''invalid''))"

definition sign_registration_credit_integrity :: "env \<Rightarrow> string \<Rightarrow> int \<Rightarrow> cents \<Rightarrow> string \<Rightarrow> time \<Rightarrow> py_error + signature" where
  "sign_registration_credit_integrity e = sign_credit_integrity e ''registration-credit''"

definition registration_credit_integrity_status :: "env \<Rightarrow> credit \<Rightarrow> string" where
  "registration_credit_integrity_status e = credit_integrity_status e ''registration-credit''"

definition sign_topup_credit_integrity :: "env \<Rightarrow> string \<Rightarrow> int \<Rightarrow> cents \<Rightarrow> string \<Rightarrow> time \<Rightarrow> py_error + signature" where
  "sign_topup_credit_integrity e = sign_credit_integrity e ''topup-credit''"

definition topup_credit_integrity_status :: "env \<Rightarrow> credit \<Rightarrow> string" where
  "topup_credit_integrity_status e = credit_integrity_status e ''topup-credit''"

subsection \<open>The contract of a signer\<close>

locale ledger_signer =
  fixes signing_input :: "'row \<Rightarrow> string"
    and stored :: "'row \<Rightarrow> signature"
    and sign :: "env \<Rightarrow> 'row \<Rightarrow> py_error + signature"
    and status :: "env \<Rightarrow> 'row \<Rightarrow> string"
  assumes sign_eq: "sign e r = (case validated_keyring (cfg e) of Inl err \<Rightarrow> Inl err
      | Inr ring \<Rightarrow> Inr (hmac_sha256 e (ring_key ring (cfg_ledger_active_key_id (cfg e))) (signing_input r),
          cfg_ledger_active_key_id (cfg e), transaction_integrity_algorithm, transaction_integrity_version))"
    and status_iff: "stored r = (h, k, a, v) \<Longrightarrow> status e r = ''valid'' \<longleftrightarrow>
      a = transaction_integrity_algorithm \<and> v = transaction_integrity_version
      \<and> (\<exists>ring key. validated_keyring (cfg e) = Inr ring \<and> map_of ring k = Some key
            \<and> h = hmac_sha256 e key (signing_input r))"
begin

text \<open>What is signed verifies, in any later configuration that still has the signing key.\<close>

lemma signed_is_valid:
  assumes "sign e r = Inr (stored r)" and "validated_keyring (cfg e') = Inr ring'"
    and "map_of ring' (cfg_ledger_active_key_id (cfg e)) = map_of (cfg_ledger_keys (cfg e)) (cfg_ledger_active_key_id (cfg e))"
    and "hmac_sha256 e' = hmac_sha256 e"
  shows "status e' r = ''valid''"
proof -
  obtain h k a v where s: "stored r = (h, k, a, v)" by (metis prod.exhaust)
  have "validated_keyring (cfg e) = Inr (cfg_ledger_keys (cfg e))"
    and "map_of (cfg_ledger_keys (cfg e)) (cfg_ledger_active_key_id (cfg e)) \<noteq> None"
    using assms(1) by (auto simp: sign_eq validated_keyring_def split: if_splits)
  with assms s show ?thesis
    by (auto simp: status_iff [OF s] sign_eq ring_key_def split: option.splits)
qed

text \<open>
  A row that carries the digest and the key id of a valid row is valid exactly if it carries its
  algorithm and version too and its signing input has that digest under the key of the two rows.
\<close>

lemma valid_alike:
  assumes "status e r = ''valid''" and "stored r = (h, k, a, v)" and "stored r' = (h, k, a', v')"
  obtains ring key where "validated_keyring (cfg e) = Inr ring" "map_of ring k = Some key"
    "h = hmac_sha256 e key (signing_input r)"
    "status e r' = ''valid'' \<longleftrightarrow> a' = a \<and> v' = v \<and> (signing_input r' = signing_input r
       \<or> hmac_clash e key (signing_input r) (signing_input r'))"
  using assms(1) unfolding status_iff [OF assms(2)] status_iff [OF assms(3)] hmac_clash_def by fastforce

end

definition tx_signature :: "transaction \<Rightarrow> signature" where
  "tx_signature t = (tx_hash t, tx_key_id t, tx_algorithm t, tx_version t)"

definition tx_input :: "transaction \<Rightarrow> string" where
  "tx_input t = transaction_signing_input (canonical_transaction_payload (tx_ref t) (tx_sender_id t)
     (tx_recipient_id t) (tx_payee_id t) (tx_amount t) (tx_reference t) (tx_status t) (tx_type t) (tx_created_at t))"

definition cr_signature :: "credit \<Rightarrow> signature" where
  "cr_signature c = (cr_hash c, cr_key_id c, cr_algorithm c, cr_version c)"

definition cr_input :: "string \<Rightarrow> credit \<Rightarrow> string" where
  "cr_input domain c = credit_signing_input domain
     (canonical_credit_payload (cr_ref c) (cr_user_id c) (cr_amount c) (cr_status c) (cr_created_at c))"

interpretation tx_signer: ledger_signer tx_input tx_signature
  "\<lambda>e t. sign_transaction_integrity e (tx_ref t) (tx_sender_id t) (tx_recipient_id t) (tx_payee_id t)
     (tx_amount t) (tx_reference t) (tx_status t) (tx_type t) (tx_created_at t)"
  transaction_integrity_status
proof
  fix e :: env and r :: transaction and h k a v
  assume "tx_signature r = (h, k, a, v)"
  then show "transaction_integrity_status e r = ''valid'' \<longleftrightarrow>
      a = transaction_integrity_algorithm \<and> v = transaction_integrity_version
      \<and> (\<exists>ring key. validated_keyring (cfg e) = Inr ring \<and> map_of ring k = Some key
            \<and> h = hmac_sha256 e key (tx_input r))"
    by (auto simp: transaction_integrity_status_def tx_signature_def tx_input_def transaction_digest_def
        split: sum.splits option.splits)
qed (simp add: sign_transaction_integrity_def Let_def transaction_digest_def tx_input_def split: sum.split)

lemma credit_status_iff:
  assumes "cr_signature r = (h, k, a, v)"
  shows "credit_integrity_status e d r = ''valid'' \<longleftrightarrow>
      a = transaction_integrity_algorithm \<and> v = transaction_integrity_version
      \<and> (\<exists>ring key. validated_keyring (cfg e) = Inr ring \<and> map_of ring k = Some key
            \<and> h = hmac_sha256 e key (cr_input d r))"
  using assms
  by (auto simp: credit_integrity_status_def cr_signature_def cr_input_def credit_digest_def
      split: sum.splits option.splits)

interpretation registration_signer: ledger_signer "cr_input ''registration-credit''" cr_signature
  "\<lambda>e c. sign_registration_credit_integrity e (cr_ref c) (cr_user_id c) (cr_amount c) (cr_status c) (cr_created_at c)"
  registration_credit_integrity_status
  by unfold_locales
     (simp_all add: registration_credit_integrity_status_def credit_status_iff sign_registration_credit_integrity_def
        sign_credit_integrity_def Let_def credit_digest_def cr_input_def split: sum.split)

interpretation topup_signer: ledger_signer "cr_input ''topup-credit''" cr_signature
  "\<lambda>e c. sign_topup_credit_integrity e (cr_ref c) (cr_user_id c) (cr_amount c) (cr_status c) (cr_created_at c)"
  topup_credit_integrity_status
  by unfold_locales
     (simp_all add: topup_credit_integrity_status_def credit_status_iff sign_topup_credit_integrity_def
        sign_credit_integrity_def Let_def credit_digest_def cr_input_def split: sum.split)

subsection \<open>The signing input determines the row\<close>

lemma money_str_sign: "hd (money_str c) = CHR ''-'' \<longleftrightarrow> c < 0"
proof -
  obtain m where m: "\<bar>c\<bar> div 100 = m" "0 \<le> m" by (simp add: pos_imp_zdiv_nonneg_iff)
  then have "hd (int_str m @ r) \<noteq> CHR ''-''" for r
    using hd_nat_str_digit [of "nat m"] by (auto simp: int_str_def hd_append)
  then show ?thesis unfolding money_str_def m(1) by simp
qed

lemma cents_split: "(a::int) div 100 = b div 100 \<Longrightarrow> a mod 100 = b mod 100 \<Longrightarrow> a = b"
  by (metis div_mult_mod_eq)

lemma money_parts:
  assumes "int_str m @ ''.'' @ pad 2 p = int_str n @ ''.'' @ pad 2 q" "0 \<le> p" "0 \<le> q"
  shows "m = n \<and> p = q"
proof -
  have "no_digit_next (''.'' @ r)" for r by (simp add: no_digit_next_def py_isdigit_def)
  from int_str_append_inject [OF assms(1) this this] have "m = n" "pad 2 p = pad 2 q" by simp_all
  with assms(2,3) show ?thesis by (simp add: pad_inject)
qed

lemma money_str_inject [simp]: "money_str a = money_str b \<longleftrightarrow> a = b"
proof
  assume eq: "money_str a = money_str b"
  then have sign: "a < 0 \<longleftrightarrow> b < 0" by (metis money_str_sign)
  have "int_str (\<bar>a\<bar> div 100) @ ''.'' @ pad 2 (\<bar>a\<bar> mod 100) = int_str (\<bar>b\<bar> div 100) @ ''.'' @ pad 2 (\<bar>b\<bar> mod 100)"
    using eq unfolding money_str_def sign by (simp only: same_append_eq)
  from money_parts [OF this] have "\<bar>a\<bar> div 100 = \<bar>b\<bar> div 100 \<and> \<bar>a\<bar> mod 100 = \<bar>b\<bar> mod 100"
    by simp
  then have "\<bar>a\<bar> = \<bar>b\<bar>" using cents_split by blast
  with sign show "a = b" by auto
qed simp

definition tx_content :: "transaction \<Rightarrow> string \<times> int \<times> int \<times> int option \<times> cents \<times> string \<times> string \<times> string \<times> time" where
  "tx_content t = (tx_ref t, tx_sender_id t, tx_recipient_id t, tx_payee_id t, tx_amount t, tx_reference t,
     tx_status t, tx_type t, tx_created_at t)"

definition cr_content :: "credit \<Rightarrow> string \<times> int \<times> cents \<times> string \<times> time" where
  "cr_content c = (cr_ref c, cr_user_id c, cr_amount c, cr_status c, cr_created_at c)"

lemma tx_input_inject:
  assumes "tx_input t = tx_input u" and "time_ok (tx_created_at t)" "time_ok (tx_created_at u)"
  shows "tx_content t = tx_content u"
proof -
  let ?f = "\<lambda>t. [(''amount'', JStr (money_str (tx_amount t))), (''created_at'', JStr (isoformat_us (tx_created_at t))),
      (''payee_id'', opt_json JInt (tx_payee_id t)), (''recipient_id'', JInt (tx_recipient_id t)),
      (''reference'', JStr (tx_reference t)), (''sender_id'', JInt (tx_sender_id t)), (''status'', JStr (tx_status t)),
      (''transaction_ref'', JStr (tx_ref t)), (''transaction_type'', JStr (tx_type t))]"
  have "json_dumps (JObj (?f t)) = json_dumps (JObj (?f u))"
    using assms(1) by (simp add: tx_input_def transaction_signing_input_def canonical_transaction_payload_def)
  then have "map (sort_keys \<circ> snd) (?f t) = map (sort_keys \<circ> snd) (?f u)"
    by (rule json_dumps_obj_inject) simp_all
  then show ?thesis using assms(2,3) isoformat_us_inject by (simp add: tx_content_def)
qed

lemma cr_input_inject:
  assumes "cr_input d c = cr_input d c'" and "time_ok (cr_created_at c)" "time_ok (cr_created_at c')"
  shows "cr_content c = cr_content c'"
proof -
  let ?f = "\<lambda>c. [(''amount'', JStr (money_str (cr_amount c))), (''created_at'', JStr (isoformat_us (cr_created_at c))),
      (''credit_ref'', JStr (cr_ref c)), (''status'', JStr (cr_status c)), (''user_id'', JInt (cr_user_id c))]"
  have "json_dumps (JObj (?f c)) = json_dumps (JObj (?f c'))"
    using assms(1) by (simp add: cr_input_def credit_signing_input_def canonical_credit_payload_def)
  then have "map (sort_keys \<circ> snd) (?f c) = map (sort_keys \<circ> snd) (?f c')"
    by (rule json_dumps_obj_inject) simp_all
  then show ?thesis using assms(2,3) isoformat_us_inject by (simp add: cr_content_def)
qed

lemma input_domains:
  "tx_input t \<noteq> cr_input ''registration-credit'' c" "tx_input t \<noteq> cr_input ''topup-credit'' c"
  "cr_input ''registration-credit'' c \<noteq> cr_input ''topup-credit'' c'"
  by (simp_all add: tx_input_def cr_input_def transaction_signing_input_def credit_signing_input_def)

subsection \<open>Properties\<close>

text \<open>
  C9. A signed ledger transaction cannot be altered unnoticed. Take a transaction row reported valid and
  any other row that stores the same digest and key id. The other row is reported valid exactly if it
  stores the same algorithm and version and either reference, sender, recipient, payee, amount, text,
  status, type and timestamp all agree, or the signing inputs of these two rows are different texts
  with one HMAC under the key these rows name. Timestamps are those a \<^verbatim>\<open>datetime\<close> can hold.
\<close>

theorem transaction_tamper_evident:
  assumes "transaction_integrity_status e t = ''valid''"
    and "tx_hash u = tx_hash t" and "tx_key_id u = tx_key_id t"
    and "time_ok (tx_created_at t)" and "time_ok (tx_created_at u)"
  shows "\<exists>ring key. validated_keyring (cfg e) = Inr ring \<and> map_of ring (tx_key_id t) = Some key
    \<and> (transaction_integrity_status e u = ''valid'' \<longleftrightarrow>
         tx_algorithm u = tx_algorithm t \<and> tx_version u = tx_version t
         \<and> (tx_content u = tx_content t \<or> hmac_clash e key (tx_input t) (tx_input u)))"
proof -
  have s: "tx_signature t = (tx_hash t, tx_key_id t, tx_algorithm t, tx_version t)"
    "tx_signature u = (tx_hash t, tx_key_id t, tx_algorithm u, tx_version u)"
    using assms(2,3) by (simp_all add: tx_signature_def)
  have "tx_input u = tx_input t \<longleftrightarrow> tx_content u = tx_content t"
    using tx_input_inject [of u t] assms(4,5) by (auto simp: tx_content_def tx_input_def)
  then show ?thesis using tx_signer.valid_alike [OF assms(1) s] by metis
qed

definition sample_tx :: transaction where
  "sample_tx = \<lparr>tx_id = 1, tx_ref = ''TXN1'',
     tx_hash = hmac_sha256 sample_env (replicate 32 (CHR ''L'')) (transaction_signing_input
       (canonical_transaction_payload ''TXN1'' 1 2 (Some 5) 2500 ''rent'' ''completed'' ''local_transfer'' (now sample_env))),
     tx_key_id = ''k1'', tx_algorithm = ''hmac-sha256'', tx_version = 1, tx_sender_id = 1, tx_recipient_id = 2,
     tx_payee_id = Some 5, tx_amount = 2500, tx_reference = ''rent'', tx_status = ''completed'',
     tx_type = ''local_transfer'', tx_created_at = now sample_env\<rparr>"

lemma sample_ring: "validated_keyring (cfg sample_env) = Inr [(''k1'', replicate 32 (CHR ''L''))]"
  by (simp add: validated_keyring_def sample_env_def sample_cfg_def py_strip_def py_isspace_def)

lemma sample_tx_valid: "transaction_integrity_status sample_env sample_tx = ''valid''"
  by (simp add: transaction_integrity_status_def sample_ring sample_tx_def transaction_digest_def
      transaction_integrity_algorithm_def transaction_integrity_version_def)

lemma sample_now_ok: "time_ok (now sample_env)"
  by code_simp

lemma sample_hmac_no_clash: "\<not> hmac_clash sample_env key p q"
  by (simp add: hmac_clash_def sample_env_def)

theorem transaction_tamper_evident_witness:
  "transaction_integrity_status sample_env (sample_tx\<lparr>tx_id := 9\<rparr>) = ''valid''
   \<and> transaction_integrity_status sample_env (sample_tx\<lparr>tx_amount := 999900\<rparr>) \<noteq> ''valid''"
proof -
  note * = transaction_tamper_evident [OF sample_tx_valid, of "sample_tx\<lparr>tx_id := 9\<rparr>"]
    transaction_tamper_evident [OF sample_tx_valid, of "sample_tx\<lparr>tx_amount := 999900\<rparr>"]
  show ?thesis
    using * sample_now_ok sample_hmac_no_clash by (auto simp: tx_content_def sample_tx_def)
qed

text \<open>
  Signing and verifying round-trip across key rotation: a transaction that stores the signature
  computed for its own fields is reported valid by every later configuration whose keyring passes
  validation and still maps the signing key id to the same key, whichever key is active then.
\<close>

theorem signed_transaction_survives_rotation:
  assumes "sign_transaction_integrity e (tx_ref t) (tx_sender_id t) (tx_recipient_id t) (tx_payee_id t)
      (tx_amount t) (tx_reference t) (tx_status t) (tx_type t) (tx_created_at t)
      = Inr (tx_hash t, tx_key_id t, tx_algorithm t, tx_version t)"
    and "validated_keyring (cfg e') = Inr ring"
    and "map_of ring (tx_key_id t) = map_of (cfg_ledger_keys (cfg e)) (tx_key_id t)"
    and "hmac_sha256 e' = hmac_sha256 e"
  shows "transaction_integrity_status e' t = ''valid''"
proof -
  have "tx_key_id t = cfg_ledger_active_key_id (cfg e)"
    using assms(1) by (auto simp: sign_transaction_integrity_def Let_def split: sum.splits)
  with assms show ?thesis by (intro tx_signer.signed_is_valid [of e t e' ring]) (simp_all add: tx_signature_def)
qed

definition rotated_cfg :: config where
  "rotated_cfg = sample_cfg\<lparr>cfg_ledger_active_key_id := ''k2'',
     cfg_ledger_keys := [(''k2'', replicate 32 (CHR ''M'')), (''k1'', replicate 32 (CHR ''L''))]\<rparr>"

theorem signed_transaction_survives_rotation_witness:
  "transaction_integrity_status (sample_env\<lparr>cfg := rotated_cfg\<rparr>) sample_tx = ''valid''"
proof (rule signed_transaction_survives_rotation [where e = sample_env])
  show "validated_keyring (cfg (sample_env\<lparr>cfg := rotated_cfg\<rparr>)) = Inr (cfg_ledger_keys rotated_cfg)"
    by (simp add: rotated_cfg_def validated_keyring_def py_strip_def py_isspace_def)
  show "map_of (cfg_ledger_keys rotated_cfg) (tx_key_id sample_tx) = map_of (cfg_ledger_keys (cfg sample_env)) (tx_key_id sample_tx)"
    by (simp add: rotated_cfg_def sample_tx_def sample_env_def sample_cfg_def)
  have "cfg_ledger_active_key_id (cfg sample_env) = ''k1''" by (simp add: sample_env_def sample_cfg_def)
  then show "sign_transaction_integrity sample_env (tx_ref sample_tx) (tx_sender_id sample_tx) (tx_recipient_id sample_tx)
      (tx_payee_id sample_tx) (tx_amount sample_tx) (tx_reference sample_tx) (tx_status sample_tx) (tx_type sample_tx)
      (tx_created_at sample_tx) = Inr (tx_hash sample_tx, tx_key_id sample_tx, tx_algorithm sample_tx, tx_version sample_tx)"
    by (simp add: sign_transaction_integrity_def sample_ring sample_tx_def transaction_digest_def ring_key_def Let_def
        transaction_integrity_algorithm_def transaction_integrity_version_def)
qed simp

text \<open>
  The two kinds of credit row: the domain their signing input opens with and the function that verifies
  them.
\<close>

definition credit_kinds :: "(string \<times> (env \<Rightarrow> credit \<Rightarrow> string)) list" where
  "credit_kinds = [(''registration-credit'', registration_credit_integrity_status),
     (''topup-credit'', topup_credit_integrity_status)]"

lemma credit_kinds_status:
  "(d, status) \<in> set credit_kinds \<Longrightarrow> status = (\<lambda>e. credit_integrity_status e d)
     \<and> (d = ''registration-credit'' \<or> d = ''topup-credit'')"
  by (auto simp: credit_kinds_def registration_credit_integrity_status_def topup_credit_integrity_status_def)

text \<open>Rows of different tables: whatever verifies under a digest was signed over an input with that digest.\<close>

lemma credit_alike:
  assumes "credit_integrity_status e d c = ''valid''"
    and "cr_hash c' = cr_hash c" and "cr_key_id c' = cr_key_id c"
    and "tx_hash t = cr_hash c" and "tx_key_id t = cr_key_id c"
  obtains ring key where "validated_keyring (cfg e) = Inr ring" "map_of ring (cr_key_id c) = Some key"
    "credit_integrity_status e d' c' = ''valid'' \<longleftrightarrow> cr_algorithm c' = cr_algorithm c \<and> cr_version c' = cr_version c
       \<and> (cr_input d' c' = cr_input d c \<or> hmac_clash e key (cr_input d c) (cr_input d' c'))"
    "transaction_integrity_status e t = ''valid'' \<longleftrightarrow> tx_algorithm t = cr_algorithm c \<and> tx_version t = cr_version c
       \<and> (tx_input t = cr_input d c \<or> hmac_clash e key (cr_input d c) (tx_input t))"
proof -
  have s: "cr_signature c = (cr_hash c, cr_key_id c, cr_algorithm c, cr_version c)"
    "cr_signature c' = (cr_hash c, cr_key_id c, cr_algorithm c', cr_version c')"
    "tx_signature t = (cr_hash c, cr_key_id c, tx_algorithm t, tx_version t)"
    using assms(2-) by (simp_all add: cr_signature_def tx_signature_def)
  show thesis
    using that assms(1) unfolding credit_status_iff [OF s(1)] credit_status_iff [OF s(2)] tx_signer.status_iff [OF s(3)]
      hmac_clash_def by fastforce
qed

text \<open>
  C10. Credits are tamper evident and cannot be exchanged for each other. Take a registration or top-up
  credit that verifies as its kind, and a credit row and a transaction row that store its digest and key
  id. The credit row verifies as a kind exactly if it stores the same algorithm and version and either
  it is verified as the same kind and reference, user, amount, status and timestamp agree, or the
  signing inputs of these two rows are different texts with one HMAC under the key they name; the
  transaction verifies only in the second way. Timestamps are those a \<^verbatim>\<open>datetime\<close> can hold.
\<close>

theorem credit_tamper_evident:
  assumes "(d, status) \<in> set credit_kinds" and "(d', status') \<in> set credit_kinds"
    and "status e c = ''valid''"
    and "cr_hash c' = cr_hash c" and "cr_key_id c' = cr_key_id c"
    and "tx_hash t = cr_hash c" and "tx_key_id t = cr_key_id c"
    and "time_ok (cr_created_at c)" and "time_ok (cr_created_at c')"
  shows "\<exists>ring key. validated_keyring (cfg e) = Inr ring \<and> map_of ring (cr_key_id c) = Some key
    \<and> (status' e c' = ''valid'' \<longleftrightarrow> cr_algorithm c' = cr_algorithm c \<and> cr_version c' = cr_version c
         \<and> (d' = d \<and> cr_content c' = cr_content c \<or> hmac_clash e key (cr_input d c) (cr_input d' c')))
    \<and> (transaction_integrity_status e t = ''valid'' \<longleftrightarrow>
         tx_algorithm t = cr_algorithm c \<and> tx_version t = cr_version c \<and> hmac_clash e key (cr_input d c) (tx_input t))"
proof -
  have k: "status = (\<lambda>e. credit_integrity_status e d)" "status' = (\<lambda>e. credit_integrity_status e d')"
    and d: "d = ''registration-credit'' \<or> d = ''topup-credit''" "d' = ''registration-credit'' \<or> d' = ''topup-credit''"
    using credit_kinds_status assms(1,2) by blast+
  have 1: "cr_input d' c' = cr_input d c \<longleftrightarrow> d' = d \<and> cr_content c' = cr_content c"
    using cr_input_inject [of d c' c] input_domains(3) [of c c'] input_domains(3) [of c' c] assms(8,9) d
    by (auto simp: cr_content_def cr_input_def)
  have 2: "tx_input t \<noteq> cr_input d c" using d input_domains(1,2) by auto
  show ?thesis
    by (rule credit_alike [OF assms(3) [unfolded k] assms(4-7), of d']) (use 1 2 in \<open>unfold k, blast\<close>)
qed

definition sample_credit :: credit where
  "sample_credit = \<lparr>cr_id = 1, cr_ref = ''TUP1'',
     cr_hash = hmac_sha256 sample_env (replicate 32 (CHR ''L'')) (credit_signing_input ''topup-credit''
       (canonical_credit_payload ''TUP1'' 1 2500 ''completed'' (now sample_env))),
     cr_key_id = ''k1'', cr_algorithm = ''hmac-sha256'', cr_version = 1, cr_user_id = 1, cr_amount = 2500,
     cr_status = ''completed'', cr_created_at = now sample_env\<rparr>"

lemma sample_credit_valid: "topup_credit_integrity_status sample_env sample_credit = ''valid''"
  by (simp add: topup_credit_integrity_status_def credit_integrity_status_def sample_ring sample_credit_def
      credit_digest_def transaction_integrity_algorithm_def transaction_integrity_version_def)

theorem credit_tamper_evident_witness:
  "topup_credit_integrity_status sample_env (sample_credit\<lparr>cr_id := 9\<rparr>) = ''valid''
   \<and> topup_credit_integrity_status sample_env (sample_credit\<lparr>cr_amount := 999900\<rparr>) \<noteq> ''valid''
   \<and> registration_credit_integrity_status sample_env sample_credit \<noteq> ''valid''
   \<and> transaction_integrity_status sample_env
        (sample_tx\<lparr>tx_hash := cr_hash sample_credit, tx_key_id := cr_key_id sample_credit\<rparr>) \<noteq> ''valid''"
proof -
  let ?t = "sample_tx\<lparr>tx_hash := cr_hash sample_credit, tx_key_id := cr_key_id sample_credit\<rparr>"
  have kinds: "(''topup-credit'', topup_credit_integrity_status) \<in> set credit_kinds"
    "(''registration-credit'', registration_credit_integrity_status) \<in> set credit_kinds"
    by (simp_all add: credit_kinds_def)
  note * = credit_tamper_evident [OF kinds(1) _ sample_credit_valid, of _ _ _ ?t]
  show ?thesis
    using * [OF kinds(1), of "sample_credit\<lparr>cr_id := 9\<rparr>"] * [OF kinds(1), of "sample_credit\<lparr>cr_amount := 999900\<rparr>"]
      * [OF kinds(2), of sample_credit] sample_now_ok sample_hmac_no_clash
    by (auto simp: cr_content_def sample_credit_def sample_tx_def)
qed

end
