(* ===== verification/Banking.thy ===== *)
theory Banking
  imports Ledger_Integrity
begin

section \<open>Shared steps of the banking services\<close>

text \<open>
  The helpers of \<^verbatim>\<open>app/banking/services.py\<close> that its money-moving operations share: the audit of a banking
  action (which commits the session when the event is a durable one), the frozen-account guard, the
  best-effort customer notifications, the row lock on both accounts and the sums of the daily limits.
  Mail bodies are not modelled; a message is its address and subject. The lemmas say what each step may
  do to the ledger: none of them touches accounts or transactions, in either copy of the database.
\<close>

definition amount_audit_band :: "int \<Rightarrow> int \<Rightarrow> string" where
  "amount_audit_band unit amount =
     (if \<bar>amount\<bar> < 100 * unit then ''under_100''
      else if \<bar>amount\<bar> < 1000 * unit then ''100_to_999''
      else if \<bar>amount\<bar> < 10000 * unit then ''1000_to_9999''
      else ''10000_or_more'')"

text \<open>Units per dollar of a money column (cents) and of a pending amount.\<close>

definition cents_unit :: int where "cents_unit = 100"
definition pending_unit :: int where "pending_unit = 100000"

definition requires_durable_audit :: "string \<Rightarrow> string \<Rightarrow> bool" where
  "requires_durable_audit action outcome \<longleftrightarrow>
     py_casefold (py_strip action) \<in> {''outbound_transfer'', ''scheduled_transfer_execution'', ''transaction_authorization''}
     \<and> py_casefold (py_strip outcome) \<in> {''success'', ''approved'', ''completed'', ''executed''}"

definition audit_ref_field :: "env \<Rightarrow> string \<Rightarrow> string \<Rightarrow> string option \<Rightarrow> (string \<times> json) list \<Rightarrow> (string \<times> json) list" where
  "audit_ref_field e field namespace value md = (case value of None \<Rightarrow> md
     | Some v \<Rightarrow> dict_set field (opt_json JStr (audit_reference e namespace v 32)) md)"

definition audit_banking_action ::
  "env \<Rightarrow> string \<Rightarrow> string \<Rightarrow> int option \<Rightarrow> (string \<times> json) list \<Rightarrow> string option \<Rightarrow> string option \<Rightarrow>
   string option \<Rightarrow> bool \<Rightarrow> unit request"
where
  "audit_banking_action e action outcome user metadata transaction_reference payee_account idempotency_key required =
     (let md = dict_of ((''action'', JStr action) # metadata);
          md = audit_ref_field e ''transaction_ref'' ''transaction_reference'' transaction_reference md;
          md = audit_ref_field e ''payee_account_ref'' ''payee_account'' payee_account md;
          md = audit_ref_field e ''idempotency_key_ref'' ''idempotency_key'' idempotency_key md;
          durable = (required \<or> requires_durable_audit action outcome)
      in bindA
           (if durable then audit_event_required e (''banking_'' @ action) outcome user md None
            else audit_event e (''banking_'' @ action) outcome user md None)
           (\<lambda>_. condA durable commitA))"

definition audit_outbound_transfer ::
  "env \<Rightarrow> user \<Rightarrow> string \<Rightarrow> (string \<times> json) list \<Rightarrow> string option \<Rightarrow> string option \<Rightarrow> unit request"
where
  "audit_outbound_transfer e user outcome metadata transaction_reference payee_account =
     audit_banking_action e ''outbound_transfer'' outcome (Some (u_id user)) metadata transaction_reference
       payee_account None False"

definition ensure_account_not_frozen :: "user \<Rightarrow> string \<Rightarrow> unit request" where
  "ensure_account_not_frozen user action =
     (if u_is_frozen user \<or> u_security_locked_at user \<noteq> None
      then raise (FrozenAccountError (''Account is frozen; '' @ action @ '' is blocked'') 403) else ret ())"

definition has_enrolled_mfa_method :: "user \<Rightarrow> bool" where
  "has_enrolled_mfa_method user = u_mfa_enabled user"

definition or_default :: "string option \<Rightarrow> string \<Rightarrow> string" where
  "or_default x d = (case x of None \<Rightarrow> d | Some s \<Rightarrow> if s = [] then d else s)"

definition ensure_banking_action_allowed :: "env \<Rightarrow> user \<Rightarrow> string \<Rightarrow> string \<Rightarrow> unit request" where
  "ensure_banking_action_allowed e user action label =
     try_catch (ensure_account_not_frozen user label)
       (\<lambda>err. bindA (audit_banking_action e action ''blocked'' (Some (u_id user))
            [(''reason'', JStr (or_default (u_security_lock_reason user) ''account_frozen''))] None None None False)
          (\<lambda>_. raise err))"

definition ensure_outbound_transfer_allowed :: "env \<Rightarrow> user \<Rightarrow> unit request" where
  "ensure_outbound_transfer_allowed e user =
     ensure_banking_action_allowed e user ''outbound_transfer'' ''outbound transfers''"

definition ensure_scheduled_transfer_execution_allowed :: "env \<Rightarrow> user \<Rightarrow> unit request" where
  "ensure_scheduled_transfer_execution_allowed e user =
     ensure_banking_action_allowed e user ''scheduled_transfer_execution'' ''scheduled transfer execution''"

definition ensure_sensitive_profile_change_allowed :: "env \<Rightarrow> user \<Rightarrow> unit request" where
  "ensure_sensitive_profile_change_allowed e user =
     ensure_banking_action_allowed e user ''sensitive_profile_change'' ''sensitive profile changes''"

subsection \<open>Notifications\<close>

definition send_security_email :: "env \<Rightarrow> string \<Rightarrow> string \<Rightarrow> unit request" where
  "send_security_email e to_address subject =
     (if email_ok e then modifyA (\<lambda>s. s\<lparr>outbox := outbox s @ [\<lparr>em_to = to_address, em_subject = subject\<rparr>]\<rparr>)
      else raise (RuntimeError ''Email delivery failed''))"

definition send_banking_email :: "env \<Rightarrow> user \<Rightarrow> string \<Rightarrow> string \<Rightarrow> (string \<times> json) list \<Rightarrow> unit request" where
  "send_banking_email e user subject event_type metadata =
     bindA (try_catch (bindA (send_security_email e (u_email user) subject) (\<lambda>_. ret True)) (\<lambda>_. ret False))
       (\<lambda>sent.
         if sent then audit_event e event_type ''queued'' (Some (u_id user)) metadata None
         else audit_event e event_type ''failure'' (Some (u_id user))
           (dict_of ((''reason'', JStr ''email_delivery_failed'') # metadata)) None)"

definition py_title :: "string \<Rightarrow> string" where
  "py_title w = (case w of [] \<Rightarrow> [] | c # cs \<Rightarrow> py_upper_char c # py_casefold cs)"

definition send_transfer_notification :: "env \<Rightarrow> user \<Rightarrow> string \<Rightarrow> string \<Rightarrow> string \<Rightarrow> unit request" where
  "send_transfer_notification e user direction outcome channel =
     (let d = py_casefold (py_strip direction); out = py_casefold (py_strip outcome) in
      if d \<notin> {''withdrawal'', ''deposit''} then raise (ValueError ''Unsupported transfer notification direction'')
      else if out \<notin> {''success'', ''failure''} then raise (ValueError ''Unsupported transfer notification outcome'')
      else if \<not> u_transfer_email_enabled user then ret ()
      else send_banking_email e user
        (''SITBank '' @ py_title d @ '' '' @ (if out = ''success'' then ''successful'' else ''unsuccessful''))
        ''banking_transfer_notification''
        [(''direction'', JStr d), (''outcome'', JStr out), (''channel'', JStr channel)])"

text \<open>The warning at 80 percent: the comparisons of the two ratios, multiplied out.\<close>

definition maybe_send_daily_limit_warning :: "env \<Rightarrow> user \<Rightarrow> string \<Rightarrow> cents \<Rightarrow> cents \<Rightarrow> cents \<Rightarrow> unit request" where
  "maybe_send_daily_limit_warning e user channel used_before amount daily_limit =
     (if daily_limit \<le> 0 then ret ()
      else if 80 * daily_limit \<le> 100 * used_before \<or> 100 * (used_before + amount) < 80 * daily_limit then ret ()
      else send_banking_email e user (''SITBank '' @ channel @ '' daily limit 80% alert'')
        ''banking_daily_limit_notification''
        [(''channel'', JStr channel), (''threshold'', JStr ''80_percent'')])"

definition safe_send_notification :: "unit request \<Rightarrow> unit request" where
  "safe_send_notification m = try_catch m (\<lambda>_. ret ())"

subsection \<open>Accounts\<close>

definition user_by_id :: "database \<Rightarrow> int \<Rightarrow> user option" where
  "user_by_id db i = find (\<lambda>u. u_id u = i) (users db)"

definition lock_transfer_participants :: "int \<Rightarrow> int \<Rightarrow> (user \<times> user) request" where
  "lock_transfer_participants sender_id recipient_id =
     bindA (queryA (\<lambda>db. (user_by_id db sender_id, user_by_id db recipient_id)))
       (\<lambda>(s, r). case (s, r) of (Some u, Some v) \<Rightarrow> ret (u, v) | _ \<Rightarrow> raise KeyError)"

definition add_balance :: "int \<Rightarrow> cents \<Rightarrow> database \<Rightarrow> database" where
  "add_balance i amount db =
     db\<lparr>users := upd_where (\<lambda>u. u_id u = i) (\<lambda>u. u\<lparr>u_balance := u_balance u + amount\<rparr>) (users db)\<rparr>"

definition add_transaction ::
  "string \<Rightarrow> signature \<Rightarrow> int \<Rightarrow> int \<Rightarrow> int option \<Rightarrow> cents \<Rightarrow> string \<Rightarrow> string \<Rightarrow> time \<Rightarrow> database \<Rightarrow> database"
where
  "add_transaction ref sig sender_id recipient_id payee_id amount reference ttype created_at db =
     (case sig of (h, k, a, v) \<Rightarrow>
       db\<lparr>transactions := transactions db @ [\<lparr>tx_id = next_id (map tx_id (transactions db)), tx_ref = ref, tx_hash = h,
          tx_key_id = k, tx_algorithm = a, tx_version = v, tx_sender_id = sender_id, tx_recipient_id = recipient_id,
          tx_payee_id = payee_id, tx_amount = amount, tx_reference = reference, tx_status = ''completed'',
          tx_type = ttype, tx_created_at = created_at\<rparr>]\<rparr>)"

text \<open>The amount a user has sent since midnight Singapore time, for one type of transfer.\<close>

definition used_today :: "string \<Rightarrow> env \<Rightarrow> int \<Rightarrow> database \<Rightarrow> cents" where
  "used_today ttype e uid db =
     sum_list (map tx_amount (filter (\<lambda>t. tx_sender_id t = uid \<and> tx_type t = ttype \<and> tx_status t = ''completed''
       \<and> sgt_day_start_utc (now e) \<le> tx_created_at t) (transactions db)))"

definition local_transfer_amount_used_today :: "env \<Rightarrow> int \<Rightarrow> database \<Rightarrow> cents" where
  "local_transfer_amount_used_today = used_today ''local_transfer''"

definition payup_amount_used_today :: "env \<Rightarrow> int \<Rightarrow> database \<Rightarrow> cents" where
  "payup_amount_used_today = used_today ''payup''"

subsection \<open>Housekeeping keeps every invariant\<close>

text \<open>
  Audits, guards and notifications: they preserve, in the committed database and in the session,
  every invariant that survives the insertion of an audit event.
\<close>

lemma preserves_audit_banking_action [preserves_rules]:
  "keeps_audit e P \<Longrightarrow> preserves (both P) (audit_banking_action e a out u md tr pa ik req)"
  unfolding audit_banking_action_def Let_def by (intro preserves_rules)

lemma preserves_audit_outbound_transfer [preserves_rules]:
  "keeps_audit e P \<Longrightarrow> preserves (both P) (audit_outbound_transfer e u out md tr pa)"
  unfolding audit_outbound_transfer_def by (intro preserves_rules)

lemma preserves_ensure_account_not_frozen [preserves_rules]: "preserves I (ensure_account_not_frozen u a)"
  unfolding ensure_account_not_frozen_def by (intro preserves_rules)

lemma preserves_ensure_banking_action_allowed [preserves_rules]:
  "keeps_audit e P \<Longrightarrow> preserves (both P) (ensure_banking_action_allowed e u a l)"
  unfolding ensure_banking_action_allowed_def by (intro preserves_rules)

lemma preserves_ensure_outbound_transfer_allowed [preserves_rules]:
  "keeps_audit e P \<Longrightarrow> preserves (both P) (ensure_outbound_transfer_allowed e u)"
  unfolding ensure_outbound_transfer_allowed_def by (intro preserves_rules)

lemma preserves_send_security_email [preserves_rules]: "preserves (both P) (send_security_email e to subj)"
  unfolding send_security_email_def
  by (intro preserves_rules preserves_modifyA) (simp add: both_def)

lemma preserves_send_banking_email [preserves_rules]:
  "keeps_audit e P \<Longrightarrow> preserves (both P) (send_banking_email e u subj t md)"
  unfolding send_banking_email_def by (intro preserves_rules)

lemma preserves_send_transfer_notification [preserves_rules]:
  "keeps_audit e P \<Longrightarrow> preserves (both P) (send_transfer_notification e u d out ch)"
  unfolding send_transfer_notification_def Let_def by (intro preserves_rules)

lemma preserves_maybe_send_daily_limit_warning [preserves_rules]:
  "keeps_audit e P \<Longrightarrow> preserves (both P) (maybe_send_daily_limit_warning e u ch used amt lim)"
  unfolding maybe_send_daily_limit_warning_def by (intro preserves_rules)

lemma preserves_safe_send_notification [preserves_rules]:
  "preserves I m \<Longrightarrow> preserves I (safe_send_notification m)"
  unfolding safe_send_notification_def by (intro preserves_rules)

lemma preserves_lock_transfer_participants [preserves_rules]:
  "preserves (both P) (lock_transfer_participants a b)"
  unfolding lock_transfer_participants_def
  by (intro preserves_rules) (auto split: prod.split option.split intro: preserves_rules)

subsection \<open>Outcomes of a durable audit\<close>

text \<open>
  The audit of a completed transfer is the commit point: it publishes the session with one more event,
  or raises with nothing published.
\<close>

lemma durable_outbound [simp]:
  "requires_durable_audit ''outbound_transfer'' ''success''"
  "\<not> requires_durable_audit ''outbound_transfer'' ''failure''"
  "\<not> requires_durable_audit ''outbound_transfer'' ''blocked''"
  by code_simp+

lemma durable_audit_cases:
  assumes "required \<or> requires_durable_audit a out"
  obtains ev where "storable (working s)"
      "audit_banking_action e a out u md tr pa ik required s =
         (Inr (), s\<lparr>working := add_audit ev (working s), committed := add_audit ev (working s)\<rparr>)"
  | m where "audit_banking_action e a out u md tr pa ik required s = (Inl (AuditWriteError m), s)"
  | err where "audit_banking_action e a out u md tr pa ik required s = (Inl err, s\<lparr>working := committed s\<rparr>)"
proof -
  define md' where "md' = audit_ref_field e ''idempotency_key_ref'' ''idempotency_key'' ik
     (audit_ref_field e ''payee_account_ref'' ''payee_account'' pa
       (audit_ref_field e ''transaction_ref'' ''transaction_reference'' tr (dict_of ((''action'', JStr a) # md))))"
  have eq: "audit_banking_action e a out u md tr pa ik required =
      bindA (audit_event_required e (''banking_'' @ a) out u md' None) (\<lambda>_. commitA)"
    using assms by (simp add: audit_banking_action_def md'_def Let_def)
  show thesis
  proof (cases rule: audit_event_required_cases [of e "''banking_'' @ a" out u md' None s])
    case (1 ev)
    let ?s = "s\<lparr>working := add_audit ev (working s)\<rparr>"
    show ?thesis
      by (cases rule: commitA_cases [of ?s]) (use 1 that eq in auto)
  next
    case (2 m)
    with that(2) eq show ?thesis by simp
  qed
qed

subsection \<open>Reconciliation of balances with the ledger\<close>

text \<open>
  The balance a user should have according to the ledger rows: credits, plus what was received, minus
  what was sent. A top-up writes a transaction from the user to the user, which moves nothing; the
  money comes from its credit row.
\<close>

definition credits_of :: "int \<Rightarrow> credit list \<Rightarrow> cents" where
  "credits_of i cs = sum_list (map cr_amount (filter (\<lambda>c. cr_user_id c = i) cs))"

definition transfers_where :: "(transaction \<Rightarrow> bool) \<Rightarrow> transaction list \<Rightarrow> cents" where
  "transfers_where p ts = sum_list (map tx_amount (filter (\<lambda>t. p t \<and> tx_type t \<noteq> ''topup'' \<and> tx_status t = ''completed'') ts))"

definition account_net :: "int \<Rightarrow> database \<Rightarrow> cents" where
  "account_net i db = credits_of i (registration_credits db) + credits_of i (topup_credits db)
     + transfers_where (\<lambda>t. tx_recipient_id t = i) (transactions db)
     - transfers_where (\<lambda>t. tx_sender_id t = i) (transactions db)"

definition ledger_ok :: "database \<Rightarrow> bool" where
  "ledger_ok db \<longleftrightarrow> distinct (map u_id (users db)) \<and> (\<forall>u \<in> set (users db). u_balance u = account_net (u_id u) db)"

definition total_balance :: "database \<Rightarrow> cents" where
  "total_balance db = sum_list (map u_balance (users db))"

text \<open>The frames of the two ledger updates.\<close>

lemma add_balance_frame [simp]:
  "transactions (add_balance i a db) = transactions db" "registration_credits (add_balance i a db) = registration_credits db"
  "topup_credits (add_balance i a db) = topup_credits db" "pending_transfers (add_balance i a db) = pending_transfers db"
  "payup_pending_transfers (add_balance i a db) = payup_pending_transfers db" "audit_rows (add_balance i a db) = audit_rows db"
  "topup_requests (add_balance i a db) = topup_requests db" "idempotency_rows (add_balance i a db) = idempotency_rows db"
  "map u_id (users (add_balance i a db)) = map u_id (users db)"
  by (simp_all add: add_balance_def map_upd_where_frame)

lemma users_add_balance:
  "users (add_balance i a db) = upd_where (\<lambda>u. u_id u = i) (\<lambda>u. u\<lparr>u_balance := u_balance u + a\<rparr>) (users db)"
  by (simp add: add_balance_def)

lemma user_by_id_add_balance:
  "user_by_id (add_balance i a db) j =
     map_option (\<lambda>u. if j = i then u\<lparr>u_balance := u_balance u + a\<rparr> else u) (user_by_id db j)"
proof -
  have "user_by_id (add_balance i a db) j =
      map_option (\<lambda>u. if u_id u = i then u\<lparr>u_balance := u_balance u + a\<rparr> else u) (user_by_id db j)"
    unfolding user_by_id_def users_add_balance by (rule find_upd_where_same) simp
  also have "\<dots> = map_option (\<lambda>u. if j = i then u\<lparr>u_balance := u_balance u + a\<rparr> else u) (user_by_id db j)"
    by (cases "user_by_id db j") (auto simp: user_by_id_def dest: find_SomeD)
  finally show ?thesis .
qed

lemma add_transaction_frame [simp]:
  "users (add_transaction ref sig s r p a txt ty c db) = users db"
  "registration_credits (add_transaction ref sig s r p a txt ty c db) = registration_credits db"
  "topup_credits (add_transaction ref sig s r p a txt ty c db) = topup_credits db"
  "pending_transfers (add_transaction ref sig s r p a txt ty c db) = pending_transfers db"
  "payup_pending_transfers (add_transaction ref sig s r p a txt ty c db) = payup_pending_transfers db"
  "audit_rows (add_transaction ref sig s r p a txt ty c db) = audit_rows db"
  "topup_requests (add_transaction ref sig s r p a txt ty c db) = topup_requests db"
  by (simp_all add: add_transaction_def split: prod.split)

lemma user_by_id_add_transaction [simp]:
  "user_by_id (add_transaction ref sig s r p a txt ty c db) = user_by_id db"
  by (simp add: user_by_id_def fun_eq_iff)

lemma user_by_id_member: "user_by_id db i = Some u \<Longrightarrow> u \<in> set (users db) \<and> u_id u = i"
  by (auto simp: user_by_id_def dest: find_SomeD)

lemma user_by_id_key: "distinct (map u_id (users db)) \<Longrightarrow> u \<in> set (users db) \<Longrightarrow> user_by_id db (u_id u) = Some u"
  by (simp add: user_by_id_def find_key_distinct)

lemma ledger_ok_iff:
  "ledger_ok db \<longleftrightarrow> distinct (map u_id (users db))
     \<and> (\<forall>i u. user_by_id db i = Some u \<longrightarrow> u_balance u = account_net i db)"
  unfolding ledger_ok_def by (metis user_by_id_key user_by_id_member)

lemma transfers_where_add_transaction:
  "transfers_where p (transactions (add_transaction ref sig s r pe a txt ty c db)) =
     transfers_where p (transactions db) +
       (if ty \<noteq> ''topup'' \<and> p (last (transactions (add_transaction ref sig s r pe a txt ty c db))) then a else 0)"
  by (auto simp: transfers_where_def add_transaction_def split: prod.split)

lemma last_add_transaction [simp]:
  "tx_sender_id (last (transactions (add_transaction ref sig s r pe a txt ty c db))) = s"
  "tx_recipient_id (last (transactions (add_transaction ref sig s r pe a txt ty c db))) = r"
  by (simp_all add: add_transaction_def split: prod.split)

text \<open>A transfer between two accounts keeps the books, and the sum of all balances.\<close>

lemma ledger_ok_transfer:
  assumes "ledger_ok db" and "s \<noteq> r" and "ty \<noteq> ''topup''"
  shows "ledger_ok (add_transaction ref sig s r pe a txt ty c (add_balance r a (add_balance s (- a) db)))"
  using assms unfolding ledger_ok_iff
  by (auto simp: user_by_id_add_balance account_net_def transfers_where_add_transaction)

lemma total_add_balance:
  assumes "distinct (map u_id (users db))" and "user_by_id db i = Some u"
  shows "total_balance (add_balance i a db) = total_balance db + a"
  using sum_list_upd_where_key [where k = u_id and v = u_balance, OF assms(1), of i u] assms(2)
  by (simp add: total_balance_def users_add_balance user_by_id_def)

lemma total_transfer:
  assumes "distinct (map u_id (users db))" and "user_by_id db s = Some u" and "user_by_id db r = Some v"
  shows "total_balance (add_balance r a (add_balance s (- a) db)) = total_balance db"
proof -
  obtain v' where "user_by_id (add_balance s (- a) db) r = Some v'"
    using assms(3) by (simp add: user_by_id_add_balance)
  with total_add_balance [OF assms(1,2), of "- a"] show ?thesis
    by (simp add: total_add_balance [where u = v'] assms(1))
qed

lemma total_add_transaction [simp]:
  "total_balance (add_transaction ref sig s r pe a txt ty c db) = total_balance db"
  by (simp add: total_balance_def)

lemma keeps_audit_ledger_ok: "keeps_audit e ledger_ok"
  by (rule keeps_auditI) (simp add: ledger_ok_def account_net_def)

lemma keeps_audit_total: "keeps_audit e (\<lambda>db. total_balance db = T)"
  by (rule keeps_auditI) (simp add: total_balance_def)

subsection \<open>Publishing a posted transfer\<close>

text \<open>
  The end of both transfer operations: the durable audit of the success, which publishes the session or
  rolls it back, the commit, and three notifications that cannot fail the request.
\<close>

definition audit_transfer_success ::
  "env \<Rightarrow> user \<Rightarrow> (string \<times> json) list \<Rightarrow> string \<Rightarrow> string option \<Rightarrow> unit request"
where
  "audit_transfer_success e sender metadata txn_ref payee_account =
     try_catch (audit_outbound_transfer e sender ''success'' metadata (Some txn_ref) payee_account)
       (\<lambda>err. case err of AuditWriteError _ \<Rightarrow> bindA rollbackA (\<lambda>_. raise err) | _ \<Rightarrow> raise err)"

definition notify_transfer :: "env \<Rightarrow> string \<Rightarrow> user \<Rightarrow> user \<Rightarrow> cents \<Rightarrow> cents \<Rightarrow> cents \<Rightarrow> unit request" where
  "notify_transfer e channel sender recipient used amount limit =
     bindA (safe_send_notification (send_transfer_notification e sender ''withdrawal'' ''success'' channel)) (\<lambda>_.
     bindA (safe_send_notification (send_transfer_notification e recipient ''deposit'' ''success'' channel)) (\<lambda>_.
     safe_send_notification (maybe_send_daily_limit_warning e sender channel used amount limit)))"

definition publish_transfer ::
  "env \<Rightarrow> string \<Rightarrow> user \<Rightarrow> user \<Rightarrow> (string \<times> json) list \<Rightarrow> string option \<Rightarrow> cents \<Rightarrow> cents \<Rightarrow> cents \<Rightarrow> string request"
where
  "publish_transfer e channel sender recipient metadata payee_account used amount limit =
     bindA (audit_transfer_success e sender metadata (new_uuid e) payee_account) (\<lambda>_.
     bindA commitA (\<lambda>_.
     bindA (notify_transfer e channel sender recipient used amount limit) (\<lambda>_.
     ret (new_uuid e))))"

lemma audit_success_cases:
  obtains ev where "storable (working s)" "audit_transfer_success e u md ref pa s =
      (Inr (), s\<lparr>working := add_audit ev (working s), committed := add_audit ev (working s)\<rparr>)"
  | err where "audit_transfer_success e u md ref pa s = (Inl err, s\<lparr>working := committed s\<rparr>)"
proof -
  have d: "False \<or> requires_durable_audit ''outbound_transfer'' ''success''" by simp
  note defs = audit_transfer_success_def try_catch_def audit_outbound_transfer_def
  show thesis
  proof (cases rule: durable_audit_cases [OF d, of s e "Some (u_id u)" md "Some ref" pa None])
    case (1 ev)
    show ?thesis by (rule that(1)) (use 1 in \<open>simp_all add: defs\<close>)
  next
    case (2 m)
    show ?thesis by (rule that(2)) (use 2 in \<open>simp add: defs\<close>)
  next
    case (3 err)
    show ?thesis by (rule that(2) [of err]) (use 3 in \<open>simp add: defs split: py_error.split\<close>)
  qed
qed

lemma preserves_audit_transfer_success [preserves_rules]:
  "keeps_audit e P \<Longrightarrow> preserves (both P) (audit_transfer_success e u md ref pa)"
  unfolding audit_transfer_success_def
  by (intro preserves_rules) (auto split: py_error.split intro!: preserves_rules)

lemma preserves_notify_transfer [preserves_rules]:
  "keeps_audit e P \<Longrightarrow> preserves (both P) (notify_transfer e ch u v a b c)"
  unfolding notify_transfer_def by (intro preserves_rules)

lemma preserves_publish_transfer [preserves_rules]:
  "keeps_audit e P \<Longrightarrow> preserves (both P) (publish_transfer e ch u v md pa used amt lim)"
  unfolding publish_transfer_def by (intro preserves_rules)

lemma safe_send_ok: "\<exists>t. safe_send_notification m s = (Inr (), t)"
  by (auto simp: safe_send_notification_def try_catch_def split: prod.split sum.split)

lemma notify_ok: "\<exists>t. notify_transfer e ch u v a b c s = (Inr (), t)"
proof -
  obtain t where 1: "safe_send_notification (send_transfer_notification e u ''withdrawal'' ''success'' ch) s = (Inr (), t)"
    using safe_send_ok by blast
  obtain t' where 2: "safe_send_notification (send_transfer_notification e v ''deposit'' ''success'' ch) t = (Inr (), t')"
    using safe_send_ok by blast
  show ?thesis
    using safe_send_ok [of "maybe_send_daily_limit_warning e u ch a b c" t'] 1 2
    by (simp add: notify_transfer_def)
qed

text \<open>
  Once the balances are changed in the session, either the durable audit commits and nothing can raise
  any more, or the session is rolled back to the committed database.
\<close>

lemma publish_cases:
  obtains (published) ev t where "storable (working s)"
      "publish_transfer e ch u v md pa used amt lim s = (Inr (new_uuid e), t)"
      "notify_transfer e ch u v used amt lim
         (s\<lparr>working := add_audit ev (working s), committed := add_audit ev (working s)\<rparr>) = (Inr (), t)"
  | (dropped) err where "publish_transfer e ch u v md pa used amt lim s = (Inl err, s\<lparr>working := committed s\<rparr>)"
proof (cases rule: audit_success_cases [of s e u md "new_uuid e" pa])
  case (1 ev)
  let ?s = "s\<lparr>working := add_audit ev (working s), committed := add_audit ev (working s)\<rparr>"
  obtain t where t: "notify_transfer e ch u v used amt lim ?s = (Inr (), t)" using notify_ok by blast
  have "commitA ?s = (Inr (), ?s)" using 1(1) by (simp add: commitA_ok)
  then have "publish_transfer e ch u v md pa used amt lim s = (Inr (new_uuid e), t)"
    using 1 t by (simp add: publish_transfer_def)
  from published [OF 1(1) this t] show ?thesis .
next
  case (2 err)
  show ?thesis by (rule dropped) (use 2 in \<open>simp add: publish_transfer_def\<close>)
qed

text \<open>The two directions of \<open>publish_cases\<close> that the operations use.\<close>

lemma publish_error_triple: "triple (\<lambda>s. P (committed s)) (publish_transfer e ch u v md pa used amt lim) (\<lambda>_ _. True) (both P)"
proof (rule tripleI, simp)
  fix s err t assume "P (committed s)" "publish_transfer e ch u v md pa used amt lim s = (Inl err, t)"
  then show "both P t"
    by (cases rule: publish_cases [of s e ch u v md pa used amt lim]) (auto simp: both_def)
qed

lemma publish_ok:
  assumes "publish_transfer e ch u v md pa used amt lim s = (Inr ref, t)"
  shows "storable (working s) \<and> both (same_but_audit (working s)) t \<and> ref = new_uuid e"
proof (cases rule: publish_cases [of s e ch u v md pa used amt lim])
  case (published ev t')
  have "both (same_but_audit (working s)) (s\<lparr>working := add_audit ev (working s), committed := add_audit ev (working s)\<rparr>)"
    by (simp add: both_def)
  with published assms preservesD' [OF preserves_notify_transfer [OF keeps_same_but_audit]] show ?thesis by fastforce
qed (use assms in simp)

lemma durable_audit_ready:
  assumes "audit_ready e" and "required \<or> requires_durable_audit a out" and "storable (working s)"
  shows "\<exists>ev. audit_banking_action e a out u md tr pa ik required s =
     (Inr (), s\<lparr>working := add_audit ev (working s), committed := add_audit ev (working s)\<rparr>)"
proof -
  define md' where "md' = audit_ref_field e ''idempotency_key_ref'' ''idempotency_key'' ik
     (audit_ref_field e ''payee_account_ref'' ''payee_account'' pa
       (audit_ref_field e ''transaction_ref'' ''transaction_reference'' tr (dict_of ((''action'', JStr a) # md))))"
  obtain ev where "audit_event_required e (''banking_'' @ a) out u md' None s = (Inr (), s\<lparr>working := add_audit ev (working s)\<rparr>)"
    using audit_event_required_ready [OF assms(1)] by blast
  moreover have "audit_banking_action e a out u md tr pa ik required =
      bindA (audit_event_required e (''banking_'' @ a) out u md' None) (\<lambda>_. commitA)"
    using assms by (simp add: audit_banking_action_def md'_def Let_def)
  ultimately show ?thesis using assms(3) by (auto simp: commitA_ok)
qed

lemma publish_ready:
  assumes "audit_ready e" and "storable (working s)"
  shows "\<exists>t. publish_transfer e ch u v md pa used amt lim s = (Inr (new_uuid e), t)"
proof -
  obtain ev where "audit_banking_action e ''outbound_transfer'' ''success'' (Some (u_id u)) md (Some (new_uuid e)) pa None False s =
      (Inr (), s\<lparr>working := add_audit ev (working s), committed := add_audit ev (working s)\<rparr>)"
    using durable_audit_ready [OF assms(1) _ assms(2), of False "''outbound_transfer''" "''success''"] by fastforce
  then have ev: "audit_transfer_success e u md (new_uuid e) pa s =
      (Inr (), s\<lparr>working := add_audit ev (working s), committed := add_audit ev (working s)\<rparr>)"
    by (simp add: audit_transfer_success_def audit_outbound_transfer_def try_catch_def)
  let ?s = "s\<lparr>working := add_audit ev (working s), committed := add_audit ev (working s)\<rparr>"
  obtain t where "notify_transfer e ch u v used amt lim ?s = (Inr (), t)" using notify_ok by blast
  moreover have "commitA ?s = (Inr (), ?s)" using assms(2) by (simp add: commitA_ok)
  ultimately show ?thesis using ev by (simp add: publish_transfer_def)
qed

subsection \<open>Sample accounts\<close>

definition sample_user :: "int \<Rightarrow> string \<Rightarrow> string \<Rightarrow> cents \<Rightarrow> user" where
  "sample_user i name account balance = \<lparr>u_id = i, u_username = name, u_email = name, u_email_canonical = None,
     u_password_hash = ''pw'', u_account_type = ''customer'', u_account_status = ''active'', u_full_name = name,
     u_phone_number = Some account, u_payup_nickname = Some name, u_account_number = Some account,
     u_staff_personal_email = None, u_workplace_email_verified_at = None, u_password_changed_at = 0,
     u_force_password_change = False, u_force_password_change_reason = None, u_force_password_change_at = None,
     u_mfa_secret_ciphertext = None, u_mfa_secret_nonce = None, u_mfa_enabled = True, u_mfa_pending_started_at = None,
     u_mfa_pending_session_hash = None, u_balance = balance, u_payup_daily_limit = 50000, u_payup_enabled = True,
     u_transfer_email_enabled = False, u_local_transfer_daily_limit = 500000, u_is_frozen = False,
     u_failed_login_count = 0, u_security_locked_at = None, u_security_lock_reason = None, u_created_at = 0,
     u_last_login_at = None\<rparr>"

definition alice :: user where "alice = sample_user 1 ''alice'' ''000000000001'' 10000"
definition bob :: user where "bob = sample_user 2 ''bob'' ''000000000002'' 500"

end
