(* ===== verification/Transfers.thy ===== *)
theory Transfers
  imports Banking
begin

section \<open>Local transfers\<close>

text \<open>
  \<^verbatim>\<open>execute_local_transfer\<close> of \<^verbatim>\<open>app/banking/services.py\<close> with all its guards, in the order of the code: frozen
  sender, ownership of the payee, recipient, cooldown of the payee, the single-use confirmation row, the
  amount, the locked balances and the daily limit; then the two balances, the signed ledger row and the
  consumed confirmation, published by the durable audit. A rejection audits, commits what the session holds
  (that is how a rejected confirmation stays consumed), notifies and raises.
\<close>

definition local_transfer_token_verifier :: "env \<Rightarrow> string \<Rightarrow> string" where
  "local_transfer_token_verifier e token = active_hmac_hex e (''local-transfer-confirmation:'' @ token) 64"

definition confirmation_expired_message :: string where
  "confirmation_expired_message = ''Transfer confirmation has expired or was already used.''"

definition reject_local_transfer ::
  "env \<Rightarrow> user \<Rightarrow> string \<Rightarrow> int \<Rightarrow> (string \<times> json) list \<Rightarrow> string option \<Rightarrow> 'a request"
where
  "reject_local_transfer e sender message status_code metadata payee_account =
     bindA (audit_outbound_transfer e sender ''failure'' metadata None payee_account) (\<lambda>_.
     bindA commitA (\<lambda>_.
     bindA (send_transfer_notification e sender ''withdrawal'' ''failure'' ''Local Transfer'') (\<lambda>_.
     raise (auth_error message status_code))))"

definition local_transfer_recipient :: "env \<Rightarrow> user \<Rightarrow> payee \<Rightarrow> user request" where
  "local_transfer_recipient e sender payee =
     bindA (if pe_user_id payee \<noteq> u_id sender
            then reject_local_transfer e sender ''Transfer denied.'' 403
              [(''reason'', JStr ''payee_ownership_mismatch''),
               (''payee_id_ref'', opt_json JStr (audit_reference e ''payee_id'' (int_str (pe_id payee)) 32))] None
            else ret ()) (\<lambda>_.
     bindA (queryA (\<lambda>db. find (\<lambda>u. u_account_number u = Some (pe_account_number payee)) (users db))) (\<lambda>found.
     case found of
       None \<Rightarrow> reject_local_transfer e sender ''Recipient account not found.'' 400
         [(''reason'', JStr ''recipient_not_found'')] (Some (pe_account_number payee))
     | Some recipient \<Rightarrow>
         bindA (if u_id recipient = u_id sender
                then reject_local_transfer e sender ''Cannot transfer to yourself.'' 400
                  [(''reason'', JStr ''self_transfer'')] None
                else ret ()) (\<lambda>_.
         if u_account_status recipient \<notin> {''active'', ''locked''}
         then reject_local_transfer e sender ''Recipient account is not available to receive transfers.'' 400
           [(''reason'', JStr ''recipient_account_unavailable'')] None
         else ret recipient)))"

definition ensure_payee_cooldown_elapsed :: "env \<Rightarrow> user \<Rightarrow> payee \<Rightarrow> unit request" where
  "ensure_payee_cooldown_elapsed e sender payee =
     (if now e - pe_created_at payee < seconds (cfg_payee_cooldown_seconds (cfg e))
      then reject_local_transfer e sender ''Payee is still in cooldown.'' 400 [(''reason'', JStr ''payee_in_cooldown'')] None
      else ret ())"

definition pending_matches :: "env \<Rightarrow> user \<Rightarrow> payee \<Rightarrow> string \<Rightarrow> pending_transfer \<Rightarrow> bool" where
  "pending_matches e sender payee token p \<longleftrightarrow>
     pt_token p = local_transfer_token_verifier e token \<and> pt_user_id p = u_id sender
     \<and> pt_payee_id p = pe_id payee \<and> pt_consumed_at p = None"

definition load_pending_local_transfer :: "env \<Rightarrow> user \<Rightarrow> payee \<Rightarrow> string \<Rightarrow> pending_transfer request" where
  "load_pending_local_transfer e sender payee confirmation_token =
     bindA (queryA (\<lambda>db. find (pending_matches e sender payee confirmation_token) (pending_transfers db))) (\<lambda>found.
     case found of
       None \<Rightarrow> reject_local_transfer e sender confirmation_expired_message 409
         [(''reason'', JStr ''confirmation_token_not_found'')] None
     | Some pending \<Rightarrow>
         if pt_expires_at pending < now e
         then reject_local_transfer e sender confirmation_expired_message 409
           [(''reason'', JStr ''confirmation_token_expired'')] None
         else ret pending)"

text \<open>A pending amount has at most two decimals when it is a whole number of cents.\<close>

definition local_transfer_amount :: "env \<Rightarrow> user \<Rightarrow> pending_transfer \<Rightarrow> cents request" where
  "local_transfer_amount e sender pending =
     bindA (if pt_amount pending mod 1000 \<noteq> 0
            then reject_local_transfer e sender ''Transfer amount must have at most two decimal places.'' 400
              [(''reason'', JStr ''invalid_amount_precision''),
               (''amount_band'', JStr (amount_audit_band pending_unit (pt_amount pending)))] None
            else ret (pt_amount pending div 1000)) (\<lambda>amount.
     if amount < min_transaction_amount \<or> max_transaction_amount < amount
     then reject_local_transfer e sender ''Transfer amount is out of the allowed range.'' 400
       [(''reason'', JStr ''amount_out_of_range''), (''amount_band'', JStr (amount_audit_band cents_unit amount))] None
     else ret amount)"

definition ensure_local_transfer_balance :: "env \<Rightarrow> user \<Rightarrow> payee \<Rightarrow> user \<Rightarrow> cents \<Rightarrow> unit request" where
  "ensure_local_transfer_balance e sender payee locked_sender amount =
     (if u_balance locked_sender < amount
      then reject_local_transfer e sender ''Insufficient funds.'' 400
        [(''reason'', JStr ''insufficient_funds''), (''amount_band'', JStr (amount_audit_band cents_unit amount))]
        (Some (pe_account_number payee))
      else ret ())"

definition ensure_local_transfer_daily_limit ::
  "env \<Rightarrow> user \<Rightarrow> payee \<Rightarrow> user \<Rightarrow> cents \<Rightarrow> (cents \<times> cents) request"
where
  "ensure_local_transfer_daily_limit e sender payee locked_sender amount =
     bindA (queryA (local_transfer_amount_used_today e (u_id locked_sender))) (\<lambda>used.
     if u_local_transfer_daily_limit locked_sender < used + amount
     then reject_local_transfer e sender ''This transfer would exceed your daily Local Transfer limit.'' 409
       [(''reason'', JStr ''daily_limit_exceeded''), (''amount_band'', JStr (amount_audit_band cents_unit amount))]
       (Some (pe_account_number payee))
     else ret (used, u_local_transfer_daily_limit locked_sender))"

definition audit_local_transfer_success :: "env \<Rightarrow> user \<Rightarrow> payee \<Rightarrow> cents \<Rightarrow> string \<Rightarrow> string \<Rightarrow> unit request" where
  "audit_local_transfer_success e sender payee amount reference txn_ref =
     audit_transfer_success e sender
       [(''amount_band'', JStr (amount_audit_band cents_unit amount)),
        (''reference_present'', JBool (reference \<noteq> [])), (''reference_length'', JInt (int (length reference)))]
       txn_ref (Some (pe_account_number payee))"

text \<open>The assignments of \<^verbatim>\<open>execute_local_transfer\<close> to the session: one for each of its statements.\<close>

definition consume_pending :: "int \<Rightarrow> time \<Rightarrow> database \<Rightarrow> database" where
  "consume_pending pid at db = db\<lparr>pending_transfers :=
     upd_where (\<lambda>p. pt_id p = pid) (\<lambda>p. p\<lparr>pt_consumed_at := Some at\<rparr>) (pending_transfers db)\<rparr>"

definition mark_pending_ref :: "int \<Rightarrow> string \<Rightarrow> database \<Rightarrow> database" where
  "mark_pending_ref pid ref db = db\<lparr>pending_transfers :=
     upd_where (\<lambda>p. pt_id p = pid) (\<lambda>p. p\<lparr>pt_consumed_ref := Some ref\<rparr>) (pending_transfers db)\<rparr>"

definition post_local_transfer ::
  "string \<Rightarrow> signature \<Rightarrow> int \<Rightarrow> int \<Rightarrow> int \<Rightarrow> cents \<Rightarrow> string \<Rightarrow> time \<Rightarrow> int \<Rightarrow> database \<Rightarrow> database"
where
  "post_local_transfer ref sig sid rid pid amount reference created_at pending_id db =
     mark_pending_ref pending_id ref
       (add_transaction ref sig sid rid (Some pid) amount reference ''local_transfer'' created_at
         (add_balance rid amount (add_balance sid (- amount) db)))"

text \<open>
  \<^verbatim>\<open>execute_local_transfer\<close> in three parts: the durable audit, the commit and the notifications; before them
  the signature and the ledger updates; and the part under the row locks as a whole.
\<close>

definition publish_local_transfer ::
  "env \<Rightarrow> user \<Rightarrow> payee \<Rightarrow> user \<Rightarrow> cents \<Rightarrow> cents \<Rightarrow> cents \<Rightarrow> string \<Rightarrow> string request"
where
  "publish_local_transfer e sender payee locked_recipient used amount limit reference =
     bindA (audit_local_transfer_success e sender payee amount reference (new_uuid e)) (\<lambda>_.
     bindA commitA (\<lambda>_.
     bindA (notify_transfer e ''Local Transfer'' sender locked_recipient used amount limit) (\<lambda>_.
     ret (new_uuid e))))"

definition complete_local_transfer ::
  "env \<Rightarrow> user \<Rightarrow> payee \<Rightarrow> user \<Rightarrow> user \<Rightarrow> pending_transfer \<Rightarrow> string \<Rightarrow> cents \<Rightarrow> cents \<Rightarrow> cents \<Rightarrow> string request"
where
  "complete_local_transfer e sender payee locked_sender locked_recipient pending reference amount used limit =
     (case sign_transaction_integrity e (new_uuid e) (u_id locked_sender) (u_id locked_recipient) (Some (pe_id payee))
             amount reference ''completed'' ''local_transfer'' (now e) of
        Inl err \<Rightarrow> raise err
      | Inr sig \<Rightarrow>
          bindA (updateA (post_local_transfer (new_uuid e) sig (u_id locked_sender) (u_id locked_recipient) (pe_id payee)
                   amount reference (now e) (pt_id pending))) (\<lambda>_.
          publish_local_transfer e sender payee locked_recipient used amount limit reference))"

definition settle_local_transfer ::
  "env \<Rightarrow> user \<Rightarrow> payee \<Rightarrow> user \<Rightarrow> pending_transfer \<Rightarrow> string \<Rightarrow> cents \<Rightarrow> string request"
where
  "settle_local_transfer e sender payee recipient pending reference amount =
     bindA (lock_transfer_participants (u_id sender) (u_id recipient)) (\<lambda>(locked_sender, locked_recipient).
     bindA (ensure_local_transfer_balance e sender payee locked_sender amount) (\<lambda>_.
     bindA (ensure_local_transfer_daily_limit e sender payee locked_sender amount) (\<lambda>(used, limit).
     complete_local_transfer e sender payee locked_sender locked_recipient pending reference amount used limit)))"

definition execute_local_transfer :: "env \<Rightarrow> user \<Rightarrow> payee \<Rightarrow> string \<Rightarrow> string request" where
  "execute_local_transfer e sender payee confirmation_token =
     bindA (ensure_outbound_transfer_allowed e sender) (\<lambda>_.
     bindA (local_transfer_recipient e sender payee) (\<lambda>recipient.
     bindA (ensure_payee_cooldown_elapsed e sender payee) (\<lambda>_.
     bindA (load_pending_local_transfer e sender payee confirmation_token) (\<lambda>pending.
     bindA (updateA (consume_pending (pt_id pending) (now e))) (\<lambda>_.
     bindA (local_transfer_amount e sender pending) (\<lambda>amount.
     settle_local_transfer e sender payee recipient pending (take 128 (pt_reference pending)) amount))))))"

subsection \<open>Frames\<close>

lemma raises_reject [simp]: "raises (reject_local_transfer e u m c md pa)"
  unfolding reject_local_transfer_def by (intro raises_bindA) simp

lemma reject_not_Inr [simp]: "reject_local_transfer e u m c md pa s \<noteq> (Inr x, t)"
  by (rule raises_not_Inr) simp

lemma preserves_reject [preserves_rules]:
  "keeps_audit e P \<Longrightarrow> preserves (both P) (reject_local_transfer e u m c md pa)"
  unfolding reject_local_transfer_def by (intro preserves_rules)

lemma preserves_local_transfer_recipient [preserves_rules]:
  "keeps_audit e P \<Longrightarrow> preserves (both P) (local_transfer_recipient e u p)"
  unfolding local_transfer_recipient_def by (intro preserves_rules)

lemma preserves_ensure_payee_cooldown [preserves_rules]:
  "keeps_audit e P \<Longrightarrow> preserves (both P) (ensure_payee_cooldown_elapsed e u p)"
  unfolding ensure_payee_cooldown_elapsed_def by (intro preserves_rules)

lemma preserves_load_pending [preserves_rules]:
  "keeps_audit e P \<Longrightarrow> preserves (both P) (load_pending_local_transfer e u p tok)"
  unfolding load_pending_local_transfer_def by (intro preserves_rules)

lemma preserves_local_transfer_amount [preserves_rules]:
  "keeps_audit e P \<Longrightarrow> preserves (both P) (local_transfer_amount e u p)"
  unfolding local_transfer_amount_def by (intro preserves_rules)

lemma consume_pending_frame [simp]:
  "users (consume_pending i t db) = users db" "transactions (consume_pending i t db) = transactions db"
  "registration_credits (consume_pending i t db) = registration_credits db" "topup_credits (consume_pending i t db) = topup_credits db"
  "audit_rows (consume_pending i t db) = audit_rows db" "payup_pending_transfers (consume_pending i t db) = payup_pending_transfers db"
  "topup_requests (consume_pending i t db) = topup_requests db"
  by (simp_all add: consume_pending_def)

lemma mark_pending_frame [simp]:
  "users (mark_pending_ref i t db) = users db" "transactions (mark_pending_ref i t db) = transactions db"
  "registration_credits (mark_pending_ref i t db) = registration_credits db" "topup_credits (mark_pending_ref i t db) = topup_credits db"
  "audit_rows (mark_pending_ref i t db) = audit_rows db" "payup_pending_transfers (mark_pending_ref i t db) = payup_pending_transfers db"
  "topup_requests (mark_pending_ref i t db) = topup_requests db"
  by (simp_all add: mark_pending_ref_def)

subsection \<open>Outcomes of the steps\<close>

lemma recipient_spec:
  assumes "local_transfer_recipient e sender payee s = (Inr r, t)"
  shows "t = s \<and> pe_user_id payee = u_id sender \<and> u_id r \<noteq> u_id sender \<and> r \<in> set (users (working s))
    \<and> u_account_number r = Some (pe_account_number payee) \<and> u_account_status r \<in> {''active'', ''locked''}"
  using assms
  by (auto simp: local_transfer_recipient_def bindA_eq_Inr split: if_splits option.splits dest: find_SomeD)

lemma load_pending_spec:
  assumes "load_pending_local_transfer e sender payee tok s = (Inr p, t)"
  shows "t = s \<and> p \<in> set (pending_transfers (working s)) \<and> pending_matches e sender payee tok p
    \<and> now e \<le> pt_expires_at p \<and> find (pending_matches e sender payee tok) (pending_transfers (working s)) = Some p"
  using assms
  by (auto simp: load_pending_local_transfer_def split: if_splits option.splits dest: find_SomeD)

lemma amount_spec:
  assumes "local_transfer_amount e sender p s = (Inr a, t)"
  shows "t = s \<and> pt_amount p = 1000 * a \<and> min_transaction_amount \<le> a \<and> a \<le> max_transaction_amount"
  using assms
  by (auto simp: local_transfer_amount_def bindA_eq_Inr split: if_splits)

lemma publish_local_transfer_eq:
  "publish_local_transfer e sender payee v used amount limit reference =
     publish_transfer e ''Local Transfer'' sender v
       [(''amount_band'', JStr (amount_audit_band cents_unit amount)),
        (''reference_present'', JBool (reference \<noteq> [])), (''reference_length'', JInt (int (length reference)))]
       (Some (pe_account_number payee)) used amount limit"
  by (simp add: publish_local_transfer_def publish_transfer_def audit_local_transfer_success_def)

lemma lock_spec: "lock_transfer_participants i j s = (Inr (u, v), t) \<longleftrightarrow>
    t = s \<and> user_by_id (working s) i = Some u \<and> user_by_id (working s) j = Some v"
  by (auto simp: lock_transfer_participants_def split: option.splits)

text \<open>What a database invariant must tolerate to survive a local transfer.\<close>

definition survives_local_transfer :: "env \<Rightarrow> (database \<Rightarrow> bool) \<Rightarrow> bool" where
  "survives_local_transfer e P \<longleftrightarrow> keeps_audit e P
     \<and> (\<forall>db i t. P db \<longrightarrow> P (consume_pending i t db))
     \<and> (\<forall>db ref sig sid rid pid amt txt i u v. P db \<and> user_by_id db sid = Some u \<and> user_by_id db rid = Some v
         \<and> sid \<noteq> rid \<and> min_transaction_amount \<le> amt \<and> amt \<le> u_balance u
         \<and> local_transfer_amount_used_today e sid db + amt \<le> u_local_transfer_daily_limit u
         \<longrightarrow> P (post_local_transfer ref sig sid rid pid amt txt (now e) i db))"

lemma survives_post:
  assumes "survives_local_transfer e P" and "P db" and "user_by_id db sid = Some u" and "user_by_id db rid = Some v"
    and "sid \<noteq> rid" and "min_transaction_amount \<le> amt" and "amt \<le> u_balance u"
    and "local_transfer_amount_used_today e sid db + amt \<le> u_local_transfer_daily_limit u"
  shows "P (post_local_transfer ref sig sid rid pid amt txt (now e) i db)"
  using assms unfolding survives_local_transfer_def by blast

lemma settle_rule:
  assumes audit: "keeps_audit e P"
    and complete: "\<And>u v used limit. \<not> u_balance u < amount \<Longrightarrow> \<not> u_local_transfer_daily_limit u < used + amount \<Longrightarrow>
       triple (\<lambda>s. both P s \<and> ((user_by_id (working s) (u_id sender) = Some u \<and> user_by_id (working s) (u_id recipient) = Some v)
           \<and> local_transfer_amount_used_today e (u_id u) (working s) = used))
         (complete_local_transfer e sender payee u v pending reference amount used limit) Q (both P)"
  shows "triple (both P) (settle_local_transfer e sender payee recipient pending reference amount) Q (both P)"
  unfolding settle_local_transfer_def
proof (rule triple_bindA)
  let ?F = "\<lambda>(u, v) s. both P s \<and> user_by_id (working s) (u_id sender) = Some u \<and> user_by_id (working s) (u_id recipient) = Some v"
  show "triple (both P) (lock_transfer_participants (u_id sender) (u_id recipient)) ?F (both P)"
    by (rule tripleI) (auto simp: lock_transfer_participants_def split: option.splits)
  show "triple (?F x)
      (case x of (u, v) \<Rightarrow> bindA (ensure_local_transfer_balance e sender payee u amount) (\<lambda>_.
         bindA (ensure_local_transfer_daily_limit e sender payee u amount) (\<lambda>(used, limit).
           complete_local_transfer e sender payee u v pending reference amount used limit)))
      Q (both P)" for x
  proof (cases x)
    case (Pair u v)
    show ?thesis
      unfolding Pair prod.case ensure_local_transfer_balance_def ensure_local_transfer_daily_limit_def bindA_assoc
      by (intro triple_guard_bind triple_bind_queryA raises_reject preserves_reject audit)
         (use complete in auto)
  qed
qed

lemma preserves_publish [preserves_rules]:
  "keeps_audit e P \<Longrightarrow> preserves (both P) (publish_local_transfer e u p v used amt lim ref)"
  unfolding publish_local_transfer_eq by (intro preserves_rules)

lemma complete_rule:
  assumes "\<And>sig. triple F (updateA (post_local_transfer (new_uuid e) sig (u_id u) (u_id v) (pe_id payee) amount reference
      (now e) (pt_id pending))) (\<lambda>_. G) R"
    and "triple G (publish_local_transfer e sender payee v used amount limit reference) Q R" and "\<And>s. F s \<Longrightarrow> R s"
  shows "triple F (complete_local_transfer e sender payee u v pending reference amount used limit) Q R"
proof (cases "sign_transaction_integrity e (new_uuid e) (u_id u) (u_id v) (Some (pe_id payee)) amount reference
    ''completed'' ''local_transfer'' (now e)")
  case (Inr sig)
  show ?thesis
    unfolding complete_local_transfer_def Inr sum.case by (rule triple_bindA [OF assms(1,2)])
qed (simp add: complete_local_transfer_def triple_def assms(3))

lemma settle_triple:
  assumes P: "survives_local_transfer e P" and ne: "u_id sender \<noteq> u_id recipient" and amt: "min_transaction_amount \<le> amount"
  shows "triple (both P) (settle_local_transfer e sender payee recipient pending reference amount) (\<lambda>_. both P) (both P)"
proof (rule settle_rule)
  show audit: "keeps_audit e P" using P by (simp add: survives_local_transfer_def)
  fix u v :: user and used limit
  assume b: "\<not> u_balance u < amount" and l: "\<not> u_local_transfer_daily_limit u < used + amount"
  let ?F = "\<lambda>s. both P s \<and> ((user_by_id (working s) (u_id sender) = Some u \<and> user_by_id (working s) (u_id recipient) = Some v)
           \<and> local_transfer_amount_used_today e (u_id u) (working s) = used)"
  have "triple ?F (updateA (post_local_transfer (new_uuid e) sig (u_id u) (u_id v) (pe_id payee) amount reference (now e) (pt_id pending)))
      (\<lambda>_. both P) (both P)" for sig
    using ne amt b l user_by_id_member by (auto simp: triple_def both_def not_less intro!: survives_post [OF P])
  then show "triple ?F (complete_local_transfer e sender payee u v pending reference amount used limit) (\<lambda>_. both P) (both P)"
    by (rule complete_rule [OF _ triple_preserves [OF preserves_publish [OF audit]]]) simp
qed

text \<open>The steps before the locks, once for every pre- and postcondition.\<close>

lemma execute_triple:
  assumes audit: "keeps_audit e P" and consume: "\<And>db i t. P db \<Longrightarrow> P (consume_pending i t db)"
    and settle: "\<And>recipient pending d amount. u_id sender \<noteq> u_id recipient \<Longrightarrow> min_transaction_amount \<le> amount \<Longrightarrow>
       triple (both P) (settle_local_transfer e sender payee recipient pending d amount) Q (both P)"
  shows "triple (both P) (execute_local_transfer e sender payee tok) Q (both P)"
proof -
  have amount: "triple (both P) (bindA (local_transfer_amount e sender pending)
      (settle_local_transfer e sender payee recipient pending d)) Q (both P)"
    if "u_id recipient \<noteq> u_id sender" for recipient pending d
    using that amount_spec settle
    by (intro triple_bind_fact [where F = "\<lambda>a. min_transaction_amount \<le> a"] preserves_rules audit) fastforce+
  have pend: "triple (both P) (bindA (load_pending_local_transfer e sender payee tok) (\<lambda>pending.
      bindA (updateA (consume_pending (pt_id pending) (now e))) (\<lambda>_. bindA (local_transfer_amount e sender pending)
        (settle_local_transfer e sender payee recipient pending (take 128 (pt_reference pending))))))
      Q (both P)" if "u_id recipient \<noteq> u_id sender" for recipient
    by (intro triple_bind_step amount that preserves_rules audit preserves_both_updateA consume)
  have cool: "triple (both P) (bindA (ensure_payee_cooldown_elapsed e sender payee) (\<lambda>_.
      bindA (load_pending_local_transfer e sender payee tok) (\<lambda>pending.
      bindA (updateA (consume_pending (pt_id pending) (now e))) (\<lambda>_. bindA (local_transfer_amount e sender pending)
        (settle_local_transfer e sender payee recipient pending (take 128 (pt_reference pending)))))))
      Q (both P)" if "u_id recipient \<noteq> u_id sender" for recipient
    by (rule triple_bind_step [OF _ pend [OF that]]) (intro preserves_rules audit)
  note rcpt = triple_bind_fact [where F = "\<lambda>r. u_id r \<noteq> u_id sender", OF preserves_local_transfer_recipient [OF audit] _ cool]
  show ?thesis
    unfolding execute_local_transfer_def
    by (rule triple_bind_step, intro preserves_rules audit, rule rcpt) (use recipient_spec in blast)+
qed

lemma execute_local_transfer_survives:
  assumes "survives_local_transfer e P"
  shows "preserves (both P) (execute_local_transfer e sender payee tok)"
  using assms settle_triple [OF assms]
  by (intro preserves_triple execute_triple) (auto simp: survives_local_transfer_def)

subsection \<open>All or nothing\<close>

definition ledger_part :: "database \<Rightarrow> user list \<times> transaction list \<times> credit list \<times> credit list" where
  "ledger_part db = (users db, transactions db, registration_credits db, topup_credits db)"

lemma complete_error_triple:
  "triple (both P) (complete_local_transfer e sender payee u v pending reference amount used limit) (\<lambda>_ _. True) (both P)"
proof (rule complete_rule)
  show "triple (\<lambda>s. P (committed s)) (publish_local_transfer e sender payee v used amount limit reference) (\<lambda>_ _. True) (both P)"
    unfolding publish_local_transfer_eq by (rule publish_error_triple)
qed (simp_all add: triple_def both_def)

lemma execute_error_triple:
  assumes "keeps_audit e P" and "\<And>db i t. P db \<Longrightarrow> P (consume_pending i t db)"
  shows "triple (both P) (execute_local_transfer e sender payee tok) (\<lambda>_ _. True) (both P)"
  using assms
  by (intro execute_triple settle_rule) (auto intro: triple_pre [OF complete_error_triple])

lemma outbound_allowed_spec:
  "ensure_outbound_transfer_allowed e u s = (Inr (), t) \<Longrightarrow> t = s \<and> \<not> u_is_frozen u \<and> u_security_locked_at u = None"
  by (auto simp: ensure_outbound_transfer_allowed_def ensure_banking_action_allowed_def ensure_account_not_frozen_def
      try_catch_eq_Inr bindA_eq_Inr split: if_splits)

lemma cooldown_spec:
  "ensure_payee_cooldown_elapsed e u p s = (Inr (), t) \<Longrightarrow>
   t = s \<and> seconds (cfg_payee_cooldown_seconds (cfg e)) \<le> now e - pe_created_at p"
  by (auto simp: ensure_payee_cooldown_elapsed_def split: if_splits)

lemma settle_spec:
  assumes "settle_local_transfer e sender payee recipient pending reference amount s = (Inr ref, t)"
  shows "\<exists>u v sig. user_by_id (working s) (u_id sender) = Some u \<and> user_by_id (working s) (u_id recipient) = Some v
    \<and> amount \<le> u_balance u
    \<and> local_transfer_amount_used_today e (u_id sender) (working s) + amount \<le> u_local_transfer_daily_limit u
    \<and> ref = new_uuid e
    \<and> sign_transaction_integrity e ref (u_id sender) (u_id recipient) (Some (pe_id payee)) amount reference
        ''completed'' ''local_transfer'' (now e) = Inr sig
    \<and> (let db = post_local_transfer ref sig (u_id sender) (u_id recipient) (pe_id payee) amount reference (now e)
                  (pt_id pending) (working s)
       in storable db \<and> both (same_but_audit db) t)"
proof -
  from assms obtain u v used limit where
    uv: "user_by_id (working s) (u_id sender) = Some u" "user_by_id (working s) (u_id recipient) = Some v"
    and b: "\<not> u_balance u < amount"
    and l: "\<not> u_local_transfer_daily_limit u < local_transfer_amount_used_today e (u_id u) (working s) + amount"
    and c: "complete_local_transfer e sender payee u v pending reference amount used limit s = (Inr ref, t)"
    by (auto simp: settle_local_transfer_def bindA_eq_Inr lock_spec ensure_local_transfer_balance_def
        ensure_local_transfer_daily_limit_def split: if_splits)
  have id: "u_id u = u_id sender" "u_id v = u_id recipient" using uv user_by_id_member by auto
  from c obtain sig where sig: "sign_transaction_integrity e (new_uuid e) (u_id u) (u_id v) (Some (pe_id payee)) amount reference
        ''completed'' ''local_transfer'' (now e) = Inr sig"
    by (auto simp: complete_local_transfer_def split: sum.splits)
  let ?db = "post_local_transfer (new_uuid e) sig (u_id u) (u_id v) (pe_id payee) amount reference (now e) (pt_id pending) (working s)"
  from c sig have p: "publish_local_transfer e sender payee v used amount limit reference (s\<lparr>working := ?db\<rparr>) = (Inr ref, t)"
    by (simp add: complete_local_transfer_def)
  have "storable ?db \<and> both (same_but_audit ?db) t \<and> ref = new_uuid e"
    using publish_ok [OF p [unfolded publish_local_transfer_eq]] by simp
  with uv b l sig id show ?thesis by (auto simp: Let_def not_less)
qed

lemma user_by_id_frames [simp]:
  "user_by_id (consume_pending i t db) = user_by_id db" "user_by_id (mark_pending_ref i r db) = user_by_id db"
  by (simp_all add: user_by_id_def fun_eq_iff)

lemma used_today_frames [simp]:
  "used_today ty e uid (consume_pending i t db) = used_today ty e uid db"
  "used_today ty e uid (mark_pending_ref i r db) = used_today ty e uid db"
  "used_today ty e uid (add_balance j a db) = used_today ty e uid db"
  "used_today ty e uid (add_audit ev db) = used_today ty e uid db"
  by (simp_all add: used_today_def)

subsection \<open>Invariants that survive\<close>

lemma ledger_ok_frames [simp]:
  "ledger_ok (consume_pending i t db) = ledger_ok db" "ledger_ok (mark_pending_ref i r db) = ledger_ok db"
  by (simp_all add: ledger_ok_def account_net_def)

lemma survivesI:
  assumes "keeps_audit e P" and "\<And>db i t. P db \<Longrightarrow> P (consume_pending i t db)"
    and "\<And>db ref sig sid rid pid amt d i u v. P db \<Longrightarrow> user_by_id db sid = Some u \<Longrightarrow> user_by_id db rid = Some v \<Longrightarrow>
       sid \<noteq> rid \<Longrightarrow> min_transaction_amount \<le> amt \<Longrightarrow> amt \<le> u_balance u \<Longrightarrow>
       local_transfer_amount_used_today e sid db + amt \<le> u_local_transfer_daily_limit u \<Longrightarrow>
       P (post_local_transfer ref sig sid rid pid amt d (now e) i db)"
  shows "survives_local_transfer e P"
  unfolding survives_local_transfer_def using assms by blast

lemma survives_ledger_ok: "survives_local_transfer e ledger_ok"
  by (rule survivesI) (simp_all add: keeps_audit_ledger_ok post_local_transfer_def ledger_ok_transfer)

definition solvent :: "database \<Rightarrow> bool" where
  "solvent db \<longleftrightarrow> (\<forall>i u. user_by_id db i = Some u \<longrightarrow> 0 \<le> u_balance u)"

lemma keeps_audit_solvent: "keeps_audit e solvent"
  by (rule keeps_auditI) (simp add: solvent_def user_by_id_def)

lemma solvent_transfer:
  assumes "solvent db" "user_by_id db s = Some u" "s \<noteq> r" "0 \<le> a" "a \<le> u_balance u"
  shows "solvent (add_balance r a (add_balance s (- a) db))"
  unfolding solvent_def
proof (intro allI impI)
  fix i w assume w: "user_by_id (add_balance r a (add_balance s (- a) db)) i = Some w"
  then obtain w' where "user_by_id db i = Some w'" by (auto simp: user_by_id_add_balance)
  with w assms show "0 \<le> u_balance w" by (auto simp: user_by_id_add_balance solvent_def)
qed

lemma solvent_frames [simp]:
  "solvent (consume_pending i t db) = solvent db" "solvent (mark_pending_ref i r db) = solvent db"
  "solvent (add_transaction ref sig s r' pe a d ty c db) = solvent db"
  by (simp_all add: solvent_def)

lemma survives_solvent: "survives_local_transfer e solvent"
  by (rule survivesI)
     (simp_all add: keeps_audit_solvent post_local_transfer_def solvent_transfer min_transaction_amount_def)

definition total_is :: "cents \<Rightarrow> database \<Rightarrow> bool" where
  "total_is T db \<longleftrightarrow> total_balance db = T \<and> distinct (map u_id (users db))"

lemma keeps_audit_total_is: "keeps_audit e (total_is T)"
  by (rule keeps_auditI) (simp add: total_is_def total_balance_def)

lemma total_is_frames [simp]:
  "total_is T (consume_pending i t db) = total_is T db" "total_is T (mark_pending_ref i r db) = total_is T db"
  "total_is T (add_transaction ref sig s r' pe a d ty c db) = total_is T db"
  by (simp_all add: total_is_def total_balance_def)

lemma total_is_transfer:
  "total_is T db \<Longrightarrow> user_by_id db s = Some u \<Longrightarrow> user_by_id db r = Some v \<Longrightarrow>
   total_is T (add_balance r a (add_balance s (- a) db))"
  by (simp add: total_is_def total_transfer)

lemma survives_total: "survives_local_transfer e (total_is T)"
  by (rule survivesI) (simp_all add: keeps_audit_total_is post_local_transfer_def total_is_transfer)

text \<open>A confirmation is spent when no row with its token is open any more.\<close>

definition token_spent :: "string \<Rightarrow> database \<Rightarrow> bool" where
  "token_spent k db \<longleftrightarrow> (k, None) \<notin> set (map (\<lambda>p. (pt_token p, pt_consumed_at p)) (pending_transfers db))"

lemma token_spent_frames [simp]:
  "token_spent k (add_audit ev db) = token_spent k db" "token_spent k (add_balance i a db) = token_spent k db"
  "token_spent k (add_transaction ref sig s r pe amt d ty c db) = token_spent k db"
  "token_spent k (mark_pending_ref i ref db) = token_spent k db"
  by (simp_all add: token_spent_def mark_pending_ref_def map_upd_where_frame del: set_map)

lemma token_spent_consume: "token_spent k db \<Longrightarrow> token_spent k (consume_pending i t db)"
  by (auto simp: token_spent_def consume_pending_def set_upd_where)

lemma survives_token_spent: "survives_local_transfer e (token_spent k)"
  by (rule survivesI) (simp_all add: keeps_auditI post_local_transfer_def token_spent_consume)

subsection \<open>A completed transfer\<close>

definition posted_local_transfer ::
  "env \<Rightarrow> user \<Rightarrow> payee \<Rightarrow> user \<Rightarrow> pending_transfer \<Rightarrow> cents \<Rightarrow> signature \<Rightarrow> database \<Rightarrow> database"
where
  "posted_local_transfer e sender payee recipient p amount sig db =
     post_local_transfer (new_uuid e) sig (u_id sender) (u_id recipient) (pe_id payee) amount (take 128 (pt_reference p))
       (now e) (pt_id p) (consume_pending (pt_id p) (now e) db)"

lemma execute_ok:
  assumes "execute_local_transfer e sender payee tok s = (Inr ref, t)"
  shows "ref = new_uuid e \<and> \<not> u_is_frozen sender \<and> u_security_locked_at sender = None \<and> pe_user_id payee = u_id sender
    \<and> seconds (cfg_payee_cooldown_seconds (cfg e)) \<le> now e - pe_created_at payee
    \<and> (\<exists>recipient p amount u v sig.
        recipient \<in> set (users (working s)) \<and> u_account_number recipient = Some (pe_account_number payee)
      \<and> u_id recipient \<noteq> u_id sender \<and> u_account_status recipient \<in> {''active'', ''locked''}
      \<and> p \<in> set (pending_transfers (working s)) \<and> pending_matches e sender payee tok p \<and> now e \<le> pt_expires_at p
      \<and> pt_amount p = 1000 * amount \<and> min_transaction_amount \<le> amount \<and> amount \<le> max_transaction_amount
      \<and> user_by_id (working s) (u_id sender) = Some u \<and> user_by_id (working s) (u_id recipient) = Some v
      \<and> amount \<le> u_balance u
      \<and> local_transfer_amount_used_today e (u_id sender) (working s) + amount \<le> u_local_transfer_daily_limit u
      \<and> sign_transaction_integrity e ref (u_id sender) (u_id recipient) (Some (pe_id payee)) amount
          (take 128 (pt_reference p)) ''completed'' ''local_transfer'' (now e) = Inr sig
      \<and> storable (posted_local_transfer e sender payee recipient p amount sig (working s))
      \<and> both (same_but_audit (posted_local_transfer e sender payee recipient p amount sig (working s))) t)"
proof -
  from assms obtain s1 recipient s2 s3 p s4 amount s5 where
    1: "ensure_outbound_transfer_allowed e sender s = (Inr (), s1)"
    and 2: "local_transfer_recipient e sender payee s1 = (Inr recipient, s2)"
    and 3: "ensure_payee_cooldown_elapsed e sender payee s2 = (Inr (), s3)"
    and 4: "load_pending_local_transfer e sender payee tok s3 = (Inr p, s4)"
    and 5: "local_transfer_amount e sender p (s4\<lparr>working := consume_pending (pt_id p) (now e) (working s4)\<rparr>) = (Inr amount, s5)"
    and 6: "settle_local_transfer e sender payee recipient p (take 128 (pt_reference p)) amount s5 = (Inr ref, t)"
    unfolding execute_local_transfer_def bindA_eq_Inr updateA_apply by auto
  note specs = outbound_allowed_spec [OF 1] recipient_spec [OF 2] cooldown_spec [OF 3] load_pending_spec [OF 4] amount_spec [OF 5]
  then have s: "s1 = s" "s2 = s" "s3 = s" "s4 = s" and s5: "s5 = s\<lparr>working := consume_pending (pt_id p) (now e) (working s)\<rparr>"
    by auto
  have w: "working s5 = consume_pending (pt_id p) (now e) (working s)" by (simp add: s5)
  obtain u v sig where f: "user_by_id (working s) (u_id sender) = Some u" "user_by_id (working s) (u_id recipient) = Some v"
      "amount \<le> u_balance u" "local_transfer_amount_used_today e (u_id sender) (working s) + amount \<le> u_local_transfer_daily_limit u"
      "ref = new_uuid e"
      "sign_transaction_integrity e ref (u_id sender) (u_id recipient) (Some (pe_id payee)) amount (take 128 (pt_reference p))
        ''completed'' ''local_transfer'' (now e) = Inr sig"
      "storable (posted_local_transfer e sender payee recipient p amount sig (working s))"
      "both (same_but_audit (posted_local_transfer e sender payee recipient p amount sig (working s))) t"
    using settle_spec [OF 6] unfolding w Let_def posted_local_transfer_def local_transfer_amount_used_today_def
    by auto
  show ?thesis
    by (intro conjI exI [of _ recipient] exI [of _ p] exI [of _ amount] exI [of _ u] exI [of _ v] exI [of _ sig])
       (use specs f in \<open>simp_all add: s\<close>)
qed

subsection \<open>An allowed transfer goes through\<close>

lemma execute_completes:
  assumes "audit_ready e" and "\<not> u_is_frozen sender" and "u_security_locked_at sender = None"
    and "pe_user_id payee = u_id sender"
    and "find (\<lambda>u. u_account_number u = Some (pe_account_number payee)) (users (working s)) = Some recipient"
    and "u_id recipient \<noteq> u_id sender" and "u_account_status recipient \<in> {''active'', ''locked''}"
    and "seconds (cfg_payee_cooldown_seconds (cfg e)) \<le> now e - pe_created_at payee"
    and "find (pending_matches e sender payee tok) (pending_transfers (working s)) = Some p" and "now e \<le> pt_expires_at p"
    and "pt_amount p = 1000 * amount" and "min_transaction_amount \<le> amount" and "amount \<le> max_transaction_amount"
    and "user_by_id (working s) (u_id sender) = Some u" and "user_by_id (working s) (u_id recipient) = Some v"
    and "amount \<le> u_balance u"
    and "local_transfer_amount_used_today e (u_id sender) (working s) + amount \<le> u_local_transfer_daily_limit u"
    and "sign_transaction_integrity e (new_uuid e) (u_id sender) (u_id recipient) (Some (pe_id payee)) amount
          (take 128 (pt_reference p)) ''completed'' ''local_transfer'' (now e) = Inr sig"
    and "storable (posted_local_transfer e sender payee recipient p amount sig (working s))"
  shows "\<exists>t. execute_local_transfer e sender payee tok s = (Inr (new_uuid e), t)"
proof -
  let ?s = "s\<lparr>working := consume_pending (pt_id p) (now e) (working s)\<rparr>"
  have id: "u_id u = u_id sender" "u_id v = u_id recipient" using assms(14,15) user_by_id_member by auto
  have "\<exists>t. settle_local_transfer e sender payee recipient p (take 128 (pt_reference p)) amount ?s = (Inr (new_uuid e), t)"
  proof -
    let ?db = "posted_local_transfer e sender payee recipient p amount sig (working s)"
    have lock: "lock_transfer_participants (u_id sender) (u_id recipient) ?s = (Inr (u, v), ?s)"
      using assms(14,15) by (simp add: lock_spec)
    have bal: "ensure_local_transfer_balance e sender payee u amount ?s = (Inr (), ?s)"
      using assms(16) by (simp add: ensure_local_transfer_balance_def)
    have lim: "\<exists>used. ensure_local_transfer_daily_limit e sender payee u amount ?s = (Inr (used, u_local_transfer_daily_limit u), ?s)"
      using assms(17) by (simp add: ensure_local_transfer_daily_limit_def local_transfer_amount_used_today_def id)
    then obtain used where lim: "ensure_local_transfer_daily_limit e sender payee u amount ?s = (Inr (used, u_local_transfer_daily_limit u), ?s)" ..
    have "\<exists>t. publish_local_transfer e sender payee v used amount (u_local_transfer_daily_limit u) (take 128 (pt_reference p))
        (s\<lparr>working := ?db\<rparr>) = (Inr (new_uuid e), t)"
      unfolding publish_local_transfer_eq by (rule publish_ready) (use assms in simp_all)
    then show ?thesis
      using assms(18) by (simp add: settle_local_transfer_def lock bal lim complete_local_transfer_def id posted_local_transfer_def)
  qed
  moreover have "ensure_outbound_transfer_allowed e sender s = (Inr (), s)"
    using assms by (simp add: ensure_outbound_transfer_allowed_def ensure_banking_action_allowed_def
        ensure_account_not_frozen_def try_catch_def)
  moreover have "local_transfer_recipient e sender payee s = (Inr recipient, s)"
    using assms by (auto simp: local_transfer_recipient_def)
  moreover have "ensure_payee_cooldown_elapsed e sender payee s = (Inr (), s)"
    using assms by (simp add: ensure_payee_cooldown_elapsed_def)
  moreover have "load_pending_local_transfer e sender payee tok s = (Inr p, s)"
    using assms by (simp add: load_pending_local_transfer_def)
  moreover have "local_transfer_amount e sender p ?s = (Inr amount, ?s)"
    using assms by (simp add: local_transfer_amount_def)
  ultimately show ?thesis by (simp add: execute_local_transfer_def)
qed

definition sample_payee :: payee where
  "sample_payee = \<lparr>pe_id = 5, pe_user_id = 1, pe_nickname = ''b'', pe_account_number = ''000000000002'',
     pe_recipient_name = ''bob'', pe_created_at = 0\<rparr>"
definition sample_pending :: pending_transfer where
  "sample_pending = \<lparr>pt_id = 3, pt_token = local_transfer_token_verifier sample_env ''tok'', pt_amount = 2500000,
     pt_reference = ''rent'', pt_expires_at = now sample_env + 1, pt_consumed_at = None, pt_consumed_ref = None,
     pt_created_at = 0, pt_user_id = 1, pt_payee_id = 5\<rparr>"
definition sample_bank :: world where
  "sample_bank = fresh_world (empty_db\<lparr>users := [alice, bob], payees := [sample_payee], pending_transfers := [sample_pending]\<rparr>)"

lemma audit_ready_sample: "audit_ready sample_env"
  by (simp add: audit_ready_def sample_env_def sample_cfg_def)

lemma sample_signature:
  "\<exists>h k. sign_transaction_integrity sample_env (new_uuid sample_env) (u_id alice) (u_id bob) (Some (pe_id sample_payee)) 2500
     (take 128 (pt_reference sample_pending)) ''completed'' ''local_transfer'' (now sample_env) = Inr (h, k, ''hmac-sha256'', 1)"
  by (simp add: sign_transaction_integrity_def sample_ring Let_def transaction_integrity_algorithm_def
      transaction_integrity_version_def)

lemma sample_transfer_completes:
  "\<exists>t. execute_local_transfer sample_env alice sample_payee ''tok'' sample_bank = (Inr (new_uuid sample_env), t)"
proof -
  obtain h k where sig: "sign_transaction_integrity sample_env (new_uuid sample_env) (u_id alice) (u_id bob)
      (Some (pe_id sample_payee)) 2500 (take 128 (pt_reference sample_pending)) ''completed'' ''local_transfer''
      (now sample_env) = Inr (h, k, ''hmac-sha256'', 1)"
    using sample_signature by blast
  show ?thesis
  proof (rule execute_completes [OF audit_ready_sample, where recipient = bob and p = sample_pending and amount = 2500
        and u = alice and v = bob and sig = "(h, k, ''hmac-sha256'', 1)"])
    show "storable (posted_local_transfer sample_env alice sample_payee bob sample_pending 2500 (h, k, ''hmac-sha256'', 1)
        (working sample_bank))"
      by code_simp
  qed (rule sig | code_simp)+
qed

subsection \<open>Single use\<close>

type_synonym local_request = "env \<times> user \<times> payee \<times> string"

definition serve_local_transfer :: "local_request \<Rightarrow> string request" where
  "serve_local_transfer = (\<lambda>(e, sender, payee, tok). served (execute_local_transfer e sender payee tok))"

definition local_request_key :: "local_request \<Rightarrow> string" where
  "local_request_key = (\<lambda>(e, sender, payee, tok). local_transfer_token_verifier e tok)"

lemma posted_token_spent:
  assumes "p \<in> set (pending_transfers db)" and "storable (posted_local_transfer e u pe r p a sig db)"
  shows "token_spent (pt_token p) (posted_local_transfer e u pe r p a sig db)"
proof -
  let ?db = "posted_local_transfer e u pe r p a sig db"
  have tok: "map pt_token (pending_transfers ?db) = map pt_token (pending_transfers db)"
    by (simp add: posted_local_transfer_def post_local_transfer_def mark_pending_ref_def consume_pending_def
        map_upd_where_frame)
  have "distinct (map pt_token (pending_transfers db))"
    using assms(2) unfolding tok [symmetric] by (simp add: storable_def constraints_ok_def)
  then have "q = p" if "q \<in> set (pending_transfers db)" "pt_token q = pt_token p" for q
    using that assms(1) by (auto simp: distinct_map inj_on_def)
  then have "token_spent (pt_token p) (consume_pending (pt_id p) (now e) db)"
    by (auto simp: token_spent_def consume_pending_def set_upd_where split: if_splits)
  then show ?thesis by (simp add: posted_local_transfer_def post_local_transfer_def)
qed

interpretation local_single_use: single_use serve_local_transfer local_request_key "\<lambda>k. both (token_spent k)"
proof
  fix r :: local_request and s x t
  obtain e sender payee tok where r: "r = (e, sender, payee, tok)" by (cases r) auto
  assume "serve_local_transfer r s = (Inr x, t)"
  then obtain t' where ok: "execute_local_transfer e sender payee tok s = (Inr x, t')" and t: "t = t'\<lparr>working := committed t'\<rparr>"
    by (auto simp: serve_local_transfer_def r served_eq)
  from execute_ok [OF ok] obtain recipient p amount sig where
      p: "p \<in> set (pending_transfers (working s))" "pending_matches e sender payee tok p"
    and st: "storable (posted_local_transfer e sender payee recipient p amount sig (working s))"
    and c: "both (same_but_audit (posted_local_transfer e sender payee recipient p amount sig (working s))) t'"
    by blast
  have "pending_transfers (committed t') = pending_transfers (posted_local_transfer e sender payee recipient p amount sig (working s))"
    using c by (intro same_but_auditD) (simp add: both_def)
  with posted_token_spent [OF p(1) st] have "token_spent (pt_token p) (committed t')"
    by (simp add: token_spent_def)
  then show "both (token_spent (local_request_key r)) t"
    using p(2) by (simp add: t both_def local_request_key_def r pending_matches_def)
next
  fix k s and r :: local_request
  assume "both (token_spent k) s"
  then show "both (token_spent k) (snd (serve_local_transfer r s))"
    by (auto simp: serve_local_transfer_def case_prod_beta
        intro!: preservesD preserves_rules execute_local_transfer_survives survives_token_spent)
next
  fix s and r :: local_request
  obtain e sender payee tok where r: "r = (e, sender, payee, tok)" by (cases r) auto
  assume spent: "both (token_spent (local_request_key r)) s"
  show "isl (fst (serve_local_transfer r s))"
  proof (cases "execute_local_transfer e sender payee tok s")
    case (Pair x t)
    have False if "x = Inr ref" for ref
      using execute_ok [of e sender payee tok s ref t] Pair that spent
      by (auto simp: r both_def local_request_key_def token_spent_def pending_matches_def image_iff)
    with Pair show ?thesis by (cases x) (auto simp: serve_local_transfer_def r served_def)
  qed
qed

subsection \<open>Properties\<close>

text \<open>
  C3. What a completed local transfer has done and why it was allowed. If \<^verbatim>\<open>execute_local_transfer\<close> returns,
  the sender was not frozen, owned a payee past its cooldown, and held an unexpired, unconsumed
  confirmation for it; the amount is that of the confirmation, a whole number of cents in the allowed
  range, covered by the locked balance and by what is left of the daily limit; the recipient is another,
  active or locked account with the payee's number. The committed database is then exactly the one in which
  the confirmation is consumed, the two balances are moved by the amount and one signed ledger row is added,
  up to audit events.
\<close>

theorem local_transfer_success:
  assumes "execute_local_transfer e sender payee tok s = (Inr ref, t)"
  shows "ref = new_uuid e \<and> \<not> u_is_frozen sender \<and> u_security_locked_at sender = None \<and> pe_user_id payee = u_id sender
    \<and> seconds (cfg_payee_cooldown_seconds (cfg e)) \<le> now e - pe_created_at payee
    \<and> (\<exists>recipient p amount u v sig.
        recipient \<in> set (users (working s)) \<and> u_account_number recipient = Some (pe_account_number payee)
      \<and> u_id recipient \<noteq> u_id sender \<and> u_account_status recipient \<in> {''active'', ''locked''}
      \<and> p \<in> set (pending_transfers (working s)) \<and> pending_matches e sender payee tok p \<and> now e \<le> pt_expires_at p
      \<and> pt_amount p = 1000 * amount \<and> min_transaction_amount \<le> amount \<and> amount \<le> max_transaction_amount
      \<and> user_by_id (working s) (u_id sender) = Some u \<and> user_by_id (working s) (u_id recipient) = Some v
      \<and> amount \<le> u_balance u
      \<and> local_transfer_amount_used_today e (u_id sender) (working s) + amount \<le> u_local_transfer_daily_limit u
      \<and> sign_transaction_integrity e ref (u_id sender) (u_id recipient) (Some (pe_id payee)) amount
          (take 128 (pt_reference p)) ''completed'' ''local_transfer'' (now e) = Inr sig
      \<and> storable (posted_local_transfer e sender payee recipient p amount sig (working s))
      \<and> both (same_but_audit (posted_local_transfer e sender payee recipient p amount sig (working s))) t)"
  using assms by (rule execute_ok)

theorem local_transfer_success_witness:
  "\<exists>t u. execute_local_transfer sample_env alice sample_payee ''tok'' sample_bank = (Inr (new_uuid sample_env), t)
     \<and> user_by_id (working sample_bank) (u_id alice) = Some u"
  using sample_transfer_completes local_transfer_success by blast

text \<open>
  C4. A local transfer is all or nothing: whenever \<^verbatim>\<open>execute_local_transfer\<close> raises, for whatever reason (a
  failed guard, a keyring that cannot sign, a failed durable audit, a refused commit), every account, every
  ledger row and every credit is as it was, in the committed database and in the session. The request starts
  with a clean session.
\<close>

theorem local_transfer_all_or_nothing:
  assumes "execute_local_transfer e sender payee tok (fresh_world db) = (Inl err, t)"
  shows "ledger_part (committed t) = ledger_part db \<and> ledger_part (working t) = ledger_part db"
proof -
  have "triple (both (\<lambda>d. ledger_part d = ledger_part db)) (execute_local_transfer e sender payee tok) (\<lambda>_ _. True)
      (both (\<lambda>d. ledger_part d = ledger_part db))"
    by (rule execute_error_triple) (simp_all add: keeps_auditI ledger_part_def)
  from tripleD_err [OF this _ assms] show ?thesis by (simp add: both_def fresh_world_def)
qed

lemma sample_frozen_fails:
  "\<exists>t. execute_local_transfer sample_env (alice\<lparr>u_is_frozen := True\<rparr>) sample_payee ''tok'' (fresh_world db) =
     (Inl (FrozenAccountError ''Account is frozen; outbound transfers is blocked'' 403), t)"
proof -
  obtain t where "audit_banking_action sample_env ''outbound_transfer'' ''blocked'' (Some 1) [(''reason'', JStr ''account_frozen'')]
      None None None False (fresh_world db) = (Inr (), t)"
    by (cases rule: audit_event_cases [where e = sample_env and t = "''banking_outbound_transfer''" and out = "''blocked''"
          and uid = "Some 1" and md = "dict_of [(''action'', JStr ''outbound_transfer''), (''reason'', JStr ''account_frozen'')]"
          and sid = None and s = "fresh_world db"])
       (auto simp: audit_banking_action_def audit_ref_field_def Let_def)
  then show ?thesis
    by (simp add: execute_local_transfer_def ensure_outbound_transfer_allowed_def ensure_banking_action_allowed_def
        ensure_account_not_frozen_def try_catch_def alice_def sample_user_def or_default_def)
qed

theorem local_transfer_all_or_nothing_witness:
  "\<exists>t. ledger_part (committed (t :: world)) = ledger_part (committed sample_bank)
     \<and> execute_local_transfer sample_env (alice\<lparr>u_is_frozen := True\<rparr>) sample_payee ''tok'' (fresh_world (committed sample_bank)) =
     (Inl (FrozenAccountError ''Account is frozen; outbound transfers is blocked'' 403), t)"
  using sample_frozen_fails local_transfer_all_or_nothing by blast

text \<open>
  C2. Money is conserved and the books stay balanced. Whatever a local transfer request does, in the
  committed database and in the session: the sum of all balances is unchanged, no balance becomes
  negative, and every balance equals the user's credits plus what the ledger rows say was received minus
  what was sent.
\<close>

theorem local_transfer_keeps_books:
  "preserves (both (total_is T)) (execute_local_transfer e sender payee tok)
   \<and> preserves (both solvent) (execute_local_transfer e sender payee tok)
   \<and> preserves (both ledger_ok) (execute_local_transfer e sender payee tok)"
  by (intro conjI execute_local_transfer_survives survives_total survives_solvent survives_ledger_ok)

text \<open>
  C4. A confirmation token pays at most once: in any sequence of local transfer requests, by any senders, in
  any environments, at most one request whose token has a given verifier returns.
\<close>

theorem local_confirmation_single_use:
  "successes local_request_key k rs (fst (run_all serve_local_transfer rs s)) \<le> 1"
  by (rule local_single_use.at_most_one_success)

text \<open>
  C6. A transfer that is allowed goes through: when every guard of \<^verbatim>\<open>execute_local_transfer\<close> is met, the audit
  log can be written and the resulting database satisfies the constraints, the call returns the new
  transaction reference. No notification problem can prevent it.
\<close>

theorem local_transfer_completes:
  assumes "audit_ready e" and "\<not> u_is_frozen sender" and "u_security_locked_at sender = None"
    and "pe_user_id payee = u_id sender"
    and "find (\<lambda>u. u_account_number u = Some (pe_account_number payee)) (users (working s)) = Some recipient"
    and "u_id recipient \<noteq> u_id sender" and "u_account_status recipient \<in> {''active'', ''locked''}"
    and "seconds (cfg_payee_cooldown_seconds (cfg e)) \<le> now e - pe_created_at payee"
    and "find (pending_matches e sender payee tok) (pending_transfers (working s)) = Some p" and "now e \<le> pt_expires_at p"
    and "pt_amount p = 1000 * amount" and "min_transaction_amount \<le> amount" and "amount \<le> max_transaction_amount"
    and "user_by_id (working s) (u_id sender) = Some u" and "user_by_id (working s) (u_id recipient) = Some v"
    and "amount \<le> u_balance u"
    and "local_transfer_amount_used_today e (u_id sender) (working s) + amount \<le> u_local_transfer_daily_limit u"
    and "sign_transaction_integrity e (new_uuid e) (u_id sender) (u_id recipient) (Some (pe_id payee)) amount
          (take 128 (pt_reference p)) ''completed'' ''local_transfer'' (now e) = Inr sig"
    and "storable (posted_local_transfer e sender payee recipient p amount sig (working s))"
  shows "\<exists>t. execute_local_transfer e sender payee tok s = (Inr (new_uuid e), t)"
  using assms by (rule execute_completes)

theorem local_transfer_completes_witness:
  "\<exists>t. execute_local_transfer sample_env alice sample_payee ''tok'' sample_bank = (Inr (new_uuid sample_env), t)"
proof -
  obtain h k where sig: "sign_transaction_integrity sample_env (new_uuid sample_env) (u_id alice) (u_id bob)
      (Some (pe_id sample_payee)) 2500 (take 128 (pt_reference sample_pending)) ''completed'' ''local_transfer''
      (now sample_env) = Inr (h, k, ''hmac-sha256'', 1)"
    using sample_signature by blast
  show ?thesis
  proof (rule local_transfer_completes [OF audit_ready_sample, where recipient = bob and p = sample_pending and amount = 2500
        and u = alice and v = bob and sig = "(h, k, ''hmac-sha256'', 1)"])
    show "storable (posted_local_transfer sample_env alice sample_payee bob sample_pending 2500 (h, k, ''hmac-sha256'', 1)
        (working sample_bank))"
      by code_simp
  qed (rule sig | code_simp)+
qed

end
