(* ===== verification/Session_Payload.thy ===== *)
theory Session_Payload
  imports Request
begin

section \<open>Signed session payloads\<close>

text \<open>
  The envelope of \<^verbatim>\<open>app/security/session_hmac.py\<close> in which a browser session is stored: a versioned JSON
  object with the key id, the encoded payload and a signature over the context, the key id and the
  payload. The theory proves the round trip across key rotation and that a verified envelope is bound to
  its context and payload.
\<close>

definition payload_format_version :: int where "payload_format_version = 2"

definition ring_lookup :: "env \<Rightarrow> string \<Rightarrow> string option" where
  "ring_lookup e key_id = map_of (cfg_session_keys (cfg e)) key_id"

definition signing_input :: "string \<Rightarrow> string \<Rightarrow> string \<Rightarrow> string" where
  "signing_input key_id encoded_payload binding_context = json_dumps (JObj
     [(''ctx'', JStr binding_context), (''kid'', JStr key_id), (''payload'', JStr encoded_payload),
      (''v'', JInt payload_format_version)])"

definition payload_signature :: "env \<Rightarrow> string \<Rightarrow> string \<Rightarrow> string \<Rightarrow> py_error + string" where
  "payload_signature e key_id encoded_payload binding_context =
     (case ring_lookup e key_id of None \<Rightarrow> Inl KeyError
      | Some key \<Rightarrow> Inr (hmac_sha256 e key (signing_input key_id encoded_payload binding_context)))"

definition binding_context :: "string \<Rightarrow> py_error + string" where
  "binding_context ctx = (if ctx = [] then Inl (SessionPayloadIntegrityError ''missing_binding_context'') else Inr ctx)"

definition payload_envelope :: "string \<Rightarrow> string \<Rightarrow> string \<Rightarrow> json" where
  "payload_envelope key_id encoded_payload signature = JObj
     [(''kid'', JStr key_id), (''payload'', JStr encoded_payload), (''sig'', JStr signature),
      (''v'', JInt payload_format_version)]"

definition sign_session_payload :: "env \<Rightarrow> string \<Rightarrow> string \<Rightarrow> py_error + string" where
  "sign_session_payload e payload ctx =
     (case binding_context ctx of Inl err \<Rightarrow> Inl err
      | Inr context \<Rightarrow>
          let key_id = cfg_session_active_key_id (cfg e); encoded = b64_encode e payload in
          (case payload_signature e key_id encoded context of Inl err \<Rightarrow> Inl err
           | Inr signature \<Rightarrow> Inr (json_dumps (payload_envelope key_id encoded signature))))"

text \<open>\<^verbatim>\<open>dict.get\<close>: an absent key gives \<open>None\<close>.\<close>

definition jget :: "(string \<times> json) list \<Rightarrow> string \<Rightarrow> json" where
  "jget kvs k = (case map_of kvs k of None \<Rightarrow> JNull | Some v \<Rightarrow> v)"

definition integrity_error :: "string \<Rightarrow> py_error + 'a" where
  "integrity_error reason = Inl (SessionPayloadIntegrityError reason)"

definition verify_session_payload :: "env \<Rightarrow> string \<Rightarrow> string \<Rightarrow> py_error + string" where
  "verify_session_payload e envelope_bytes ctx =
     (case binding_context ctx of Inl err \<Rightarrow> Inl err
      | Inr context \<Rightarrow>
     (case json_loads e envelope_bytes of
        Some (JObj envelope) \<Rightarrow>
          if jget envelope ''v'' \<noteq> JInt payload_format_version then integrity_error ''stale_or_unsupported_format''
          else (case (jget envelope ''kid'', jget envelope ''payload'') of
              (JStr key_id, JStr encoded_payload) \<Rightarrow>
                (case jget envelope ''sig'' of
                   JStr signature \<Rightarrow>
                     if signature = [] then integrity_error ''missing_signature''
                     else (case payload_signature e key_id encoded_payload context of
                         Inl _ \<Rightarrow> integrity_error ''unknown_key_id''
                       | Inr expected \<Rightarrow>
                           if signature \<noteq> expected then integrity_error ''invalid_signature''
                           else (case b64_decode e encoded_payload of
                               None \<Rightarrow> integrity_error ''malformed_payload''
                             | Some payload \<Rightarrow> Inr payload))
                 | _ \<Rightarrow> integrity_error ''missing_signature'')
            | _ \<Rightarrow> integrity_error ''malformed_payload'')
      | _ \<Rightarrow> integrity_error ''unsupported_format''))"

subsection \<open>What a verified envelope says\<close>

lemma verified_envelope:
  assumes "verify_session_payload e env ctx = Inr payload"
  obtains kvs key_id encoded signature key where
    "json_loads e env = Some (JObj kvs)" "jget kvs ''v'' = JInt payload_format_version" "jget kvs ''kid'' = JStr key_id"
    "jget kvs ''payload'' = JStr encoded" "jget kvs ''sig'' = JStr signature" "ring_lookup e key_id = Some key" "ctx \<noteq> []"
    "signature = hmac_sha256 e key (signing_input key_id encoded ctx)" "b64_decode e encoded = Some payload"
  using assms
  by (auto simp: verify_session_payload_def binding_context_def payload_signature_def integrity_error_def
      split: if_splits option.splits json.splits)

lemma signing_input_inject:
  "signing_input k p c = signing_input k' p' c' \<longleftrightarrow> k = k' \<and> p = p' \<and> c = c'"
  unfolding signing_input_def by (auto dest!: json_dumps_obj_inject)

lemma payload_envelope_fields:
  "payload_envelope k p s = JObj [(''kid'', JStr k), (''payload'', JStr p), (''sig'', JStr s), (''v'', JInt payload_format_version)]"
  by (rule payload_envelope_def)

text \<open>
  A stored session cannot be moved or altered: if two envelopes with the same key id and signature
  verify, in whatever contexts (component and lookup hash of their rows), then context and payload are
  the same, unless the signing inputs of these two envelopes have one HMAC under the key they name.
\<close>

theorem session_payload_bound:
  assumes "verify_session_payload e env ctx = Inr payload" and "verify_session_payload e env' ctx' = Inr payload'"
    and "json_loads e env = Some (JObj kvs)" and "json_loads e env' = Some (JObj kvs')"
    and "jget kvs ''kid'' = jget kvs' ''kid''" and "jget kvs ''sig'' = jget kvs' ''sig''"
  shows "\<exists>k p p' key. jget kvs ''kid'' = JStr k \<and> jget kvs ''payload'' = JStr p \<and> jget kvs' ''payload'' = JStr p'
    \<and> ring_lookup e k = Some key
    \<and> ((ctx = ctx' \<and> payload = payload') \<or> hmac_clash e key (signing_input k p ctx) (signing_input k p' ctx'))"
proof -
  from assms(1,3) obtain k p s key where 1: "jget kvs ''kid'' = JStr k" "jget kvs ''sig'' = JStr s" "jget kvs ''payload'' = JStr p"
      "ring_lookup e k = Some key" "s = hmac_sha256 e key (signing_input k p ctx)" "b64_decode e p = Some payload"
    by (elim verified_envelope) auto
  from assms(2,4) obtain k' p' s' key' where 2: "jget kvs' ''kid'' = JStr k'" "jget kvs' ''sig'' = JStr s'"
      "jget kvs' ''payload'' = JStr p'" "ring_lookup e k' = Some key'"
      "s' = hmac_sha256 e key' (signing_input k' p' ctx')" "b64_decode e p' = Some payload'"
    by (elim verified_envelope) auto
  have eq: "k = k'" "s = s'" "key = key'" using 1 2 assms(5,6) by auto
  then have "(p = p' \<and> ctx = ctx') \<or> hmac_clash e key (signing_input k p ctx) (signing_input k p' ctx')"
    using 1(5) 2(5) by (simp add: hmac_clash_def signing_input_inject)
  then show ?thesis using 1 2 eq by auto
qed

lemma sign_verify:
  assumes "sign_session_payload e payload ctx = Inr env"
    and "json_loads e' env = Some (payload_envelope (cfg_session_active_key_id (cfg e)) (b64_encode e payload)
      (hmac_sha256 e (the (ring_lookup e (cfg_session_active_key_id (cfg e))))
        (signing_input (cfg_session_active_key_id (cfg e)) (b64_encode e payload) ctx)))"
    and "b64_decode e' (b64_encode e payload) = Some payload"
    and "hmac_sha256 e' = hmac_sha256 e" and "\<And>k m. hmac_sha256 e k m \<noteq> []"
    and "ring_lookup e' (cfg_session_active_key_id (cfg e)) = ring_lookup e (cfg_session_active_key_id (cfg e))"
  shows "verify_session_payload e' env ctx = Inr payload"
proof -
  from assms(1) obtain key where "ctx \<noteq> []" "ring_lookup e (cfg_session_active_key_id (cfg e)) = Some key"
    by (auto simp: sign_session_payload_def binding_context_def payload_signature_def Let_def split: if_splits option.splits)
  with assms(2-6) show ?thesis
    by (simp add: verify_session_payload_def binding_context_def payload_envelope_def jget_def payload_signature_def)
qed

text \<open>
  C19. Signing and verifying a session payload round-trip, also after the active key is rotated: the
  envelope signed in one environment verifies in any other whose ring keeps the signing key. \<open>json_loads\<close>
  and base64 are assumed to invert the encoders on the values at hand, and a digest is not empty.
\<close>

theorem session_payload_roundtrip:
  assumes "sign_session_payload e payload ctx = Inr env"
    and "json_loads e' env = Some (payload_envelope (cfg_session_active_key_id (cfg e)) (b64_encode e payload)
      (hmac_sha256 e (the (ring_lookup e (cfg_session_active_key_id (cfg e))))
        (signing_input (cfg_session_active_key_id (cfg e)) (b64_encode e payload) ctx)))"
    and "b64_decode e' (b64_encode e payload) = Some payload"
    and "hmac_sha256 e' = hmac_sha256 e" and "\<And>k m. hmac_sha256 e k m \<noteq> []"
    and "ring_lookup e' (cfg_session_active_key_id (cfg e)) = ring_lookup e (cfg_session_active_key_id (cfg e))"
  shows "verify_session_payload e' env ctx = Inr payload"
  using assms by (rule sign_verify)

text \<open>A decoder for one envelope of the sample environment.\<close>

definition payload_env :: "string \<Rightarrow> string \<Rightarrow> env" where
  "payload_env payload ctx =
     (let j = payload_envelope ''s1'' payload (hmac_sha256 sample_env (replicate 32 (CHR ''S'')) (signing_input ''s1'' payload ctx))
      in sample_env\<lparr>json_loads := (\<lambda>t. if t = json_dumps j then Some j else None)\<rparr>)"

lemma payload_env_fields [simp]:
  "cfg (payload_env p c) = sample_cfg" "b64_encode (payload_env p c) = (\<lambda>x. x)" "b64_decode (payload_env p c) = Some"
  "hmac_sha256 (payload_env p c) = (\<lambda>k m. CHR ''h'' # k @ m)"
  by (simp_all add: payload_env_def sample_env_def Let_def)

lemma payload_env_sign:
  "c \<noteq> [] \<Longrightarrow> sign_session_payload (payload_env p c) p c = Inr (json_dumps (payload_envelope ''s1'' p
     (hmac_sha256 sample_env (replicate 32 (CHR ''S'')) (signing_input ''s1'' p c))))"
  by (simp add: sign_session_payload_def binding_context_def payload_signature_def ring_lookup_def sample_cfg_def
      Let_def sample_env_def)

lemma payload_env_loads:
  "json_loads (payload_env p c) (json_dumps (payload_envelope ''s1'' p
     (hmac_sha256 sample_env (replicate 32 (CHR ''S'')) (signing_input ''s1'' p c)))) =
   Some (payload_envelope ''s1'' p (hmac_sha256 sample_env (replicate 32 (CHR ''S'')) (signing_input ''s1'' p c)))"
  by (simp add: payload_env_def Let_def)

lemma payload_env_ring: "ring_lookup (payload_env p c) ''s1'' = Some (replicate 32 (CHR ''S''))"
  by (simp add: ring_lookup_def sample_cfg_def)

theorem session_payload_roundtrip_witness:
  "verify_session_payload (payload_env ''data'' ''ctx'')
     (json_dumps (payload_envelope ''s1'' ''data''
       (hmac_sha256 sample_env (replicate 32 (CHR ''S'')) (signing_input ''s1'' ''data'' ''ctx'')))) ''ctx'' = Inr ''data''"
  by (rule session_payload_roundtrip [OF payload_env_sign])
     (use payload_env_loads payload_env_ring in \<open>simp_all add: sample_cfg_def sample_env_def\<close>)

theorem session_payload_bound_witness:
  "verify_session_payload (payload_env ''data'' ''ctx'') (json_dumps (payload_envelope ''s1'' ''data''
       (hmac_sha256 sample_env (replicate 32 (CHR ''S'')) (signing_input ''s1'' ''data'' ''ctx'')))) ''other'' \<noteq> Inr ''data''"
proof
  let ?e = "payload_env ''data'' ''ctx''"
  let ?env = "json_dumps (payload_envelope ''s1'' ''data''
       (hmac_sha256 sample_env (replicate 32 (CHR ''S'')) (signing_input ''s1'' ''data'' ''ctx'')))"
  have v: "verify_session_payload ?e ?env ''ctx'' = Inr ''data''"
    by (rule sign_verify [OF payload_env_sign])
       (use payload_env_loads payload_env_ring in \<open>simp_all add: sample_cfg_def sample_env_def\<close>)
  obtain kvs where l: "json_loads ?e ?env = Some (JObj kvs)"
    using payload_env_loads by (auto simp: payload_envelope_def)
  assume "verify_session_payload ?e ?env ''other'' = Inr ''data''"
  from session_payload_bound [OF v this l l refl refl] show False by (auto simp: hmac_clash_def)
qed

end
