(* ===== verification/Web_Sessions.thy ===== *)
theory Web_Sessions
  imports Audit_Log Session_Payload "HOL-Library.Product_Lexorder"
begin

section \<open>Server-side sessions\<close>

text \<open>
  \<^verbatim>\<open>app/security/sessions.py\<close>: the table of server-side sessions, opening and saving the browser session of
  a request, rotation, revocation, the cap of one active session, the risk context of a session and the
  hook that runs before every request. The dictionary of the browser session is keyed as in the source.
  The list views for the profile page and the HTTP responses are not modelled: a response is the message
  the hook answers with. An IPv4 network is computed; an IPv6 one is a parameter.
\<close>

subsection \<open>The browser session\<close>

definition sess_get :: "web_session \<Rightarrow> string \<Rightarrow> json" where
  "sess_get w k = jget (ws_data w) k"

definition sess_set :: "string \<Rightarrow> json \<Rightarrow> web_session \<Rightarrow> web_session" where
  "sess_set k v w = w\<lparr>ws_data := dict_set k v (ws_data w), ws_modified := True\<rparr>"

definition sess_pop :: "string \<Rightarrow> web_session \<Rightarrow> web_session" where
  "sess_pop k w = (if k \<in> fst ` set (ws_data w)
     then w\<lparr>ws_data := filter (\<lambda>(k', _). k' \<noteq> k) (ws_data w), ws_modified := True\<rparr> else w)"

definition sess_clear :: "web_session \<Rightarrow> web_session" where
  "sess_clear w = w\<lparr>ws_data := [], ws_modified := True\<rparr>"

definition webA :: "(web_session \<Rightarrow> web_session) \<Rightarrow> unit request" where
  "webA f = modifyA (\<lambda>s. s\<lparr>web := f (web s)\<rparr>)"

definition readA :: "(web_session \<Rightarrow> 'a) \<Rightarrow> 'a request" where
  "readA f = getsA (\<lambda>s. f (web s))"

text \<open>Python's truth value, \<open>str\<close> and \<open>int\<close> of a JSON value; \<open>None\<close> stands for the exception of \<open>int\<close>.\<close>

fun py_truthy :: "json \<Rightarrow> bool" where
  "py_truthy JNull = False"
| "py_truthy (JBool b) = b"
| "py_truthy (JInt i) = (i \<noteq> 0)"
| "py_truthy (JStr s) = (s \<noteq> [])"
| "py_truthy (JArr xs) = (xs \<noteq> [])"
| "py_truthy (JObj kvs) = (kvs \<noteq> [])"

definition json_text :: "env \<Rightarrow> json \<Rightarrow> string" where
  "json_text e j = (case j of JStr s \<Rightarrow> s | JInt i \<Rightarrow> int_str i | JNull \<Rightarrow> ''None''
     | JBool b \<Rightarrow> if b then ''True'' else ''False'' | _ \<Rightarrow> py_str e j)"

fun single_underscores :: "string \<Rightarrow> bool" where
  "single_underscores [] = True"
| "single_underscores [c] = py_isdigit c"
| "single_underscores (c # d # s) =
     ((py_isdigit c \<or> c = CHR ''_'' \<and> py_isdigit d) \<and> single_underscores (d # s))"

definition py_int_str :: "string \<Rightarrow> int option" where
  "py_int_str s =
     (let t = py_strip s;
          neg = (t \<noteq> [] \<and> hd t = CHR ''-'');
          body = (if t \<noteq> [] \<and> hd t \<in> {CHR ''-'', CHR ''+''} then tl t else t)
      in if body = [] \<or> \<not> py_isdigit (hd body) \<or> \<not> single_underscores body then None
         else let n = int (digits_val (filter py_isdigit body)) in Some (if neg then - n else n))"

definition json_int :: "json \<Rightarrow> int option" where
  "json_int j = (case j of JInt i \<Rightarrow> Some i | JBool b \<Rightarrow> Some (of_bool b) | JStr s \<Rightarrow> py_int_str s | _ \<Rightarrow> None)"

definition json_or :: "json \<Rightarrow> json \<Rightarrow> json" where
  "json_or a b = (if py_truthy a then a else b)"

text \<open>\<open>_now\<close>: whole seconds.\<close>

definition now_s :: "env \<Rightarrow> int" where "now_s e = now e div second_us"

definition new_session_id :: "env \<Rightarrow> string" where "new_session_id e = random_text e 1"

definition current_session_id :: "env \<Rightarrow> web_session \<Rightarrow> string option" where
  "current_session_id e w = (if has_request e then Some (ws_sid w) else None)"

definition has_session_id :: "env \<Rightarrow> web_session \<Rightarrow> bool" where
  "has_session_id e w \<longleftrightarrow> current_session_id e w \<notin> {None, Some []}"

subsection \<open>Lookup\<close>

definition session_lookup_hash :: "env \<Rightarrow> string \<Rightarrow> string" where
  "session_lookup_hash e session_id = hmac_sha256 e (cfg_session_lookup_hmac_key (cfg e)) session_id"

definition public_reference_from_lookup_hash :: "env \<Rightarrow> string \<Rightarrow> string" where
  "public_reference_from_lookup_hash e lookup_hash = active_hmac_hex e (''session-reference:'' @ lookup_hash) 32"

definition public_session_reference :: "env \<Rightarrow> string option \<Rightarrow> string" where
  "public_session_reference e session_id = (case session_id of None \<Rightarrow> []
     | Some sid \<Rightarrow> if sid = [] then [] else public_reference_from_lookup_hash e (session_lookup_hash e sid))"

definition session_component :: "env \<Rightarrow> string" where
  "session_component e = (if cfg_app_mode (cfg e) = [] then ''customer'' else cfg_app_mode (cfg e))"

definition payload_binding_context :: "env \<Rightarrow> string \<Rightarrow> string" where
  "payload_binding_context e lookup_hash = ''db-session:'' @ session_component e @ '':'' @ lookup_hash"

text \<open>Revoked and ended rows come first, then the newest.\<close>

definition session_record_for_lookup_hash :: "env \<Rightarrow> string \<Rightarrow> database \<Rightarrow> server_session option" where
  "session_record_for_lookup_hash e lookup_hash db =
     (case sort_key (\<lambda>r. (ss_revoked_at r = None, ss_ended_at r = None, - ss_id r))
        (filter (\<lambda>r. ss_component r = session_component e \<and> ss_lookup_hash r = lookup_hash) (server_sessions db)) of
        [] \<Rightarrow> None | r # _ \<Rightarrow> Some r)"

definition session_record_for_sid :: "env \<Rightarrow> string \<Rightarrow> database \<Rightarrow> server_session option" where
  "session_record_for_sid e sid db = session_record_for_lookup_hash e (session_lookup_hash e sid) db"

definition session_expires_at :: "env \<Rightarrow> time" where
  "session_expires_at e = now e + seconds (cfg_session_inactivity_seconds (cfg e))"

definition session_end_reasons :: "string list" where
  "session_end_reasons = [''logout'', ''terminated'', ''revoked'', ''expired'', ''absolute_lifetime'', ''risk_change'', ''rotated'',
     ''integrity_failure'', ''session_cap'', ''password_change'', ''password_reset'', ''manual_recovery'', ''security_unlock'', ''ended'']"

definition normalize_session_end_reason :: "string \<Rightarrow> string" where
  "normalize_session_end_reason value = (if value \<in> set session_end_reasons then value else ''ended'')"

definition session_user_id :: "web_session \<Rightarrow> int option" where
  "session_user_id w = (let v = json_or (sess_get w ''user_id'') (sess_get w ''pending_mfa_user_id'') in
     if \<not> py_truthy v then None else json_int v)"

text \<open>The lookup hash of the session of the request, empty when there is none.\<close>

definition current_lookup_hash :: "env \<Rightarrow> web_session \<Rightarrow> string" where
  "current_lookup_hash e w = (if has_session_id e w then session_lookup_hash e (ws_sid w) else [])"

subsection \<open>Ending sessions\<close>

definition end_session_record :: "env \<Rightarrow> string \<Rightarrow> server_session \<Rightarrow> server_session" where
  "end_session_record e ended_reason r =
     (if ss_ended_at r \<noteq> None then r
      else r\<lparr>ss_session_ref := (if ss_session_ref r \<in> {None, Some []}
               then Some (public_reference_from_lookup_hash e (ss_lookup_hash r)) else ss_session_ref r),
             ss_payload := None, ss_revoked_at := Some (now e), ss_ended_at := Some (now e),
             ss_ended_reason := Some (normalize_session_end_reason ended_reason)\<rparr>)"

definition update_session_where :: "(server_session \<Rightarrow> bool) \<Rightarrow> (server_session \<Rightarrow> server_session) \<Rightarrow> database \<Rightarrow> database" where
  "update_session_where p f db = db\<lparr>server_sessions := upd_where p f (server_sessions db)\<rparr>"

definition end_session_rows :: "env \<Rightarrow> string \<Rightarrow> int list \<Rightarrow> database \<Rightarrow> database" where
  "end_session_rows e reason ids = update_session_where (\<lambda>r. ss_id r \<in> set ids) (end_session_record e reason)"

definition end_session_id :: "env \<Rightarrow> string \<Rightarrow> string \<Rightarrow> unit request" where
  "end_session_id e session_id ended_reason =
     bindA (queryA (session_record_for_sid e session_id)) (\<lambda>found.
     case found of None \<Rightarrow> ret () | Some r \<Rightarrow> updateA (end_session_rows e ended_reason [ss_id r]))"

definition expire_stale_sessions :: "env \<Rightarrow> int \<Rightarrow> database \<Rightarrow> database" where
  "expire_stale_sessions e uid = update_session_where
     (\<lambda>r. ss_component r = session_component e \<and> ss_user_id r = Some uid \<and> ss_revoked_at r = None \<and> ss_ended_at r = None
        \<and> ss_expires_at r \<le> now e)
     (end_session_record e ''expired'')"

definition active_session :: "env \<Rightarrow> int \<Rightarrow> string \<Rightarrow> server_session \<Rightarrow> bool" where
  "active_session e uid component r \<longleftrightarrow>
     ss_component r = component \<and> ss_user_id r = Some uid \<and> ss_revoked_at r = None \<and> ss_ended_at r = None
     \<and> now e < ss_expires_at r \<and> ss_payload r \<noteq> None"

definition active_session_records :: "env \<Rightarrow> int \<Rightarrow> string option \<Rightarrow> server_session list request" where
  "active_session_records e uid component =
     (let comp = (case component of None \<Rightarrow> session_component e | Some c \<Rightarrow> if c = [] then session_component e else c) in
      bindA (queryA (\<lambda>db. sort_key (\<lambda>r. (- ss_created_at r, - ss_id r)) (filter (active_session e uid comp) (server_sessions db))))
        (\<lambda>records. bindA (updateA (expire_stale_sessions e uid)) (\<lambda>_. ret records)))"

definition session_row_from_identifier :: "env \<Rightarrow> string \<Rightarrow> database \<Rightarrow> server_session option" where
  "session_row_from_identifier e ident =
     session_record_for_lookup_hash e
       (if take 7 ident = ''lookup:'' then drop 7 ident else session_lookup_hash e ident)"

definition revoke_session :: "env \<Rightarrow> string \<Rightarrow> int option \<Rightarrow> string \<Rightarrow> unit request" where
  "revoke_session e ident user_id ended_reason =
     bindA (queryA (session_row_from_identifier e ident)) (\<lambda>found.
     case found of None \<Rightarrow> ret ()
     | Some r \<Rightarrow>
         if user_id \<noteq> None \<and> ss_user_id r \<noteq> None \<and> ss_user_id r \<noteq> user_id then ret ()
         else updateA (end_session_rows e ended_reason [ss_id r]))"

definition revoke_current_session :: "env \<Rightarrow> string \<Rightarrow> unit request" where
  "revoke_current_session e ended_reason =
     bindA (readA id) (\<lambda>w.
     bindA (if \<not> has_session_id e w then ret ()
       else if py_truthy (json_or (sess_get w ''user_id'') (sess_get w ''pending_mfa_user_id''))
         \<and> json_int (json_or (sess_get w ''user_id'') (sess_get w ''pending_mfa_user_id'')) = None then raise (ValueError [])
       else revoke_session e (ws_sid w) (session_user_id w) ended_reason) (\<lambda>_.
     webA sess_clear))"

definition revoke_other_sessions :: "env \<Rightarrow> int \<Rightarrow> string \<Rightarrow> int request" where
  "revoke_other_sessions e uid ended_reason =
     bindA (readA id) (\<lambda>w.
     bindA (active_session_records e uid None) (\<lambda>records.
     let others = filter (\<lambda>r. ss_lookup_hash r \<noteq> current_lookup_hash e w) records in
     bindA (updateA (end_session_rows e ended_reason (map ss_id others))) (\<lambda>_.
     ret (int (length others)))))"

definition revoke_all_sessions :: "env \<Rightarrow> int \<Rightarrow> string \<Rightarrow> string option \<Rightarrow> int request" where
  "revoke_all_sessions e uid ended_reason component =
     bindA (active_session_records e uid component) (\<lambda>records.
     bindA (updateA (end_session_rows e ended_reason (map ss_id records))) (\<lambda>_.
     ret (int (length records))))"

text \<open>
  \<open>enforce_active_session_cap\<close>: \<open>_configured_active_session_cap\<close> always gives one, so the first record in
  the order (the current session first, then by age) is kept.
\<close>

definition configured_active_session_cap :: nat where "configured_active_session_cap = 1"

definition cap_candidates :: "env \<Rightarrow> int \<Rightarrow> web_session \<Rightarrow> server_session list \<Rightarrow> database \<Rightarrow> server_session list" where
  "cap_candidates e uid w records db =
     (let current = (if has_session_id e w then session_record_for_sid e (ws_sid w) db else None);
          records = (case current of None \<Rightarrow> records
            | Some r \<Rightarrow> if ss_user_id r = Some uid \<and> ss_revoked_at r = None \<and> ss_ended_at r = None \<and> ss_id r \<notin> set (map ss_id records)
                        then records @ [r] else records)
      in sort_key (\<lambda>r. (ss_lookup_hash r \<noteq> current_lookup_hash e w, ss_created_at r, ss_id r)) records)"

definition enforce_active_session_cap :: "env \<Rightarrow> int \<Rightarrow> int request" where
  "enforce_active_session_cap e uid =
     bindA (readA id) (\<lambda>w.
     bindA (active_session_records e uid None) (\<lambda>records.
     bindA (queryA (cap_candidates e uid w records)) (\<lambda>ordered.
     let doomed = drop configured_active_session_cap ordered in
     bindA (updateA (end_session_rows e ''session_cap'' (map ss_id doomed))) (\<lambda>_.
     bindA (condA (doomed \<noteq> []) commitA) (\<lambda>_.
     ret (int (length doomed)))))))"

text \<open>\<open>_commit_quietly\<close>: a constraint violation rolls back silently, any other error rolls back and is raised.\<close>

definition commit_quietly :: "unit request" where
  "commit_quietly = try_catch commitA (\<lambda>err. bindA rollbackA (\<lambda>_. if err = IntegrityError then ret () else raise err))"

subsection \<open>Opening and saving\<close>

definition activity_exempt :: "env \<Rightarrow> bool" where
  "activity_exempt e \<longleftrightarrow> has_request e \<and> (req_endpoint e = ''auth.session_status'' \<or> req_path e = ''/auth/session/status'')"

definition fresh_session :: "env \<Rightarrow> web_session" where
  "fresh_session e = \<lparr>ws_sid = new_session_id e, ws_data = [], ws_modified = False\<rparr>"

definition handle_integrity_failure :: "env \<Rightarrow> server_session \<Rightarrow> string \<Rightarrow> unit request" where
  "handle_integrity_failure e r reason =
     (let store_ref = active_hmac_hex e (''session-store:'' @ ss_lookup_hash r) 16 in
      bindA (updateA (end_session_rows e ''integrity_failure'' [ss_id r])) (\<lambda>_.
      audit_event e ''session_integrity'' ''failure'' None [(''reason'', JStr reason), (''store_ref'', JStr store_ref)] (Some store_ref)))"

text \<open>The data of a stored row, or the reason it cannot be used.\<close>

definition stored_session_data :: "env \<Rightarrow> server_session \<Rightarrow> string \<Rightarrow> string + (string \<times> json) list" where
  "stored_session_data e r payload =
     (case verify_session_payload e payload (payload_binding_context e (ss_lookup_hash r)) of
        Inl (SessionPayloadIntegrityError reason) \<Rightarrow> Inl reason
      | Inl _ \<Rightarrow> Inl ''malformed_payload''
      | Inr bytes \<Rightarrow> (case session_loads e bytes of Some (JObj kvs) \<Rightarrow> Inr kvs | _ \<Rightarrow> Inl ''malformed_payload''))"

text \<open>
  What \<open>open_session\<close> does with the row it found. \<open>expires_at\<close> is never absent in the table, so the branch
  \<^verbatim>\<open>missing_expires_at\<close> has no counterpart.
\<close>

definition end_and_start_over :: "env \<Rightarrow> server_session \<Rightarrow> string \<Rightarrow> unit request" where
  "end_and_start_over e r reason =
     bindA (updateA (end_session_rows e reason [ss_id r])) (\<lambda>_.
     bindA commit_quietly (\<lambda>_.
     webA (\<lambda>_. fresh_session e)))"

definition resume_session :: "env \<Rightarrow> string \<Rightarrow> server_session option \<Rightarrow> unit request" where
  "resume_session e sid found =
     (case found of
        None \<Rightarrow> webA (\<lambda>_. fresh_session e)
      | Some r \<Rightarrow>
          if ss_revoked_at r \<noteq> None then webA (\<lambda>_. fresh_session e)
          else if ss_expires_at r \<le> now e then end_and_start_over e r ''expired''
          else (case ss_payload r of
              None \<Rightarrow> end_and_start_over e r ''ended''
            | Some payload \<Rightarrow>
                if payload = [] then end_and_start_over e r ''ended''
                else (case stored_session_data e r payload of
                    Inl reason \<Rightarrow> bindA (handle_integrity_failure e r reason) (\<lambda>_. webA (\<lambda>_. fresh_session e))
                  | Inr data \<Rightarrow>
                      bindA (condA (\<not> activity_exempt e)
                        (updateA (update_session_where (\<lambda>q. ss_id q = ss_id r) (\<lambda>q. q\<lparr>ss_last_activity_at := now e\<rparr>)))) (\<lambda>_.
                      webA (\<lambda>_. \<lparr>ws_sid = sid, ws_data = data, ws_modified = False\<rparr>)))))"

definition open_session :: "env \<Rightarrow> string option \<Rightarrow> unit request" where
  "open_session e cookie =
     (case cookie of
        None \<Rightarrow> webA (\<lambda>_. fresh_session e)
      | Some sid \<Rightarrow>
          if sid = [] then webA (\<lambda>_. fresh_session e)
          else bindA (queryA (session_record_for_sid e sid)) (resume_session e sid))"

definition text_or :: "string \<Rightarrow> string \<Rightarrow> string" where
  "text_or a b = (if a = [] then b else a)"

text \<open>The assignments of \<open>save_session\<close> to the row of the session.\<close>

definition saved_record :: "env \<Rightarrow> web_session \<Rightarrow> string \<Rightarrow> server_session \<Rightarrow> server_session" where
  "saved_record e w signed_payload r =
     r\<lparr>ss_payload := Some signed_payload, ss_payload_format := ''session-hmac-v2'',
       ss_session_ref := Some (public_reference_from_lookup_hash e (session_lookup_hash e (ws_sid w))),
       ss_user_id := session_user_id w,
       ss_last_activity_at := (if activity_exempt e then ss_last_activity_at r else now e),
       ss_expires_at := (if activity_exempt e then ss_expires_at r else session_expires_at e),
       ss_revoked_at := None, ss_ended_at := None, ss_ended_reason := None,
       ss_ip_address := text_or (req_remote_addr e) (ss_ip_address r),
       ss_user_agent := text_or (take 256 (req_user_agent e)) (text_or (ss_user_agent r) ''unknown''),
       ss_risk_fingerprint := (if py_truthy (sess_get w ''risk_fingerprint'') then json_text e (sess_get w ''risk_fingerprint'') else [])\<rparr>"

definition blank_record :: "env \<Rightarrow> string \<Rightarrow> database \<Rightarrow> server_session" where
  "blank_record e lookup_hash db =
     \<lparr>ss_id = next_id (map ss_id (server_sessions db)), ss_component = session_component e, ss_lookup_hash = lookup_hash,
      ss_session_ref = None, ss_payload = None, ss_payload_format = [], ss_user_id = None, ss_created_at = now e,
      ss_last_activity_at = now e, ss_expires_at = session_expires_at e, ss_revoked_at = None, ss_ended_at = None,
      ss_ended_reason = None, ss_ip_address = [], ss_user_agent = [], ss_risk_fingerprint = []\<rparr>"

text \<open>The row with a lookup hash, changed by \<open>f\<close>; a blank row is added first when there is none.\<close>

definition upsert_session :: "env \<Rightarrow> string \<Rightarrow> (server_session \<Rightarrow> server_session) \<Rightarrow> database \<Rightarrow> database" where
  "upsert_session e lookup_hash f db =
     (case session_record_for_lookup_hash e lookup_hash db of
        Some r \<Rightarrow> update_session_where (\<lambda>q. ss_id q = ss_id r) f db
      | None \<Rightarrow> db\<lparr>server_sessions := server_sessions db @ [f (blank_record e lookup_hash db)]\<rparr>)"

definition save_session :: "env \<Rightarrow> unit request" where
  "save_session e =
     bindA (readA id) (\<lambda>w.
     if ws_data w = [] then
       condA (ws_modified w) (bindA (end_session_id e (ws_sid w) ''ended'') (\<lambda>_. commit_quietly))
     else
       (let lookup_hash = session_lookup_hash e (ws_sid w);
            data = dict_set ''_permanent'' (JBool True) (ws_data w) in
        case sign_session_payload e (session_dumps e data) (payload_binding_context e lookup_hash) of
          Inl err \<Rightarrow> raise err
        | Inr signed \<Rightarrow>
            bindA (updateA (upsert_session e lookup_hash (saved_record e w signed))) (\<lambda>_. commit_quietly)))"

subsection \<open>Rotation and authentication\<close>

definition rotate_session_id :: "env \<Rightarrow> unit request" where
  "rotate_session_id e =
     bindA (readA id) (\<lambda>w.
     if ws_data w = [] then ret ()
     else bindA (condA (ws_sid w \<noteq> []) (end_session_id e (ws_sid w) ''rotated'')) (\<lambda>_.
       webA (\<lambda>w. w\<lparr>ws_sid := new_session_id e, ws_modified := True\<rparr>)))"

definition set_permanent :: "web_session \<Rightarrow> web_session" where
  "set_permanent = sess_set ''_permanent'' (JBool True)"

definition begin_password_authenticated_session :: "env \<Rightarrow> int \<Rightarrow> unit request" where
  "begin_password_authenticated_session e uid =
     bindA (webA (sess_set ''last_activity_at'' (JInt (now_s e)) \<circ> sess_set ''password_authenticated_at'' (JInt (now_s e))
       \<circ> sess_set ''pending_mfa_user_id'' (JInt uid) \<circ> set_permanent \<circ> sess_clear)) (\<lambda>_.
     rotate_session_id e)"

definition mark_fresh_mfa :: "env \<Rightarrow> unit request" where
  "mark_fresh_mfa e = webA (sess_set ''last_activity_at'' (JInt (now_s e)) \<circ> sess_set ''fresh_mfa_verified_at'' (JInt (now_s e))
     \<circ> sess_set ''mfa_verified_at'' (JInt (now_s e)))"

definition has_recent_fresh_mfa :: "env \<Rightarrow> web_session \<Rightarrow> bool" where
  "has_recent_fresh_mfa e w =
     (case json_int (json_or (sess_get w ''fresh_mfa_verified_at'') (JInt 0)) of
        Some v \<Rightarrow> v \<noteq> 0 \<and> now_s e - v \<le> cfg_fresh_mfa_seconds (cfg e) | None \<Rightarrow> False)"

subsection \<open>Risk context\<close>

fun split_dots :: "string \<Rightarrow> string \<Rightarrow> string list" where
  "split_dots w [] = [rev w]"
| "split_dots w (c # s) = (if c = CHR ''.'' then rev w # split_dots [] s else split_dots (c # w) s)"

definition ipv4_octet :: "string \<Rightarrow> bool" where
  "ipv4_octet s \<longleftrightarrow> s \<noteq> [] \<and> length s \<le> 3 \<and> list_all py_isdigit s \<and> (length s = 1 \<or> hd s \<noteq> CHR ''0'') \<and> digits_val s \<le> 255"

definition normalized_ip_context :: "env \<Rightarrow> string \<Rightarrow> string" where
  "normalized_ip_context e value =
     (case split_dots [] value of
        [a, b, c, d] \<Rightarrow>
          if list_all ipv4_octet [a, b, c, d] then a @ ''.'' @ b @ ''.'' @ c @ ''.0/24''
          else (case ipv6_network e value of None \<Rightarrow> ''unknown'' | Some net \<Rightarrow> net @ ''/64'')
      | _ \<Rightarrow> (case ipv6_network e value of None \<Rightarrow> ''unknown'' | Some net \<Rightarrow> net @ ''/64''))"

definition normalized_user_agent :: "string \<Rightarrow> string" where
  "normalized_user_agent value = take 256 (py_casefold (join '' '' (py_split (text_or value ''unknown''))))"

text \<open>
  The regular expressions of \<open>user_agent_family\<close> all begin with a word boundary and a letter: \<open>word_search\<close>
  tries a matcher at every position that follows no word character.
\<close>

fun word_search :: "(string \<Rightarrow> 'a option) \<Rightarrow> bool \<Rightarrow> string \<Rightarrow> 'a option" where
  "word_search m inside [] = None"
| "word_search m inside (c # s) =
     (case (if inside then None else m (c # s)) of Some x \<Rightarrow> Some x | None \<Rightarrow> word_search m (is_word_character c) s)"

definition product_char :: "char \<Rightarrow> bool" where
  "product_char c \<longleftrightarrow> ascii_in 97 122 c \<or> ascii_in 48 57 c \<or> c \<in> {CHR ''.'', CHR ''_'', CHR ''-''}"

definition match_any :: "string list \<Rightarrow> string \<Rightarrow> unit option" where
  "match_any ps s = (if list_ex (\<lambda>p. starts_with p s) ps then Some () else None)"

definition match_product :: "string \<Rightarrow> string option" where
  "match_product s = (case s of [] \<Rightarrow> None
     | c # rest \<Rightarrow>
         let run = takeWhile product_char rest in
         if ascii_in 97 122 c \<and> 1 \<le> length run \<and> length run \<le> 31 \<and> starts_with ''/'' (drop (length run) rest)
         then Some (c # run) else None)"

text \<open>The longest prefix of at most 31 further characters that ends at a word boundary.\<close>

definition word_boundary :: "char \<Rightarrow> string \<Rightarrow> bool" where
  "word_boundary c rest \<longleftrightarrow> is_word_character c \<noteq> (rest \<noteq> [] \<and> is_word_character (hd rest))"

definition match_token :: "string \<Rightarrow> string option" where
  "match_token s = (case s of [] \<Rightarrow> None
     | c # rest \<Rightarrow>
         if \<not> ascii_in 97 122 c then None
         else map_option (\<lambda>k. c # take k rest)
           (find (\<lambda>k. word_boundary (rest ! (k - 1)) (drop k rest))
             (rev [1..<Suc (min 31 (length (takeWhile product_char rest)))])))"

definition user_agent_family :: "string \<Rightarrow> string" where
  "user_agent_family value =
     (let ua = normalized_user_agent value;
          known = find (\<lambda>(family, ps). word_search (match_any ps) False ua \<noteq> None)
            [(''edge'', [''edg/'', ''edge/'', ''edga/'', ''edgios/'']), (''opera'', [''opr/'', ''opera/'']),
             (''chrome'', [''chrome/'', ''crios/'']), (''firefox'', [''firefox/'', ''fxios/'']), (''safari'', [''safari/''])]
      in case known of Some (family, _) \<Rightarrow> family
      | None \<Rightarrow> (case word_search match_product False ua of Some p \<Rightarrow> p
        | None \<Rightarrow> (case word_search match_token False ua of Some t \<Rightarrow> t | None \<Rightarrow> ''unknown'')))"

definition risk_message :: "string \<Rightarrow> string \<Rightarrow> string" where
  "risk_message label value = ''session-risk-context:'' @ label @ '':'' @ value"

definition risk_context_hash :: "env \<Rightarrow> string \<Rightarrow> string \<Rightarrow> string" where
  "risk_context_hash e label value = active_hmac_hex e (risk_message label value) 32"

definition risk_context_hash_matches :: "env \<Rightarrow> json \<Rightarrow> string \<Rightarrow> string \<Rightarrow> bool" where
  "risk_context_hash_matches e stored label value \<longleftrightarrow>
     py_truthy stored \<and> matches_hmac e (json_text e stored) (risk_message label value) 32"

definition request_ip_network :: "env \<Rightarrow> string" where
  "request_ip_network e = normalized_ip_context e (req_remote_addr e)"

definition request_user_agent :: "env \<Rightarrow> string" where
  "request_user_agent e = normalized_user_agent (text_or (req_user_agent e) ''unknown'')"

definition current_session_risk_context :: "env \<Rightarrow> (string \<times> json) list" where
  "current_session_risk_context e =
     [(''version'', JInt 1), (''ip_network_hash'', JStr (risk_context_hash e ''ip_network'' (request_ip_network e))),
      (''user_agent_family_hash'', JStr (risk_context_hash e ''user_agent_family'' (user_agent_family (request_user_agent e)))),
      (''user_agent_hash'', JStr (risk_context_hash e ''user_agent'' (request_user_agent e))),
      (''last_checked_at'', JInt (now_s e))]"

text \<open>The set of changes, as the sorted list of its members.\<close>

definition session_risk_context_changes :: "env \<Rightarrow> web_session \<Rightarrow> string list" where
  "session_risk_context_changes e w =
     (case sess_get w ''risk_context'' of
        JObj stored \<Rightarrow>
          if jget stored ''version'' \<noteq> JInt 1 then [''session_context'']
          else (if risk_context_hash_matches e (jget stored ''ip_network_hash'') ''ip_network'' (request_ip_network e)
                then [] else [''ip_network''])
             @ (if risk_context_hash_matches e (jget stored ''user_agent_hash'') ''user_agent'' (request_user_agent e)
                then [] else [''user_agent''])
             @ (if risk_context_hash_matches e (jget stored ''user_agent_family_hash'') ''user_agent_family''
                     (user_agent_family (request_user_agent e))
                then [] else [''user_agent_family''])
      | _ \<Rightarrow> [''session_context''])"

definition session_risk_severity :: "env \<Rightarrow> string list \<Rightarrow> string" where
  "session_risk_severity e changes =
     (if changes = [] then ''stable''
      else if cfg_app_mode (cfg e) = ''admin'' then ''high''
      else if set changes = {''user_agent''} then ''low''
      else if {''ip_network'', ''user_agent_family''} \<subseteq> set changes then ''high''
      else ''medium'')"

definition authenticated :: "env \<Rightarrow> web_session \<Rightarrow> bool" where
  "authenticated e w \<longleftrightarrow> py_truthy (sess_get w ''user_id'') \<and> has_session_id e w"

definition authenticated_session_age_seconds :: "env \<Rightarrow> web_session \<Rightarrow> int option" where
  "authenticated_session_age_seconds e w =
     (if \<not> authenticated e w then None
      else case sess_get w ''auth_created_at'' of
        JBool _ \<Rightarrow> None
      | created_at \<Rightarrow> (case json_int created_at of None \<Rightarrow> None
          | Some c \<Rightarrow> let age = now_s e - c in
              if age < 0 \<or> cfg_session_absolute_lifetime (cfg e) < age then None else Some age))"

definition authenticated_session_risk_is_stable :: "env \<Rightarrow> web_session \<Rightarrow> bool" where
  "authenticated_session_risk_is_stable e w \<longleftrightarrow>
     authenticated e w \<and> \<not> py_truthy (sess_get w ''risk_reauth_required'')
     \<and> session_risk_severity e (session_risk_context_changes e w) = ''stable''"

definition user_agent_fingerprint :: "env \<Rightarrow> string \<Rightarrow> string" where
  "user_agent_fingerprint e value = take 16 (sha256_hex e (take 256 (join '' '' (py_split (text_or value ''unknown'')))))"

definition current_session_risk_message :: "env \<Rightarrow> web_session \<Rightarrow> string" where
  "current_session_risk_message e w =
     join ''|'' [request_ip_network e, user_agent_fingerprint e (text_or (req_user_agent e) ''unknown''),
       (if py_truthy (sess_get w ''auth_context'') then json_text e (sess_get w ''auth_context'') else [])]"

definition current_session_risk_fingerprint :: "env \<Rightarrow> web_session \<Rightarrow> string" where
  "current_session_risk_fingerprint e w = active_hmac_hex e (current_session_risk_message e w) 32"

definition store_current_session_risk_context :: "env \<Rightarrow> bool \<Rightarrow> web_session \<Rightarrow> web_session" where
  "store_current_session_risk_context e clear_reauth w =
     (let w1 = sess_set ''risk_context'' (JObj (current_session_risk_context e))
                 (sess_set ''risk_fingerprint'' (JStr (current_session_risk_fingerprint e w)) w)
      in if clear_reauth then sess_pop ''risk_reauth_required'' w1 else w1)"

definition touch_session_risk_context :: "env \<Rightarrow> web_session \<Rightarrow> web_session" where
  "touch_session_risk_context e w =
     (case sess_get w ''risk_context'' of
        JObj stored \<Rightarrow>
          if jget stored ''version'' \<noteq> JInt 1 then store_current_session_risk_context e False w
          else sess_set ''risk_context'' (JObj (dict_set ''last_checked_at'' (JInt (now_s e)) stored)) w
      | _ \<Rightarrow> store_current_session_risk_context e False w)"

definition mark_session_risk_reauthentication_required :: "web_session \<Rightarrow> web_session" where
  "mark_session_risk_reauthentication_required = sess_set ''risk_reauth_required'' (JBool True)"

text \<open>A change of the row of the current session, if there is one.\<close>

definition update_current_record :: "env \<Rightarrow> (web_session \<Rightarrow> server_session \<Rightarrow> server_session) \<Rightarrow> unit request" where
  "update_current_record e f =
     bindA (readA id) (\<lambda>w.
     if \<not> has_session_id e w then ret ()
     else bindA (queryA (session_record_for_sid e (ws_sid w))) (\<lambda>found.
       case found of None \<Rightarrow> ret ()
       | Some r \<Rightarrow> updateA (update_session_where (\<lambda>q. ss_id q = ss_id r) (f w))))"

definition refresh_session_risk_fingerprint :: "env \<Rightarrow> unit request" where
  "refresh_session_risk_fingerprint e =
     bindA (readA id) (\<lambda>w.
     if \<not> has_session_id e w then ret ()
     else let fingerprint = current_session_risk_fingerprint e w in
       bindA (webA (store_current_session_risk_context e True)) (\<lambda>_.
       update_current_record e (\<lambda>_ r. r\<lparr>ss_risk_fingerprint := fingerprint\<rparr>)))"

definition require_stable_session_for_sensitive_action :: "env \<Rightarrow> string \<Rightarrow> unit request" where
  "require_stable_session_for_sensitive_action e action =
     bindA (readA id) (\<lambda>w.
     if \<not> has_session_id e w then ret ()
     else if py_truthy (sess_get w ''risk_reauth_required'')
     then raise (auth_error ''Session verification required. Please sign in again.'' 401)
     else let stored = sess_get w ''risk_fingerprint'' in
       if \<not> py_truthy stored then refresh_session_risk_fingerprint e
       else if json_text e stored = current_session_risk_fingerprint e w then ret ()
       else if matches_hmac e (json_text e stored) (current_session_risk_message e w) 32 then refresh_session_risk_fingerprint e
       else bindA (webA mark_session_risk_reauthentication_required) (\<lambda>_.
         bindA (audit_event e ''session_risk'' ''step_up_required'' (session_user_id w) [(''action'', JStr action)] None) (\<lambda>_.
         raise (auth_error ''Session verification required. Please sign in again.'' 401))))"

subsection \<open>Activity\<close>

definition fingerprint_text :: "env \<Rightarrow> web_session \<Rightarrow> string" where
  "fingerprint_text e w = (if py_truthy (sess_get w ''risk_fingerprint'') then json_text e (sess_get w ''risk_fingerprint'') else [])"

definition registered_record :: "env \<Rightarrow> int \<Rightarrow> time \<Rightarrow> web_session \<Rightarrow> server_session \<Rightarrow> server_session" where
  "registered_record e uid login_time w r =
     r\<lparr>ss_user_id := Some uid, ss_session_ref := Some (public_session_reference e (Some (ws_sid w))),
       ss_ip_address := text_or (req_remote_addr e) (ss_ip_address r),
       ss_user_agent := text_or (take 256 (req_user_agent e)) (text_or (ss_user_agent r) ''unknown''),
       ss_created_at := login_time, ss_last_activity_at := now e, ss_expires_at := session_expires_at e,
       ss_risk_fingerprint := fingerprint_text e w\<rparr>"

definition register_session_metadata :: "env \<Rightarrow> int \<Rightarrow> string \<Rightarrow> unit request" where
  "register_session_metadata e uid login_time =
     bindA (readA id) (\<lambda>w.
     if \<not> has_session_id e w then ret ()
     else let at = (case fromisoformat e login_time of Some t \<Rightarrow> t | None \<Rightarrow> now e) in
       updateA (upsert_session e (session_lookup_hash e (ws_sid w)) (registered_record e uid at w)))"

definition establish_authenticated_session :: "env \<Rightarrow> int \<Rightarrow> bool \<Rightarrow> string \<Rightarrow> string request" where
  "establish_authenticated_session e uid mfa_verified auth_context =
     (let login_time = utc_iso (now e);
          mfa = (\<lambda>w. if mfa_verified
            then sess_set ''fresh_mfa_verified_at'' (JInt (now_s e)) (sess_set ''mfa_verified_at'' (JInt (now_s e)) w) else w) in
      bindA (webA (mfa \<circ> sess_set ''last_activity_at'' (JInt (now_s e)) \<circ> sess_set ''auth_created_at'' (JInt (now_s e))
        \<circ> sess_set ''login_at'' (JStr login_time) \<circ> sess_set ''auth_context'' (JStr auth_context)
        \<circ> sess_set ''user_id'' (JInt uid) \<circ> set_permanent \<circ> sess_clear)) (\<lambda>_.
      bindA (rotate_session_id e) (\<lambda>_.
      bindA (refresh_session_risk_fingerprint e) (\<lambda>_.
      bindA (register_session_metadata e uid login_time) (\<lambda>_.
      bindA (enforce_active_session_cap e uid) (\<lambda>_.
      readA ws_sid))))))"

definition rotate_authenticated_session_after_mfa :: "env \<Rightarrow> int \<Rightarrow> string request" where
  "rotate_authenticated_session_after_mfa e uid =
     bindA (readA (\<lambda>w. json_or (sess_get w ''login_at'') (JStr (utc_iso (now e))))) (\<lambda>login_time.
     bindA (mark_fresh_mfa e) (\<lambda>_.
     bindA (rotate_session_id e) (\<lambda>_.
     bindA (refresh_session_risk_fingerprint e) (\<lambda>_.
     bindA (register_session_metadata e uid (json_text e login_time)) (\<lambda>_.
     readA ws_sid)))))"

definition update_session_activity :: "env \<Rightarrow> unit request" where
  "update_session_activity e =
     bindA (readA id) (\<lambda>w.
     if \<not> has_session_id e w \<or> \<not> py_truthy (sess_get w ''user_id'') then ret ()
     else bindA (queryA (session_record_for_sid e (ws_sid w))) (\<lambda>found.
       case found of None \<Rightarrow> ret ()
       | Some r \<Rightarrow> (case json_int (sess_get w ''user_id'') of
           None \<Rightarrow> raise (ValueError ''invalid literal for int()'')
         | Some uid \<Rightarrow> updateA (update_session_where (\<lambda>q. ss_id q = ss_id r)
             (\<lambda>r. r\<lparr>ss_last_activity_at := now e, ss_expires_at := session_expires_at e, ss_user_id := Some uid,
               ss_session_ref := Some (public_session_reference e (Some (ws_sid w))), ss_risk_fingerprint := fingerprint_text e w\<rparr>)))))"

text \<open>
  The hook before every request. Its result is \<open>None\<close> when the request goes on, or the message of the
  response that replaces it.
\<close>

definition enforce_authenticated_session_context :: "env \<Rightarrow> string option request" where
  "enforce_authenticated_session_context e =
     bindA (readA id) (\<lambda>w.
     if \<not> authenticated e w then ret None
     else let changes = session_risk_context_changes e w; severity = session_risk_severity e changes;
              md = [(''app_mode'', JStr (session_component e)), (''severity'', JStr severity), (''signals'', JArr (map JStr changes))] in
       if severity = ''stable'' then bindA (webA (touch_session_risk_context e)) (\<lambda>_. ret None)
       else if severity = ''low'' then
         bindA (audit_event e ''session_risk'' ''changed'' (session_user_id w) md None) (\<lambda>_.
         bindA (webA (store_current_session_risk_context e True)) (\<lambda>_. ret None))
       else if severity = ''medium'' then
         bindA (condA (\<not> py_truthy (sess_get w ''risk_reauth_required''))
           (audit_event e ''session_risk'' ''reauth_required'' (session_user_id w) md None)) (\<lambda>_.
         bindA (webA (touch_session_risk_context e \<circ> mark_session_risk_reauthentication_required)) (\<lambda>_. ret None))
       else
         bindA (audit_event e ''session_risk'' ''revoked'' (session_user_id w) md None) (\<lambda>_.
         bindA (revoke_current_session e ''risk_change'') (\<lambda>_.
         ret (Some ''Session verification required''))))"

definition login_endpoint :: "env \<Rightarrow> string" where
  "login_endpoint e = (if cfg_app_mode (cfg e) = ''admin'' then ''admin.login_form'' else ''web.login'')"

definition public_endpoints :: "env \<Rightarrow> string list" where
  "public_endpoints e = [login_endpoint e, ''admin.login'', ''main.index'', ''web.login'', ''web.login_submit'', ''web.register_form'',
     ''web.register_submit'']"

definition revoked_session_response_if_required :: "env \<Rightarrow> string option request" where
  "revoked_session_response_if_required e =
     bindA (readA id) (\<lambda>w.
     if \<not> has_session_id e w \<or> ws_data w = [] then ret None
     else bindA (queryA (session_record_for_sid e (ws_sid w))) (\<lambda>found.
       case found of None \<Rightarrow> ret None
       | Some r \<Rightarrow>
           if ss_revoked_at r = None then ret None
           else bindA (webA sess_clear) (\<lambda>_.
             ret (if req_endpoint e \<in> set (public_endpoints e) then None else Some ''Session revoked''))))"

definition pending_mfa_expiry_response :: "env \<Rightarrow> string option request" where
  "pending_mfa_expiry_response e =
     bindA (readA id) (\<lambda>w.
     let pending = sess_get w ''pending_mfa_user_id'' in
     if \<not> py_truthy pending then ret None
     else case json_int (json_or (sess_get w ''password_authenticated_at'') (JInt 0)) of
       None \<Rightarrow> raise (ValueError ''invalid literal for int()'')
     | Some at \<Rightarrow>
         if at \<noteq> 0 \<and> now_s e - at \<le> cfg_pending_mfa_max_age (cfg e) then ret None
         else bindA (revoke_current_session e ''expired'') (\<lambda>_.
           bindA (audit_event e ''mfa_login_expired'' ''expired'' (json_int pending) [] (current_session_id e w)) (\<lambda>_.
           if starts_with ''/auth/'' (req_path e) then ret (Some ''MFA challenge expired. Please log in again.'')
           else bindA (webA (sess_set ''_flashes'' (JArr [JArr [JStr ''warning'', JStr ''MFA challenge expired. Please log in again.'']]))) (\<lambda>_.
             bindA (rotate_session_id e) (\<lambda>_.
             ret (Some ''MFA challenge expired. Please log in again.''))))))"

definition absolute_lifetime_expiry_response :: "env \<Rightarrow> string option request" where
  "absolute_lifetime_expiry_response e =
     bindA (readA id) (\<lambda>w.
     if \<not> py_truthy (sess_get w ''user_id'') then ret None
     else if sess_get w ''auth_created_at'' = JNull
     then bindA (webA (sess_set ''auth_created_at'' (JInt (now_s e)))) (\<lambda>_. ret None)
     else case json_int (sess_get w ''auth_created_at'') of
       None \<Rightarrow> bindA (revoke_current_session e ''absolute_lifetime'') (\<lambda>_. ret (Some ''Session expired''))
     | Some at \<Rightarrow>
         if 0 < at \<and> now_s e - at \<le> cfg_session_absolute_lifetime (cfg e) then ret None
         else bindA (audit_event e ''session_absolute_lifetime'' ''expired'' (json_int (sess_get w ''user_id''))
             [(''app_mode'', JStr (cfg_app_mode (cfg e))), (''age_seconds'', JInt (max 0 (now_s e - at))),
              (''lifetime_seconds'', JInt (cfg_session_absolute_lifetime (cfg e)))] (current_session_id e w)) (\<lambda>_.
           bindA (revoke_current_session e ''absolute_lifetime'') (\<lambda>_. ret (Some ''Session expired''))))"

text \<open>Run the next check when the previous one let the request pass.\<close>

definition unless_answered :: "string option request \<Rightarrow> string option request \<Rightarrow> string option request" where
  "unless_answered m n = bindA m (\<lambda>r. case r of Some a \<Rightarrow> ret (Some a) | None \<Rightarrow> n)"

definition inactivity_response :: "env \<Rightarrow> string option request" where
  "inactivity_response e =
     bindA (readA (\<lambda>w. json_int (json_or (sess_get w ''last_activity_at'') (JInt (now_s e))))) (\<lambda>last.
     case last of None \<Rightarrow> raise (ValueError ''invalid literal for int()'')
     | Some at \<Rightarrow>
         if cfg_session_inactivity_seconds (cfg e) < now_s e - at
         then bindA (revoke_current_session e ''expired'') (\<lambda>_. ret (Some ''Session expired''))
         else ret None)"

definition record_activity :: "env \<Rightarrow> string option request" where
  "record_activity e =
     (if activity_exempt e then ret None
      else bindA (webA (sess_set ''last_activity_at'' (JInt (now_s e)))) (\<lambda>_.
        bindA (update_session_activity e) (\<lambda>_. ret None)))"

definition enforce_session_activity :: "env \<Rightarrow> string option request" where
  "enforce_session_activity e =
     unless_answered (revoked_session_response_if_required e)
       (bindA (readA id) (\<lambda>w.
        if \<not> py_truthy (json_or (sess_get w ''user_id'') (sess_get w ''pending_mfa_user_id'')) then ret None
        else unless_answered (pending_mfa_expiry_response e)
          (unless_answered (absolute_lifetime_expiry_response e)
            (unless_answered (inactivity_response e)
              (unless_answered (enforce_authenticated_session_context e)
                (record_activity e))))))"

subsection \<open>Frames and steps\<close>

lemma webA_apply [simp]: "webA f s = (Inr (), s\<lparr>web := f (web s)\<rparr>)"
  by (simp add: webA_def)

lemma readA_apply [simp]: "readA f s = (Inr (f (web s)), s)"
  by (simp add: readA_def)

lemma bindA_webA [simp]: "bindA (webA f) g = (\<lambda>s. g () (s\<lparr>web := f (web s)\<rparr>))"
  by (simp add: webA_def)

lemma bindA_readA [simp]: "bindA (readA f) g = (\<lambda>s. g (f (web s)) s)"
  by (simp add: readA_def)

lemma server_sessions_update [simp]:
  "server_sessions (update_session_where p f db) = upd_where p f (server_sessions db)"
  by (simp add: update_session_where_def)

lemma ended_not_active [simp]: "\<not> active_session e uid c (end_session_record e' reason r)"
  by (simp add: active_session_def end_session_record_def)

lemma end_session_record_frame [simp]:
  "ss_id (end_session_record e reason r) = ss_id r" "ss_component (end_session_record e reason r) = ss_component r"
  "ss_lookup_hash (end_session_record e reason r) = ss_lookup_hash r" "ss_user_id (end_session_record e reason r) = ss_user_id r"
  by (simp_all add: end_session_record_def)

lemma active_after_expire:
  "r \<in> set (server_sessions (expire_stale_sessions e uid db)) \<Longrightarrow> active_session e' uid' c r \<Longrightarrow> r \<in> set (server_sessions db)"
  by (auto simp: expire_stale_sessions_def set_upd_where)

lemma active_after_end:
  "r \<in> set (server_sessions (end_session_rows e reason ids db)) \<Longrightarrow> active_session e' uid c r \<Longrightarrow>
   r \<in> set (server_sessions db) \<and> ss_id r \<notin> set ids"
  by (auto simp: end_session_rows_def set_upd_where)

definition component_of :: "env \<Rightarrow> string option \<Rightarrow> string" where
  "component_of e c = (case c of None \<Rightarrow> session_component e | Some c \<Rightarrow> if c = [] then session_component e else c)"

lemma active_session_records_eq:
  "active_session_records e uid c s =
     (Inr (sort_key (\<lambda>r. (- ss_created_at r, - ss_id r))
        (filter (active_session e uid (component_of e c)) (server_sessions (working s)))),
      s\<lparr>working := expire_stale_sessions e uid (working s)\<rparr>)"
  by (simp add: active_session_records_def component_of_def Let_def)

lemma revoke_all_eq:
  "revoke_all_sessions e uid reason c s =
     (let rs = filter (active_session e uid (component_of e c)) (server_sessions (working s)) in
      (Inr (int (length rs)), s\<lparr>working := end_session_rows e reason (map ss_id (sort_key (\<lambda>r. (- ss_created_at r, - ss_id r)) rs))
        (expire_stale_sessions e uid (working s))\<rparr>))"
  by (simp add: revoke_all_sessions_def active_session_records_eq Let_def bindA_Inr [OF active_session_records_eq])

lemma revoke_all_leaves_none:
  assumes "revoke_all_sessions e uid reason c s = (x, t)" and "r \<in> set (server_sessions (working t))"
  shows "\<not> active_session e uid (component_of e c) r"
proof
  assume a: "active_session e uid (component_of e c) r"
  let ?rs = "filter (active_session e uid (component_of e c)) (server_sessions (working s))"
  have "r \<in> set (server_sessions (end_session_rows e reason (map ss_id (sort_key (\<lambda>r. (- ss_created_at r, - ss_id r)) ?rs))
        (expire_stale_sessions e uid (working s))))"
    using assms by (auto simp: revoke_all_eq Let_def)
  from active_after_end [OF this a] have "r \<in> set (server_sessions (working s))" "ss_id r \<notin> ss_id ` set ?rs"
    using active_after_expire a by auto
  with a show False by auto
qed

text \<open>
  C22. Revoking all sessions of a user leaves none: after \<^verbatim>\<open>revoke_all_sessions\<close> no row of that user and
  component is active any more (it is the step behind account locks, password changes and resets), and the
  number it returns is the number of rows that were active.
\<close>

theorem revoke_all_sessions_complete:
  assumes "revoke_all_sessions e uid reason c s = (x, t)"
  shows "filter (active_session e uid (component_of e c)) (server_sessions (working t)) = []
    \<and> x = Inr (int (length (filter (active_session e uid (component_of e c)) (server_sessions (working s)))))"
  using revoke_all_leaves_none [OF assms] assms by (auto simp: filter_empty_conv revoke_all_eq Let_def)

definition sample_session :: "int \<Rightarrow> string \<Rightarrow> server_session" where
  "sample_session i sid = \<lparr>ss_id = i, ss_component = ''customer'', ss_lookup_hash = session_lookup_hash sample_env sid,
     ss_session_ref = None, ss_payload = Some ''p'', ss_payload_format = ''session-hmac-v2'', ss_user_id = Some 1, ss_created_at = i,
     ss_last_activity_at = 0, ss_expires_at = now sample_env + 1, ss_revoked_at = None, ss_ended_at = None, ss_ended_reason = None,
     ss_ip_address = [], ss_user_agent = [], ss_risk_fingerprint = []\<rparr>"

definition session_world :: world where
  "session_world = fresh_world (empty_db\<lparr>server_sessions := [sample_session 1 ''a'', sample_session 2 ''sid'']\<rparr>)"

theorem revoke_all_sessions_complete_witness:
  "\<exists>t. revoke_all_sessions sample_env 1 ''revoked'' None session_world = (Inr 2, t)
     \<and> filter (active_session sample_env 1 (component_of sample_env None)) (server_sessions (working t)) = []"
proof -
  obtain x t where r: "revoke_all_sessions sample_env 1 ''revoked'' None session_world = (x, t)" by fastforce
  have "length (filter (active_session sample_env 1 (component_of sample_env None)) (server_sessions (working session_world))) = 2"
    by code_simp
  with revoke_all_sessions_complete [OF r] r show ?thesis by simp
qed

subsection \<open>The cap of one active session\<close>

lemma cap_candidates_complete:
  "r \<in> set records \<Longrightarrow> r \<in> set (cap_candidates e uid w records db)"
  by (auto simp: cap_candidates_def Let_def split: option.split)

lemma enforce_cap_eq:
  "enforce_active_session_cap e uid s =
     (let records = sort_key (\<lambda>r. (- ss_created_at r, - ss_id r))
            (filter (active_session e uid (session_component e)) (server_sessions (working s)));
          s1 = s\<lparr>working := expire_stale_sessions e uid (working s)\<rparr>;
          doomed = drop configured_active_session_cap (cap_candidates e uid (web s) records (working s1)) in
      bindA (condA (doomed \<noteq> []) commitA) (\<lambda>_. ret (int (length doomed)))
        (s1\<lparr>working := end_session_rows e ''session_cap'' (map ss_id doomed) (working s1)\<rparr>))"
  by (simp add: enforce_active_session_cap_def bindA_Inr [OF active_session_records_eq] component_of_def Let_def)

lemma enforce_cap_working:
  assumes "enforce_active_session_cap e uid s = (Inr n, t)"
  obtains records doomed where
    "records = sort_key (\<lambda>r. (- ss_created_at r, - ss_id r))
       (filter (active_session e uid (session_component e)) (server_sessions (working s)))"
    "doomed = drop configured_active_session_cap (cap_candidates e uid (web s) records (expire_stale_sessions e uid (working s)))"
    "working t = end_session_rows e ''session_cap'' (map ss_id doomed) (expire_stale_sessions e uid (working s))"
  using assms unfolding enforce_cap_eq Let_def
  by (auto simp: condA_def bindA_eq_Inr commitA_def split: if_splits)

lemma cap_survivor:
  assumes "enforce_active_session_cap e uid s = (Inr n, t)"
    and "r \<in> set (server_sessions (working t))" and "active_session e uid (session_component e) r"
    and "r' \<in> set (server_sessions (working t))" and "active_session e uid (session_component e) r'"
  shows "ss_id r = ss_id r'"
proof -
  from assms(1) obtain records doomed where
    rec: "records = sort_key (\<lambda>r. (- ss_created_at r, - ss_id r))
       (filter (active_session e uid (session_component e)) (server_sessions (working s)))"
    and doomed: "doomed = drop configured_active_session_cap
       (cap_candidates e uid (web s) records (expire_stale_sessions e uid (working s)))"
    and t: "working t = end_session_rows e ''session_cap'' (map ss_id doomed) (expire_stale_sessions e uid (working s))"
    by (rule enforce_cap_working)
  let ?c = "cap_candidates e uid (web s) records (expire_stale_sessions e uid (working s))"
  have "q \<in> set ?c \<and> ss_id q \<notin> ss_id ` set (drop 1 ?c)"
    if "q \<in> set (server_sessions (working t))" "active_session e uid (session_component e) q" for q
  proof -
    have "q \<in> set (server_sessions (expire_stale_sessions e uid (working s)))" "ss_id q \<notin> set (map ss_id doomed)"
      using active_after_end [of q e "''session_cap''" "map ss_id doomed"] that t by auto
    with that(2) active_after_expire have "q \<in> set records" unfolding rec by auto
    with cap_candidates_complete \<open>ss_id q \<notin> set (map ss_id doomed)\<close> show ?thesis
      by (auto simp: doomed configured_active_session_cap_def)
  qed
  then have "r = hd ?c" "r' = hd ?c"
    using assms by (cases ?c; force)+
  then show ?thesis by simp
qed

text \<open>
  C23. One active session per user: when \<^verbatim>\<open>enforce_active_session_cap\<close> returns, any two active rows of the user in
  this component are the same row (rows have distinct ids).
\<close>

theorem active_session_cap:
  assumes "enforce_active_session_cap e uid s = (Inr n, t)" and "distinct (map ss_id (server_sessions (working t)))"
  shows "length (filter (active_session e uid (session_component e)) (server_sessions (working t))) \<le> 1"
proof -
  let ?a = "filter (active_session e uid (session_component e)) (server_sessions (working t))"
  have d: "distinct (map ss_id ?a)" using assms(2) by (rule distinct_map_filter)
  have "card (set (map ss_id ?a)) \<le> Suc 0"
    using cap_survivor [OF assms(1)] by (subst card_le_Suc0_iff_eq) auto
  then show ?thesis using distinct_card [OF d] by simp
qed

theorem active_session_cap_witness:
  "\<exists>t. enforce_active_session_cap sample_env 1 session_world = (Inr 1, t)
     \<and> length (filter (active_session sample_env 1 (session_component sample_env)) (server_sessions (working t))) \<le> 1"
proof -
  obtain x t where r: "enforce_active_session_cap sample_env 1 session_world = (x, t)" by fastforce
  have "fst (enforce_active_session_cap sample_env 1 session_world) = Inr 1" by code_simp
  moreover have "distinct (map ss_id (server_sessions (working (snd (enforce_active_session_cap sample_env 1 session_world)))))"
    by code_simp
  ultimately show ?thesis using r active_session_cap [of sample_env 1 session_world 1 t] by simp
qed

subsection \<open>What an opened session holds\<close>

text \<open>The steps on the database leave the browser session alone.\<close>

definition on_web :: "(web_session \<Rightarrow> bool) \<Rightarrow> world \<Rightarrow> bool" where
  "on_web P s \<longleftrightarrow> P (web s)"

lemma preserves_on_web_db [preserves_rules]:
  "preserves (on_web P) commitA" "preserves (on_web P) rollbackA" "preserves (on_web P) (updateA f)"
  "preserves (on_web P) (queryA g)" "preserves (on_web P) (readA h)"
  by (auto simp: preserves_def on_web_def commitA_def)

lemma preserves_on_web_audit_event [preserves_rules]: "preserves (on_web P) (audit_event e t out uid md sid)"
proof (rule preservesI)
  fix s assume "on_web P s"
  then show "on_web P (snd (audit_event e t out uid md sid s))"
    by (cases rule: audit_event_cases [of e s t out uid md sid]) (auto simp: on_web_def)
qed

lemma preserves_on_web_commit_quietly [preserves_rules]: "preserves (on_web P) commit_quietly"
  unfolding commit_quietly_def by (intro preserves_rules)

lemma preserves_on_web_webA: "(\<And>w. P w \<Longrightarrow> P (f w)) \<Longrightarrow> preserves (on_web P) (webA f)"
  by (simp add: preserves_def on_web_def)

lemma preserves_on_web_integrity_failure [preserves_rules]: "preserves (on_web P) (handle_integrity_failure e r reason)"
  unfolding handle_integrity_failure_def Let_def by (intro preserves_rules)

definition usable_row :: "env \<Rightarrow> server_session \<Rightarrow> (string \<times> json) list \<Rightarrow> bool" where
  "usable_row e r data \<longleftrightarrow> ss_revoked_at r = None \<and> now e < ss_expires_at r
     \<and> (\<exists>payload. ss_payload r = Some payload \<and> payload \<noteq> [] \<and> stored_session_data e r payload = Inr data)"

lemma resume_session_usable:
  assumes "usable_row e r data"
  shows "\<exists>t. resume_session e sid (Some r) s = (Inr (), t) \<and> web t = \<lparr>ws_sid = sid, ws_data = data, ws_modified = False\<rparr>"
  using assms by (auto simp: resume_session_def usable_row_def condA_def)

lemma resume_session_fresh:
  assumes "\<And>r data. found = Some r \<Longrightarrow> \<not> usable_row e r data"
  shows "preserves (on_web (\<lambda>w. ws_data w = [])) (resume_session e sid found)"
proof -
  have fresh: "preserves (on_web (\<lambda>w. ws_data w = [])) (webA (\<lambda>_. fresh_session e))"
    by (rule preserves_on_web_webA) (simp add: fresh_session_def)
  show ?thesis
    unfolding resume_session_def end_and_start_over_def
    by (intro preserves_rules fresh) (use assms in \<open>force simp: usable_row_def not_le\<close>)
qed

text \<open>
  C13. A request gets session data only from a live row: if the cookie's session comes back with any data,
  the cookie names a row of this component that is neither revoked nor expired, and the data is exactly
  what the row's payload decodes to after its signature verified for this component and lookup hash. In
  every other case (no cookie, unknown, revoked, expired or tampered row) the session is empty.
\<close>

theorem opened_session_is_authentic:
  assumes "open_session e cookie s = (x, t)" and "ws_data (web s) = []" and "ws_data (web t) \<noteq> []"
  shows "\<exists>sid r. cookie = Some sid \<and> session_record_for_sid e sid (working s) = Some r
    \<and> usable_row e r (ws_data (web t)) \<and> ws_sid (web t) = sid"
proof (cases "cookie = None \<or> cookie = Some []")
  case True
  with assms show ?thesis by (auto simp: open_session_def fresh_session_def)
next
  case False
  then obtain sid where sid: "cookie = Some sid" "sid \<noteq> []" by auto
  let ?found = "session_record_for_sid e sid (working s)"
  have m: "resume_session e sid ?found s = (x, t)" using assms(1) sid by (simp add: open_session_def)
  show ?thesis
  proof (cases "\<exists>r data. ?found = Some r \<and> usable_row e r data")
    case True
    then obtain r data where r: "?found = Some r" "usable_row e r data" by blast
    from resume_session_usable [OF r(2), of sid s] m r show ?thesis using sid by auto
  next
    case False
    then have "preserves (on_web (\<lambda>w. ws_data w = [])) (resume_session e sid ?found)"
      by (intro resume_session_fresh) auto
    from preservesD' [OF this m] assms(2,3) show ?thesis by (simp add: on_web_def)
  qed
qed

subsection \<open>Saving\<close>

lemma save_session_eq:
  assumes "ws_data (web s) \<noteq> []"
    and "sign_session_payload e (session_dumps e (dict_set ''_permanent'' (JBool True) (ws_data (web s))))
           (payload_binding_context e (session_lookup_hash e (ws_sid (web s)))) = Inr signed"
    and "storable (upsert_session e (session_lookup_hash e (ws_sid (web s))) (saved_record e (web s) signed) (working s))"
  shows "save_session e s = (Inr (), s\<lparr>working := upsert_session e (session_lookup_hash e (ws_sid (web s))) (saved_record e (web s) signed) (working s),
     committed := upsert_session e (session_lookup_hash e (ws_sid (web s))) (saved_record e (web s) signed) (working s)\<rparr>)"
  using assms by (simp add: save_session_def Let_def commit_quietly_def try_catch_def commitA_ok)

lemma saved_record_live [simp]:
  "ss_revoked_at (saved_record e w p r) = None" "ss_ended_at (saved_record e w p r) = None"
  "ss_payload (saved_record e w p r) = Some p" "ss_id (saved_record e w p r) = ss_id r"
  "ss_lookup_hash (saved_record e w p r) = ss_lookup_hash r" "ss_component (saved_record e w p r) = ss_component r"
  "ss_user_id (saved_record e w p r) = session_user_id w"
  by (simp_all add: saved_record_def)

lemma record_for_hash_member:
  assumes "session_record_for_lookup_hash e h db = Some r"
  shows "r \<in> set (server_sessions db) \<and> ss_component r = session_component e \<and> ss_lookup_hash r = h"
proof -
  let ?l = "sort_key (\<lambda>r. (ss_revoked_at r = None, ss_ended_at r = None, - ss_id r))
        (filter (\<lambda>r. ss_component r = session_component e \<and> ss_lookup_hash r = h) (server_sessions db))"
  have "r \<in> set ?l"
    using assms unfolding session_record_for_lookup_hash_def by (cases ?l) auto
  then show ?thesis by simp
qed

text \<open>
  C15. Saving undoes a revocation. When a session is revoked while one of its requests is still running,
  the end of that request, which saves its copy of the session, clears the revocation and stores the
  payload again: the row is active once more and the cookie stays good. (\<^verbatim>\<open>save_session\<close> sets
  \<^verbatim>\<open>revoked_at\<close>, \<^verbatim>\<open>ended_at\<close> and \<^verbatim>\<open>ended_reason\<close> to \<^verbatim>\<open>None\<close> without looking at them.)
\<close>

theorem save_session_undoes_revocation:
  assumes "ws_data (web s) \<noteq> []" and "\<not> activity_exempt e" and "0 < cfg_session_inactivity_seconds (cfg e)"
    and "session_record_for_sid e (ws_sid (web s)) (working s) = Some r" and "ss_revoked_at r \<noteq> None"
    and "session_user_id (web s) = Some uid"
    and "sign_session_payload e (session_dumps e (dict_set ''_permanent'' (JBool True) (ws_data (web s))))
           (payload_binding_context e (session_lookup_hash e (ws_sid (web s)))) = Inr signed"
    and "storable (upsert_session e (session_lookup_hash e (ws_sid (web s))) (saved_record e (web s) signed) (working s))"
    and "save_session e s = (x, t)"
  shows "\<exists>r' \<in> set (server_sessions (committed t)). ss_id r' = ss_id r \<and> active_session e uid (session_component e) r'"
proof
  let ?h = "session_lookup_hash e (ws_sid (web s))"
  have r: "session_record_for_lookup_hash e ?h (working s) = Some r" using assms(4) by (simp add: session_record_for_sid_def)
  have t: "committed t = upsert_session e ?h (saved_record e (web s) signed) (working s)"
    using save_session_eq [OF assms(1,7,8)] assms(9) by simp
  show "saved_record e (web s) signed r \<in> set (server_sessions (committed t))"
    unfolding t upsert_session_def r using record_for_hash_member [OF r] by (auto simp: set_upd_where)
  show "ss_id (saved_record e (web s) signed r) = ss_id r \<and>
      active_session e uid (session_component e) (saved_record e (web s) signed r)"
    using record_for_hash_member [OF r] assms(2,3,6)
    by (simp add: active_session_def) (simp add: saved_record_def session_expires_at_def seconds_def second_us_def)
qed

text \<open>Two requests on one session: the second has been revoked by the first when it is saved.\<close>

definition revoked_world :: world where
  "revoked_world = (fresh_world (empty_db\<lparr>server_sessions := [end_session_record sample_env ''password_change'' (sample_session 2 ''sid'')]\<rparr>))
     \<lparr>web := \<lparr>ws_sid = ''sid'', ws_data = [(''user_id'', JInt 1)], ws_modified = True\<rparr>\<rparr>"

theorem save_session_undoes_revocation_witness:
  "\<exists>t. save_session sample_env revoked_world = (Inr (), t)
     \<and> (\<exists>r' \<in> set (server_sessions (committed t)). ss_id r' = 2 \<and> active_session sample_env 1 ''customer'' r')"
proof -
  let ?s = revoked_world and ?h = "session_lookup_hash sample_env ''sid''"
  have w: "web ?s = \<lparr>ws_sid = ''sid'', ws_data = [(''user_id'', JInt 1)], ws_modified = True\<rparr>" by (simp add: revoked_world_def)
  obtain signed where sig: "sign_session_payload sample_env (session_dumps sample_env (dict_set ''_permanent'' (JBool True) (ws_data (web ?s))))
           (payload_binding_context sample_env (session_lookup_hash sample_env (ws_sid (web ?s)))) = Inr signed"
    by (auto simp: sign_session_payload_def binding_context_def payload_binding_context_def payload_signature_def ring_lookup_def
        sample_env_def sample_cfg_def Let_def)
  have st: "storable (upsert_session sample_env ?h (saved_record sample_env (web ?s) signed) (working ?s))"
    by code_simp
  have rec: "session_record_for_sid sample_env (ws_sid (web ?s)) (working ?s) =
      Some (end_session_record sample_env ''password_change'' (sample_session 2 ''sid''))"
    by code_simp
  from save_session_eq [of ?s sample_env signed] sig st obtain t where t: "save_session sample_env ?s = (Inr (), t)"
    by (auto simp: w)
  have "\<exists>r' \<in> set (server_sessions (committed t)). ss_id r' = ss_id (end_session_record sample_env ''password_change'' (sample_session 2 ''sid''))
      \<and> active_session sample_env 1 (session_component sample_env) r'"
    by (rule save_session_undoes_revocation [OF _ _ _ rec _ _ sig _ t])
       (use st in \<open>simp_all add: w activity_exempt_def sample_env_def sample_cfg_def end_session_record_def sample_session_def
          session_user_id_def sess_get_def jget_def json_or_def json_int_def Let_def\<close>)
  moreover have "session_component sample_env = ''customer''" by code_simp
  ultimately show ?thesis using t by (auto simp: sample_session_def)
qed

subsection \<open>The hook before every request\<close>

lemma map_of_dict_set [simp]: "map_of (dict_set k v kvs) k' = (if k' = k then Some v else map_of kvs k')"
  by (induction k v kvs rule: dict_set.induct) auto

lemma sess_get_set [simp]: "sess_get (sess_set k v w) k' = (if k' = k then v else sess_get w k')"
  by (simp add: sess_get_def sess_set_def jget_def)

lemma sess_set_fields [simp]: "ws_sid (sess_set k v w) = ws_sid w" "ws_data (sess_set k v w) \<noteq> []"
  by (simp_all add: sess_set_def) (metis map_of_dict_set map_of.simps(1) option.distinct(1))

lemma unless_answered_None:
  "unless_answered m n s = (Inr None, t) \<longleftrightarrow> (\<exists>u. m s = (Inr None, u) \<and> n u = (Inr None, t))"
  by (auto simp: unless_answered_def bindA_eq_Inr split: option.splits)

lemma not_answered_not_revoked:
  assumes "revoked_session_response_if_required e s = (Inr None, t)"
  shows "ws_data (web t) = [] \<or>
    (t = s \<and> (has_session_id e (web s) \<longrightarrow> (case session_record_for_sid e (ws_sid (web s)) (working s) of
        None \<Rightarrow> True | Some r \<Rightarrow> ss_revoked_at r = None)))"
  using assms by (auto simp: revoked_session_response_if_required_def sess_clear_def split: if_splits option.splits)

lemma pending_not_answered: "pending_mfa_expiry_response e s = (Inr None, t) \<Longrightarrow> t = s"
  by (auto simp: pending_mfa_expiry_response_def Let_def bindA_eq_Inr split: if_splits option.splits)

lemma lifetime_not_answered:
  assumes "absolute_lifetime_expiry_response e s = (Inr None, t)" and "py_truthy (sess_get (web s) ''user_id'')"
  shows "(sess_get (web s) ''auth_created_at'' = JNull \<and> t = s\<lparr>web := sess_set ''auth_created_at'' (JInt (now_s e)) (web s)\<rparr>)
    \<or> (t = s \<and> (\<exists>at. json_int (sess_get (web s) ''auth_created_at'') = Some at \<and> 0 < at
        \<and> now_s e - at \<le> cfg_session_absolute_lifetime (cfg e)))"
  using assms by (auto simp: absolute_lifetime_expiry_response_def bindA_eq_Inr split: if_splits option.splits)

lemma inactivity_not_answered:
  assumes "inactivity_response e s = (Inr None, t)"
  shows "t = s \<and> (\<exists>at. json_int (json_or (sess_get (web s) ''last_activity_at'') (JInt (now_s e))) = Some at
    \<and> now_s e - at \<le> cfg_session_inactivity_seconds (cfg e))"
  using assms by (auto simp: inactivity_response_def bindA_eq_Inr split: if_splits option.splits)

lemma context_not_answered:
  assumes "enforce_authenticated_session_context e s = (Inr None, t)" and "authenticated e (web s)"
  shows "session_risk_severity e (session_risk_context_changes e (web s)) \<noteq> ''high''"
proof
  assume h: "session_risk_severity e (session_risk_context_changes e (web s)) = ''high''"
  with assms show False
    by (auto simp: enforce_authenticated_session_context_def Let_def bindA_eq_Inr)
qed

lemma changes_frame [simp]:
  "k \<noteq> ''risk_context'' \<Longrightarrow> session_risk_context_changes e (sess_set k v w) = session_risk_context_changes e w"
  by (simp add: session_risk_context_changes_def)

text \<open>
  C14. What the hook before every request guarantees. If it lets a request with a signed-in session pass and
  leaves the session in place, then the row of the session is not revoked, the sign-in is within the
  absolute lifetime (or its instant was unknown and is set now), the last activity is within the inactivity
  window, and the context did not change with high severity.
\<close>

theorem session_hook_enforces_limits:
  assumes "enforce_session_activity e s = (Inr None, t)" and "ws_data (web t) \<noteq> []"
    and "py_truthy (sess_get (web s) ''user_id'')" and "has_session_id e (web s)"
  shows "(case session_record_for_sid e (ws_sid (web s)) (working s) of None \<Rightarrow> True | Some r \<Rightarrow> ss_revoked_at r = None)
    \<and> (sess_get (web s) ''auth_created_at'' = JNull \<or> (\<exists>at. json_int (sess_get (web s) ''auth_created_at'') = Some at \<and> 0 < at
        \<and> now_s e - at \<le> cfg_session_absolute_lifetime (cfg e)))
    \<and> (\<exists>at. json_int (json_or (sess_get (web s) ''last_activity_at'') (JInt (now_s e))) = Some at
        \<and> now_s e - at \<le> cfg_session_inactivity_seconds (cfg e))
    \<and> session_risk_severity e (session_risk_context_changes e (web s)) \<noteq> ''high''"
proof -
  from assms(1) obtain s1 where 1: "revoked_session_response_if_required e s = (Inr None, s1)"
    and rest: "(if \<not> py_truthy (json_or (sess_get (web s1) ''user_id'') (sess_get (web s1) ''pending_mfa_user_id'')) then ret None
        else unless_answered (pending_mfa_expiry_response e)
          (unless_answered (absolute_lifetime_expiry_response e)
            (unless_answered (inactivity_response e)
              (unless_answered (enforce_authenticated_session_context e)
                (record_activity e))))) s1 = (Inr None, t)"
    unfolding enforce_session_activity_def unless_answered_None by auto
  have "ws_data (web s1) \<noteq> []"
  proof
    assume "ws_data (web s1) = []"
    then have "sess_get (web s1) k = JNull" for k by (simp add: sess_get_def jget_def)
    with rest \<open>ws_data (web s1) = []\<close> assms(2) show False by (simp add: json_or_def)
  qed
  with not_answered_not_revoked [OF 1] assms(4) have s1: "s1 = s"
    and row: "case session_record_for_sid e (ws_sid (web s)) (working s) of None \<Rightarrow> True | Some r \<Rightarrow> ss_revoked_at r = None"
    by auto
  from rest assms(3) s1 obtain s2 s3 s4 s5 where
    2: "pending_mfa_expiry_response e s = (Inr None, s2)" and 3: "absolute_lifetime_expiry_response e s2 = (Inr None, s3)"
    and 4: "inactivity_response e s3 = (Inr None, s4)" and 5: "enforce_authenticated_session_context e s4 = (Inr None, s5)"
    by (auto simp: json_or_def unless_answered_None split: if_splits)
  have s2: "s2 = s" using pending_not_answered [OF 2] .
  note life = lifetime_not_answered [OF 3, unfolded s2, OF assms(3)]
  note idle = inactivity_not_answered [OF 4]
  have "authenticated e (web s4)" "session_risk_context_changes e (web s4) = session_risk_context_changes e (web s)"
    "sess_get (web s3) ''last_activity_at'' = sess_get (web s) ''last_activity_at''"
    using life idle assms(3,4) by (auto simp: authenticated_def has_session_id_def current_session_id_def split: if_splits)
  with row life idle context_not_answered [OF 5] show ?thesis by auto
qed

definition hook_world :: world where
  "hook_world = session_world\<lparr>web := \<lparr>ws_sid = ''sid'', ws_data = [(''user_id'', JInt 1), (''auth_created_at'', JInt (now_s sample_env - 10)),
     (''last_activity_at'', JInt (now_s sample_env - 5)), (''risk_context'', JObj (current_session_risk_context sample_env))],
     ws_modified = False\<rparr>\<rparr>"

theorem session_hook_enforces_limits_witness:
  "\<exists>t. enforce_session_activity sample_env hook_world = (Inr None, t)
     \<and> session_risk_severity sample_env (session_risk_context_changes sample_env (web hook_world)) \<noteq> ''high''"
proof -
  obtain x t where r: "enforce_session_activity sample_env hook_world = (x, t)" by fastforce
  have "fst (enforce_session_activity sample_env hook_world) = Inr None" by code_simp
  moreover have "ws_data (web (snd (enforce_session_activity sample_env hook_world))) \<noteq> []" by code_simp
  moreover have "py_truthy (sess_get (web hook_world) ''user_id'')" "has_session_id sample_env (web hook_world)" by code_simp+
  ultimately show ?thesis using r session_hook_enforces_limits [of sample_env hook_world t] by simp
qed

text \<open>An environment whose decoders know one stored payload.\<close>

definition open_env :: env where
  "open_env = sample_env\<lparr>json_loads := (\<lambda>_. Some (payload_envelope ''s1'' ''data''
       (hmac_sha256 sample_env (replicate 32 (CHR ''S'')) (signing_input ''s1'' ''data''
         (payload_binding_context sample_env (session_lookup_hash sample_env ''sid'')))))),
     session_loads := (\<lambda>_. Some (JObj [(''user_id'', JInt 1)]))\<rparr>"

lemma open_env_usable: "usable_row open_env (sample_session 2 ''sid'') [(''user_id'', JInt 1)]"
proof -
  have c: "payload_binding_context open_env h = payload_binding_context sample_env h" for h
    by (simp add: open_env_def payload_binding_context_def session_component_def)
  have "verify_session_payload open_env ''p'' (payload_binding_context open_env (session_lookup_hash sample_env ''sid'')) = Inr ''data''"
    unfolding c
    by (simp add: verify_session_payload_def binding_context_def payload_binding_context_def open_env_def payload_envelope_def jget_def
        payload_signature_def ring_lookup_def) (simp add: sample_env_def sample_cfg_def)
  then show ?thesis
    by (simp add: usable_row_def sample_session_def stored_session_data_def) (simp add: open_env_def)
qed

theorem opened_session_is_authentic_witness:
  "\<exists>t r. session_record_for_sid open_env ''sid'' (working session_world) = Some r \<and> usable_row open_env r (ws_data (web t))
     \<and> open_session open_env (Some ''sid'') session_world = (Inr (), t) \<and> ws_data (web t) = [(''user_id'', JInt 1)]"
proof -
  have h: "session_record_for_sid open_env ''sid'' = session_record_for_sid sample_env ''sid''"
    by (simp add: fun_eq_iff session_record_for_sid_def session_record_for_lookup_hash_def session_component_def open_env_def
        session_lookup_hash_def)
  have "session_record_for_sid sample_env ''sid'' (working session_world) = Some (sample_session 2 ''sid'')" by code_simp
  then obtain t where t: "open_session open_env (Some ''sid'') session_world = (Inr (), t)"
      "web t = \<lparr>ws_sid = ''sid'', ws_data = [(''user_id'', JInt 1)], ws_modified = False\<rparr>"
    using resume_session_usable [OF open_env_usable, of "''sid''" session_world] h by (auto simp: open_session_def)
  from opened_session_is_authentic [OF t(1)] t show ?thesis
    by (auto simp: session_world_def fresh_world_def)
qed

end
