(* ===== verification/Payup.thy ===== *)
theory Payup
  imports Transfers Web_Sessions
begin

section \<open>PayUp transfers\<close>

text \<open>
  Transfers by phone number: \<^verbatim>\<open>execute_payup_transfer\<close> of \<^verbatim>\<open>app/banking/services.py\<close> with its risk policy
  \<^verbatim>\<open>evaluate_payup_risk\<close>, which reads the browser session through \<^verbatim>\<open>Web_Sessions\<close>. A missing configuration value
  is \<open>None\<close>: the policy then blocks. Sub-cent caps are not represented: a cap counts cents.
\<close>

subsection \<open>The risk policy\<close>

record payup_risk =
  pr_decision :: string
  pr_reasons :: "string list"

definition risk_block :: "string \<Rightarrow> payup_risk" where
  "risk_block reason = \<lparr>pr_decision = ''block'', pr_reasons = [reason]\<rparr>"

definition requires_step_up :: "payup_risk \<Rightarrow> bool" where
  "requires_step_up r \<longleftrightarrow> pr_decision r = ''step_up''"

definition blocked :: "payup_risk \<Rightarrow> bool" where
  "blocked r \<longleftrightarrow> pr_decision r = ''block''"

definition payup_sensitive_event_types :: "string list" where
  "payup_sensitive_event_types = [''manual_recovery_completed'', ''manual_recovery_requested'', ''mfa_replace_start'',
     ''mfa_replace_verify'', ''password_change'', ''password_reset_completed'', ''recovery_codes_generated'',
     ''recovery_codes_regenerate'']"

definition sensitive_outcomes :: "string list" where
  "sensitive_outcomes = [''approved'', ''completed'', ''requested'', ''success'', ''verified'']"

text \<open>The text of a member of the JSON column, as \<^verbatim>\<open>as_string\<close> selects it.\<close>

definition metadata_text :: "json \<Rightarrow> string \<Rightarrow> string option" where
  "metadata_text j k = (case j of JObj kvs \<Rightarrow> (case map_of kvs k of Some (JStr s) \<Rightarrow> Some s | _ \<Rightarrow> None) | _ \<Rightarrow> None)"

definition has_recent_payup_sensitive_event :: "env \<Rightarrow> int \<Rightarrow> int \<Rightarrow> database \<Rightarrow> bool" where
  "has_recent_payup_sensitive_event e uid cooldown db = list_ex (\<lambda>ev.
     ae_user_id ev = Some uid \<and> now e - seconds cooldown \<le> ae_created_at ev
     \<and> (ae_event_type ev \<in> set payup_sensitive_event_types \<and> ae_outcome ev \<in> set sensitive_outcomes
        \<or> ae_event_type ev = ''profile_update'' \<and> ae_outcome ev = ''success''
          \<and> metadata_text (ae_metadata ev) ''updated_fields''
              \<in> {Some ''profile_email'', Some ''profile_phone'', Some ''profile_email_phone''})) (audit_rows db)"

text \<open>The reasons are sorted: the daily cap comes before the transfer cap.\<close>

definition step_up_reasons :: "cents \<Rightarrow> cents \<Rightarrow> cents \<Rightarrow> cents \<Rightarrow> string list" where
  "step_up_reasons amount quick_transfer_cap projected_daily quick_daily_cap =
     (if quick_daily_cap < projected_daily then [''quick_daily_cap''] else [])
     @ (if quick_transfer_cap < amount then [''quick_transfer_cap''] else [])"

definition evaluate_payup_risk :: "env \<Rightarrow> web_session \<Rightarrow> user \<Rightarrow> cents \<Rightarrow> cents option \<Rightarrow> database \<Rightarrow> payup_risk" where
  "evaluate_payup_risk e w user amount used db =
     (let daily_used = (case used of Some x \<Rightarrow> x | None \<Rightarrow> payup_amount_used_today e (u_id user) db) in
      case (cfg_payup_quick_transfer_cap (cfg e), cfg_payup_quick_daily_cap (cfg e),
            cfg_payup_session_max_age (cfg e), cfg_payup_sensitive_cooldown (cfg e)) of
        (Some quick_transfer_cap, Some quick_daily_cap, Some session_max_age, Some cooldown) \<Rightarrow>
          if amount \<le> 0 \<or> daily_used < 0 \<or> u_payup_daily_limit user \<le> 0 \<or> quick_transfer_cap \<le> 0 \<or> quick_daily_cap \<le> 0
          then risk_block ''risk_state_invalid''
          else if \<not> u_payup_enabled user then risk_block ''payup_disabled''
          else if \<not> has_enrolled_mfa_method user then risk_block ''mfa_not_enrolled''
          else if \<not> authenticated_session_risk_is_stable e w then risk_block ''session_risk''
          else (case authenticated_session_age_seconds e w of
              None \<Rightarrow> risk_block ''session_state_unavailable''
            | Some session_age \<Rightarrow>
                if u_payup_daily_limit user < daily_used + amount then risk_block ''daily_limit_exceeded''
                else if session_max_age < session_age then risk_block ''stale_session''
                else if has_recent_payup_sensitive_event e (u_id user) cooldown db
                then risk_block ''recent_sensitive_event''
                else let reasons = step_up_reasons amount quick_transfer_cap (daily_used + amount) quick_daily_cap in
                  if reasons \<noteq> [] then \<lparr>pr_decision = ''step_up'', pr_reasons = reasons\<rparr>
                  else \<lparr>pr_decision = ''allow'', pr_reasons = []\<rparr>)
      | _ \<Rightarrow> risk_block ''risk_state_unavailable'')"

subsection \<open>The transfer\<close>

definition payup_transfer_token_verifier :: "env \<Rightarrow> string \<Rightarrow> string" where
  "payup_transfer_token_verifier e token = active_hmac_hex e (''payup-transfer-confirmation:'' @ token) 64"

text \<open>Every refusal audits, commits what the session holds and raises.\<close>

definition reject_payup :: "env \<Rightarrow> user \<Rightarrow> string \<Rightarrow> int \<Rightarrow> (string \<times> json) list \<Rightarrow> 'a request" where
  "reject_payup e sender message status_code metadata =
     bindA (audit_outbound_transfer e sender ''failure'' metadata None None) (\<lambda>_.
     bindA commitA (\<lambda>_.
     raise (auth_error message status_code)))"

definition payup_channel :: "string \<times> json" where
  "payup_channel = (''transfer_channel'', JStr ''payup'')"

definition payup_sender_has_nickname :: "user \<Rightarrow> bool" where
  "payup_sender_has_nickname sender \<longleftrightarrow>
     (let nickname = py_strip (case u_payup_nickname sender of None \<Rightarrow> [] | Some n \<Rightarrow> n) in
      2 \<le> length nickname \<and> length nickname \<le> 128
      \<and> \<not> list_ex (\<lambda>c. let n = (of_char c :: nat) in n < 32 \<or> n = 127) nickname)"

definition payup_pending_matches :: "env \<Rightarrow> user \<Rightarrow> string \<Rightarrow> payup_pending \<Rightarrow> bool" where
  "payup_pending_matches e sender token p \<longleftrightarrow>
     pp_token p = payup_transfer_token_verifier e token \<and> pp_user_id p = u_id sender \<and> pp_consumed_at p = None"

definition consume_payup :: "int \<Rightarrow> time \<Rightarrow> database \<Rightarrow> database" where
  "consume_payup pid at db = db\<lparr>payup_pending_transfers :=
     upd_where (\<lambda>p. pp_id p = pid) (\<lambda>p. p\<lparr>pp_consumed_at := Some at\<rparr>) (payup_pending_transfers db)\<rparr>"

definition mark_payup_ref :: "int \<Rightarrow> string \<Rightarrow> database \<Rightarrow> database" where
  "mark_payup_ref pid ref db = db\<lparr>payup_pending_transfers :=
     upd_where (\<lambda>p. pp_id p = pid) (\<lambda>p. p\<lparr>pp_consumed_ref := Some ref\<rparr>) (payup_pending_transfers db)\<rparr>"

definition load_and_lock_payup_pending_transfer :: "env \<Rightarrow> user \<Rightarrow> string \<Rightarrow> payup_pending request" where
  "load_and_lock_payup_pending_transfer e sender confirmation_token =
     bindA (queryA (\<lambda>db. find (payup_pending_matches e sender confirmation_token) (payup_pending_transfers db))) (\<lambda>found.
     case found of
       None \<Rightarrow> reject_payup e sender confirmation_expired_message 409
         [(''reason'', JStr ''confirmation_token_not_found''), payup_channel]
     | Some pending \<Rightarrow>
         if pp_expires_at pending < now e
         then reject_payup e sender confirmation_expired_message 409
           [(''reason'', JStr ''confirmation_token_expired''), payup_channel]
         else bindA (updateA (consume_payup (pp_id pending) (now e))) (\<lambda>_. ret pending))"

definition validate_payup_amount :: "env \<Rightarrow> user \<Rightarrow> payup_pending \<Rightarrow> cents request" where
  "validate_payup_amount e sender pending =
     bindA (if pp_amount pending mod 1000 \<noteq> 0
            then reject_payup e sender ''Transfer amount must have at most two decimal places.'' 400
              [(''reason'', JStr ''invalid_amount_precision''),
               (''amount_band'', JStr (amount_audit_band pending_unit (pp_amount pending))), payup_channel]
            else ret (pp_amount pending div 1000)) (\<lambda>amount.
     if amount < min_transaction_amount \<or> max_transaction_amount < amount
     then reject_payup e sender ''Transfer amount is out of the allowed range.'' 400
       [(''reason'', JStr ''amount_out_of_range''), (''amount_band'', JStr (amount_audit_band cents_unit amount)), payup_channel]
     else ret amount)"

definition validate_payup_recipient :: "env \<Rightarrow> user \<Rightarrow> int \<Rightarrow> user request" where
  "validate_payup_recipient e sender recipient_user_id =
     bindA (queryA (\<lambda>db. user_by_id db recipient_user_id)) (\<lambda>found.
     case found of
       None \<Rightarrow> reject_payup e sender ''Recipient account not found.'' 400
         [(''reason'', JStr ''recipient_not_found''), payup_channel]
     | Some recipient \<Rightarrow>
         bindA (if u_id recipient = u_id sender
                then reject_payup e sender ''Cannot transfer to yourself.'' 400
                  [(''reason'', JStr ''self_transfer''), payup_channel]
                else ret ()) (\<lambda>_.
         if u_account_status recipient \<noteq> ''active'' \<or> u_is_frozen recipient \<or> u_phone_number recipient \<in> {None, Some []}
         then reject_payup e sender ''Recipient account is not available to receive transfers.'' 400
           [(''reason'', JStr ''recipient_account_unavailable''), payup_channel]
         else ret recipient))"

definition post_payup ::
  "string \<Rightarrow> signature \<Rightarrow> int \<Rightarrow> int \<Rightarrow> cents \<Rightarrow> string \<Rightarrow> time \<Rightarrow> int \<Rightarrow> database \<Rightarrow> database"
where
  "post_payup ref sig sid rid amount reference created_at pending_id db =
     mark_payup_ref pending_id ref
       (add_transaction ref sig sid rid None amount reference ''payup'' created_at
         (add_balance rid amount (add_balance sid (- amount) db)))"

definition json_strings :: "string list \<Rightarrow> json" where
  "json_strings xs = JArr (map JStr xs)"

definition complete_payup ::
  "env \<Rightarrow> user \<Rightarrow> user \<Rightarrow> user \<Rightarrow> payup_pending \<Rightarrow> string \<Rightarrow> cents \<Rightarrow> cents \<Rightarrow> payup_risk \<Rightarrow> string request"
where
  "complete_payup e sender locked_sender locked_recipient pending reference amount used risk =
     (case sign_transaction_integrity e (new_uuid e) (u_id locked_sender) (u_id locked_recipient) None amount reference
             ''completed'' ''payup'' (now e) of
        Inl err \<Rightarrow> raise err
      | Inr sig \<Rightarrow>
          bindA (updateA (post_payup (new_uuid e) sig (u_id locked_sender) (u_id locked_recipient) amount reference (now e)
                   (pp_id pending))) (\<lambda>_.
          publish_transfer e ''PayUp'' sender locked_recipient
            [(''amount_band'', JStr (amount_audit_band cents_unit amount)), (''reference_present'', JBool (reference \<noteq> [])),
             (''reference_length'', JInt (int (length reference))), payup_channel,
             (''step_up_used'', JBool (requires_step_up risk)), (''risk_reasons'', json_strings (pr_reasons risk))]
            None used amount (u_payup_daily_limit locked_sender)))"

definition settle_payup :: "env \<Rightarrow> user \<Rightarrow> bool \<Rightarrow> user \<Rightarrow> payup_pending \<Rightarrow> string \<Rightarrow> cents \<Rightarrow> string request" where
  "settle_payup e sender authorized recipient pending reference amount =
     bindA (lock_transfer_participants (u_id sender) (u_id recipient)) (\<lambda>(locked_sender, locked_recipient).
     bindA (queryA (payup_amount_used_today e (u_id locked_sender))) (\<lambda>used.
     bindA (getsA (\<lambda>s. evaluate_payup_risk e (web s) locked_sender amount (Some used) (working s))) (\<lambda>risk.
     bindA (if blocked risk
            then reject_payup e sender ''PayUp could not authorize this transfer.'' 403
              [(''reason'', JStr (hd (pr_reasons risk))), (''risk_reasons'', json_strings (pr_reasons risk)),
               (''amount_band'', JStr (amount_audit_band cents_unit amount)), payup_channel]
            else ret ()) (\<lambda>_.
     bindA (if requires_step_up risk \<and> \<not> authorized
            then reject_payup e sender ''Authenticator code is required for this transfer amount.'' 403
              [(''reason'', JStr ''payup_step_up_required''), (''risk_reasons'', json_strings (pr_reasons risk)), payup_channel]
            else ret ()) (\<lambda>_.
     bindA (if u_balance locked_sender < amount
            then reject_payup e sender ''Insufficient funds.'' 400
              [(''reason'', JStr ''insufficient_funds''), (''amount_band'', JStr (amount_audit_band cents_unit amount)),
               payup_channel]
            else ret ()) (\<lambda>_.
     complete_payup e sender locked_sender locked_recipient pending reference amount used risk))))))"

definition execute_payup_transfer :: "env \<Rightarrow> user \<Rightarrow> string \<Rightarrow> bool \<Rightarrow> string request" where
  "execute_payup_transfer e sender confirmation_token authorized =
     bindA (ensure_outbound_transfer_allowed e sender) (\<lambda>_.
     bindA (if \<not> payup_sender_has_nickname sender
            then reject_payup e sender ''Set your PayUp display nickname before sending by phone number.'' 403
              [(''reason'', JStr ''payup_nickname_required''), payup_channel]
            else ret ()) (\<lambda>_.
     bindA (load_and_lock_payup_pending_transfer e sender confirmation_token) (\<lambda>pending.
     bindA (validate_payup_amount e sender pending) (\<lambda>amount.
     bindA (validate_payup_recipient e sender (pp_recipient_user_id pending)) (\<lambda>recipient.
     settle_payup e sender authorized recipient pending (take 128 (pp_reference pending)) amount)))))"

subsection \<open>Frames\<close>

lemma raises_reject_payup [simp]: "raises (reject_payup e u m c md)"
  unfolding reject_payup_def by (intro raises_bindA) simp

lemma reject_payup_not_Inr [simp]: "reject_payup e u m c md s \<noteq> (Inr x, t)"
  by (rule raises_not_Inr) simp

lemma preserves_reject_payup [preserves_rules]:
  "keeps_audit e P \<Longrightarrow> preserves (both P) (reject_payup e u m c md)"
  unfolding reject_payup_def by (intro preserves_rules)

lemma preserves_load_payup:
  assumes "keeps_audit e P" and "\<And>db i t. P db \<Longrightarrow> P (consume_payup i t db)"
  shows "preserves (both P) (load_and_lock_payup_pending_transfer e u tok)"
  unfolding load_and_lock_payup_pending_transfer_def
  by (intro preserves_rules preserves_both_updateA assms)

lemma preserves_validate_payup_amount [preserves_rules]:
  "keeps_audit e P \<Longrightarrow> preserves (both P) (validate_payup_amount e u p)"
  unfolding validate_payup_amount_def by (intro preserves_rules)

lemma preserves_validate_payup_recipient [preserves_rules]:
  "keeps_audit e P \<Longrightarrow> preserves (both P) (validate_payup_recipient e u i)"
  unfolding validate_payup_recipient_def by (intro preserves_rules)

lemma consume_payup_frame [simp]:
  "users (consume_payup i t db) = users db" "transactions (consume_payup i t db) = transactions db"
  "registration_credits (consume_payup i t db) = registration_credits db" "topup_credits (consume_payup i t db) = topup_credits db"
  "audit_rows (consume_payup i t db) = audit_rows db" "pending_transfers (consume_payup i t db) = pending_transfers db"
  "topup_requests (consume_payup i t db) = topup_requests db"
  by (simp_all add: consume_payup_def)

lemma mark_payup_frame [simp]:
  "users (mark_payup_ref i t db) = users db" "transactions (mark_payup_ref i t db) = transactions db"
  "registration_credits (mark_payup_ref i t db) = registration_credits db" "topup_credits (mark_payup_ref i t db) = topup_credits db"
  "audit_rows (mark_payup_ref i t db) = audit_rows db" "pending_transfers (mark_payup_ref i t db) = pending_transfers db"
  "topup_requests (mark_payup_ref i t db) = topup_requests db"
  by (simp_all add: mark_payup_ref_def)

lemma payup_db_frames [simp]:
  "user_by_id (consume_payup i t db) = user_by_id db" "user_by_id (mark_payup_ref i r db) = user_by_id db"
  "used_today ty e uid (consume_payup i t db) = used_today ty e uid db"
  "used_today ty e uid (mark_payup_ref i r db) = used_today ty e uid db"
  "ledger_ok (consume_payup i t db) = ledger_ok db" "ledger_ok (mark_payup_ref i r db) = ledger_ok db"
  by (simp_all add: user_by_id_def fun_eq_iff used_today_def ledger_ok_def account_net_def)

lemma payup_invariant_frames [simp]:
  "solvent (consume_payup i t db) = solvent db" "solvent (mark_payup_ref i r db) = solvent db"
  "total_is T (consume_payup i t db) = total_is T db" "total_is T (mark_payup_ref i r db) = total_is T db"
  "token_spent k (consume_payup i t db) = token_spent k db" "token_spent k (mark_payup_ref i r db) = token_spent k db"
  by (simp_all add: solvent_def total_is_def total_balance_def token_spent_def)

lemma recent_event_frame: "has_recent_payup_sensitive_event e j c (consume_payup i t db) = has_recent_payup_sensitive_event e j c db"
  by (simp add: has_recent_payup_sensitive_event_def)

lemma evaluate_payup_risk_frame [simp]:
  "evaluate_payup_risk e w u a (Some x) (consume_payup i t db) = evaluate_payup_risk e w u a (Some x) db"
  unfolding evaluate_payup_risk_def recent_event_frame by simp

subsection \<open>What the policy decides\<close>

text \<open>The policy without its order: when a transfer may go ahead at all, and when it needs a code.\<close>

definition payup_eligible :: "env \<Rightarrow> web_session \<Rightarrow> user \<Rightarrow> cents \<Rightarrow> cents \<Rightarrow> database \<Rightarrow> bool" where
  "payup_eligible e w user amount used db \<longleftrightarrow>
     (\<exists>cap dcap age cool session_age.
        cfg_payup_quick_transfer_cap (cfg e) = Some cap \<and> cfg_payup_quick_daily_cap (cfg e) = Some dcap
      \<and> cfg_payup_session_max_age (cfg e) = Some age \<and> cfg_payup_sensitive_cooldown (cfg e) = Some cool
      \<and> 0 < amount \<and> 0 \<le> used \<and> 0 < cap \<and> 0 < dcap \<and> 0 < u_payup_daily_limit user
      \<and> used + amount \<le> u_payup_daily_limit user
      \<and> u_payup_enabled user \<and> u_mfa_enabled user
      \<and> authenticated_session_risk_is_stable e w \<and> authenticated_session_age_seconds e w = Some session_age \<and> session_age \<le> age
      \<and> \<not> has_recent_payup_sensitive_event e (u_id user) cool db)"

definition payup_within_caps :: "env \<Rightarrow> cents \<Rightarrow> cents \<Rightarrow> bool" where
  "payup_within_caps e amount used \<longleftrightarrow>
     (\<exists>cap dcap. cfg_payup_quick_transfer_cap (cfg e) = Some cap \<and> cfg_payup_quick_daily_cap (cfg e) = Some dcap
        \<and> amount \<le> cap \<and> used + amount \<le> dcap)"

lemma step_up_reasons_Nil: "step_up_reasons a c p d = [] \<longleftrightarrow> a \<le> c \<and> p \<le> d"
  by (auto simp: step_up_reasons_def)

lemma risk_block_fields [simp]: "pr_decision (risk_block r) = ''block''" "pr_reasons (risk_block r) = [r]"
  by (simp_all add: risk_block_def)

lemma risk_decision_cases:
  "pr_decision (evaluate_payup_risk e w u a (Some x) db) =
     (if \<not> payup_eligible e w u a x db then ''block'' else if payup_within_caps e a x then ''allow'' else ''step_up'')"
proof (cases "cfg_payup_quick_transfer_cap (cfg e) = None \<or> cfg_payup_quick_daily_cap (cfg e) = None
    \<or> cfg_payup_session_max_age (cfg e) = None \<or> cfg_payup_sensitive_cooldown (cfg e) = None")
  case True
  then show ?thesis by (auto simp: evaluate_payup_risk_def payup_eligible_def split: option.splits)
next
  case False
  then obtain c d m k where cfg: "cfg_payup_quick_transfer_cap (cfg e) = Some c" "cfg_payup_quick_daily_cap (cfg e) = Some d"
      "cfg_payup_session_max_age (cfg e) = Some m" "cfg_payup_sensitive_cooldown (cfg e) = Some k" by auto
  show ?thesis
    by (simp add: evaluate_payup_risk_def Let_def cfg has_enrolled_mfa_method_def payup_eligible_def payup_within_caps_def
        step_up_reasons_Nil not_le not_less split: option.split)
qed

subsection \<open>Outcomes of the steps\<close>

lemma load_payup_spec:
  assumes "load_and_lock_payup_pending_transfer e sender tok s = (Inr p, t)"
  shows "t = s\<lparr>working := consume_payup (pp_id p) (now e) (working s)\<rparr> \<and> p \<in> set (payup_pending_transfers (working s))
    \<and> payup_pending_matches e sender tok p \<and> now e \<le> pp_expires_at p"
  using assms
  by (auto simp: load_and_lock_payup_pending_transfer_def split: if_splits option.splits dest: find_SomeD)

lemma payup_amount_spec:
  assumes "validate_payup_amount e sender p s = (Inr a, t)"
  shows "t = s \<and> pp_amount p = 1000 * a \<and> min_transaction_amount \<le> a \<and> a \<le> max_transaction_amount"
  using assms
  by (auto simp: validate_payup_amount_def bindA_eq_Inr split: if_splits)

lemma payup_recipient_spec:
  assumes "validate_payup_recipient e sender i s = (Inr r, t)"
  shows "t = s \<and> u_id r \<noteq> u_id sender \<and> user_by_id (working s) i = Some r \<and> u_account_status r = ''active''
    \<and> \<not> u_is_frozen r \<and> u_phone_number r \<notin> {None, Some []}"
  using assms
  by (auto simp: validate_payup_recipient_def bindA_eq_Inr split: if_splits option.splits)

subsection \<open>Invariants\<close>

definition survives_payup :: "env \<Rightarrow> (database \<Rightarrow> bool) \<Rightarrow> bool" where
  "survives_payup e P \<longleftrightarrow> keeps_audit e P
     \<and> (\<forall>db i t. P db \<longrightarrow> P (consume_payup i t db))
     \<and> (\<forall>db ref sig sid rid amt d i u v. P db \<and> user_by_id db sid = Some u \<and> user_by_id db rid = Some v
         \<and> sid \<noteq> rid \<and> min_transaction_amount \<le> amt \<and> amt \<le> u_balance u
         \<and> payup_amount_used_today e sid db + amt \<le> u_payup_daily_limit u
         \<longrightarrow> P (post_payup ref sig sid rid amt d (now e) i db))"

lemma survives_payupI:
  assumes "keeps_audit e P" and "\<And>db i t. P db \<Longrightarrow> P (consume_payup i t db)"
    and "\<And>db ref sig sid rid amt d i u v. P db \<Longrightarrow> user_by_id db sid = Some u \<Longrightarrow> user_by_id db rid = Some v \<Longrightarrow>
       sid \<noteq> rid \<Longrightarrow> min_transaction_amount \<le> amt \<Longrightarrow> amt \<le> u_balance u \<Longrightarrow>
       payup_amount_used_today e sid db + amt \<le> u_payup_daily_limit u \<Longrightarrow>
       P (post_payup ref sig sid rid amt d (now e) i db)"
  shows "survives_payup e P"
  unfolding survives_payup_def using assms by blast

lemma survives_post_payup:
  assumes "survives_payup e P" and "P db" and "user_by_id db sid = Some u" and "user_by_id db rid = Some v"
    and "sid \<noteq> rid" and "min_transaction_amount \<le> amt" and "amt \<le> u_balance u"
    and "payup_amount_used_today e sid db + amt \<le> u_payup_daily_limit u"
  shows "P (post_payup ref sig sid rid amt d (now e) i db)"
  using assms unfolding survives_payup_def by blast

lemma not_blocked_limit:
  "\<not> blocked (evaluate_payup_risk e w u a (Some x) db) \<Longrightarrow> x + a \<le> u_payup_daily_limit u"
  by (auto simp: blocked_def risk_decision_cases payup_eligible_def split: if_splits)

text \<open>The part under the row locks, for every postcondition.\<close>

lemma settle_payup_rule:
  assumes audit: "keeps_audit e P"
    and complete: "\<And>u v used risk. \<not> u_balance u < amount \<Longrightarrow>
       triple (\<lambda>s. both P s \<and> ((user_by_id (working s) (u_id sender) = Some u \<and> user_by_id (working s) (u_id recipient) = Some v)
           \<and> payup_amount_used_today e (u_id u) (working s) = used)
           \<and> used + amount \<le> u_payup_daily_limit u)
         (complete_payup e sender u v pending reference amount used risk) Q (both P)"
  shows "triple (both P) (settle_payup e sender auth recipient pending reference amount) Q (both P)"
  unfolding settle_payup_def
proof (rule triple_bindA)
  let ?F = "\<lambda>(u, v) s. both P s \<and> user_by_id (working s) (u_id sender) = Some u \<and> user_by_id (working s) (u_id recipient) = Some v"
  show "triple (both P) (lock_transfer_participants (u_id sender) (u_id recipient)) ?F (both P)"
    by (rule tripleI) (auto simp: lock_transfer_participants_def split: option.splits)
  show "triple (?F x) (case x of (u, v) \<Rightarrow> bindA (queryA (payup_amount_used_today e (u_id u))) (\<lambda>used.
     bindA (getsA (\<lambda>s. evaluate_payup_risk e (web s) u amount (Some used) (working s))) (\<lambda>risk.
     bindA (if blocked risk
            then reject_payup e sender ''PayUp could not authorize this transfer.'' 403
              [(''reason'', JStr (hd (pr_reasons risk))), (''risk_reasons'', json_strings (pr_reasons risk)),
               (''amount_band'', JStr (amount_audit_band cents_unit amount)), payup_channel]
            else ret ()) (\<lambda>_.
     bindA (if requires_step_up risk \<and> \<not> auth
            then reject_payup e sender ''Authenticator code is required for this transfer amount.'' 403
              [(''reason'', JStr ''payup_step_up_required''), (''risk_reasons'', json_strings (pr_reasons risk)), payup_channel]
            else ret ()) (\<lambda>_.
     bindA (if u_balance u < amount
            then reject_payup e sender ''Insufficient funds.'' 400
              [(''reason'', JStr ''insufficient_funds''), (''amount_band'', JStr (amount_audit_band cents_unit amount)),
               payup_channel]
            else ret ()) (\<lambda>_.
     complete_payup e sender u v pending reference amount used risk)))))) Q (both P)" for x
  proof (cases x)
    case (Pair u v)
    show ?thesis
      unfolding Pair prod.case
      by (intro triple_guard_bind triple_bind_queryA triple_bind_getsA raises_reject_payup preserves_reject_payup audit triple_pre [OF complete])
         (auto dest: not_blocked_limit)
  qed
qed

lemma complete_payup_rule:
  assumes "\<And>sig. triple F (updateA (post_payup (new_uuid e) sig (u_id u) (u_id v) amount reference (now e) (pp_id pending)))
      (\<lambda>_. G) R"
    and "\<And>md. triple G (publish_transfer e ''PayUp'' sender v md None used amount (u_payup_daily_limit u)) Q R"
    and "\<And>s. F s \<Longrightarrow> R s"
  shows "triple F (complete_payup e sender u v pending reference amount used risk) Q R"
proof (cases "sign_transaction_integrity e (new_uuid e) (u_id u) (u_id v) None amount reference ''completed'' ''payup'' (now e)")
  case (Inr sig)
  show ?thesis
    unfolding complete_payup_def Inr sum.case by (rule triple_bindA [OF assms(1,2)])
qed (simp add: complete_payup_def triple_def assms(3))

lemma settle_payup_triple:
  assumes P: "survives_payup e P" and ne: "u_id sender \<noteq> u_id recipient" and amt: "min_transaction_amount \<le> amount"
  shows "triple (both P) (settle_payup e sender auth recipient pending reference amount) (\<lambda>_. both P) (both P)"
proof (rule settle_payup_rule)
  show audit: "keeps_audit e P" using P by (simp add: survives_payup_def)
  fix u v :: user and used risk
  assume b: "\<not> u_balance u < amount"
  let ?F = "\<lambda>s. both P s \<and> ((user_by_id (working s) (u_id sender) = Some u \<and> user_by_id (working s) (u_id recipient) = Some v)
           \<and> payup_amount_used_today e (u_id u) (working s) = used) \<and> used + amount \<le> u_payup_daily_limit u"
  have "triple ?F (updateA (post_payup (new_uuid e) sig (u_id u) (u_id v) amount reference (now e) (pp_id pending)))
      (\<lambda>_. both P) (both P)" for sig
    using ne amt b user_by_id_member by (auto simp: triple_def both_def not_less intro!: survives_post_payup [OF P])
  then show "triple ?F (complete_payup e sender u v pending reference amount used risk) (\<lambda>_. both P) (both P)"
    by (rule complete_payup_rule [OF _ triple_preserves [OF preserves_publish_transfer [OF audit]]]) simp
qed

lemma execute_payup_triple:
  assumes audit: "keeps_audit e P" and consume: "\<And>db i t. P db \<Longrightarrow> P (consume_payup i t db)"
    and settle: "\<And>recipient pending d amount. u_id sender \<noteq> u_id recipient \<Longrightarrow> min_transaction_amount \<le> amount \<Longrightarrow>
       triple (both P) (settle_payup e sender auth recipient pending d amount) Q (both P)"
  shows "triple (both P) (execute_payup_transfer e sender tok auth) Q (both P)"
proof -
  have rcpt: "triple (both P) (bindA (validate_payup_recipient e sender i) (\<lambda>recipient.
      settle_payup e sender auth recipient pending d amount)) Q (both P)"
    if "min_transaction_amount \<le> amount" for i pending d amount
    using that payup_recipient_spec settle
    by (intro triple_bind_fact [where F = "\<lambda>r. u_id sender \<noteq> u_id r"] preserves_rules audit) fastforce+
  have amount: "triple (both P) (bindA (validate_payup_amount e sender pending) (\<lambda>amount.
      bindA (validate_payup_recipient e sender i) (\<lambda>recipient.
      settle_payup e sender auth recipient pending d amount))) Q (both P)" for i pending d
    using payup_amount_spec rcpt
    by (intro triple_bind_fact [where F = "\<lambda>a. min_transaction_amount \<le> a"] preserves_rules audit) fastforce+
  show ?thesis
    unfolding execute_payup_transfer_def
    by (intro triple_bind_step amount preserves_load_payup consume preserves_rules audit)
qed

lemma execute_payup_survives:
  assumes "survives_payup e P"
  shows "preserves (both P) (execute_payup_transfer e sender tok auth)"
  using assms settle_payup_triple [OF assms]
  by (intro preserves_triple execute_payup_triple) (auto simp: survives_payup_def)

lemma execute_payup_error_triple:
  assumes "keeps_audit e P" and "\<And>db i t. P db \<Longrightarrow> P (consume_payup i t db)"
  shows "triple (both P) (execute_payup_transfer e sender tok auth) (\<lambda>_ _. True) (both P)"
proof -
  have c: "triple (both P) (complete_payup e sender u v pending d amount used risk) (\<lambda>_ _. True) (both P)"
    for u v pending d amount used risk
    by (rule complete_payup_rule [OF _ publish_error_triple]) (simp_all add: triple_def both_def)
  show ?thesis
    by (intro execute_payup_triple settle_payup_rule assms triple_pre [OF c]) simp_all
qed

subsection \<open>A completed PayUp transfer\<close>

definition posted_payup :: "env \<Rightarrow> user \<Rightarrow> user \<Rightarrow> payup_pending \<Rightarrow> cents \<Rightarrow> signature \<Rightarrow> database \<Rightarrow> database" where
  "posted_payup e sender recipient p amount sig db =
     post_payup (new_uuid e) sig (u_id sender) (u_id recipient) amount (take 128 (pp_reference p)) (now e) (pp_id p)
       (consume_payup (pp_id p) (now e) db)"

lemma settle_payup_spec:
  assumes "settle_payup e sender auth recipient pending reference amount s = (Inr ref, t)"
  shows "\<exists>u v sig. user_by_id (working s) (u_id sender) = Some u \<and> user_by_id (working s) (u_id recipient) = Some v
    \<and> amount \<le> u_balance u
    \<and> payup_eligible e (web s) u amount (payup_amount_used_today e (u_id sender) (working s)) (working s)
    \<and> (payup_within_caps e amount (payup_amount_used_today e (u_id sender) (working s)) \<or> auth)
    \<and> ref = new_uuid e
    \<and> sign_transaction_integrity e ref (u_id sender) (u_id recipient) None amount reference ''completed'' ''payup'' (now e) = Inr sig
    \<and> (let db = post_payup ref sig (u_id sender) (u_id recipient) amount reference (now e) (pp_id pending) (working s)
       in storable db \<and> both (same_but_audit db) t)"
proof -
  from assms obtain u v used risk where
    uv: "user_by_id (working s) (u_id sender) = Some u" "user_by_id (working s) (u_id recipient) = Some v"
    and risk: "used = payup_amount_used_today e (u_id u) (working s)" "risk = evaluate_payup_risk e (web s) u amount (Some used) (working s)"
    and g: "\<not> blocked risk" "\<not> (requires_step_up risk \<and> \<not> auth)" "\<not> u_balance u < amount"
    and c: "complete_payup e sender u v pending reference amount used risk s = (Inr ref, t)"
    by (auto simp: settle_payup_def bindA_eq_Inr lock_spec split: if_splits)
  have id: "u_id u = u_id sender" "u_id v = u_id recipient" using uv user_by_id_member by auto
  from c obtain sig where sig: "sign_transaction_integrity e (new_uuid e) (u_id u) (u_id v) None amount reference
        ''completed'' ''payup'' (now e) = Inr sig"
    by (auto simp: complete_payup_def split: sum.splits)
  let ?db = "post_payup (new_uuid e) sig (u_id u) (u_id v) amount reference (now e) (pp_id pending) (working s)"
  from c sig obtain md where
    "publish_transfer e ''PayUp'' sender v md None used amount (u_payup_daily_limit u) (s\<lparr>working := ?db\<rparr>) = (Inr ref, t)"
    by (auto simp: complete_payup_def)
  from publish_ok [OF this] have "storable ?db \<and> both (same_but_audit ?db) t \<and> ref = new_uuid e" by simp
  moreover have "payup_eligible e (web s) u amount used (working s) \<and> (payup_within_caps e amount used \<or> auth)"
    using g(1,2) by (auto simp: risk(2) blocked_def requires_step_up_def risk_decision_cases split: if_splits)
  ultimately show ?thesis using uv g(3) sig id risk(1) by (auto simp: Let_def not_less)
qed

lemma eligible_frame [simp]: "payup_eligible e w u a x (consume_payup i t db) = payup_eligible e w u a x db"
  by (simp add: payup_eligible_def recent_event_frame)

lemma execute_payup_ok:
  assumes "execute_payup_transfer e sender tok auth s = (Inr ref, t)"
  shows "ref = new_uuid e \<and> \<not> u_is_frozen sender \<and> u_security_locked_at sender = None \<and> payup_sender_has_nickname sender
    \<and> (\<exists>recipient p amount u v sig.
        p \<in> set (payup_pending_transfers (working s)) \<and> payup_pending_matches e sender tok p \<and> now e \<le> pp_expires_at p
      \<and> pp_amount p = 1000 * amount \<and> min_transaction_amount \<le> amount \<and> amount \<le> max_transaction_amount
      \<and> user_by_id (working s) (pp_recipient_user_id p) = Some recipient
      \<and> u_id recipient \<noteq> u_id sender \<and> u_account_status recipient = ''active'' \<and> \<not> u_is_frozen recipient
      \<and> user_by_id (working s) (u_id sender) = Some u \<and> user_by_id (working s) (u_id recipient) = Some v
      \<and> amount \<le> u_balance u
      \<and> payup_eligible e (web s) u amount (payup_amount_used_today e (u_id sender) (working s)) (working s)
      \<and> (payup_within_caps e amount (payup_amount_used_today e (u_id sender) (working s)) \<or> auth)
      \<and> sign_transaction_integrity e ref (u_id sender) (u_id recipient) None amount
          (take 128 (pp_reference p)) ''completed'' ''payup'' (now e) = Inr sig
      \<and> storable (posted_payup e sender recipient p amount sig (working s))
      \<and> both (same_but_audit (posted_payup e sender recipient p amount sig (working s))) t)"
proof -
  from assms obtain s1 s2 p s3 amount s4 recipient s5 where
    1: "ensure_outbound_transfer_allowed e sender s = (Inr (), s1)"
    and 2: "payup_sender_has_nickname sender" "s2 = s1"
    and 3: "load_and_lock_payup_pending_transfer e sender tok s2 = (Inr p, s3)"
    and 4: "validate_payup_amount e sender p s3 = (Inr amount, s4)"
    and 5: "validate_payup_recipient e sender (pp_recipient_user_id p) s4 = (Inr recipient, s5)"
    and 6: "settle_payup e sender auth recipient p (take 128 (pp_reference p)) amount s5 = (Inr ref, t)"
    unfolding execute_payup_transfer_def bindA_eq_Inr by (auto split: if_splits)
  note specs = outbound_allowed_spec [OF 1] load_payup_spec [OF 3] payup_amount_spec [OF 4] payup_recipient_spec [OF 5]
  then have s: "s1 = s" "s2 = s" and s5: "s5 = s\<lparr>working := consume_payup (pp_id p) (now e) (working s)\<rparr>" "s4 = s5"
    using 2 by auto
  have w: "working s5 = consume_payup (pp_id p) (now e) (working s)" "web s5 = web s" by (simp_all add: s5)
  obtain u v sig where f: "user_by_id (working s) (u_id sender) = Some u" "user_by_id (working s) (u_id recipient) = Some v"
      "amount \<le> u_balance u"
      "payup_eligible e (web s) u amount (payup_amount_used_today e (u_id sender) (working s)) (working s)"
      "payup_within_caps e amount (payup_amount_used_today e (u_id sender) (working s)) \<or> auth" "ref = new_uuid e"
      "sign_transaction_integrity e ref (u_id sender) (u_id recipient) None amount (take 128 (pp_reference p))
        ''completed'' ''payup'' (now e) = Inr sig"
      "storable (posted_payup e sender recipient p amount sig (working s))"
      "both (same_but_audit (posted_payup e sender recipient p amount sig (working s))) t"
    using settle_payup_spec [OF 6] unfolding w Let_def posted_payup_def payup_amount_used_today_def
    by auto
  show ?thesis
    by (intro conjI exI [of _ recipient] exI [of _ p] exI [of _ amount] exI [of _ u] exI [of _ v] exI [of _ sig])
       (use specs f 2 in \<open>simp_all add: s s5\<close>)
qed

subsection \<open>Invariants that survive\<close>

lemma payup_survives_ledger_ok: "survives_payup e ledger_ok"
  by (rule survives_payupI) (simp_all add: keeps_audit_ledger_ok post_payup_def ledger_ok_transfer)

lemma payup_survives_solvent: "survives_payup e solvent"
  by (rule survives_payupI) (simp_all add: keeps_audit_solvent post_payup_def solvent_transfer min_transaction_amount_def)

lemma payup_survives_total: "survives_payup e (total_is T)"
  by (rule survives_payupI) (simp_all add: keeps_audit_total_is post_payup_def total_is_transfer)

text \<open>A PayUp transfer leaves the confirmations of local transfers alone, and the other way round.\<close>

lemma payup_survives_token_spent: "survives_payup e (token_spent k)"
  by (rule survives_payupI) (simp_all add: keeps_auditI post_payup_def)

definition payup_spent :: "string \<Rightarrow> database \<Rightarrow> bool" where
  "payup_spent k db \<longleftrightarrow> (k, None) \<notin> set (map (\<lambda>p. (pp_token p, pp_consumed_at p)) (payup_pending_transfers db))"

lemma payup_spent_frames [simp]:
  "payup_spent k (add_audit ev db) = payup_spent k db" "payup_spent k (add_balance i a db) = payup_spent k db"
  "payup_spent k (add_transaction ref sig s r pe amt d ty c db) = payup_spent k db"
  "payup_spent k (mark_payup_ref i ref db) = payup_spent k db"
  by (simp_all add: payup_spent_def mark_payup_ref_def map_upd_where_frame del: set_map)

lemma payup_spent_consume: "payup_spent k db \<Longrightarrow> payup_spent k (consume_payup i t db)"
  by (auto simp: payup_spent_def consume_payup_def set_upd_where)

lemma survives_payup_spent: "survives_payup e (payup_spent k)"
  by (rule survives_payupI) (simp_all add: keeps_auditI post_payup_def payup_spent_consume)

subsection \<open>An allowed PayUp transfer goes through\<close>

lemma execute_payup_completes:
  assumes "audit_ready e" and "\<not> u_is_frozen sender" and "u_security_locked_at sender = None" and "payup_sender_has_nickname sender"
    and "find (payup_pending_matches e sender tok) (payup_pending_transfers (working s)) = Some p" and "now e \<le> pp_expires_at p"
    and "pp_amount p = 1000 * amount" and "min_transaction_amount \<le> amount" and "amount \<le> max_transaction_amount"
    and "user_by_id (working s) (pp_recipient_user_id p) = Some v" and "u_id v \<noteq> u_id sender"
    and "u_account_status v = ''active''" and "\<not> u_is_frozen v" and "u_phone_number v \<notin> {None, Some []}"
    and "user_by_id (working s) (u_id sender) = Some u" and "amount \<le> u_balance u"
    and "payup_eligible e (web s) u amount (payup_amount_used_today e (u_id sender) (working s)) (working s)"
    and "payup_within_caps e amount (payup_amount_used_today e (u_id sender) (working s)) \<or> auth"
    and "sign_transaction_integrity e (new_uuid e) (u_id sender) (u_id v) None amount
          (take 128 (pp_reference p)) ''completed'' ''payup'' (now e) = Inr sig"
    and "storable (posted_payup e sender v p amount sig (working s))"
  shows "\<exists>t. execute_payup_transfer e sender tok auth s = (Inr (new_uuid e), t)"
proof -
  let ?s = "s\<lparr>working := consume_payup (pp_id p) (now e) (working s)\<rparr>"
  let ?db = "posted_payup e sender v p amount sig (working s)"
  let ?used = "payup_amount_used_today e (u_id sender) (working s)"
  have id: "u_id u = u_id sender" using assms(15) user_by_id_member by auto
  have idv: "u_id v = pp_recipient_user_id p" using assms(10) user_by_id_member by auto
  then have v: "user_by_id (working s) (u_id v) = Some v" using assms(10) by simp
  let ?risk = "evaluate_payup_risk e (web s) u amount (Some ?used) (working s)"
  have risk: "\<not> blocked ?risk" "\<not> (requires_step_up ?risk \<and> \<not> auth)"
    using assms(17,18) by (auto simp: blocked_def requires_step_up_def risk_decision_cases)
  have c: "\<exists>t. complete_payup e sender u v p (take 128 (pp_reference p)) amount ?used ?risk ?s = (Inr (new_uuid e), t)"
    using assms(19) publish_ready [OF assms(1), of "s\<lparr>working := ?db\<rparr>"] assms(20)
    by (simp add: complete_payup_def id posted_payup_def)
  have "settle_payup e sender auth v p (take 128 (pp_reference p)) amount ?s =
      complete_payup e sender u v p (take 128 (pp_reference p)) amount ?used ?risk ?s"
    using risk assms(15,16) v
    by (simp add: settle_payup_def lock_spec bindA_Inr [OF iffD2 [OF lock_spec]] payup_amount_used_today_def id)
  moreover have "ensure_outbound_transfer_allowed e sender s = (Inr (), s)"
    using assms(2,3) by (simp add: ensure_outbound_transfer_allowed_def ensure_banking_action_allowed_def
        ensure_account_not_frozen_def try_catch_def)
  moreover have "load_and_lock_payup_pending_transfer e sender tok s = (Inr p, ?s)"
    using assms(5,6) by (simp add: load_and_lock_payup_pending_transfer_def)
  moreover have "validate_payup_amount e sender p ?s = (Inr amount, ?s)"
    using assms(7,8,9) by (simp add: validate_payup_amount_def)
  moreover have "validate_payup_recipient e sender (pp_recipient_user_id p) ?s = (Inr v, ?s)"
    using assms(10-14) by (simp add: validate_payup_recipient_def)
  ultimately show ?thesis using c assms(4) by (simp add: execute_payup_transfer_def)
qed

definition payup_env :: env where
  "payup_env = sample_env\<lparr>cfg := sample_cfg\<lparr>cfg_payup_quick_transfer_cap := Some 10000, cfg_payup_quick_daily_cap := Some 20000,
     cfg_payup_session_max_age := Some 900, cfg_payup_sensitive_cooldown := Some 86400\<rparr>\<rparr>"

definition payup_session :: web_session where
  "payup_session = \<lparr>ws_sid = ''sid'', ws_data = [(''user_id'', JInt 1), (''auth_created_at'', JInt (now_s payup_env - 600)),
     (''risk_context'', JObj (current_session_risk_context payup_env))], ws_modified = False\<rparr>"

definition sample_payup :: payup_pending where
  "sample_payup = \<lparr>pp_id = 3, pp_token = payup_transfer_token_verifier payup_env ''tok'', pp_amount = 2500000,
     pp_reference = ''lunch'', pp_expires_at = now payup_env + 1, pp_consumed_at = None, pp_consumed_ref = None,
     pp_created_at = 0, pp_user_id = 1, pp_recipient_user_id = 2\<rparr>"

definition payup_bank :: world where
  "payup_bank = (fresh_world (empty_db\<lparr>users := [alice, bob], payup_pending_transfers := [sample_payup]\<rparr>))\<lparr>web := payup_session\<rparr>"

lemma audit_ready_payup: "audit_ready payup_env"
  by (simp add: audit_ready_def payup_env_def sample_env_def sample_cfg_def)

lemma payup_ring: "validated_keyring (cfg payup_env) = Inr [(''k1'', replicate 32 (CHR ''L''))]"
  by (simp add: validated_keyring_def payup_env_def sample_env_def sample_cfg_def py_strip_def py_isspace_def)

lemma payup_signature:
  "\<exists>h k. sign_transaction_integrity payup_env (new_uuid payup_env) (u_id alice) (u_id bob) None 2500
     (take 128 (pp_reference sample_payup)) ''completed'' ''payup'' (now payup_env) = Inr (h, k, ''hmac-sha256'', 1)"
  by (simp add: sign_transaction_integrity_def payup_ring Let_def transaction_integrity_algorithm_def
      transaction_integrity_version_def)

lemma sample_payup_eligible:
  "payup_eligible payup_env (web payup_bank) alice 2500 (payup_amount_used_today payup_env (u_id alice) (working payup_bank)) (working payup_bank)"
  "payup_within_caps payup_env 2500 (payup_amount_used_today payup_env (u_id alice) (working payup_bank))"
proof -
  have used: "payup_amount_used_today payup_env (u_id alice) (working payup_bank) = 0" by code_simp
  have "authenticated_session_age_seconds payup_env (web payup_bank) = Some 600"
    "authenticated_session_risk_is_stable payup_env (web payup_bank)" by code_simp+
  moreover have "\<not> has_recent_payup_sensitive_event payup_env (u_id alice) 86400 (working payup_bank)" by code_simp
  ultimately show "payup_eligible payup_env (web payup_bank) alice 2500 (payup_amount_used_today payup_env (u_id alice) (working payup_bank)) (working payup_bank)"
    unfolding used payup_eligible_def
    by (simp add: payup_env_def alice_def sample_user_def)
  show "payup_within_caps payup_env 2500 (payup_amount_used_today payup_env (u_id alice) (working payup_bank))"
    unfolding used by (simp add: payup_within_caps_def payup_env_def)
qed

lemma sample_payup_completes:
  "\<exists>t. execute_payup_transfer payup_env alice ''tok'' False payup_bank = (Inr (new_uuid payup_env), t)"
proof -
  obtain h k where sig: "sign_transaction_integrity payup_env (new_uuid payup_env) (u_id alice) (u_id bob) None 2500
     (take 128 (pp_reference sample_payup)) ''completed'' ''payup'' (now payup_env) = Inr (h, k, ''hmac-sha256'', 1)"
    using payup_signature by blast
  show ?thesis
  proof (rule execute_payup_completes [OF audit_ready_payup, where v = bob and p = sample_payup and amount = 2500
        and u = alice and sig = "(h, k, ''hmac-sha256'', 1)"])
    show "storable (posted_payup payup_env alice bob sample_payup 2500 (h, k, ''hmac-sha256'', 1) (working payup_bank))"
      by code_simp
  qed (rule sig sample_payup_eligible disjI1 | code_simp)+
qed

subsection \<open>Single use\<close>

type_synonym payup_request = "env \<times> user \<times> string \<times> bool"

definition serve_payup :: "payup_request \<Rightarrow> string request" where
  "serve_payup = (\<lambda>(e, sender, tok, auth). served (execute_payup_transfer e sender tok auth))"

definition payup_request_key :: "payup_request \<Rightarrow> string" where
  "payup_request_key = (\<lambda>(e, sender, tok, auth). payup_transfer_token_verifier e tok)"

lemma posted_payup_spent:
  assumes "p \<in> set (payup_pending_transfers db)" and "storable (posted_payup e u r p a sig db)"
  shows "payup_spent (pp_token p) (posted_payup e u r p a sig db)"
proof -
  let ?db = "posted_payup e u r p a sig db"
  have tok: "map pp_token (payup_pending_transfers ?db) = map pp_token (payup_pending_transfers db)"
    by (simp add: posted_payup_def post_payup_def mark_payup_ref_def consume_payup_def map_upd_where_frame)
  have "distinct (map pp_token (payup_pending_transfers db))"
    using assms(2) unfolding tok [symmetric] by (simp add: storable_def constraints_ok_def)
  then have "q = p" if "q \<in> set (payup_pending_transfers db)" "pp_token q = pp_token p" for q
    using that assms(1) by (auto simp: distinct_map inj_on_def)
  then have "payup_spent (pp_token p) (consume_payup (pp_id p) (now e) db)"
    by (auto simp: payup_spent_def consume_payup_def set_upd_where split: if_splits)
  then show ?thesis by (simp add: posted_payup_def post_payup_def)
qed

interpretation payup_single_use: single_use serve_payup payup_request_key "\<lambda>k. both (payup_spent k)"
proof
  fix r :: payup_request and s x t
  obtain e sender tok auth where r: "r = (e, sender, tok, auth)" by (cases r) auto
  assume "serve_payup r s = (Inr x, t)"
  then obtain t' where ok: "execute_payup_transfer e sender tok auth s = (Inr x, t')" and t: "t = t'\<lparr>working := committed t'\<rparr>"
    by (auto simp: serve_payup_def r served_eq)
  from execute_payup_ok [OF ok] obtain recipient p amount sig where
      p: "p \<in> set (payup_pending_transfers (working s))" "payup_pending_matches e sender tok p"
    and st: "storable (posted_payup e sender recipient p amount sig (working s))"
    and c: "both (same_but_audit (posted_payup e sender recipient p amount sig (working s))) t'"
    by blast
  have "payup_pending_transfers (committed t') = payup_pending_transfers (posted_payup e sender recipient p amount sig (working s))"
    using c by (intro same_but_auditD) (simp add: both_def)
  with posted_payup_spent [OF p(1) st] have "payup_spent (pp_token p) (committed t')"
    by (simp add: payup_spent_def)
  then show "both (payup_spent (payup_request_key r)) t"
    using p(2) by (simp add: t both_def payup_request_key_def r payup_pending_matches_def)
next
  fix k s and r :: payup_request
  assume "both (payup_spent k) s"
  then show "both (payup_spent k) (snd (serve_payup r s))"
    by (auto simp: serve_payup_def case_prod_beta
        intro!: preservesD preserves_rules execute_payup_survives survives_payup_spent)
next
  fix s and r :: payup_request
  obtain e sender tok auth where r: "r = (e, sender, tok, auth)" by (cases r) auto
  assume spent: "both (payup_spent (payup_request_key r)) s"
  show "isl (fst (serve_payup r s))"
  proof (cases "execute_payup_transfer e sender tok auth s")
    case (Pair x t)
    have False if "x = Inr ref" for ref
      using execute_payup_ok [of e sender tok auth s ref t] Pair that spent
      by (auto simp: r both_def payup_request_key_def payup_spent_def payup_pending_matches_def image_iff)
    with Pair show ?thesis by (cases x) (auto simp: serve_payup_def r served_def)
  qed
qed

subsection \<open>Properties\<close>

text \<open>
  C11. The PayUp risk policy in one statement: it blocks exactly when the transfer is not eligible (some
  configuration value missing, PayUp disabled, no second factor, an unstable, stale or invalid session, a
  recent sensitive event, or the daily limit), asks for an authenticator code exactly when an eligible
  transfer exceeds a quick cap, and allows the rest. The order of its checks only selects the reported
  reason.
\<close>

theorem payup_policy_decision:
  "pr_decision (evaluate_payup_risk e w user amount (Some used) db) =
     (if \<not> payup_eligible e w user amount used db then ''block''
      else if payup_within_caps e amount used then ''allow'' else ''step_up'')"
  by (rule risk_decision_cases)

text \<open>
  C12. What a completed PayUp transfer has done and why it was allowed: the sender was not frozen and has a
  display nickname, held an unexpired, unconsumed confirmation, the amount is the confirmed one in whole
  cents and within range, the recipient is another active, unfrozen account, the locked balance covers it,
  the risk policy, recomputed under the lock, found it eligible, and above the quick caps the caller said
  that a second factor was verified (\<open>auth\<close>). The committed database is the posted one up to audit events.
\<close>

theorem payup_success:
  assumes "execute_payup_transfer e sender tok auth s = (Inr ref, t)"
  shows "ref = new_uuid e \<and> \<not> u_is_frozen sender \<and> u_security_locked_at sender = None \<and> payup_sender_has_nickname sender
    \<and> (\<exists>recipient p amount u v sig.
        p \<in> set (payup_pending_transfers (working s)) \<and> payup_pending_matches e sender tok p \<and> now e \<le> pp_expires_at p
      \<and> pp_amount p = 1000 * amount \<and> min_transaction_amount \<le> amount \<and> amount \<le> max_transaction_amount
      \<and> user_by_id (working s) (pp_recipient_user_id p) = Some recipient
      \<and> u_id recipient \<noteq> u_id sender \<and> u_account_status recipient = ''active'' \<and> \<not> u_is_frozen recipient
      \<and> user_by_id (working s) (u_id sender) = Some u \<and> user_by_id (working s) (u_id recipient) = Some v
      \<and> amount \<le> u_balance u
      \<and> payup_eligible e (web s) u amount (payup_amount_used_today e (u_id sender) (working s)) (working s)
      \<and> (payup_within_caps e amount (payup_amount_used_today e (u_id sender) (working s)) \<or> auth)
      \<and> sign_transaction_integrity e ref (u_id sender) (u_id recipient) None amount
          (take 128 (pp_reference p)) ''completed'' ''payup'' (now e) = Inr sig
      \<and> storable (posted_payup e sender recipient p amount sig (working s))
      \<and> both (same_but_audit (posted_payup e sender recipient p amount sig (working s))) t)"
  using assms by (rule execute_payup_ok)

theorem payup_success_witness:
  "\<exists>t u. execute_payup_transfer payup_env alice ''tok'' False payup_bank = (Inr (new_uuid payup_env), t)
     \<and> user_by_id (working payup_bank) (u_id alice) = Some u"
  using sample_payup_completes payup_success by blast

text \<open>
  C16. A PayUp transfer is all or nothing: whenever \<^verbatim>\<open>execute_payup_transfer\<close> raises, every account, every
  ledger row and every credit is as it was.
\<close>

theorem payup_all_or_nothing:
  assumes "execute_payup_transfer e sender tok auth (fresh_world db) = (Inl err, t)"
  shows "ledger_part (committed t) = ledger_part db \<and> ledger_part (working t) = ledger_part db"
proof -
  have "triple (both (\<lambda>d. ledger_part d = ledger_part db)) (execute_payup_transfer e sender tok auth) (\<lambda>_ _. True)
      (both (\<lambda>d. ledger_part d = ledger_part db))"
    by (rule execute_payup_error_triple) (simp_all add: keeps_auditI ledger_part_def)
  from tripleD_err [OF this _ assms] show ?thesis by (simp add: both_def fresh_world_def)
qed

theorem payup_all_or_nothing_witness:
  "\<exists>t err. ledger_part (committed (t :: world)) = ledger_part empty_db
     \<and> execute_payup_transfer sample_env (alice\<lparr>u_is_frozen := True\<rparr>) ''tok'' False (fresh_world empty_db) = (Inl err, t)"
proof -
  obtain r t where "execute_payup_transfer sample_env (alice\<lparr>u_is_frozen := True\<rparr>) ''tok'' False (fresh_world empty_db) = (r, t)"
    by fastforce
  moreover from this obtain err where "r = Inl err"
    using execute_payup_ok [of sample_env "alice\<lparr>u_is_frozen := True\<rparr>" "''tok''" False "fresh_world empty_db"]
    by (cases r) auto
  ultimately show ?thesis using payup_all_or_nothing by blast
qed

text \<open>
  A PayUp confirmation token pays at most once, in any sequence of PayUp requests.
\<close>

theorem payup_confirmation_single_use:
  "successes payup_request_key k rs (fst (run_all serve_payup rs s)) \<le> 1"
  by (rule payup_single_use.at_most_one_success)

text \<open>
  An allowed PayUp transfer goes through: when every guard is met, the risk policy included, the call
  returns the new transaction reference.
\<close>

theorem payup_completes:
  assumes "audit_ready e" and "\<not> u_is_frozen sender" and "u_security_locked_at sender = None" and "payup_sender_has_nickname sender"
    and "find (payup_pending_matches e sender tok) (payup_pending_transfers (working s)) = Some p" and "now e \<le> pp_expires_at p"
    and "pp_amount p = 1000 * amount" and "min_transaction_amount \<le> amount" and "amount \<le> max_transaction_amount"
    and "user_by_id (working s) (pp_recipient_user_id p) = Some v" and "u_id v \<noteq> u_id sender"
    and "u_account_status v = ''active''" and "\<not> u_is_frozen v" and "u_phone_number v \<notin> {None, Some []}"
    and "user_by_id (working s) (u_id sender) = Some u" and "amount \<le> u_balance u"
    and "payup_eligible e (web s) u amount (payup_amount_used_today e (u_id sender) (working s)) (working s)"
    and "payup_within_caps e amount (payup_amount_used_today e (u_id sender) (working s)) \<or> auth"
    and "sign_transaction_integrity e (new_uuid e) (u_id sender) (u_id v) None amount
          (take 128 (pp_reference p)) ''completed'' ''payup'' (now e) = Inr sig"
    and "storable (posted_payup e sender v p amount sig (working s))"
  shows "\<exists>t. execute_payup_transfer e sender tok auth s = (Inr (new_uuid e), t)"
  using assms by (rule execute_payup_completes)

theorem payup_completes_witness:
  "\<exists>t. execute_payup_transfer payup_env alice ''tok'' False payup_bank = (Inr (new_uuid payup_env), t)"
proof -
  obtain h k where sig: "sign_transaction_integrity payup_env (new_uuid payup_env) (u_id alice) (u_id bob) None 2500
     (take 128 (pp_reference sample_payup)) ''completed'' ''payup'' (now payup_env) = Inr (h, k, ''hmac-sha256'', 1)"
    using payup_signature by blast
  show ?thesis
  proof (rule payup_completes [OF audit_ready_payup, where v = bob and p = sample_payup and amount = 2500
        and u = alice and sig = "(h, k, ''hmac-sha256'', 1)"])
    show "storable (posted_payup payup_env alice bob sample_payup 2500 (h, k, ''hmac-sha256'', 1) (working payup_bank))"
      by code_simp
  qed (rule sig sample_payup_eligible disjI1 | code_simp)+
qed

end
