(* ===== verification/Rate_Limits.thy ===== *)
theory Rate_Limits
  imports Audit_Log
begin

section \<open>Durable attempt counters\<close>

text \<open>
  \<^verbatim>\<open>app/security/rate_limits.py\<close>: counters of failed attempts and of limited actions, kept in a table with one
  row per scope and principal. A counter whose window has passed is deleted when it is looked up. The
  in-memory limiter of Flask-Limiter and the computation of its keys are not modelled.
\<close>

definition counter_hash :: "env \<Rightarrow> string \<Rightarrow> string \<Rightarrow> string" where
  "counter_hash e scope prin = active_hmac_hex e (''auth-counter:'' @ scope @ '':'' @ prin) 64"

definition ip_hash_from_principal :: "env \<Rightarrow> string \<Rightarrow> string option" where
  "ip_hash_from_principal e prin =
     (let ip = py_strip (takeWhile (\<lambda>c. c \<noteq> CHR '':'') prin) in
      if ip = [] then None else Some (active_hmac_hex e (''auth-counter-ip:'' @ ip) 64))"

definition counter_key :: "env \<Rightarrow> string \<Rightarrow> string \<Rightarrow> auth_counter \<Rightarrow> bool" where
  "counter_key e scope prin c \<longleftrightarrow> ac_scope c = scope \<and> ac_principal_hash c = counter_hash e scope prin"

definition find_counter :: "env \<Rightarrow> string \<Rightarrow> string \<Rightarrow> database \<Rightarrow> auth_counter option" where
  "find_counter e scope prin db = find (counter_key e scope prin) (auth_counters db)"

definition delete_counters :: "(auth_counter \<Rightarrow> bool) \<Rightarrow> database \<Rightarrow> database" where
  "delete_counters p db = db\<lparr>auth_counters := filter (\<lambda>c. \<not> p c) (auth_counters db)\<rparr>"

definition update_counters :: "(auth_counter \<Rightarrow> bool) \<Rightarrow> (auth_counter \<Rightarrow> auth_counter) \<Rightarrow> database \<Rightarrow> database" where
  "update_counters p f db = db\<lparr>auth_counters := upd_where p f (auth_counters db)\<rparr>"

definition add_counter :: "auth_counter \<Rightarrow> database \<Rightarrow> database" where
  "add_counter c db = db\<lparr>auth_counters := auth_counters db @ [c]\<rparr>"

definition load_counter :: "env \<Rightarrow> string \<Rightarrow> string \<Rightarrow> auth_counter option request" where
  "load_counter e scope prin =
     bindA (queryA (find_counter e scope prin)) (\<lambda>found.
     case found of None \<Rightarrow> ret None
     | Some c \<Rightarrow>
         if ac_window_expires_at c \<le> now e
         then bindA (updateA (delete_counters (counter_key e scope prin))) (\<lambda>_. ret None)
         else ret (Some c))"

definition new_counter :: "env \<Rightarrow> string \<Rightarrow> string \<Rightarrow> int \<Rightarrow> database \<Rightarrow> auth_counter" where
  "new_counter e scope prin window_seconds db =
     \<lparr>ac_id = next_id (map ac_id (auth_counters db)), ac_scope = scope, ac_principal_hash = counter_hash e scope prin,
      ac_user_id = None, ac_ip_hash = ip_hash_from_principal e prin, ac_failure_count = 0, ac_window_started_at = now e,
      ac_window_expires_at = now e + seconds window_seconds, ac_locked_until = None, ac_last_failed_at = None,
      ac_created_at = now e, ac_updated_at = now e\<rparr>"

definition load_or_create_counter :: "env \<Rightarrow> string \<Rightarrow> string \<Rightarrow> int \<Rightarrow> auth_counter request" where
  "load_or_create_counter e scope prin window_seconds =
     bindA (load_counter e scope prin) (\<lambda>found.
     case found of Some c \<Rightarrow> ret c
     | None \<Rightarrow>
         bindA (queryA (new_counter e scope prin window_seconds)) (\<lambda>c.
         bindA (updateA (add_counter c)) (\<lambda>_. ret c)))"

definition backoff_start_attempts :: "string \<Rightarrow> int" where
  "backoff_start_attempts scope = (if scope \<in> {''login'', ''admin_login''} then 3 else 1)"

definition apply_exponential_backoff :: "env \<Rightarrow> string \<Rightarrow> string \<Rightarrow> unit request" where
  "apply_exponential_backoff e scope prin =
     bindA (load_counter e scope prin) (\<lambda>found.
     let attempts = (case found of None \<Rightarrow> 0 | Some c \<Rightarrow> ac_failure_count c); start = backoff_start_attempts scope in
     if attempts < start then ret ()
     else raise (AuthBackoffRequired (min (2 ^ nat (attempts - start)) 16)))"

definition record_failure :: "env \<Rightarrow> string \<Rightarrow> string \<Rightarrow> int option \<Rightarrow> int request" where
  "record_failure e scope prin window_seconds =
     bindA (load_or_create_counter e scope prin (case window_seconds of None \<Rightarrow> 300 | Some w \<Rightarrow> w)) (\<lambda>c.
     let attempts = ac_failure_count c + 1;
         active_window = (case window_seconds of Some w \<Rightarrow> w | None \<Rightarrow> if 10 < attempts then 900 else 300) in
     bindA (updateA (update_counters (counter_key e scope prin)
       (\<lambda>c. c\<lparr>ac_failure_count := attempts, ac_last_failed_at := Some (now e), ac_updated_at := now e,
              ac_window_expires_at := now e + seconds active_window\<rparr>))) (\<lambda>_.
     bindA commitA (\<lambda>_.
     bindA (condA (attempts \<in> {2, 3, 5, 10} \<or> 10 < attempts)
       (audit_event e ''auth_backoff'' ''applied'' None [(''scope'', JStr scope), (''attempts'', JInt attempts)] None)) (\<lambda>_.
     ret attempts))))"

definition enforce_durable_failure_limit :: "env \<Rightarrow> string \<Rightarrow> string \<Rightarrow> int \<Rightarrow> unit request" where
  "enforce_durable_failure_limit e scope prin limit =
     (if limit < 1 then raise (ValueError ''Durable failure limit must be positive'')
      else bindA (load_counter e scope prin) (\<lambda>found.
        case found of None \<Rightarrow> ret ()
        | Some c \<Rightarrow>
            if ac_failure_count c \<le> limit then ret ()
            else raise (DurableRateLimitExceeded (max 1 ((ac_window_expires_at c - now e) div second_us)))))"

definition clear_failures :: "env \<Rightarrow> string \<Rightarrow> string \<Rightarrow> unit request" where
  "clear_failures e scope prin =
     bindA (load_counter e scope prin) (\<lambda>found.
     case found of None \<Rightarrow> ret ()
     | Some c \<Rightarrow> bindA (updateA (delete_counters (counter_key e scope prin))) (\<lambda>_. commitA))"

definition consume_durable_rate_limit :: "env \<Rightarrow> string \<Rightarrow> string \<Rightarrow> int \<Rightarrow> int \<Rightarrow> int request" where
  "consume_durable_rate_limit e scope prin limit window_seconds =
     (if limit < 1 \<or> window_seconds < 1 then raise (ValueError ''Durable rate-limit bounds must be positive'')
      else bindA (load_or_create_counter e scope prin window_seconds) (\<lambda>c.
        if limit \<le> ac_failure_count c
        then bindA rollbackA (\<lambda>_.
          raise (DurableRateLimitExceeded (max 1 ((ac_window_expires_at c - now e) div second_us))))
        else bindA (updateA (update_counters (counter_key e scope prin)
            (\<lambda>c. c\<lparr>ac_failure_count := ac_failure_count c + 1, ac_updated_at := now e\<rparr>))) (\<lambda>_.
          bindA commitA (\<lambda>_.
          ret (ac_failure_count c + 1)))))"

subsection \<open>Invariants that tolerate counters\<close>

text \<open>
  What a database invariant must tolerate to be kept by the counters: any change of the counter table.
  All steps of this theory then keep it.
\<close>

definition counters_free :: "(database \<Rightarrow> bool) \<Rightarrow> bool" where
  "counters_free P \<longleftrightarrow> (\<forall>db cs. P db \<longrightarrow> P (db\<lparr>auth_counters := cs\<rparr>))"

lemma preserves_counter_updates [preserves_rules]:
  assumes "counters_free P"
  shows "preserves (both P) (updateA (delete_counters p))" "preserves (both P) (updateA (update_counters p f))"
    "preserves (both P) (updateA (add_counter c))"
  using assms
  by (auto intro!: preserves_both_updateA simp: counters_free_def delete_counters_def update_counters_def add_counter_def)

lemma preserves_load_counter [preserves_rules]: "counters_free P \<Longrightarrow> preserves (both P) (load_counter e scope pr)"
  unfolding load_counter_def by (intro preserves_rules)

lemma preserves_load_or_create [preserves_rules]: "counters_free P \<Longrightarrow> preserves (both P) (load_or_create_counter e scope pr w)"
  unfolding load_or_create_counter_def by (intro preserves_rules)

lemma preserves_backoff [preserves_rules]: "counters_free P \<Longrightarrow> preserves (both P) (apply_exponential_backoff e scope pr)"
  unfolding apply_exponential_backoff_def Let_def by (intro preserves_rules)

lemma preserves_record_failure [preserves_rules]:
  "counters_free P \<Longrightarrow> keeps_audit e P \<Longrightarrow> preserves (both P) (record_failure e scope pr w)"
  unfolding record_failure_def Let_def by (intro preserves_rules)

lemma preserves_failure_limit [preserves_rules]: "counters_free P \<Longrightarrow> preserves (both P) (enforce_durable_failure_limit e scope pr l)"
  unfolding enforce_durable_failure_limit_def by (intro preserves_rules)

lemma preserves_clear_failures [preserves_rules]: "counters_free P \<Longrightarrow> preserves (both P) (clear_failures e scope pr)"
  unfolding clear_failures_def by (intro preserves_rules)

lemma preserves_consume_limit [preserves_rules]: "counters_free P \<Longrightarrow> preserves (both P) (consume_durable_rate_limit e scope pr l w)"
  unfolding consume_durable_rate_limit_def by (intro preserves_rules)

subsection \<open>Backoff\<close>

text \<open>
  Exponential backoff is bounded: when it is raised, the caller has reached the number of attempts that
  starts it for the scope, and is asked to wait between one and sixteen seconds; below that number it never
  raises.
\<close>

theorem backoff_bounds:
  assumes "apply_exponential_backoff e scope prin s = (x, t)"
  shows "(case find_counter e scope prin (working s) of
      Some c \<Rightarrow> if now e < ac_window_expires_at c \<and> backoff_start_attempts scope \<le> ac_failure_count c
        then \<exists>r. x = Inl (AuthBackoffRequired r) \<and> 1 \<le> r \<and> r \<le> 16 else x = Inr ()
    | None \<Rightarrow> x = Inr ())"
proof -
  have pow: "1 \<le> (2::int) ^ n" for n by simp
  have pos: "1 \<le> backoff_start_attempts scope" by (simp add: backoff_start_attempts_def)
  show ?thesis
    using assms pow pos
    by (auto simp: apply_exponential_backoff_def load_counter_def Let_def not_le bindA_def split: option.splits if_splits)
qed

definition sample_counter :: "int \<Rightarrow> auth_counter" where
  "sample_counter n = \<lparr>ac_id = 1, ac_scope = ''mfa'', ac_principal_hash = counter_hash sample_env ''mfa'' ''1'', ac_user_id = None,
     ac_ip_hash = None, ac_failure_count = n, ac_window_started_at = 0, ac_window_expires_at = now sample_env + 5000000,
     ac_locked_until = None, ac_last_failed_at = None, ac_created_at = 0, ac_updated_at = 0\<rparr>"

theorem backoff_bounds_witness:
  "\<exists>r t. apply_exponential_backoff sample_env ''mfa'' ''1'' (fresh_world (empty_db\<lparr>auth_counters := [sample_counter 9]\<rparr>)) =
     (Inl (AuthBackoffRequired r), t) \<and> 1 \<le> r \<and> r \<le> 16"
proof -
  let ?s = "fresh_world (empty_db\<lparr>auth_counters := [sample_counter 9]\<rparr>)"
  have f: "find_counter sample_env ''mfa'' ''1'' (working ?s) = Some (sample_counter 9)"
    by (simp add: find_counter_def fresh_world_def counter_key_def sample_counter_def)
  obtain x t where r: "apply_exponential_backoff sample_env ''mfa'' ''1'' ?s = (x, t)" by fastforce
  from backoff_bounds [OF r] f r show ?thesis by (auto simp: sample_counter_def backoff_start_attempts_def)
qed

subsection \<open>The fixed window\<close>

text \<open>
  How many more calls of \<^verbatim>\<open>consume_durable_rate_limit\<close> can succeed up to the instant \<open>b\<close>: what the stored
  counter has left, and a whole further quota when it runs out before \<open>b\<close>.
\<close>

definition quota_left :: "env \<Rightarrow> string \<Rightarrow> string \<Rightarrow> int \<Rightarrow> time \<Rightarrow> database \<Rightarrow> nat" where
  "quota_left e scope prin limit b db =
     (case find_counter e scope prin db of
        None \<Rightarrow> nat limit
      | Some c \<Rightarrow> nat (limit - ac_failure_count c) + (if b \<le> ac_window_expires_at c then 0 else nat limit))"

definition consume_at :: "env \<Rightarrow> string \<Rightarrow> string \<Rightarrow> int \<Rightarrow> int \<Rightarrow> time \<Rightarrow> int request" where
  "consume_at e scope prin limit w t = served (consume_durable_rate_limit (e\<lparr>now := t\<rparr>) scope prin limit w)"

lemma counter_key_now [simp]: "counter_key (e\<lparr>now := t\<rparr>) = counter_key e"
  by (auto simp: fun_eq_iff counter_key_def counter_hash_def active_hmac_hex_def active_key_def)

lemma find_counter_now [simp]: "find_counter (e\<lparr>now := t\<rparr>) = find_counter e"
  by (simp add: fun_eq_iff find_counter_def)

lemma find_filter_none: "find p (filter (\<lambda>c. \<not> p c) cs) = None"
  by (induction cs) auto

lemma find_append: "find p (xs @ ys) = (case find p xs of None \<Rightarrow> find p ys | Some x \<Rightarrow> Some x)"
  by (induction xs) auto

lemma find_after_update:
  assumes "\<And>c. counter_key e scope prin (f c) = counter_key e scope prin c"
  shows "find_counter e scope prin (update_counters (counter_key e scope prin) f db) = map_option f (find_counter e scope prin db)"
  using find_upd_where_same [where q = "counter_key e scope prin" and f = f, OF assms, of "counter_key e scope prin" "auth_counters db"]
  by (auto simp: find_counter_def update_counters_def dest!: find_SomeD split: option.splits intro!: option.map_cong)

text \<open>The counter a call works on, as a function of the stored one.\<close>

definition current_counter :: "env \<Rightarrow> int \<Rightarrow> auth_counter option \<Rightarrow> auth_counter \<Rightarrow> bool" where
  "current_counter e w stored c \<longleftrightarrow>
     (case stored of
        Some d \<Rightarrow> if now e < ac_window_expires_at d then c = d
          else ac_failure_count c = 0 \<and> ac_window_expires_at c = now e + seconds w
      | None \<Rightarrow> ac_failure_count c = 0 \<and> ac_window_expires_at c = now e + seconds w)"

lemma new_counter_fields [simp]:
  "counter_key e scope prin (new_counter e scope prin w db)" "ac_failure_count (new_counter e scope prin w db) = 0"
  "ac_window_expires_at (new_counter e scope prin w db) = now e + seconds w"
  by (simp_all add: new_counter_def counter_key_def)

lemma load_or_create_effect:
  obtains c s' where "load_or_create_counter e scope prin w s = (Inr c, s')" "committed s' = committed s"
    "find_counter e scope prin (working s') = Some c" "current_counter e w (find_counter e scope prin (working s)) c"
proof -
  let ?k = "counter_key e scope prin" and ?found = "find_counter e scope prin (working s)"
  let ?s1 = "if ?found = None then s else s\<lparr>working := delete_counters ?k (working s)\<rparr>"
  let ?c = "new_counter e scope prin w (working ?s1)"
  show thesis
  proof (cases "\<exists>d. ?found = Some d \<and> now e < ac_window_expires_at d")
    case True
    then obtain d where d: "?found = Some d" "now e < ac_window_expires_at d" by blast
    then have "load_or_create_counter e scope prin w s = (Inr d, s)"
      by (simp add: load_or_create_counter_def load_counter_def bindA_def)
    with d that [of d s] show thesis by (simp add: current_counter_def)
  next
    case False
    have r: "load_or_create_counter e scope prin w s = (Inr ?c, ?s1\<lparr>working := add_counter ?c (working ?s1)\<rparr>)"
      using False by (cases ?found) (auto simp: load_or_create_counter_def load_counter_def bindA_def)
    have "find ?k (auth_counters (working ?s1)) = None"
      using False by (auto simp: find_filter_none delete_counters_def find_counter_def split: if_splits)
    then have f: "find_counter e scope prin (add_counter ?c (working ?s1)) = Some ?c"
      by (simp add: find_counter_def add_counter_def find_append)
    have "current_counter e w ?found ?c"
      using False by (auto simp: current_counter_def split: option.splits)
    with r f that show thesis by simp
  qed
qed

lemma consume_effect:
  assumes "1 \<le> limit" and "1 \<le> w" and "consume_durable_rate_limit e scope prin limit w s = (x, t)"
  obtains c where "current_counter e w (find_counter e scope prin (working s)) c" "ac_failure_count c < limit"
      "find_counter e scope prin (committed t) = Some (c\<lparr>ac_failure_count := ac_failure_count c + 1, ac_updated_at := now e\<rparr>)"
      "\<not> isl x"
  | "isl x" "committed t = committed s"
proof -
  let ?k = "counter_key e scope prin"
  let ?f = "\<lambda>c. c\<lparr>ac_failure_count := ac_failure_count c + 1, ac_updated_at := now e\<rparr>"
  obtain c s' where l: "load_or_create_counter e scope prin w s = (Inr c, s')" "committed s' = committed s"
      "find_counter e scope prin (working s') = Some c" "current_counter e w (find_counter e scope prin (working s)) c"
    by (rule load_or_create_effect)
  show thesis
  proof (cases "ac_failure_count c < limit")
    case False
    with l assms that(2) show thesis by (auto simp: consume_durable_rate_limit_def)
  next
    case True
    let ?u = "s'\<lparr>working := update_counters ?k ?f (working s')\<rparr>"
    have f: "find_counter e scope prin (working ?u) = Some (?f c)"
      using l(3) find_after_update [of e scope prin ?f "working s'"] by (simp add: counter_key_def)
    have r: "consume_durable_rate_limit e scope prin limit w s = bindA commitA (\<lambda>_. ret (ac_failure_count c + 1)) ?u"
      using True l(1) assms(1,2) by (simp add: consume_durable_rate_limit_def)
    show thesis
      by (cases rule: commitA_cases [of ?u]) (use that f True l assms(3) r in auto)
  qed
qed

lemma quota_step:
  assumes "1 \<le> limit" and "1 \<le> w" and "a \<le> u" and "u < a + seconds w"
    and "consume_at e scope prin limit w u s = (x, t)" and "working s = committed s"
  shows "working t = committed t"
    and "(if isl x then 0 else 1) + quota_left e scope prin limit (a + seconds w) (committed t)
       \<le> quota_left e scope prin limit (a + seconds w) (committed s)"
proof -
  obtain t' where c: "consume_durable_rate_limit (e\<lparr>now := u\<rparr>) scope prin limit w s = (x, t')" and t: "t = t'\<lparr>working := committed t'\<rparr>"
    using assms(5) by (auto simp: consume_at_def served_eq)
  from t show "working t = committed t" by simp
  from assms(1,2) c
  show "(if isl x then 0 else 1) + quota_left e scope prin limit (a + seconds w) (committed t)
       \<le> quota_left e scope prin limit (a + seconds w) (committed s)"
  proof (cases rule: consume_effect)
    case (1 c)
    then show ?thesis
      using assms(3,4,6) t unfolding quota_left_def current_counter_def
      by (auto split: option.splits if_splits)
  next
    case 2
    then show ?thesis using t by simp
  qed
qed

text \<open>
  C28. The limiter of \<^verbatim>\<open>consume_durable_rate_limit\<close> keeps its promise over a window: however many calls are made
  for a principal at instants within one window length, in whatever order, at most \<open>limit\<close> of them succeed when no
  counter was stored before, and never more than twice the limit (the rest of the stored window and one new
  window).
\<close>

theorem durable_limit_window:
  assumes "1 \<le> limit" and "1 \<le> w" and "\<forall>u \<in> set us. a \<le> u \<and> u < a + seconds w" and "working s = committed s"
    and "\<And>c. find_counter e scope prin (committed s) = Some c \<Longrightarrow> 0 \<le> ac_failure_count c"
  shows "successes (\<lambda>_. ()) () us (fst (run_all (consume_at e scope prin limit w) us s))
    \<le> (if find_counter e scope prin (committed s) = None then 1 else 2) * nat limit"
proof -
  have "successes (\<lambda>_. ()) () us (fst (run_all (consume_at e scope prin limit w) us s))
      \<le> quota_left e scope prin limit (a + seconds w) (committed s)"
    using assms(3,4)
  proof (induction us arbitrary: s)
    case (Cons u us)
    obtain x t where r: "consume_at e scope prin limit w u s = (x, t)" by fastforce
    from Cons.prems have u: "a \<le> u" "u < a + seconds w" "working s = committed s" by simp_all
    note step = quota_step [OF assms(1,2) u(1,2) r u(3)]
    with Cons.IH [of t] Cons.prems r show ?case by (auto simp: case_prod_beta split: if_splits)
  qed simp
  also have "\<dots> \<le> (if find_counter e scope prin (committed s) = None then 1 else 2) * nat limit"
    using assms(5) by (auto simp: quota_left_def split: option.splits)
  finally show ?thesis .
qed

theorem durable_limit_window_witness:
  "successes (\<lambda>_. ()) () [1, 2, 3, 4 :: int] (fst (run_all (consume_at sample_env ''mfa'' ''1'' 2 60) [1, 2, 3, 4] (fresh_world empty_db))) \<le> 2"
proof -
  have f: "find_counter sample_env ''mfa'' ''1'' (committed (fresh_world empty_db)) = None"
    by (simp add: find_counter_def fresh_world_def empty_db_def)
  have w: "working (fresh_world empty_db) = committed (fresh_world empty_db)" by (simp add: fresh_world_def)
  show ?thesis
    using durable_limit_window [where limit = 2 and w = 60 and a = 0 and us = "[1, 2, 3, 4]" and e = sample_env
        and scope = "''mfa''" and prin = "''1''", OF _ _ _ w] f by (simp add: seconds_def second_us_def)
qed

end
