(* ===== verification/Auth_Frames.thy ===== *)
theory Auth_Frames
  imports Rate_Limits Web_Sessions Banking
begin

section \<open>What authentication may touch\<close>

text \<open>
  The operations on sessions, counters, authenticators and passwords write the server-side sessions, the attempt
  counters, the audit log and the authentication columns of a user. \<open>auth_free P\<close> says that an invariant \<open>P\<close>
  tolerates such writes; the rules of this theory lift it through the session operations of
  \<^verbatim>\<open>app/security/sessions.py\<close>. The books of the bank are such an invariant.
\<close>

definition account_part :: "user \<Rightarrow> user" where
  "account_part u = u\<lparr>u_password_hash := [], u_password_changed_at := 0, u_force_password_change := False,
     u_force_password_change_reason := None, u_force_password_change_at := None, u_mfa_secret_ciphertext := None,
     u_mfa_secret_nonce := None, u_mfa_enabled := False, u_mfa_pending_started_at := None, u_mfa_pending_session_hash := None,
     u_is_frozen := False, u_failed_login_count := 0, u_security_locked_at := None, u_security_lock_reason := None,
     u_last_login_at := None\<rparr>"

definition sessions_free :: "(database \<Rightarrow> bool) \<Rightarrow> bool" where
  "sessions_free P \<longleftrightarrow> (\<forall>db ss. P db \<longrightarrow> P (db\<lparr>server_sessions := ss\<rparr>))"

definition auth_users_free :: "(database \<Rightarrow> bool) \<Rightarrow> bool" where
  "auth_users_free P \<longleftrightarrow> (\<forall>db us. map account_part us = map account_part (users db) \<longrightarrow> P db \<longrightarrow> P (db\<lparr>users := us\<rparr>))"

definition auth_free :: "(database \<Rightarrow> bool) \<Rightarrow> bool" where
  "auth_free P \<longleftrightarrow> sessions_free P \<and> counters_free P \<and> auth_users_free P \<and> (\<forall>e. keeps_audit e P)"

lemma auth_freeD:
  assumes "auth_free P"
  shows "sessions_free P" "counters_free P" "auth_users_free P" "keeps_audit e P"
  using assms by (simp_all add: auth_free_def)

text \<open>Updates of the authentication columns of some users.\<close>

definition update_users :: "(user \<Rightarrow> bool) \<Rightarrow> (user \<Rightarrow> user) \<Rightarrow> database \<Rightarrow> database" where
  "update_users p f db = db\<lparr>users := upd_where p f (users db)\<rparr>"

abbreviation update_user :: "int \<Rightarrow> (user \<Rightarrow> user) \<Rightarrow> database \<Rightarrow> database" where
  "update_user i \<equiv> update_users (\<lambda>u. u_id u = i)"

lemma preserves_update_users:
  assumes "auth_users_free P" and "\<And>u. account_part (f u) = account_part u"
  shows "preserves (both P) (updateA (update_users p f))"
proof (rule preserves_both_updateA)
  fix db assume "P db"
  moreover have "map account_part (upd_where p f (users db)) = map account_part (users db)"
    using assms(2) by (rule map_upd_where_frame)
  ultimately show "P (update_users p f db)" using assms(1) by (simp add: update_users_def auth_users_free_def)
qed

lemma user_by_id_update_users:
  "(\<And>u. u_id (f u) = u_id u) \<Longrightarrow> user_by_id (update_users p f db) i = map_option (\<lambda>u. if p u then f u else u) (user_by_id db i)"
  by (simp add: user_by_id_def update_users_def find_upd_where_same)

subsection \<open>Sessions\<close>

lemma preserves_session_update:
  "sessions_free P \<Longrightarrow> preserves (both P) (updateA (update_session_where p f))"
  by (rule preserves_both_updateA) (simp add: sessions_free_def update_session_where_def)

lemma preserves_session_updates [preserves_rules]:
  assumes "sessions_free P"
  shows "preserves (both P) (updateA (end_session_rows e r ids))" "preserves (both P) (updateA (expire_stale_sessions e uid))"
    "preserves (both P) (updateA (update_session_where p f))" "preserves (both P) (updateA (upsert_session e h g))"
proof -
  show "preserves (both P) (updateA (upsert_session e h g))"
    using assms by (intro preserves_both_updateA)
      (auto simp: upsert_session_def sessions_free_def update_session_where_def split: option.split)
qed (simp_all add: end_session_rows_def expire_stale_sessions_def preserves_session_update assms)

lemma preserves_both_webA [preserves_rules]: "preserves (both P) (webA f)"
  unfolding webA_def by (intro preserves_modifyA) (simp add: both_def)

lemma preserves_readA [preserves_rules]: "preserves I (readA f)"
  unfolding readA_def by (rule preserves_getsA)

lemma preserves_active_session_records [preserves_rules]:
  "sessions_free P \<Longrightarrow> preserves (both P) (active_session_records e uid c)"
  unfolding active_session_records_def Let_def by (intro preserves_rules)

lemma preserves_revoke_all_sessions [preserves_rules]:
  "sessions_free P \<Longrightarrow> preserves (both P) (revoke_all_sessions e uid r c)"
  unfolding revoke_all_sessions_def by (intro preserves_rules)

lemma preserves_revoke_other_sessions [preserves_rules]:
  "sessions_free P \<Longrightarrow> preserves (both P) (revoke_other_sessions e uid r)"
  unfolding revoke_other_sessions_def Let_def by (intro preserves_rules)

lemma preserves_revoke_session [preserves_rules]:
  "sessions_free P \<Longrightarrow> preserves (both P) (revoke_session e sid uid r)"
  unfolding revoke_session_def by (intro preserves_rules)

lemma preserves_end_session_id [preserves_rules]:
  "sessions_free P \<Longrightarrow> preserves (both P) (end_session_id e sid r)"
  unfolding end_session_id_def by (intro preserves_rules)

lemma preserves_rotate_session_id [preserves_rules]:
  "sessions_free P \<Longrightarrow> preserves (both P) (rotate_session_id e)"
  unfolding rotate_session_id_def by (intro preserves_rules)

lemma preserves_mark_fresh_mfa [preserves_rules]: "preserves (both P) (mark_fresh_mfa e)"
  unfolding mark_fresh_mfa_def by (intro preserves_rules)

lemma preserves_update_current_record [preserves_rules]:
  "sessions_free P \<Longrightarrow> preserves (both P) (update_current_record e f)"
  unfolding update_current_record_def by (intro preserves_rules)

lemma preserves_refresh_session_risk_fingerprint [preserves_rules]:
  "sessions_free P \<Longrightarrow> preserves (both P) (refresh_session_risk_fingerprint e)"
  unfolding refresh_session_risk_fingerprint_def Let_def by (intro preserves_rules)

lemma preserves_register_session_metadata [preserves_rules]:
  "sessions_free P \<Longrightarrow> preserves (both P) (register_session_metadata e uid t)"
  unfolding register_session_metadata_def Let_def by (intro preserves_rules)

lemma preserves_enforce_active_session_cap [preserves_rules]:
  "sessions_free P \<Longrightarrow> preserves (both P) (enforce_active_session_cap e uid)"
  unfolding enforce_active_session_cap_def Let_def by (intro preserves_rules)

lemma preserves_establish_authenticated_session [preserves_rules]:
  "sessions_free P \<Longrightarrow> preserves (both P) (establish_authenticated_session e uid m c)"
  unfolding establish_authenticated_session_def Let_def by (intro preserves_rules)

lemma preserves_rotate_after_mfa [preserves_rules]:
  "sessions_free P \<Longrightarrow> preserves (both P) (rotate_authenticated_session_after_mfa e uid)"
  unfolding rotate_authenticated_session_after_mfa_def by (intro preserves_rules)

lemma preserves_begin_password_session [preserves_rules]:
  "sessions_free P \<Longrightarrow> preserves (both P) (begin_password_authenticated_session e uid)"
  unfolding begin_password_authenticated_session_def by (intro preserves_rules)

lemma preserves_require_stable_session [preserves_rules]:
  "sessions_free P \<Longrightarrow> keeps_audit e P \<Longrightarrow> preserves (both P) (require_stable_session_for_sensitive_action e a)"
  unfolding require_stable_session_for_sensitive_action_def Let_def by (intro preserves_rules)

lemma preserves_revoke_current_session [preserves_rules]:
  "sessions_free P \<Longrightarrow> preserves (both P) (revoke_current_session e r)"
  unfolding revoke_current_session_def by (intro preserves_rules)

subsection \<open>The books\<close>

lemma account_part_fields [simp]:
  "u_id (account_part u) = u_id u" "u_balance (account_part u) = u_balance u"
  "u_local_transfer_daily_limit (account_part u) = u_local_transfer_daily_limit u"
  "u_payup_daily_limit (account_part u) = u_payup_daily_limit u"
  by (simp_all add: account_part_def)

lemma map_account_part:
  assumes "map account_part us = map account_part vs" and "\<And>u. g (account_part u) = g u"
  shows "map g us = map g vs"
proof -
  have "map g (map account_part us) = map g (map account_part vs)" using assms(1) by simp
  then show ?thesis by (simp add: comp_def assms(2))
qed

end
