(* ===== verification/Json_Reader.thy ===== *)
theory Json_Reader
  imports Json
begin

section \<open>Reading canonical JSON back\<close>

text \<open>
  The library function \<^verbatim>\<open>json.loads\<close> is a parameter of the request environment. What the code relies on is
  that it reads back what \<^verbatim>\<open>json.dumps\<close> printed (\<open>reads_json\<close>). This theory gives a reader of the printed form
  and shows that it has this property, so that the hypothesis can be met by a concrete function.
\<close>

definition reads_json :: "(string \<Rightarrow> json option) \<Rightarrow> bool" where
  "reads_json loads \<longleftrightarrow> (\<forall>j. loads (json_dumps j) = Some (sort_keys j))"

fun read_text :: "nat \<Rightarrow> string \<Rightarrow> (string \<times> string) option" where
  "read_text 0 s = None"
| "read_text (Suc n) s =
     (case unesc s of
        Some (c, r) \<Rightarrow> map_option (map_prod (Cons c) id) (read_text n r)
      | None \<Rightarrow> (case s of c # r \<Rightarrow> if c = CHR 0x22 then Some ([], r) else None | [] \<Rightarrow> None))"

definition read_literal :: "string \<Rightarrow> (string \<times> string) option" where
  "read_literal s = read_text (length s) s"

definition read_nat :: "string \<Rightarrow> (nat \<times> string) option" where
  "read_nat s = (if takeWhile py_isdigit s = [] then None
     else Some (digits_val (takeWhile py_isdigit s), dropWhile py_isdigit s))"

definition read_int :: "string \<Rightarrow> (int \<times> string) option" where
  "read_int s = (case s of
     [] \<Rightarrow> None
   | c # r \<Rightarrow> if c = CHR ''-'' then map_option (map_prod (\<lambda>n. - int n) id) (read_nat r)
             else map_option (map_prod int id) (read_nat s))"

fun read_value :: "nat \<Rightarrow> string \<Rightarrow> (json \<times> string) option"
and read_items :: "nat \<Rightarrow> string \<Rightarrow> (json list \<times> string) option"
and read_members :: "nat \<Rightarrow> string \<Rightarrow> ((string \<times> json) list \<times> string) option" where
  "read_value 0 s = None"
| "read_value (Suc n) s =
     (case s of
        [] \<Rightarrow> None
      | c # r \<Rightarrow>
          if c = CHR ''n'' then (if take 3 r = ''ull'' then Some (JNull, drop 3 r) else None)
          else if c = CHR ''t'' then (if take 3 r = ''rue'' then Some (JBool True, drop 3 r) else None)
          else if c = CHR ''f'' then (if take 4 r = ''alse'' then Some (JBool False, drop 4 r) else None)
          else if c = CHR 0x22 then map_option (map_prod JStr id) (read_literal r)
          else if c = CHR ''['' then
            (case r of d # r' \<Rightarrow> if d = CHR '']'' then Some (JArr [], r')
                        else map_option (map_prod JArr id) (read_items n r)
             | [] \<Rightarrow> None)
          else if c = CHR ''{'' then
            (case r of d # r' \<Rightarrow> if d = CHR ''}'' then Some (JObj [], r')
                        else map_option (map_prod JObj id) (read_members n r)
             | [] \<Rightarrow> None)
          else map_option (map_prod JInt id) (read_int s))"
| "read_items 0 s = None"
| "read_items (Suc n) s =
     (case read_value n s of
        Some (x, c # r) \<Rightarrow>
          if c = CHR '','' then map_option (map_prod (Cons x) id) (read_items n r)
          else if c = CHR '']'' then Some ([x], r) else None
      | _ \<Rightarrow> None)"
| "read_members 0 s = None"
| "read_members (Suc n) s =
     (case s of
        [] \<Rightarrow> None
      | q # s' \<Rightarrow>
          if q \<noteq> CHR 0x22 then None
          else (case read_literal s' of
              Some (k, d # r) \<Rightarrow>
                if d \<noteq> CHR '':'' then None
                else (case read_value n r of
                    Some (x, c # r') \<Rightarrow>
                      if c = CHR '','' then map_option (map_prod (Cons (k, x)) id) (read_members n r')
                      else if c = CHR ''}'' then Some ([(k, x)], r') else None
                  | _ \<Rightarrow> None)
            | _ \<Rightarrow> None))"

definition read_json :: "string \<Rightarrow> json option" where
  "read_json s = (case read_value (2 * length s) s of Some (j, []) \<Rightarrow> Some j | _ \<Rightarrow> None)"

subsection \<open>The reader inverts the printer\<close>

lemma read_text_json:
  "length (concat (map esc_char s)) < n \<Longrightarrow> read_text n (concat (map esc_char s) @ CHR 0x22 # r) = Some (s, r)"
proof (induction s arbitrary: n)
  case Nil
  then show ?case by (cases n) auto
next
  case (Cons c s)
  obtain d t where "esc_char c = d # t" using unesc_esc_char [of c "[]"] by (cases "esc_char c") auto
  moreover obtain m where "n = Suc m" using Cons.prems by (cases n) auto
  moreover have "unesc (concat (map esc_char (c # s)) @ CHR 0x22 # r) = Some (c, concat (map esc_char s) @ CHR 0x22 # r)"
    by simp
  ultimately show ?case using Cons.IH [of m] Cons.prems by simp
qed

lemma read_literal_json [simp]: "read_literal (concat (map esc_char s) @ CHR 0x22 # r) = Some (s, r)"
  unfolding read_literal_def by (rule read_text_json) simp

lemma read_nat_str: "no_digit_next r \<Longrightarrow> read_nat (nat_str n @ r) = Some (n, r)"
proof -
  assume r: "no_digit_next r"
  have "takeWhile py_isdigit (nat_str n @ r) = nat_str n" "dropWhile py_isdigit (nat_str n @ r) = r"
    using r nat_str_digits [of _ n]
    by (auto simp: no_digit_next_def takeWhile_append dropWhile_append split: list.splits)
  then show ?thesis by (simp add: read_nat_def)
qed

lemma read_int_str: "no_digit_next r \<Longrightarrow> read_int (int_str i @ r) = Some (i, r)"
proof (cases "i < 0")
  case False
  assume r: "no_digit_next r"
  obtain c t where c: "nat_str (nat i) = c # t" by (cases "nat_str (nat i)") auto
  with hd_nat_str_digit [of "nat i"] have "c \<noteq> CHR ''-''" by auto
  with False c read_nat_str [OF r, of "nat i"] show ?thesis by (simp add: read_int_def int_str_def)
qed (simp add: read_int_def int_str_def read_nat_str)

lemma dumps_first:
  "first_class (hd (dumps j)) = shape j" "dumps j \<noteq> []"
  using first_class_dumps [of j] by auto

lemma read_items_dumps:
  assumes "\<And>x n r. x \<in> set xs \<Longrightarrow> delim r \<Longrightarrow> 2 * length (dumps x) \<le> n \<Longrightarrow> read_value n (dumps x @ r) = Some (x, r)"
    and "xs \<noteq> []" and "2 * length (join '','' (map dumps xs)) + 1 \<le> n"
  shows "read_items n (join '','' (map dumps xs) @ CHR '']'' # r) = Some (xs, r)"
  using assms
proof (induction xs arbitrary: n)
  case (Cons x xs)
  obtain m where n: "n = Suc m" using Cons.prems(3) by (cases n) auto
  show ?case
  proof (cases xs)
    case Nil
    with Cons.prems n show ?thesis by simp
  next
    case (Cons y ys)
    with Cons.prems(3) n have len: "2 * length (dumps x) \<le> m" "2 * length (join '','' (map dumps xs)) + 1 \<le> m" by auto
    have "read_items m (join '','' (map dumps xs) @ CHR '']'' # r) = Some (xs, r)"
      by (rule Cons.IH) (use Cons.prems(1) Cons len in auto)
    with Cons len n Cons.prems(1) [of x] show ?thesis by simp
  qed
qed simp

lemma read_members_dumps:
  assumes "\<And>k x n r. (k, x) \<in> set kvs \<Longrightarrow> delim r \<Longrightarrow> 2 * length (dumps x) \<le> n \<Longrightarrow> read_value n (dumps x @ r) = Some (x, r)"
    and "kvs \<noteq> []" and "2 * length (join '','' (map dump_member kvs)) + 1 \<le> n"
  shows "read_members n (join '','' (map dump_member kvs) @ CHR ''}'' # r) = Some (kvs, r)"
  using assms
proof (induction kvs arbitrary: n)
  case (Cons p kvs)
  obtain k x where p: "p = (k, x)" by fastforce
  obtain m where n: "n = Suc m" using Cons.prems(3) by (cases n) auto
  show ?case
  proof (cases kvs)
    case Nil
    with Cons.prems n p show ?thesis by (simp add: dump_member_def json_str_def)
  next
    case (Cons y ys)
    have "length (dumps x) + length (join '','' (map dump_member kvs)) + 2 \<le> length (join '','' (map dump_member (p # kvs)))"
      using Cons p by (simp add: dump_member_def [of "(k, x)"] json_str_def)
    with Cons.prems(3) n have len: "2 * length (dumps x) \<le> m" "2 * length (join '','' (map dump_member kvs)) + 1 \<le> m"
      by auto
    have "read_members m (join '','' (map dump_member kvs) @ CHR ''}'' # r) = Some (kvs, r)"
      by (rule Cons.IH) (use Cons.prems(1) Cons len in auto)
    with Cons len n p Cons.prems(1) [of k x] show ?thesis
      by (simp add: dump_member_def [of "(k, x)"] json_str_def)
  qed
qed simp

lemma read_value_dumps: "delim r \<Longrightarrow> 2 * length (dumps j) \<le> n \<Longrightarrow> read_value n (dumps j @ r) = Some (j, r)"
proof (induction j arbitrary: n r)
  case (JInt i)
  have r: "no_digit_next r" using JInt.prems(1) by (rule delim_no_digit)
  obtain c t where c: "int_str i = c # t" by (cases "int_str i") auto
  obtain m where "n = Suc m" using JInt.prems(2) c by (cases n) auto
  moreover have "c = CHR ''-'' \<or> py_isdigit c"
    using c hd_nat_str_digit [of "nat i"] by (auto simp: int_str_def split: if_splits)
  then have "c \<noteq> CHR ''n''" "c \<noteq> CHR ''t''" "c \<noteq> CHR ''f''" "c \<noteq> CHR 0x22" "c \<noteq> CHR ''[''" "c \<noteq> CHR ''{''"
    by (auto simp: py_isdigit_def)
  ultimately show ?case using c read_int_str [OF r, of i] by simp
next
  case (JStr s)
  obtain m where "n = Suc m" using JStr.prems(2) by (cases n) (auto simp: json_str_def)
  then show ?case by (simp add: json_str_def)
next
  case (JArr xs)
  obtain m where n: "n = Suc m" using JArr.prems(2) by (cases n) auto
  show ?case
  proof (cases xs)
    case Nil
    with n show ?thesis by simp
  next
    case (Cons y ys)
    have "read_items m (join '','' (map dumps xs) @ CHR '']'' # r) = Some (xs, r)"
      by (rule read_items_dumps) (use JArr n Cons in auto)
    moreover obtain d t where "join '','' (map dumps xs) = d # t" "d \<noteq> CHR '']''"
      using Cons dumps_first(2) [of y] dumps_not_close(1) [of y "[]"] by (cases "dumps y") (auto simp: join_Cons)
    ultimately show ?thesis using n by simp
  qed
next
  case (JObj kvs)
  obtain m where n: "n = Suc m" using JObj.prems(2) by (cases n) auto
  have d: "dumps (JObj kvs) = ''{'' @ join '','' (map dump_member kvs) @ ''}''"
    by (simp only: dumps.simps dump_members_map)
  show ?case
  proof (cases kvs)
    case Nil
    with n show ?thesis by simp
  next
    case (Cons y ys)
    have "read_members m (join '','' (map dump_member kvs) @ CHR ''}'' # r) = Some (kvs, r)"
    proof (rule read_members_dumps)
      fix k x n' r' assume a: "(k, x) \<in> set kvs" "delim r'" "2 * length (dumps x) \<le> n'"
      then show "read_value n' (dumps x @ r') = Some (x, r')"
        using JObj.IH [OF a(1), of x r' n'] by (simp add: snds.simps)
    qed (use JObj.prems(2) n Cons d in auto)
    moreover obtain t where "join '','' (map dump_member kvs) = CHR 0x22 # t"
      using Cons by (cases y) (auto simp: join_Cons dump_member_def json_str_def)
    ultimately show ?thesis using n by (simp only: d) simp
  qed
next
  case JNull
  then show ?case by (cases n) auto
next
  case (JBool b)
  then show ?case by (cases n; cases b) auto
qed

lemma reads_json_read_json: "reads_json read_json"
  using read_value_dumps [of "[]"] by (simp add: reads_json_def read_json_def json_dumps_def)

end
