(* ===== verification/Mfa_Crypto.thy ===== *)
theory Mfa_Crypto
  imports Audit_Log Session_Payload Json_Reader
begin

section \<open>Encrypted MFA secrets\<close>

text \<open>
  \<^verbatim>\<open>app/security/crypto.py\<close>: the secret of an authenticator is encrypted with a fresh data key, the data key
  with a key-encryption key (KEK) of the configuration, and both go into a JSON envelope. AES-GCM, base64
  and \<^verbatim>\<open>json.loads\<close> are parameters of the environment: \<open>aead_decrypt\<close> gives \<open>None\<close> where the library raises
  \<^verbatim>\<open>InvalidTag\<close>, and \<open>b64_decode\<close> where it refuses the text. Bytes and text are both strings; the secrets are
  base32 text, for which UTF-8 is the identity. The library's \<^verbatim>\<open>ValueError\<close> for keys and nonces of a wrong
  length is not represented: keys have 32 bytes and nonces 12 in everything the code writes.
\<close>

definition envelope_nonce_marker :: string where "envelope_nonce_marker = ''SITMFAENV001''"
definition envelope_version :: int where "envelope_version = 1"
definition envelope_algorithm :: string where "envelope_algorithm = ''AES-256-GCM''"

definition associated_data :: "int \<Rightarrow> string \<Rightarrow> string \<Rightarrow> string" where
  "associated_data user_id kek_id part =
     (if part = ''secret'' then ''sitbank:mfa-secret:v'' @ int_str envelope_version @ '':user:'' @ int_str user_id @ '':part:secret''
      else ''sitbank:mfa-secret:v'' @ int_str envelope_version @ '':user:'' @ int_str user_id @ '':kek:'' @ kek_id @ '':part:'' @ part)"

definition envelope_error :: "string \<Rightarrow> 'a request" where
  "envelope_error m = raise (MFASecretEnvelopeError m)"

definition b64decode :: "env \<Rightarrow> json \<Rightarrow> string \<Rightarrow> string request" where
  "b64decode e val fld =
     (case val of
        JStr t \<Rightarrow> (case b64_decode e t of Some b \<Rightarrow> ret b | None \<Rightarrow> envelope_error (fld @ '' must be valid base64''))
      | _ \<Rightarrow> envelope_error (fld @ '' must be base64 text''))"

definition audit_mfa_crypto :: "env \<Rightarrow> string \<Rightarrow> string \<Rightarrow> int option \<Rightarrow> (string \<times> json) list \<Rightarrow> unit request" where
  "audit_mfa_crypto e action outcome user_id metadata =
     try_catch (audit_event e (''mfa_secret_'' @ action) outcome user_id metadata None) (\<lambda>_. ret ())"

definition kek :: "env \<Rightarrow> string \<Rightarrow> string request" where
  "kek e kek_id =
     (case map_of (cfg_kek_keys (cfg e)) kek_id of
        Some k \<Rightarrow> ret k
      | None \<Rightarrow>
          bindA (audit_mfa_crypto e ''decrypt'' ''failure'' None [(''reason'', JStr ''unknown_kek_id''), (''kek_id'', JStr kek_id)]) (\<lambda>_.
          envelope_error ''Unknown MFA KEK identifier''))"

definition is_enveloped_mfa_secret :: "string option \<Rightarrow> string option \<Rightarrow> bool" where
  "is_enveloped_mfa_secret nonce ciphertext \<longleftrightarrow>
     nonce = Some envelope_nonce_marker \<and> ciphertext \<noteq> None \<and> ciphertext \<noteq> Some []"

definition envelope_fields :: "string list" where
  "envelope_fields = [''v'', ''alg'', ''kek_id'', ''dek_wrapped'', ''dek_nonce'', ''secret_ciphertext'', ''secret_nonce'']"

text \<open>\<open>_load_envelope\<close>; \<open>True == 1\<close> in Python, so a version \<open>true\<close> passes too.\<close>

definition load_envelope :: "env \<Rightarrow> string \<Rightarrow> (string \<times> json) list request" where
  "load_envelope e ciphertext =
     (case json_loads e ciphertext of
        None \<Rightarrow> envelope_error ''MFA envelope must be valid JSON''
      | Some (JObj envelope) \<Rightarrow>
          if set (map fst envelope) \<noteq> set envelope_fields then envelope_error ''MFA envelope fields are invalid''
          else if jget envelope ''v'' \<notin> {JInt envelope_version, JBool True} \<or> jget envelope ''alg'' \<noteq> JStr envelope_algorithm
            then envelope_error ''MFA envelope version or algorithm is unsupported''
          else (case jget envelope ''kek_id'' of
              JStr k \<Rightarrow> if k = [] then envelope_error ''MFA envelope KEK identifier is invalid'' else ret envelope
            | _ \<Rightarrow> envelope_error ''MFA envelope KEK identifier is invalid'')
      | Some _ \<Rightarrow> envelope_error ''MFA envelope must be a JSON object'')"

definition envelope_kek_id :: "(string \<times> json) list \<Rightarrow> string" where
  "envelope_kek_id envelope = (case jget envelope ''kek_id'' of JStr k \<Rightarrow> k | _ \<Rightarrow> [])"

definition mfa_envelope_kek_id :: "env \<Rightarrow> string \<Rightarrow> string \<Rightarrow> string option request" where
  "mfa_envelope_kek_id e nonce ciphertext =
     (if \<not> is_enveloped_mfa_secret (Some nonce) (Some ciphertext) then ret None
      else bindA (load_envelope e ciphertext) (\<lambda>envelope. ret (Some (envelope_kek_id envelope))))"

definition aead_open :: "env \<Rightarrow> string \<Rightarrow> string \<Rightarrow> string \<Rightarrow> string \<Rightarrow> string request" where
  "aead_open e key nonce data ad = (case aead_decrypt e key nonce data ad of Some m \<Rightarrow> ret m | None \<Rightarrow> raise InvalidTag)"

definition unwrap_dek :: "env \<Rightarrow> (string \<times> json) list \<Rightarrow> int \<Rightarrow> string request" where
  "unwrap_dek e envelope user_id =
     (let kek_id = envelope_kek_id envelope in
      try_catch
        (bindA (kek e kek_id) (\<lambda>key.
         bindA (b64decode e (jget envelope ''dek_nonce'') ''dek_nonce'') (\<lambda>nonce.
         bindA (b64decode e (jget envelope ''dek_wrapped'') ''dek_wrapped'') (\<lambda>wrapped.
         aead_open e key nonce wrapped (associated_data user_id kek_id ''dek'')))))
        (\<lambda>err. if err = InvalidTag
          then bindA (audit_mfa_crypto e ''decrypt'' ''failure'' (Some user_id)
                 [(''reason'', JStr ''dek_invalid_tag''), (''kek_id'', JStr kek_id)]) (\<lambda>_. raise err)
          else raise err))"

text \<open>The exceptions that \<open>_decrypt_envelope\<close> audits before raising them again.\<close>

fun decrypt_failure :: "py_error \<Rightarrow> bool" where
  "decrypt_failure InvalidTag = True"
| "decrypt_failure (MFASecretEnvelopeError _) = True"
| "decrypt_failure KeyError = True"
| "decrypt_failure _ = False"

definition decrypt_envelope :: "env \<Rightarrow> string \<Rightarrow> int \<Rightarrow> string request" where
  "decrypt_envelope e ciphertext user_id =
     bindA (load_envelope e ciphertext) (\<lambda>envelope.
     let kek_id = envelope_kek_id envelope in
     try_catch
       (bindA (unwrap_dek e envelope user_id) (\<lambda>dek.
        bindA (b64decode e (jget envelope ''secret_nonce'') ''secret_nonce'') (\<lambda>nonce.
        bindA (b64decode e (jget envelope ''secret_ciphertext'') ''secret_ciphertext'') (\<lambda>secret_ciphertext.
        aead_open e dek nonce secret_ciphertext (associated_data user_id kek_id ''secret'')))))
       (\<lambda>err. if decrypt_failure err
         then bindA (audit_mfa_crypto e ''decrypt'' ''failure'' (Some user_id)
                [(''reason'', JStr (error_type err)), (''kek_id'', JStr kek_id)]) (\<lambda>_. raise err)
         else raise err))"

definition decrypt_mfa_secret :: "env \<Rightarrow> string \<Rightarrow> string \<Rightarrow> int \<Rightarrow> string request" where
  "decrypt_mfa_secret e nonce ciphertext user_id =
     (if is_enveloped_mfa_secret (Some nonce) (Some ciphertext) then decrypt_envelope e ciphertext user_id
      else bindA (audit_mfa_crypto e ''decrypt'' ''failure'' (Some user_id) [(''reason'', JStr ''unsupported_format'')]) (\<lambda>_.
        envelope_error ''MFA secret envelope is required''))"

text \<open>The random texts 2, 3 and 4 of the request are the data key and the two nonces; 5 is the nonce of a rewrap.\<close>

definition mfa_envelope :: "string \<Rightarrow> string \<Rightarrow> string \<Rightarrow> string \<Rightarrow> string \<Rightarrow> (string \<times> json) list" where
  "mfa_envelope kek_id dek_wrapped dek_nonce secret_ciphertext secret_nonce =
     [(''v'', JInt envelope_version), (''alg'', JStr envelope_algorithm), (''kek_id'', JStr kek_id), (''dek_wrapped'', JStr dek_wrapped),
      (''dek_nonce'', JStr dek_nonce), (''secret_ciphertext'', JStr secret_ciphertext), (''secret_nonce'', JStr secret_nonce)]"

definition new_envelope :: "env \<Rightarrow> string \<Rightarrow> string \<Rightarrow> int \<Rightarrow> string \<Rightarrow> (string \<times> json) list" where
  "new_envelope e key kek_id user_id secret =
     (let dek = random_text e 2; dek_nonce = random_text e 3; secret_nonce = random_text e 4;
          secret_ciphertext = aead_encrypt e dek secret_nonce secret (associated_data user_id kek_id ''secret'');
          wrapped_dek = aead_encrypt e key dek_nonce dek (associated_data user_id kek_id ''dek'')
      in mfa_envelope kek_id (b64_encode e wrapped_dek) (b64_encode e dek_nonce) (b64_encode e secret_ciphertext) (b64_encode e secret_nonce))"

definition encrypt_mfa_secret :: "env \<Rightarrow> string \<Rightarrow> int \<Rightarrow> string option \<Rightarrow> (string \<times> string) request" where
  "encrypt_mfa_secret e secret user_id kek_id =
     (let selected = (case kek_id of None \<Rightarrow> cfg_kek_active_id (cfg e) | Some k \<Rightarrow> k) in
      bindA (kek e selected) (\<lambda>key.
      bindA (audit_mfa_crypto e ''encrypt'' ''success'' (Some user_id) [(''kek_id'', JStr selected)]) (\<lambda>_.
      ret (envelope_nonce_marker, json_dumps (JObj (new_envelope e key selected user_id secret))))))"

definition rewrap_mfa_dek :: "env \<Rightarrow> string \<Rightarrow> string \<Rightarrow> int \<Rightarrow> string \<Rightarrow> string option \<Rightarrow> (string \<times> string) request" where
  "rewrap_mfa_dek e nonce ciphertext user_id to_kek_id from_kek_id =
     (if \<not> is_enveloped_mfa_secret (Some nonce) (Some ciphertext)
      then envelope_error ''Legacy MFA secret must be re-encrypted, not rewrapped''
      else bindA (load_envelope e ciphertext) (\<lambda>envelope.
        let current_kek_id = envelope_kek_id envelope in
        if from_kek_id \<noteq> None \<and> from_kek_id \<noteq> Some current_kek_id
          then envelope_error ''Envelope KEK identifier does not match from_kek_id''
        else if current_kek_id = to_kek_id then ret (nonce, ciphertext)
        else
          bindA (unwrap_dek e envelope user_id) (\<lambda>dek.
          bindA (kek e to_kek_id) (\<lambda>key.
          let new_dek_nonce = random_text e 5;
              wrapped_dek = aead_encrypt e key new_dek_nonce dek (associated_data user_id to_kek_id ''dek'');
              envelope = dict_set ''dek_wrapped'' (JStr (b64_encode e wrapped_dek)) (dict_set ''dek_nonce'' (JStr (b64_encode e new_dek_nonce))
                (dict_set ''kek_id'' (JStr to_kek_id) envelope)) in
          bindA (audit_mfa_crypto e ''rewrap'' ''success'' (Some user_id)
            [(''from_kek_id'', JStr current_kek_id), (''to_kek_id'', JStr to_kek_id)]) (\<lambda>_.
          ret (envelope_nonce_marker, json_dumps (JObj envelope)))))))"

subsection \<open>What an envelope holds\<close>

text \<open>
  The laws of the libraries the envelope relies on: decryption inverts encryption under the same key, nonce
  and associated data, base64 decodes what it encoded, \<^verbatim>\<open>json.loads\<close> reads what \<^verbatim>\<open>json.dumps\<close> printed.
\<close>

definition mfa_library :: "env \<Rightarrow> bool" where
  "mfa_library e \<longleftrightarrow>
     (\<forall>k n m a. aead_decrypt e k n (aead_encrypt e k n m a) a = Some m)
     \<and> (\<forall>x. b64_decode e (b64_encode e x) = Some x) \<and> reads_json (json_loads e)"

definition same_library :: "env \<Rightarrow> env \<Rightarrow> bool" where
  "same_library e e' \<longleftrightarrow> aead_encrypt e' = aead_encrypt e \<and> aead_decrypt e' = aead_decrypt e \<and> b64_encode e' = b64_encode e
     \<and> b64_decode e' = b64_decode e \<and> json_loads e' = json_loads e"

text \<open>A dictionary that holds a secret for a user: what the decryption finds in it.\<close>

definition holds_secret :: "env \<Rightarrow> (string \<times> json) list \<Rightarrow> int \<Rightarrow> string \<Rightarrow> string \<Rightarrow> string \<Rightarrow> bool" where
  "holds_secret e kvs uid kid dek secret \<longleftrightarrow>
     set (map fst kvs) = set envelope_fields \<and> jget kvs ''v'' = JInt envelope_version \<and> jget kvs ''alg'' = JStr envelope_algorithm
     \<and> jget kvs ''kek_id'' = JStr kid \<and> kid \<noteq> []
     \<and> (\<exists>n c. jget kvs ''secret_nonce'' = JStr n \<and> jget kvs ''secret_ciphertext'' = JStr c
          \<and> (\<exists>n' c'. b64_decode e n = Some n' \<and> b64_decode e c = Some c' \<and> aead_decrypt e dek n' c' (associated_data uid kid ''secret'') = Some secret))"

definition wraps_dek :: "env \<Rightarrow> (string \<times> json) list \<Rightarrow> int \<Rightarrow> string \<Rightarrow> string \<Rightarrow> string \<Rightarrow> bool" where
  "wraps_dek e kvs uid kid key dek \<longleftrightarrow>
     (\<exists>n c. jget kvs ''dek_nonce'' = JStr n \<and> jget kvs ''dek_wrapped'' = JStr c
        \<and> (\<exists>n' c'. b64_decode e n = Some n' \<and> b64_decode e c = Some c' \<and> aead_decrypt e key n' c' (associated_data uid kid ''dek'') = Some dek))"

lemma load_envelope_holds:
  "json_loads e ct = Some (JObj kvs) \<Longrightarrow> holds_secret e kvs uid kid dek secret \<Longrightarrow> load_envelope e ct s = (Inr kvs, s)"
  by (auto simp: load_envelope_def holds_secret_def)

lemma unwrap_dek_holds:
  assumes "jget kvs ''kek_id'' = JStr kid" and "wraps_dek e kvs uid kid key dek" and "map_of (cfg_kek_keys (cfg e)) kid = Some key"
  shows "unwrap_dek e kvs uid s = (Inr dek, s)"
  using assms by (auto simp: unwrap_dek_def wraps_dek_def envelope_kek_id_def kek_def b64decode_def aead_open_def try_catch_def)

lemma decrypt_holds:
  assumes "json_loads e ct = Some (JObj kvs)" and "ct \<noteq> []" and "holds_secret e kvs uid kid dek secret"
    and "wraps_dek e kvs uid kid key dek" and "map_of (cfg_kek_keys (cfg e)) kid = Some key"
  shows "decrypt_mfa_secret e envelope_nonce_marker ct uid s = (Inr secret, s)"
proof -
  have k: "jget kvs ''kek_id'' = JStr kid" using assms(3) by (simp add: holds_secret_def)
  note steps = load_envelope_holds [OF assms(1,3)] unwrap_dek_holds [OF k assms(4,5)]
  show ?thesis
    using assms(2,3) k
    by (auto simp: decrypt_mfa_secret_def is_enveloped_mfa_secret_def decrypt_envelope_def Let_def try_catch_def steps
        holds_secret_def envelope_kek_id_def b64decode_def aead_open_def)
qed

lemma jget_dict_set: "jget (dict_set k v kvs) k' = (if k' = k then v else jget kvs k')"
  by (induction kvs) (auto simp: jget_def)

lemma keys_after_set: "set (map fst (dict_set k v kvs)) = insert k (set (map fst kvs))"
proof (induction kvs)
  case (Cons p kvs)
  then show ?case by (cases p; cases "k = fst p") auto
qed simp

lemma scalars_dict_set:
  "\<forall>w \<in> snd ` set kvs. sort_keys w = w \<Longrightarrow> sort_keys v = v \<Longrightarrow> \<forall>w \<in> snd ` set (dict_set k v kvs). sort_keys w = w"
proof (induction kvs)
  case (Cons p kvs)
  then show ?case by (cases p; cases "k = fst p") auto
qed simp

lemma distinct_after_set: "distinct (map fst kvs) \<Longrightarrow> distinct (map fst (dict_set k v kvs))"
proof (induction kvs)
  case (Cons p kvs)
  then show ?case using keys_after_set [of k v kvs] by (cases p) auto
qed simp

text \<open>Sorting the members changes neither the keys nor what a key gives.\<close>

lemma sorted_members:
  assumes "distinct (map fst kvs)" and "\<forall>v \<in> snd ` set kvs. sort_keys v = v"
  shows "sort_keys (JObj kvs) = JObj (sort_key fst kvs)" "jget (sort_key fst kvs) = jget kvs"
    "set (map fst (sort_key fst kvs)) = set (map fst kvs)" "distinct (map fst (sort_key fst kvs))"
proof -
  have "map (map_prod id sort_keys) kvs = kvs" using assms(2) by (intro map_idI) auto
  then show "sort_keys (JObj kvs) = JObj (sort_key fst kvs)" by simp
  show d: "distinct (map fst (sort_key fst kvs))" using assms(1) by (simp add: distinct_map)
  then have "map_of (sort_key fst kvs) = map_of kvs" using assms(1) by (simp add: map_of_inject_set)
  then show "jget (sort_key fst kvs) = jget kvs" by (simp add: fun_eq_iff jget_def)
qed simp

text \<open>The members of the envelope that an encryption writes, as they are read back.\<close>

lemma encrypted_envelope:
  assumes "mfa_library e" and "encrypt_mfa_secret e secret uid k s = (Inr (nonce, ct), t)"
    and "kid = (case k of None \<Rightarrow> cfg_kek_active_id (cfg e) | Some k \<Rightarrow> k)"
  obtains kvs key where "nonce = envelope_nonce_marker" "json_loads e ct = Some (JObj kvs)" "ct \<noteq> []" "distinct (map fst kvs)"
    "\<forall>v \<in> snd ` set kvs. sort_keys v = v" "map_of (cfg_kek_keys (cfg e)) kid = Some key" "set (map fst kvs) = set envelope_fields"
    "jget kvs = jget (new_envelope e key kid uid secret)"
proof -
  obtain key where k: "map_of (cfg_kek_keys (cfg e)) kid = Some key"
    using assms(2,3) by (cases "map_of (cfg_kek_keys (cfg e)) kid")
      (auto simp: encrypt_mfa_secret_def kek_def Let_def bindA_eq_Inr envelope_error_def)
  let ?kvs = "new_envelope e key kid uid secret"
  have d: "distinct (map fst ?kvs)" and sc: "\<forall>v \<in> snd ` set ?kvs. sort_keys v = v"
    and keys: "set (map fst ?kvs) = set envelope_fields"
    by (auto simp: new_envelope_def mfa_envelope_def envelope_fields_def Let_def)
  have r: "nonce = envelope_nonce_marker" "ct = json_dumps (JObj ?kvs)"
    using assms(2) k assms(3) by (auto simp: encrypt_mfa_secret_def kek_def Let_def bindA_eq_Inr)
  note m = sorted_members [OF d sc]
  have "json_loads e ct = Some (JObj (sort_key fst ?kvs))"
    using assms(1) r(2) m(1) by (simp only: mfa_library_def reads_json_def)
  moreover have "ct \<noteq> []" using r(2) by (simp add: json_dumps_def)
  moreover have "\<forall>v \<in> snd ` set (sort_key fst ?kvs). sort_keys v = v" using sc by simp
  ultimately show thesis using that [OF r(1) _ _ m(4) _ k _ m(2)] m(3) keys by simp
qed

lemma encrypt_holds:
  assumes "mfa_library e" and "encrypt_mfa_secret e secret uid k s = (Inr (nonce, ct), t)"
    and "kid = (case k of None \<Rightarrow> cfg_kek_active_id (cfg e) | Some k \<Rightarrow> k)" and "kid \<noteq> []"
  obtains kvs key where "nonce = envelope_nonce_marker" "json_loads e ct = Some (JObj kvs)" "ct \<noteq> []" "distinct (map fst kvs)"
    "\<forall>v \<in> snd ` set kvs. sort_keys v = v" "holds_secret e kvs uid kid (random_text e 2) secret"
    "map_of (cfg_kek_keys (cfg e)) kid = Some key" "wraps_dek e kvs uid kid key (random_text e 2)"
proof -
  obtain kvs key where h: "nonce = envelope_nonce_marker" "json_loads e ct = Some (JObj kvs)" "ct \<noteq> []" "distinct (map fst kvs)"
    "\<forall>v \<in> snd ` set kvs. sort_keys v = v" "map_of (cfg_kek_keys (cfg e)) kid = Some key" "set (map fst kvs) = set envelope_fields"
    "jget kvs = jget (new_envelope e key kid uid secret)"
    by (rule encrypted_envelope [OF assms(1,2,3)])
  have "holds_secret e kvs uid kid (random_text e 2) secret" "wraps_dek e kvs uid kid key (random_text e 2)"
    using assms(1,4) h(7)
    by (simp_all add: holds_secret_def wraps_dek_def h(8) mfa_library_def new_envelope_def mfa_envelope_def Let_def jget_def)
  with that h show thesis by blast
qed

text \<open>The associated data of the secret does not name the KEK, so that a rewrap need not touch the secret.\<close>

lemma associated_secret: "associated_data uid kid ''secret'' = associated_data uid kid' ''secret''"
  by (simp add: associated_data_def)

lemma associated_dek_inject: "uid' \<noteq> uid \<Longrightarrow> associated_data uid' kid ''dek'' \<noteq> associated_data uid kid ''dek''"
  using int_str_append_inject [of uid' "'':kek:'' @ kid @ '':part:dek''" uid "'':kek:'' @ kid @ '':part:dek''"]
  by (auto simp: associated_data_def no_digit_next_def py_isdigit_def)

lemma load_envelope_result:
  "load_envelope e ct s = (x, t) \<Longrightarrow> t = s \<and> (\<forall>kvs. x = Inr kvs \<longrightarrow> json_loads e ct = Some (JObj kvs))"
  by (auto simp: load_envelope_def envelope_error_def split: option.splits json.splits if_splits)

lemma new_envelope_get:
  "jget (new_envelope e key kid uid secret) ''kek_id'' = JStr kid"
  "jget (new_envelope e key kid uid secret) ''dek_nonce'' = JStr (b64_encode e (random_text e 3))"
  "jget (new_envelope e key kid uid secret) ''dek_wrapped'' =
     JStr (b64_encode e (aead_encrypt e key (random_text e 3) (random_text e 2) (associated_data uid kid ''dek'')))"
  by (simp_all add: new_envelope_def mfa_envelope_def Let_def jget_def)

lemma rewrap_holds:
  assumes "mfa_library e" and "rewrap_mfa_dek e envelope_nonce_marker ct uid to from s = (Inr (nonce, ct'), t)" and "to \<noteq> []" and "ct \<noteq> []"
    and "json_loads e ct = Some (JObj kvs)" and "distinct (map fst kvs)" and "\<forall>v \<in> snd ` set kvs. sort_keys v = v"
    and "holds_secret e kvs uid kid dek secret" and "map_of (cfg_kek_keys (cfg e)) kid = Some key" and "wraps_dek e kvs uid kid key dek"
  obtains kvs' key' where "nonce = envelope_nonce_marker" "json_loads e ct' = Some (JObj kvs')" "ct' \<noteq> []"
    "holds_secret e kvs' uid to dek secret" "map_of (cfg_kek_keys (cfg e)) to = Some key'" "wraps_dek e kvs' uid to key' dek"
proof -
  have kid: "jget kvs ''kek_id'' = JStr kid" using assms(8) by (simp add: holds_secret_def)
  note steps = load_envelope_holds [OF assms(5,8)] unwrap_dek_holds [OF kid assms(10,9)]
  show thesis
  proof (cases "kid = to")
    case True
    then have "nonce = envelope_nonce_marker" "ct' = ct"
      using assms(2,4) kid
      by (auto simp: rewrap_mfa_dek_def is_enveloped_mfa_secret_def steps envelope_kek_id_def envelope_error_def Let_def split: if_splits)
    with True assms that show thesis by blast
  next
    case False
    obtain key' where k: "map_of (cfg_kek_keys (cfg e)) to = Some key'"
      using assms(2,4) kid False
      by (cases "map_of (cfg_kek_keys (cfg e)) to")
         (auto simp: rewrap_mfa_dek_def is_enveloped_mfa_secret_def steps envelope_kek_id_def envelope_error_def Let_def kek_def
           bindA_eq_Inr split: if_splits)
    let ?kvs = "dict_set ''dek_wrapped'' (JStr (b64_encode e (aead_encrypt e key' (random_text e 5) dek (associated_data uid to ''dek''))))
        (dict_set ''dek_nonce'' (JStr (b64_encode e (random_text e 5))) (dict_set ''kek_id'' (JStr to) kvs))"
    have r: "nonce = envelope_nonce_marker" "ct' = json_dumps (JObj ?kvs)"
      using assms(2,4) kid False k
      by (auto simp: rewrap_mfa_dek_def is_enveloped_mfa_secret_def steps envelope_kek_id_def envelope_error_def Let_def kek_def
           bindA_eq_Inr split: if_splits)
    have d: "distinct (map fst ?kvs)" by (intro distinct_after_set assms)
    have sc: "\<forall>v \<in> snd ` set ?kvs. sort_keys v = v"
      by (intro scalars_dict_set assms) simp_all
    note m = sorted_members [OF d sc]
    have l: "json_loads e ct' = Some (JObj (sort_key fst ?kvs))"
      using assms(1) r(2) m(1) by (simp only: mfa_library_def reads_json_def)
    have "set (map fst ?kvs) = set envelope_fields"
      using assms(8) by (simp only: keys_after_set holds_secret_def) (auto simp: envelope_fields_def)
    then have h: "holds_secret e (sort_key fst ?kvs) uid to dek secret"
      using assms(3,8) associated_secret [of uid kid to] by (simp add: holds_secret_def m jget_dict_set)
    have w: "wraps_dek e (sort_key fst ?kvs) uid to key' dek"
      using assms(1) by (simp add: wraps_dek_def m jget_dict_set mfa_library_def)
    show thesis by (rule that [OF r(1) l _ h k w]) (use r(2) in \<open>simp add: json_dumps_def\<close>)
  qed
qed

lemma holds_same_library:
  assumes "same_library e e'"
  shows "holds_secret e' = holds_secret e" "wraps_dek e' = wraps_dek e" "json_loads e' = json_loads e" "mfa_library e' = mfa_library e"
  using assms by (auto simp: same_library_def holds_secret_def [abs_def] wraps_dek_def [abs_def] mfa_library_def)

text \<open>
  C18. An encrypted MFA secret can be read back, by any process whose keyring still has the KEK it was made
  with. Moving it to another KEK with \<^verbatim>\<open>rewrap_mfa_dek\<close> keeps the secret, and afterwards the new KEK alone is
  enough: the old one can be dropped from the keyring.
\<close>

theorem mfa_secret_roundtrip:
  assumes lib: "mfa_library e" and enc: "encrypt_mfa_secret e secret uid k s = (Inr (nonce, ct), t)"
    and kid: "kid = (case k of None \<Rightarrow> cfg_kek_active_id (cfg e) | Some k \<Rightarrow> k)" "kid \<noteq> []"
    and same: "same_library e e'" and key: "map_of (cfg_kek_keys (cfg e')) kid = map_of (cfg_kek_keys (cfg e)) kid"
  shows "decrypt_mfa_secret e' nonce ct uid u = (Inr secret, u)
    \<and> (\<forall>to from v nonce' ct' v' e'' w. rewrap_mfa_dek e' nonce ct uid to from v = (Inr (nonce', ct'), v') \<longrightarrow> to \<noteq> [] \<longrightarrow>
         same_library e e'' \<longrightarrow> map_of (cfg_kek_keys (cfg e'')) to = map_of (cfg_kek_keys (cfg e')) to \<longrightarrow>
         decrypt_mfa_secret e'' nonce' ct' uid w = (Inr secret, w))"
proof -
  note same' = holds_same_library [OF same]
  obtain kvs ek where h: "nonce = envelope_nonce_marker" "json_loads e ct = Some (JObj kvs)" "ct \<noteq> []" "distinct (map fst kvs)"
    "\<forall>v \<in> snd ` set kvs. sort_keys v = v" "holds_secret e kvs uid kid (random_text e 2) secret"
    "map_of (cfg_kek_keys (cfg e)) kid = Some ek" "wraps_dek e kvs uid kid ek (random_text e 2)"
    by (rule encrypt_holds [OF lib enc kid])
  have h': "json_loads e' ct = Some (JObj kvs)" "holds_secret e' kvs uid kid (random_text e 2) secret"
    "map_of (cfg_kek_keys (cfg e')) kid = Some ek" "wraps_dek e' kvs uid kid ek (random_text e 2)" "mfa_library e'"
    using h key lib by (simp_all add: same')
  have dec: "decrypt_mfa_secret e' nonce ct uid u = (Inr secret, u)"
    unfolding h(1) by (rule decrypt_holds [OF h'(1) h(3) h'(2,4,3)])
  {
    fix to "from" v nonce' ct' v' e'' w
    assume r: "rewrap_mfa_dek e' nonce ct uid to from v = (Inr (nonce', ct'), v')" and to: "to \<noteq> []"
      and e'': "same_library e e''" "map_of (cfg_kek_keys (cfg e'')) to = map_of (cfg_kek_keys (cfg e')) to"
    obtain kvs' ek' where n: "nonce' = envelope_nonce_marker" "json_loads e' ct' = Some (JObj kvs')" "ct' \<noteq> []"
      "holds_secret e' kvs' uid to (random_text e 2) secret" "map_of (cfg_kek_keys (cfg e')) to = Some ek'"
      "wraps_dek e' kvs' uid to ek' (random_text e 2)"
      by (rule rewrap_holds [OF h'(5) r [unfolded h(1)] to h(3) h'(1) h(4,5) h'(2,3,4)])
    have "decrypt_mfa_secret e'' nonce' ct' uid w = (Inr secret, w)"
      unfolding n(1)
      by (rule decrypt_holds [of _ _ kvs' _ to "random_text e 2" _ ek'])
         (use n e'' holds_same_library [OF e''(1)] in \<open>simp_all add: same'\<close>)
  }
  with dec show ?thesis by blast
qed

definition mfa_env :: env where
  "mfa_env = sample_env\<lparr>json_loads := read_json, cfg := sample_cfg\<lparr>cfg_kek_keys := [(''kek1'', ''one''), (''kek2'', ''two'')]\<rparr>\<rparr>"

lemma mfa_library_env: "mfa_library mfa_env"
  by (simp add: mfa_library_def mfa_env_def sample_env_def reads_json_read_json)

lemma audit_mfa_crypto_returns: "\<exists>t. audit_mfa_crypto e a out uid md s = (Inr (), t)"
  by (cases rule: audit_event_cases [of e s "''mfa_secret_'' @ a" out uid md None]) (auto simp: audit_mfa_crypto_def try_catch_def)

theorem mfa_secret_roundtrip_witness:
  "\<exists>nonce ct t. encrypt_mfa_secret mfa_env ''SECRET'' 7 None (fresh_world empty_db) = (Inr (nonce, ct), t)
     \<and> decrypt_mfa_secret mfa_env nonce ct 7 (fresh_world empty_db) = (Inr ''SECRET'', fresh_world empty_db)"
proof -
  have k: "map_of (cfg_kek_keys (cfg mfa_env)) (cfg_kek_active_id (cfg mfa_env)) = Some ''one''"
    by (simp add: mfa_env_def sample_cfg_def)
  obtain nonce ct t where e: "encrypt_mfa_secret mfa_env ''SECRET'' 7 None (fresh_world empty_db) = (Inr (nonce, ct), t)"
    using audit_mfa_crypto_returns [of mfa_env "''encrypt''" "''success''" "Some 7" "[(''kek_id'', JStr (cfg_kek_active_id (cfg mfa_env)))]"
        "fresh_world empty_db"] k
    by (auto simp: encrypt_mfa_secret_def kek_def Let_def)
  have "decrypt_mfa_secret mfa_env nonce ct 7 (fresh_world empty_db) = (Inr ''SECRET'', fresh_world empty_db)"
    using mfa_secret_roundtrip [OF mfa_library_env e, of "cfg_kek_active_id (cfg mfa_env)" mfa_env]
    by (simp add: same_library_def mfa_env_def sample_cfg_def)
  with e show ?thesis by blast
qed

text \<open>
  A stored secret is bound to its user: what was encrypted for one user cannot be decrypted for another, so
  copying the two columns to another row gives no working authenticator. Used of AES-GCM: a message is refused
  under associated data other than that it was encrypted with.
\<close>

theorem mfa_secret_bound_to_user:
  assumes lib: "mfa_library e" and enc: "encrypt_mfa_secret e secret uid k s = (Inr (nonce, ct), t)"
    and bound: "\<And>key n m a a'. a' \<noteq> a \<Longrightarrow> aead_decrypt e key n (aead_encrypt e key n m a) a' = None"
    and uid: "uid' \<noteq> uid"
  shows "isl (fst (decrypt_mfa_secret e nonce ct uid' u))"
proof -
  let ?kid = "case k of None \<Rightarrow> cfg_kek_active_id (cfg e) | Some k \<Rightarrow> k"
  obtain kvs ek where h: "nonce = envelope_nonce_marker" "json_loads e ct = Some (JObj kvs)" "jget kvs ''kek_id'' = JStr ?kid"
    "map_of (cfg_kek_keys (cfg e)) ?kid = Some ek"
    "jget kvs ''dek_nonce'' = JStr (b64_encode e (random_text e 3))" "jget kvs ''dek_wrapped'' = JStr (b64_encode e
      (aead_encrypt e ek (random_text e 3) (random_text e 2) (associated_data uid ?kid ''dek'')))"
    by (rule encrypted_envelope [OF lib enc refl]) (simp add: new_envelope_get)
  have "unwrap_dek e kvs uid' v = bindA (audit_mfa_crypto e ''decrypt'' ''failure'' (Some uid')
      [(''reason'', JStr ''dek_invalid_tag''), (''kek_id'', JStr ?kid)]) (\<lambda>_. raise InvalidTag) v" for v
    using h lib bound [OF associated_dek_inject [OF uid]]
    by (simp add: unwrap_dek_def envelope_kek_id_def kek_def b64decode_def aead_open_def try_catch_def mfa_library_def)
  then have "\<exists>t. unwrap_dek e kvs uid' v = (Inl InvalidTag, t)" for v
    using audit_mfa_crypto_returns [of e "''decrypt''" "''failure''" "Some uid'"
        "[(''reason'', JStr ''dek_invalid_tag''), (''kek_id'', JStr ?kid)]" v] by (auto simp del: raise_apply simp: raise_def)
  then obtain t' where w: "unwrap_dek e kvs uid' u = (Inl InvalidTag, t')" by blast
  obtain x v where l: "load_envelope e ct u = (x, v)" by fastforce
  have "isl (fst (decrypt_envelope e ct uid' u))"
    using load_envelope_result [OF l] l h(2) w
    by (cases x) (auto simp: decrypt_envelope_def Let_def try_catch_def bindA_def split: prod.splits sum.splits)
  then show ?thesis
    using h(1) by (auto simp: decrypt_mfa_secret_def envelope_error_def bindA_def split: prod.splits sum.splits)
qed

text \<open>An AEAD of the examples that refuses other associated data: a mark that tells where it ends.\<close>

definition bound_env :: env where
  "bound_env = mfa_env\<lparr>aead_encrypt := (\<lambda>k n m a. dumps (JArr [JStr a, JStr m])),
     aead_decrypt := (\<lambda>k n c a. case read_json c of Some (JArr [JStr a', JStr m]) \<Rightarrow> if a' = a then Some m else None | _ \<Rightarrow> None)\<rparr>"

lemma read_json_pair [simp]: "read_json (dumps (JArr [JStr a, JStr m])) = Some (JArr [JStr a, JStr m])"
proof -
  have "read_json (json_dumps (JArr [JStr a, JStr m])) = Some (sort_keys (JArr [JStr a, JStr m]))"
    using reads_json_read_json unfolding reads_json_def by blast
  then show ?thesis by (simp only: json_dumps_def sort_keys.simps list.map)
qed

theorem mfa_secret_bound_to_user_witness:
  "\<exists>nonce ct t. encrypt_mfa_secret bound_env ''SECRET'' 7 None (fresh_world empty_db) = (Inr (nonce, ct), t)
     \<and> isl (fst (decrypt_mfa_secret bound_env nonce ct 8 (fresh_world empty_db)))"
proof -
  have k: "map_of (cfg_kek_keys (cfg bound_env)) (cfg_kek_active_id (cfg bound_env)) = Some ''one''"
    by (simp add: bound_env_def mfa_env_def sample_cfg_def)
  have lib: "mfa_library bound_env"
    by (simp add: mfa_library_def bound_env_def mfa_env_def sample_env_def reads_json_read_json del: dumps.simps)
  have bound: "aead_decrypt bound_env key n (aead_encrypt bound_env key n m a) a' = None" if "a' \<noteq> a" for key n m a a'
    using that by (simp add: bound_env_def del: dumps.simps)
  obtain nonce ct t where e: "encrypt_mfa_secret bound_env ''SECRET'' 7 None (fresh_world empty_db) = (Inr (nonce, ct), t)"
    using audit_mfa_crypto_returns [of bound_env "''encrypt''" "''success''" "Some 7" "[(''kek_id'', JStr (cfg_kek_active_id (cfg bound_env)))]"
        "fresh_world empty_db"] k
    by (auto simp: encrypt_mfa_secret_def kek_def Let_def)
  from mfa_secret_bound_to_user [OF lib e bound, of 8 "fresh_world empty_db"] e show ?thesis by auto
qed

end
