(* ===== verification/Totp.thy ===== *)
theory Totp
  imports Auth_Frames Mfa_Crypto
begin

section \<open>Second-factor verification and account lockout\<close>

text \<open>
  The part of \<^verbatim>\<open>app/auth/services.py\<close> every sensitive operation goes through: backoff, the verification of a
  TOTP code with its replay record, the counter of a user's failures and the lock of the account. The code of
  an instant, \<^verbatim>\<open>pyotp.TOTP(secret).at(t)\<close>, is the parameter \<open>totp_at\<close>.
\<close>

definition generic_mfa_error :: string where
  "generic_mfa_error = ''Incorrect code. Check your authenticator and try again.''"

definition auth_backoff_error :: string where
  "auth_backoff_error = ''Too many failed attempts. Please wait before trying again.''"

definition auth_lock_threshold :: int where "auth_lock_threshold = 10"
definition customer_password_lock_threshold :: int where "customer_password_lock_threshold = 3"
definition privileged_password_lock_threshold :: int where "privileged_password_lock_threshold = 2"
definition auth_lock_window_seconds :: int where "auth_lock_window_seconds = 900"

definition enforce_auth_backoff :: "env \<Rightarrow> string \<Rightarrow> string \<Rightarrow> unit request" where
  "enforce_auth_backoff e scope prin =
     try_catch (apply_exponential_backoff e scope prin)
       (\<lambda>err. case err of
          AuthBackoffRequired retry_after \<Rightarrow>
            bindA (audit_event e ''auth_backoff'' ''blocked'' None [(''scope'', JStr scope), (''retry_after'', JInt retry_after)] None) (\<lambda>_.
            raise (AuthError auth_backoff_error 429 (Some retry_after)))
        | _ \<Rightarrow> raise err)"

subsection \<open>Lockout\<close>

definition user_security_lock_threshold :: "env \<Rightarrow> user \<Rightarrow> string \<Rightarrow> int" where
  "user_security_lock_threshold e u scope =
     (if scope = ''password'' \<and> u_account_type u \<in> {''staff'', ''admin'', ''root_admin''} then privileged_password_lock_threshold
      else if scope = ''password'' then customer_password_lock_threshold
      else if scope = ''mfa'' then max auth_lock_threshold (cfg_mfa_failure_limit (cfg e) + 2)
      else auth_lock_threshold)"

definition lock_user_account :: "env \<Rightarrow> user \<Rightarrow> string \<Rightarrow> string \<Rightarrow> int \<Rightarrow> unit request" where
  "lock_user_account e u reason scope attempts =
     bindA (updateA (update_user (u_id u) (\<lambda>u. u\<lparr>u_is_frozen := True, u_security_locked_at := Some (now e),
       u_security_lock_reason := Some reason\<rparr>))) (\<lambda>_.
     bindA (revoke_all_sessions e (u_id u) ''revoked'' None) (\<lambda>revoked.
     bindA (audit_event_required e ''account_lock'' ''locked'' (Some (u_id u))
       [(''reason'', JStr reason), (''scope'', JStr scope), (''attempts'', JInt attempts), (''revoked_sessions'', JInt revoked)] None) (\<lambda>_.
     commitA)))"

definition security_scope :: "string \<Rightarrow> string" where
  "security_scope scope = ''user_security:'' @ scope"

definition security_principal_hash :: "env \<Rightarrow> int \<Rightarrow> string \<Rightarrow> string" where
  "security_principal_hash e uid scope = active_hmac_hex e (security_scope scope @ '':'' @ int_str uid) 64"

definition security_counter :: "env \<Rightarrow> int \<Rightarrow> string \<Rightarrow> auth_counter \<Rightarrow> bool" where
  "security_counter e uid scope c \<longleftrightarrow> ac_scope c = security_scope scope \<and> ac_principal_hash c = security_principal_hash e uid scope"

definition new_security_counter :: "env \<Rightarrow> int \<Rightarrow> string \<Rightarrow> database \<Rightarrow> auth_counter" where
  "new_security_counter e uid scope db =
     \<lparr>ac_id = next_id (map ac_id (auth_counters db)), ac_scope = security_scope scope,
      ac_principal_hash = security_principal_hash e uid scope, ac_user_id = Some uid, ac_ip_hash = None, ac_failure_count = 0,
      ac_window_started_at = now e, ac_window_expires_at = now e + seconds auth_lock_window_seconds, ac_locked_until = None,
      ac_last_failed_at = None, ac_created_at = now e, ac_updated_at = now e\<rparr>"

text \<open>The counter in its window, or a fresh one in its place.\<close>

definition live_security_counter :: "env \<Rightarrow> int \<Rightarrow> string \<Rightarrow> auth_counter request" where
  "live_security_counter e uid scope =
     bindA (queryA (\<lambda>db. find (security_counter e uid scope) (auth_counters db))) (\<lambda>found.
     case found of
       Some c \<Rightarrow>
         if now e < ac_window_expires_at c then ret c
         else bindA (updateA (delete_counters (security_counter e uid scope))) (\<lambda>_.
           bindA (queryA (new_security_counter e uid scope)) (\<lambda>c.
           bindA (updateA (add_counter c)) (\<lambda>_. ret c)))
     | None \<Rightarrow>
         bindA (queryA (new_security_counter e uid scope)) (\<lambda>c.
         bindA (updateA (add_counter c)) (\<lambda>_. ret c)))"

definition record_user_security_failure :: "env \<Rightarrow> user \<Rightarrow> string \<Rightarrow> string \<Rightarrow> unit request" where
  "record_user_security_failure e u scope lock_reason =
     bindA (live_security_counter e (u_id u) scope) (\<lambda>c.
     let attempts = ac_failure_count c + 1 in
     bindA (updateA (update_counters (security_counter e (u_id u) scope)
       (\<lambda>c. c\<lparr>ac_failure_count := attempts, ac_last_failed_at := Some (now e), ac_updated_at := now e,
              ac_window_expires_at := now e + seconds auth_lock_window_seconds\<rparr>))) (\<lambda>_.
     bindA commitA (\<lambda>_.
     condA (user_security_lock_threshold e u scope \<le> attempts) (lock_user_account e u lock_reason scope attempts))))"

definition clear_user_security_failures :: "env \<Rightarrow> int \<Rightarrow> string \<Rightarrow> unit request" where
  "clear_user_security_failures e uid scope =
     bindA (queryA (\<lambda>db. find (security_counter e uid scope) (auth_counters db))) (\<lambda>found.
     case found of None \<Rightarrow> ret ()
     | Some c \<Rightarrow> bindA (updateA (delete_counters (security_counter e uid scope))) (\<lambda>_. commitA))"

definition account_auth_unavailable_error :: string where
  "account_auth_unavailable_error = ''Authentication unavailable for this account''"

definition ensure_account_can_authenticate :: "env \<Rightarrow> user \<Rightarrow> unit request" where
  "ensure_account_can_authenticate e u =
     (if u_is_frozen u \<or> u_security_locked_at u \<noteq> None
      then bindA (audit_event e ''login'' ''blocked'' (Some (u_id u))
             [(''reason'', JStr (or_default (u_security_lock_reason u) ''account_frozen''))] None) (\<lambda>_.
           raise (auth_error account_auth_unavailable_error 403))
      else ret ())"

subsection \<open>TOTP codes\<close>

datatype totp_outcome = TOTP_VALID | TOTP_INVALID | TOTP_REPLAY

definition customer_high_risk_totp_replay_scopes :: "string list" where
  "customer_high_risk_totp_replay_scopes = [''account_freeze'', ''account_topup_approval'', ''mfa_replace_start'', ''password_change'',
     ''payee_add'', ''payee_remove'', ''payup_transfer'', ''profile_email_change_commit'', ''profile_email_change_request'',
     ''profile_update'', ''recovery_codes_regenerate'', ''session_revoke_others'', ''transaction_authorization'', ''transfer'',
     ''transfer_limits_change'']"

definition customer_high_risk_totp_replay_scope :: string where
  "customer_high_risk_totp_replay_scope = ''customer_high_risk_action''"

definition totp_replay_scope :: "string \<Rightarrow> string" where
  "totp_replay_scope scope = (let n = py_strip scope in
     if n \<in> set customer_high_risk_totp_replay_scopes then customer_high_risk_totp_replay_scope else n)"

definition totp_valid_window :: "env \<Rightarrow> string \<Rightarrow> int option \<Rightarrow> int" where
  "totp_valid_window e scope valid_window =
     (case valid_window of Some w \<Rightarrow> w
      | None \<Rightarrow> if scope = ''mfa_login'' then cfg_totp_login_window (cfg e) else cfg_totp_high_risk_window (cfg e))"

definition accepted_totp_step :: "env \<Rightarrow> string \<Rightarrow> string \<Rightarrow> int \<Rightarrow> int \<Rightarrow> int option" where
  "accepted_totp_step e secret code now_secs valid_window =
     find (\<lambda>step. 0 \<le> step \<and> totp_at e secret (step * 30) = code)
       (map (\<lambda>offset. now_secs div 30 + offset) [- valid_window .. valid_window])"

definition mfa_secret_for_user :: "env \<Rightarrow> user \<Rightarrow> string request" where
  "mfa_secret_for_user e u =
     (case (u_mfa_secret_nonce u, u_mfa_secret_ciphertext u) of
        (Some n, Some c) \<Rightarrow> if n = [] \<or> c = [] then raise (auth_error ''MFA is not configured'' 403) else decrypt_mfa_secret e n c (u_id u)
      | _ \<Rightarrow> raise (auth_error ''MFA is not configured'' 403))"

definition six_digits :: "string \<Rightarrow> bool" where
  "six_digits code \<longleftrightarrow> length code = 6 \<and> list_all py_isdigit code"

definition totp_code_digest :: "env \<Rightarrow> int \<Rightarrow> string \<Rightarrow> int \<Rightarrow> string \<Rightarrow> string" where
  "totp_code_digest e uid replay_scope step code =
     active_hmac_hex e (''totp-replay:'' @ int_str uid @ '':'' @ replay_scope @ '':'' @ int_str step @ '':'' @ code) 64"

definition replay_ttl :: "int \<Rightarrow> int" where
  "replay_ttl window = max 30 ((window * 2 + 2) * 30)"

definition add_replay_record :: "env \<Rightarrow> int \<Rightarrow> string \<Rightarrow> int \<Rightarrow> string \<Rightarrow> int \<Rightarrow> database \<Rightarrow> database" where
  "add_replay_record e uid replay_scope step digest ttl db =
     db\<lparr>totp_replays := totp_replays db @ [\<lparr>rp_id = next_id (map rp_id (totp_replays db)), rp_user_id = uid, rp_scope = replay_scope,
        rp_time_step = step, rp_code_digest = digest, rp_expires_at = now e + seconds ttl, rp_created_at = now e\<rparr>]\<rparr>"

text \<open>\<open>accept_totp_step\<close>: the second half of the verification, for a code that is right.\<close>

definition accept_totp_step :: "env \<Rightarrow> user \<Rightarrow> string \<Rightarrow> string \<Rightarrow> int option \<Rightarrow> bool \<Rightarrow> int \<Rightarrow> totp_outcome request" where
  "accept_totp_step e u code scope valid_window track_failures step =
     (let replay_scope = totp_replay_scope scope;
          digest = totp_code_digest e (u_id u) replay_scope step code;
          ttl = replay_ttl (totp_valid_window e scope valid_window) in
      bindA (updateA (add_replay_record e (u_id u) replay_scope step digest ttl)) (\<lambda>_.
      bindA (try_catch (bindA commitA (\<lambda>_. ret True))
        (\<lambda>err. if err = IntegrityError then bindA rollbackA (\<lambda>_. ret False) else raise err)) (\<lambda>stored.
      if \<not> stored then ret TOTP_REPLAY
      else
        bindA (condA track_failures (clear_failures e scope (int_str (u_id u)))) (\<lambda>_.
        bindA (clear_user_security_failures e (u_id u) ''mfa'') (\<lambda>_.
        bindA (mark_fresh_mfa e) (\<lambda>_.
        ret TOTP_VALID))))))"

definition verify_totp_secret_for_user_outcome ::
  "env \<Rightarrow> user \<Rightarrow> string \<Rightarrow> string \<Rightarrow> string \<Rightarrow> int option \<Rightarrow> bool \<Rightarrow> totp_outcome request"
where
  "verify_totp_secret_for_user_outcome e u secret code scope valid_window track_failures =
     (let failed = bindA (if track_failures then record_failure e scope (int_str (u_id u)) None else ret 0) (\<lambda>_. ret TOTP_INVALID) in
      if \<not> six_digits code then failed
      else
        bindA (condA track_failures
          (try_catch (enforce_auth_backoff e scope (int_str (u_id u)))
            (\<lambda>err. case err of
               AuthError _ _ _ \<Rightarrow> bindA (record_user_security_failure e u ''mfa'' ''mfa_failed_attempts'') (\<lambda>_. raise err)
             | _ \<Rightarrow> raise err))) (\<lambda>_.
        case accepted_totp_step e secret code (now_s e) (totp_valid_window e scope valid_window) of
          None \<Rightarrow> failed
        | Some step \<Rightarrow> accept_totp_step e u code scope valid_window track_failures step))"

definition verify_totp_for_user_outcome ::
  "env \<Rightarrow> user \<Rightarrow> string \<Rightarrow> string \<Rightarrow> int option \<Rightarrow> bool \<Rightarrow> totp_outcome request"
where
  "verify_totp_for_user_outcome e u code scope valid_window track_failures =
     bindA (mfa_secret_for_user e u) (\<lambda>secret.
     verify_totp_secret_for_user_outcome e u secret code scope valid_window track_failures)"

definition verify_totp_for_user :: "env \<Rightarrow> user \<Rightarrow> string \<Rightarrow> string \<Rightarrow> int option \<Rightarrow> bool \<Rightarrow> bool request" where
  "verify_totp_for_user e u code scope valid_window track_failures =
     bindA (verify_totp_for_user_outcome e u code scope valid_window track_failures) (\<lambda>outcome. ret (outcome = TOTP_VALID))"

definition verify_totp_secret_for_user ::
  "env \<Rightarrow> user \<Rightarrow> string \<Rightarrow> string \<Rightarrow> string \<Rightarrow> int option \<Rightarrow> bool \<Rightarrow> bool request"
where
  "verify_totp_secret_for_user e u secret code scope valid_window track_failures =
     bindA (verify_totp_secret_for_user_outcome e u secret code scope valid_window track_failures) (\<lambda>outcome. ret (outcome = TOTP_VALID))"

definition verify_totp_code_for_user :: "env \<Rightarrow> user \<Rightarrow> string \<Rightarrow> string \<Rightarrow> bool request" where
  "verify_totp_code_for_user e u code scope = verify_totp_for_user e u code scope None True"

subsection \<open>Authorization of an action\<close>

definition handle_mfa_verification_failure :: "env \<Rightarrow> user \<Rightarrow> string \<Rightarrow> 'a request" where
  "handle_mfa_verification_failure e u action =
     bindA (audit_event e action ''failure'' (Some (u_id u)) [] None) (\<lambda>_.
     bindA (record_user_security_failure e u ''mfa'' ''mfa_failed_attempts'') (\<lambda>_.
     raise (auth_error generic_mfa_error 401)))"

definition handle_mfa_verification_replay :: "env \<Rightarrow> user \<Rightarrow> string \<Rightarrow> 'a request" where
  "handle_mfa_verification_replay e u action =
     bindA (audit_event e action ''failure'' (Some (u_id u)) [(''reason'', JStr ''totp_replay'')] None) (\<lambda>_.
     raise (auth_error generic_mfa_error 401))"

definition refuse_action :: "env \<Rightarrow> user \<Rightarrow> string \<Rightarrow> string \<Rightarrow> string \<Rightarrow> int \<Rightarrow> 'a request" where
  "refuse_action e u action reason message status =
     bindA (audit_event e action ''failure'' (Some (u_id u)) [(''reason'', JStr reason)] None) (\<lambda>_.
     raise (auth_error message status))"

definition rotate_if_own_session :: "env \<Rightarrow> user \<Rightarrow> bool \<Rightarrow> unit request" where
  "rotate_if_own_session e u rot =
     bindA (readA (\<lambda>w. sess_get w ''user_id'')) (\<lambda>uid.
     if rot \<and> uid = JInt (u_id u) then bindA (rotate_authenticated_session_after_mfa e (u_id u)) (\<lambda>_. ret ()) else ret ())"

definition check_totp_outcome :: "env \<Rightarrow> user \<Rightarrow> string \<Rightarrow> totp_outcome \<Rightarrow> unit request" where
  "check_totp_outcome e u action outcome =
     (case outcome of
        TOTP_REPLAY \<Rightarrow> handle_mfa_verification_replay e u action
      | TOTP_INVALID \<Rightarrow> handle_mfa_verification_failure e u action
      | TOTP_VALID \<Rightarrow> ret ())"

text \<open>\<^verbatim>\<open>not code\<close>: an absent code and an empty one.\<close>

definition no_code :: "string option \<Rightarrow> bool" where
  "no_code code \<longleftrightarrow> code = None \<or> code = Some []"

definition verify_fresh_mfa_for_action :: "env \<Rightarrow> user \<Rightarrow> string option \<Rightarrow> string \<Rightarrow> bool \<Rightarrow> unit request" where
  "verify_fresh_mfa_for_action e u code action rot =
     (if \<not> u_mfa_enabled u then refuse_action e u action ''mfa_not_enabled'' ''MFA is required for this action'' 403
      else if no_code code then refuse_action e u action ''missing_mfa_code'' generic_mfa_error 401
      else
        bindA (verify_totp_for_user_outcome e u (or_default code []) action None True) (\<lambda>outcome.
        bindA (check_totp_outcome e u action outcome) (\<lambda>_.
        bindA (rotate_if_own_session e u rot) (\<lambda>_.
        audit_event e action ''mfa_success'' (Some (u_id u)) [] None))))"

definition verify_high_risk_authorization :: "env \<Rightarrow> user \<Rightarrow> string option \<Rightarrow> string \<Rightarrow> bool \<Rightarrow> unit request" where
  "verify_high_risk_authorization e u code action rot =
     bindA (require_stable_session_for_sensitive_action e action) (\<lambda>_.
     if \<not> has_enrolled_mfa_method u then refuse_action e u action ''mfa_not_enabled'' ''MFA is required for this action'' 403
     else if no_code code then refuse_action e u action ''missing_mfa_step_up'' ''MFA verification is required for this action'' 403
     else if \<not> u_mfa_enabled u then refuse_action e u action ''totp_not_enabled'' ''Authenticator MFA is required for this action'' 403
     else
       bindA (verify_totp_for_user_outcome e u (or_default code []) action None True) (\<lambda>outcome.
       bindA (check_totp_outcome e u action outcome) (\<lambda>_.
       bindA (audit_event e action ''mfa_success'' (Some (u_id u)) [] None) (\<lambda>_.
       rotate_if_own_session e u rot))))"

subsection \<open>Frames\<close>

definition replays_free :: "(database \<Rightarrow> bool) \<Rightarrow> bool" where
  "replays_free P \<longleftrightarrow> (\<forall>e uid sc st d ttl db. P db \<longrightarrow> P (add_replay_record e uid sc st d ttl db))"

lemma preserves_add_replay_record [preserves_rules]:
  "replays_free P \<Longrightarrow> preserves (both P) (updateA (add_replay_record e uid sc st d ttl))"
  by (rule preserves_both_updateA) (simp add: replays_free_def)

lemma preserves_audit_mfa_crypto [preserves_rules]:
  "keeps_audit e P \<Longrightarrow> preserves (both P) (audit_mfa_crypto e a out uid md)"
  unfolding audit_mfa_crypto_def by (intro preserves_rules)

lemma preserves_envelope_error [preserves_rules]: "preserves I (envelope_error m)"
  unfolding envelope_error_def by (intro preserves_rules)

lemma preserves_kek [preserves_rules]: "keeps_audit e P \<Longrightarrow> preserves (both P) (kek e k)"
  unfolding kek_def by (intro preserves_rules)

lemma preserves_b64decode [preserves_rules]: "preserves I (b64decode e v f)"
  unfolding b64decode_def by (cases v) (auto intro: preserves_rules)

lemma preserves_aead_open [preserves_rules]: "preserves I (aead_open e k n d a)"
  unfolding aead_open_def by (intro preserves_rules)

lemma preserves_load_envelope [preserves_rules]: "preserves I (load_envelope e ct)"
  using load_envelope_result [of e ct] by (auto simp: preserves_def) (metis prod.collapse)

lemma preserves_unwrap_dek [preserves_rules]: "keeps_audit e P \<Longrightarrow> preserves (both P) (unwrap_dek e kvs uid)"
  unfolding unwrap_dek_def Let_def by (intro preserves_rules)

lemma preserves_decrypt_mfa_secret [preserves_rules]: "keeps_audit e P \<Longrightarrow> preserves (both P) (decrypt_mfa_secret e n c uid)"
  unfolding decrypt_mfa_secret_def decrypt_envelope_def Let_def by (intro preserves_rules)

lemma preserves_encrypt_mfa_secret [preserves_rules]: "keeps_audit e P \<Longrightarrow> preserves (both P) (encrypt_mfa_secret e sec uid k)"
  unfolding encrypt_mfa_secret_def Let_def by (intro preserves_rules)

lemma preserves_mfa_secret_for_user [preserves_rules]: "keeps_audit e P \<Longrightarrow> preserves (both P) (mfa_secret_for_user e u)"
  unfolding mfa_secret_for_user_def by (auto split: option.split intro: preserves_rules)

lemma preserves_enforce_auth_backoff [preserves_rules]:
  "auth_free P \<Longrightarrow> preserves (both P) (enforce_auth_backoff e scope pr)"
  unfolding enforce_auth_backoff_def
  by (intro preserves_rules auth_freeD, assumption) (auto split: py_error.split intro!: preserves_rules auth_freeD)

lemma preserves_lock_user_account [preserves_rules]:
  "auth_free P \<Longrightarrow> preserves (both P) (lock_user_account e u r sc n)"
  unfolding lock_user_account_def
  by (intro preserves_rules auth_freeD preserves_update_users; (assumption | simp add: account_part_def))

lemma preserves_live_security_counter [preserves_rules]:
  "counters_free P \<Longrightarrow> preserves (both P) (live_security_counter e uid sc)"
  unfolding live_security_counter_def by (intro preserves_rules)

lemma preserves_record_user_security_failure [preserves_rules]:
  "auth_free P \<Longrightarrow> preserves (both P) (record_user_security_failure e u sc r)"
  unfolding record_user_security_failure_def Let_def by (intro preserves_rules auth_freeD)

lemma preserves_clear_user_security_failures [preserves_rules]:
  "counters_free P \<Longrightarrow> preserves (both P) (clear_user_security_failures e uid sc)"
  unfolding clear_user_security_failures_def by (intro preserves_rules)

lemma preserves_accept_totp_step [preserves_rules]:
  "auth_free P \<Longrightarrow> replays_free P \<Longrightarrow> preserves (both P) (accept_totp_step e u code sc w tr step)"
  unfolding accept_totp_step_def Let_def by (intro preserves_rules auth_freeD)

lemma preserves_guarded_backoff [preserves_rules]:
  assumes "auth_free P"
  shows "preserves (both P) (try_catch (enforce_auth_backoff e sc pr) (\<lambda>err. case err of
      AuthError _ _ _ \<Rightarrow> bindA (record_user_security_failure e u ''mfa'' r) (\<lambda>_. raise err) | _ \<Rightarrow> raise err))"
proof (rule preserves_try_catch)
  show "preserves (both P) (case err of
      AuthError _ _ _ \<Rightarrow> bindA (record_user_security_failure e u ''mfa'' r) (\<lambda>_. raise err) | _ \<Rightarrow> raise err)" for err
    using assms by (cases err) (auto intro: preserves_rules)
qed (intro preserves_rules assms)

lemma preserves_verify_totp_secret [preserves_rules]:
  "auth_free P \<Longrightarrow> replays_free P \<Longrightarrow> preserves (both P) (verify_totp_secret_for_user_outcome e u sec code sc w tr)"
  unfolding verify_totp_secret_for_user_outcome_def Let_def by (intro preserves_rules auth_freeD)

lemma preserves_verify_totp [preserves_rules]:
  "auth_free P \<Longrightarrow> replays_free P \<Longrightarrow> preserves (both P) (verify_totp_for_user_outcome e u code sc w tr)"
  unfolding verify_totp_for_user_outcome_def by (intro preserves_rules auth_freeD)

lemma preserves_verify_totp_code [preserves_rules]:
  "auth_free P \<Longrightarrow> replays_free P \<Longrightarrow> preserves (both P) (verify_totp_code_for_user e u code sc)"
  unfolding verify_totp_code_for_user_def verify_totp_for_user_def by (intro preserves_rules)

lemma preserves_check_totp_outcome [preserves_rules]: "auth_free P \<Longrightarrow> preserves (both P) (check_totp_outcome e u a oc)"
  unfolding check_totp_outcome_def handle_mfa_verification_replay_def handle_mfa_verification_failure_def
  by (cases oc) (auto intro!: preserves_rules auth_freeD)

lemma preserves_refuse_action [preserves_rules]: "keeps_audit e P \<Longrightarrow> preserves (both P) (refuse_action e u a r m st)"
  unfolding refuse_action_def by (intro preserves_rules)

lemma preserves_rotate_if_own_session [preserves_rules]: "sessions_free P \<Longrightarrow> preserves (both P) (rotate_if_own_session e u r)"
  unfolding rotate_if_own_session_def by (intro preserves_rules)

lemma preserves_verify_high_risk_authorization [preserves_rules]:
  "auth_free P \<Longrightarrow> replays_free P \<Longrightarrow> preserves (both P) (verify_high_risk_authorization e u code a r)"
  unfolding verify_high_risk_authorization_def by (intro preserves_rules auth_freeD)

lemma preserves_verify_fresh_mfa [preserves_rules]:
  "auth_free P \<Longrightarrow> replays_free P \<Longrightarrow> preserves (both P) (verify_fresh_mfa_for_action e u code a r)"
  unfolding verify_fresh_mfa_for_action_def by (intro preserves_rules auth_freeD)

subsection \<open>A code is used once\<close>

record totp_request =
  tq_env :: env
  tq_user :: user
  tq_secret :: string
  tq_code :: string
  tq_scope :: string
  tq_window :: "int option"
  tq_track :: bool

text \<open>A verification as a request of its own, which raises unless the code is accepted.\<close>

definition serve_totp :: "totp_request \<Rightarrow> unit request" where
  "serve_totp r = served (bindA (verify_totp_secret_for_user_outcome (tq_env r) (tq_user r) (tq_secret r) (tq_code r) (tq_scope r)
       (tq_window r) (tq_track r))
     (\<lambda>outcome. if outcome = TOTP_VALID then ret () else raise (auth_error generic_mfa_error 401)))"

text \<open>
  What identifies a use of a code: the user, the group of actions it is used for, the time step it belongs to,
  the code, and the keyed digest in force.
\<close>

type_synonym totp_use = "int \<times> string \<times> int option \<times> string \<times> (string \<Rightarrow> string)"

definition totp_use_of :: "totp_request \<Rightarrow> totp_use" where
  "totp_use_of r = (u_id (tq_user r), totp_replay_scope (tq_scope r),
     accepted_totp_step (tq_env r) (tq_secret r) (tq_code r) (now_s (tq_env r)) (totp_valid_window (tq_env r) (tq_scope r) (tq_window r)),
     tq_code r, hmac_sha256 (tq_env r) (active_key (tq_env r)))"

definition use_recorded :: "totp_use \<Rightarrow> database \<Rightarrow> bool" where
  "use_recorded k db \<longleftrightarrow> (case k of (uid, scope, step, code, digest) \<Rightarrow>
     case step of None \<Rightarrow> True
     | Some st \<Rightarrow> (\<exists>r \<in> set (totp_replays db). rp_user_id r = uid \<and> rp_scope r = scope \<and> rp_time_step r = st
         \<and> rp_code_digest r = take 64 (digest (''totp-replay:'' @ int_str uid @ '':'' @ scope @ '':'' @ int_str st @ '':'' @ code))))"

lemma use_recorded_frames: "auth_free (use_recorded k)" "replays_free (use_recorded k)"
  by (auto simp: auth_free_def sessions_free_def counters_free_def auth_users_free_def replays_free_def use_recorded_def
      add_replay_record_def intro!: keeps_auditI split: prod.splits option.splits)

lemma accept_records:
  assumes "accept_totp_step e u code scope w tr step s = (Inr TOTP_VALID, t)"
    and "k = (u_id u, totp_replay_scope scope, Some step, code, hmac_sha256 e (active_key e))"
  shows "both (use_recorded k) t"
proof -
  let ?f = "add_replay_record e (u_id u) (totp_replay_scope scope) step (totp_code_digest e (u_id u) (totp_replay_scope scope) step code)
      (replay_ttl (totp_valid_window e scope w))"
  let ?s = "s\<lparr>working := ?f (working s)\<rparr>"
  let ?rest = "bindA (condA tr (clear_failures e scope (int_str (u_id u)))) (\<lambda>_.
      bindA (clear_user_security_failures e (u_id u) ''mfa'') (\<lambda>_. bindA (mark_fresh_mfa e) (\<lambda>_. ret TOTP_VALID)))"
  have rec: "use_recorded k (?f db)" for db
    by (simp add: assms(2) use_recorded_def add_replay_record_def totp_code_digest_def active_hmac_hex_def)
  have "storable (working ?s) \<and> ?rest (?s\<lparr>committed := working ?s\<rparr>) = (Inr TOTP_VALID, t)"
    using assms(1) by (cases rule: commitA_cases [of ?s])
      (auto simp: accept_totp_step_def Let_def try_catch_def bindA_def split: if_splits)
  moreover have "preserves (both (use_recorded k)) ?rest"
    by (intro preserves_rules auth_freeD use_recorded_frames)
  ultimately show ?thesis using rec preservesD' [of _ ?rest] by (fastforce simp: both_def)
qed

lemma replay_not_storable:
  assumes "use_recorded (u_id u, totp_replay_scope scope, Some step, code, hmac_sha256 e (active_key e)) db"
  shows "\<not> storable (add_replay_record e (u_id u) (totp_replay_scope scope) step
      (totp_code_digest e (u_id u) (totp_replay_scope scope) step code) ttl db)"
  using assms unfolding storable_def constraints_ok_def add_replay_record_def use_recorded_def totp_code_digest_def active_hmac_hex_def
  by force

lemma accept_refused:
  assumes "use_recorded (u_id u, totp_replay_scope scope, Some step, code, hmac_sha256 e (active_key e)) (working s)"
  shows "fst (accept_totp_step e u code scope w tr step s) \<noteq> Inr TOTP_VALID"
proof -
  let ?s = "s\<lparr>working := add_replay_record e (u_id u) (totp_replay_scope scope) step
      (totp_code_digest e (u_id u) (totp_replay_scope scope) step code) (replay_ttl (totp_valid_window e scope w)) (working s)\<rparr>"
  show ?thesis
    using replay_not_storable [OF assms, of "replay_ttl (totp_valid_window e scope w)"]
    by (cases rule: commitA_cases [of ?s]) (auto simp: accept_totp_step_def Let_def try_catch_def bindA_def)
qed

lemma bindA_unitE:
  assumes "bindA m f s = (Inr y, t)"
  obtains s' where "m s = (Inr (), s')" "f () s' = (Inr y, t)"
  using assms by (auto simp: bindA_eq_Inr)

lemma verify_valid_accepts:
  assumes "verify_totp_secret_for_user_outcome e u secret code scope w tr s = (Inr TOTP_VALID, t)"
  obtains step s' where "six_digits code"
    "accepted_totp_step e secret code (now_s e) (totp_valid_window e scope w) = Some step"
    "accept_totp_step e u code scope w tr step s' = (Inr TOTP_VALID, t)"
    "\<And>P. auth_free P \<Longrightarrow> both P s \<Longrightarrow> both P s'"
proof -
  let ?guard = "condA tr (try_catch (enforce_auth_backoff e scope (int_str (u_id u))) (\<lambda>err. case err of
      AuthError _ _ _ \<Rightarrow> bindA (record_user_security_failure e u ''mfa'' ''mfa_failed_attempts'') (\<lambda>_. raise err) | _ \<Rightarrow> raise err))"
  let ?st = "accepted_totp_step e secret code (now_s e) (totp_valid_window e scope w)"
  let ?failed = "bindA (if tr then record_failure e scope (int_str (u_id u)) None else ret 0) (\<lambda>_. ret TOTP_INVALID)"
  have failed: "?failed v \<noteq> (Inr TOTP_VALID, t)" for v
    by (simp only: bindA_eq_Inr ret_apply) simp
  have six: "six_digits code"
    using assms failed by (simp only: verify_totp_secret_for_user_outcome_def Let_def split: if_splits)
  then have "bindA ?guard (\<lambda>_. case ?st of None \<Rightarrow> ?failed | Some step \<Rightarrow> accept_totp_step e u code scope w tr step) s = (Inr TOTP_VALID, t)"
    using assms by (simp only: verify_totp_secret_for_user_outcome_def Let_def not_True_eq_False if_False)
  then obtain s' where g: "?guard s = (Inr (), s')"
    and c: "(case ?st of None \<Rightarrow> ?failed | Some step \<Rightarrow> accept_totp_step e u code scope w tr step) s' = (Inr TOTP_VALID, t)"
    by (rule bindA_unitE)
  have P: "both P s'" if "auth_free P" "both P s" for P
  proof -
    have "preserves (both P) ?guard" by (intro preserves_rules that(1))
    from preservesD [OF this that(2)] g show ?thesis by (simp only: snd_conv)
  qed
  show thesis
  proof (cases ?st)
    case None
    with c failed [of s'] show thesis by simp
  next
    case (Some step)
    with that [OF six Some] c P show thesis by simp
  qed
qed

interpretation totp: single_use serve_totp totp_use_of "\<lambda>k. both (use_recorded k)"
proof
  fix r s x t
  assume "serve_totp r s = (Inr x, t)"
  then obtain t' where v: "verify_totp_secret_for_user_outcome (tq_env r) (tq_user r) (tq_secret r) (tq_code r) (tq_scope r)
      (tq_window r) (tq_track r) s = (Inr TOTP_VALID, t')" and t: "t = t'\<lparr>working := committed t'\<rparr>"
    by (auto simp: serve_totp_def served_eq bindA_eq_Inr split: if_splits)
  from v show "both (use_recorded (totp_use_of r)) t"
    by (rule verify_valid_accepts) (auto simp: t both_def totp_use_of_def dest!: accept_records [OF _ refl])
next
  fix k s r
  assume "both (use_recorded k) s"
  moreover have "preserves (both (use_recorded k)) (serve_totp r)"
    unfolding serve_totp_def by (intro preserves_rules use_recorded_frames)
  ultimately show "both (use_recorded k) (snd (serve_totp r s))" by (simp add: preserves_def)
next
  fix r s
  assume b: "both (use_recorded (totp_use_of r)) s"
  show "isl (fst (serve_totp r s))"
  proof (rule ccontr)
    assume "\<not> isl (fst (serve_totp r s))"
    then obtain t' where v: "verify_totp_secret_for_user_outcome (tq_env r) (tq_user r) (tq_secret r) (tq_code r) (tq_scope r)
        (tq_window r) (tq_track r) s = (Inr TOTP_VALID, t')"
      by (auto simp: serve_totp_def served_def bindA_def split: prod.splits sum.splits if_splits)
    then show False
    proof (rule verify_valid_accepts)
      fix step s'
      assume "accepted_totp_step (tq_env r) (tq_secret r) (tq_code r) (now_s (tq_env r))
          (totp_valid_window (tq_env r) (tq_scope r) (tq_window r)) = Some step"
        and a: "accept_totp_step (tq_env r) (tq_user r) (tq_code r) (tq_scope r) (tq_window r) (tq_track r) step s' = (Inr TOTP_VALID, t')"
        and "\<And>P. auth_free P \<Longrightarrow> both P s \<Longrightarrow> both P s'"
      with b use_recorded_frames(1) have "use_recorded (u_id (tq_user r), totp_replay_scope (tq_scope r), Some step, tq_code r,
          hmac_sha256 (tq_env r) (active_key (tq_env r))) (working s')"
        by (fastforce simp: totp_use_of_def both_def)
      from accept_refused [OF this] a show False by (metis fst_conv)
    qed
  qed
qed

text \<open>
  C16. A one-time code is accepted at most once: in any sequence of verifications, for whatever users, actions and
  instants, at most one with a given user, group of actions, time step and code succeeds, as long as the active
  HMAC key stays the same. All customer actions of high risk form one group, so a code that authorized a
  transfer cannot authorize another action either.
\<close>

theorem totp_code_single_use:
  "successes totp_use_of k rs (fst (run_all serve_totp rs s)) \<le> 1"
  by (rule totp.at_most_one_success)

subsection \<open>Replay records outlive the codes\<close>

lemma accepted_step_range:
  assumes "accepted_totp_step e secret code t w = Some step"
  shows "t div 30 - w \<le> step \<and> step \<le> t div 30 + w \<and> 0 \<le> step \<and> totp_at e secret (step * 30) = code"
  using find_SomeD [OF assms [unfolded accepted_totp_step_def]] by auto

text \<open>
  The record of a used code is kept as long as the code could still be accepted: at the instant the record
  expires, and ever after, the verification of any code accepts another time step than the recorded one. So
  deleting expired records, as the cleanup job does, cannot make a used code valid again.
\<close>

theorem replay_record_outlives_code:
  assumes "accepted_totp_step e secret code (now_s e) w = Some step" and "0 \<le> w"
    and "now e + seconds (replay_ttl w) \<le> now e'"
  shows "accepted_totp_step e' secret' code' (now_s e') w \<noteq> Some step"
proof
  assume "accepted_totp_step e' secret' code' (now_s e') w = Some step"
  from accepted_step_range [OF this] have "now_s e' div 30 - w \<le> step" by simp
  moreover from accepted_step_range [OF assms(1)] have "step \<le> now_s e div 30 + w" by simp
  moreover have "now_s e + replay_ttl w \<le> now_s e'"
  proof -
    have "(now e + seconds (replay_ttl w)) div second_us = now_s e + replay_ttl w"
      by (simp add: now_s_def seconds_def second_us_def)
    moreover have "(now e + seconds (replay_ttl w)) div second_us \<le> now e' div second_us"
      using assms(3) by (intro zdiv_mono1) (simp_all add: second_us_def)
    ultimately show ?thesis by (simp add: now_s_def)
  qed
  ultimately show False using assms(2) by (auto simp: replay_ttl_def)
qed

theorem replay_record_outlives_code_witness:
  "accepted_totp_step sample_env ''S'' ''000042'' (now_s sample_env) 1 = Some (now_s sample_env div 30 - 1)
   \<and> accepted_totp_step (sample_env\<lparr>now := now sample_env + 120000000\<rparr>) ''S'' ''000042'' (now_s (sample_env\<lparr>now := now sample_env + 120000000\<rparr>)) 1
     \<noteq> Some (now_s sample_env div 30 - 1)"
proof -
  have a: "accepted_totp_step sample_env ''S'' ''000042'' (now_s sample_env) 1 = Some (now_s sample_env div 30 - 1)"
    by code_simp
  have "now sample_env + seconds (replay_ttl 1) \<le> now (sample_env\<lparr>now := now sample_env + 120000000\<rparr>)"
    by (simp add: seconds_def replay_ttl_def second_us_def)
  from replay_record_outlives_code [OF a _ this] a show ?thesis by simp
qed

subsection \<open>Repeated failures lock the account\<close>

text \<open>The failures counted against a user at an instant: those of the stored counter while its window is open.\<close>

definition security_attempts :: "env \<Rightarrow> int \<Rightarrow> string \<Rightarrow> database \<Rightarrow> int" where
  "security_attempts e uid scope db =
     (case find (security_counter e uid scope) (auth_counters db) of
        Some c \<Rightarrow> if now e < ac_window_expires_at c then ac_failure_count c else 0
      | None \<Rightarrow> 0)"

lemma find_added_counter:
  "k c \<Longrightarrow> find k (auth_counters db) = None \<Longrightarrow> find k (auth_counters (add_counter c db)) = Some c"
  by (simp add: add_counter_def find_append)

lemma find_deleted_counter: "find k (auth_counters (delete_counters k db)) = None"
  by (simp add: delete_counters_def find_filter_none)

lemma find_updated_counter:
  "(\<And>c. k (f c) = k c) \<Longrightarrow> find k (auth_counters db) = Some c \<Longrightarrow> find k (auth_counters (update_counters k f db)) = Some (f c)"
  by (auto simp: update_counters_def find_upd_where_same dest: find_SomeD)

lemma new_security_counter_fields [simp]:
  "security_counter e uid scope (new_security_counter e uid scope db)" "ac_failure_count (new_security_counter e uid scope db) = 0"
  by (simp_all add: new_security_counter_def security_counter_def)

lemma live_security_counter_effect:
  obtains c s' where "live_security_counter e uid scope s = (Inr c, s')" "users (working s') = users (working s)"
    "find (security_counter e uid scope) (auth_counters (working s')) = Some c"
    "ac_failure_count c = security_attempts e uid scope (working s)"
proof -
  let ?k = "security_counter e uid scope" and ?db = "working s"
  consider (live) d where "find ?k (auth_counters ?db) = Some d" "now e < ac_window_expires_at d"
    | (stale) d where "find ?k (auth_counters ?db) = Some d" "\<not> now e < ac_window_expires_at d"
    | (none) "find ?k (auth_counters ?db) = None" by fastforce
  then show thesis
  proof cases
    case live
    then show thesis by (intro that [of d s]) (simp_all add: live_security_counter_def security_attempts_def)
  next
    case stale
    let ?db' = "delete_counters ?k ?db"
    show thesis
      by (rule that [of "new_security_counter e uid scope ?db'" "s\<lparr>working := add_counter (new_security_counter e uid scope ?db') ?db'\<rparr>"])
         (use stale in \<open>simp_all add: live_security_counter_def security_attempts_def find_added_counter find_deleted_counter,
          simp_all add: add_counter_def delete_counters_def\<close>)
  next
    case none
    show thesis
      by (rule that [of "new_security_counter e uid scope ?db" "s\<lparr>working := add_counter (new_security_counter e uid scope ?db) ?db\<rparr>"])
         (use none in \<open>simp_all add: live_security_counter_def security_attempts_def find_added_counter,
          simp_all add: add_counter_def\<close>)
  qed
qed

definition locked_out :: "env \<Rightarrow> int \<Rightarrow> string \<Rightarrow> database \<Rightarrow> bool" where
  "locked_out e uid reason db \<longleftrightarrow>
     (\<forall>u. user_by_id db uid = Some u \<longrightarrow> u_is_frozen u \<and> u_security_locked_at u = Some (now e) \<and> u_security_lock_reason u = Some reason)
     \<and> filter (active_session e uid (session_component e)) (server_sessions db) = []"

lemma lock_user_account_effect:
  assumes "lock_user_account e u reason scope n s = (Inr x, t)"
  shows "locked_out e (u_id u) reason (committed t)" and "auth_counters (committed t) = auth_counters (working s)"
proof -
  let ?f = "\<lambda>u. u\<lparr>u_is_frozen := True, u_security_locked_at := Some (now e), u_security_lock_reason := Some reason\<rparr>"
  let ?s1 = "s\<lparr>working := update_user (u_id u) ?f (working s)\<rparr>"
  obtain k s2 where rev: "revoke_all_sessions e (u_id u) ''revoked'' None ?s1 = (Inr k, s2)"
    by (auto simp: revoke_all_eq Let_def)
  have none: "filter (active_session e (u_id u) (session_component e)) (server_sessions (working s2)) = []"
    using revoke_all_leaves_none [OF rev] by (simp add: filter_empty_conv component_of_def)
  have w2: "users (working s2) = users (working ?s1)" "auth_counters (working s2) = auth_counters (working s)"
    using rev by (auto simp: revoke_all_eq Let_def end_session_rows_def expire_stale_sessions_def update_session_where_def update_users_def)
  let ?md = "[(''reason'', JStr reason), (''scope'', JStr scope), (''attempts'', JInt n), (''revoked_sessions'', JInt k)]"
  have r: "bindA (audit_event_required e ''account_lock'' ''locked'' (Some (u_id u)) ?md None) (\<lambda>_. commitA) s2 = (Inr x, t)"
    using assms rev by (simp add: lock_user_account_def)
  obtain ev where t: "committed t = add_audit ev (working s2)"
  proof (cases rule: audit_event_required_cases [of e "''account_lock''" "''locked''" "Some (u_id u)" ?md None s2])
    case (1 ev)
    show thesis
      by (cases rule: commitA_cases [of "s2\<lparr>working := add_audit ev (working s2)\<rparr>"]) (use r 1 that in auto)
  qed (use r in auto)
  have by_id: "user_by_id (committed t) (u_id u) = map_option (\<lambda>v. if u_id v = u_id u then ?f v else v) (user_by_id (working s) (u_id u))"
    using user_by_id_update_users [of ?f "\<lambda>v. u_id v = u_id u" "working s" "u_id u"] w2(1) t by (simp add: user_by_id_def)
  show "locked_out e (u_id u) reason (committed t)"
    unfolding locked_out_def
  proof (intro conjI allI impI)
    fix v assume "user_by_id (committed t) (u_id u) = Some v"
    with by_id obtain v0 where "user_by_id (working s) (u_id u) = Some v0" "v = (if u_id v0 = u_id u then ?f v0 else v0)"
      by (cases "user_by_id (working s) (u_id u)") auto
    with user_by_id_member [of "working s" "u_id u" v0] have "v = ?f v0" by simp
    then show "u_is_frozen v" "u_security_locked_at v = Some (now e)" "u_security_lock_reason v = Some reason" by simp_all
  qed (simp add: t none)
  show "auth_counters (committed t) = auth_counters (working s)" using w2(2) t by simp
qed

lemma record_failure_effect:
  assumes "record_user_security_failure e u scope reason s = (Inr x, t)"
  obtains c where "find (security_counter e (u_id u) scope) (auth_counters (committed t)) = Some c"
    "ac_failure_count c = security_attempts e (u_id u) scope (working s) + 1"
    "ac_window_expires_at c = now e + seconds auth_lock_window_seconds"
    "user_security_lock_threshold e u scope \<le> ac_failure_count c \<Longrightarrow> locked_out e (u_id u) reason (committed t)"
proof -
  let ?k = "security_counter e (u_id u) scope"
  obtain c s1 where l: "live_security_counter e (u_id u) scope s = (Inr c, s1)" "find ?k (auth_counters (working s1)) = Some c"
      "ac_failure_count c = security_attempts e (u_id u) scope (working s)"
    by (rule live_security_counter_effect)
  let ?f = "\<lambda>d. d\<lparr>ac_failure_count := ac_failure_count c + 1, ac_last_failed_at := Some (now e), ac_updated_at := now e,
      ac_window_expires_at := now e + seconds auth_lock_window_seconds\<rparr>"
  let ?s2 = "s1\<lparr>working := update_counters ?k ?f (working s1)\<rparr>"
  let ?lock = "condA (user_security_lock_threshold e u scope \<le> ac_failure_count c + 1) (lock_user_account e u reason scope (ac_failure_count c + 1))"
  have f: "find ?k (auth_counters (working ?s2)) = Some (?f c)"
    using find_updated_counter [of ?k ?f "working s1" c] l(2) by (simp add: security_counter_def)
  have "bindA commitA (\<lambda>_. ?lock) ?s2 = (Inr x, t)"
    using assms l(1) by (simp add: record_user_security_failure_def Let_def)
  then have r: "?lock (?s2\<lparr>committed := working ?s2\<rparr>) = (Inr x, t)"
    by (cases rule: commitA_cases [of ?s2]) auto
  show thesis
  proof (cases "user_security_lock_threshold e u scope \<le> ac_failure_count c + 1")
    case True
    with r lock_user_account_effect [of e u reason scope "ac_failure_count c + 1" "?s2\<lparr>committed := working ?s2\<rparr>" x t] f l(3)
    show thesis by (intro that [of "?f c"]) simp_all
  next
    case False
    with r f l(3) show thesis by (intro that [of "?f c"]) auto
  qed
qed

definition fail_at :: "env \<Rightarrow> user \<Rightarrow> string \<Rightarrow> string \<Rightarrow> time \<Rightarrow> unit request" where
  "fail_at e u scope reason t = served (record_user_security_failure (e\<lparr>now := t\<rparr>) u scope reason)"

text \<open>Instants each less than the lock window after the one before.\<close>

fun without_pause :: "time list \<Rightarrow> bool" where
  "without_pause (t # t' # ts) \<longleftrightarrow> t' < t + seconds auth_lock_window_seconds \<and> without_pause (t' # ts)"
| "without_pause _ \<longleftrightarrow> True"

lemma security_counter_now [simp]:
  "security_counter (e\<lparr>now := t\<rparr>) = security_counter e"
  "user_security_lock_threshold (e\<lparr>now := t\<rparr>) = user_security_lock_threshold e"
  by (auto simp: fun_eq_iff security_counter_def security_principal_hash_def active_hmac_hex_def active_key_def
      user_security_lock_threshold_def)

text \<open>
  C17. The lockout works: failures of a user in one scope that all take effect (no call raises), each less than 15
  minutes after the one before, lock the account as soon as their number, with those already counted, reaches the threshold
  of the scope: the row is frozen, carries the instant and reason of the lock, and no session of the user is
  active any more.
\<close>

theorem repeated_failures_lock:
  assumes "ts \<noteq> []" and "without_pause ts" and "working s = committed s"
    and "\<forall>x \<in> set (fst (run_all (fail_at e u scope reason) ts s)). \<not> isl x"
    and "user_security_lock_threshold e u scope \<le> security_attempts (e\<lparr>now := hd ts\<rparr>) (u_id u) scope (committed s) + int (length ts)"
  shows "locked_out (e\<lparr>now := last ts\<rparr>) (u_id u) reason (committed (snd (run_all (fail_at e u scope reason) ts s)))"
  using assms
proof (induction ts arbitrary: s)
  case (Cons t ts)
  obtain x s1 where r: "fail_at e u scope reason t s = (x, s1)" by fastforce
  with Cons.prems(4) have "\<not> isl x" by (simp add: case_prod_beta)
  then obtain y where x: "x = Inr y" by (cases x) auto
  obtain s0 where f: "record_user_security_failure (e\<lparr>now := t\<rparr>) u scope reason s = (Inr y, s0)" and s1: "s1 = s0\<lparr>working := committed s0\<rparr>"
    using r x by (auto simp: fail_at_def served_eq)
  obtain c where c: "find (security_counter e (u_id u) scope) (auth_counters (committed s1)) = Some c"
      "ac_failure_count c = security_attempts (e\<lparr>now := t\<rparr>) (u_id u) scope (committed s) + 1"
      "ac_window_expires_at c = t + seconds auth_lock_window_seconds"
      "user_security_lock_threshold e u scope \<le> ac_failure_count c \<Longrightarrow> locked_out (e\<lparr>now := t\<rparr>) (u_id u) reason (committed s1)"
    using record_failure_effect [OF f] Cons.prems(3) s1 by (auto simp: security_counter_now)
  show ?case
  proof (cases ts)
    case Nil
    with Cons.prems(5) c r show ?thesis by simp
  next
    case (Cons t' ts')
    with Cons.prems(2) c(1,3) have "security_attempts (e\<lparr>now := t'\<rparr>) (u_id u) scope (committed s1) = ac_failure_count c"
      by (simp add: security_attempts_def)
    with Cons Cons.prems c(2) r s1 have "locked_out (e\<lparr>now := last ts\<rparr>) (u_id u) reason (committed (snd (run_all (fail_at e u scope reason) ts s1)))"
      by (intro Cons.IH) (auto simp: case_prod_beta)
    with Cons r show ?thesis by (simp add: case_prod_beta)
  qed
qed simp

lemma lock_user_account_returns:
  assumes "audit_ready e"
    and "storable (working (snd (revoke_all_sessions e (u_id u) ''revoked'' None (s\<lparr>working := update_user (u_id u)
      (\<lambda>u. u\<lparr>u_is_frozen := True, u_security_locked_at := Some (now e), u_security_lock_reason := Some reason\<rparr>) (working s)\<rparr>))))"
  shows "\<exists>t. lock_user_account e u reason scope n s = (Inr (), t)"
proof -
  let ?s1 = "s\<lparr>working := update_user (u_id u)
      (\<lambda>u. u\<lparr>u_is_frozen := True, u_security_locked_at := Some (now e), u_security_lock_reason := Some reason\<rparr>) (working s)\<rparr>"
  obtain k s2 where rev: "revoke_all_sessions e (u_id u) ''revoked'' None ?s1 = (Inr k, s2)"
    by (auto simp: revoke_all_eq Let_def)
  from audit_event_required_ready [OF assms(1)]
  obtain ev where "audit_event_required e ''account_lock'' ''locked'' (Some (u_id u)) [(''reason'', JStr reason), (''scope'', JStr scope),
      (''attempts'', JInt n), (''revoked_sessions'', JInt k)] None s2 = (Inr (), s2\<lparr>working := add_audit ev (working s2)\<rparr>)" by blast
  then show ?thesis using assms(2) rev by (simp add: lock_user_account_def commitA_ok)
qed

text \<open>The example: two failures are counted, the third locks the account.\<close>

definition two_failures :: auth_counter where
  "two_failures = \<lparr>ac_id = 1, ac_scope = security_scope ''password'', ac_principal_hash = security_principal_hash sample_env64 1 ''password'',
     ac_user_id = Some 1, ac_ip_hash = None, ac_failure_count = 2, ac_window_started_at = 0, ac_window_expires_at = 900000000,
     ac_locked_until = None, ac_last_failed_at = None, ac_created_at = 0, ac_updated_at = 0\<rparr>"

definition third_failure_world :: world where
  "third_failure_world = fresh_world (empty_db\<lparr>users := [alice], auth_counters := [two_failures]\<rparr>)"

lemma third_failure_returns:
  "\<exists>t. record_user_security_failure (sample_env64\<lparr>now := 10\<rparr>) alice ''password'' ''password_failed_attempts'' third_failure_world = (Inr (), t)"
proof -
  let ?e = "sample_env64\<lparr>now := 10\<rparr>"
  let ?db = "empty_db\<lparr>users := [alice], auth_counters := [two_failures\<lparr>ac_failure_count := 3, ac_last_failed_at := Some 10, ac_updated_at := 10,
      ac_window_expires_at := 10 + seconds auth_lock_window_seconds\<rparr>]\<rparr>"
  have id: "u_id alice = 1" by (simp add: alice_def sample_user_def)
  have k: "security_counter ?e 1 ''password'' two_failures" by (simp add: two_failures_def security_counter_def security_principal_hash_def
      active_hmac_hex_def active_key_def)
  have st: "storable ?db" by code_simp
  have th: "user_security_lock_threshold ?e alice ''password'' = 3"
    by (simp add: user_security_lock_threshold_def alice_def sample_user_def customer_password_lock_threshold_def)
  have ready: "audit_ready ?e" by (simp add: audit_ready_def sample_env64_def sample_env_def sample_cfg_def)
  have st': "storable (working (snd (revoke_all_sessions ?e 1 ''revoked'' None ((fresh_world ?db)\<lparr>working := update_user 1
      (\<lambda>u. u\<lparr>u_is_frozen := True, u_security_locked_at := Some (now ?e), u_security_lock_reason := Some ''password_failed_attempts''\<rparr>)
      (working (fresh_world ?db))\<rparr>))))"
    by code_simp
  have "\<exists>t. lock_user_account ?e alice ''password_failed_attempts'' ''password'' 3 (fresh_world ?db) = (Inr (), t)"
    by (rule lock_user_account_returns [OF ready]) (use st' in \<open>simp only: id\<close>)
  then show ?thesis
    using k st th
    by (simp add: record_user_security_failure_def live_security_counter_def third_failure_world_def fresh_world_def id
        two_failures_def update_counters_def Let_def commitA_ok)
qed

theorem repeated_failures_lock_witness:
  "locked_out (sample_env64\<lparr>now := 10\<rparr>) 1 ''password_failed_attempts''
     (committed (snd (run_all (fail_at sample_env64 alice ''password'' ''password_failed_attempts'') [10] third_failure_world)))"
proof -
  obtain t where "record_user_security_failure (sample_env64\<lparr>now := 10\<rparr>) alice ''password'' ''password_failed_attempts'' third_failure_world
      = (Inr (), t)"
    using third_failure_returns by blast
  then have "\<forall>x \<in> set (fst (run_all (fail_at sample_env64 alice ''password'' ''password_failed_attempts'') [10] third_failure_world)). \<not> isl x"
    by (simp add: fail_at_def served_def)
  moreover have "user_security_lock_threshold sample_env64 alice ''password'' = 3" by code_simp
  moreover have "security_attempts (sample_env64\<lparr>now := 10\<rparr>) 1 ''password'' (committed third_failure_world) = 2" by code_simp
  moreover have "u_id alice = 1" by code_simp
  moreover have "working third_failure_world = committed third_failure_world" by (simp add: third_failure_world_def fresh_world_def)
  ultimately show ?thesis
    using repeated_failures_lock [of "[10]" third_failure_world sample_env64 alice "''password''" "''password_failed_attempts''"] by simp
qed

end
