(* ===== verification/Passwords.thy ===== *)
theory Passwords
  imports Auth_Frames
begin

section \<open>Passwords: hashing, policy and history\<close>

text \<open>
  \<^verbatim>\<open>app/security/passwords.py\<close> and \<^verbatim>\<open>app/security/password_history.py\<close>. HMAC, PBKDF2 and URL-safe base64 are parameters.
  The dictionary of common passwords is a list of the configuration; the answer of the breach service is
  \<open>hibp_check\<close>, with \<open>None\<close> where the call raises \<^verbatim>\<open>LivePasswordCheckUnavailable\<close>. Passwords are text of the 8-bit range, on
  which NFC normalization is the identity.
\<close>

definition pbkdf2_prefix :: string where "pbkdf2_prefix = ''osp-pbkdf2-sha256''"
definition pbkdf2_version :: string where "pbkdf2_version = ''v1''"
definition minimum_iterations :: int where "minimum_iterations = 600000"

text \<open>\<open>str.split\<close> on one character, and \<open>str.partition\<close>.\<close>

fun split_on :: "char \<Rightarrow> string \<Rightarrow> string list" where
  "split_on c [] = [[]]"
| "split_on c (x # xs) = (if x = c then [] # split_on c xs else (x # hd (split_on c xs)) # tl (split_on c xs))"

definition partition_on :: "char \<Rightarrow> string \<Rightarrow> string \<times> bool \<times> string" where
  "partition_on c s = (takeWhile (\<lambda>x. x \<noteq> c) s, c \<in> set s, tl (dropWhile (\<lambda>x. x \<noteq> c) s))"

definition is_password_raw_length_safe :: "env \<Rightarrow> string \<Rightarrow> bool" where
  "is_password_raw_length_safe e password \<longleftrightarrow> int (length password) \<le> cfg_password_max_chars (cfg e)"

definition pbkdf2_digest :: "env \<Rightarrow> string \<Rightarrow> string \<Rightarrow> int \<Rightarrow> string option" where
  "pbkdf2_digest e password salt iterations =
     (if \<not> is_password_raw_length_safe e password then None
      else Some (pbkdf2_hmac e (hmac_bytes e (cfg_password_pepper (cfg e)) password) salt iterations))"

text \<open>
  \<open>hash_password\<close>, with the salt as an argument: each call draws a fresh one. \<open>None\<close> where the normalization
  raises \<^verbatim>\<open>ValueError\<close>. The iteration count of the configuration is at least 600000 (checked at startup).
\<close>

definition hash_password :: "env \<Rightarrow> string \<Rightarrow> string \<Rightarrow> string option" where
  "hash_password e salt password =
     (let iterations = cfg_pbkdf2_iterations (cfg e) in
      case pbkdf2_digest e password salt iterations of None \<Rightarrow> None
      | Some digest \<Rightarrow> Some (pbkdf2_prefix @ ''$'' @ pbkdf2_version @ ''$i='' @ int_str iterations @ ''$s='' @ b64url_encode e salt
          @ ''$h='' @ b64url_encode e digest))"

definition parse_iterations :: "string \<Rightarrow> int option" where
  "parse_iterations value =
     (case partition_on (CHR ''='') value of (label, sep, text) \<Rightarrow>
        if label \<noteq> ''i'' \<or> \<not> sep then None
        else (case py_int_str text of None \<Rightarrow> None | Some n \<Rightarrow> if n < minimum_iterations then None else Some n))"

definition parse_b64_part :: "env \<Rightarrow> string \<Rightarrow> string \<Rightarrow> string option" where
  "parse_b64_part e value lbl =
     (case partition_on (CHR ''='') value of (label, sep, text) \<Rightarrow>
        if label \<noteq> lbl \<or> \<not> sep then None else b64url_decode e text)"

definition verify_password :: "env \<Rightarrow> string \<Rightarrow> string \<Rightarrow> bool" where
  "verify_password e password password_hash =
     (is_password_raw_length_safe e password \<and>
      (case split_on (CHR ''$'') password_hash of
         [pfx, version, iter, salt_part, hash_part] \<Rightarrow>
           pfx = pbkdf2_prefix \<and> version = pbkdf2_version \<and>
           (case (parse_iterations iter, parse_b64_part e salt_part ''s'', parse_b64_part e hash_part ''h'') of
              (Some iterations, Some salt, Some expected) \<Rightarrow> pbkdf2_digest e password salt iterations = Some expected
            | _ \<Rightarrow> False)
       | _ \<Rightarrow> False))"

definition password_hash_needs_rehash :: "env \<Rightarrow> string \<Rightarrow> bool" where
  "password_hash_needs_rehash e password_hash =
     (case split_on (CHR ''$'') password_hash of
        [pfx, version, iter, _, _] \<Rightarrow>
          if pfx \<noteq> pbkdf2_prefix \<or> version \<noteq> pbkdf2_version then True
          else (case parse_iterations iter of None \<Rightarrow> True | Some n \<Rightarrow> n < cfg_pbkdf2_iterations (cfg e))
      | _ \<Rightarrow> True)"

subsection \<open>Policy\<close>

definition hibp_circuit_service :: string where "hibp_circuit_service = ''hibp_password_check''"

definition is_hibp_breaker :: "circuit_breaker \<Rightarrow> bool" where
  "is_hibp_breaker b \<longleftrightarrow> cb_service_name b = hibp_circuit_service"

definition hibp_breaker :: "database \<Rightarrow> circuit_breaker option" where
  "hibp_breaker db = find is_hibp_breaker (circuit_breakers db)"

definition update_breaker :: "(circuit_breaker \<Rightarrow> circuit_breaker) \<Rightarrow> database \<Rightarrow> database" where
  "update_breaker f db = db\<lparr>circuit_breakers := upd_where is_hibp_breaker f (circuit_breakers db)\<rparr>"

definition hibp_circuit_is_open :: "env \<Rightarrow> bool request" where
  "hibp_circuit_is_open e =
     try_catch
       (bindA (queryA hibp_breaker) (\<lambda>found.
        case found of None \<Rightarrow> ret False
        | Some b \<Rightarrow>
            (case cb_opened_until b of
               None \<Rightarrow> ret False
             | Some until \<Rightarrow>
                 if cb_state b \<noteq> ''open'' then ret False
                 else if now e < until then ret True
                 else bindA (updateA (update_breaker (\<lambda>b. b\<lparr>cb_state := ''closed'', cb_failure_count := 0, cb_opened_until := None,
                     cb_updated_at := now e\<rparr>))) (\<lambda>_.
                   bindA commitA (\<lambda>_. ret False)))))
       (\<lambda>_. bindA rollbackA (\<lambda>_. ret True))"

definition new_breaker :: "env \<Rightarrow> database \<Rightarrow> circuit_breaker" where
  "new_breaker e db = \<lparr>cb_id = next_id (map cb_id (circuit_breakers db)), cb_service_name = hibp_circuit_service, cb_state = ''closed'',
     cb_failure_count = 0, cb_opened_until = None, cb_last_failure_at = None, cb_last_success_at = None, cb_created_at = now e,
     cb_updated_at = now e\<rparr>"

definition failed_breaker :: "env \<Rightarrow> circuit_breaker \<Rightarrow> circuit_breaker" where
  "failed_breaker e b =
     (let b = b\<lparr>cb_failure_count := cb_failure_count b + 1, cb_last_failure_at := Some (now e), cb_updated_at := now e\<rparr> in
      if cfg_hibp_failure_threshold (cfg e) \<le> cb_failure_count b
      then b\<lparr>cb_state := ''open'', cb_opened_until := Some (now e + seconds (cfg_hibp_open_seconds (cfg e)))\<rparr> else b)"

definition record_hibp_failure :: "env \<Rightarrow> unit request" where
  "record_hibp_failure e =
     try_catch
       (bindA (queryA hibp_breaker) (\<lambda>found.
        bindA (condA (found = None) (updateA (\<lambda>db. db\<lparr>circuit_breakers := circuit_breakers db @ [new_breaker e db]\<rparr>))) (\<lambda>_.
        bindA (updateA (update_breaker (failed_breaker e))) (\<lambda>_.
        commitA))))
       (\<lambda>_. rollbackA)"

definition clear_hibp_failures :: "env \<Rightarrow> unit request" where
  "clear_hibp_failures e =
     try_catch
       (bindA (queryA hibp_breaker) (\<lambda>found.
        case found of None \<Rightarrow> ret ()
        | Some _ \<Rightarrow>
            bindA (updateA (update_breaker (\<lambda>b. b\<lparr>cb_state := ''closed'', cb_failure_count := 0, cb_opened_until := None,
              cb_last_success_at := Some (now e), cb_updated_at := now e\<rparr>))) (\<lambda>_.
            commitA)))
       (\<lambda>_. rollbackA)"

definition common_password_error :: string where
  "common_password_error = ''Password is too common. Please try again''"

definition hibp_fallback_warning :: string where
  "hibp_fallback_warning = ''Live breached-password screening was unavailable; the local password blocklist was applied.''"

definition validate_password_policy :: "env \<Rightarrow> string \<Rightarrow> string list request" where
  "validate_password_policy e password =
     (if \<not> is_password_raw_length_safe e password
      then raise (PasswordPolicyError (''Password must be at most '' @ int_str (cfg_password_max_chars (cfg e)) @ '' characters''))
      else if int (length password) < cfg_password_min_length (cfg e)
      then raise (PasswordPolicyError (''Password must be at least '' @ int_str (cfg_password_min_length (cfg e)) @ '' characters''))
      else if py_casefold password \<in> set (cfg_common_passwords (cfg e)) then raise (PasswordPolicyError common_password_error)
      else
        bindA (hibp_circuit_is_open e) (\<lambda>is_open.
        if is_open then ret [hibp_fallback_warning]
        else (case hibp_check e password of
            None \<Rightarrow> bindA (record_hibp_failure e) (\<lambda>_. ret [hibp_fallback_warning])
          | Some pwned \<Rightarrow>
              bindA (clear_hibp_failures e) (\<lambda>_.
              if pwned then raise (PasswordPolicyError common_password_error) else ret []))))"

subsection \<open>History\<close>

definition default_retention_count :: int where "default_retention_count = 3"

definition retention_count :: "env \<Rightarrow> nat" where
  "retention_count e = nat (max default_retention_count (cfg_password_history_retention (cfg e)))"

text \<open>The rows of a user, newest first.\<close>

definition history_entries :: "int \<Rightarrow> database \<Rightarrow> password_history_row list" where
  "history_entries uid db = sort_key (\<lambda>r. (- ph_created_at r, - ph_id r)) (filter (\<lambda>r. ph_user_id r = uid) (password_history db))"

definition assert_password_not_reused :: "env \<Rightarrow> user \<Rightarrow> string \<Rightarrow> unit request" where
  "assert_password_not_reused e u candidate =
     (if verify_password e candidate (u_password_hash u) then raise (PasswordReuseError ''current_password'')
      else bindA (queryA (\<lambda>db. take (retention_count e) (history_entries (u_id u) db))) (\<lambda>entries.
        if list_ex (\<lambda>r. verify_password e candidate (ph_password_hash r)) entries then raise (PasswordReuseError ''password_history'')
        else ret ()))"

definition add_history :: "env \<Rightarrow> int \<Rightarrow> string \<Rightarrow> database \<Rightarrow> database" where
  "add_history e uid old_hash db =
     (if old_hash = [] then db
      else db\<lparr>password_history := password_history db @ [\<lparr>ph_id = next_id (map ph_id (password_history db)), ph_user_id = uid,
        ph_password_hash = old_hash, ph_created_at = now e\<rparr>]\<rparr>)"

definition prune_history :: "env \<Rightarrow> int \<Rightarrow> database \<Rightarrow> database" where
  "prune_history e uid db =
     (let stale = drop (retention_count e) (history_entries uid db) in
      db\<lparr>password_history := filter (\<lambda>r. ph_id r \<notin> set (map ph_id stale)) (password_history db)\<rparr>)"

text \<open>\<open>replace_user_password\<close>: the random text 6 of the request is the salt.\<close>

definition replace_user_password :: "env \<Rightarrow> user \<Rightarrow> string \<Rightarrow> bool \<Rightarrow> unit request" where
  "replace_user_password e u new_password clear_forced =
     bindA (updateA (add_history e (u_id u) (u_password_hash u))) (\<lambda>_.
     case hash_password e (random_text e 6) new_password of
       None \<Rightarrow> raise (ValueError ''Password exceeds maximum length'')
     | Some h \<Rightarrow>
         bindA (updateA (update_user (u_id u) (\<lambda>u. u\<lparr>u_password_hash := h, u_password_changed_at := now e,
           u_force_password_change := (if clear_forced then False else u_force_password_change u),
           u_force_password_change_reason := (if clear_forced then None else u_force_password_change_reason u),
           u_force_password_change_at := (if clear_forced then None else u_force_password_change_at u)\<rparr>))) (\<lambda>_.
         updateA (prune_history e (u_id u))))"

definition require_forced_password_change :: "env \<Rightarrow> int \<Rightarrow> string \<Rightarrow> unit request" where
  "require_forced_password_change e uid reason =
     (let r = take 80 (py_casefold (py_strip (if reason = [] then ''security_event'' else reason))) in
      updateA (update_user uid (\<lambda>u. u\<lparr>u_force_password_change := True,
        u_force_password_change_reason := Some (if r = [] then ''security_event'' else r), u_force_password_change_at := Some (now e)\<rparr>)))"

definition validate_password_history_config :: "config \<Rightarrow> py_error + unit" where
  "validate_password_history_config c =
     (if \<not> cfg_password_history_enabled c then Inl (RuntimeError ''PASSWORD_HISTORY_ENABLED must be true'')
      else if cfg_password_history_retention c < default_retention_count
      then Inl (RuntimeError ''PASSWORD_HISTORY_RETENTION_COUNT must be at least 3'') else Inr ())"

subsection \<open>Frames\<close>

text \<open>Invariants that tolerate a change of the breaker table and of the password history.\<close>

definition password_free :: "(database \<Rightarrow> bool) \<Rightarrow> bool" where
  "password_free P \<longleftrightarrow> (\<forall>db cbs. P db \<longrightarrow> P (db\<lparr>circuit_breakers := cbs\<rparr>)) \<and> (\<forall>db ph. P db \<longrightarrow> P (db\<lparr>password_history := ph\<rparr>))"

lemma preserves_breaker_updates [preserves_rules]:
  assumes "password_free P"
  shows "preserves (both P) (updateA (update_breaker f))"
    "preserves (both P) (updateA (\<lambda>db. db\<lparr>circuit_breakers := g db\<rparr>))"
    "preserves (both P) (updateA (add_history e uid h))" "preserves (both P) (updateA (prune_history e uid))"
  using assms by (auto intro!: preserves_both_updateA simp: password_free_def update_breaker_def add_history_def prune_history_def Let_def)

lemma preserves_validate_password_policy [preserves_rules]:
  "password_free P \<Longrightarrow> preserves (both P) (validate_password_policy e p)"
  unfolding validate_password_policy_def hibp_circuit_is_open_def record_hibp_failure_def clear_hibp_failures_def
  by (intro preserves_rules)

lemma preserves_assert_password_not_reused [preserves_rules]: "preserves (both P) (assert_password_not_reused e u p)"
  unfolding assert_password_not_reused_def by (intro preserves_rules)

lemma preserves_replace_user_password [preserves_rules]:
  "auth_free P \<Longrightarrow> password_free P \<Longrightarrow> preserves (both P) (replace_user_password e u p c)"
  unfolding replace_user_password_def
  by (intro preserves_rules preserves_update_users auth_freeD; (assumption | simp add: account_part_def))

subsection \<open>Hashing and verification\<close>

lemma split_on_fresh [simp]: "c \<notin> set s \<Longrightarrow> split_on c s = [s]"
  by (induction s) auto

lemma split_on_append: "c \<notin> set a \<Longrightarrow> split_on c (a @ c # r) = a # split_on c r"
  by (induction a) auto

lemma single_underscores_digits: "\<forall>c \<in> set s. py_isdigit c \<Longrightarrow> single_underscores s"
  by (induction s rule: single_underscores.induct) auto

lemma py_int_str_nat: "py_int_str (nat_str n) = Some (int n)"
proof -
  have d: "\<forall>c \<in> set (nat_str n). py_isdigit c" using nat_str_digits by blast
  have "\<not> py_isspace c" if "py_isdigit c" for c
    using that by (auto simp: py_isdigit_def py_isspace_def Let_def)
  with d have st: "py_strip (nat_str n) = nat_str n" by (intro py_strip_no_space) blast
  have hd: "py_isdigit (hd (nat_str n))" by (rule hd_nat_str_digit)
  then have "hd (nat_str n) \<noteq> CHR ''-''" "hd (nat_str n) \<noteq> CHR ''+''" by (auto simp: py_isdigit_def)
  moreover have "filter py_isdigit (nat_str n) = nat_str n" using d by simp
  ultimately show ?thesis using st hd d single_underscores_digits [OF d] by (simp add: py_int_str_def Let_def)
qed

lemma py_int_str_int_str: "0 \<le> n \<Longrightarrow> py_int_str (int_str n) = Some n"
  using py_int_str_nat [of "nat n"] by (simp add: int_str_def)

lemma partition_on_fresh: "c \<notin> set a \<Longrightarrow> partition_on c (a @ c # r) = (a, True, r)"
  by (induction a) (auto simp: partition_on_def)

text \<open>The laws of the library used by the stored form of a password: base64 decodes what it encoded and does not use the dollar sign.\<close>

definition password_library :: "env \<Rightarrow> bool" where
  "password_library e \<longleftrightarrow> (\<forall>x. b64url_decode e (b64url_encode e x) = Some x) \<and> (\<forall>x. CHR ''$'' \<notin> set (b64url_encode e x))"

lemma stored_hash_parts:
  assumes "password_library e" and "hash_password e salt p = Some h"
  obtains d where "pbkdf2_digest e p salt (cfg_pbkdf2_iterations (cfg e)) = Some d"
    "split_on (CHR ''$'') h = [pbkdf2_prefix, pbkdf2_version, ''i='' @ int_str (cfg_pbkdf2_iterations (cfg e)),
       ''s='' @ b64url_encode e salt, ''h='' @ b64url_encode e d]"
proof -
  let ?i = "cfg_pbkdf2_iterations (cfg e)"
  obtain d where d: "pbkdf2_digest e p salt ?i = Some d"
    and h: "h = pbkdf2_prefix @ CHR ''$'' # pbkdf2_version @ CHR ''$'' # (''i='' @ int_str ?i) @ CHR ''$'' # (''s='' @ b64url_encode e salt)
        @ CHR ''$'' # (''h='' @ b64url_encode e d)"
    using assms(2) by (auto simp: hash_password_def Let_def split: option.splits)
  have "\<not> py_isdigit (CHR ''$'')" by (simp add: py_isdigit_def)
  then have "CHR ''$'' \<notin> set (int_str ?i)" by (auto simp: int_str_def dest: nat_str_digits)
  with assms(1) have fresh: "CHR ''$'' \<notin> set pbkdf2_prefix" "CHR ''$'' \<notin> set pbkdf2_version" "CHR ''$'' \<notin> set (''i='' @ int_str ?i)"
    "CHR ''$'' \<notin> set (''s='' @ b64url_encode e salt)" "CHR ''$'' \<notin> set (''h='' @ b64url_encode e d)"
    by (auto simp: pbkdf2_prefix_def pbkdf2_version_def password_library_def)
  show thesis
    by (rule that [OF d]) (simp only: h split_on_append fresh split_on_fresh not_False_eq_True)
qed

lemma parsed_parts:
  assumes "password_library e" and "minimum_iterations \<le> n"
  shows "parse_iterations (''i='' @ int_str n) = Some n" "parse_b64_part e (''s='' @ b64url_encode e x) ''s'' = Some x"
    "parse_b64_part e (''h='' @ b64url_encode e x) ''h'' = Some x"
proof -
  have "py_int_str (int_str n) = Some n" using assms(2) by (intro py_int_str_int_str) (simp add: minimum_iterations_def)
  with assms partition_on_fresh [of "CHR ''=''" "''i''" "int_str n"]
  show "parse_iterations (''i='' @ int_str n) = Some n" by (simp add: parse_iterations_def)
  show "parse_b64_part e (''s='' @ b64url_encode e x) ''s'' = Some x" "parse_b64_part e (''h='' @ b64url_encode e x) ''h'' = Some x"
    using assms(1) partition_on_fresh [of "CHR ''=''" "''s''" "b64url_encode e x"] partition_on_fresh [of "CHR ''=''" "''h''" "b64url_encode e x"]
    by (simp_all add: parse_b64_part_def password_library_def)
qed

lemma hash_password_verified:
  assumes "password_library e" and "minimum_iterations \<le> cfg_pbkdf2_iterations (cfg e)" and "hash_password e salt p = Some h"
  shows "verify_password e p h
    \<and> (verify_password e q h \<longleftrightarrow> pbkdf2_digest e q salt (cfg_pbkdf2_iterations (cfg e)) = pbkdf2_digest e p salt (cfg_pbkdf2_iterations (cfg e)))
    \<and> (password_hash_needs_rehash e' h \<longleftrightarrow> cfg_pbkdf2_iterations (cfg e) < cfg_pbkdf2_iterations (cfg e'))"
proof -
  obtain d where d: "pbkdf2_digest e p salt (cfg_pbkdf2_iterations (cfg e)) = Some d"
    and h: "split_on (CHR ''$'') h = [pbkdf2_prefix, pbkdf2_version, ''i='' @ int_str (cfg_pbkdf2_iterations (cfg e)),
       ''s='' @ b64url_encode e salt, ''h='' @ b64url_encode e d]"
    by (rule stored_hash_parts [OF assms(1,3)])
  note parts = parsed_parts [OF assms(1,2), simplified]
  have safe: "is_password_raw_length_safe e r" if "pbkdf2_digest e r salt i = Some d" for r i
    using that by (simp add: pbkdf2_digest_def split: if_splits)
  have v: "verify_password e r h \<longleftrightarrow> pbkdf2_digest e r salt (cfg_pbkdf2_iterations (cfg e)) = Some d" for r
    using safe by (auto simp: verify_password_def h parts)
  show ?thesis using d by (simp add: v password_hash_needs_rehash_def h parts)
qed

text \<open>
  C29. A stored password hash accepts exactly the passwords with the same PBKDF2 digest under its salt: the password
  it was made of, and another one only if it collides with it. The form written by \<^verbatim>\<open>hash_password\<close> is read back by
  \<^verbatim>\<open>verify_password\<close> without loss, and a rehash is asked for exactly when the configured iteration count has
  been raised since.
\<close>

theorem password_hash_roundtrip:
  assumes "password_library e" and "minimum_iterations \<le> cfg_pbkdf2_iterations (cfg e)" and "hash_password e salt p = Some h"
  shows "verify_password e p h
    \<and> (verify_password e q h \<longleftrightarrow> pbkdf2_digest e q salt (cfg_pbkdf2_iterations (cfg e)) = pbkdf2_digest e p salt (cfg_pbkdf2_iterations (cfg e)))
    \<and> (password_hash_needs_rehash e' h \<longleftrightarrow> cfg_pbkdf2_iterations (cfg e) < cfg_pbkdf2_iterations (cfg e'))"
  using assms by (rule hash_password_verified)

text \<open>An encoding of bytes for the example, in place of base64: two hexadecimal digits each.\<close>

fun hex_text :: "string \<Rightarrow> string" where
  "hex_text [] = []"
| "hex_text (c # s) = hex_digit (of_char c div 16) # hex_digit (of_char c mod 16) # hex_text s"

fun unhex_text :: "string \<Rightarrow> string option" where
  "unhex_text [] = Some []"
| "unhex_text [c] = None"
| "unhex_text (a # b # s) = map_option (Cons (char_of (16 * hex_val a + hex_val b))) (unhex_text s)"

lemma unhex_hex: "unhex_text (hex_text s) = Some s"
proof (induction s)
  case (Cons c s)
  have "of_char c div 16 < (16::nat)" using less_mult_imp_div_less [of "of_char c" 16 16] by simp
  with Cons show ?case by simp
qed simp

lemma hex_text_digits: "CHR ''$'' \<notin> set (hex_text s)"
proof (induction s)
  case (Cons c s)
  have d: "hex_digit d \<noteq> CHR ''$''" if "d < 16" for d
  proof -
    have "of_char (hex_digit d) \<noteq> (of_char (CHR ''$'') :: nat)" using that by (auto simp: hex_digit_def)
    then show ?thesis by metis
  qed
  have "of_char c div 16 < (16::nat)" using less_mult_imp_div_less [of "of_char c" 16 16] by simp
  with Cons d [of "of_char c div 16"] d [of "of_char c mod 16"] show ?case by auto
qed simp

definition password_env :: env where
  "password_env = sample_env\<lparr>b64url_encode := hex_text, b64url_decode := unhex_text\<rparr>"

lemma password_library_env: "password_library password_env"
  by (simp add: password_library_def password_env_def unhex_hex hex_text_digits)

theorem password_hash_roundtrip_witness:
  "\<exists>h. hash_password password_env ''salt'' ''open sesame'' = Some h \<and> verify_password password_env ''open sesame'' h
     \<and> \<not> password_hash_needs_rehash password_env h"
proof -
  obtain h where h: "hash_password password_env ''salt'' ''open sesame'' = Some h"
    by (simp add: hash_password_def pbkdf2_digest_def is_password_raw_length_safe_def password_env_def sample_env_def sample_cfg_def Let_def)
  have "minimum_iterations \<le> cfg_pbkdf2_iterations (cfg password_env)"
    by (simp add: minimum_iterations_def password_env_def sample_env_def sample_cfg_def)
  from password_hash_roundtrip [OF password_library_env this h, of "''open sesame''" password_env] h show ?thesis by auto
qed

subsection \<open>The history is a bounded queue\<close>

lemma sort_key_append_least:
  "(\<And>y. y \<in> set xs \<Longrightarrow> f x < f y) \<Longrightarrow> sort_key f (xs @ [x]) = x # sort_key f xs"
proof (induction xs)
  case (Cons a xs)
  have "\<not> f a \<le> f x" using Cons.prems [of a] by auto
  with Cons show ?case by simp
qed simp

lemma filter_drop_ids:
  assumes "distinct (map k xs)"
  shows "filter (\<lambda>r. k r \<notin> set (map k (drop n xs))) xs = take n xs"
proof -
  have d: "distinct (map k (take n xs) @ map k (drop n xs))"
    using assms by (metis append_take_drop_id map_append)
  then have "filter (\<lambda>r. k r \<notin> set (map k (drop n xs))) (take n xs) = take n xs"
    by (intro filter_id_conv [THEN iffD2]) auto
  moreover have "filter (\<lambda>r. k r \<notin> set (map k (drop n xs))) (drop n xs) = []"
    by (auto simp: filter_empty_conv)
  ultimately show ?thesis by (metis append_Nil2 append_take_drop_id filter_append)
qed

text \<open>The hashes of a user's earlier passwords, the newest first.\<close>

definition past_hashes :: "int \<Rightarrow> database \<Rightarrow> string list" where
  "past_hashes uid db = map ph_password_hash (history_entries uid db)"

definition history_wf :: "time \<Rightarrow> database \<Rightarrow> bool" where
  "history_wf t db \<longleftrightarrow> distinct (map ph_id (password_history db)) \<and> (\<forall>r \<in> set (password_history db). ph_created_at r \<le> t)"

lemma history_entries_add:
  assumes "history_wf (now e) db" and "h \<noteq> []"
  obtains r where "ph_password_hash r = h" "history_entries uid (add_history e uid h db) = r # history_entries uid db"
    "history_wf (now e) (add_history e uid h db)"
    "\<forall>v. v \<noteq> uid \<longrightarrow> history_entries v (add_history e uid h db) = history_entries v db"
proof -
  let ?r = "\<lparr>ph_id = next_id (map ph_id (password_history db)), ph_user_id = uid, ph_password_hash = h, ph_created_at = now e\<rparr>"
  have id: "ph_id r < next_id (map ph_id (password_history db))" if "r \<in> set (password_history db)" for r
    using fold_max_ge(1) [of "ph_id r" "map ph_id (password_history db)" 0] that by (simp add: next_id_def)
  have less: "(- now e, - next_id (map ph_id (password_history db))) < (- ph_created_at r, - ph_id r)"
    if "r \<in> set (filter (\<lambda>r. ph_user_id r = uid) (password_history db))" for r
    using assms(1) id [of r] that by (auto simp: history_wf_def less_prod_simp)
  have e: "password_history (add_history e uid h db) = password_history db @ [?r]"
    using assms(2) by (simp add: add_history_def)
  have "history_entries uid (add_history e uid h db) = ?r # history_entries uid db"
    using sort_key_append_least [of "filter (\<lambda>r. ph_user_id r = uid) (password_history db)" "\<lambda>r. (- ph_created_at r, - ph_id r)" ?r] less
    by (simp add: history_entries_def e)
  moreover have "history_wf (now e) (add_history e uid h db)"
    using assms(1) next_id_fresh [of "map ph_id (password_history db)"] by (auto simp: history_wf_def e)
  moreover have "history_entries v (add_history e uid h db) = history_entries v db" if "v \<noteq> uid" for v
    using that by (simp add: history_entries_def e)
  ultimately show thesis using that [of ?r] by simp
qed

lemma history_entries_distinct: "history_wf t db \<Longrightarrow> distinct (map ph_id (history_entries uid db))"
  by (simp add: history_wf_def history_entries_def distinct_map) (auto simp: inj_on_def)

lemma history_entries_prune:
  assumes "history_wf t db"
  shows "history_entries uid (prune_history e uid db) = take (retention_count e) (history_entries uid db)"
    and "v \<noteq> uid \<Longrightarrow> history_entries v (prune_history e uid db) = history_entries v db"
    and "history_wf t (prune_history e uid db)"
proof -
  let ?p = "\<lambda>r. ph_id r \<notin> set (map ph_id (drop (retention_count e) (history_entries uid db)))"
  have e: "history_entries w (prune_history e uid db) = filter ?p (history_entries w db)" for w
    by (simp add: history_entries_def prune_history_def Let_def filter_sort conj_commute)
  show "history_entries uid (prune_history e uid db) = take (retention_count e) (history_entries uid db)"
    unfolding e by (rule filter_drop_ids [OF history_entries_distinct [OF assms]])
  show "history_entries v (prune_history e uid db) = history_entries v db" if v: "v \<noteq> uid"
    unfolding e
  proof (rule filter_id_conv [THEN iffD2], intro ballI notI)
    fix r assume r: "r \<in> set (history_entries v db)" and "ph_id r \<in> set (map ph_id (drop (retention_count e) (history_entries uid db)))"
    then obtain q where q: "q \<in> set (history_entries uid db)" "ph_id q = ph_id r" by (auto dest: in_set_dropD)
    with r assms have "q = r" by (auto simp: history_wf_def history_entries_def distinct_map inj_on_def)
    with q r v show False by (auto simp: history_entries_def)
  qed
  show "history_wf t (prune_history e uid db)"
    using assms by (auto simp: history_wf_def prune_history_def Let_def distinct_map intro: inj_on_subset)
qed

text \<open>
  C19. The password history of a user is a bounded queue: changing the password puts the old hash in front and drops
  what exceeds the configured number (at least three), other users keep theirs, and \<^verbatim>\<open>assert_password_not_reused\<close>
  refuses exactly the current password and those in the queue.
\<close>

theorem password_history_queue:
  assumes wf: "history_wf (now e) (working s)" and old: "u_password_hash u \<noteq> []"
    and r: "replace_user_password e u new_password clear s = (Inr x, t)"
  shows "past_hashes (u_id u) (working t) = take (retention_count e) (u_password_hash u # past_hashes (u_id u) (working s))
    \<and> (\<forall>v. v \<noteq> u_id u \<longrightarrow> past_hashes v (working t) = past_hashes v (working s))
    \<and> history_wf (now e) (working t)
    \<and> (isl (fst (assert_password_not_reused e u' p t)) \<longleftrightarrow>
         (\<exists>h \<in> set (u_password_hash u' # take (retention_count e) (past_hashes (u_id u') (working t))). verify_password e p h))"
proof -
  let ?db = "working s"
  obtain q where q: "ph_password_hash q = u_password_hash u"
      "history_entries (u_id u) (add_history e (u_id u) (u_password_hash u) ?db) = q # history_entries (u_id u) ?db"
      "history_wf (now e) (add_history e (u_id u) (u_password_hash u) ?db)"
      "\<forall>v. v \<noteq> u_id u \<longrightarrow> history_entries v (add_history e (u_id u) (u_password_hash u) ?db) = history_entries v ?db"
    by (rule history_entries_add [OF wf old, of "u_id u"])
  obtain f where t: "working t = prune_history e (u_id u) (update_users (\<lambda>v. u_id v = u_id u) f (add_history e (u_id u) (u_password_hash u) ?db))"
    using r by (auto simp: replace_user_password_def split: option.splits)
  have users: "password_history (update_users p f db) = password_history db" for p db by (simp add: update_users_def)
  have wf': "history_wf (now e) (update_users (\<lambda>v. u_id v = u_id u) f (add_history e (u_id u) (u_password_hash u) ?db))"
    and ent: "history_entries v (update_users (\<lambda>v. u_id v = u_id u) f (add_history e (u_id u) (u_password_hash u) ?db))
      = history_entries v (add_history e (u_id u) (u_password_hash u) ?db)" for v
    using q(3) by (simp_all add: history_wf_def history_entries_def users)
  note pruned = history_entries_prune [where uid = "u_id u" and e = e, OF wf']
  have "past_hashes (u_id u) (working t) = take (retention_count e) (u_password_hash u # past_hashes (u_id u) ?db)"
    by (simp add: past_hashes_def t pruned(1) ent q(1,2) flip: take_map)
  moreover have "past_hashes v (working t) = past_hashes v ?db" if "v \<noteq> u_id u" for v
    using that by (simp add: past_hashes_def t pruned(2) ent q(4))
  moreover have "history_wf (now e) (working t)" using pruned(3) t by simp
  moreover have "isl (fst (assert_password_not_reused e u' p t)) \<longleftrightarrow>
      (\<exists>h \<in> set (u_password_hash u' # take (retention_count e) (past_hashes (u_id u') (working t))). verify_password e p h)"
    by (auto simp: assert_password_not_reused_def past_hashes_def list_ex_iff take_map)
  ultimately show ?thesis by blast
qed

definition history_world :: world where
  "history_world = fresh_world (empty_db\<lparr>users := [alice\<lparr>u_password_hash := ''h4''\<rparr>],
     password_history := map (\<lambda>i. \<lparr>ph_id = i, ph_user_id = 1, ph_password_hash = ''h'' @ int_str i, ph_created_at = i\<rparr>) [1, 2, 3]\<rparr>)"

theorem password_history_queue_witness:
  "\<exists>t. replace_user_password (password_env\<lparr>cfg := sample_cfg\<lparr>cfg_password_history_retention := 3\<rparr>\<rparr>) (alice\<lparr>u_password_hash := ''h4''\<rparr>)
       ''new password'' True history_world = (Inr (), t)
     \<and> past_hashes 1 (working t) = [''h4'', ''h3'', ''h2'']"
proof -
  let ?e = "password_env\<lparr>cfg := sample_cfg\<lparr>cfg_password_history_retention := 3\<rparr>\<rparr>" and ?u = "alice\<lparr>u_password_hash := ''h4''\<rparr>"
  obtain t where t: "replace_user_password ?e ?u ''new password'' True history_world = (Inr (), t)"
    by (simp add: replace_user_password_def hash_password_def pbkdf2_digest_def is_password_raw_length_safe_def password_env_def
        sample_env_def sample_cfg_def Let_def)
  have wf: "history_wf (now ?e) (working history_world)"
    by (simp add: history_wf_def history_world_def fresh_world_def password_env_def sample_env_def)
  have p: "past_hashes 1 (working history_world) = [''h3'', ''h2'', ''h1'']" by code_simp
  have id: "u_id ?u = 1" by (simp add: alice_def sample_user_def)
  have "past_hashes (u_id ?u) (working t) = take (retention_count ?e) (u_password_hash ?u # past_hashes (u_id ?u) (working history_world))"
    using password_history_queue [OF wf _ t] by simp
  then have "past_hashes 1 (working t) = [''h4'', ''h3'', ''h2'']"
    using p id by (simp add: retention_count_def default_retention_count_def eval_nat_numeral)
  with t show ?thesis by blast
qed

end
