(* ===== verification/Recovery_Codes.thy ===== *)
theory Recovery_Codes
  imports Auth_Frames
begin

section \<open>Recovery codes\<close>

text \<open>
  \<^verbatim>\<open>app/auth/recovery_codes.py\<close>: one-time codes that replace an authenticator. Only a keyed digest of a code is stored.
  The random texts from number 10 on are the hexadecimal tokens of newly generated codes.
\<close>

definition recovery_code_count :: nat where "recovery_code_count = 10"
definition recovery_code_low_threshold :: int where "recovery_code_low_threshold = 2"
definition recovery_purpose_totp :: string where "recovery_purpose_totp = ''totp_recovery''"

text \<open>\<open>str.isalnum\<close> on the 8-bit range.\<close>

definition py_isalnum :: "char \<Rightarrow> bool" where
  "py_isalnum c \<longleftrightarrow> (let n = (of_char c :: nat) in
     (48 \<le> n \<and> n \<le> 57) \<or> (65 \<le> n \<and> n \<le> 90) \<or> (97 \<le> n \<and> n \<le> 122) \<or> n \<in> {170, 178, 179, 181, 185, 186, 188, 189, 190}
     \<or> (192 \<le> n \<and> n \<noteq> 215 \<and> n \<noteq> 247))"

definition normalize_recovery_code :: "string \<Rightarrow> string" where
  "normalize_recovery_code code = filter py_isalnum (py_casefold code)"

definition recovery_message :: "int \<Rightarrow> string \<Rightarrow> string \<Rightarrow> string" where
  "recovery_message uid purpose code =
     ''recovery-code:v2:'' @ int_str uid @ '':'' @ py_casefold (py_strip purpose) @ '':'' @ normalize_recovery_code code"

definition recovery_code_hmac :: "env \<Rightarrow> int \<Rightarrow> string \<Rightarrow> string \<Rightarrow> string" where
  "recovery_code_hmac e uid purpose code = active_hmac_hex e (recovery_message uid purpose code) 64"

fun dashed :: "string \<Rightarrow> nat \<Rightarrow> string list" where
  "dashed token 0 = []"
| "dashed token (Suc n) = (if token = [] then [] else take 8 token # dashed (drop 8 token) n)"

definition new_recovery_code :: "env \<Rightarrow> nat \<Rightarrow> string" where
  "new_recovery_code e i = join ''-'' (dashed (random_text e (10 + i)) (length (random_text e (10 + i))))"

definition update_recovery_codes :: "(recovery_code \<Rightarrow> bool) \<Rightarrow> (recovery_code \<Rightarrow> recovery_code) \<Rightarrow> database \<Rightarrow> database" where
  "update_recovery_codes p f db = db\<lparr>recovery_codes := upd_where p f (recovery_codes db)\<rparr>"

definition add_recovery_code :: "env \<Rightarrow> int \<Rightarrow> string \<Rightarrow> string \<Rightarrow> database \<Rightarrow> database" where
  "add_recovery_code e uid purpose code db =
     db\<lparr>recovery_codes := recovery_codes db @ [\<lparr>rc_id = next_id (map rc_id (recovery_codes db)), rc_user_id = uid,
        rc_code_hmac = recovery_code_hmac e uid purpose code, rc_hmac_version = 2, rc_purpose = purpose, rc_created_at = now e,
        rc_used_at = None\<rparr>]\<rparr>"

definition generate_recovery_codes_for_user :: "env \<Rightarrow> user \<Rightarrow> int \<Rightarrow> string \<Rightarrow> bool \<Rightarrow> bool \<Rightarrow> string list request" where
  "generate_recovery_codes_for_user e u count purpose commit audit =
     (if count < 1 \<or> 20 < count then raise (ValueError ''Recovery code count must be between 1 and 20'')
      else
        let codes = map (new_recovery_code e) [0..<nat count] in
        bindA (updateA (update_recovery_codes
          (\<lambda>r. rc_user_id r = u_id u \<and> rc_purpose r = purpose \<and> rc_used_at r = None) (\<lambda>r. r\<lparr>rc_used_at := Some (now e)\<rparr>))) (\<lambda>_.
        bindA (updateA (fold (add_recovery_code e (u_id u) purpose) codes)) (\<lambda>_.
        bindA (condA commit (bindA commitA (\<lambda>_.
          condA audit (audit_event e ''recovery_codes_generated'' ''success'' (Some (u_id u))
            [(''count'', JInt count), (''purpose'', JStr purpose)] None)))) (\<lambda>_.
        ret codes))))"

definition usable_code :: "env \<Rightarrow> int \<Rightarrow> string \<Rightarrow> string \<Rightarrow> recovery_code \<Rightarrow> bool" where
  "usable_code e uid purpose code r \<longleftrightarrow>
     rc_user_id r = uid \<and> rc_purpose r = purpose \<and> rc_used_at r = None \<and> 2 \<le> rc_hmac_version r
     \<and> rc_code_hmac r = recovery_code_hmac e uid purpose code"

definition consume_recovery_code :: "env \<Rightarrow> user \<Rightarrow> string \<Rightarrow> string \<Rightarrow> bool \<Rightarrow> bool request" where
  "consume_recovery_code e u code purpose commit =
     bindA (queryA (\<lambda>db. find (usable_code e (u_id u) purpose code) (recovery_codes db))) (\<lambda>found.
     case found of
       None \<Rightarrow> bindA (condA commit rollbackA) (\<lambda>_. ret False)
     | Some r \<Rightarrow>
         bindA (updateA (update_recovery_codes (\<lambda>q. rc_id q = rc_id r) (\<lambda>q. q\<lparr>rc_used_at := Some (now e)\<rparr>))) (\<lambda>_.
         bindA (condA commit commitA) (\<lambda>_.
         ret True)))"

definition unused_recovery_code_count :: "int \<Rightarrow> string \<Rightarrow> database \<Rightarrow> int" where
  "unused_recovery_code_count uid purpose db =
     int (length (filter (\<lambda>r. rc_user_id r = uid \<and> rc_purpose r = purpose \<and> rc_used_at r = None \<and> 2 \<le> rc_hmac_version r) (recovery_codes db)))"

definition recovery_code_count_is_low :: "int \<Rightarrow> string \<Rightarrow> database \<Rightarrow> bool" where
  "recovery_code_count_is_low uid purpose db \<longleftrightarrow> unused_recovery_code_count uid purpose db \<le> recovery_code_low_threshold"

definition send_recovery_code_used_notification :: "env \<Rightarrow> user \<Rightarrow> unit request" where
  "send_recovery_code_used_notification e u = send_security_email e (u_email u) ''SITBank recovery code used''"

subsection \<open>Frames\<close>

text \<open>What an invariant must tolerate to be kept when codes are marked as used.\<close>

definition recovery_free :: "(database \<Rightarrow> bool) \<Rightarrow> bool" where
  "recovery_free P \<longleftrightarrow>
     (\<forall>db p t. P db \<longrightarrow> P (db\<lparr>recovery_codes := upd_where p (\<lambda>r. r\<lparr>rc_used_at := Some t\<rparr>) (recovery_codes db)\<rparr>))"

lemma preserves_recovery_updates [preserves_rules]:
  "recovery_free P \<Longrightarrow> preserves (both P) (updateA (update_recovery_codes p (\<lambda>r. r\<lparr>rc_used_at := Some t\<rparr>)))"
  by (auto intro!: preserves_both_updateA simp: recovery_free_def update_recovery_codes_def)

lemma preserves_consume_recovery_code [preserves_rules]:
  "recovery_free P \<Longrightarrow> preserves (both P) (consume_recovery_code e u code p c)"
  unfolding consume_recovery_code_def by (intro preserves_rules)

subsection \<open>A recovery code is used once\<close>

text \<open>
  The codes of one user and purpose with one digest are all used. What was used stays used, and a successful check leaves its code
  used once the session commits: the check itself does not commit for its callers.
\<close>

definition code_spent :: "int \<times> string \<times> string \<Rightarrow> database \<Rightarrow> bool" where
  "code_spent k db \<longleftrightarrow> (\<forall>r \<in> set (recovery_codes db). (rc_user_id r, rc_purpose r, rc_code_hmac r) = k \<longrightarrow> rc_used_at r \<noteq> None)"

lemma code_spent_use:
  "code_spent k db \<Longrightarrow> code_spent k (update_recovery_codes p (\<lambda>q. q\<lparr>rc_used_at := Some t\<rparr>) db)"
  by (auto simp: code_spent_def update_recovery_codes_def set_upd_where split: if_splits)

lemma consumed_spent:
  assumes "find (usable_code e uid purpose code) (recovery_codes db) = Some r"
    and "distinct (map rc_code_hmac (recovery_codes db))"
  shows "code_spent (uid, purpose, recovery_code_hmac e uid purpose code)
    (update_recovery_codes (\<lambda>q. rc_id q = rc_id r) (\<lambda>q. q\<lparr>rc_used_at := Some t\<rparr>) db)"
proof -
  have r: "r \<in> set (recovery_codes db)" "rc_code_hmac r = recovery_code_hmac e uid purpose code"
    using find_SomeD [OF assms(1)] by (auto simp: usable_code_def)
  have same: "q = r" if "q \<in> set (recovery_codes db)" "rc_code_hmac q = rc_code_hmac r" for q
    using assms(2) that r(1) by (auto simp: distinct_map inj_on_def)
  show ?thesis
    unfolding code_spent_def
  proof (intro ballI impI)
    fix q
    assume "q \<in> set (recovery_codes (update_recovery_codes (\<lambda>q. rc_id q = rc_id r) (\<lambda>q. q\<lparr>rc_used_at := Some t\<rparr>) db))"
      and k: "(rc_user_id q, rc_purpose q, rc_code_hmac q) = (uid, purpose, recovery_code_hmac e uid purpose code)"
    then obtain q0 where q0: "q0 \<in> set (recovery_codes db)" "q = (if rc_id q0 = rc_id r then q0\<lparr>rc_used_at := Some t\<rparr> else q0)"
      by (auto simp: update_recovery_codes_def set_upd_where)
    then have "rc_code_hmac q0 = rc_code_hmac r" using k r(2) by (auto split: if_splits)
    with same q0(1) have "q0 = r" by blast
    with q0(2) show "rc_used_at q \<noteq> None" by simp
  qed
qed

lemma code_spent_recovery_free: "recovery_free (code_spent k)"
  using code_spent_use [of k] by (simp add: recovery_free_def update_recovery_codes_def)

lemma consumed_code:
  assumes "consume_recovery_code e u code purpose False s = (Inr True, t)"
  obtains q where "q \<in> set (recovery_codes (working s))" "usable_code e (u_id u) purpose code q"
    "committed t = committed s" "web t = web s"
    "map rc_code_hmac (recovery_codes (working t)) = map rc_code_hmac (recovery_codes (working s))"
    "distinct (map rc_code_hmac (recovery_codes (working s))) \<Longrightarrow>
       code_spent (u_id u, purpose, recovery_code_hmac e (u_id u) purpose code) (working t)"
proof -
  from assms obtain q where q: "find (usable_code e (u_id u) purpose code) (recovery_codes (working s)) = Some q"
    and t: "t = s\<lparr>working := update_recovery_codes (\<lambda>x. rc_id x = rc_id q) (\<lambda>x. x\<lparr>rc_used_at := Some (now e)\<rparr>) (working s)\<rparr>"
    by (auto simp: consume_recovery_code_def condA_def split: option.splits)
  show thesis
  proof (rule that)
    show "q \<in> set (recovery_codes (working s))" "usable_code e (u_id u) purpose code q" using find_SomeD [OF q] by auto
    show "map rc_code_hmac (recovery_codes (working t)) = map rc_code_hmac (recovery_codes (working s))"
      by (simp add: t update_recovery_codes_def map_upd_where_frame)
    show "distinct (map rc_code_hmac (recovery_codes (working s))) \<Longrightarrow>
       code_spent (u_id u, purpose, recovery_code_hmac e (u_id u) purpose code) (working t)"
      using consumed_spent [OF q] by (simp add: t)
  qed (simp_all add: t)
qed

lemma spent_code_refused:
  assumes "code_spent (u_id u, purpose, recovery_code_hmac e (u_id u) purpose code) (working s)"
  shows "consume_recovery_code e u code purpose False s \<noteq> (Inr True, t)"
  using assms by (auto elim!: consumed_code simp: code_spent_def usable_code_def)

text \<open>A commit makes the use permanent: the digests of stored codes are distinct.\<close>

lemma commit_spends:
  assumes "commitA s = (Inr x, t)" and "distinct (map rc_code_hmac (recovery_codes (working s))) \<Longrightarrow> code_spent k (working s)"
  shows "both (code_spent k) t"
  using assms by (cases rule: commitA_cases [of s]) (auto simp: both_def storable_def constraints_ok_def)

end
