(* ===== verification/Login.thy ===== *)
theory Login
  imports Totp Passwords Recovery_Codes
begin

section \<open>Customer login\<close>

text \<open>
  The two steps of a customer login in \<^verbatim>\<open>app/auth/services.py\<close>: the password (\<open>authenticate_primary\<close>) and the second
  factor (\<open>complete_pending_mfa\<close>), with the throttling, lockout and audit of their failures. The dictionaries the functions
  return are the datatypes below, without the texts of messages.
\<close>

definition generic_login_error :: string where "generic_login_error = ''Invalid username or password''"

definition normalize_text :: "string \<Rightarrow> string" where
  "normalize_text s = py_casefold (py_strip s)"

definition client_ip :: "env \<Rightarrow> string" where
  "client_ip e = text_or (req_remote_addr e) ''unknown''"

definition auth_principal :: "env \<Rightarrow> string \<Rightarrow> string" where
  "auth_principal e identifier = client_ip e @ '':'' @ normalize_text identifier"

text \<open>\<^verbatim>\<open>scalar_one_or_none\<close> of a query.\<close>

definition scalar_one_or_none :: "'a list \<Rightarrow> 'a option request" where
  "scalar_one_or_none rows = (case rows of [] \<Rightarrow> ret None | [r] \<Rightarrow> ret (Some r) | _ \<Rightarrow> raise MultipleResultsFound)"

definition matches_identifier :: "string \<Rightarrow> user \<Rightarrow> bool" where
  "matches_identifier normalized u \<longleftrightarrow> py_casefold (u_username u) = normalized \<or> py_casefold (u_email u) = normalized"

definition find_user_by_identifier :: "string \<Rightarrow> user option request" where
  "find_user_by_identifier identifier =
     bindA (queryA (\<lambda>db. filter (matches_identifier (normalize_text identifier)) (users db))) scalar_one_or_none"

definition dummy_password_hash :: "env \<Rightarrow> string" where
  "dummy_password_hash e = (case hash_password e (random_text e 7) ''not-a-real-sitbank-password'' of Some h \<Rightarrow> h | None \<Rightarrow> [])"

definition customer_password_matches :: "env \<Rightarrow> user option \<Rightarrow> string \<Rightarrow> bool" where
  "customer_password_matches e u password =
     (is_password_raw_length_safe e password \<and>
      verify_password e password (case u of Some v \<Rightarrow> u_password_hash v | None \<Rightarrow> dummy_password_hash e))"

definition is_customer :: "user \<Rightarrow> bool" where
  "is_customer u \<longleftrightarrow> u_account_type u = ''customer''"

definition validate_customer_primary_credentials :: "env \<Rightarrow> user option \<Rightarrow> string \<Rightarrow> string \<Rightarrow> string \<Rightarrow> user request" where
  "validate_customer_primary_credentials e found identifier password prin =
     (let not_customer = (case found of Some u \<Rightarrow> \<not> is_customer u | None \<Rightarrow> False);
          password_ok = (customer_password_matches e found password \<and> \<not> not_customer);
          failure_reason = (if not_customer then ''not_customer_identity'' else ''invalid_credentials'');
          fail = bindA (audit_event e ''login'' ''failure'' (map_option u_id found)
              [(''known_user'', JBool (found \<noteq> None)), (''reason'', JStr failure_reason),
               (''principal_ref'', opt_json JStr (principal_reference e identifier))] None) (\<lambda>_.
            bindA (record_failure e ''login'' prin None) (\<lambda>_.
            bindA (case found of
                Some u \<Rightarrow> condA (is_customer u)
                  (bindA (updateA (update_user (u_id u) (\<lambda>v. v\<lparr>u_failed_login_count := u_failed_login_count v + 1\<rparr>))) (\<lambda>_.
                   record_user_security_failure e u ''password'' ''password_failed_attempts''))
              | None \<Rightarrow> ret ()) (\<lambda>_.
            raise (auth_error generic_login_error 401))))
      in case found of Some u \<Rightarrow> if password_ok then ret u else fail | None \<Rightarrow> fail)"

definition automatic_lock_reasons :: "string list" where
  "automatic_lock_reasons = [''password_failed_attempts'', ''mfa_failed_attempts'']"

definition enforce_customer_login_account_state :: "env \<Rightarrow> user \<Rightarrow> unit request" where
  "enforce_customer_login_account_state e u =
     (let blocked = (\<lambda>message status reason.
            bindA (audit_event e ''login'' ''blocked'' (Some (u_id u)) [(''reason'', JStr reason)] None) (\<lambda>_.
            raise (auth_error message status))) in
      if u_security_locked_at u \<noteq> None \<and> u_security_lock_reason u \<in> Some ` set automatic_lock_reasons
      then blocked generic_login_error 401 (or_default (u_security_lock_reason u) [])
      else if u_is_frozen u then blocked account_auth_unavailable_error 403 (or_default (u_security_lock_reason u) ''account_frozen'')
      else if u_security_locked_at u \<noteq> None then blocked generic_login_error 401 (or_default (u_security_lock_reason u) ''account_unavailable'')
      else ret ())"

definition customer_mfa_failure_principal :: "env \<Rightarrow> int \<Rightarrow> string" where
  "customer_mfa_failure_principal e uid = client_ip e @ '':'' @ int_str uid"

datatype login_result =
    MfaVerificationRequired
  | MfaSetupRequired string

definition rehash_if_needed :: "env \<Rightarrow> user \<Rightarrow> string \<Rightarrow> unit request" where
  "rehash_if_needed e u password =
     condA (password_hash_needs_rehash e (u_password_hash u))
       (case hash_password e (random_text e 8) password of
          Some h \<Rightarrow> updateA (update_user (u_id u) (\<lambda>v. v\<lparr>u_password_hash := h\<rparr>))
        | None \<Rightarrow> raise (ValueError ''Password exceeds maximum length''))"

text \<open>The two ends of \<open>authenticate_primary\<close>: the second factor is asked for, or (before enrolment) a bootstrap session starts.\<close>

definition start_mfa_challenge :: "env \<Rightarrow> user \<Rightarrow> login_result request" where
  "start_mfa_challenge e u =
     bindA (clear_failures e ''customer_mfa_login'' (customer_mfa_failure_principal e (u_id u))) (\<lambda>_.
     bindA (begin_password_authenticated_session e (u_id u)) (\<lambda>_.
     bindA (audit_event e ''login_password'' ''success'' (Some (u_id u)) [(''mfa_required'', JBool True)] None) (\<lambda>_.
     ret MfaVerificationRequired)))"

definition start_bootstrap_session :: "env \<Rightarrow> user \<Rightarrow> string \<Rightarrow> login_result request" where
  "start_bootstrap_session e u prin =
     bindA (establish_authenticated_session e (u_id u) False ''password_bootstrap'') (\<lambda>session_id.
     bindA (updateA (update_user (u_id u) (\<lambda>v. v\<lparr>u_failed_login_count := 0, u_last_login_at := Some (now e)\<rparr>))) (\<lambda>_.
     bindA commitA (\<lambda>_.
     bindA (clear_failures e ''login'' prin) (\<lambda>_.
     bindA (clear_user_security_failures e (u_id u) ''password'') (\<lambda>_.
     bindA (audit_event e ''login'' ''success'' (Some (u_id u)) [(''mfa_required'', JBool False)] (Some session_id)) (\<lambda>_.
     ret (MfaSetupRequired (public_session_reference e (Some session_id)))))))))"

definition authenticate_primary :: "env \<Rightarrow> string \<Rightarrow> string \<Rightarrow> login_result request" where
  "authenticate_primary e identifier password =
     bindA (find_user_by_identifier identifier) (\<lambda>found.
     bindA (enforce_auth_backoff e ''login'' (auth_principal e identifier)) (\<lambda>_.
     bindA (validate_customer_primary_credentials e found identifier password (auth_principal e identifier)) (\<lambda>u.
     bindA (enforce_customer_login_account_state e u) (\<lambda>_.
     bindA (rehash_if_needed e u password) (\<lambda>_.
     bindA commitA (\<lambda>_.
     if u_mfa_enabled u then start_mfa_challenge e u else start_bootstrap_session e u (auth_principal e identifier)))))))"

subsection \<open>The second factor\<close>

definition enforce_customer_mfa_failure_limit :: "env \<Rightarrow> user \<Rightarrow> string \<Rightarrow> int \<Rightarrow> bool \<Rightarrow> unit request" where
  "enforce_customer_mfa_failure_limit e u prin failure_limit audit_block =
     try_catch (enforce_durable_failure_limit e ''customer_mfa_login'' prin failure_limit)
       (\<lambda>err. case err of
          DurableRateLimitExceeded retry_after \<Rightarrow>
            bindA (condA audit_block (audit_event e ''mfa_login_verify'' ''blocked'' (Some (u_id u))
              [(''reason'', JStr ''wrong_code_threshold_exceeded''), (''retry_after'', JInt retry_after)] None)) (\<lambda>_.
            raise (AuthError generic_mfa_error 429 (Some retry_after)))
        | _ \<Rightarrow> raise err)"

definition record_customer_mfa_login_failure :: "env \<Rightarrow> user \<Rightarrow> string \<Rightarrow> string \<Rightarrow> unit request" where
  "record_customer_mfa_login_failure e u reason event_type =
     (let prin = customer_mfa_failure_principal e (u_id u); failure_limit = cfg_mfa_failure_limit (cfg e) in
      bindA (record_failure e ''customer_mfa_login'' prin (Some (cfg_mfa_failure_window_seconds (cfg e)))) (\<lambda>attempts.
      bindA (audit_event e event_type (if failure_limit < attempts then ''blocked'' else ''failure'') (Some (u_id u))
        [(''reason'', JStr (if failure_limit < attempts then ''wrong_code_threshold_exceeded'' else reason)), (''failure_count'', JInt attempts)] None) (\<lambda>_.
      bindA (record_user_security_failure e u ''mfa'' ''mfa_failed_attempts'') (\<lambda>_.
      condA (failure_limit < attempts) (enforce_customer_mfa_failure_limit e u prin failure_limit False)))))"

definition is_totp_code :: "string \<Rightarrow> bool" where
  "is_totp_code code \<longleftrightarrow> length code = 6 \<and> list_all (\<lambda>c. py_isdigit c \<or> of_char c \<in> {178, 179, 185 :: nat}) code"

definition send_mfa_recovery_code_used_notification :: "env \<Rightarrow> user \<Rightarrow> unit request" where
  "send_mfa_recovery_code_used_notification e u =
     try_catch (send_recovery_code_used_notification e u)
       (\<lambda>_. audit_event e ''recovery_code_notification'' ''failure'' (Some (u_id u)) [(''reason'', JStr ''email_delivery_failed'')] None)"

definition verify_pending_login_authentication_code :: "env \<Rightarrow> user \<Rightarrow> string \<Rightarrow> string request" where
  "verify_pending_login_authentication_code e u code =
     (if is_totp_code code then
        bindA (verify_totp_for_user_outcome e u code ''mfa_login'' None False) (\<lambda>outcome.
        case outcome of
          TOTP_VALID \<Rightarrow> ret ''totp''
        | TOTP_REPLAY \<Rightarrow>
            bindA (audit_event e ''mfa_login_verify'' ''failure'' (Some (u_id u)) [(''reason'', JStr ''totp_replay'')] None) (\<lambda>_.
            raise (auth_error generic_mfa_error 401))
        | TOTP_INVALID \<Rightarrow>
            bindA (record_customer_mfa_login_failure e u ''invalid_totp'' ''mfa_login_verify'') (\<lambda>_.
            raise (auth_error generic_mfa_error 401)))
      else
        bindA (consume_recovery_code e u code recovery_purpose_totp False) (\<lambda>ok.
        if \<not> ok then
          bindA (record_customer_mfa_login_failure e u ''invalid_recovery_code'' ''mfa_recovery_code_verify'') (\<lambda>_.
          raise (auth_error generic_mfa_error 401))
        else
          bindA (clear_user_security_failures e (u_id u) ''mfa'') (\<lambda>_.
          bindA (queryA (unused_recovery_code_count (u_id u) recovery_purpose_totp)) (\<lambda>remaining.
          bindA (audit_event_required e ''mfa_recovery_code_verify'' ''success'' (Some (u_id u)) [(''remaining_codes'', JInt remaining)] None) (\<lambda>_.
          bindA commitA (\<lambda>_.
          bindA (send_mfa_recovery_code_used_notification e u) (\<lambda>_.
          ret ''recovery_code'')))))))"

record mfa_login =
  ml_session_ref :: string
  ml_user :: user
  ml_codes_remaining :: int

definition finish_mfa_login :: "env \<Rightarrow> user \<Rightarrow> string \<Rightarrow> mfa_login request" where
  "finish_mfa_login e u factor =
     bindA (updateA (update_user (u_id u) (\<lambda>v. v\<lparr>u_last_login_at := Some (now e), u_failed_login_count := 0\<rparr>))) (\<lambda>_.
     bindA commitA (\<lambda>_.
     bindA (clear_failures e ''customer_mfa_login'' (customer_mfa_failure_principal e (u_id u))) (\<lambda>_.
     bindA (clear_failures e ''login'' (auth_principal e (u_username u))) (\<lambda>_.
     bindA (clear_failures e ''login'' (auth_principal e (u_email u))) (\<lambda>_.
     bindA (clear_user_security_failures e (u_id u) ''password'') (\<lambda>_.
     bindA (clear_user_security_failures e (u_id u) ''mfa'') (\<lambda>_.
     bindA (queryA (unused_recovery_code_count (u_id u) recovery_purpose_totp)) (\<lambda>remaining.
     bindA (establish_authenticated_session e (u_id u) True ''password+mfa_bootstrap'') (\<lambda>session_id.
     bindA (audit_event e ''mfa_login_verify'' ''success'' (Some (u_id u)) [(''factor'', JStr factor)] (Some session_id)) (\<lambda>_.
     ret \<lparr>ml_session_ref = public_session_reference e (Some session_id), ml_user = u, ml_codes_remaining = remaining\<rparr>))))))))))"

definition complete_pending_mfa :: "env \<Rightarrow> string \<Rightarrow> mfa_login request" where
  "complete_pending_mfa e code =
     bindA (readA (\<lambda>w. sess_get w ''pending_mfa_user_id'')) (\<lambda>pending.
     if \<not> py_truthy pending then raise (auth_error ''No pending MFA challenge'' 401)
     else (case json_int pending of
         None \<Rightarrow> raise (ValueError [])
       | Some uid \<Rightarrow>
           bindA (queryA (\<lambda>db. user_by_id db uid)) (\<lambda>found.
           case found of
             None \<Rightarrow> bindA (audit_event e ''mfa_login_verify'' ''failure'' (Some uid) [] None) (\<lambda>_.
               raise (auth_error ''No pending MFA challenge'' 401))
           | Some u \<Rightarrow>
               if \<not> u_mfa_enabled u then
                 bindA (audit_event e ''mfa_login_verify'' ''failure'' (Some uid) [] None) (\<lambda>_.
                 raise (auth_error ''No pending MFA challenge'' 401))
               else
                 bindA (ensure_account_can_authenticate e u) (\<lambda>_.
                 bindA (enforce_customer_mfa_failure_limit e u (customer_mfa_failure_principal e uid) (cfg_mfa_failure_limit (cfg e)) True) (\<lambda>_.
                 bindA (verify_pending_login_authentication_code e u code) (\<lambda>factor.
                 finish_mfa_login e u factor))))))"

definition logout_current_session :: "env \<Rightarrow> unit request" where
  "logout_current_session e =
     bindA (readA id) (\<lambda>w.
     let user_id = json_or (sess_get w ''user_id'') (sess_get w ''pending_mfa_user_id'') in
     bindA (revoke_current_session e ''logout'') (\<lambda>_.
     if py_truthy user_id \<and> json_int user_id = None then raise (ValueError [])
     else audit_event e ''logout'' ''success'' (if py_truthy user_id then json_int user_id else None) [] (current_session_id e w)))"

subsection \<open>Frames\<close>

definition login_free :: "(database \<Rightarrow> bool) \<Rightarrow> bool" where
  "login_free P \<longleftrightarrow> auth_free P \<and> replays_free P \<and> recovery_free P"

lemma login_freeD:
  assumes "login_free P"
  shows "auth_free P" "replays_free P" "recovery_free P" "sessions_free P" "counters_free P" "auth_users_free P" "keeps_audit e P"
  using assms auth_freeD [of P] by (simp_all add: login_free_def)

lemma preserves_scalar_one_or_none [preserves_rules]: "preserves I (scalar_one_or_none rows)"
  unfolding scalar_one_or_none_def by (auto split: list.split intro: preserves_rules)

lemma preserves_validate_credentials [preserves_rules]:
  "login_free P \<Longrightarrow> preserves (both P) (validate_customer_primary_credentials e f i p pr)"
  unfolding validate_customer_primary_credentials_def Let_def
  by (intro preserves_rules preserves_update_users login_freeD; (assumption | simp add: account_part_def))

lemma preserves_login_account_state [preserves_rules]:
  "keeps_audit e P \<Longrightarrow> preserves (both P) (enforce_customer_login_account_state e u)"
  unfolding enforce_customer_login_account_state_def Let_def by (intro preserves_rules)

lemma preserves_authenticate_primary [preserves_rules]:
  "login_free P \<Longrightarrow> preserves (both P) (authenticate_primary e i p)"
  unfolding authenticate_primary_def find_user_by_identifier_def rehash_if_needed_def start_mfa_challenge_def start_bootstrap_session_def
  by (intro preserves_rules preserves_update_users login_freeD; (assumption | simp add: account_part_def))

lemma preserves_customer_mfa_failure_limit [preserves_rules]:
  assumes "counters_free P" and "keeps_audit e P"
  shows "preserves (both P) (enforce_customer_mfa_failure_limit e u pr l a)"
  unfolding enforce_customer_mfa_failure_limit_def
proof (rule preserves_try_catch)
  show "preserves (both P) (case err of DurableRateLimitExceeded retry_after \<Rightarrow>
            bindA (condA a (audit_event e ''mfa_login_verify'' ''blocked'' (Some (u_id u))
              [(''reason'', JStr ''wrong_code_threshold_exceeded''), (''retry_after'', JInt retry_after)] None)) (\<lambda>_.
            raise (AuthError generic_mfa_error 429 (Some retry_after))) | _ \<Rightarrow> raise err)" for err
    by (cases err) (auto intro!: preserves_rules assms)
qed (intro preserves_rules assms)

lemma preserves_customer_mfa_login_failure [preserves_rules]:
  "auth_free P \<Longrightarrow> preserves (both P) (record_customer_mfa_login_failure e u r t)"
  unfolding record_customer_mfa_login_failure_def Let_def by (intro preserves_rules auth_freeD)

lemma preserves_verify_pending_login [preserves_rules]:
  "login_free P \<Longrightarrow> preserves (both P) (verify_pending_login_authentication_code e u c)"
  unfolding verify_pending_login_authentication_code_def send_mfa_recovery_code_used_notification_def
    send_recovery_code_used_notification_def
  by (intro preserves_rules login_freeD; (assumption | (auto split: totp_outcome.split intro!: preserves_rules login_freeD)))

lemma preserves_complete_pending_mfa [preserves_rules]:
  "login_free P \<Longrightarrow> preserves (both P) (complete_pending_mfa e c)"
  unfolding complete_pending_mfa_def finish_mfa_login_def ensure_account_can_authenticate_def
  by (intro preserves_rules preserves_update_users login_freeD; (assumption | simp add: account_part_def))

end
