(* ===== verification/Login_Safety.thy ===== *)
theory Login_Safety
  imports Login
begin

section \<open>What a login proves\<close>

text \<open>
  The properties of the two login steps: who can pass the password step and with what session, and who can pass the second
  step. The frame of the browser session goes through the steps on the database.
\<close>

subsection \<open>The browser session\<close>

lemma preserves_on_web_db_steps [preserves_rules]:
  "preserves (on_web P) (audit_event_required e t out uid md sid)" "preserves (on_web P) (load_counter e sc p)"
proof -
  show "preserves (on_web P) (audit_event_required e t out uid md sid)"
  proof (rule preservesI)
    fix s assume "on_web P s"
    then show "on_web P (snd (audit_event_required e t out uid md sid s))"
      by (cases rule: audit_event_required_cases [of e t out uid md sid s]) (auto simp: on_web_def)
  qed
  show "preserves (on_web P) (load_counter e sc p)" unfolding load_counter_def by (intro preserves_rules)
qed

lemma preserves_on_web_counters [preserves_rules]:
  "preserves (on_web P) (clear_failures e sc p)" "preserves (on_web P) (clear_user_security_failures e uid sc)"
  unfolding clear_failures_def clear_user_security_failures_def by (intro preserves_rules)+

text \<open>A condition on the dictionary that a change of the session id and of the risk context keeps.\<close>

definition on_key :: "string \<Rightarrow> json \<Rightarrow> web_session \<Rightarrow> bool" where
  "on_key k v w \<longleftrightarrow> sess_get w k = v"

lemma preserves_rotate_on_key [preserves_rules]: "preserves (on_web (on_key k v)) (rotate_session_id e)"
  unfolding rotate_session_id_def end_session_id_def
  by (intro preserves_rules preserves_on_web_webA) (simp add: on_key_def sess_get_def)

lemma sess_get_pop: "k \<noteq> k' \<Longrightarrow> sess_get (sess_pop k w) k' = sess_get w k'"
proof -
  assume "k \<noteq> k'"
  then have "map_of (filter (\<lambda>(j, _). j \<noteq> k) kvs) k' = map_of kvs k'" for kvs :: "(string \<times> json) list"
    by (induction kvs) auto
  then show ?thesis by (simp add: sess_pop_def sess_get_def jget_def)
qed

lemma sess_get_clear [simp]: "sess_get (sess_clear w) k = JNull"
  by (simp add: sess_clear_def sess_get_def jget_def)

definition risk_key :: "string \<Rightarrow> bool" where
  "risk_key k \<longleftrightarrow> k \<in> {''risk_context'', ''risk_fingerprint'', ''risk_reauth_required''}"

lemma preserves_risk_on_key [preserves_rules]:
  "\<not> risk_key k \<Longrightarrow> preserves (on_web (on_key k v)) (refresh_session_risk_fingerprint e)"
  unfolding refresh_session_risk_fingerprint_def update_current_record_def Let_def
  by (intro preserves_rules preserves_on_web_webA)
     (auto simp: on_key_def store_current_session_risk_context_def Let_def sess_get_pop risk_key_def)

lemma preserves_on_web_sessions [preserves_rules]:
  "preserves (on_web P) (register_session_metadata e uid l)" "preserves (on_web P) (enforce_active_session_cap e uid)"
  unfolding register_session_metadata_def enforce_active_session_cap_def active_session_records_def Let_def
  by (intro preserves_rules)+

lemma triple_webA: "triple (\<lambda>_. True) (webA f) (\<lambda>_ s. \<exists>w. web s = f w) (\<lambda>_. True)"
  unfolding triple_def webA_def by auto

text \<open>The value of a key after the steps that set it and those that follow.\<close>

lemma key_after_webA:
  assumes "bindA (webA f) g s = (Inr x, t)" and "\<And>w. on_key k v (f w)" and "\<And>y. preserves (on_web (on_key k v)) (g y)"
  shows "sess_get (web t) k = v"
proof -
  from assms(1) have g: "g () (s\<lparr>web := f (web s)\<rparr>) = (Inr x, t)" by (simp add: webA_def)
  have "on_web (on_key k v) (s\<lparr>web := f (web s)\<rparr>)" using assms(2) by (simp add: on_web_def)
  from preservesD' [OF assms(3) g this] show ?thesis by (simp add: on_web_def on_key_def)
qed

lemma key_kept:
  "preserves (on_web (on_key k v)) m \<Longrightarrow> m s = (x, t) \<Longrightarrow> sess_get (web s) k = v \<Longrightarrow> sess_get (web t) k = v"
  using preservesD' [of "on_web (on_key k v)" m s x t] by (simp add: on_web_def on_key_def)

lemma established_session_user:
  assumes "establish_authenticated_session e uid m c s = (Inr sid, t)"
  shows "sess_get (web t) ''user_id'' = JInt uid"
  using assms unfolding establish_authenticated_session_def Let_def
  by (rule key_after_webA)
     (auto simp: on_key_def set_permanent_def risk_key_def intro!: preserves_rules)

lemma pending_session_keys:
  assumes "begin_password_authenticated_session e uid s = (Inr y, t)"
  shows "sess_get (web t) ''user_id'' = JNull \<and> sess_get (web t) ''pending_mfa_user_id'' = JInt uid"
  using assms unfolding begin_password_authenticated_session_def
  by (intro conjI; elim key_after_webA)
     (auto simp: on_key_def set_permanent_def intro!: preserves_rules)

subsection \<open>The password step\<close>

lemma validated_credentials:
  assumes "validate_customer_primary_credentials e found ident password prin s = (Inr u, t)"
  shows "t = s \<and> found = Some u \<and> is_customer u \<and> verify_password e password (u_password_hash u)"
  using assms
  by (auto simp: validate_customer_primary_credentials_def Let_def customer_password_matches_def bindA_eq_Inr
      split: option.splits if_splits)

lemma login_state_allowed:
  "enforce_customer_login_account_state e u s = (Inr y, t) \<Longrightarrow> t = s \<and> \<not> u_is_frozen u \<and> u_security_locked_at u = None"
  by (auto simp: enforce_customer_login_account_state_def Let_def bindA_eq_Inr split: if_splits)

lemma challenge_session:
  assumes "start_mfa_challenge e u s = (Inr r, t)"
  shows "r = MfaVerificationRequired \<and> sess_get (web t) ''user_id'' = JNull \<and> sess_get (web t) ''pending_mfa_user_id'' = JInt (u_id u)"
proof -
  from assms obtain s1 s2 s3 where
    "begin_password_authenticated_session e (u_id u) s1 = (Inr (), s2)"
    and a: "audit_event e ''login_password'' ''success'' (Some (u_id u)) [(''mfa_required'', JBool True)] None s2 = (Inr (), s3)"
    and r: "r = MfaVerificationRequired" "t = s3"
    by (auto simp: start_mfa_challenge_def bindA_eq_Inr)
  from pending_session_keys [OF this(1)] preservesD' [OF preserves_on_web_audit_event a]
  have "on_web (\<lambda>w. sess_get w ''user_id'' = JNull \<and> sess_get w ''pending_mfa_user_id'' = JInt (u_id u)) s3"
    by (simp add: on_web_def)
  then show ?thesis using r by (simp add: on_web_def)
qed

lemma bootstrap_session:
  assumes "start_bootstrap_session e u prin s = (Inr r, t)"
  shows "(\<exists>ref. r = MfaSetupRequired ref) \<and> sess_get (web t) ''user_id'' = JInt (u_id u)"
proof -
  from assms obtain sid s1 s2 s3 s4 where 1: "establish_authenticated_session e (u_id u) False ''password_bootstrap'' s = (Inr sid, s1)"
    and 2: "commitA (s1\<lparr>working := update_user (u_id u) (\<lambda>v. v\<lparr>u_failed_login_count := 0, u_last_login_at := Some (now e)\<rparr>) (working s1)\<rparr>)
      = (Inr (), s2)"
    and 3: "clear_failures e ''login'' prin s2 = (Inr (), s3)"
    and 4: "clear_user_security_failures e (u_id u) ''password'' s3 = (Inr (), s4)"
    and 5: "audit_event e ''login'' ''success'' (Some (u_id u)) [(''mfa_required'', JBool False)] (Some sid) s4 = (Inr (), t)"
    and r: "\<exists>ref. r = MfaSetupRequired ref"
    by (auto simp: start_bootstrap_session_def bindA_eq_Inr)
  have "sess_get (web s2) ''user_id'' = JInt (u_id u)"
    using key_kept [OF preserves_on_web_db(1) 2] established_session_user [OF 1] by simp
  then have "sess_get (web t) ''user_id'' = JInt (u_id u)"
    using key_kept [OF preserves_on_web_counters(1) 3] key_kept [OF preserves_on_web_counters(2) 4]
      key_kept [OF preserves_on_web_audit_event 5] by simp
  with r show ?thesis by blast
qed

subsection \<open>The second step\<close>

lemma account_can_authenticate:
  "ensure_account_can_authenticate e u s = (Inr (), t) \<Longrightarrow> t = s \<and> \<not> u_is_frozen u \<and> u_security_locked_at u = None"
  by (auto simp: ensure_account_can_authenticate_def bindA_eq_Inr split: if_splits)

lemma try_catch_raises: "(\<And>err. raises (h err)) \<Longrightarrow> try_catch m h s = (Inr y, t) \<longleftrightarrow> m s = (Inr y, t)"
  by (auto simp: try_catch_eq_Inr dest: raises_not_Inr)

lemma load_counter_frame:
  assumes "load_counter e sc p s = (x, t)"
  shows "\<exists>cs. t = s\<lparr>working := (working s)\<lparr>auth_counters := cs\<rparr>\<rparr>"
proof (cases "t = s")
  case True
  then show ?thesis by (intro exI [of _ "auth_counters (working s)"]) simp
next
  case False
  with assms show ?thesis by (auto simp: load_counter_def delete_counters_def split: option.splits if_splits)
qed

lemma mfa_limit_frame:
  assumes "enforce_customer_mfa_failure_limit e u p l b s = (Inr x, t)"
  shows "\<exists>cs. t = s\<lparr>working := (working s)\<lparr>auth_counters := cs\<rparr>\<rparr>"
proof -
  have h: "raises (case err of DurableRateLimitExceeded retry_after \<Rightarrow>
            bindA (condA b (audit_event e ''mfa_login_verify'' ''blocked'' (Some (u_id u))
              [(''reason'', JStr ''wrong_code_threshold_exceeded''), (''retry_after'', JInt retry_after)] None)) (\<lambda>_.
            raise (AuthError generic_mfa_error 429 (Some retry_after))) | _ \<Rightarrow> raise err)" for err
    by (cases err) (auto intro!: raises_bindA)
  from assms obtain c where "load_counter e ''customer_mfa_login'' p s = (Inr c, t)"
    unfolding enforce_customer_mfa_failure_limit_def try_catch_raises [OF h]
    by (auto simp: enforce_durable_failure_limit_def bindA_eq_Inr split: if_splits option.splits)
  then show ?thesis by (rule load_counter_frame)
qed

lemma clear_security_codes:
  "clear_user_security_failures e uid sc s = (Inr x, t) \<Longrightarrow> recovery_codes (working t) = recovery_codes (working s)"
  by (cases rule: commitA_cases [of "s\<lparr>working := delete_counters (security_counter e uid sc) (working s)\<rparr>"])
     (auto simp: clear_user_security_failures_def delete_counters_def split: option.splits)

lemma clear_failures_codes:
  assumes "clear_failures e sc p s = (Inr x, t)"
  shows "recovery_codes (working t) = recovery_codes (working s)"
proof -
  from assms obtain c s1 where l: "load_counter e sc p s = (Inr c, s1)"
    and t: "t = s1 \<or> commitA (s1\<lparr>working := delete_counters (counter_key e sc p) (working s1)\<rparr>) = (Inr (), t)"
    by (auto simp: clear_failures_def bindA_eq_Inr split: option.splits)
  have "recovery_codes (working t) = recovery_codes (working s1)"
    using t by (cases rule: commitA_cases [of "s1\<lparr>working := delete_counters (counter_key e sc p) (working s1)\<rparr>"])
      (auto simp: delete_counters_def)
  with load_counter_frame [OF l] show ?thesis by auto
qed

lemma audit_required_codes:
  "audit_event_required e ty out uid md sid s = (Inr x, t) \<Longrightarrow> recovery_codes (working t) = recovery_codes (working s)"
  by (cases rule: audit_event_required_cases [of e ty out uid md sid s]) auto

text \<open>The stored digest a recovery code is looked up by, with its user and purpose.\<close>

definition recovery_key :: "env \<Rightarrow> int \<Rightarrow> string \<Rightarrow> int \<times> string \<times> string" where
  "recovery_key e uid code = (uid, recovery_purpose_totp, recovery_code_hmac e uid recovery_purpose_totp code)"

lemma code_spent_login_free: "login_free (code_spent k)"
  using code_spent_recovery_free [of k]
  by (auto simp: login_free_def auth_free_def sessions_free_def counters_free_def auth_users_free_def replays_free_def code_spent_def
      add_replay_record_def intro!: keeps_auditI)

text \<open>
  The second factor in the state \<open>s\<close> in which it is checked: a code of six digits is accepted by the authenticator check, any other text
  matches a stored recovery code of the user that was not used before.
\<close>

definition factor_accepted :: "env \<Rightarrow> user \<Rightarrow> string \<Rightarrow> world \<Rightarrow> bool" where
  "factor_accepted e u code s \<longleftrightarrow>
     (if is_totp_code code then \<exists>t. verify_totp_for_user_outcome e u code ''mfa_login'' None False s = (Inr TOTP_VALID, t)
      else \<exists>q \<in> set (recovery_codes (working s)). usable_code e (u_id u) recovery_purpose_totp code q)"

lemma preserves_used_notification:
  "keeps_audit e P \<Longrightarrow> preserves (both P) (send_mfa_recovery_code_used_notification e u)"
  unfolding send_mfa_recovery_code_used_notification_def send_recovery_code_used_notification_def by (intro preserves_rules)

lemma pending_code_accepted:
  assumes "verify_pending_login_authentication_code e u code s = (Inr factor, t)"
  shows "factor_accepted e u code s \<and> (\<not> is_totp_code code \<longrightarrow> both (code_spent (recovery_key e (u_id u) code)) t)"
proof (cases "is_totp_code code")
  case True
  with assms show ?thesis
    by (auto simp: verify_pending_login_authentication_code_def factor_accepted_def bindA_eq_Inr split: totp_outcome.splits)
       (metis totp_outcome.exhaust)
next
  case False
  let ?k = "recovery_key e (u_id u) code"
  from assms False obtain s1 s2 n s3 s4 where
    1: "consume_recovery_code e u code recovery_purpose_totp False s = (Inr True, s1)"
    and 2: "clear_user_security_failures e (u_id u) ''mfa'' s1 = (Inr (), s2)"
    and 3: "audit_event_required e ''mfa_recovery_code_verify'' ''success'' (Some (u_id u)) [(''remaining_codes'', JInt n)] None s2 = (Inr (), s3)"
    and 4: "commitA s3 = (Inr (), s4)" and 5: "send_mfa_recovery_code_used_notification e u s4 = (Inr (), t)"
    by (auto simp: verify_pending_login_authentication_code_def bindA_eq_Inr split: if_splits)
  from 1 obtain q where q: "q \<in> set (recovery_codes (working s))" "usable_code e (u_id u) recovery_purpose_totp code q"
    and m: "map rc_code_hmac (recovery_codes (working s1)) = map rc_code_hmac (recovery_codes (working s))"
    and sp: "distinct (map rc_code_hmac (recovery_codes (working s))) \<Longrightarrow> code_spent ?k (working s1)"
    unfolding recovery_key_def by (elim consumed_code) blast
  have "recovery_codes (working s3) = recovery_codes (working s1)"
    using clear_security_codes [OF 2] audit_required_codes [OF 3] by simp
  then have "both (code_spent ?k) s4"
    by (intro commit_spends [OF 4]) (use sp m in \<open>simp add: code_spent_def\<close>)
  then have "both (code_spent ?k) t"
    using preservesD' [OF preserves_used_notification [OF login_freeD(7) [OF code_spent_login_free]] 5] by blast
  with q False show ?thesis by (auto simp: factor_accepted_def)
qed

lemma finished_login:
  assumes "finish_mfa_login e u factor s = (Inr r, t)"
  shows "ml_user r = u \<and> sess_get (web t) ''user_id'' = JInt (u_id u)"
proof -
  from assms obtain s1 sid s2 s3 where
    1: "establish_authenticated_session e (u_id u) True ''password+mfa_bootstrap'' s1 = (Inr sid, s2)"
    and 2: "audit_event e ''mfa_login_verify'' ''success'' (Some (u_id u)) [(''factor'', JStr factor)] (Some sid) s2 = (Inr (), t)"
    and r: "ml_user r = u"
    by (auto simp: finish_mfa_login_def bindA_eq_Inr)
  from key_kept [OF preserves_on_web_audit_event 2 established_session_user [OF 1]] r show ?thesis by blast
qed

lemma preserves_finish_login [preserves_rules]: "login_free P \<Longrightarrow> preserves (both P) (finish_mfa_login e u f)"
  unfolding finish_mfa_login_def
  by (intro preserves_rules preserves_update_users login_freeD; (assumption | simp add: account_part_def))

lemma second_step:
  assumes "complete_pending_mfa e code s = (Inr r, t)"
  shows "\<exists>uid u s1. json_int (sess_get (web s) ''pending_mfa_user_id'') = Some uid \<and> user_by_id (working s) uid = Some u
    \<and> u_mfa_enabled u \<and> \<not> u_is_frozen u \<and> u_security_locked_at u = None
    \<and> enforce_customer_mfa_failure_limit e u (customer_mfa_failure_principal e uid) (cfg_mfa_failure_limit (cfg e)) True s = (Inr (), s1)
    \<and> (\<exists>cs. s1 = s\<lparr>working := (working s)\<lparr>auth_counters := cs\<rparr>\<rparr>)
    \<and> factor_accepted e u code s1
    \<and> (\<not> is_totp_code code \<longrightarrow> both (code_spent (recovery_key e uid code)) t)
    \<and> ml_user r = u \<and> sess_get (web t) ''user_id'' = JInt uid"
proof -
  from assms obtain uid u s0 s1 s2 factor where
    p: "json_int (sess_get (web s) ''pending_mfa_user_id'') = Some uid" "user_by_id (working s) uid = Some u" "u_mfa_enabled u"
    and 0: "ensure_account_can_authenticate e u s = (Inr (), s0)"
    and 1: "enforce_customer_mfa_failure_limit e u (customer_mfa_failure_principal e uid) (cfg_mfa_failure_limit (cfg e)) True s0 = (Inr (), s1)"
    and 2: "verify_pending_login_authentication_code e u code s1 = (Inr factor, s2)"
    and 3: "finish_mfa_login e u factor s2 = (Inr r, t)"
    by (auto simp: complete_pending_mfa_def bindA_eq_Inr split: option.splits if_splits)
  have u: "u_id u = uid" using user_by_id_member [OF p(2)] by simp
  have "both (code_spent k) s2 \<Longrightarrow> both (code_spent k) t" for k
    using preservesD' [OF preserves_finish_login [OF code_spent_login_free] 3] by blast
  with account_can_authenticate [OF 0] 1 mfa_limit_frame [OF 1] pending_code_accepted [OF 2] finished_login [OF 3] p u
  show ?thesis by auto
qed

subsection \<open>A code that is accepted\<close>

text \<open>Without counted failures, a right code that was not used before is accepted, and its use recorded.\<close>

lemma no_counters [simp]:
  "auth_counters (working s) = [] \<Longrightarrow> load_counter e sc p s = (Inr None, s)"
  "auth_counters (working s) = [] \<Longrightarrow> clear_failures e sc p s = (Inr (), s)"
  "auth_counters (working s) = [] \<Longrightarrow> clear_user_security_failures e uid sc s = (Inr (), s)"
  "auth_counters (working s) = [] \<Longrightarrow> enforce_auth_backoff e sc p s = (Inr (), s)"
proof -
  assume "auth_counters (working s) = []"
  then show l: "load_counter e sc p s = (Inr None, s)" by (simp add: load_counter_def find_counter_def)
  from l show "clear_failures e sc p s = (Inr (), s)" by (simp add: clear_failures_def)
  from l show "enforce_auth_backoff e sc p s = (Inr (), s)"
    by (simp add: enforce_auth_backoff_def apply_exponential_backoff_def try_catch_def backoff_start_attempts_def)
  show "clear_user_security_failures e uid sc s = (Inr (), s)"
    using \<open>auth_counters (working s) = []\<close> by (simp add: clear_user_security_failures_def)
qed

lemma verify_accepts_run:
  fixes scope code
  defines "window \<equiv> \<lambda>e. totp_valid_window e scope None"
  defines "used \<equiv> \<lambda>e u step. add_replay_record e (u_id u) (totp_replay_scope scope) step
     (totp_code_digest e (u_id u) (totp_replay_scope scope) step code) (replay_ttl (totp_valid_window e scope None))"
  assumes "mfa_secret_for_user e u s = (Inr secret, s)" and "six_digits code"
    and "accepted_totp_step e secret code (now_s e) (window e) = Some step"
    and "auth_counters (working s) = []" and "storable (used e u step (working s))"
  shows "verify_totp_for_user_outcome e u code scope None track s = bindA (mark_fresh_mfa e) (\<lambda>_. ret TOTP_VALID)
    (s\<lparr>working := used e u step (working s), committed := used e u step (working s)\<rparr>)"
proof -
  let ?s1 = "s\<lparr>working := used e u step (working s), committed := used e u step (working s)\<rparr>"
  have "auth_counters (working ?s1) = []" using assms(6) by (simp add: used_def add_replay_record_def)
  then have tail: "bindA (condA track (clear_failures e scope (int_str (u_id u)))) (\<lambda>_.
      bindA (clear_user_security_failures e (u_id u) ''mfa'') (\<lambda>_. bindA (mark_fresh_mfa e) (\<lambda>_. ret TOTP_VALID))) ?s1 =
      bindA (mark_fresh_mfa e) (\<lambda>_. ret TOTP_VALID) ?s1"
    by (cases track) simp_all
  have c: "commitA (s\<lparr>working := used e u step (working s)\<rparr>) = (Inr (), ?s1)" using assms(7) by (simp add: commitA_ok)
  have "accept_totp_step e u code scope None track step s = bindA (mark_fresh_mfa e) (\<lambda>_. ret TOTP_VALID) ?s1"
    using c tail by (simp add: accept_totp_step_def Let_def used_def try_catch_def)
  moreover have "verify_totp_for_user_outcome e u code scope None track s = accept_totp_step e u code scope None track step s"
    using assms(3-6) by (cases track) (simp_all add: verify_totp_for_user_outcome_def verify_totp_secret_for_user_outcome_def Let_def
        window_def try_catch_def)
  ultimately show ?thesis by simp
qed

lemma verify_accepts:
  fixes scope code
  defines "used \<equiv> \<lambda>e u step. add_replay_record e (u_id u) (totp_replay_scope scope) step
     (totp_code_digest e (u_id u) (totp_replay_scope scope) step code) (replay_ttl (totp_valid_window e scope None))"
  assumes "mfa_secret_for_user e u s = (Inr secret, s)" and "six_digits code"
    and "accepted_totp_step e secret code (now_s e) (totp_valid_window e scope None) = Some step"
    and "auth_counters (working s) = []" and "storable (used e u step (working s))"
  shows "\<exists>t. verify_totp_for_user_outcome e u code scope None track s = (Inr TOTP_VALID, t)
    \<and> committed t = used e u step (working s) \<and> working t = used e u step (working s)"
  using verify_accepts_run [OF assms(2-5) assms(6) [unfolded used_def], of track] by (simp add: mark_fresh_mfa_def webA_def used_def)

lemma begin_session_returns: "\<exists>t. begin_password_authenticated_session e uid s = (Inr (), t)"
proof -
  have r: "\<exists>t. end_session_id e sid reason s = (Inr (), t)" for sid reason s
    by (simp add: end_session_id_def split: option.split)
  have "\<exists>t. rotate_session_id e s = (Inr (), t)" for s
    using r by (auto simp: rotate_session_id_def condA_def bindA_def webA_def split: prod.splits sum.splits) (metis Inl_Inr_False fst_conv)+
  then show ?thesis by (simp add: begin_password_authenticated_session_def webA_def)
qed

lemma audit_event_returns: "\<exists>t. audit_event e ty out uid md sid s = (Inr (), t)"
  by (cases rule: audit_event_cases [of e s ty out uid md sid]) auto

lemma login_challenged:
  assumes "filter (matches_identifier (normalize_text ident)) (users (working s)) = [u]" and "auth_counters (working s) = []"
    and "is_customer u" and "customer_password_matches e (Some u) password" and "\<not> u_is_frozen u" and "u_security_locked_at u = None"
    and "u_mfa_enabled u" and "\<not> password_hash_needs_rehash e (u_password_hash u)" and "storable (working s)"
  shows "\<exists>t. authenticate_primary e ident password s = (Inr MfaVerificationRequired, t)"
proof -
  have f: "find_user_by_identifier ident s = (Inr (Some u), s)"
    using assms(1) by (simp add: find_user_by_identifier_def scalar_one_or_none_def)
  have b: "enforce_auth_backoff e ''login'' (auth_principal e ident) s = (Inr (), s)" using assms(2) by simp
  have v: "validate_customer_primary_credentials e (Some u) ident password p s = (Inr u, s)" for p
    using assms(3,4) by (simp add: validate_customer_primary_credentials_def Let_def)
  have a: "enforce_customer_login_account_state e u s = (Inr (), s)"
    using assms(5,6) by (simp add: enforce_customer_login_account_state_def)
  let ?s = "s\<lparr>committed := working s\<rparr>"
  have c: "commitA s = (Inr (), ?s)" using assms(9) by (simp add: commitA_ok)
  have cl: "clear_failures e sc p ?s = (Inr (), ?s)" for sc p using assms(2) by simp
  obtain s1 where s1: "begin_password_authenticated_session e (u_id u) ?s = (Inr (), s1)" using begin_session_returns by blast
  obtain s2 where s2: "audit_event e ''login_password'' ''success'' (Some (u_id u)) [(''mfa_required'', JBool True)] None s1 = (Inr (), s2)"
    using audit_event_returns by blast
  have "start_mfa_challenge e u ?s = (Inr MfaVerificationRequired, s2)"
    using cl s1 s2 by (simp add: start_mfa_challenge_def)
  then show ?thesis
    using f b v a c assms(7,8) by (simp add: authenticate_primary_def rehash_if_needed_def)
qed

subsection \<open>Properties\<close>

text \<open>
  C23. The password step of a login. When \<^verbatim>\<open>authenticate_primary\<close> returns, exactly one account has the given username or e-mail
  address, it is a customer account whose stored hash the password matches, and it is neither frozen nor locked. A customer with an
  authenticator gets a session that is only waiting for the second factor: no user is logged in. Only a customer who has not enrolled one
  is logged in by the password alone, to enrol.
\<close>

theorem password_step_safe:
  assumes "authenticate_primary e identifier password s = (Inr result, t)"
  shows "\<exists>u. filter (matches_identifier (normalize_text identifier)) (users (working s)) = [u] \<and> is_customer u
    \<and> verify_password e password (u_password_hash u) \<and> \<not> u_is_frozen u \<and> u_security_locked_at u = None
    \<and> (case result of
         MfaVerificationRequired \<Rightarrow> u_mfa_enabled u \<and> sess_get (web t) ''user_id'' = JNull
           \<and> sess_get (web t) ''pending_mfa_user_id'' = JInt (u_id u)
       | MfaSetupRequired _ \<Rightarrow> \<not> u_mfa_enabled u \<and> sess_get (web t) ''user_id'' = JInt (u_id u))"
proof -
  from assms obtain found s1 u s2 s3 s4 y s5 s6 where
    1: "find_user_by_identifier identifier s = (Inr found, s1)"
    and 2: "validate_customer_primary_credentials e found identifier password (auth_principal e identifier) s2 = (Inr u, s3)"
    and 3: "enforce_customer_login_account_state e u s4 = (Inr y, s5)"
    and 4: "(if u_mfa_enabled u then start_mfa_challenge e u else start_bootstrap_session e u (auth_principal e identifier)) s6 = (Inr result, t)"
    unfolding authenticate_primary_def bindA_eq_Inr by blast
  note v = validated_credentials [OF 2] login_state_allowed [OF 3]
  from 1 v have "filter (matches_identifier (normalize_text identifier)) (users (working s)) = [u]"
    by (auto simp: find_user_by_identifier_def scalar_one_or_none_def split: list.splits)
  with v 4 challenge_session bootstrap_session show ?thesis
    by (cases "u_mfa_enabled u") (fastforce split: login_result.splits)+
qed

text \<open>
  C24. The second step of a login. When \<^verbatim>\<open>complete_pending_mfa\<close> returns, the session was waiting for the second factor of an account that
  exists, has an authenticator and is neither frozen nor locked, the limit on wrong codes let the attempt pass (which changes failure
  counters at most), and in the state it left the code was accepted: a code of six digits by the authenticator check, any other text as a
  stored recovery code of this user that was not used before. A recovery code is then used, in the committed database too. The session
  belongs to that account.
\<close>

theorem second_step_safe:
  assumes "complete_pending_mfa e code s = (Inr r, t)"
  shows "\<exists>uid u s1. json_int (sess_get (web s) ''pending_mfa_user_id'') = Some uid \<and> user_by_id (working s) uid = Some u
    \<and> u_mfa_enabled u \<and> \<not> u_is_frozen u \<and> u_security_locked_at u = None
    \<and> enforce_customer_mfa_failure_limit e u (customer_mfa_failure_principal e uid) (cfg_mfa_failure_limit (cfg e)) True s = (Inr (), s1)
    \<and> (\<exists>cs. s1 = s\<lparr>working := (working s)\<lparr>auth_counters := cs\<rparr>\<rparr>)
    \<and> factor_accepted e u code s1
    \<and> (\<not> is_totp_code code \<longrightarrow> both (code_spent (recovery_key e uid code)) t)
    \<and> ml_user r = u \<and> sess_get (web t) ''user_id'' = JInt uid"
  using assms by (rule second_step)

subsection \<open>Examples\<close>

definition login_hash :: string where
  "login_hash = (case hash_password password_env ''salt'' ''open sesame'' of Some h \<Rightarrow> h | None \<Rightarrow> [])"

definition login_user :: user where
  "login_user = alice\<lparr>u_password_hash := login_hash\<rparr>"

lemma login_hash_accepts: "verify_password password_env ''open sesame'' login_hash" "\<not> password_hash_needs_rehash password_env login_hash"
proof -
  have h: "hash_password password_env ''salt'' ''open sesame'' = Some login_hash"
    by (simp add: login_hash_def hash_password_def pbkdf2_digest_def is_password_raw_length_safe_def password_env_def sample_env_def
        sample_cfg_def Let_def)
  have m: "minimum_iterations \<le> cfg_pbkdf2_iterations (cfg password_env)"
    by (simp add: minimum_iterations_def password_env_def sample_env_def sample_cfg_def)
  from hash_password_verified [OF password_library_env m h, of "''open sesame''" password_env]
  show "verify_password password_env ''open sesame'' login_hash" "\<not> password_hash_needs_rehash password_env login_hash" by simp_all
qed

definition login_world :: world where
  "login_world = fresh_world (empty_db\<lparr>users := [login_user]\<rparr>)"

lemma login_example: "\<exists>t. authenticate_primary password_env ''Alice'' ''open sesame'' login_world = (Inr MfaVerificationRequired, t)"
proof (rule login_challenged [where u = login_user])
  have "matches_identifier (normalize_text ''Alice'') (alice\<lparr>u_password_hash := h\<rparr>)" for h by code_simp
  then show "filter (matches_identifier (normalize_text ''Alice'')) (users (working login_world)) = [login_user]"
    by (simp add: login_world_def fresh_world_def login_user_def)
  show "customer_password_matches password_env (Some login_user) ''open sesame''"
    using login_hash_accepts by (simp add: customer_password_matches_def login_user_def is_password_raw_length_safe_def
        password_env_def sample_env_def sample_cfg_def)
  show "\<not> password_hash_needs_rehash password_env (u_password_hash login_user)"
    using login_hash_accepts by (simp add: login_user_def)
  have "storable (empty_db\<lparr>users := [alice\<lparr>u_password_hash := h\<rparr>]\<rparr>)" for h by code_simp
  then show "storable (working login_world)" by (simp add: login_world_def fresh_world_def login_user_def)
qed (simp_all add: login_world_def fresh_world_def login_user_def is_customer_def alice_def sample_user_def empty_db_def)

theorem password_step_safe_witness:
  "\<exists>t. authenticate_primary password_env ''Alice'' ''open sesame'' login_world = (Inr MfaVerificationRequired, t)
     \<and> sess_get (web t) ''user_id'' = JNull"
  using login_example password_step_safe [of password_env "''Alice''" "''open sesame''" login_world MfaVerificationRequired] by fastforce

text \<open>With no other session stored, nothing stands in the way of a new one.\<close>

lemma server_sessions_expire: "length (server_sessions (expire_stale_sessions e uid db)) = length (server_sessions db)"
  "map ss_id (server_sessions (expire_stale_sessions e uid db)) = map ss_id (server_sessions db)"
  by (simp_all add: expire_stale_sessions_def update_session_where_def end_session_record_def map_upd_where_frame)

lemma one_candidate:
  assumes "length (server_sessions db) \<le> 1"
  shows "length (cap_candidates e uid w (sort_key f (filter (active_session e uid c) (server_sessions db))) (expire_stale_sessions e uid db)) \<le> 1"
proof (cases "server_sessions db")
  case Nil
  then have "server_sessions (expire_stale_sessions e uid db) = []"
    using server_sessions_expire(1) [of e uid db] by simp
  then show ?thesis
    by (simp add: cap_candidates_def Let_def session_record_for_sid_def session_record_for_lookup_hash_def Nil)
next
  case (Cons r rs)
  then have r: "server_sessions db = [r]" using assms by simp
  have ids: "ss_id q = ss_id r" if "session_record_for_sid e i (expire_stale_sessions e uid db) = Some q" for q i
  proof -
    have "q \<in> set (server_sessions (expire_stale_sessions e uid db))"
      using that by (auto simp: session_record_for_sid_def dest: record_for_hash_member)
    then have "ss_id q \<in> set (map ss_id (server_sessions db))"
      unfolding server_sessions_expire(2) [of e uid db, symmetric] by simp
    then show ?thesis by (simp add: r)
  qed
  show ?thesis using ids by (auto simp: cap_candidates_def Let_def r split: option.split)
qed

lemma few_sessions_cap:
  assumes "length (server_sessions (working s)) \<le> 1"
  shows "\<exists>t. enforce_active_session_cap e uid s = (Inr 0, t)"
proof -
  define cs where "cs = cap_candidates e uid (web s) (sort_key (\<lambda>r. (- ss_created_at r, - ss_id r))
     (filter (active_session e uid (session_component e)) (server_sessions (working s)))) (expire_stale_sessions e uid (working s))"
  have "drop configured_active_session_cap cs = []"
    using one_candidate [OF assms, of e uid "web s"] by (simp add: cs_def configured_active_session_cap_def)
  then show ?thesis by (simp add: enforce_cap_eq Let_def flip: cs_def)
qed

lemma establish_returns:
  assumes "server_sessions (working s) = []"
  shows "\<exists>sid t. establish_authenticated_session e uid m c s = (Inr sid, t)"
proof -
  have end_id: "end_session_id e sid r s' = (Inr (), s')" if "server_sessions (working s') = []" for sid r s'
    using that by (simp add: end_session_id_def session_record_for_sid_def session_record_for_lookup_hash_def)
  have rot: "\<exists>s2. rotate_session_id e s' = (Inr (), s2) \<and> server_sessions (working s2) = []" if "server_sessions (working s') = []" for s'
    using that end_id [OF that] by (simp add: rotate_session_id_def condA_def webA_def)
  have fresh: "\<exists>s2. refresh_session_risk_fingerprint e s' = (Inr (), s2) \<and> server_sessions (working s2) = []"
    if "server_sessions (working s') = []" for s'
    using that by (simp add: refresh_session_risk_fingerprint_def update_current_record_def webA_def Let_def session_record_for_sid_def
        session_record_for_lookup_hash_def)
  have reg: "\<exists>s2. register_session_metadata e uid l s' = (Inr (), s2) \<and> length (server_sessions (working s2)) \<le> 1"
    if "server_sessions (working s') = []" for s' l
    using that by (simp add: register_session_metadata_def Let_def upsert_session_def session_record_for_lookup_hash_def)
  show ?thesis
  proof -
    let ?f = "(if m then \<lambda>w. sess_set ''fresh_mfa_verified_at'' (JInt (now_s e)) (sess_set ''mfa_verified_at'' (JInt (now_s e)) w) else (\<lambda>w. w))
        \<circ> sess_set ''last_activity_at'' (JInt (now_s e)) \<circ> sess_set ''auth_created_at'' (JInt (now_s e))
        \<circ> sess_set ''login_at'' (JStr (utc_iso (now e))) \<circ> sess_set ''auth_context'' (JStr c)
        \<circ> sess_set ''user_id'' (JInt uid) \<circ> set_permanent \<circ> sess_clear"
    obtain s2 where s2: "rotate_session_id e (s\<lparr>web := ?f (web s)\<rparr>) = (Inr (), s2)" "server_sessions (working s2) = []"
      using rot [of "s\<lparr>web := ?f (web s)\<rparr>"] assms by auto
    obtain s3 where s3: "refresh_session_risk_fingerprint e s2 = (Inr (), s3)" "server_sessions (working s3) = []"
      using fresh [OF s2(2)] by blast
    obtain s4 where s4: "register_session_metadata e uid (utc_iso (now e)) s3 = (Inr (), s4)" "length (server_sessions (working s4)) \<le> 1"
      using reg [OF s3(2)] by blast
    obtain s5 where s5: "enforce_active_session_cap e uid s4 = (Inr 0, s5)" using few_sessions_cap [OF s4(2)] by blast
    show ?thesis
      using s2 s3 s4 s5 by (cases m) (simp_all add: establish_authenticated_session_def Let_def comp_def)
  qed
qed

text \<open>An authenticator whose secret decrypts, and the code of its current step.\<close>

definition code_env :: env where
  "code_env = sample_env64\<lparr>json_loads := (\<lambda>_. Some (JObj (mfa_envelope ''kek1'' ''w'' ''n'' ''c'' ''m''))),
     aead_decrypt := (\<lambda>_ _ _ _. Some ''SECRET'')\<rparr>"

definition code_user :: user where
  "code_user = alice\<lparr>u_mfa_secret_nonce := Some envelope_nonce_marker, u_mfa_secret_ciphertext := Some ''envelope''\<rparr>"

lemma code_user_fields [simp]: "u_id code_user = 1" "u_mfa_enabled code_user" "\<not> u_is_frozen code_user" "u_security_locked_at code_user = None"
  "u_security_lock_reason code_user = None" "u_account_type code_user = ''customer''" "u_account_status code_user = ''active''"
  by (simp_all add: code_user_def alice_def sample_user_def)

lemma code_env_fields [simp]: "now code_env = now sample_env" "cfg code_env = sample_cfg" "totp_at code_env = (\<lambda>_ _. ''000042'')"
  "has_request code_env" "audit_store_ok code_env" "new_uuid code_env = ''u-1''" "hmac_sha256 code_env = (\<lambda>_ _. replicate 64 (CHR ''a''))"
  by (simp_all add: code_env_def sample_env64_def sample_env_def)

lemma code_secret: "mfa_secret_for_user code_env code_user s = (Inr ''SECRET'', s)"
proof -
  have "decrypt_mfa_secret code_env envelope_nonce_marker ''envelope'' 1 s = (Inr ''SECRET'', s)"
    by (rule decrypt_holds [where kvs = "mfa_envelope ''kek1'' ''w'' ''n'' ''c'' ''m''" and kid = "''kek1''" and dek = "''SECRET''"
          and key = "replicate 32 (CHR ''E'')"])
       (simp_all add: code_env_def sample_env64_def sample_env_def sample_cfg_def holds_secret_def wraps_dek_def mfa_envelope_def
          envelope_fields_def envelope_version_def envelope_algorithm_def jget_def insert_commute)
  then show ?thesis by (simp add: mfa_secret_for_user_def) (simp add: code_user_def envelope_nonce_marker_def alice_def sample_user_def)
qed

lemma code_step:
  "\<exists>step. accepted_totp_step code_env ''SECRET'' ''000042'' (now_s code_env) (totp_valid_window code_env scope None) = Some step"
proof -
  have "accepted_totp_step code_env ''SECRET'' ''000042'' (now_s code_env) w = Some (now_s code_env div 30 - w)" if "w \<in> {0, 1}" for w
    using that by (auto simp: accepted_totp_step_def now_s_def sample_env_def second_us_def upto_rec1)
  moreover have "totp_valid_window code_env scope None \<in> {0, 1}"
    by (simp add: totp_valid_window_def sample_cfg_def)
  ultimately show ?thesis by blast
qed

lemma storable_used:
  "storable (add_replay_record code_env 1 sc st d ttl (empty_db\<lparr>users := [code_user], topup_requests := rs\<rparr>)) \<longleftrightarrow>
   storable (empty_db\<lparr>users := [code_user], topup_requests := rs\<rparr>)"
  by (simp add: add_replay_record_def storable_def numerics_ok_def constraints_ok_def empty_db_def)

lemma code_accepted:
  assumes "working s = empty_db\<lparr>users := [code_user], topup_requests := rs\<rparr>" and "storable (working s)"
  shows "\<exists>t sc st d ttl. verify_totp_for_user_outcome code_env code_user ''000042'' scope None track s = (Inr TOTP_VALID, t)
    \<and> working t = add_replay_record code_env 1 sc st d ttl (working s) \<and> committed t = working t"
proof -
  obtain step where step: "accepted_totp_step code_env ''SECRET'' ''000042'' (now_s code_env) (totp_valid_window code_env scope None) = Some step"
    using code_step by blast
  have "six_digits ''000042''" by code_simp
  with verify_accepts [OF code_secret, of "''000042''" scope step s track] step assms storable_used
  show ?thesis by (fastforce simp: empty_db_def)
qed

lemma code_accepted_web:
  assumes "working s = empty_db\<lparr>users := [code_user], topup_requests := rs\<rparr>" and "storable (working s)"
    and "verify_totp_for_user_outcome code_env code_user ''000042'' scope None track s = (Inr TOTP_VALID, t)"
  shows "sess_get (web t) ''user_id'' = sess_get (web s) ''user_id''"
proof -
  obtain step where step: "accepted_totp_step code_env ''SECRET'' ''000042'' (now_s code_env) (totp_valid_window code_env scope None) = Some step"
    using code_step by blast
  have "six_digits ''000042''" by code_simp
  with verify_accepts_run [OF code_secret, of "''000042''" scope step s track] step assms storable_used
  have "web t = (sess_set ''last_activity_at'' (JInt (now_s code_env)) \<circ> sess_set ''fresh_mfa_verified_at'' (JInt (now_s code_env))
     \<circ> sess_set ''mfa_verified_at'' (JInt (now_s code_env))) (web s)"
    by (auto simp: mark_fresh_mfa_def webA_def empty_db_def)
  then show ?thesis by simp
qed

definition pending_world :: world where
  "pending_world = (fresh_world (empty_db\<lparr>users := [code_user]\<rparr>))\<lparr>web := \<lparr>ws_sid = ''sid'', ws_data = [(''pending_mfa_user_id'', JInt 1)], ws_modified = False\<rparr>\<rparr>"

lemma storable_code_user: "storable (empty_db\<lparr>users := [code_user], topup_requests := []\<rparr>)"
proof -
  have "storable (empty_db\<lparr>users := [alice\<lparr>u_mfa_secret_nonce := x, u_mfa_secret_ciphertext := y\<rparr>], topup_requests := []\<rparr>)" for x y by code_simp
  then show ?thesis by (simp add: code_user_def)
qed

text \<open>What is left of a login once its code is accepted.\<close>

lemma finish_login_returns:
  defines "f \<equiv> \<lambda>e u. update_user (u_id u) (\<lambda>v. v\<lparr>u_last_login_at := Some (now e), u_failed_login_count := 0\<rparr>)"
  assumes "storable (f e u (working s))" and "auth_counters (working s) = []" and "server_sessions (working s) = []"
  shows "\<exists>r t. finish_mfa_login e u factor s = (Inr r, t)"
proof -
  let ?s = "s\<lparr>working := f e u (working s), committed := f e u (working s)\<rparr>"
  have c: "commitA (s\<lparr>working := f e u (working s)\<rparr>) = (Inr (), ?s)" using assms(2) by (simp add: commitA_ok)
  have none: "auth_counters (working ?s) = []" "server_sessions (working ?s) = []"
    using assms(3,4) by (simp_all add: f_def update_users_def)
  obtain sid s1 where s1: "establish_authenticated_session e (u_id u) True ''password+mfa_bootstrap'' ?s = (Inr sid, s1)"
    using establish_returns [OF none(2)] by blast
  obtain s2 where s2: "audit_event e ''mfa_login_verify'' ''success'' (Some (u_id u)) [(''factor'', JStr factor)] (Some sid) s1 = (Inr (), s2)"
    using audit_event_returns by blast
  show ?thesis using c none s1 s2 by (simp add: finish_mfa_login_def f_def)
qed

lemma code_step_returns:
  assumes "sess_get (web s) ''pending_mfa_user_id'' = JInt 1" and "user_by_id (working s) 1 = Some code_user"
    and "auth_counters (working s) = []"
    and "verify_pending_login_authentication_code code_env code_user code s = (Inr factor, s1)"
    and "finish_mfa_login code_env code_user factor s1 = (Inr r, t)"
  shows "complete_pending_mfa code_env code s = (Inr r, t)"
proof -
  have "enforce_customer_mfa_failure_limit code_env code_user p (cfg_mfa_failure_limit (cfg code_env)) True s = (Inr (), s)" for p
    using assms(3) by (simp add: enforce_customer_mfa_failure_limit_def try_catch_def enforce_durable_failure_limit_def sample_cfg_def)
  with assms show ?thesis by (simp add: complete_pending_mfa_def json_int_def ensure_account_can_authenticate_def)
qed

lemma storable_after_login:
  "storable (update_user 1 (\<lambda>v. v\<lparr>u_last_login_at := Some (now code_env), u_failed_login_count := 0\<rparr>) (empty_db\<lparr>users := [code_user]\<rparr>))"
proof -
  have "storable (update_user 1 (\<lambda>v. v\<lparr>u_last_login_at := Some (now code_env), u_failed_login_count := 0\<rparr>)
      (empty_db\<lparr>users := [alice\<lparr>u_mfa_secret_nonce := x, u_mfa_secret_ciphertext := y\<rparr>]\<rparr>))" for x y
    by code_simp
  then show ?thesis by (simp add: code_user_def)
qed

lemma second_step_example: "\<exists>r t. complete_pending_mfa code_env ''000042'' pending_world = (Inr r, t)"
proof -
  let ?s = pending_world
  have w: "working ?s = empty_db\<lparr>users := [code_user], topup_requests := []\<rparr>" by (simp add: pending_world_def fresh_world_def empty_db_def)
  have tc: "is_totp_code ''000042''" by code_simp
  obtain s1 sc st d ttl where s1: "verify_totp_for_user_outcome code_env code_user ''000042'' ''mfa_login'' None False ?s = (Inr TOTP_VALID, s1)"
    "working s1 = add_replay_record code_env 1 sc st d ttl (working ?s)"
    using code_accepted [OF w, of "''mfa_login''" False] storable_code_user w by auto
  have "\<exists>r t. finish_mfa_login code_env code_user ''totp'' s1 = (Inr r, t)"
    by (rule finish_login_returns)
       (use storable_after_login in \<open>simp_all add: s1(2) w add_replay_record_def storable_def numerics_ok_def constraints_ok_def
          empty_db_def update_users_def\<close>)
  moreover have "verify_pending_login_authentication_code code_env code_user ''000042'' ?s = (Inr ''totp'', s1)"
    using tc s1(1) by (simp add: verify_pending_login_authentication_code_def)
  ultimately show ?thesis
    using code_step_returns [of ?s "''000042''" "''totp''" s1]
    by (auto simp: w user_by_id_def empty_db_def) (auto simp: pending_world_def sess_get_def jget_def)
qed

text \<open>A user with one recovery code left.\<close>

definition stored_code :: recovery_code where
  "stored_code = \<lparr>rc_id = 1, rc_user_id = 1, rc_code_hmac = recovery_code_hmac code_env 1 recovery_purpose_totp ''ab12cd34-ef56ab78'',
     rc_hmac_version = 2, rc_purpose = recovery_purpose_totp, rc_created_at = 0, rc_used_at = None\<rparr>"

definition code_db :: database where
  "code_db = empty_db\<lparr>users := [code_user], recovery_codes := [stored_code]\<rparr>"

definition code_world :: world where
  "code_world = (fresh_world code_db)\<lparr>web := \<lparr>ws_sid = ''sid'', ws_data = [(''pending_mfa_user_id'', JInt 1)], ws_modified = False\<rparr>\<rparr>"

lemma storable_code_db:
  "storable (code_db\<lparr>recovery_codes := [c]\<rparr>)"
  "storable (update_user 1 (\<lambda>v. v\<lparr>u_last_login_at := Some (now code_env), u_failed_login_count := 0\<rparr>) (code_db\<lparr>recovery_codes := [c]\<rparr>))"
  using storable_code_user storable_after_login
  by (simp_all add: code_db_def storable_def numerics_ok_def constraints_ok_def empty_db_def update_users_def)

lemma recovery_step_example: "\<exists>r t. complete_pending_mfa code_env ''AB12CD34 EF56AB78'' code_world = (Inr r, t)"
proof -
  let ?s = code_world and ?c = "''AB12CD34 EF56AB78''"
  let ?db = "code_db\<lparr>recovery_codes := [stored_code\<lparr>rc_used_at := Some (now code_env)\<rparr>]\<rparr>"
  have w: "working ?s = code_db" "committed ?s = code_db" by (simp_all add: code_world_def fresh_world_def)
  have "normalize_recovery_code ?c = normalize_recovery_code ''ab12cd34-ef56ab78''" by code_simp
  then have "usable_code code_env 1 recovery_purpose_totp ?c stored_code"
    by (simp add: usable_code_def stored_code_def recovery_code_hmac_def recovery_message_def)
  then have 1: "consume_recovery_code code_env code_user ?c recovery_purpose_totp False ?s = (Inr True, ?s\<lparr>working := ?db\<rparr>)"
    by (simp add: consume_recovery_code_def w) (simp add: w code_db_def update_recovery_codes_def condA_def)
  obtain ev where 2: "audit_event_required code_env ''mfa_recovery_code_verify'' ''success'' (Some 1)
      [(''remaining_codes'', JInt (unused_recovery_code_count 1 recovery_purpose_totp ?db))] None (?s\<lparr>working := ?db\<rparr>)
      = (Inr (), ?s\<lparr>working := add_audit ev ?db\<rparr>)"
    using audit_event_required_ready [of code_env "''mfa_recovery_code_verify''" "''success''" "Some 1"
      "[(''remaining_codes'', JInt (unused_recovery_code_count 1 recovery_purpose_totp ?db))]" None "?s\<lparr>working := ?db\<rparr>"]
    by (auto simp: audit_ready_def sample_cfg_def)
  let ?s2 = "?s\<lparr>working := add_audit ev ?db, committed := add_audit ev ?db\<rparr>"
  have 3: "commitA (?s\<lparr>working := add_audit ev ?db\<rparr>) = (Inr (), ?s2)" using storable_code_db(1) by (simp add: commitA_ok)
  let ?s3 = "?s2\<lparr>outbox := outbox ?s2 @ [\<lparr>em_to = u_email code_user, em_subject = ''SITBank recovery code used''\<rparr>]\<rparr>"
  have 4: "send_mfa_recovery_code_used_notification code_env code_user ?s2 = (Inr (), ?s3)"
    by (simp add: send_mfa_recovery_code_used_notification_def send_recovery_code_used_notification_def send_security_email_def
        try_catch_def code_env_def sample_env64_def sample_env_def)
  have "\<not> is_totp_code ?c" by code_simp
  then have v: "verify_pending_login_authentication_code code_env code_user ?c ?s = (Inr ''recovery_code'', ?s3)"
    using 1 2 3 4 by (simp add: verify_pending_login_authentication_code_def code_db_def empty_db_def)
  have "\<exists>r t. finish_mfa_login code_env code_user ''recovery_code'' ?s3 = (Inr r, t)"
  proof (rule finish_login_returns)
    have "update_user 1 f (add_audit ev db) = add_audit ev (update_user 1 f db)" for f db by (simp add: update_users_def add_audit_def)
    then show "storable (update_user (u_id code_user) (\<lambda>v. v\<lparr>u_last_login_at := Some (now code_env), u_failed_login_count := 0\<rparr>) (working ?s3))"
      using storable_code_db(2) by simp
  qed (simp_all add: code_db_def empty_db_def)
  with v show ?thesis
    using code_step_returns [of ?s ?c, OF _ _ _ v]
    by (auto simp: w code_db_def user_by_id_def empty_db_def) (auto simp: code_world_def sess_get_def jget_def)
qed

theorem second_step_safe_witness:
  "\<exists>r t. complete_pending_mfa code_env ''AB12CD34 EF56AB78'' code_world = (Inr r, t) \<and> sess_get (web t) ''user_id'' = JInt 1
     \<and> code_spent (recovery_key code_env 1 ''AB12CD34 EF56AB78'') (committed t)"
proof -
  obtain r t where r: "complete_pending_mfa code_env ''AB12CD34 EF56AB78'' code_world = (Inr r, t)" using recovery_step_example by blast
  have "json_int (sess_get (web code_world) ''pending_mfa_user_id'') = Some 1"
    by (simp add: code_world_def sess_get_def jget_def json_int_def)
  moreover have "\<not> is_totp_code ''AB12CD34 EF56AB78''" by code_simp
  ultimately show ?thesis using second_step_safe [OF r] r by (auto simp: both_def)
qed

end
