(* ===== verification/Money.thy ===== *)
theory Money
  imports Transfers Login_Safety
begin

section \<open>What moves money\<close>

text \<open>
  The books of the bank read four things: the id, the balance and the two daily limits of every account, the transactions
  and the two kinds of credits. An operation that leaves them alone keeps every invariant of the books (\<open>money_only\<close>), whatever else it
  writes. The lemmas reduce the frame conditions of the authentication theories to this one.
\<close>

definition money_user :: "user \<Rightarrow> int \<times> cents \<times> cents \<times> cents" where
  "money_user u = (u_id u, u_balance u, u_payup_daily_limit u, u_local_transfer_daily_limit u)"

definition money_view :: "database \<Rightarrow> (int \<times> cents \<times> cents \<times> cents) list \<times> transaction list \<times> credit list \<times> credit list" where
  "money_view db = (map money_user (users db), transactions db, registration_credits db, topup_credits db)"

definition money_only :: "(database \<Rightarrow> bool) \<Rightarrow> bool" where
  "money_only P \<longleftrightarrow> (\<forall>db db'. money_view db' = money_view db \<longrightarrow> P db \<longrightarrow> P db')"

lemma money_onlyI: "(\<And>db db'. money_view db' = money_view db \<Longrightarrow> P db \<Longrightarrow> P db') \<Longrightarrow> money_only P"
  unfolding money_only_def by blast

lemma money_onlyD: "money_only P \<Longrightarrow> money_view db' = money_view db \<Longrightarrow> P db \<Longrightarrow> P db'"
  unfolding money_only_def by blast

lemma preserves_money_update:
  "(\<And>db. money_view (f db) = money_view db) \<Longrightarrow> money_only P \<Longrightarrow> preserves (both P) (updateA f)"
  by (rule preserves_both_updateA) (rule money_onlyD)

text \<open>Which tables the view does not read.\<close>

lemma money_view_frames [simp]:
  "money_view (add_audit ev db) = money_view db" "money_view (db\<lparr>server_sessions := ss\<rparr>) = money_view db"
  "money_view (db\<lparr>auth_counters := cs\<rparr>) = money_view db" "money_view (db\<lparr>totp_replays := rs\<rparr>) = money_view db"
  "money_view (db\<lparr>recovery_codes := cds\<rparr>) = money_view db" "money_view (db\<lparr>topup_requests := ts\<rparr>) = money_view db"
  "money_view (db\<lparr>payees := ps\<rparr>) = money_view db" "money_view (db\<lparr>pending_transfers := pts\<rparr>) = money_view db"
  "money_view (db\<lparr>payup_pending_transfers := pps\<rparr>) = money_view db" "money_view (db\<lparr>password_history := hs\<rparr>) = money_view db"
  "money_view (db\<lparr>reset_tokens := rts\<rparr>) = money_view db" "money_view (db\<lparr>reset_transactions := rxs\<rparr>) = money_view db"
  "money_view (db\<lparr>manual_recoveries := mrs\<rparr>) = money_view db" "money_view (db\<lparr>registration_otps := ros\<rparr>) = money_view db"
  "money_view (db\<lparr>circuit_breakers := cbs\<rparr>) = money_view db" "money_view (db\<lparr>admin_actions := aas\<rparr>) = money_view db"
  "money_view (db\<lparr>idempotency_rows := irs\<rparr>) = money_view db" "money_view (db\<lparr>disputes := ds\<rparr>) = money_view db"
  "money_view (db\<lparr>support_tickets := tks\<rparr>) = money_view db" "money_view (db\<lparr>known_devices := kds\<rparr>) = money_view db"
  "money_view (db\<lparr>person_links := pls\<rparr>) = money_view db" "money_view (db\<lparr>staff_invites := sis\<rparr>) = money_view db"
  "money_view (db\<lparr>alert_dedupes := ads\<rparr>) = money_view db"
  by (simp_all add: money_view_def add_audit_def)

lemma money_view_update_users:
  "(\<And>u. money_user (f u) = money_user u) \<Longrightarrow> money_view (update_users p f db) = money_view db"
  by (simp add: money_view_def update_users_def map_upd_where_frame)

lemma money_view_users: "map money_user us = map money_user (users db) \<Longrightarrow> money_view (db\<lparr>users := us\<rparr>) = money_view db"
  by (simp add: money_view_def)

lemma same_but_audit_money: "same_but_audit a b \<Longrightarrow> money_view b = money_view a"
proof -
  assume "same_but_audit a b"
  then have "money_view (a\<lparr>audit_rows := []\<rparr>) = money_view (b\<lparr>audit_rows := []\<rparr>)" by (simp add: same_but_audit_def)
  then show ?thesis by (simp add: money_view_def)
qed

subsection \<open>The frame conditions of the components\<close>

lemma money_only_frees:
  assumes "money_only P"
  shows "sessions_free P" "counters_free P" "auth_users_free P" "keeps_audit e P" "replays_free P" "recovery_free P" "password_free P"
proof -
  note D = money_onlyD [OF assms]
  show "sessions_free P" by (auto simp: sessions_free_def intro: D [rotated])
  show "counters_free P" by (auto simp: counters_free_def intro: D [rotated])
  show "auth_users_free P"
    unfolding auth_users_free_def
  proof (intro allI impI)
    fix db us assume "map account_part us = map account_part (users db)" "P db"
    moreover have "money_user (account_part u) = money_user u" for u by (simp add: money_user_def)
    ultimately show "P (db\<lparr>users := us\<rparr>)" by (metis D map_account_part money_view_users)
  qed
  show "keeps_audit e P" by (rule keeps_auditI) (auto intro: D [rotated])
  show "replays_free P" by (auto simp: replays_free_def add_replay_record_def intro: D [rotated])
  show "recovery_free P" by (auto simp: recovery_free_def intro: D [rotated])
  show "password_free P" by (auto simp: password_free_def intro: D [rotated])
qed

lemma money_only_auth: "money_only P \<Longrightarrow> auth_free P"
  by (simp add: auth_free_def money_only_frees)

lemma money_only_login: "money_only P \<Longrightarrow> login_free P"
  by (simp add: login_free_def money_only_frees money_only_auth)

lemmas money_frees = money_only_frees money_only_auth money_only_login

subsection \<open>The books read the view only\<close>

lemma sum_list_filter_none: "(\<And>x. x \<in> set xs \<Longrightarrow> \<not> p x) \<Longrightarrow> sum_list (map f (filter p xs)) = (0 :: int)"
proof -
  assume "\<And>x. x \<in> set xs \<Longrightarrow> \<not> p x"
  then have "filter p xs = []" by (simp add: filter_empty_conv)
  then show ?thesis by simp
qed

lemma money_only_view: "money_only (\<lambda>db. money_view db = V)"
  by (rule money_onlyI) simp

lemma map_ids: "map u_id us = map fst (map money_user us)" "map u_balance us = map (fst \<circ> snd) (map money_user us)"
  by (simp_all add: money_user_def)

lemma money_users: "(\<forall>u \<in> set us. Q (u_id u) (u_balance u)) \<longleftrightarrow> (\<forall>(i, b, l) \<in> set (map money_user us). Q i b)"
  by (auto simp: money_user_def)

lemma money_only_ledger_ok: "money_only ledger_ok"
proof (rule money_onlyI)
  fix db db' assume v: "money_view db' = money_view db" and l: "ledger_ok db"
  have "account_net i db' = account_net i db" for i using v by (simp add: account_net_def money_view_def)
  then show "ledger_ok db'"
    using l v money_users [of "users db'" "\<lambda>i b. b = account_net i db"] money_users [of "users db" "\<lambda>i b. b = account_net i db"]
    by (simp add: ledger_ok_def map_ids money_view_def)
qed

definition solvent_books :: "database \<Rightarrow> bool" where
  "solvent_books db \<longleftrightarrow> (\<forall>u \<in> set (users db). 0 \<le> u_balance u)"

lemma money_only_solvent: "money_only solvent_books"
  by (rule money_onlyI) (simp only: solvent_books_def money_users [where Q = "\<lambda>i b. 0 \<le> b"] money_view_def prod.inject)

text \<open>All the money of the bank came from a credit.\<close>

definition credited :: "database \<Rightarrow> cents" where
  "credited db = sum_list (map cr_amount (registration_credits db)) + sum_list (map cr_amount (topup_credits db))"

definition total_is_credited :: "database \<Rightarrow> bool" where
  "total_is_credited db \<longleftrightarrow> distinct (map u_id (users db)) \<and> total_balance db = credited db"

lemma money_only_credited: "money_only total_is_credited"
  by (rule money_onlyI) (simp only: total_is_credited_def total_balance_def credited_def map_ids money_view_def prod.inject)

text \<open>The foreign keys of the ledger rows: every row speaks of accounts that exist.\<close>

definition references_known :: "database \<Rightarrow> bool" where
  "references_known db \<longleftrightarrow>
     (\<forall>t \<in> set (transactions db). tx_sender_id t \<in> u_id ` set (users db) \<and> tx_recipient_id t \<in> u_id ` set (users db))
     \<and> (\<forall>c \<in> set (registration_credits db @ topup_credits db). cr_user_id c \<in> u_id ` set (users db))"

lemma id_set_view: "map money_user us = map money_user vs \<Longrightarrow> u_id ` set us = u_id ` set vs"
proof -
  assume "map money_user us = map money_user vs"
  then have "set (map fst (map money_user us)) = set (map fst (map money_user vs))" by simp
  then show ?thesis by (simp add: money_user_def image_image)
qed

lemma money_only_references: "money_only references_known"
proof (rule money_onlyI)
  fix db db' assume v: "money_view db' = money_view db" and r: "references_known db"
  have "u_id ` set (users db') = u_id ` set (users db)" using v by (intro id_set_view) (simp add: money_view_def)
  with v r show "references_known db'" by (simp add: references_known_def money_view_def)
qed

lemma money_users_add_balance:
  "map money_user (users (add_balance i a db)) = map (\<lambda>(j, b, l). if j = i then (j, b + a, l) else (j, b, l)) (map money_user (users db))"
  by (simp add: add_balance_def upd_where_def money_user_def)

lemma ids_add_balance [simp]: "u_id ` set (users (add_balance i a db)) = u_id ` set (users db)"
  by (metis add_balance_frame(9) image_set)

text \<open>An account no ledger row speaks of has received and sent nothing.\<close>

lemma unknown_account_net: "references_known db \<Longrightarrow> i \<notin> u_id ` set (users db) \<Longrightarrow> account_net i db = 0"
proof -
  assume r: "references_known db" and i: "i \<notin> u_id ` set (users db)"
  have "credits_of i (registration_credits db) = 0" "credits_of i (topup_credits db) = 0"
    using r i by (auto simp: credits_of_def references_known_def intro!: sum_list_filter_none)
  moreover have "transfers_where (\<lambda>t. tx_recipient_id t = i) (transactions db) = 0" "transfers_where (\<lambda>t. tx_sender_id t = i) (transactions db) = 0"
    using r i by (auto simp: transfers_where_def references_known_def intro!: sum_list_filter_none)
  ultimately show ?thesis by (simp add: account_net_def)
qed

text \<open>The four together.\<close>

definition sound_books :: "database \<Rightarrow> bool" where
  "sound_books db \<longleftrightarrow> ledger_ok db \<and> solvent_books db \<and> total_is_credited db \<and> references_known db"

lemma money_only_sound: "money_only sound_books"
  using money_only_ledger_ok money_only_solvent money_only_credited money_only_references
  unfolding sound_books_def money_only_def by blast

subsection \<open>More rules for actions\<close>

lemma preserves_case_prod [preserves_rules]:
  "(\<And>x y. p = (x, y) \<Longrightarrow> preserves I (f x y)) \<Longrightarrow> preserves I (case p of (x, y) \<Rightarrow> f x y)"
  by (cases p) auto

text \<open>A handler that looks at the exception.\<close>

lemma preserves_case_error [preserves_rules]:
  "(\<And>a b c. preserves I (f0 a b c)) \<Longrightarrow>
   (\<And>a b. preserves I (f1 a b)) \<Longrightarrow>
   (\<And>a. preserves I (f2 a)) \<Longrightarrow>
   (\<And>a. preserves I (f3 a)) \<Longrightarrow>
   (\<And>a. preserves I (f4 a)) \<Longrightarrow>
   preserves I f5 \<Longrightarrow>
   preserves I f6 \<Longrightarrow>
   preserves I f7 \<Longrightarrow>
   preserves I f8 \<Longrightarrow>
   preserves I f9 \<Longrightarrow>
   preserves I f10 \<Longrightarrow>
   preserves I f11 \<Longrightarrow>
   (\<And>a. preserves I (f12 a)) \<Longrightarrow>
   (\<And>a. preserves I (f13 a)) \<Longrightarrow>
   (\<And>a. preserves I (f14 a)) \<Longrightarrow>
   preserves I f15 \<Longrightarrow>
   (\<And>a. preserves I (f16 a)) \<Longrightarrow>
   (\<And>a b c. preserves I (f17 a b c)) \<Longrightarrow>
   (\<And>a. preserves I (f18 a)) \<Longrightarrow>
   (\<And>a. preserves I (f19 a)) \<Longrightarrow>
   (\<And>a. preserves I (f20 a)) \<Longrightarrow>
   (\<And>a. preserves I (f21 a)) \<Longrightarrow>
   preserves I (case_py_error f0 f1 f2 f3 f4 f5 f6 f7 f8 f9 f10 f11 f12 f13 f14 f15 f16 f17 f18 f19 f20 f21 err)"
  by (cases err) simp_all

lemma preserves_updateA_if [preserves_rules]:
  "preserves I (updateA f) \<Longrightarrow> preserves I (updateA g) \<Longrightarrow> preserves I (updateA (if b then f else g))"
  by simp

text \<open>Two tables that agree on some columns answer a lookup by these columns alike.\<close>

lemma find_same_view:
  assumes "map v xs = map v ys" and "\<And>x y. v x = v y \<Longrightarrow> q x = q y"
  shows "map_option v (find q xs) = map_option v (find q ys)"
  using assms(1)
proof (induction xs arbitrary: ys)
  case (Cons x xs)
  then obtain y zs where ys: "ys = y # zs" "v x = v y" "map v xs = map v zs" by (cases ys) auto
  with Cons.IH [of zs] assms(2) [of x y] show ?case by auto
qed simp

lemma triple_bind_known:
  assumes "preserves I m" and "\<And>s x t. I s \<Longrightarrow> m s = (Inr x, t) \<Longrightarrow> F x" and "\<And>x. F x \<Longrightarrow> triple I (f x) Q I"
  shows "triple I (bindA m f) Q I"
proof (rule triple_bindA [where Q = "\<lambda>x s. I s \<and> F x"])
  show "triple I m (\<lambda>x s. I s \<and> F x) I"
    using assms(1,2) by (auto intro!: tripleI dest: preservesD')
  show "triple (\<lambda>s. I s \<and> F x) (f x) Q I" for x
    using assms(3) [of x] by (simp add: triple_def)
qed

end
