(* ===== verification/Decimals.thy ===== *)
theory Decimals
  imports Models
begin

section \<open>Decimal numbers\<close>

text \<open>
  What the services use of Python's \<^verbatim>\<open>decimal\<close>: the constructor from text, \<^verbatim>\<open>quantize\<close> to cents in the default context
  (28 digits, half-even rounding) and the comparison with a bound. A signalling operation raises \<^verbatim>\<open>InvalidOperation\<close>.
\<close>

datatype py_decimal =
    Finite bool nat int
  | Infinite bool
  | Not_A_Number bool

text \<open>An optional sign.\<close>

definition take_sign :: "string \<Rightarrow> bool \<times> string" where
  "take_sign s = (case s of [] \<Rightarrow> (False, [])
     | c # cs \<Rightarrow> if c = CHR ''-'' then (True, cs) else if c = CHR ''+'' then (False, cs) else (False, s))"

definition take_digits :: "string \<Rightarrow> string \<times> string" where
  "take_digits s = (takeWhile py_isdigit s, dropWhile py_isdigit s)"

text \<open>The exponent part: absent, or \<^verbatim>\<open>E\<close>, an optional sign and at least one digit, to the end of the text.\<close>

definition parse_exponent :: "string \<Rightarrow> int option" where
  "parse_exponent s = (case s of [] \<Rightarrow> Some 0
     | c # cs \<Rightarrow>
         (case take_sign cs of (neg, ds) \<Rightarrow>
           if py_fold_char c = CHR ''e'' \<and> ds \<noteq> [] \<and> list_all py_isdigit ds
           then Some (if neg then - int (digits_val ds) else int (digits_val ds)) else None))"

definition parse_fraction :: "string \<Rightarrow> string \<times> string" where
  "parse_fraction s = (case s of [] \<Rightarrow> ([], [])
     | c # cs \<Rightarrow> if c = CHR ''.'' then take_digits cs else ([], s))"

text \<open>Exponents that the decimal library cannot represent.\<close>

definition exponent_representable :: "nat \<Rightarrow> int \<Rightarrow> bool" where
  "exponent_representable len exponent \<longleftrightarrow>
     - 1999999999999999997 \<le> exponent \<and> exponent + int len - 1 \<le> 999999999999999999"

definition parse_number :: "bool \<Rightarrow> string \<Rightarrow> py_decimal option" where
  "parse_number neg s =
     (case take_digits s of (whole, rest) \<Rightarrow>
      case parse_fraction rest of (fraction, rest') \<Rightarrow>
      if whole = [] \<and> fraction = [] then None
      else (case parse_exponent rest' of None \<Rightarrow> None
        | Some x \<Rightarrow>
            if exponent_representable (length (whole @ fraction)) (x - int (length fraction))
            then Some (Finite neg (digits_val (whole @ fraction)) (x - int (length fraction))) else None))"

definition parse_special :: "bool \<Rightarrow> string \<Rightarrow> py_decimal option" where
  "parse_special neg s =
     (let t = py_casefold s in
      if t = ''inf'' \<or> t = ''infinity'' then Some (Infinite neg)
      else if take 3 t = ''nan'' \<and> list_all py_isdigit (drop 3 t) then Some (Not_A_Number False)
      else if take 4 t = ''snan'' \<and> list_all py_isdigit (drop 4 t) then Some (Not_A_Number True)
      else None)"

text \<open>\<^verbatim>\<open>Decimal(text)\<close>; \<open>None\<close> is \<^verbatim>\<open>InvalidOperation\<close>.\<close>

definition decimal_of_text :: "string \<Rightarrow> py_decimal option" where
  "decimal_of_text s =
     (case take_sign (filter (\<lambda>c. c \<noteq> CHR ''_'') (py_strip s)) of (neg, t) \<Rightarrow>
      case parse_number neg t of Some d \<Rightarrow> Some d | None \<Rightarrow> parse_special neg t)"

text \<open>Division by a power of ten, rounded half to even.\<close>

definition round_half_even :: "nat \<Rightarrow> nat \<Rightarrow> nat" where
  "round_half_even c d = (let q = c div d; r = c mod d in if d < 2 * r \<or> (2 * r = d \<and> odd q) then q + 1 else q)"

datatype quantized = Cents int | Quiet_NaN

definition signed :: "bool \<Rightarrow> nat \<Rightarrow> int" where
  "signed neg n = (if neg then - int n else int n)"

definition rescale_to_cents :: "nat \<Rightarrow> int \<Rightarrow> nat" where
  "rescale_to_cents c exponent =
     (if - 2 \<le> exponent then c * 10 ^ nat (exponent + 2) else round_half_even c (10 ^ nat (- 2 - exponent)))"

text \<open>\<^verbatim>\<open>quantize(Decimal("0.01"))\<close>; \<open>None\<close> is \<^verbatim>\<open>InvalidOperation\<close>.\<close>

definition quantize_cents :: "py_decimal \<Rightarrow> quantized option" where
  "quantize_cents d = (case d of
       Finite neg c exponent \<Rightarrow>
         let n = rescale_to_cents c exponent in if n < 10 ^ 28 then Some (Cents (signed neg n)) else None
     | Infinite _ \<Rightarrow> None
     | Not_A_Number signalling \<Rightarrow> if signalling then None else Some Quiet_NaN)"

subsection \<open>Rounding\<close>

text \<open>The rounded quotient is a nearest one, and exact where the division is.\<close>

lemma round_half_even_nearest:
  assumes "0 < d"
  shows "2 * \<bar>int c - int (round_half_even c d) * int d\<bar> \<le> int d"
proof -
  have c: "int c = int (c div d) * int d + int (c mod d)"
    by (metis of_nat_add of_nat_mult div_mult_mod_eq)
  have r: "c mod d < d" using assms by simp
  show ?thesis
  proof (cases "d < 2 * (c mod d) \<or> (2 * (c mod d) = d \<and> odd (c div d))")
    case True
    then have "int (round_half_even c d) = int (c div d) + 1" by (auto simp: round_half_even_def Let_def)
    moreover have "int d \<le> 2 * int (c mod d)" using True by auto
    ultimately show ?thesis using r by (simp add: c distrib_right abs_if)
  next
    case False
    then have "round_half_even c d = c div d" by (auto simp: round_half_even_def Let_def)
    then show ?thesis using False r by (simp add: c)
  qed
qed

lemma round_half_even_exact: "0 < d \<Longrightarrow> round_half_even (n * d) d = n"
  by (simp add: round_half_even_def Let_def)

subsection \<open>Reading amounts\<close>

lemma foldl_decimal:
  fixes g :: "char \<Rightarrow> nat"
  shows "foldl (\<lambda>a c. 10 * a + g c) a ys = a * 10 ^ length ys + foldl (\<lambda>a c. 10 * a + g c) 0 ys"
proof (induction ys arbitrary: a)
  case (Cons y ys)
  show ?case using Cons.IH [of "10 * a + g y"] Cons.IH [of "g y"] by (simp add: algebra_simps)
qed simp

lemma digits_val_append: "digits_val (xs @ ys) = digits_val xs * 10 ^ length ys + digits_val ys"
  unfolding digits_val_def foldl_append by (rule foldl_decimal)

lemma isdigit_not_special:
  assumes "py_isdigit c"
  shows "\<not> py_isspace c \<and> c \<noteq> CHR ''_'' \<and> c \<noteq> CHR ''+'' \<and> c \<noteq> CHR ''-''"
proof -
  have "48 \<le> (of_char c :: nat)" "of_char c \<le> (57 :: nat)" using assms by (simp_all add: py_isdigit_def Let_def)
  then have "\<not> py_isspace c" by (simp add: py_isspace_def)
  moreover have "\<not> py_isdigit (CHR ''_'')" "\<not> py_isdigit (CHR ''+'')" "\<not> py_isdigit (CHR ''-'')"
    by (simp_all add: py_isdigit_def)
  ultimately show ?thesis using assms by auto
qed

lemma digits_not_special:
  assumes "list_all py_isdigit ds"
  shows "list_all (\<lambda>c. \<not> py_isspace c \<and> c \<noteq> CHR ''_'' \<and> c \<noteq> CHR ''+'' \<and> c \<noteq> CHR ''-'') ds"
  using assms isdigit_not_special by (simp add: list_all_iff)

lemma take_digits_stop: "list_all py_isdigit ds \<Longrightarrow> no_digit_next r \<Longrightarrow> take_digits (ds @ r) = (ds, r)"
  by (cases r) (auto simp: take_digits_def no_digit_next_def takeWhile_append dropWhile_append list_all_iff)

text \<open>
  The texts the amount fields accept (\<^verbatim>\<open>AMOUNT_RE\<close>): digits, and a point with one or two further digits. Read as a
  decimal and quantized, they are the number of cents they show, without rounding.
\<close>

definition plain_amount :: "string \<Rightarrow> string \<Rightarrow> bool" where
  "plain_amount whole fraction \<longleftrightarrow> whole \<noteq> [] \<and> list_all py_isdigit whole \<and> list_all py_isdigit fraction
     \<and> length fraction \<le> 2 \<and> length whole \<le> 13"

definition plain_text :: "string \<Rightarrow> string \<Rightarrow> string" where
  "plain_text whole fraction = (if fraction = [] then whole else whole @ ''.'' @ fraction)"

definition plain_cents :: "string \<Rightarrow> string \<Rightarrow> nat" where
  "plain_cents whole fraction = digits_val whole * 100 + digits_val fraction * 10 ^ (2 - length fraction)"

lemma parse_plain:
  assumes "plain_amount w f"
  shows "decimal_of_text (plain_text w f) = Some (Finite False (digits_val (w @ f)) (- int (length f)))"
proof -
  have w: "w \<noteq> []" "list_all py_isdigit w" and f: "list_all py_isdigit f" "length f \<le> 2" "length w \<le> 13"
    using assms by (auto simp: plain_amount_def)
  have point: "\<not> py_isspace (CHR ''.'')" "\<not> py_isdigit (CHR ''.'')" by (simp_all add: py_isspace_def py_isdigit_def)
  have chars: "\<not> py_isspace c \<and> c \<noteq> CHR ''_''" if "c \<in> set (plain_text w f)" for c
    using that w(2) f(1) isdigit_not_special [of c] point
    by (auto simp: plain_text_def list_all_iff split: if_splits)
  then have strip: "filter (\<lambda>c. c \<noteq> CHR ''_'') (py_strip (plain_text w f)) = plain_text w f"
    by (simp add: py_strip_no_space filter_id_conv)
  obtain d ds where d: "w = d # ds" using w(1) by (cases w) auto
  have sign: "take_sign (plain_text w f) = (False, plain_text w f)"
    using digits_not_special [OF w(2)] by (auto simp: take_sign_def plain_text_def d)
  have frac: "take_digits (plain_text w f) = (w, if f = [] then [] else CHR ''.'' # f)"
    using take_digits_stop [OF w(2), of "if f = [] then [] else CHR ''.'' # f"]
    by (auto simp: plain_text_def no_digit_next_def point split: if_splits)
  have "parse_fraction (if f = [] then [] else CHR ''.'' # f) = (f, [])"
    using take_digits_stop [OF f(1), of "[]"] by (auto simp: parse_fraction_def no_digit_next_def)
  with frac w(1) have "parse_number False (plain_text w f) = Some (Finite False (digits_val (w @ f)) (- int (length f)))"
    using f(2,3) by (simp add: parse_number_def parse_exponent_def exponent_representable_def)
  then show ?thesis by (simp add: decimal_of_text_def strip sign)
qed

lemma decimal_of_text_newline: "decimal_of_text (s @ [CHR 0x0A]) = decimal_of_text s"
  by (simp add: decimal_of_text_def py_strip_snoc_space py_isspace_def)

lemma rescale_plain:
  assumes "length f \<le> 2"
  shows "rescale_to_cents (digits_val (w @ f)) (- int (length f)) = plain_cents w f"
proof -
  have "nat (2 - int (length f)) = 2 - length f" by simp
  moreover have "10 ^ length f * 10 ^ (2 - length f) = (100 :: nat)"
    using assms by (simp flip: power_add)
  ultimately show ?thesis
    using assms by (simp add: rescale_to_cents_def digits_val_append plain_cents_def distrib_right mult.assoc)
qed

lemma quantize_plain:
  assumes "plain_amount w f" and "plain_cents w f < 10 ^ 28"
  shows "decimal_of_text (plain_text w f) = Some (Finite False (digits_val (w @ f)) (- int (length f)))
    \<and> quantize_cents (Finite False (digits_val (w @ f)) (- int (length f))) = Some (Cents (int (plain_cents w f)))"
  using assms parse_plain [OF assms(1)] rescale_plain [of f w]
  by (simp add: quantize_cents_def signed_def plain_amount_def Let_def)

lemma digits_val_bound:
  assumes "list_all py_isdigit ds"
  shows "digits_val ds < 10 ^ length ds"
  using assms
proof (induction ds rule: rev_induct)
  case (snoc d ds)
  have "(of_char d :: nat) \<le> 57" using snoc.prems by (simp add: py_isdigit_def Let_def)
  then have "digits_val [d] \<le> 9" by (simp add: digits_val_def)
  with snoc show ?case by (simp add: digits_val_append)
qed (simp add: digits_val_def)

lemma plain_cents_bound:
  assumes "plain_amount w f"
  shows "plain_cents w f < 10 ^ 28"
proof -
  have w: "digits_val w < 10 ^ 13"
    using digits_val_bound [of w] assms power_increasing [of "length w" 13 "10 :: nat"] by (simp add: plain_amount_def)
  have "digits_val f * 10 ^ (2 - length f) < 10 ^ length f * 10 ^ (2 - length f)"
    using digits_val_bound [of f] assms by (simp add: plain_amount_def)
  also have "\<dots> = 100" using assms by (simp add: plain_amount_def flip: power_add)
  finally show ?thesis using w by (simp add: plain_cents_def)
qed

end
