(* ===== verification/Forms.thy ===== *)
theory Forms
  imports Decimals Passwords
begin

section \<open>Form fields and page responses\<close>

text \<open>
  The validators of \<^verbatim>\<open>app/banking/forms.py\<close> and the regular expressions of \<^verbatim>\<open>app/auth/schemas.py\<close> they use. A pattern is
  matched as \<^verbatim>\<open>re.match\<close> does, where \<^verbatim>\<open>$\<close> also matches before a final newline. The CSRF token of a form is checked by
  Flask-WTF: a handler takes the outcome as an argument.
\<close>

definition dollar_ends :: "(string \<Rightarrow> bool) \<Rightarrow> string \<Rightarrow> bool" where
  "dollar_ends p s \<longleftrightarrow> p s \<or> (s \<noteq> [] \<and> last s = CHR 0x0A \<and> p (butlast s))"

definition between :: "nat \<Rightarrow> nat \<Rightarrow> (char \<Rightarrow> bool) \<Rightarrow> string \<Rightarrow> bool" where
  "between low high p s \<longleftrightarrow> low \<le> length s \<and> length s \<le> high \<and> list_all p s"

definition is_ascii_letter :: "char \<Rightarrow> bool" where
  "is_ascii_letter c \<longleftrightarrow> (let n = (of_char c :: nat) in (65 \<le> n \<and> n \<le> 90) \<or> (97 \<le> n \<and> n \<le> 122))"

definition is_alnum :: "char \<Rightarrow> bool" where
  "is_alnum c \<longleftrightarrow> is_ascii_letter c \<or> py_isdigit c"

definition totp_re :: "string \<Rightarrow> bool" where
  "totp_re = dollar_ends (between 6 6 py_isdigit)"

definition phone_re :: "string \<Rightarrow> bool" where
  "phone_re = dollar_ends (\<lambda>s. case s of [] \<Rightarrow> False | c # cs \<Rightarrow> c \<in> {CHR ''8'', CHR ''9''} \<and> between 7 7 py_isdigit cs)"

definition account_number_re :: "string \<Rightarrow> bool" where
  "account_number_re = dollar_ends (between 12 12 py_isdigit)"

definition nickname_re :: "string \<Rightarrow> bool" where
  "nickname_re = dollar_ends (between 1 64 (\<lambda>c. is_alnum c \<or> c \<in> {CHR '' '', CHR 0x27, CHR ''-''}))"

definition reference_re :: "string \<Rightarrow> bool" where
  "reference_re = dollar_ends (between 0 128 (\<lambda>c. is_alnum c \<or> c \<in> {CHR '' '', CHR 0x27, CHR ''-'', CHR ''.'', CHR '','', CHR ''/''}))"

definition amount_re :: "string \<Rightarrow> bool" where
  "amount_re = dollar_ends (\<lambda>s. case take_digits s of (whole, rest) \<Rightarrow>
     whole \<noteq> [] \<and> (case rest of [] \<Rightarrow> True | c # cs \<Rightarrow> c = CHR ''.'' \<and> between 1 2 py_isdigit cs))"

text \<open>The field factories: \<^verbatim>\<open>InputRequired\<close> refuses an empty text, \<^verbatim>\<open>Optional\<close> skips the other validators on a blank one.\<close>

definition totp_code_field :: "bool \<Rightarrow> string \<Rightarrow> bool" where
  "totp_code_field required code \<longleftrightarrow> (if required then code \<noteq> [] \<and> totp_re code else py_strip code = [] \<or> totp_re code)"

definition amount_field :: "string \<Rightarrow> bool" where
  "amount_field amount \<longleftrightarrow> amount \<noteq> [] \<and> length amount \<le> 13 \<and> amount_re amount"

definition reference_field :: "string \<Rightarrow> bool" where
  "reference_field reference \<longleftrightarrow> py_strip reference = [] \<or> (length reference \<le> 128 \<and> reference_re reference)"

definition has_control_char :: "string \<Rightarrow> bool" where
  "has_control_char s \<longleftrightarrow> list_ex (\<lambda>c. (of_char c :: nat) < 32 \<or> (of_char c :: nat) = 127) s"

definition payup_nickname_form :: "string \<Rightarrow> string option" where
  "payup_nickname_form value =
     (let nickname = py_strip value in
      if value = [] \<or> length value < 2 \<or> 128 < length value then None
      else if length nickname < 2 \<or> 128 < length nickname then None
      else if has_control_char nickname then None
      else Some nickname)"

record add_payee_form =
  ap_nickname :: string
  ap_account_number :: string
  ap_totp_code :: string

definition add_payee_form_ok :: "add_payee_form \<Rightarrow> bool" where
  "add_payee_form_ok f \<longleftrightarrow> ap_nickname f \<noteq> [] \<and> length (ap_nickname f) \<le> 64 \<and> nickname_re (ap_nickname f)
     \<and> ap_account_number f \<noteq> [] \<and> account_number_re (ap_account_number f) \<and> totp_code_field True (ap_totp_code f)"

record transfer_form =
  tf_amount :: string
  tf_reference :: string
  tf_totp_code :: string

definition transfer_form_ok :: "transfer_form \<Rightarrow> bool" where
  "transfer_form_ok f \<longleftrightarrow> amount_field (tf_amount f) \<and> reference_field (tf_reference f) \<and> totp_code_field True (tf_totp_code f)"

record payup_amount_form =
  pa_amount :: string
  pa_reference :: string

definition payup_amount_form_ok :: "payup_amount_form \<Rightarrow> bool" where
  "payup_amount_form_ok f \<longleftrightarrow> amount_field (pa_amount f) \<and> reference_field (pa_reference f)"

text \<open>\<^verbatim>\<open>TRANSFER_LIMIT_CHOICES\<close>: a \<^verbatim>\<open>SelectField\<close> accepts only one of its values.\<close>

definition daily_limit_presets :: "string list" where
  "daily_limit_presets = [''100'', ''500'', ''1000'', ''3000'', ''5000'', ''10000'']"

record transfer_limits_form =
  tl_payup_limit :: string
  tl_payup_limit_custom :: string
  tl_local_transfer_limit :: string
  tl_local_transfer_limit_custom :: string
  tl_totp_code :: string

definition limit_choice_field :: "string \<Rightarrow> bool" where
  "limit_choice_field choice \<longleftrightarrow> choice \<in> set (daily_limit_presets @ [''custom''])"

definition custom_limit_field :: "string \<Rightarrow> bool" where
  "custom_limit_field value \<longleftrightarrow> py_strip value = [] \<or> (length value \<le> 13 \<and> amount_re value)"

definition transfer_limits_form_ok :: "transfer_limits_form \<Rightarrow> bool" where
  "transfer_limits_form_ok f \<longleftrightarrow> limit_choice_field (tl_payup_limit f) \<and> custom_limit_field (tl_payup_limit_custom f)
     \<and> limit_choice_field (tl_local_transfer_limit f) \<and> custom_limit_field (tl_local_transfer_limit_custom f)
     \<and> totp_code_field True (tl_totp_code f)"

subsection \<open>Responses\<close>

text \<open>
  What a page handler returns: a rendered template with its status, a redirection, a JSON status or an aborted request. The
  context of a template and the flashed messages are not modelled.
\<close>

datatype response =
    Render string int
  | Redirect_to string
  | Json_status string int
  | Aborted int

text \<open>\<^verbatim>\<open>except AuthError\<close>, which also catches \<^verbatim>\<open>FrozenAccountError\<close>: the status code of such an exception.\<close>

definition auth_status :: "py_error \<Rightarrow> int option" where
  "auth_status err = (case err of AuthError _ st _ \<Rightarrow> Some st | FrozenAccountError _ st \<Rightarrow> Some st | _ \<Rightarrow> None)"

definition on_auth_error :: "'a request \<Rightarrow> (int \<Rightarrow> 'a request) \<Rightarrow> 'a request" where
  "on_auth_error m h = try_catch m (\<lambda>err. case auth_status err of Some st \<Rightarrow> h st | None \<Rightarrow> raise err)"

lemma preserves_on_auth_error [preserves_rules]:
  "preserves I m \<Longrightarrow> (\<And>st. preserves I (h st)) \<Longrightarrow> preserves I (on_auth_error m h)"
  unfolding on_auth_error_def by (intro preserves_rules)

subsection \<open>Amount fields\<close>

text \<open>A text the amount field accepts is a plain amount, up to the final newline the pattern tolerates.\<close>

lemma amount_match_plain:
  assumes "case take_digits s of (whole, rest) \<Rightarrow>
     whole \<noteq> [] \<and> (case rest of [] \<Rightarrow> True | c # cs \<Rightarrow> c = CHR ''.'' \<and> between 1 2 py_isdigit cs)"
    and "length s \<le> 13"
  shows "\<exists>w f. plain_amount w f \<and> s = plain_text w f"
proof -
  obtain w r where wr: "take_digits s = (w, r)" by fastforce
  have s: "s = w @ r" "list_all py_isdigit w" using wr by (auto simp: take_digits_def list_all_iff dest: set_takeWhileD)
  have m: "w \<noteq> [] \<and> (case r of [] \<Rightarrow> True | c # cs \<Rightarrow> c = CHR ''.'' \<and> between 1 2 py_isdigit cs)"
    using assms(1) wr by auto
  show ?thesis
  proof (cases r)
    case Nil
    then have "plain_amount w [] \<and> s = plain_text w []" using s m assms(2) by (simp add: plain_amount_def plain_text_def)
    then show ?thesis by blast
  next
    case (Cons c cs)
    then have "plain_amount w cs \<and> s = plain_text w cs"
      using s m assms(2) by (auto simp: plain_amount_def plain_text_def between_def)
    then show ?thesis by blast
  qed
qed

lemma amount_field_plain:
  assumes "amount_field s"
  shows "\<exists>w f. plain_amount w f \<and> (s = plain_text w f \<or> s = plain_text w f @ [CHR 0x0A])"
proof -
  have l: "length s \<le> 13" and r: "amount_re s" using assms by (simp_all add: amount_field_def)
  from r [unfolded amount_re_def dollar_ends_def] show ?thesis
  proof
    assume "case take_digits s of (whole, rest) \<Rightarrow>
      whole \<noteq> [] \<and> (case rest of [] \<Rightarrow> True | c # cs \<Rightarrow> c = CHR ''.'' \<and> between 1 2 py_isdigit cs)"
    from amount_match_plain [OF this l] show ?thesis by blast
  next
    assume n: "s \<noteq> [] \<and> last s = CHR 0x0A \<and> (case take_digits (butlast s) of (whole, rest) \<Rightarrow>
      whole \<noteq> [] \<and> (case rest of [] \<Rightarrow> True | c # cs \<Rightarrow> c = CHR ''.'' \<and> between 1 2 py_isdigit cs))"
    then have "s = butlast s @ [CHR 0x0A]" by (metis append_butlast_last_id)
    moreover from n l have "\<exists>w f. plain_amount w f \<and> butlast s = plain_text w f" by (intro amount_match_plain) auto
    ultimately show ?thesis by metis
  qed
qed

end
