(* ===== verification/Topup.thy ===== *)
theory Topup
  imports Money Forms
begin

section \<open>Top-ups by scan and approve\<close>

text \<open>
  A top-up is requested on a logged-in device, which shows a QR code, and approved on the device that scans it with an
  authenticator code. This theory models \<^verbatim>\<open>app/banking/topup_tokens.py\<close>, the top-up part of \<^verbatim>\<open>app/banking/services.py\<close> and the four
  top-up handlers of \<^verbatim>\<open>app/banking/routes.py\<close>. The credit is the only operation besides registration that creates money.
\<close>

definition parse_topup_amount :: "string \<Rightarrow> py_error + cents" where
  "parse_topup_amount raw =
     (case decimal_of_text raw of
        None \<Rightarrow> Inl (auth_error ''Enter a valid amount.'' 400)
      | Some d \<Rightarrow>
          (case quantize_cents d of
             None \<Rightarrow> Inl (auth_error ''Enter a valid amount.'' 400)
           | Some Quiet_NaN \<Rightarrow> Inl InvalidOperation
           | Some (Cents amount) \<Rightarrow>
               if amount < min_transaction_amount \<or> max_transaction_amount < amount
               then Inl (auth_error ''Top-up amount is out of the allowed range.'' 400) else Inr amount))"

subsection \<open>Tokens\<close>

definition topup_token_hmac :: "env \<Rightarrow> string \<Rightarrow> string" where
  "topup_token_hmac e verifier = active_hmac_hex e (''topup-approval-token:'' @ verifier) 64"

definition new_topup_request :: "env \<Rightarrow> int \<Rightarrow> cents \<Rightarrow> database \<Rightarrow> topup_request" where
  "new_topup_request e uid amount db =
     \<lparr>tr_id = next_id (map tr_id (topup_requests db)), tr_selector = random_text e 30,
      tr_verifier_hmac = topup_token_hmac e (random_text e 31), tr_user_id = uid, tr_amount = amount, tr_status = ''pending'',
      tr_failure_count = 0, tr_expires_at = now e + seconds (cfg_topup_ttl_seconds (cfg e)), tr_approved_at = None,
      tr_credit_ref = None, tr_created_at = now e\<rparr>"

definition add_topup_request :: "topup_request \<Rightarrow> database \<Rightarrow> database" where
  "add_topup_request r db = db\<lparr>topup_requests := topup_requests db @ [r]\<rparr>"

definition update_topup :: "int \<Rightarrow> (topup_request \<Rightarrow> topup_request) \<Rightarrow> database \<Rightarrow> database" where
  "update_topup i f db = db\<lparr>topup_requests := upd_where (\<lambda>r. tr_id r = i) f (topup_requests db)\<rparr>"

definition generate_topup_token :: "env \<Rightarrow> int \<Rightarrow> cents \<Rightarrow> (string \<times> topup_request) request" where
  "generate_topup_token e uid amount =
     bindA (queryA (new_topup_request e uid amount)) (\<lambda>r.
     bindA (updateA (add_topup_request r)) (\<lambda>_.
     bindA commitA (\<lambda>_.
     ret (random_text e 30 @ ''.'' @ random_text e 31, r))))"

definition topup_request_by_selector :: "string \<Rightarrow> database \<Rightarrow> topup_request option" where
  "topup_request_by_selector selector db = find (\<lambda>r. tr_selector r = selector) (topup_requests db)"

definition lazily_expire :: "env \<Rightarrow> topup_request \<Rightarrow> topup_request request" where
  "lazily_expire e r =
     (if tr_status r = ''pending'' \<and> tr_expires_at r \<le> now e
      then bindA (updateA (update_topup (tr_id r) (\<lambda>r. r\<lparr>tr_status := ''expired''\<rparr>))) (\<lambda>_.
           bindA commitA (\<lambda>_. ret (r\<lparr>tr_status := ''expired''\<rparr>)))
      else ret r)"

definition load_topup_request_for_approval :: "env \<Rightarrow> string \<Rightarrow> topup_request option request" where
  "load_topup_request_for_approval e raw_token =
     (case partition_on (CHR ''.'') raw_token of (selector, sep, verifier) \<Rightarrow>
      if \<not> sep \<or> selector = [] \<or> verifier = [] \<or> 64 < length selector \<or> 128 < length verifier then ret None
      else
        bindA (queryA (topup_request_by_selector selector)) (\<lambda>found.
        case found of
          None \<Rightarrow> ret None
        | Some r \<Rightarrow>
            if tr_verifier_hmac r \<noteq> topup_token_hmac e verifier then ret None
            else bindA (lazily_expire e r) (\<lambda>r. ret (if tr_status r \<noteq> ''pending'' then None else Some r))))"

definition load_topup_request_for_owner :: "env \<Rightarrow> string \<Rightarrow> int \<Rightarrow> topup_request option request" where
  "load_topup_request_for_owner e selector uid =
     bindA (queryA (topup_request_by_selector selector)) (\<lambda>found.
     case found of
       None \<Rightarrow> ret None
     | Some r \<Rightarrow> if tr_user_id r \<noteq> uid then ret None else bindA (lazily_expire e r) (\<lambda>r. ret (Some r)))"

subsection \<open>The credit\<close>

definition add_topup_credit :: "string \<Rightarrow> signature \<Rightarrow> int \<Rightarrow> cents \<Rightarrow> time \<Rightarrow> database \<Rightarrow> database" where
  "add_topup_credit ref sig uid amount created_at db =
     (case sig of (h, k, a, v) \<Rightarrow>
       db\<lparr>topup_credits := topup_credits db @ [\<lparr>cr_id = next_id (map cr_id (topup_credits db)), cr_ref = ref, cr_hash = h,
          cr_key_id = k, cr_algorithm = a, cr_version = v, cr_user_id = uid, cr_amount = amount, cr_status = ''completed'',
          cr_created_at = created_at\<rparr>]\<rparr>)"

definition post_topup :: "string \<Rightarrow> signature \<Rightarrow> signature \<Rightarrow> int \<Rightarrow> cents \<Rightarrow> time \<Rightarrow> database \<Rightarrow> database" where
  "post_topup ref csig tsig uid amount created_at db =
     add_transaction ref tsig uid uid None amount [] ''topup'' created_at
       (add_topup_credit ref csig uid amount created_at (add_balance uid amount db))"

definition credit_account_topup :: "env \<Rightarrow> int \<Rightarrow> cents \<Rightarrow> string request" where
  "credit_account_topup e uid amount =
     bindA (queryA (\<lambda>db. user_by_id db uid)) (\<lambda>found.
     case found of
       None \<Rightarrow> raise NoResultFound
     | Some locked_user \<Rightarrow>
         bindA (ensure_account_not_frozen locked_user ''account top-up'') (\<lambda>_.
         case sign_topup_credit_integrity e (new_uuid e) (u_id locked_user) amount ''completed'' (now e) of
           Inl err \<Rightarrow> raise err
         | Inr csig \<Rightarrow>
             (case sign_transaction_integrity e (new_uuid e) (u_id locked_user) (u_id locked_user) None amount [] ''completed'' ''topup'' (now e) of
                Inl err \<Rightarrow> raise err
              | Inr tsig \<Rightarrow>
                  bindA (updateA (post_topup (new_uuid e) csig tsig (u_id locked_user) amount (now e))) (\<lambda>_.
                  bindA (audit_event_required e ''account_topup'' ''success'' (Some (u_id locked_user))
                    [(''amount_band'', JStr (amount_audit_band cents_unit amount)),
                     (''credit_ref'', opt_json JStr (audit_reference e ''topup_credit'' (new_uuid e) 32))] None) (\<lambda>_.
                  ret (new_uuid e))))))"

definition send_topup_deposit_notification :: "env \<Rightarrow> user \<Rightarrow> unit request" where
  "send_topup_deposit_notification e u = safe_send_notification (send_transfer_notification e u ''deposit'' ''success'' ''Top Up'')"

subsection \<open>Handlers\<close>

definition topup_submit :: "env \<Rightarrow> bool \<Rightarrow> user \<Rightarrow> string \<Rightarrow> response request" where
  "topup_submit e csrf u amount_text =
     (if \<not> csrf \<or> \<not> amount_field amount_text then ret (Render ''topup.html'' 400)
      else case parse_topup_amount amount_text of
          Inl err \<Rightarrow> (case auth_status err of Some st \<Rightarrow> ret (Render ''topup.html'' st) | None \<Rightarrow> raise err)
        | Inr amount \<Rightarrow> bindA (generate_topup_token e (u_id u) amount) (\<lambda>_. ret (Render ''topup_pending.html'' 200)))"

definition topup_status :: "env \<Rightarrow> user \<Rightarrow> string \<Rightarrow> response request" where
  "topup_status e u selector =
     bindA (load_topup_request_for_owner e selector (u_id u)) (\<lambda>found.
     ret (case found of None \<Rightarrow> Json_status ''not_found'' 404 | Some r \<Rightarrow> Json_status (tr_status r) 200))"

definition topup_approve :: "env \<Rightarrow> string \<Rightarrow> response request" where
  "topup_approve e token =
     bindA (load_topup_request_for_approval e token) (\<lambda>found.
     ret (Render ''topup_approve.html'' (if found = None then 404 else 200)))"

definition topup_owner_is_eligible :: "user option \<Rightarrow> bool" where
  "topup_owner_is_eligible found = (case found of None \<Rightarrow> False
     | Some u \<Rightarrow> u_account_type u = ''customer'' \<and> u_account_status u = ''active'' \<and> \<not> u_is_frozen u
         \<and> (u_security_lock_reason u = None \<or> u_security_lock_reason u = Some []))"

definition topup_approval_max_failures :: int where "topup_approval_max_failures = 5"

datatype topup_outcome = Topup_approved string | Topup_refused int | Topup_retry int

definition refuse_ineligible_owner :: "env \<Rightarrow> topup_request \<Rightarrow> user option \<Rightarrow> topup_outcome request" where
  "refuse_ineligible_owner e r found =
     bindA (updateA (update_topup (tr_id r) (\<lambda>r. r\<lparr>tr_status := ''failed''\<rparr>))) (\<lambda>_.
     bindA (audit_event e ''account_topup_approval'' ''blocked'' (map_option u_id found) [(''reason'', JStr ''owner_ineligible'')] None) (\<lambda>_.
     bindA commitA (\<lambda>_. ret (Topup_refused 403))))"

definition count_wrong_code :: "env \<Rightarrow> topup_request \<Rightarrow> user \<Rightarrow> topup_outcome request" where
  "count_wrong_code e r u =
     bindA (updateA (update_topup (tr_id r) (\<lambda>r. r\<lparr>tr_failure_count := tr_failure_count r + 1\<rparr>))) (\<lambda>_.
     if topup_approval_max_failures \<le> tr_failure_count r + 1 then
       bindA (updateA (update_topup (tr_id r) (\<lambda>r. r\<lparr>tr_status := ''failed''\<rparr>))) (\<lambda>_.
       bindA commitA (\<lambda>_.
       bindA (audit_event e ''account_topup_approval'' ''locked'' (Some (u_id u)) [] None) (\<lambda>_.
       ret (Topup_refused 401))))
     else
       bindA commitA (\<lambda>_.
       bindA (audit_event e ''account_topup_approval'' ''failure'' (Some (u_id u)) [(''failure_count'', JInt (tr_failure_count r + 1))] None) (\<lambda>_.
       ret (Topup_retry 401))))"

definition complete_topup :: "env \<Rightarrow> topup_request \<Rightarrow> user \<Rightarrow> string request" where
  "complete_topup e r u =
     bindA (audit_event_required e ''account_topup_approval'' ''mfa_success'' (Some (u_id u)) [] None) (\<lambda>_.
     bindA (credit_account_topup e (u_id u) (tr_amount r)) (\<lambda>credit_ref.
     bindA (updateA (update_topup (tr_id r) (\<lambda>r. r\<lparr>tr_status := ''completed'', tr_approved_at := Some (now e),
       tr_credit_ref := Some credit_ref\<rparr>))) (\<lambda>_.
     bindA commitA (\<lambda>_. ret credit_ref))))"

definition recover_topup :: "topup_request \<Rightarrow> py_error \<Rightarrow> topup_outcome request" where
  "recover_topup r err =
     (case auth_status err of
        Some st \<Rightarrow>
          bindA rollbackA (\<lambda>_.
          bindA (updateA (update_topup (tr_id r) (\<lambda>r. r\<lparr>tr_status := ''failed''\<rparr>))) (\<lambda>_.
          bindA commitA (\<lambda>_. ret (Topup_refused st))))
      | None \<Rightarrow> bindA rollbackA (\<lambda>_. ret (Topup_retry (case err of AuditWriteError _ \<Rightarrow> 503 | _ \<Rightarrow> 500))))"

definition finish_topup :: "env \<Rightarrow> string \<Rightarrow> user \<Rightarrow> topup_outcome request" where
  "finish_topup e token u =
     bindA (load_topup_request_for_approval e token) (\<lambda>found.
     case found of
       None \<Rightarrow> ret (Topup_refused 404)
     | Some r \<Rightarrow>
         bindA (try_catch (bindA (complete_topup e r u) (\<lambda>ref. ret (Topup_approved ref))) (recover_topup r)) (\<lambda>outcome.
         case outcome of
           Topup_approved _ \<Rightarrow> bindA (send_topup_deposit_notification e u) (\<lambda>_. ret outcome)
         | _ \<Rightarrow> ret outcome))"

text \<open>\<open>topup_approve_submit\<close>. Its pages: the approved one, the invalid-link one, and the form again.\<close>

definition topup_approve_submit :: "env \<Rightarrow> bool \<Rightarrow> string \<Rightarrow> string \<Rightarrow> topup_outcome request" where
  "topup_approve_submit e csrf token totp_code =
     bindA (load_topup_request_for_approval e token) (\<lambda>found.
     case found of
       None \<Rightarrow> ret (Topup_refused 404)
     | Some r \<Rightarrow>
         if \<not> csrf \<or> \<not> totp_code_field True totp_code then ret (Topup_retry 400)
         else
           bindA (queryA (\<lambda>db. user_by_id db (tr_user_id r))) (\<lambda>owner.
           if \<not> topup_owner_is_eligible owner then refuse_ineligible_owner e r owner
           else (case owner of
               None \<Rightarrow> ret (Topup_refused 403)
             | Some u \<Rightarrow>
                 bindA (on_auth_error
                   (bindA (verify_totp_code_for_user e u totp_code ''account_topup_approval'') (\<lambda>ok. ret (Inr ok)))
                   (\<lambda>st. ret (Inl st))) (\<lambda>verified.
                 case verified of
                   Inl st \<Rightarrow> ret (Topup_retry st)
                 | Inr ok \<Rightarrow> if \<not> ok then count_wrong_code e r u else finish_topup e token u))))"

definition topup_page :: "topup_outcome \<Rightarrow> response" where
  "topup_page outcome = Render ''topup_approve.html'' (case outcome of Topup_approved _ \<Rightarrow> 200 | Topup_refused st \<Rightarrow> st | Topup_retry st \<Rightarrow> st)"

subsection \<open>Frames\<close>

lemma update_topup_view [simp]: "money_view (update_topup i f db) = money_view db" "money_view (add_topup_request r db) = money_view db"
  by (simp_all add: update_topup_def add_topup_request_def)

text \<open>The columns of a request that never change.\<close>

definition request_view :: "topup_request \<Rightarrow> string \<times> string \<times> int \<times> int \<times> cents" where
  "request_view r = (tr_selector r, tr_verifier_hmac r, tr_id r, tr_user_id r, tr_amount r)"

definition closes_request :: "(topup_request \<Rightarrow> topup_request) \<Rightarrow> bool" where
  "closes_request f \<longleftrightarrow> (\<forall>r. request_view (f r) = request_view r \<and> (tr_status r \<noteq> ''pending'' \<longrightarrow> tr_status (f r) \<noteq> ''pending''))"

text \<open>What an invariant must tolerate besides the credit itself.\<close>

definition topup_free :: "(database \<Rightarrow> bool) \<Rightarrow> bool" where
  "topup_free P \<longleftrightarrow> login_free P \<and> (\<forall>db i f. closes_request f \<longrightarrow> P db \<longrightarrow> P (update_topup i f db))"

lemma topup_freeD:
  assumes "topup_free P"
  shows "login_free P" "auth_free P" "keeps_audit e P" "replays_free P" "counters_free P"
  using assms login_freeD [of P] by (simp_all add: topup_free_def)

lemma preserves_update_topup:
  assumes "topup_free P" and "closes_request f"
  shows "preserves (both P) (updateA (update_topup i f))"
  using assms by (intro preserves_both_updateA) (simp add: topup_free_def)

lemmas closes = closes_request_def request_view_def

lemma preserves_lazily_expire [preserves_rules]: "topup_free P \<Longrightarrow> preserves (both P) (lazily_expire e r)"
  unfolding lazily_expire_def by (intro preserves_rules preserves_update_topup) (simp_all add: closes)

lemma preserves_load_topup [preserves_rules]: "topup_free P \<Longrightarrow> preserves (both P) (load_topup_request_for_approval e tok)"
  unfolding load_topup_request_for_approval_def by (intro preserves_rules)

lemma preserves_refuse_ineligible [preserves_rules]: "topup_free P \<Longrightarrow> preserves (both P) (refuse_ineligible_owner e r u)"
  unfolding refuse_ineligible_owner_def by (intro preserves_rules preserves_update_topup topup_freeD) (simp_all add: closes)

lemma preserves_count_wrong_code [preserves_rules]: "topup_free P \<Longrightarrow> preserves (both P) (count_wrong_code e r u)"
  unfolding count_wrong_code_def by (intro preserves_rules preserves_update_topup topup_freeD) (simp_all add: closes)

lemma preserves_recover_topup [preserves_rules]: "topup_free P \<Longrightarrow> preserves (both P) (recover_topup r err)"
  unfolding recover_topup_def by (intro preserves_rules preserves_update_topup topup_freeD) (simp_all add: closes)

lemma preserves_topup_notification [preserves_rules]: "keeps_audit e P \<Longrightarrow> preserves (both P) (send_topup_deposit_notification e u)"
  unfolding send_topup_deposit_notification_def by (intro preserves_rules)

lemma preserves_verified_code [preserves_rules]:
  "topup_free P \<Longrightarrow> preserves (both P) (on_auth_error
     (bindA (verify_totp_code_for_user e u c sc) (\<lambda>ok. ret (Inr ok))) (\<lambda>st. ret (Inl st)))"
  by (intro preserves_rules topup_freeD)

subsection \<open>Effect of the credit\<close>

lemma load_topup_spec:
  assumes "load_topup_request_for_approval e tok s = (Inr (Some r), t)"
  shows "t = s \<and> find (\<lambda>r. tr_selector r = fst (partition_on (CHR ''.'') tok)) (topup_requests (working s)) = Some r
    \<and> tr_status r = ''pending'' \<and> now e < tr_expires_at r
    \<and> tr_verifier_hmac r = topup_token_hmac e (snd (snd (partition_on (CHR ''.'') tok)))"
  using assms
  by (auto simp: load_topup_request_for_approval_def lazily_expire_def topup_request_by_selector_def bindA_eq_Inr
      split: prod.splits option.splits if_splits)

definition completed_topup :: "env \<Rightarrow> topup_request \<Rightarrow> string \<Rightarrow> database \<Rightarrow> database" where
  "completed_topup e r ref = update_topup (tr_id r) (\<lambda>r. r\<lparr>tr_status := ''completed'', tr_approved_at := Some (now e), tr_credit_ref := Some ref\<rparr>)"

lemma complete_topup_spec:
  assumes "complete_topup e r u s = (Inr ref, t)"
  shows "\<exists>ev ev' csig tsig v. user_by_id (working s) (u_id u) = Some v \<and> \<not> u_is_frozen v \<and> u_security_locked_at v = None
    \<and> ref = new_uuid e
    \<and> sign_topup_credit_integrity e ref (u_id u) (tr_amount r) ''completed'' (now e) = Inr csig
    \<and> sign_transaction_integrity e ref (u_id u) (u_id u) None (tr_amount r) [] ''completed'' ''topup'' (now e) = Inr tsig
    \<and> (let db = completed_topup e r ref (add_audit ev' (post_topup ref csig tsig (u_id u) (tr_amount r) (now e) (add_audit ev (working s))))
       in storable db \<and> t = s\<lparr>working := db, committed := db\<rparr>)"
proof -
  have id: "u_id v = u_id u" if "user_by_id db (u_id u) = Some v" for v db using that user_by_id_member by blast
  from assms obtain s1 s2 where
    1: "audit_event_required e ''account_topup_approval'' ''mfa_success'' (Some (u_id u)) [] None s = (Inr (), s1)"
    and 2: "credit_account_topup e (u_id u) (tr_amount r) s1 = (Inr ref, s2)"
    and 3: "commitA (s2\<lparr>working := completed_topup e r ref (working s2)\<rparr>) = (Inr (), t)"
    by (auto simp: complete_topup_def bindA_eq_Inr completed_topup_def)
  from 1 obtain ev where s1: "s1 = s\<lparr>working := add_audit ev (working s)\<rparr>"
    by (cases rule: audit_event_required_cases [of e "''account_topup_approval''" "''mfa_success''" "Some (u_id u)" "[]" None s]) auto
  have u1: "user_by_id (working s1) = user_by_id (working s)" by (simp add: s1 user_by_id_def fun_eq_iff)
  let ?md = "[(''amount_band'', JStr (amount_audit_band cents_unit (tr_amount r))),
     (''credit_ref'', opt_json JStr (audit_reference e ''topup_credit'' (new_uuid e) 32))]"
  from 2 obtain v csig tsig where v: "user_by_id (working s) (u_id u) = Some v" "\<not> u_is_frozen v" "u_security_locked_at v = None"
    and sg: "sign_topup_credit_integrity e (new_uuid e) (u_id u) (tr_amount r) ''completed'' (now e) = Inr csig"
      "sign_transaction_integrity e (new_uuid e) (u_id u) (u_id u) None (tr_amount r) [] ''completed'' ''topup'' (now e) = Inr tsig"
    and ref: "ref = new_uuid e"
    and a: "audit_event_required e ''account_topup'' ''success'' (Some (u_id u)) ?md None
        (s1\<lparr>working := post_topup ref csig tsig (u_id u) (tr_amount r) (now e) (working s1)\<rparr>) = (Inr (), s2)"
    by (auto simp: credit_account_topup_def u1 bindA_eq_Inr ensure_account_not_frozen_def id split: option.splits sum.splits if_splits)
  from a obtain ev' where s2: "s2 = s1\<lparr>working := add_audit ev' (post_topup ref csig tsig (u_id u) (tr_amount r) (now e) (working s1))\<rparr>"
    by (cases rule: audit_event_required_cases [of e "''account_topup''" "''success''" "Some (u_id u)" ?md None
          "s1\<lparr>working := post_topup ref csig tsig (u_id u) (tr_amount r) (now e) (working s1)\<rparr>"]) auto
  let ?db = "completed_topup e r ref (add_audit ev' (post_topup ref csig tsig (u_id u) (tr_amount r) (now e) (add_audit ev (working s))))"
  have "storable ?db \<and> t = s\<lparr>working := ?db, committed := ?db\<rparr>"
    using 3 by (cases rule: commitA_cases [of "s2\<lparr>working := completed_topup e r ref (working s2)\<rparr>"]) (auto simp: s1 s2)
  with v sg ref show ?thesis by (auto simp: Let_def)
qed

text \<open>Until its commit the credit is in the session only.\<close>

lemma committed_audit_required: "preserves (\<lambda>s. committed s = C) (audit_event_required e t out uid md sid)"
proof (rule preservesI)
  fix s :: world assume "committed s = C"
  then show "committed (snd (audit_event_required e t out uid md sid s)) = C"
    by (cases rule: audit_event_required_cases [of e t out uid md sid s]) auto
qed

lemma complete_topup_error:
  assumes "complete_topup e r u s = (Inl err, t)"
  shows "committed t = committed s"
proof -
  let ?I = "\<lambda>s' :: world. committed s' = committed s"
  have up: "preserves ?I (updateA f)" for f by (rule preservesI) simp
  have q: "preserves ?I (queryA f)" for f :: "database \<Rightarrow> 'q" by (rule preservesI) simp
  have "preserves ?I (credit_account_topup e i a)" for i a
    unfolding credit_account_topup_def by (intro preserves_rules up q committed_audit_required)
  note steps = this committed_audit_required [where C = "committed s"] up
  have c: "triple ?I (bindA commitA (\<lambda>_. ret x)) (\<lambda>_ _. True) ?I" for x :: string
    by (rule tripleI) (auto simp: bindA_eq_Inl commitA_def split: if_splits)
  have "triple ?I (complete_topup e r u) (\<lambda>_ _. True) ?I"
    unfolding complete_topup_def by (rule steps [THEN triple_preserves, THEN triple_bindA] c)+
  from tripleD_err [OF this _ assms] show ?thesis by simp
qed

lemma recover_from_committed: "recover_topup r err s = recover_topup r err (s\<lparr>working := committed s\<rparr>)"
  by (simp add: recover_topup_def split: option.split)

lemma recover_not_approved: "recover_topup r err s \<noteq> (Inr (Topup_approved ref), t)"
  by (auto simp: recover_topup_def bindA_eq_Inr split: option.split)

definition credited_request :: "env \<Rightarrow> topup_request \<Rightarrow> user \<Rightarrow> string \<Rightarrow> signature \<Rightarrow> signature \<Rightarrow> database \<Rightarrow> database" where
  "credited_request e r u ref csig tsig db = completed_topup e r ref (post_topup ref csig tsig (u_id u) (tr_amount r) (now e) db)"

lemma commutes:
  "completed_topup e r ref (add_audit ev db) = add_audit ev (completed_topup e r ref db)"
  "post_topup ref csig tsig i a c (add_audit ev db) = add_audit ev (post_topup ref csig tsig i a c db)"
  by (simp_all add: completed_topup_def update_topup_def post_topup_def add_transaction_def add_topup_credit_def add_balance_def
      add_audit_def split: prod.split)

lemma finish_topup_cases:
  assumes run: "finish_topup e tok u s = (x, t)" and P: "topup_free P" and s: "both P s"
  obtains (approved) ref r csig tsig v where "x = Inr (Topup_approved ref)"
      "find (\<lambda>r. tr_selector r = fst (partition_on (CHR ''.'') tok)) (topup_requests (working s)) = Some r"
      "user_by_id (working s) (u_id u) = Some v" "\<not> u_is_frozen v" "u_security_locked_at v = None"
      "sign_topup_credit_integrity e ref (u_id u) (tr_amount r) ''completed'' (now e) = Inr csig"
      "sign_transaction_integrity e ref (u_id u) (u_id u) None (tr_amount r) [] ''completed'' ''topup'' (now e) = Inr tsig"
      "storable (credited_request e r u ref csig tsig (working s))"
      "both (same_but_audit (credited_request e r u ref csig tsig (working s))) t"
  | (other) "both P t" "\<And>ref. x \<noteq> Inr (Topup_approved ref)"
proof (cases "load_topup_request_for_approval e tok s")
  case (Pair lx s1)
  have P1: "both P s1" using preservesD' [OF preserves_load_topup [OF P] Pair s] .
  show ?thesis
  proof (cases "\<exists>r. lx = Inr (Some r)")
    case False
    then have "t = s1 \<and> (\<forall>ref. x \<noteq> Inr (Topup_approved ref))"
      using run Pair by (cases lx) (auto simp: finish_topup_def split: option.splits)
    with P1 other show ?thesis by blast
  next
    case True
    then obtain r where r: "lx = Inr (Some r)" by blast
    note l = load_topup_spec [OF Pair [unfolded r]]
    obtain cx s2 where c: "complete_topup e r u s = (cx, s2)" by fastforce
    show ?thesis
    proof (cases cx)
      case (Inl err)
      have rec: "try_catch (bindA (complete_topup e r u) (\<lambda>ref. ret (Topup_approved ref))) (recover_topup r) s =
          recover_topup r err (s2\<lparr>working := committed s2\<rparr>)"
        using c Inl recover_from_committed [of r err s2] by (simp add: try_catch_def)
      obtain y s3 where y: "recover_topup r err (s2\<lparr>working := committed s2\<rparr>) = (y, s3)" by fastforce
      have "both P (s2\<lparr>working := committed s2\<rparr>)"
        using complete_topup_error [OF c [unfolded Inl]] s by (simp add: both_def)
      then have "both P s3" using preservesD' [OF preserves_recover_topup [OF P] y] by blast
      moreover have na: "\<forall>ref. y \<noteq> Inr (Topup_approved ref)" using recover_not_approved y by metis
      moreover have "t = s3 \<and> x = y"
        using run Pair r l rec y na by (cases y) (auto simp: finish_topup_def split: topup_outcome.splits)
      ultimately show ?thesis using other by blast
    next
      case (Inr ref)
      from complete_topup_spec [OF c [unfolded Inr]] obtain ev ev' csig tsig v where
        v: "user_by_id (working s) (u_id u) = Some v" "\<not> u_is_frozen v" "u_security_locked_at v = None" and
        sg: "sign_topup_credit_integrity e ref (u_id u) (tr_amount r) ''completed'' (now e) = Inr csig"
          "sign_transaction_integrity e ref (u_id u) (u_id u) None (tr_amount r) [] ''completed'' ''topup'' (now e) = Inr tsig"
        and db: "storable (completed_topup e r ref (add_audit ev' (post_topup ref csig tsig (u_id u) (tr_amount r) (now e) (add_audit ev (working s)))))"
          "s2 = s\<lparr>working := completed_topup e r ref (add_audit ev' (post_topup ref csig tsig (u_id u) (tr_amount r) (now e) (add_audit ev (working s)))),
             committed := completed_topup e r ref (add_audit ev' (post_topup ref csig tsig (u_id u) (tr_amount r) (now e) (add_audit ev (working s))))\<rparr>"
        by (auto simp: Let_def)
      let ?c = "credited_request e r u ref csig tsig (working s)"
      have same: "both (same_but_audit ?c) s2" "storable ?c"
        using db by (simp_all add: both_def credited_request_def commutes)
      obtain s3 where n: "send_topup_deposit_notification e u s2 = (Inr (), s3)"
        using safe_send_ok by (auto simp: send_topup_deposit_notification_def)
      have x: "x = Inr (Topup_approved ref) \<and> t = s3"
        using run Pair r l c Inr n by (simp add: finish_topup_def try_catch_def)
      have "both (same_but_audit ?c) s3"
        using preservesD' [OF preserves_topup_notification [OF keeps_same_but_audit] n same(1)] .
      with approved [of ref r v csig tsig] x l v sg same(2) show ?thesis by simp
    qed
  qed
qed

lemma login_free_conj:
  assumes "login_free P" and "login_free Q"
  shows "login_free (\<lambda>db. P db \<and> Q db)"
proof -
  note PQ = login_freeD [OF assms(1)] login_freeD [OF assms(2)]
  have "sessions_free (\<lambda>db. P db \<and> Q db)" using PQ(4,11) by (simp add: sessions_free_def)
  moreover have "counters_free (\<lambda>db. P db \<and> Q db)" using PQ(5,12) by (simp add: counters_free_def)
  moreover have "auth_users_free (\<lambda>db. P db \<and> Q db)" using PQ(6,13) by (simp add: auth_users_free_def)
  moreover have "keeps_audit e (\<lambda>db. P db \<and> Q db)" for e using PQ(7,14) [of e] by (simp add: keeps_audit_def)
  moreover have "replays_free (\<lambda>db. P db \<and> Q db)" using PQ(2,9) by (simp add: replays_free_def)
  moreover have "recovery_free (\<lambda>db. P db \<and> Q db)" using PQ(3,10) by (simp add: recovery_free_def)
  ultimately show ?thesis by (simp add: login_free_def auth_free_def)
qed

lemma login_free_requests: "login_free (\<lambda>db. F (topup_requests db))"
  (is "login_free ?P")
proof -
  have "sessions_free ?P" by (simp add: sessions_free_def)
  moreover have "counters_free ?P" by (simp add: counters_free_def)
  moreover have "auth_users_free ?P" by (simp add: auth_users_free_def)
  moreover have "keeps_audit e ?P" for e by (rule keeps_auditI) (simp add: add_audit_def)
  moreover have "replays_free ?P" by (simp add: replays_free_def add_replay_record_def)
  moreover have "recovery_free ?P" by (simp add: recovery_free_def)
  ultimately show ?thesis by (simp add: login_free_def auth_free_def)
qed

lemma requests_closed:
  assumes "closes_request f"
  shows "map request_view (topup_requests (update_topup i f db)) = map request_view (topup_requests db)"
  using assms by (simp add: update_topup_def closes_request_def map_upd_where_frame)

definition same_money :: "database \<Rightarrow> database \<Rightarrow> bool" where
  "same_money db d \<longleftrightarrow> money_view d = money_view db \<and> map request_view (topup_requests d) = map request_view (topup_requests db)"

lemma topup_free_same_money: "topup_free (same_money db)"
proof -
  have "login_free (same_money db)"
    unfolding same_money_def by (intro login_free_conj money_only_login money_only_view login_free_requests)
  then show ?thesis by (simp add: topup_free_def same_money_def requests_closed)
qed

lemma same_money_view: "map money_user (users d) = map money_user (users db) \<Longrightarrow>
    map_option money_user (user_by_id d i) = map_option money_user (user_by_id db i)"
  unfolding user_by_id_def by (rule find_same_view) (auto simp: money_user_def)

text \<open>A request was approved, by its owner's code: the state between the verification and the credit.\<close>

lemma approve_cases:
  assumes run: "topup_approve_submit e csrf tok code s = (x, t)" and P: "topup_free P" and s: "both P s"
  obtains (credited) r u s1 where
      "find (\<lambda>r. tr_selector r = fst (partition_on (CHR ''.'') tok)) (topup_requests (working s)) = Some r"
      "tr_status r = ''pending''" "now e < tr_expires_at r"
      "tr_verifier_hmac r = topup_token_hmac e (snd (snd (partition_on (CHR ''.'') tok)))"
      "user_by_id (working s) (tr_user_id r) = Some u" "topup_owner_is_eligible (Some u)"
      "verify_totp_code_for_user e u code ''account_topup_approval'' s = (Inr True, s1)"
      "finish_topup e tok u s1 = (x, t)"
  | (other) "both P t" "\<And>ref. x \<noteq> Inr (Topup_approved ref)"
proof (cases "load_topup_request_for_approval e tok s")
  case (Pair lx s1)
  have P1: "both P s1" using preservesD' [OF preserves_load_topup [OF P] Pair s] .
  show ?thesis
  proof (cases "(\<exists>r. lx = Inr (Some r)) \<and> csrf \<and> totp_code_field True code")
    case False
    then have "t = s1 \<and> (\<forall>ref. x \<noteq> Inr (Topup_approved ref))"
      using run Pair by (cases lx) (auto simp: topup_approve_submit_def split: option.splits if_splits)
    with P1 other show ?thesis by blast
  next
    case True
    then obtain r where r: "lx = Inr (Some r)" and form: "csrf" "totp_code_field True code" by blast
    note l = load_topup_spec [OF Pair [unfolded r]]
    let ?owner = "user_by_id (working s) (tr_user_id r)"
    show ?thesis
    proof (cases "\<exists>u. ?owner = Some u \<and> topup_owner_is_eligible ?owner")
      case False
      then have ne: "\<not> topup_owner_is_eligible ?owner" by (auto simp: topup_owner_is_eligible_def split: option.splits)
      then have "refuse_ineligible_owner e r ?owner s = (x, t)"
        using run Pair r l form by (simp add: topup_approve_submit_def)
      note no = this
      show ?thesis
      proof (rule other)
        show "both P t" by (rule preservesD' [OF preserves_refuse_ineligible [OF P] no s])
        show "x \<noteq> Inr (Topup_approved ref)" for ref
          using no by (auto simp: refuse_ineligible_owner_def bindA_eq_Inr)
      qed
    next
      case True
      then obtain u where u: "?owner = Some u" "topup_owner_is_eligible (Some u)" by auto
      let ?v = "on_auth_error (bindA (verify_totp_code_for_user e u code ''account_topup_approval'') (\<lambda>ok. ret (Inr ok)))
         (\<lambda>st. ret (Inl st)) :: (int + bool) request"
      obtain vx s2 where v: "?v s = (vx, s2)" by fastforce
      have P2: "both P s2" using preservesD' [OF preserves_verified_code [OF P] v s] .
      have k: "(case vx of Inl err \<Rightarrow> (Inl err, s2) | Inr (Inl st) \<Rightarrow> (Inr (Topup_retry st), s2)
          | Inr (Inr ok) \<Rightarrow> (if \<not> ok then count_wrong_code e r u else finish_topup e tok u) s2) = (x, t)"
        using run Pair r l form u v by (cases vx) (auto simp: topup_approve_submit_def split: sum.splits)
      show ?thesis
      proof (cases "vx = Inr (Inr True)")
        case True
        with v have "verify_totp_code_for_user e u code ''account_topup_approval'' s = (Inr True, s2)"
          by (auto simp: on_auth_error_def try_catch_eq_Inr bindA_eq_Inr split: option.splits)
        with credited [of r u s2] l u k True show ?thesis by simp
      next
        case False
        show ?thesis
        proof (rule other)
          show "both P t"
            using k False P2 preservesD' [OF preserves_count_wrong_code [OF P]] by (auto split: sum.splits if_splits)
          show "x \<noteq> Inr (Topup_approved ref)" for ref
            using k False by (auto simp: count_wrong_code_def bindA_eq_Inr split: sum.splits if_splits)
        qed
      qed
    qed
  qed
qed

subsection \<open>The books after a top-up\<close>

lemma money_view_post_topup:
  assumes "money_view d = money_view db"
  shows "money_view (post_topup ref csig tsig i a c d) = money_view (post_topup ref csig tsig i a c db)"
  using assms money_users_add_balance [of i a d] money_users_add_balance [of i a db]
  by (simp add: post_topup_def money_view_def add_topup_credit_def add_transaction_def split: prod.split)

lemma post_topup_frames [simp]:
  "users (post_topup ref csig tsig i a c db) = users (add_balance i a db)"
  "registration_credits (post_topup ref csig tsig i a c db) = registration_credits db"
  by (simp_all add: post_topup_def add_topup_credit_def split: prod.split)

lemma account_net_post_topup: "account_net j (post_topup ref csig tsig i a c db) = account_net j db + (if i = j then a else 0)"
  by (simp add: account_net_def post_topup_def transfers_where_add_transaction)
     (simp add: add_topup_credit_def credits_of_def split: prod.split)

lemma sound_books_post_topup:
  assumes "sound_books db" and "user_by_id db i = Some u" and "0 \<le> a"
  shows "sound_books (post_topup ref csig tsig i a c db)"
proof -
  have l: "ledger_ok db" and so: "solvent_books db" and tc: "total_is_credited db" and rk: "references_known db"
    using assms(1) by (auto simp: sound_books_def)
  have "i \<in> u_id ` set (users db)" using user_by_id_member [OF assms(2)] by auto
  with rk have "references_known (post_topup ref csig tsig i a c db)"
    by (auto simp: references_known_def post_topup_def ids_add_balance)
       (auto simp: add_topup_credit_def add_transaction_def ids_add_balance split: prod.splits)
  moreover have u: "user_by_id (post_topup ref csig tsig i a c db) = user_by_id (add_balance i a db)"
    by (simp add: user_by_id_def fun_eq_iff)
  have "ledger_ok (post_topup ref csig tsig i a c db)"
    using l unfolding ledger_ok_iff by (auto simp: u user_by_id_add_balance account_net_post_topup)
  moreover have "solvent_books (post_topup ref csig tsig i a c db)"
    using so assms(3) by (auto simp: solvent_books_def users_add_balance set_upd_where)
  moreover have "credited (post_topup ref csig tsig i a c db) = credited db + a"
    by (simp add: credited_def post_topup_def) (simp add: add_topup_credit_def split: prod.split)
  moreover have "total_balance (post_topup ref csig tsig i a c db) = total_balance (add_balance i a db)"
    by (simp add: total_balance_def)
  ultimately show ?thesis
    using tc total_add_balance [OF _ assms(2), of a] by (simp add: sound_books_def total_is_credited_def)
qed

lemma topup_effect:
  assumes run: "topup_approve_submit e csrf tok code (fresh_world db) = (x, t)"
  shows "case x of Inr (Topup_approved ref) \<Rightarrow>
      \<exists>r u s1 csig tsig. find (\<lambda>r. tr_selector r = fst (partition_on (CHR ''.'') tok)) (topup_requests db) = Some r
        \<and> tr_status r = ''pending'' \<and> now e < tr_expires_at r
        \<and> tr_verifier_hmac r = topup_token_hmac e (snd (snd (partition_on (CHR ''.'') tok)))
        \<and> user_by_id db (tr_user_id r) = Some u \<and> topup_owner_is_eligible (Some u)
        \<and> verify_totp_code_for_user e u code ''account_topup_approval'' (fresh_world db) = (Inr True, s1)
        \<and> sign_topup_credit_integrity e ref (u_id u) (tr_amount r) ''completed'' (now e) = Inr csig
        \<and> sign_transaction_integrity e ref (u_id u) (u_id u) None (tr_amount r) [] ''completed'' ''topup'' (now e) = Inr tsig
        \<and> both (\<lambda>d. money_view d = money_view (post_topup ref csig tsig (u_id u) (tr_amount r) (now e) db)) t
    | _ \<Rightarrow> both (\<lambda>d. money_view d = money_view db) t"
proof -
  note P = topup_free_same_money [of db]
  have s: "both (same_money db) (fresh_world db)" by (simp add: both_def fresh_world_def same_money_def)
  have unchanged: ?thesis if "both (same_money db) t" "\<And>ref. x \<noteq> Inr (Topup_approved ref)"
    using that by (auto simp: both_def same_money_def split: sum.split topup_outcome.split)
  from run P s show ?thesis
  proof (cases rule: approve_cases)
    case (credited r u s1)
    have s1: "both (same_money db) s1"
      using preservesD' [OF preserves_verify_totp_code, of "same_money db"] credited(7) s P by (meson topup_freeD)
    from credited(8) P s1 show ?thesis
    proof (cases rule: finish_topup_cases)
      case (approved ref r' csig tsig v)
      let ?q = "\<lambda>r. tr_selector r = fst (partition_on (CHR ''.'') tok)"
      have "map_option request_view (find ?q (topup_requests (working s1))) = map_option request_view (find ?q (topup_requests db))"
        using s1 by (intro find_same_view) (auto simp: both_def same_money_def request_view_def)
      then have amt: "tr_amount r' = tr_amount r"
        using approved(2) credited(1) by (simp add: fresh_world_def request_view_def)
      have "both (\<lambda>d. money_view d = money_view (credited_request e r' u ref csig tsig (working s1))) t"
        using approved(9) by (simp add: both_def same_but_audit_money)
      moreover have "money_view (credited_request e r' u ref csig tsig (working s1)) =
          money_view (post_topup ref csig tsig (u_id u) (tr_amount r) (now e) db)"
        using money_view_post_topup [of "working s1" db] s1 amt
        by (simp add: credited_request_def completed_topup_def both_def same_money_def)
      ultimately show ?thesis
        unfolding approved(1) sum.case topup_outcome.case
        by (intro exI [of _ r] exI [of _ u] exI [of _ s1] exI [of _ csig] exI [of _ tsig] conjI)
           (use approved(6,7) credited amt in \<open>simp_all add: fresh_world_def\<close>)
    qed (rule unchanged)
  qed (rule unchanged)
qed

subsection \<open>Single use\<close>

definition request_spent :: "string \<Rightarrow> database \<Rightarrow> bool" where
  "request_spent k db \<longleftrightarrow> (\<forall>r \<in> set (topup_requests db). tr_selector r = k \<longrightarrow> tr_status r \<noteq> ''pending'')"

lemma topup_free_spent: "topup_free (request_spent k)"
proof -
  have "request_spent k = (\<lambda>db. \<forall>r \<in> set (topup_requests db). tr_selector r = k \<longrightarrow> tr_status r \<noteq> ''pending'')"
    by (simp add: request_spent_def fun_eq_iff)
  then have "login_free (request_spent k)"
    using login_free_requests [of "\<lambda>rs. \<forall>r \<in> set rs. tr_selector r = k \<longrightarrow> tr_status r \<noteq> ''pending''"] by simp
  then show ?thesis by (auto simp: topup_free_def request_spent_def update_topup_def closes set_upd_where)
qed

lemma credited_requests:
  "topup_requests (credited_request e r u ref csig tsig db) = topup_requests (completed_topup e r ref db)"
  by (simp add: credited_request_def completed_topup_def update_topup_def post_topup_def add_topup_credit_def split: prod.split)

lemma spent_same: "both (same_but_audit db) t \<Longrightarrow> request_spent k db \<Longrightarrow> both (request_spent k) t"
  using same_but_auditD(6) [of db "committed t"] same_but_auditD(6) [of db "working t"] by (simp add: request_spent_def both_def)

type_synonym topup_post = "env \<times> bool \<times> string \<times> string"

text \<open>An approval request as the contract of single use sees it: any answer but the approval counts as a refusal.\<close>

definition serve_topup :: "topup_post \<Rightarrow> string request" where
  "serve_topup = (\<lambda>(e, csrf, tok, code). served (bindA (topup_approve_submit e csrf tok code) (\<lambda>outcome.
     case outcome of Topup_approved ref \<Rightarrow> ret ref | Topup_refused st \<Rightarrow> raise (auth_error [] st) | Topup_retry st \<Rightarrow> raise (auth_error [] st))))"

definition topup_key :: "topup_post \<Rightarrow> string" where
  "topup_key = (\<lambda>(e, csrf, tok, code). fst (partition_on (CHR ''.'') tok))"

lemma serve_topup_eq: "serve_topup (e, csrf, tok, code) s = (x, t') \<longleftrightarrow>
    (\<exists>y t. topup_approve_submit e csrf tok code s = (y, t) \<and> t' = t\<lparr>working := committed t\<rparr>
      \<and> x = (case y of Inl err \<Rightarrow> Inl err | Inr (Topup_approved ref) \<Rightarrow> Inr ref | Inr (Topup_refused st) \<Rightarrow> Inl (auth_error [] st)
           | Inr (Topup_retry st) \<Rightarrow> Inl (auth_error [] st)))"
  by (auto simp: serve_topup_def served_eq bindA_def split: prod.splits sum.splits topup_outcome.splits)

lemma approve_keeps_spent:
  assumes "topup_approve_submit e csrf tok code s = (x, t)" and "both (request_spent k) s"
  shows "both (request_spent k) t"
  using assms(1) topup_free_spent assms(2)
proof (cases rule: approve_cases)
  case (credited r u s1)
  have "both (request_spent k) s1"
    using preservesD' [OF preserves_verify_totp_code, of "request_spent k"] credited(7) assms(2) topup_free_spent [of k]
    by (meson topup_freeD)
  with credited(8) topup_free_spent show ?thesis
  proof (cases rule: finish_topup_cases)
    case (approved ref r' csig tsig v)
    have "request_spent k (completed_topup e r' ref (working s1))"
      using \<open>both (request_spent k) s1\<close> topup_free_spent [of k]
      by (auto simp: topup_free_def completed_topup_def both_def closes)
    then have "request_spent k (credited_request e r' u ref csig tsig (working s1))"
      by (simp add: request_spent_def credited_requests)
    with approved(9) show ?thesis by (rule spent_same)
  qed
qed

lemma approved_spends:
  assumes "topup_approve_submit e csrf tok code s = (Inr (Topup_approved ref), t)"
  shows "both (request_spent (fst (partition_on (CHR ''.'') tok))) t \<and> \<not> request_spent (fst (partition_on (CHR ''.'') tok)) (working s)"
proof -
  let ?k = "fst (partition_on (CHR ''.'') tok)"
  have T: "topup_free (\<lambda>_. True)" "both (\<lambda>_. True) s'" for s'
    using login_free_requests [of "\<lambda>_. True"] by (simp_all add: topup_free_def both_def)
  from assms T show ?thesis
  proof (cases rule: approve_cases)
    case (credited r u s1)
    have n: "\<not> request_spent ?k (working s)"
      using find_SomeD [OF credited(1)] credited(2) by (auto simp: request_spent_def)
    from credited(8) T show ?thesis
    proof (cases rule: finish_topup_cases)
      case (approved ref' r' csig tsig v)
      let ?db = "credited_request e r' u ref' csig tsig (working s1)"
      have r': "r' \<in> set (topup_requests (working s1))" "tr_selector r' = ?k" using find_SomeD [OF approved(2)] by auto
      have "map tr_selector (topup_requests ?db) = map tr_selector (topup_requests (working s1))"
        by (simp add: credited_requests completed_topup_def update_topup_def map_upd_where_frame)
      then have "distinct (map tr_selector (topup_requests (working s1)))"
        using approved(8) by (simp add: storable_def constraints_ok_def)
      then have "q = r'" if "q \<in> set (topup_requests (working s1))" "tr_selector q = ?k" for q
        using that r' by (auto simp: distinct_map inj_on_def)
      then have "request_spent ?k ?db"
        by (auto simp: request_spent_def credited_requests completed_topup_def update_topup_def set_upd_where split: if_splits)
      from spent_same [OF approved(9) this] n show ?thesis by simp
    qed blast
  qed blast
qed

interpretation topup_single_use: single_use serve_topup topup_key "\<lambda>k. both (request_spent k)"
proof
  fix r :: topup_post and s x t
  obtain e csrf tok code where r: "r = (e, csrf, tok, code)" by (cases r) auto
  assume "serve_topup r s = (Inr x, t)"
  then obtain y t' where run: "topup_approve_submit e csrf tok code s = (y, t')" and t: "t = t'\<lparr>working := committed t'\<rparr>"
    and y: "Inr x = (case y of Inl err \<Rightarrow> Inl err | Inr (Topup_approved ref) \<Rightarrow> Inr ref | Inr (Topup_refused st) \<Rightarrow> Inl (auth_error [] st)
           | Inr (Topup_retry st) \<Rightarrow> Inl (auth_error [] st))"
    by (auto simp: r serve_topup_eq)
  from y have "y = Inr (Topup_approved x)" by (auto split: sum.splits topup_outcome.splits)
  with approved_spends run show "both (request_spent (topup_key r)) t" by (fastforce simp: r t topup_key_def both_def)
next
  fix k s and r :: topup_post
  obtain e csrf tok code where r: "r = (e, csrf, tok, code)" by (cases r) auto
  obtain y t where run: "topup_approve_submit e csrf tok code s = (y, t)" by fastforce
  assume "both (request_spent k) s"
  from approve_keeps_spent [OF run this] have "request_spent k (committed t)" by (simp add: both_def)
  moreover have "snd (serve_topup r s) = t\<lparr>working := committed t\<rparr>"
    using run serve_topup_eq [of e csrf tok code s "fst (serve_topup r s)" "snd (serve_topup r s)"] by (simp add: r)
  ultimately show "both (request_spent k) (snd (serve_topup r s))" by (simp add: both_def)
next
  fix s and r :: topup_post
  obtain e csrf tok code where r: "r = (e, csrf, tok, code)" by (cases r) auto
  obtain y t where run: "topup_approve_submit e csrf tok code s = (y, t)" by fastforce
  assume "both (request_spent (topup_key r)) s"
  then have "y \<noteq> Inr (Topup_approved ref)" for ref
    using approved_spends [of e csrf tok code s ref t] run by (auto simp: r topup_key_def both_def)
  then show "isl (fst (serve_topup r s))"
    using run serve_topup_eq [of e csrf tok code s "fst (serve_topup r s)" "snd (serve_topup r s)"]
    by (auto simp: r split: sum.splits topup_outcome.splits)
qed

subsection \<open>Properties\<close>

text \<open>
  C27. What an approval of a top-up does. If \<^verbatim>\<open>topup_approve_submit\<close> answers that the top-up is approved, the scanned token
  named a pending, unexpired request and carried its secret, the owner was an eligible customer, and the code was accepted as the
  owner's authenticator code; the books then differ by exactly one signed credit of the requested amount: the owner's balance, one credit
  row and one ledger row. On every other answer, and when it raises, no balance, ledger row or credit has changed, neither in the
  database nor in the session.
\<close>

theorem topup_approval_effect:
  assumes "topup_approve_submit e csrf tok code (fresh_world db) = (x, t)"
  shows "case x of Inr (Topup_approved ref) \<Rightarrow>
      \<exists>r u s1 csig tsig. find (\<lambda>r. tr_selector r = fst (partition_on (CHR ''.'') tok)) (topup_requests db) = Some r
        \<and> tr_status r = ''pending'' \<and> now e < tr_expires_at r
        \<and> tr_verifier_hmac r = topup_token_hmac e (snd (snd (partition_on (CHR ''.'') tok)))
        \<and> user_by_id db (tr_user_id r) = Some u \<and> topup_owner_is_eligible (Some u)
        \<and> verify_totp_code_for_user e u code ''account_topup_approval'' (fresh_world db) = (Inr True, s1)
        \<and> sign_topup_credit_integrity e ref (u_id u) (tr_amount r) ''completed'' (now e) = Inr csig
        \<and> sign_transaction_integrity e ref (u_id u) (u_id u) None (tr_amount r) [] ''completed'' ''topup'' (now e) = Inr tsig
        \<and> both (\<lambda>d. money_view d = money_view (post_topup ref csig tsig (u_id u) (tr_amount r) (now e) db)) t
    | _ \<Rightarrow> both (\<lambda>d. money_view d = money_view db) t"
  using assms by (rule topup_effect)

definition sample_topup :: topup_request where
  "sample_topup = \<lparr>tr_id = 1, tr_selector = ''sel'', tr_verifier_hmac = replicate 64 (CHR ''a''), tr_user_id = 1, tr_amount = 5000,
     tr_status = ''pending'', tr_failure_count = 0, tr_expires_at = now sample_env + 1, tr_approved_at = None, tr_credit_ref = None,
     tr_created_at = 0\<rparr>"

definition topup_db :: database where
  "topup_db = empty_db\<lparr>users := [code_user], topup_requests := [sample_topup]\<rparr>"

abbreviation sample_sig :: signature where
  "sample_sig \<equiv> (replicate 64 (CHR ''a''), ''k1'', ''hmac-sha256'', 1)"

lemma topup_signatures:
  "sign_topup_credit_integrity code_env r i a st c = Inr sample_sig"
  "sign_transaction_integrity code_env r i j p a d st ty c = Inr sample_sig"
proof -
  have ring: "validated_keyring (cfg code_env) = Inr [(''k1'', replicate 32 (CHR ''L''))]"
    using sample_ring by (simp add: sample_env_def)
  show "sign_topup_credit_integrity code_env r i a st c = Inr sample_sig"
    using ring by (simp add: sign_topup_credit_integrity_def sign_credit_integrity_def credit_digest_def Let_def sample_cfg_def
        transaction_integrity_algorithm_def transaction_integrity_version_def)
  show "sign_transaction_integrity code_env r i j p a d st ty c = Inr sample_sig"
    using ring by (simp add: sign_transaction_integrity_def transaction_digest_def Let_def sample_cfg_def
        transaction_integrity_algorithm_def transaction_integrity_version_def)
qed

lemma storable_topup_db: "storable topup_db"
proof -
  have "storable (empty_db\<lparr>users := [alice\<lparr>u_mfa_secret_nonce := x, u_mfa_secret_ciphertext := y\<rparr>], topup_requests := [sample_topup]\<rparr>)" for x y
    by code_simp
  then show ?thesis by (simp add: code_user_def topup_db_def)
qed

lemma storable_credited:
  "storable (credited_request code_env sample_topup code_user ''u-1'' sample_sig sample_sig (add_replay_record code_env 1 sc st d ttl topup_db))"
proof -
  have "storable (credited_request code_env sample_topup code_user ''u-1'' sample_sig sample_sig
     (empty_db\<lparr>users := [alice\<lparr>u_mfa_secret_nonce := x, u_mfa_secret_ciphertext := y\<rparr>], topup_requests := [sample_topup],
       totp_replays := [r]\<rparr>))" for x y r
    by code_simp
  then show ?thesis by (simp add: code_user_def topup_db_def add_replay_record_def) (simp add: empty_db_def)
qed

lemma audit_ready_code_env: "audit_ready code_env"
  by (simp add: audit_ready_def code_env_def sample_env64_def sample_env_def sample_cfg_def)

lemma complete_topup_ready:
  assumes "audit_ready e" and "user_by_id (working s) (u_id u) = Some v" and "\<not> u_is_frozen v" and "u_security_locked_at v = None"
    and "sign_topup_credit_integrity e (new_uuid e) (u_id u) (tr_amount r) ''completed'' (now e) = Inr csig"
    and "sign_transaction_integrity e (new_uuid e) (u_id u) (u_id u) None (tr_amount r) [] ''completed'' ''topup'' (now e) = Inr tsig"
    and "storable (credited_request e r u (new_uuid e) csig tsig (working s))"
  shows "\<exists>t. complete_topup e r u s = (Inr (new_uuid e), t)"
proof -
  have id: "u_id v = u_id u" using assms(2) user_by_id_member by blast
  obtain ev where ev: "audit_event_required e ''account_topup_approval'' ''mfa_success'' (Some (u_id u)) [] None s =
      (Inr (), s\<lparr>working := add_audit ev (working s)\<rparr>)"
    using audit_event_required_ready [OF assms(1)] by blast
  let ?s1 = "s\<lparr>working := post_topup (new_uuid e) csig tsig (u_id u) (tr_amount r) (now e) (add_audit ev (working s))\<rparr>"
  obtain ev' where ev': "audit_event_required e ''account_topup'' ''success'' (Some (u_id u))
      [(''amount_band'', JStr (amount_audit_band cents_unit (tr_amount r))),
       (''credit_ref'', opt_json JStr (audit_reference e ''topup_credit'' (new_uuid e) 32))] None ?s1 = (Inr (), ?s1\<lparr>working := add_audit ev' (working ?s1)\<rparr>)"
    using audit_event_required_ready [OF assms(1)] by blast
  have u: "user_by_id (add_audit ev (working s)) (u_id u) = Some v" using assms(2) by (simp add: user_by_id_def)
  have cr: "credit_account_topup e (u_id u) (tr_amount r) (s\<lparr>working := add_audit ev (working s)\<rparr>) = (Inr (new_uuid e), ?s1\<lparr>working := add_audit ev' (working ?s1)\<rparr>)"
    using u ev' assms(3-6) by (simp add: credit_account_topup_def id ensure_account_not_frozen_def)
  show ?thesis
    using ev cr assms(7) by (simp add: complete_topup_def commitA_ok commutes flip: completed_topup_def credited_request_def)
qed

lemma topup_example: "\<exists>t. topup_approve_submit code_env True ''sel.ver'' ''000042'' (fresh_world topup_db) = (Inr (Topup_approved ''u-1''), t)"
proof -
  have part: "partition_on (CHR ''.'') ''sel.ver'' = (''sel'', True, ''ver'')" by code_simp
  have hm: "topup_token_hmac code_env v = replicate 64 (CHR ''a'')" for v by (simp add: topup_token_hmac_def active_hmac_hex_def)
  have load: "load_topup_request_for_approval code_env ''sel.ver'' s = (Inr (Some sample_topup), s)"
    if "topup_requests (working s) = [sample_topup]" for s
    using that by (simp add: load_topup_request_for_approval_def part topup_request_by_selector_def hm sample_topup_def lazily_expire_def)
  have own: "user_by_id topup_db 1 = Some code_user" by (simp add: topup_db_def user_by_id_def)
  obtain s1 sc st d ttl where s1: "verify_totp_for_user_outcome code_env code_user ''000042'' ''account_topup_approval'' None True (fresh_world topup_db)
      = (Inr TOTP_VALID, s1)" "working s1 = add_replay_record code_env 1 sc st d ttl topup_db"
    using code_accepted [of "fresh_world topup_db" "[sample_topup]" "''account_topup_approval''" True] storable_topup_db
    by (auto simp: fresh_world_def topup_db_def)
  have u1: "user_by_id (working s1) (u_id code_user) = Some code_user" and r1: "topup_requests (working s1) = [sample_topup]"
    by (simp_all add: s1(2) topup_db_def user_by_id_def add_replay_record_def)
  have "storable (credited_request code_env sample_topup code_user (new_uuid code_env) sample_sig sample_sig (working s1))"
    using storable_credited by (simp add: s1(2))
  from complete_topup_ready [OF audit_ready_code_env u1 _ _ topup_signatures this]
  obtain s2 where s2: "complete_topup code_env sample_topup code_user s1 = (Inr ''u-1'', s2)" by auto
  obtain s3 where s3: "send_topup_deposit_notification code_env code_user s2 = (Inr (), s3)"
    using safe_send_ok by (auto simp: send_topup_deposit_notification_def)
  have fin: "finish_topup code_env ''sel.ver'' code_user s1 = (Inr (Topup_approved ''u-1''), s3)"
    using load [OF r1] s2 s3 by (simp add: finish_topup_def try_catch_def)
  have f: "totp_code_field True ''000042''" by code_simp
  have el: "topup_owner_is_eligible (Some code_user)" by (simp add: topup_owner_is_eligible_def)
  have l0: "load_topup_request_for_approval code_env ''sel.ver'' (fresh_world topup_db) = (Inr (Some sample_topup), fresh_world topup_db)"
    by (rule load) (simp add: fresh_world_def topup_db_def)
  show ?thesis
    using l0 own s1(1) fin f el
    by (simp add: topup_approve_submit_def on_auth_error_def try_catch_def verify_totp_code_for_user_def verify_totp_for_user_def
        fresh_world_def sample_topup_def)
qed

theorem topup_approval_effect_witness:
  "\<exists>t csig tsig. topup_approve_submit code_env True ''sel.ver'' ''000042'' (fresh_world topup_db) = (Inr (Topup_approved ''u-1''), t)
     \<and> money_view (committed t) = money_view (post_topup ''u-1'' csig tsig 1 5000 (now code_env) topup_db)"
proof -
  obtain t where t: "topup_approve_submit code_env True ''sel.ver'' ''000042'' (fresh_world topup_db) = (Inr (Topup_approved ''u-1''), t)"
    using topup_example by blast
  have p: "fst (partition_on (CHR ''.'') ''sel.ver'') = ''sel''" by code_simp
  have r: "find (\<lambda>r. tr_selector r = ''sel'') (topup_requests topup_db) = Some sample_topup" "tr_user_id sample_topup = 1"
    "tr_amount sample_topup = 5000" "user_by_id topup_db 1 = Some code_user"
    by (simp_all add: topup_db_def user_by_id_def) (simp_all add: sample_topup_def)
  from topup_approval_effect [OF t] t show ?thesis by (auto simp: p r both_def) blast
qed

text \<open>
  A top-up request is credited at most once: in any sequence of approval posts, from any devices, with any codes, at most one post
  for a given selector is approved.
\<close>

theorem topup_request_single_use:
  "successes topup_key k rs (fst (run_all serve_topup rs s)) \<le> 1"
  by (rule topup_single_use.at_most_one_success)

text \<open>
  C40. Amounts are read exactly. A text the amount field accepts is a row of digits, possibly with a point and one or two more digits, and
  possibly with one newline at its end (the pattern ends in \<^verbatim>\<open>$\<close>). \<^verbatim>\<open>parse_topup_amount\<close> gives the number of cents these digits show if it is
  in the allowed range, and refuses the text otherwise; nothing is rounded.
\<close>

theorem topup_amount_exact:
  assumes "amount_field text_value"
  shows "\<exists>w f. plain_amount w f \<and> (text_value = plain_text w f \<or> text_value = plain_text w f @ [CHR 0x0A])
    \<and> parse_topup_amount text_value =
      (if min_transaction_amount \<le> int (plain_cents w f) \<and> int (plain_cents w f) \<le> max_transaction_amount then Inr (int (plain_cents w f))
       else Inl (auth_error ''Top-up amount is out of the allowed range.'' 400))"
proof -
  from amount_field_plain [OF assms] obtain w f
    where p: "plain_amount w f" and t: "text_value = plain_text w f \<or> text_value = plain_text w f @ [CHR 0x0A]" by blast
  from t have "decimal_of_text text_value = decimal_of_text (plain_text w f)" by (auto simp: decimal_of_text_newline)
  with quantize_plain [OF p plain_cents_bound [OF p]] p t show ?thesis
    by (intro exI [of _ w] exI [of _ f]) (simp add: parse_topup_amount_def)
qed

text \<open>What is read off a plain amount does not depend on how it is split.\<close>

lemma plain_text_split:
  assumes "plain_amount w f" and "plain_amount w' f'" and "plain_text w f = plain_text w' f'"
  shows "plain_cents w f = plain_cents w' f'"
proof -
  have "decimal_of_text (plain_text w f) = decimal_of_text (plain_text w' f')" using assms(3) by simp
  then have "length f = length f'" "digits_val (w @ f) = digits_val (w' @ f')"
    using parse_plain [OF assms(1)] parse_plain [OF assms(2)] by auto
  then show ?thesis
    using rescale_plain [of f w] rescale_plain [of f' w'] assms(1,2) by (simp add: plain_amount_def)
qed

theorem topup_amount_exact_witness: "parse_topup_amount (''12.5'' @ [CHR 0x0A]) = Inr 1250"
proof -
  have a: "amount_field (''12.5'' @ [CHR 0x0A])" by code_simp
  have p: "plain_amount ''12'' ''5''" "plain_text ''12'' ''5'' = ''12.5''" "plain_cents ''12'' ''5'' = 1250" by code_simp+
  from topup_amount_exact [OF a] obtain w f where w: "plain_amount w f"
      "''12.5'' @ [CHR 0x0A] = plain_text w f \<or> ''12.5'' @ [CHR 0x0A] = plain_text w f @ [CHR 0x0A]"
      "parse_topup_amount (''12.5'' @ [CHR 0x0A]) = (if min_transaction_amount \<le> int (plain_cents w f) \<and> int (plain_cents w f) \<le> max_transaction_amount
        then Inr (int (plain_cents w f)) else Inl (auth_error ''Top-up amount is out of the allowed range.'' 400))"
    by blast
  have "CHR 0x0A \<notin> set (plain_text w f)"
    using w(1) by (auto simp: plain_amount_def plain_text_def list_all_iff py_isdigit_def)
  with w(2) have "plain_text w f = plain_text ''12'' ''5''" unfolding p(2) by (metis in_set_conv_decomp append1_eq_conv)
  from plain_text_split [OF w(1) p(1) this] w(3) p(3) show ?thesis by (simp add: min_transaction_amount_def max_transaction_amount_def)
qed

end
