(* ===== verification/Identity_Policy.thy ===== *)
theory Identity_Policy
  imports Passwords
begin

section \<open>E-mail identities\<close>

text \<open>
  \<^verbatim>\<open>app/security/identity_policy.py\<close>: which addresses may belong to a customer, and the canonical form under which one mailbox
  can register once. The configured sets are lists of the configuration with the fallbacks of \<^verbatim>\<open>_config_set\<close> already taken; an
  \<^verbatim>\<open>IdentityPolicyError\<close> is the left injection.
\<close>

definition gmail_domain :: string where "gmail_domain = ''gmail.com''"
definition googlemail_domain :: string where "googlemail_domain = ''googlemail.com''"

text \<open>\<open>str.rpartition\<close>.\<close>

definition rpartition_on :: "char \<Rightarrow> string \<Rightarrow> string \<times> bool \<times> string" where
  "rpartition_on c s = (case partition_on c (rev s) of (after, found, before) \<Rightarrow> (rev before, found, rev after))"

text \<open>\<^verbatim>\<open>_iter_config_values\<close> of a sequence.\<close>

definition iter_config_values :: "string list \<Rightarrow> string list" where
  "iter_config_values vs = map (\<lambda>v. py_casefold (py_strip v)) (filter (\<lambda>v. py_strip v \<noteq> []) vs)"

definition root_admin_emails :: "env \<Rightarrow> string list" where
  "root_admin_emails e = iter_config_values (cfg_root_admin_emails (cfg e))"

definition admin_allowed_email_domains :: "env \<Rightarrow> string list" where
  "admin_allowed_email_domains e = iter_config_values (cfg_admin_email_domains (cfg e))"

definition customer_temp_email_domains :: "env \<Rightarrow> string list" where
  "customer_temp_email_domains e = iter_config_values (cfg_temp_email_domains (cfg e))"

text \<open>
  \<^verbatim>\<open>EMAIL_RE.fullmatch\<close> on \<^verbatim>\<open>local@domain\<close>: one \<open>@\<close>, no white space or control character, at most 128 characters before it and 253
  after it.
\<close>

definition email_char :: "char \<Rightarrow> bool" where
  "email_char c \<longleftrightarrow> c \<noteq> CHR ''@'' \<and> \<not> py_isspace c \<and> 31 < (of_char c :: nat) \<and> (of_char c :: nat) \<noteq> 127"

definition email_re :: "string \<Rightarrow> string \<Rightarrow> bool" where
  "email_re local domain \<longleftrightarrow> list_all email_char local \<and> list_all email_char domain
     \<and> 1 \<le> length local \<and> length local \<le> 128 \<and> 1 \<le> length domain \<and> length domain \<le> 253"

definition valid_email_parts :: "string \<Rightarrow> bool \<Rightarrow> string \<Rightarrow> bool" where
  "valid_email_parts local separator domain =
     (let domain = py_strip domain in
      separator \<and> local \<noteq> [] \<and> domain \<noteq> [] \<and> email_re local domain
      \<and> list_all (\<lambda>label. label \<noteq> [] \<and> hd label \<noteq> CHR ''-'' \<and> last label \<noteq> CHR ''-'') (split_on (CHR ''.'') domain))"

definition normalize_identity_email :: "string \<Rightarrow> py_error + string" where
  "normalize_identity_email email =
     (let txt = py_strip email in
      if list_ex (\<lambda>c. of_char c \<in> {0, 10, 13 :: nat}) txt \<or> 255 < length txt then Inl (IdentityPolicyError ''invalid_email'')
      else case partition_on (CHR ''@'') txt of (local, separator, domain) \<Rightarrow>
        if \<not> valid_email_parts local separator domain then Inl (IdentityPolicyError ''invalid_email'')
        else Inr (py_casefold local @ ''@'' @ py_casefold (py_strip domain)))"

definition email_domain :: "string \<Rightarrow> string" where
  "email_domain email = py_casefold (snd (snd (rpartition_on (CHR ''@'') email)))"

definition is_privileged_workplace_email :: "env \<Rightarrow> string \<Rightarrow> bool" where
  "is_privileged_workplace_email e email =
     (case normalize_identity_email email of Inl _ \<Rightarrow> False
      | Inr normalized \<Rightarrow> email_domain normalized \<in> set (admin_allowed_email_domains e))"

definition customer_email_policy_violation :: "env \<Rightarrow> string \<Rightarrow> string option" where
  "customer_email_policy_violation e email =
     (case normalize_identity_email email of
        Inl _ \<Rightarrow> Some ''invalid_email''
      | Inr normalized \<Rightarrow>
          if normalized \<in> set (root_admin_emails e) then Some ''root_admin_allowlisted_email''
          else if email_domain normalized \<in> set (admin_allowed_email_domains e) then Some ''admin_email_domain''
          else if email_domain normalized \<in> set (customer_temp_email_domains e) then Some ''temporary_email_domain''
          else None)"

definition require_customer_email :: "env \<Rightarrow> string \<Rightarrow> py_error + string" where
  "require_customer_email e email =
     (case customer_email_policy_violation e email of
        Some reason \<Rightarrow> Inl (IdentityPolicyError reason)
      | None \<Rightarrow> normalize_identity_email email)"

definition domain_alias :: "string \<Rightarrow> string" where
  "domain_alias domain = (if domain = googlemail_domain then gmail_domain else domain)"

definition canonicalize_customer_email :: "env \<Rightarrow> string \<Rightarrow> py_error + string" where
  "canonicalize_customer_email e email =
     (case normalize_identity_email email of
        Inl err \<Rightarrow> Inl err
      | Inr normalized \<Rightarrow>
          (case rpartition_on (CHR ''@'') normalized of (local, _, domain) \<Rightarrow>
           let local = (if domain \<in> set (iter_config_values (cfg_plus_alias_domains (cfg e))) then fst (partition_on (CHR ''+'') local) else local);
               local = (if domain \<in> set (iter_config_values (cfg_dot_insensitive_domains (cfg e))) then filter (\<lambda>c. c \<noteq> CHR ''.'') local else local)
           in if local = [] then Inl (IdentityPolicyError ''invalid_email'') else Inr (local @ ''@'' @ domain_alias domain)))"

definition require_privileged_workplace_email :: "env \<Rightarrow> string \<Rightarrow> py_error + string" where
  "require_privileged_workplace_email e email =
     (case normalize_identity_email email of
        Inl err \<Rightarrow> Inl err
      | Inr normalized \<Rightarrow>
          if email_domain normalized \<notin> set (admin_allowed_email_domains e) then Inl (IdentityPolicyError ''admin_email_domain_not_allowed'')
          else Inr normalized)"

subsection \<open>Normal addresses\<close>

text \<open>An address in the form the normalisation gives: \<open>local@domain\<close> without upper case.\<close>

definition normal_parts :: "string \<Rightarrow> string \<Rightarrow> bool" where
  "normal_parts local domain \<longleftrightarrow> valid_email_parts local True domain \<and> py_casefold local = local \<and> py_casefold domain = domain
     \<and> py_strip domain = domain \<and> length local + length domain \<le> 254"

lemma partition_at: "c \<notin> set a \<Longrightarrow> partition_on c (a @ c # b) = (a, True, b)"
  by (induction a) (auto simp: partition_on_def)

lemma partition_joins: "partition_on c s = (a, True, b) \<Longrightarrow> s = a @ c # b"
  by (induction s arbitrary: a) (auto simp: partition_on_def split: if_splits)

lemma rpartition_at: "c \<notin> set b \<Longrightarrow> rpartition_on c (a @ c # b) = (a, True, b)"
  using partition_at [of c "rev b" "rev a"] by (simp add: rpartition_on_def)

lemma char_code_inject: "(of_char c :: nat) = of_char d \<longleftrightarrow> c = d"
  by simp

lemma email_char_fold [simp]: "email_char (py_fold_char c) = email_char c"
proof -
  have at: "d = CHR ''@'' \<longleftrightarrow> (of_char d :: nat) = 64" for d :: char
    using char_code_inject [of d "CHR ''@''"] by simp
  show ?thesis by (auto simp: email_char_def at py_fold_char_def py_isspace_def Let_def)
qed

lemma list_all_email_fold [simp]: "list_all email_char (py_casefold s) = list_all email_char s"
  by (simp add: py_casefold_def list_all_iff)

lemma fold_char_mark:
  assumes "m \<in> {CHR ''.'', CHR ''-'', CHR ''+'', CHR ''@''}"
  shows "py_fold_char c = m \<longleftrightarrow> c = m"
proof -
  have "\<not> (65 \<le> (of_char m :: nat) \<and> (of_char m :: nat) \<le> 122)" using assms by auto
  then have "(of_char (py_fold_char c) :: nat) = of_char m \<longleftrightarrow> (of_char c :: nat) = of_char m"
    by (auto simp: py_fold_char_def Let_def)
  then show ?thesis by simp
qed

lemma split_on_nonempty [simp]: "split_on c s \<noteq> []"
  by (induction s) auto

lemma split_on_casefold: "split_on (CHR ''.'') (py_casefold s) = map py_casefold (split_on (CHR ''.'') s)"
proof (induction s)
  case (Cons c s)
  have "py_casefold (c # s) = py_fold_char c # py_casefold s" "py_casefold (c # hd (split_on (CHR ''.'') s)) = py_fold_char c # py_casefold (hd (split_on (CHR ''.'') s))"
    by (simp_all add: py_casefold_def)
  with Cons.IH show ?case
    by (simp add: fold_char_mark hd_map map_tl) (simp add: py_casefold_def)
qed (simp add: py_casefold_def)

lemma casefold_ends: "s \<noteq> [] \<Longrightarrow> hd (py_casefold s) = py_fold_char (hd s)" "s \<noteq> [] \<Longrightarrow> last (py_casefold s) = py_fold_char (last s)"
  "py_casefold s = [] \<longleftrightarrow> s = []"
  by (simp_all add: py_casefold_def hd_map last_map)

lemma email_char_free: "list_all email_char s \<Longrightarrow> CHR ''@'' \<notin> set s" "list_all email_char s \<Longrightarrow> py_strip s = s"
  by (auto simp: list_all_iff email_char_def intro: py_strip_no_space)

text \<open>What the normalisation gives is normal, and a normal address is left alone.\<close>

lemma normalize_gives:
  assumes "normalize_identity_email email = Inr n"
  obtains local domain where "n = local @ ''@'' @ domain" "normal_parts local domain"
proof -
  let ?t = "py_strip email"
  obtain local sep domain where p: "partition_on (CHR ''@'') ?t = (local, sep, domain)" by (cases "partition_on (CHR ''@'') ?t") auto
  from assms p have v: "valid_email_parts local sep domain" and len: "length ?t \<le> 255"
    and n: "n = py_casefold local @ ''@'' @ py_casefold (py_strip domain)"
    by (auto simp: normalize_identity_email_def Let_def split: if_splits)
  from v have "sep" and e: "list_all email_char (py_strip domain)" by (auto simp: valid_email_parts_def email_re_def Let_def)
  then have "?t = local @ ''@'' @ domain"
    using p partition_joins [of "CHR ''@''" ?t local domain] by simp
  with len have "length local + length domain \<le> 254" by simp
  moreover have "length (py_strip domain) \<le> length domain"
    using le_trans [OF length_dropWhile_le [of py_isspace "rev (dropWhile py_isspace domain)"]] length_dropWhile_le [of py_isspace domain]
    by (simp add: py_strip_def)
  moreover have "py_strip (py_casefold (py_strip domain)) = py_casefold (py_strip domain)"
    using email_char_free(2) e by simp
  moreover have "valid_email_parts (py_casefold local) True (py_casefold (py_strip domain))"
    using v calculation(3)
    by (simp add: valid_email_parts_def Let_def email_re_def split_on_casefold casefold_ends fold_char_mark)
       (simp add: list_all_iff casefold_ends fold_char_mark)
  ultimately have "normal_parts (py_casefold local) (py_casefold (py_strip domain))" by (simp add: normal_parts_def)
  with n show thesis by (intro that)
qed

lemma normal_parts_chars:
  "normal_parts local domain \<Longrightarrow> list_all email_char local \<and> list_all email_char domain \<and> local \<noteq> []"
  by (auto simp: normal_parts_def valid_email_parts_def email_re_def Let_def)

lemma normalize_normal:
  assumes "normal_parts local domain"
  shows "normalize_identity_email (local @ ''@'' @ domain) = Inr (local @ ''@'' @ domain)"
proof -
  let ?t = "local @ ''@'' @ domain"
  note c = normal_parts_chars [OF assms]
  have no_space: "\<not> py_isspace x" and no_control: "of_char x \<notin> {0, 10, 13 :: nat}" if "x \<in> set ?t" for x
  proof -
    have at: "\<not> py_isspace (CHR ''@'')" "of_char (CHR ''@'') \<notin> {0, 10, 13 :: nat}" by (simp_all add: py_isspace_def)
    from that c have "email_char x \<or> x = CHR ''@''" by (auto simp: list_all_iff)
    with at show "\<not> py_isspace x" "of_char x \<notin> {0, 10, 13 :: nat}" by (auto simp: email_char_def)
  qed
  have "py_strip ?t = ?t" by (rule py_strip_no_space) (rule no_space)
  moreover have "\<not> list_ex (\<lambda>c. of_char c \<in> {0, 10, 13 :: nat}) ?t" using no_control by (auto simp: list_ex_iff)
  moreover have "partition_on (CHR ''@'') ?t = (local, True, domain)" using c email_char_free partition_at by simp
  moreover have "length ?t \<le> 255" using assms by (simp add: normal_parts_def)
  ultimately show ?thesis using assms by (simp add: normalize_identity_email_def normal_parts_def Let_def)
qed

lemma normal_domain: "normal_parts local domain \<Longrightarrow> email_domain (local @ ''@'' @ domain) = domain"
  using normal_parts_chars [of local domain] rpartition_at [of "CHR ''@''" domain local]
  by (simp add: email_domain_def email_char_free normal_parts_def)

text \<open>A shorter local part, and the alias of a domain, are normal too.\<close>

lemma normal_parts_sub:
  assumes "normal_parts local domain" and "set l \<subseteq> set local" "l \<noteq> []" "length l \<le> length local"
  shows "normal_parts l domain"
proof -
  have "py_casefold l = l"
    using assms(1,2) by (auto simp: normal_parts_def py_casefold_def map_idI subset_iff dest!: map_eq_conv [THEN iffD1, where g1 = id, simplified])
  then show ?thesis
    using assms by (auto simp: normal_parts_def valid_email_parts_def email_re_def Let_def list_all_iff Suc_le_eq)
qed

lemma normal_parts_alias:
  assumes "normal_parts local domain" shows "normal_parts local (domain_alias domain)"
proof -
  have "valid_email_parts local True gmail_domain"
    if "valid_email_parts local True googlemail_domain"
  proof -
    have "py_strip gmail_domain = gmail_domain" "list_all email_char gmail_domain"
      "list_all (\<lambda>label. label \<noteq> [] \<and> hd label \<noteq> CHR ''-'' \<and> last label \<noteq> CHR ''-'') (split_on (CHR ''.'') gmail_domain)"
      "length gmail_domain = 9" by code_simp+
    with that show ?thesis by (auto simp: valid_email_parts_def email_re_def Let_def)
  qed
  moreover have "py_casefold gmail_domain = gmail_domain" "py_strip gmail_domain = gmail_domain"
    "length gmail_domain \<le> length googlemail_domain" by code_simp+
  ultimately show ?thesis using assms by (auto simp: normal_parts_def domain_alias_def)
qed

subsection \<open>Canonical addresses\<close>

definition plus_domain :: "env \<Rightarrow> string \<Rightarrow> bool" where
  "plus_domain e domain \<longleftrightarrow> domain \<in> set (iter_config_values (cfg_plus_alias_domains (cfg e)))"

definition dot_domain :: "env \<Rightarrow> string \<Rightarrow> bool" where
  "dot_domain e domain \<longleftrightarrow> domain \<in> set (iter_config_values (cfg_dot_insensitive_domains (cfg e)))"

definition canonical_local :: "env \<Rightarrow> string \<Rightarrow> string \<Rightarrow> string" where
  "canonical_local e domain local =
     (let local = (if plus_domain e domain then takeWhile (\<lambda>c. c \<noteq> CHR ''+'') local else local)
      in if dot_domain e domain then filter (\<lambda>c. c \<noteq> CHR ''.'') local else local)"

lemma canonicalize_normal:
  assumes "normal_parts local domain"
  shows "canonicalize_customer_email e (local @ ''@'' @ domain) =
    (if canonical_local e domain local = [] then Inl (IdentityPolicyError ''invalid_email'')
     else Inr (canonical_local e domain local @ ''@'' @ domain_alias domain))"
  using normalize_normal [OF assms] rpartition_at [of "CHR ''@''" domain local] normal_parts_chars [OF assms]
  by (simp add: canonicalize_customer_email_def email_char_free canonical_local_def plus_domain_def dot_domain_def Let_def
      partition_on_def)

lemma canonicalize_normalized:
  assumes "normalize_identity_email email = Inr n"
  shows "canonicalize_customer_email e email = canonicalize_customer_email e n"
proof -
  from assms obtain local domain where "n = local @ ''@'' @ domain" "normal_parts local domain" by (rule normalize_gives)
  then have "normalize_identity_email n = Inr n" using normalize_normal by simp
  with assms show ?thesis by (simp add: canonicalize_customer_email_def)
qed

lemma takeWhile_no: "c \<notin> set xs \<Longrightarrow> takeWhile (\<lambda>x. x \<noteq> c) xs = xs"
  by (induction xs) auto

lemma canonical_local_idem:
  assumes "plus_domain e d' \<longrightarrow> plus_domain e d" "dot_domain e d' \<longrightarrow> dot_domain e d"
  shows "canonical_local e d' (canonical_local e d l) = canonical_local e d l"
proof -
  have p: "CHR ''+'' \<notin> set (canonical_local e d l)" if "plus_domain e d"
    using that by (auto simp: canonical_local_def Let_def dest: set_takeWhileD)
  have q: "CHR ''.'' \<notin> set (canonical_local e d l)" if "dot_domain e d"
    using that by (auto simp: canonical_local_def Let_def)
  have "takeWhile (\<lambda>c. c \<noteq> CHR ''+'') (canonical_local e d l) = canonical_local e d l" if "plus_domain e d'"
    by (rule takeWhile_no, rule p) (use that assms(1) in simp)
  moreover have "filter (\<lambda>c. c \<noteq> CHR ''.'') (canonical_local e d l) = canonical_local e d l" if "dot_domain e d'"
    using q that assms(2) by (intro filter_True) auto
  ultimately show ?thesis unfolding canonical_local_def [of e d'] Let_def by presburger
qed

lemma canonical_idempotent:
  assumes "plus_domain e gmail_domain \<longrightarrow> plus_domain e googlemail_domain" "dot_domain e gmail_domain \<longrightarrow> dot_domain e googlemail_domain"
    and "canonicalize_customer_email e email = Inr c"
  shows "canonicalize_customer_email e c = Inr c"
proof -
  from assms(3) obtain n where n: "normalize_identity_email email = Inr n"
    by (auto simp: canonicalize_customer_email_def split: sum.splits)
  then obtain local domain where nd: "n = local @ ''@'' @ domain" and np: "normal_parts local domain" by (rule normalize_gives)
  let ?l = "canonical_local e domain local" and ?d = "domain_alias domain"
  have c: "c = ?l @ ''@'' @ ?d" "?l \<noteq> []"
    using assms(3) canonicalize_normalized [OF n] canonicalize_normal [OF np] by (auto simp: nd split: if_splits)
  have "set ?l \<subseteq> set local"
    by (auto simp: canonical_local_def Let_def dest: set_takeWhileD split: if_splits)
  moreover have "length ?l \<le> length local"
    by (auto simp: canonical_local_def Let_def length_takeWhile_le intro: le_trans [OF length_filter_le length_takeWhile_le])
  ultimately have "normal_parts ?l ?d" using c(2) by (intro normal_parts_alias [OF normal_parts_sub [OF np]])
  moreover have "canonical_local e ?d ?l = ?l"
    using assms(1,2) by (intro canonical_local_idem) (auto simp: domain_alias_def)
  moreover have "domain_alias ?d = ?d" by (simp add: domain_alias_def gmail_domain_def googlemail_domain_def)
  ultimately show ?thesis using canonicalize_normal [of ?l ?d e] c by simp
qed

text \<open>
  C33. The canonical form of an address is stable: canonicalising it again changes nothing, provided the configuration treats
  \<^verbatim>\<open>gmail.com\<close>, to which \<^verbatim>\<open>googlemail.com\<close> is renamed, no more strictly than \<^verbatim>\<open>googlemail.com\<close>. So the canonical column, on which the
  database has a unique index, holds one form per mailbox.
\<close>

theorem canonical_email_stable:
  assumes "plus_domain e gmail_domain \<longrightarrow> plus_domain e googlemail_domain" "dot_domain e gmail_domain \<longrightarrow> dot_domain e googlemail_domain"
    and "canonicalize_customer_email e email = Inr c"
  shows "canonicalize_customer_email e c = Inr c"
  using assms by (rule canonical_idempotent)

theorem canonical_email_stable_witness:
  "canonicalize_customer_email sample_env '' Jo.Doe+x@GoogleMail.com'' = Inr ''jodoe@gmail.com''
   \<and> canonicalize_customer_email sample_env ''jodoe@gmail.com'' = Inr ''jodoe@gmail.com''"
proof -
  have c: "canonicalize_customer_email sample_env '' Jo.Doe+x@GoogleMail.com'' = Inr ''jodoe@gmail.com''" by code_simp
  have "plus_domain sample_env googlemail_domain" "dot_domain sample_env googlemail_domain" by code_simp+
  with canonical_email_stable [OF _ _ c] c show ?thesis by simp
qed

end
