(* ===== verification/Registration.thy ===== *)
theory Registration
  imports Money Identity_Policy
begin

section \<open>Registration\<close>

text \<open>
  \<^verbatim>\<open>app/auth/registration_otp.py\<close>, the one-time code that proves an e-mail address in a browser session, and \<^verbatim>\<open>register_user\<close> of
  \<^verbatim>\<open>app/auth/services.py\<close> with the welcome credit. The random text 9 is the salt of the new password hash and number 32 the reference that
  binds a code to the browser session; the random numbers from 100 on are the digits of account numbers and number 99 the code. Answers
  that are constant messages are units.
\<close>

definition generic_otp_error :: string where
  "generic_otp_error = ''That code has expired or is incorrect. Request a new one and try again.''"

definition generic_registration_email_error :: string where
  "generic_registration_email_error = ''Registration could not be started for that email.''"

definition verify_customer_email_message :: string where
  "verify_customer_email_message = ''Please verify your email address before continuing.''"

definition registration_details_error :: string where
  "registration_details_error = ''Registration could not be completed with those details''"

definition registration_otp_ttl_seconds :: int where "registration_otp_ttl_seconds = 5 * 60"
definition registration_otp_resend_cooldown_seconds :: int where "registration_otp_resend_cooldown_seconds = 60"
definition registration_otp_max_attempts :: int where "registration_otp_max_attempts = 5"
definition otp_binding_key :: string where "otp_binding_key = ''registration_otp_session_ref''"
definition otp_pending_key :: string where "otp_pending_key = ''registration_otp_pending_email''"
definition otp_verified_key :: string where "otp_verified_key = ''registration_otp_verified_email''"
definition otp_verified_at_key :: string where "otp_verified_at_key = ''registration_otp_verified_at''"

definition normalize_registration_email :: "string \<Rightarrow> string" where
  "normalize_registration_email email = py_casefold (py_strip email)"

definition is_approved_registration_email :: "env \<Rightarrow> string \<Rightarrow> bool" where
  "is_approved_registration_email e email \<longleftrightarrow> customer_email_policy_violation e email = None"

text \<open>\<^verbatim>\<open>str(session.get(key) or "")\<close>.\<close>

definition sess_text :: "env \<Rightarrow> string \<Rightarrow> web_session \<Rightarrow> string" where
  "sess_text e key w = json_text e (json_or (sess_get w key) (JStr []))"

subsection \<open>The stored challenge\<close>

definition otp_session_reference :: "env \<Rightarrow> bool \<Rightarrow> string request" where
  "otp_session_reference e create =
     bindA (readA (sess_text e otp_binding_key)) (\<lambda>stored.
     bindA (condA (stored = [] \<and> create) (webA (sess_set otp_binding_key (JStr (random_text e 32))))) (\<lambda>_.
     bindA (readA ws_sid) (\<lambda>sid.
     let session_ref = (if stored = [] \<and> create then random_text e 32 else stored) in
     ret (if session_ref \<noteq> [] then session_ref else if sid \<noteq> [] then sid else ''anonymous''))))"

definition otp_session_binding_hash :: "env \<Rightarrow> bool \<Rightarrow> string request" where
  "otp_session_binding_hash e create =
     bindA (otp_session_reference e create) (\<lambda>r. ret (active_hmac_hex e (''registration-otp-session:'' @ r) 64))"

definition otp_email_hash :: "env \<Rightarrow> string \<Rightarrow> string" where
  "otp_email_hash e email = active_hmac_hex e (''registration-otp-email:'' @ normalize_registration_email email) 64"

definition otp_hmac :: "env \<Rightarrow> string \<Rightarrow> string \<Rightarrow> string" where
  "otp_hmac e email code = active_hmac_hex e (''registration-otp:v2:'' @ normalize_registration_email email @ '':'' @ code) 64"

definition delete_otp :: "int \<Rightarrow> database \<Rightarrow> database" where
  "delete_otp i db = db\<lparr>registration_otps := filter (\<lambda>r. ro_id r \<noteq> i) (registration_otps db)\<rparr>"

definition update_otp :: "int \<Rightarrow> (registration_otp \<Rightarrow> registration_otp) \<Rightarrow> database \<Rightarrow> database" where
  "update_otp i f db = db\<lparr>registration_otps := upd_where (\<lambda>r. ro_id r = i) f (registration_otps db)\<rparr>"

definition add_otp :: "registration_otp \<Rightarrow> database \<Rightarrow> database" where
  "add_otp r db = db\<lparr>registration_otps := registration_otps db @ [r]\<rparr>"

definition is_otp_for :: "string \<Rightarrow> string \<Rightarrow> registration_otp \<Rightarrow> bool" where
  "is_otp_for binding email_h r \<longleftrightarrow> ro_session_binding_hash r = binding \<and> ro_email_hash r = email_h \<and> ro_used_at r = None"

definition load_otp_challenge :: "env \<Rightarrow> string \<Rightarrow> bool \<Rightarrow> registration_otp option request" where
  "load_otp_challenge e email create =
     bindA (otp_session_binding_hash e create) (\<lambda>binding.
     bindA (queryA (\<lambda>db. filter (is_otp_for binding (otp_email_hash e email)) (registration_otps db))) (\<lambda>rows.
     bindA (scalar_one_or_none rows) (\<lambda>found.
     case found of None \<Rightarrow> ret None
     | Some r \<Rightarrow>
         if ro_expires_at r \<le> now e
         then bindA (updateA (delete_otp (ro_id r))) (\<lambda>_. bindA commitA (\<lambda>_. ret None))
         else ret (Some r))))"

definition clear_registration_progress_state :: "unit request" where
  "clear_registration_progress_state =
     webA (\<lambda>w. sess_pop otp_verified_at_key (sess_pop otp_verified_key (sess_pop otp_pending_key w)))"

definition clear_registration_session_state :: "unit request" where
  "clear_registration_session_state =
     bindA clear_registration_progress_state (\<lambda>_. webA (sess_pop otp_binding_key))"

definition user_by_email :: "env \<Rightarrow> string \<Rightarrow> user option request" where
  "user_by_email e email =
     (case canonicalize_customer_email e email of
        Inl err \<Rightarrow> raise err
      | Inr canonical \<Rightarrow>
          bindA (queryA (\<lambda>db. filter (\<lambda>u. u_email_canonical u = Some canonical \<and> u_account_type u = ''customer'') (users db)))
            scalar_one_or_none)"

subsection \<open>Requesting and verifying a code\<close>

definition email_ref :: "env \<Rightarrow> string \<Rightarrow> json" where
  "email_ref e email = opt_json JStr (audit_reference e ''registration_email'' email 32)"

text \<open>The refusal of an address by the policy, common to three operations.\<close>

definition reject_email :: "env \<Rightarrow> string \<Rightarrow> string \<Rightarrow> string \<Rightarrow> py_error \<Rightarrow> 'a request" where
  "reject_email e event email message err =
     (case err of
        IdentityPolicyError reason \<Rightarrow>
          bindA (audit_event e event ''blocked'' None
            [(''reason'', JStr reason), (''email_ref'', email_ref e (normalize_registration_email email))] None) (\<lambda>_.
          raise (RegistrationOtpError message 400 None))
      | _ \<Rightarrow> raise err)"

definition new_otp :: "env \<Rightarrow> string \<Rightarrow> string \<Rightarrow> database \<Rightarrow> registration_otp" where
  "new_otp e binding email db =
     \<lparr>ro_id = next_id (map ro_id (registration_otps db)), ro_session_binding_hash = binding, ro_email_hash = otp_email_hash e email,
      ro_otp_hmac = [], ro_attempt_count = 0, ro_resend_available_at = now e, ro_expires_at = now e, ro_used_at = None,
      ro_created_at = now e, ro_updated_at = now e\<rparr>"

definition issued_otp :: "env \<Rightarrow> string \<Rightarrow> string \<Rightarrow> registration_otp \<Rightarrow> registration_otp" where
  "issued_otp e email code r = r\<lparr>ro_otp_hmac := otp_hmac e email code, ro_attempt_count := 0,
     ro_resend_available_at := now e + seconds registration_otp_resend_cooldown_seconds,
     ro_expires_at := now e + seconds registration_otp_ttl_seconds, ro_used_at := None, ro_updated_at := now e\<rparr>"

definition store_otp :: "env \<Rightarrow> string \<Rightarrow> string \<Rightarrow> registration_otp option \<Rightarrow> registration_otp request" where
  "store_otp e email code challenge =
     bindA (case challenge of
         Some r \<Rightarrow> bindA (updateA (update_otp (ro_id r) (issued_otp e email code))) (\<lambda>_. ret (issued_otp e email code r))
       | None \<Rightarrow>
           bindA (otp_session_binding_hash e True) (\<lambda>binding.
           bindA (queryA (new_otp e binding email)) (\<lambda>r.
           bindA (updateA (add_otp (issued_otp e email code r))) (\<lambda>_. ret (issued_otp e email code r))))) (\<lambda>r.
     bindA commitA (\<lambda>_. ret r))"

definition deliver_otp :: "env \<Rightarrow> string \<Rightarrow> registration_otp \<Rightarrow> unit request" where
  "deliver_otp e email r =
     try_catch (send_security_email e email ''SITBank registration verification code'')
       (\<lambda>err. bindA (updateA (delete_otp (ro_id r))) (\<lambda>_.
          bindA commitA (\<lambda>_.
          bindA clear_registration_progress_state (\<lambda>_.
          bindA (audit_event e ''registration_otp'' ''failed'' None
            [(''reason'', JStr ''email_delivery_failed''), (''email_ref'', email_ref e email), (''error_type'', JStr (error_type err))] None) (\<lambda>_.
          raise (RegistrationOtpError ''Could not send a code right now. Please try again in a moment.'' 503 None))))))"

definition otp_cooldown :: "env \<Rightarrow> string \<Rightarrow> registration_otp option \<Rightarrow> unit request" where
  "otp_cooldown e email challenge =
     (case challenge of None \<Rightarrow> ret ()
      | Some r \<Rightarrow>
          let retry_after = (ro_resend_available_at r - now e) div second_us in
          condA (0 < retry_after)
            (bindA (audit_event e ''registration_otp'' ''failed'' None [(''reason'', JStr ''cooldown''), (''email_ref'', email_ref e email)] None) (\<lambda>_.
             raise (RegistrationOtpError ''Please wait a moment before requesting a new code.'' 429 (Some retry_after)))))"

definition request_registration_otp :: "env \<Rightarrow> string \<Rightarrow> unit request" where
  "request_registration_otp e email =
     bindA (try_catch
         (consume_durable_rate_limit e ''registration_otp_request''
            (text_or (req_remote_addr e) ''unknown'' @ '':'' @ normalize_registration_email email) 10 (60 * 60))
         (\<lambda>err. case err of
            DurableRateLimitExceeded retry_after \<Rightarrow>
              bindA (audit_event e ''registration_otp'' ''blocked'' None [(''reason'', JStr ''durable_rate_limit'')] None) (\<lambda>_.
              raise (RegistrationOtpError ''Please wait before requesting another code.'' 429 (Some retry_after)))
          | _ \<Rightarrow> raise err)) (\<lambda>_.
     case require_customer_email e email of
       Inl err \<Rightarrow> reject_email e ''registration_otp'' email generic_registration_email_error err
     | Inr normalized \<Rightarrow>
         bindA (user_by_email e normalized) (\<lambda>existing.
         case existing of
           Some u \<Rightarrow> audit_event e ''registration_otp'' ''requested'' (Some (u_id u))
             [(''email_ref'', email_ref e normalized), (''eligible'', JBool False)] None
         | None \<Rightarrow>
             bindA (load_otp_challenge e normalized True) (\<lambda>challenge.
             bindA (otp_cooldown e normalized challenge) (\<lambda>_.
             bindA clear_registration_progress_state (\<lambda>_.
             bindA (store_otp e normalized (pad 6 (random_below e 99 1000000)) challenge) (\<lambda>r.
             bindA (deliver_otp e normalized r) (\<lambda>_.
             bindA (audit_event e ''registration_otp'' ''requested'' None
               [(''email_ref'', email_ref e normalized), (''eligible'', JBool True)] None) (\<lambda>_.
             webA (sess_set otp_pending_key (JStr normalized)))))))))) "

definition refuse_otp :: "env \<Rightarrow> string \<Rightarrow> registration_otp \<Rightarrow> unit request" where
  "refuse_otp e email r =
     (let attempts = ro_attempt_count r + 1; locked = registration_otp_max_attempts \<le> attempts in
      bindA (updateA (if locked then delete_otp (ro_id r)
        else update_otp (ro_id r) (\<lambda>r. r\<lparr>ro_attempt_count := attempts, ro_updated_at := now e\<rparr>))) (\<lambda>_.
      bindA commitA (\<lambda>_.
      bindA (audit_event e ''registration_otp'' (if locked then ''locked'' else ''failed'') None
        [(''reason'', JStr ''invalid_code''), (''email_ref'', email_ref e email), (''attempts'', JInt attempts)] None) (\<lambda>_.
      raise (RegistrationOtpError generic_otp_error 400 None)))))"

definition accept_otp :: "env \<Rightarrow> string \<Rightarrow> registration_otp \<Rightarrow> unit request" where
  "accept_otp e email r =
     bindA (updateA (delete_otp (ro_id r))) (\<lambda>_.
     bindA commitA (\<lambda>_.
     bindA (webA (\<lambda>w. sess_pop otp_pending_key (sess_set otp_verified_at_key (JInt (now_s e)) (sess_set otp_verified_key (JStr email) w)))) (\<lambda>_.
     audit_event e ''registration_otp'' ''verified'' None [(''email_ref'', email_ref e email)] None)))"

definition verify_registration_otp :: "env \<Rightarrow> string \<Rightarrow> string \<Rightarrow> unit request" where
  "verify_registration_otp e email code =
     (case require_customer_email e email of
        Inl err \<Rightarrow> reject_email e ''registration_otp'' email generic_otp_error err
      | Inr normalized \<Rightarrow>
          bindA (load_otp_challenge e normalized False) (\<lambda>challenge.
          case challenge of
            None \<Rightarrow>
              bindA (audit_event e ''registration_otp'' ''expired'' None [(''email_ref'', email_ref e normalized)] None) (\<lambda>_.
              raise (RegistrationOtpError generic_otp_error 400 None))
          | Some r \<Rightarrow>
              if ro_otp_hmac r \<noteq> otp_hmac e normalized (py_strip code) then refuse_otp e normalized r
              else accept_otp e normalized r))"

subsection \<open>The verified address\<close>

definition pending_registration_email :: "env \<Rightarrow> web_session \<Rightarrow> string option" where
  "pending_registration_email e w =
     (let email = normalize_registration_email (sess_text e otp_pending_key w) in if email = [] then None else Some email)"

definition current_verified_registration_email :: "env \<Rightarrow> string option request" where
  "current_verified_registration_email e =
     bindA (readA id) (\<lambda>w.
     let verified = normalize_registration_email (sess_text e otp_verified_key w) in
     case json_int (json_or (sess_get w otp_verified_at_key) (JInt 0)) of
       None \<Rightarrow> raise (ValueError [])
     | Some verified_at \<Rightarrow>
         if verified = [] \<or> customer_email_policy_violation e verified \<noteq> None \<or> registration_otp_ttl_seconds < now_s e - verified_at
         then bindA (condA (verified \<noteq> []) clear_registration_session_state) (\<lambda>_. ret None)
         else ret (Some verified))"

definition require_current_verified_registration_email :: "env \<Rightarrow> string request" where
  "require_current_verified_registration_email e =
     bindA (current_verified_registration_email e) (\<lambda>verified.
     case verified of
       Some email \<Rightarrow> ret email
     | None \<Rightarrow> bindA (audit_event e ''registration'' ''failure'' None [(''reason'', JStr ''email_otp_required'')] None) (\<lambda>_.
         raise (RegistrationOtpError verify_customer_email_message 400 None)))"

definition require_verified_registration_email :: "env \<Rightarrow> string \<Rightarrow> string request" where
  "require_verified_registration_email e email =
     (case require_customer_email e email of
        Inl err \<Rightarrow> reject_email e ''registration'' email verify_customer_email_message err
      | Inr normalized \<Rightarrow>
          bindA (current_verified_registration_email e) (\<lambda>verified.
          if verified = Some normalized then ret normalized
          else bindA (audit_event e ''registration'' ''failure'' None
              [(''reason'', JStr ''email_otp_required''), (''email_ref'', email_ref e normalized)] None) (\<lambda>_.
            raise (RegistrationOtpError verify_customer_email_message 400 None))))"

definition consume_verified_registration_email :: "env \<Rightarrow> string \<Rightarrow> unit request" where
  "consume_verified_registration_email e email =
     bindA (readA (sess_text e otp_verified_key)) (\<lambda>stored.
     condA (normalize_registration_email stored = normalize_registration_email email) clear_registration_session_state)"

subsection \<open>The new account\<close>

record registration_form =
  rg_email :: string
  rg_username :: string
  rg_password :: string
  rg_confirm_password :: string
  rg_full_name :: string
  rg_phone_number :: string

definition taken :: "(user \<Rightarrow> bool) \<Rightarrow> bool request" where
  "taken p = bindA (queryA (\<lambda>db. filter p (users db))) (\<lambda>rows. bindA (scalar_one_or_none rows) (\<lambda>found. ret (found \<noteq> None)))"

definition username_taken :: "string \<Rightarrow> bool request" where
  "username_taken username = taken (\<lambda>u. py_casefold (u_username u) = normalize_text username)"

definition phone_number_taken :: "string \<Rightarrow> bool request" where
  "phone_number_taken phone = taken (\<lambda>u. u_phone_number u = Some (py_strip phone))"

definition email_taken :: "string \<Rightarrow> bool request" where
  "email_taken canonical = taken (\<lambda>u. u_email_canonical u = Some canonical)"

definition account_number_candidate :: "env \<Rightarrow> nat \<Rightarrow> string" where
  "account_number_candidate e attempt = concat (map (\<lambda>i. int_str (random_below e (100 + 12 * attempt + i) 10)) [0..<12])"

fun first_free_account_number :: "env \<Rightarrow> nat list \<Rightarrow> string request" where
  "first_free_account_number e [] = raise (auth_error ''Could not generate a unique account number'' 500)"
| "first_free_account_number e (attempt # attempts) =
     bindA (taken (\<lambda>u. u_account_number u = Some (account_number_candidate e attempt))) (\<lambda>clash.
     if clash then first_free_account_number e attempts else ret (account_number_candidate e attempt))"

definition generate_account_number :: "env \<Rightarrow> string request" where
  "generate_account_number e = first_free_account_number e [0..<10]"

text \<open>The row with the defaults of its columns, \<^verbatim>\<open>mark_password_changed\<close> included.\<close>

definition new_customer :: "env \<Rightarrow> registration_form \<Rightarrow> string \<Rightarrow> string \<Rightarrow> string \<Rightarrow> string \<Rightarrow> database \<Rightarrow> user" where
  "new_customer e form email canonical pw_hash account db =
     \<lparr>u_id = next_id (map u_id (users db)), u_username = py_strip (rg_username form), u_email = email, u_email_canonical = Some canonical,
      u_password_hash = pw_hash, u_account_type = ''customer'', u_account_status = ''active'', u_full_name = py_strip (rg_full_name form),
      u_phone_number = Some (py_strip (rg_phone_number form)), u_payup_nickname = None, u_account_number = Some account,
      u_staff_personal_email = None, u_workplace_email_verified_at = None, u_password_changed_at = now e,
      u_force_password_change = False, u_force_password_change_reason = None, u_force_password_change_at = None,
      u_mfa_secret_ciphertext = None, u_mfa_secret_nonce = None, u_mfa_enabled = False, u_mfa_pending_started_at = None,
      u_mfa_pending_session_hash = None, u_balance = 0, u_payup_daily_limit = 50000, u_payup_enabled = True,
      u_transfer_email_enabled = True, u_local_transfer_daily_limit = 50000, u_is_frozen = False, u_failed_login_count = 0,
      u_security_locked_at = None, u_security_lock_reason = None, u_created_at = now e, u_last_login_at = None\<rparr>"

definition add_user :: "user \<Rightarrow> database \<Rightarrow> database" where
  "add_user u db = db\<lparr>users := users db @ [u]\<rparr>"

text \<open>\<^verbatim>\<open>db.session.flush()\<close>: the pending rows are checked and written, without publishing them.\<close>

definition flushA :: "unit request" where
  "flushA s =
     (if \<not> numerics_ok (working s) then (Inl DataError, s\<lparr>working := committed s\<rparr>)
      else if \<not> constraints_ok (working s) then (Inl IntegrityError, s\<lparr>working := committed s\<rparr>)
      else (Inr (), s))"

definition registration_welcome_credit_amount :: cents where "registration_welcome_credit_amount = 10000"

definition add_registration_credit :: "string \<Rightarrow> signature \<Rightarrow> int \<Rightarrow> cents \<Rightarrow> time \<Rightarrow> database \<Rightarrow> database" where
  "add_registration_credit ref sig uid amount created_at db =
     (case sig of (h, k, a, v) \<Rightarrow>
       db\<lparr>registration_credits := registration_credits db @ [\<lparr>cr_id = next_id (map cr_id (registration_credits db)), cr_ref = ref,
          cr_hash = h, cr_key_id = k, cr_algorithm = a, cr_version = v, cr_user_id = uid, cr_amount = amount, cr_status = ''completed'',
          cr_created_at = created_at\<rparr>]\<rparr>)"

definition apply_registration_welcome_credit :: "env \<Rightarrow> user \<Rightarrow> unit request" where
  "apply_registration_welcome_credit e u =
     bindA (queryA (\<lambda>db. filter (\<lambda>c. cr_user_id c = u_id u) (registration_credits db))) (\<lambda>existing.
     if existing \<noteq> [] then ret ()
     else case sign_registration_credit_integrity e (new_uuid e) (u_id u) registration_welcome_credit_amount ''completed'' (now e) of
         Inl err \<Rightarrow> raise err
       | Inr sig \<Rightarrow>
           bindA (updateA (add_balance (u_id u) registration_welcome_credit_amount)) (\<lambda>_.
           bindA (updateA (add_registration_credit (new_uuid e) sig (u_id u) registration_welcome_credit_amount (now e))) (\<lambda>_.
           audit_event_required e ''registration_credit'' ''success'' (Some (u_id u))
             [(''credit_type'', JStr ''welcome''), (''amount'', JStr ''fixed_sgd_100''),
              (''credit_ref'', opt_json JStr (audit_reference e ''registration_credit'' (new_uuid e) 32))] None)))"

definition registration_failure :: "env \<Rightarrow> string \<Rightarrow> string \<Rightarrow> int \<Rightarrow> 'a request" where
  "registration_failure e reason message status =
     bindA (audit_event e ''registration'' ''failure'' None [(''reason'', JStr reason)] None) (\<lambda>_. raise (auth_error message status))"

definition registration_email :: "env \<Rightarrow> registration_form \<Rightarrow> string request" where
  "registration_email e form =
     try_catch (if rg_email form \<noteq> [] then require_verified_registration_email e (rg_email form)
        else require_current_verified_registration_email e)
       (\<lambda>err. case err of RegistrationOtpError message status _ \<Rightarrow> raise (auth_error message status) | _ \<Rightarrow> raise err)"

definition store_customer :: "env \<Rightarrow> user \<Rightarrow> unit request" where
  "store_customer e u =
     bindA (updateA (add_user u)) (\<lambda>_.
     try_catch (bindA flushA (\<lambda>_. bindA (apply_registration_welcome_credit e u) (\<lambda>_. commitA)))
       (\<lambda>err. case err of
          IntegrityError \<Rightarrow> bindA rollbackA (\<lambda>_. registration_failure e ''integrity_error'' registration_details_error 400)
        | RuntimeError _ \<Rightarrow> bindA rollbackA (\<lambda>_. registration_failure e ''welcome_credit_unavailable''
            ''Registration could not be completed right now. Please try again later.'' 503)
        | AuditWriteError _ \<Rightarrow> bindA rollbackA (\<lambda>_. registration_failure e ''welcome_credit_unavailable''
            ''Registration could not be completed right now. Please try again later.'' 503)
        | _ \<Rightarrow> raise err))"

text \<open>The checks of \<open>register_user\<close> up to the new row, and the rest.\<close>

definition prepare_customer :: "env \<Rightarrow> registration_form \<Rightarrow> (user \<times> string \<times> string list) request" where
  "prepare_customer e form =
     bindA (registration_email e form) (\<lambda>normalized.
     case canonicalize_customer_email e normalized of
       Inl err \<Rightarrow> raise err
     | Inr canonical \<Rightarrow>
         if rg_password form \<noteq> rg_confirm_password form
         then registration_failure e ''password_mismatch'' ''Passwords must match'' 400
         else
           bindA (try_catch (validate_password_policy e (rg_password form))
               (\<lambda>err. case err of PasswordPolicyError message \<Rightarrow> registration_failure e ''password_policy'' message 400 | _ \<Rightarrow> raise err)) (\<lambda>warnings.
           bindA (username_taken (rg_username form)) (\<lambda>dup_name.
           if dup_name then registration_failure e ''duplicate_username'' registration_details_error 400
           else bindA (phone_number_taken (rg_phone_number form)) (\<lambda>dup_phone.
           if dup_phone then registration_failure e ''duplicate_phone'' registration_details_error 400
           else bindA (email_taken canonical) (\<lambda>dup_email.
           if dup_email then registration_failure e ''duplicate_email'' registration_details_error 400
           else (case hash_password e (random_text e 9) (rg_password form) of
               None \<Rightarrow> raise (ValueError ''Password exceeds maximum length'')
             | Some h \<Rightarrow>
                 bindA (generate_account_number e) (\<lambda>account.
                 bindA (queryA (new_customer e form normalized canonical h account)) (\<lambda>u.
                 ret (u, normalized, warnings)))))))))"

definition register_user :: "env \<Rightarrow> registration_form \<Rightarrow> (user \<times> string list) request" where
  "register_user e form =
     bindA (prepare_customer e form) (\<lambda>(u, normalized, warnings).
     bindA (store_customer e u) (\<lambda>_.
     bindA (consume_verified_registration_email e normalized) (\<lambda>_.
     bindA (audit_event e ''registration'' ''success'' (Some (u_id u))
       [(''password_screening'', JStr (if warnings = [] then ''local_and_live'' else ''local_only_fallback''))] None) (\<lambda>_.
     ret (u, warnings)))))"

subsection \<open>What the books keep\<close>

lemma preserves_flushA [preserves_rules]: "preserves (both P) flushA"
  by (rule preservesI) (auto simp: both_def flushA_def)

lemma flushA_refuses: "\<not> storable (working s) \<Longrightarrow> \<exists>err. flushA s = (Inl err, s\<lparr>working := committed s\<rparr>)"
  by (cases "numerics_ok (working s)") (simp_all add: flushA_def storable_def)

lemma preserves_taken [preserves_rules]: "preserves (both P) (taken p)"
  unfolding taken_def by (intro preserves_rules)

lemma preserves_otp_updates [preserves_rules]:
  assumes "money_only P"
  shows "preserves (both P) (updateA (delete_otp i))" "preserves (both P) (updateA (update_otp i f))" "preserves (both P) (updateA (add_otp r))"
  using assms by (auto intro!: preserves_money_update simp: delete_otp_def update_otp_def add_otp_def)

lemma preserves_otp_binding [preserves_rules]: "preserves (both P) (otp_session_binding_hash e b)"
  unfolding otp_session_binding_hash_def otp_session_reference_def Let_def by (intro preserves_rules)

lemma preserves_load_otp [preserves_rules]: "money_only P \<Longrightarrow> preserves (both P) (load_otp_challenge e m b)"
  unfolding load_otp_challenge_def by (intro preserves_rules)

lemma preserves_clear_registration [preserves_rules]:
  "preserves (both P) clear_registration_progress_state" "preserves (both P) clear_registration_session_state"
  unfolding clear_registration_session_state_def clear_registration_progress_state_def by (intro preserves_rules)+

lemma preserves_user_by_email [preserves_rules]: "preserves (both P) (user_by_email e m)"
  unfolding user_by_email_def by (intro preserves_rules)

lemma preserves_reject_email [preserves_rules]: "keeps_audit e P \<Longrightarrow> preserves (both P) (reject_email e ev m msg err)"
  unfolding reject_email_def by (intro preserves_rules)

lemma preserves_current_verified [preserves_rules]: "preserves (both P) (current_verified_registration_email e)"
  unfolding current_verified_registration_email_def Let_def by (intro preserves_rules)

lemma preserves_registration_email [preserves_rules]: "keeps_audit e P \<Longrightarrow> preserves (both P) (registration_email e form)"
  unfolding registration_email_def require_verified_registration_email_def require_current_verified_registration_email_def
  by (intro preserves_rules)

lemma preserves_consume_verified [preserves_rules]: "preserves (both P) (consume_verified_registration_email e m)"
  unfolding consume_verified_registration_email_def by (intro preserves_rules)

lemma preserves_registration_failure [preserves_rules]: "keeps_audit e P \<Longrightarrow> preserves (both P) (registration_failure e r m c)"
  unfolding registration_failure_def by (intro preserves_rules)

lemma preserves_generate_account_number [preserves_rules]: "preserves (both P) (generate_account_number e)"
proof -
  have "preserves (both P) (first_free_account_number e as)" for as
  proof (induction as)
    case Nil
    show ?case unfolding first_free_account_number.simps by (intro preserves_rules)
  next
    case (Cons a as)
    show ?case unfolding first_free_account_number.simps by (intro preserves_rules Cons.IH)
  qed
  then show ?thesis by (simp add: generate_account_number_def)
qed

lemma preserves_request_otp [preserves_rules]: "money_only P \<Longrightarrow> preserves (both P) (request_registration_otp e m)"
  unfolding request_registration_otp_def otp_cooldown_def store_otp_def deliver_otp_def Let_def
  by (intro preserves_rules money_frees)

lemma preserves_verify_otp [preserves_rules]: "money_only P \<Longrightarrow> preserves (both P) (verify_registration_otp e m c)"
  unfolding verify_registration_otp_def refuse_otp_def accept_otp_def Let_def
  by (intro preserves_rules money_frees)

subsection \<open>The books after a registration\<close>

definition post_registration :: "string \<Rightarrow> signature \<Rightarrow> user \<Rightarrow> time \<Rightarrow> database \<Rightarrow> database" where
  "post_registration ref sig u created_at db =
     add_registration_credit ref sig (u_id u) registration_welcome_credit_amount created_at
       (add_balance (u_id u) registration_welcome_credit_amount (add_user u db))"

lemma post_registration_frames [simp]:
  "users (post_registration ref sig u c db) = users (add_balance (u_id u) registration_welcome_credit_amount (add_user u db))"
  "transactions (post_registration ref sig u c db) = transactions db" "topup_credits (post_registration ref sig u c db) = topup_credits db"
  by (simp_all add: post_registration_def add_registration_credit_def add_user_def split: prod.split)

lemma credits_post_registration:
  "\<exists>r. registration_credits (post_registration ref sig u c db) = registration_credits db @ [r] \<and> cr_user_id r = u_id u
     \<and> cr_amount r = registration_welcome_credit_amount"
  by (auto simp: post_registration_def add_registration_credit_def add_user_def split: prod.split)

lemma sound_books_post_registration:
  assumes "sound_books db" and "u_id u \<notin> u_id ` set (users db)" and "u_balance u = 0"
  shows "sound_books (post_registration ref sig u c db)"
proof -
  let ?d = "post_registration ref sig u c db" and ?w = registration_welcome_credit_amount and ?a = "add_user u db"
  have l: "ledger_ok db" and so: "solvent_books db" and tc: "total_is_credited db" and rk: "references_known db"
    using assms(1) by (auto simp: sound_books_def)
  obtain r where r: "registration_credits ?d = registration_credits db @ [r]" "cr_user_id r = u_id u" "cr_amount r = ?w"
    using credits_post_registration by blast
  have us: "users ?d = users (add_balance (u_id u) ?w ?a)" and a: "users ?a = users db @ [u]" by (simp_all add: add_user_def)
  have dist: "distinct (map u_id (users ?a))" using assms(2) l by (auto simp: a ledger_ok_def)
  have net: "account_net i ?d = account_net i db + (if i = u_id u then ?w else 0)" for i
    using r by (auto simp: account_net_def credits_of_def)
  have found: "user_by_id ?a (u_id u) = Some u" using dist by (intro user_by_id_key) (simp_all add: a)
  have known: "user_by_id ?a i = (if i = u_id u then Some u else user_by_id db i)" for i
  proof (cases "i = u_id u")
    case False
    then show ?thesis by (simp add: user_by_id_def a find_append split: option.split)
  qed (simp add: found)
  have "ledger_ok ?d"
    unfolding ledger_ok_iff
  proof (intro conjI allI impI)
    show "distinct (map u_id (users ?d))" using dist by (simp add: us)
    fix i v assume v: "user_by_id ?d i = Some v"
    have "user_by_id ?d i = user_by_id (add_balance (u_id u) ?w ?a) i" by (simp add: user_by_id_def us)
    with v show "u_balance v = account_net i ?d"
      using l unknown_account_net [OF rk assms(2)] assms(3) unfolding ledger_ok_iff
      by (auto simp: user_by_id_add_balance known net split: if_splits)
  qed
  moreover have "solvent_books ?d"
    using so assms(3) by (auto simp: solvent_books_def us users_add_balance set_upd_where a registration_welcome_credit_amount_def)
  moreover have "total_balance ?d = total_balance db + ?w"
    using total_add_balance [OF dist found, of ?w] assms(3) by (simp add: total_balance_def us a)
  then have "total_is_credited ?d"
    using tc dist r by (simp add: total_is_credited_def us credited_def)
  moreover have "references_known ?d"
    using rk r by (auto simp: references_known_def us a)
  ultimately show ?thesis by (simp add: sound_books_def)
qed

lemma raises_registration_failure [simp]: "raises (registration_failure e r m c)"
  unfolding registration_failure_def by (intro raises_bindA raises_raise)

definition registration_handler :: "env \<Rightarrow> py_error \<Rightarrow> unit request" where
  "registration_handler e err =
     (case err of
        IntegrityError \<Rightarrow> bindA rollbackA (\<lambda>_. registration_failure e ''integrity_error'' registration_details_error 400)
      | RuntimeError _ \<Rightarrow> bindA rollbackA (\<lambda>_. registration_failure e ''welcome_credit_unavailable''
          ''Registration could not be completed right now. Please try again later.'' 503)
      | AuditWriteError _ \<Rightarrow> bindA rollbackA (\<lambda>_. registration_failure e ''welcome_credit_unavailable''
          ''Registration could not be completed right now. Please try again later.'' 503)
      | _ \<Rightarrow> raise err)"

lemma rollback_failure:
  assumes "registration_failure e r m c (s\<lparr>working := committed s\<rparr>) = (x, t)" "P (committed s)" "keeps_audit e P"
  shows "isl x \<and> P (committed t)"
proof -
  from assms(1) have "isl x" by (metis isl_def sum.exhaust raises_not_Inr raises_registration_failure)
  moreover have "both P (s\<lparr>working := committed s\<rparr>)" using assms(2) by (simp add: both_def)
  then have "both P t" by (rule preservesD' [OF preserves_registration_failure [OF assms(3)] assms(1)])
  ultimately show ?thesis by (simp add: both_def)
qed

lemma registration_handler_raises:
  assumes "registration_handler e err s = (x, t)" "P (committed s)" "keeps_audit e P"
  shows "isl x \<and> P (committed t)"
  using assms(1) rollback_failure [of e _ _ _ s x t P, OF _ assms(2,3)] assms(2)
  by (cases err) (auto simp: registration_handler_def)

lemma store_customer_cases:
  assumes run: "store_customer e u s = (x, t)" and P: "P (committed s)" "keeps_audit e P"
    and none: "\<forall>c \<in> set (registration_credits (working s)). cr_user_id c \<noteq> u_id u"
  obtains (raised) "isl x" "P (committed t)"
  | (stored) sig ev where "x = Inr ()"
      "sign_registration_credit_integrity e (new_uuid e) (u_id u) registration_welcome_credit_amount ''completed'' (now e) = Inr sig"
      "storable (add_user u (working s))" "storable (post_registration (new_uuid e) sig u (now e) (working s))"
      "t = s\<lparr>working := add_audit ev (post_registration (new_uuid e) sig u (now e) (working s)),
             committed := add_audit ev (post_registration (new_uuid e) sig u (now e) (working s))\<rparr>"
proof -
  let ?s1 = "s\<lparr>working := add_user u (working s)\<rparr>"
  let ?m = "bindA flushA (\<lambda>_. bindA (apply_registration_welcome_credit e u) (\<lambda>_. commitA))"
  have try_m: "try_catch ?m (registration_handler e) ?s1 = (x, t)"
    using run by (simp add: store_customer_def registration_handler_def [abs_def])
  have failed: thesis if "?m ?s1 = (Inl err, t')" "committed t' = committed s" for err t'
  proof -
    have "registration_handler e err t' = (x, t)" using try_m that(1) by (simp add: try_catch_def)
    from registration_handler_raises [OF this, of P] P that(2) show thesis by (intro raised) auto
  qed
  show thesis
  proof (cases "storable (add_user u (working s))")
    case False
    then obtain err where "flushA ?s1 = (Inl err, ?s1\<lparr>working := committed s\<rparr>)"
      using flushA_refuses [of ?s1] by auto
    then show thesis by (intro failed [of err "?s1\<lparr>working := committed s\<rparr>"]) simp_all
  next
    case True
    then have fl: "flushA ?s1 = (Inr (), ?s1)" by (simp add: flushA_def storable_def)
    have empty: "filter (\<lambda>c. cr_user_id c = u_id u) (registration_credits (working ?s1)) = []"
      using none by (simp add: add_user_def filter_empty_conv)
    show thesis
    proof (cases "sign_registration_credit_integrity e (new_uuid e) (u_id u) registration_welcome_credit_amount ''completed'' (now e)")
      case (Inl err)
      have "apply_registration_welcome_credit e u ?s1 = (Inl err, ?s1)"
        using Inl empty by (simp add: apply_registration_welcome_credit_def)
      then show thesis using fl by (intro failed [of err ?s1]) simp_all
    next
      case (Inr sig)
      let ?db = "post_registration (new_uuid e) sig u (now e) (working s)" and ?s2 = "s\<lparr>working := post_registration (new_uuid e) sig u (now e) (working s)\<rparr>"
      let ?a = "audit_event_required e ''registration_credit'' ''success'' (Some (u_id u))
             [(''credit_type'', JStr ''welcome''), (''amount'', JStr ''fixed_sgd_100''),
              (''credit_ref'', opt_json JStr (audit_reference e ''registration_credit'' (new_uuid e) 32))] None"
      have ap: "apply_registration_welcome_credit e u ?s1 = ?a ?s2"
        using Inr empty by (simp add: apply_registration_welcome_credit_def post_registration_def)
      show thesis
      proof (cases rule: audit_event_required_cases [of e "''registration_credit''" "''success''" "Some (u_id u)"
             "[(''credit_type'', JStr ''welcome''), (''amount'', JStr ''fixed_sgd_100''),
              (''credit_ref'', opt_json JStr (audit_reference e ''registration_credit'' (new_uuid e) 32))]" None ?s2])
        case (1 ev)
        let ?s3 = "?s2\<lparr>working := add_audit ev ?db\<rparr>"
        have m: "?m ?s1 = commitA ?s3" using fl ap 1 by simp
        show thesis
        proof (cases rule: commitA_cases [of ?s3])
          case c: 1
          then have "(x, t) = (Inr (), ?s3\<lparr>committed := working ?s3\<rparr>)" using try_m m by (simp add: try_catch_def)
          then show thesis using True Inr c(1) by (intro stored [of sig ev]) simp_all
        next
          case (2 err)
          then show thesis using m by (intro failed [of err "?s3\<lparr>working := committed ?s3\<rparr>"]) simp_all
        qed
      next
        case (2 m)
        then show thesis using fl ap by (intro failed [of "AuditWriteError m" ?s2]) simp_all
      qed
    qed
  qed
qed

lemma preserves_prepare_customer [preserves_rules]: "money_only P \<Longrightarrow> preserves (both P) (prepare_customer e form)"
  unfolding prepare_customer_def username_taken_def phone_number_taken_def email_taken_def
  by (intro preserves_rules money_frees)

text \<open>An address is verified in a browser session for five minutes after its code was accepted there.\<close>

definition verified_in :: "env \<Rightarrow> web_session \<Rightarrow> string \<Rightarrow> bool" where
  "verified_in e w email \<longleftrightarrow>
     email = normalize_registration_email (sess_text e otp_verified_key w) \<and> email \<noteq> [] \<and> customer_email_policy_violation e email = None
     \<and> (case json_int (json_or (sess_get w otp_verified_at_key) (JInt 0)) of
          None \<Rightarrow> False | Some at \<Rightarrow> now_s e - at \<le> registration_otp_ttl_seconds)"

lemma current_verified:
  "current_verified_registration_email e s = (Inr (Some email), t) \<Longrightarrow> verified_in e (web s) email"
  by (auto simp: current_verified_registration_email_def verified_in_def readA_def Let_def bindA_eq_Inr split: option.splits if_splits)

lemma raises_reject_email [simp]: "raises (reject_email e ev m msg err)"
  by (cases err) (simp_all add: reject_email_def raises_bindA)

lemma registration_email_verified: "registration_email e form s = (Inr email, t) \<Longrightarrow> verified_in e (web s) email"
proof -
  assume run: "registration_email e form s = (Inr email, t)"
  have h: "raises (case err of RegistrationOtpError message status x \<Rightarrow> raise (auth_error message status) | _ \<Rightarrow> raise err)" for err :: py_error
    by (cases err) simp_all
  from run have "(if rg_email form \<noteq> [] then require_verified_registration_email e (rg_email form)
      else require_current_verified_registration_email e) s = (Inr email, t)"
    by (simp only: registration_email_def try_catch_raises [OF h])
  then show ?thesis
    by (auto simp: require_verified_registration_email_def require_current_verified_registration_email_def
        bindA_eq_Inr raises_not_Inr dest: current_verified split: if_splits sum.splits option.splits)
qed

lemma prepared_customer:
  assumes "prepare_customer e form s = (Inr (u, email, warnings), t)"
  obtains canonical h account where "verified_in e (web s) email" "canonicalize_customer_email e email = Inr canonical"
    "rg_password form = rg_confirm_password form" "hash_password e (random_text e 9) (rg_password form) = Some h"
    "u = new_customer e form email canonical h account (working t)"
proof -
  note nf = raises_not_Inr [OF raises_registration_failure]
  from assms obtain n s1 where 1: "registration_email e form s = (Inr n, s1)" by (auto simp: prepare_customer_def bindA_eq_Inr)
  with assms obtain canonical where 2: "canonicalize_customer_email e n = Inr canonical"
    by (cases "canonicalize_customer_email e n") (auto simp: prepare_customer_def)
  with assms 1 have 3: "rg_password form = rg_confirm_password form" by (auto simp: prepare_customer_def nf split: if_splits)
  have "\<exists>h account. hash_password e (random_text e 9) (rg_password form) = Some h \<and> n = email
      \<and> u = new_customer e form n canonical h account (working t)"
    using assms 1 2 3
    by (cases "hash_password e (random_text e 9) (rg_password form)")
       (auto simp: prepare_customer_def bindA_eq_Inr nf if_distribR split: if_splits)
  with 2 3 that registration_email_verified [OF 1] show thesis by blast
qed

lemma money_view_post_registration:
  assumes "money_view d = money_view db"
  shows "money_view (post_registration ref sig u c d) = money_view (post_registration ref sig u c db)"
proof -
  have "map money_user (users (add_user u d)) = map money_user (users (add_user u db))"
    using assms by (simp add: add_user_def money_view_def)
  with assms show ?thesis
    using money_users_add_balance [of "u_id u" registration_welcome_credit_amount "add_user u d"]
      money_users_add_balance [of "u_id u" registration_welcome_credit_amount "add_user u db"]
    by (simp add: post_registration_def money_view_def add_registration_credit_def add_user_def split: prod.split)
qed

lemma audit_returns: "audit_event e ty out uid md sid s = (Inl err, t) \<Longrightarrow> False"
  using audit_event_returns [of e ty out uid md sid s] by auto

lemma consume_verified_returns: "consume_verified_registration_email e email s = (Inl err, t) \<Longrightarrow> False"
  by (auto simp: consume_verified_registration_email_def readA_def condA_def clear_registration_session_state_def
      clear_registration_progress_state_def webA_def split: if_splits)

lemma registered:
  assumes run: "register_user e form s = (x, t)" and s: "both (\<lambda>d. money_view d = money_view db) s" and rk: "references_known db"
  shows "case x of
      Inr (u, w) \<Rightarrow> \<exists>email canonical sig. verified_in e (web s) email \<and> u_email u = email
        \<and> canonicalize_customer_email e email = Inr canonical \<and> u_email_canonical u = Some canonical
        \<and> u_account_type u = ''customer'' \<and> \<not> u_mfa_enabled u \<and> u_balance u = 0 \<and> u_id u \<notin> u_id ` set (users db)
        \<and> sign_registration_credit_integrity e (new_uuid e) (u_id u) registration_welcome_credit_amount ''completed'' (now e) = Inr sig
        \<and> both (\<lambda>d. money_view d = money_view (post_registration (new_uuid e) sig u (now e) db)) t
    | Inl _ \<Rightarrow> money_view (committed t) = money_view db"
proof (cases "prepare_customer e form s")
  case (Pair y s1)
  let ?P = "\<lambda>d. money_view d = money_view db"
  have P: "money_only ?P" by (rule money_only_view)
  have s1: "both ?P s1" using preservesD' [OF preserves_prepare_customer [OF P] Pair s] .
  show ?thesis
  proof (cases y)
    case (Inl err)
    with run Pair s1 show ?thesis by (auto simp: register_user_def both_def)
  next
    case (Inr p)
    obtain u email warnings where p: "p = (u, email, warnings)" by (cases p) auto
    let ?rest = "bindA (store_customer e u) (\<lambda>_. bindA (consume_verified_registration_email e email) (\<lambda>_.
       bindA (audit_event e ''registration'' ''success'' (Some (u_id u))
       [(''password_screening'', JStr (if warnings = [] then ''local_and_live'' else ''local_only_fallback''))] None) (\<lambda>_.
       ret (u, warnings))))"
    have rest: "?rest s1 = (x, t)" using run Pair Inr p by (simp add: register_user_def)
    obtain canonical h account where c: "verified_in e (web s) email" "canonicalize_customer_email e email = Inr canonical"
      and u: "u = new_customer e form email canonical h account (working s1)"
      using Pair unfolding Inr p by (rule prepared_customer)
    have ids: "u_id ` set (users (working s1)) = u_id ` set (users db)"
      using s1 by (intro id_set_view) (simp add: both_def money_view_def)
    have fresh: "u_id u \<notin> u_id ` set (users db)"
      using next_id_fresh [of "map u_id (users (working s1))"] by (simp add: u new_customer_def ids)
    have none: "\<forall>c \<in> set (registration_credits (working s1)). cr_user_id c \<noteq> u_id u"
    proof
      fix c assume "c \<in> set (registration_credits (working s1))"
      then have "cr_user_id c \<in> u_id ` set (users db)" using rk s1 by (simp add: references_known_def both_def money_view_def)
      with fresh show "cr_user_id c \<noteq> u_id u" by metis
    qed
    obtain z s2 where st: "store_customer e u s1 = (z, s2)" by fastforce
    have cm: "money_view (committed s1) = money_view db" using s1 by (simp add: both_def)
    from st cm money_only_frees(4) [OF P, of e] none show ?thesis
    proof (cases rule: store_customer_cases [where P = ?P])
      case raised
      with st rest show ?thesis by (cases z) auto
    next
      case (stored sig ev)
      let ?db = "post_registration (new_uuid e) sig u (now e) db"
      let ?Q = "\<lambda>d. money_view d = money_view ?db"
      have "both ?Q s2"
        using stored(5) money_view_post_registration [of "working s1" db] s1 by (simp add: both_def)
      moreover have "preserves (both ?Q) (bindA (consume_verified_registration_email e email) (\<lambda>_.
       bindA (audit_event e ''registration'' ''success'' (Some (u_id u))
       [(''password_screening'', JStr (if warnings = [] then ''local_and_live'' else ''local_only_fallback''))] None) (\<lambda>_.
       ret (u, warnings))))"
        by (intro preserves_rules money_only_frees money_only_view)
      ultimately have t: "both ?Q t" using rest st stored(1) by (auto dest: preservesD')
      have x: "x = Inr (u, warnings)"
        using rest st stored(1) by (auto simp: bindA_def split: prod.splits sum.splits dest!: consume_verified_returns audit_returns)
      have f: "u_email u = email" "u_email_canonical u = Some canonical" "u_account_type u = ''customer''" "\<not> u_mfa_enabled u" "u_balance u = 0"
        by (simp_all add: u new_customer_def)
      show ?thesis
        unfolding x sum.case prod.case
        by (intro exI [of _ email] exI [of _ canonical] exI [of _ sig] conjI) (use c f fresh stored(2) t in simp_all)
    qed
  qed
qed

text \<open>
  C21. What a registration does. When \<^verbatim>\<open>register_user\<close> returns, the address of the new account was verified in this browser session
  less than five minutes ago and is allowed for customers; the account is a new customer account without an authenticator, its
  canonical address is stored, and the books differ by exactly this account and one signed welcome credit of 100 dollars. When it raises, no
  balance, ledger row or credit of the database has changed.
\<close>

theorem registration_effect:
  assumes "register_user e form s = (x, t)" and "working s = committed s" and "references_known (committed s)"
  shows "case x of
      Inr (u, w) \<Rightarrow> \<exists>email canonical sig. verified_in e (web s) email \<and> u_email u = email
        \<and> canonicalize_customer_email e email = Inr canonical \<and> u_email_canonical u = Some canonical
        \<and> u_account_type u = ''customer'' \<and> \<not> u_mfa_enabled u \<and> u_balance u = 0 \<and> u_id u \<notin> u_id ` set (users (committed s))
        \<and> sign_registration_credit_integrity e (new_uuid e) (u_id u) registration_welcome_credit_amount ''completed'' (now e) = Inr sig
        \<and> both (\<lambda>d. money_view d = money_view (post_registration (new_uuid e) sig u (now e) (committed s))) t
    | Inl _ \<Rightarrow> money_view (committed t) = money_view (committed s)"
  using assms(1) _ assms(3) by (rule registered) (simp add: both_def assms(2))

subsection \<open>Guessing a code\<close>

definition otp_binding :: "env \<Rightarrow> web_session \<Rightarrow> string" where
  "otp_binding e w = active_hmac_hex e (''registration-otp-session:'' @
     (let r = sess_text e otp_binding_key w in if r \<noteq> [] then r else if ws_sid w \<noteq> [] then ws_sid w else ''anonymous'')) 64"

lemma binding_hash_stored: "otp_session_binding_hash e False s = (Inr (otp_binding e (web s)), s)"
  by (simp add: otp_session_binding_hash_def otp_session_reference_def otp_binding_def readA_def Let_def)

text \<open>The challenge a browser session has for an address; the unique index leaves at most one.\<close>

definition challenges :: "env \<Rightarrow> web_session \<Rightarrow> string \<Rightarrow> database \<Rightarrow> registration_otp list" where
  "challenges e w email db = filter (is_otp_for (otp_binding e w) (otp_email_hash e email)) (registration_otps db)"

lemma distinct_filter_single:
  assumes "distinct (map k xs)" and "\<And>x. p x \<Longrightarrow> k x = v"
  shows "filter p xs = [] \<or> (\<exists>x. filter p xs = [x])"
proof -
  have "distinct (map k (filter p xs))" using assms(1) by (rule distinct_map_filter)
  moreover have "set (map k (filter p xs)) \<subseteq> {v}" using assms(2) by auto
  ultimately have "length (map k (filter p xs)) \<le> 1"
    by (metis card_mono card.empty card_insert_disjoint distinct_card empty_iff finite.emptyI finite.insertI One_nat_def)
  then show ?thesis by (cases "filter p xs") auto
qed

lemma challenges_single:
  assumes "storable db"
  shows "challenges e w email db = [] \<or> (\<exists>r. challenges e w email db = [r])"
  unfolding challenges_def
  by (rule distinct_filter_single [where k = "\<lambda>r. (ro_session_binding_hash r, ro_email_hash r)"])
     (use assms in \<open>auto simp: storable_def constraints_ok_def is_otp_for_def\<close>)

lemma load_otp_stored:
  "load_otp_challenge e email False s =
     (case challenges e (web s) email (working s) of
        [] \<Rightarrow> (Inr None, s)
      | [r] \<Rightarrow> if ro_expires_at r \<le> now e
          then bindA (updateA (delete_otp (ro_id r))) (\<lambda>_. bindA commitA (\<lambda>_. ret None)) s
          else (Inr (Some r), s)
      | _ \<Rightarrow> (Inl MultipleResultsFound, s))"
  by (simp add: load_otp_challenge_def binding_hash_stored challenges_def scalar_one_or_none_def split: list.split)

lemma storable_otps:
  assumes "storable db"
  shows "storable (delete_otp i db)"
    and "(\<And>r. (ro_session_binding_hash (f r), ro_email_hash (f r)) = (ro_session_binding_hash r, ro_email_hash r)) \<Longrightarrow> storable (update_otp i f db)"
proof -
  let ?k = "\<lambda>r. (ro_session_binding_hash r, ro_email_hash r)"
  have "distinct (map ?k (registration_otps db))" using assms by (simp add: storable_def constraints_ok_def)
  then have "distinct (map ?k (filter (\<lambda>r. ro_id r \<noteq> i) (registration_otps db)))" by (rule distinct_map_filter)
  then show "storable (delete_otp i db)"
    using assms by (simp add: storable_def constraints_ok_def numerics_ok_def delete_otp_def)
  assume "\<And>r. ?k (f r) = ?k r"
  then have "map ?k (upd_where (\<lambda>r. ro_id r = i) f (registration_otps db)) = map ?k (registration_otps db)"
    by (rule map_upd_where_frame)
  then show "storable (update_otp i f db)"
    using assms by (simp add: storable_def constraints_ok_def numerics_ok_def update_otp_def)
qed

text \<open>
  A wrong code is refused, and what is left of the challenge is nothing, or the same challenge with one more attempt counted, below
  the maximum.
\<close>

definition worn :: "env \<Rightarrow> web_session \<Rightarrow> string \<Rightarrow> database \<Rightarrow> database \<Rightarrow> bool" where
  "worn e w email db db' \<longleftrightarrow> (\<forall>r' \<in> set (challenges e w email db'). \<exists>r \<in> set (challenges e w email db).
     ro_otp_hmac r' = ro_otp_hmac r \<and> ro_attempt_count r' = ro_attempt_count r + 1 \<and> ro_attempt_count r' < registration_otp_max_attempts)"

definition at_rest :: "world \<Rightarrow> bool" where
  "at_rest s \<longleftrightarrow> working s = committed s \<and> storable (committed s)"

lemma audit_at_rest:
  assumes "audit_event e ty out uid md sid s = (y, t)" and "at_rest s"
  shows "at_rest t" "web t = web s" "registration_otps (committed t) = registration_otps (committed s)"
proof -
  have "at_rest t \<and> web t = web s \<and> registration_otps (committed t) = registration_otps (committed s)"
    using assms by (cases rule: audit_event_cases [of e s ty out uid md sid]) (auto simp: at_rest_def)
  then show "at_rest t" "web t = web s" "registration_otps (committed t) = registration_otps (committed s)" by auto
qed

lemma refused_at_rest:
  assumes "bindA (audit_event e ty out uid md sid) (\<lambda>_. raise err) s = (y, t)" and "at_rest s"
  shows "isl y" "at_rest t" "web t = web s" "registration_otps (committed t) = registration_otps (committed s)"
proof -
  obtain t' where "audit_event e ty out uid md sid s = (Inr (), t')" using audit_event_returns by blast
  with audit_at_rest [OF this assms(2)] assms(1)
  show "isl y" "at_rest t" "web t = web s" "registration_otps (committed t) = registration_otps (committed s)" by auto
qed

lemma refused_worn:
  assumes "bindA (audit_event e ty out uid md sid) (\<lambda>_. raise err) s1 = (y, t)" and "at_rest s1" and "web s1 = w"
    and "worn e' w m d (committed s1)"
  shows "isl y \<and> at_rest t \<and> web t = w \<and> worn e' w m d (committed t)"
  using refused_at_rest [OF assms(1,2)] assms(3,4) unfolding worn_def challenges_def by simp

lemma challenges_delete: "challenges e w email db = [r] \<Longrightarrow> challenges e w email (delete_otp (ro_id r) db) = []"
proof -
  assume c: "challenges e w email db = [r]"
  have "challenges e w email (delete_otp (ro_id r) db) = filter (\<lambda>q. ro_id q \<noteq> ro_id r) (challenges e w email db)"
    by (simp add: challenges_def delete_otp_def conj_commute)
  with c show ?thesis by simp
qed

lemma challenges_update:
  assumes "challenges e w email db = [r]" and "\<And>q. is_otp_for (otp_binding e w) (otp_email_hash e email) (f q) = is_otp_for (otp_binding e w) (otp_email_hash e email) q"
  shows "challenges e w email (update_otp (ro_id r) f db) = [f r]"
proof -
  let ?p = "is_otp_for (otp_binding e w) (otp_email_hash e email)" and ?g = "\<lambda>q. if ro_id q = ro_id r then f q else q"
  have "filter ?p (map ?g xs) = map ?g (filter ?p xs)" for xs
    by (induction xs) (auto simp: assms(2))
  then have "challenges e w email (update_otp (ro_id r) f db) = map ?g (challenges e w email db)"
    by (simp add: challenges_def update_otp_def upd_where_def)
  with assms(1) show ?thesis by simp
qed

lemma commit_at_rest:
  assumes "storable db"
  shows "commitA (s\<lparr>working := db\<rparr>) = (Inr (), s\<lparr>working := db, committed := db\<rparr>)" "at_rest (s\<lparr>working := db, committed := db\<rparr>)"
  using assms by (simp_all add: commitA_ok at_rest_def)

lemma wrong_code_wears:
  assumes run: "verify_registration_otp e email code s = (y, t)" and s: "at_rest s" and m: "require_customer_email e email = Inr m"
    and wrong: "\<forall>r \<in> set (challenges e (web s) m (committed s)). ro_otp_hmac r \<noteq> otp_hmac e m (py_strip code)"
  shows "isl y \<and> at_rest t \<and> web t = web s \<and> worn e (web s) m (committed s) (committed t)"
proof -
  have ws: "working s = committed s" and st: "storable (committed s)" using s by (auto simp: at_rest_def)
  let ?none = "bindA (audit_event e ''registration_otp'' ''expired'' None [(''email_ref'', email_ref e m)] None) (\<lambda>_.
              raise (RegistrationOtpError generic_otp_error 400 None)) :: unit request"
  from challenges_single [OF st, of e "web s" m] consider
    "challenges e (web s) m (committed s) = []" | r where "challenges e (web s) m (committed s) = [r]" by blast
  then show ?thesis
  proof cases
    case 1
    then have "?none s = (y, t)" using run m ws by (simp add: verify_registration_otp_def load_otp_stored)
    then show ?thesis by (rule refused_worn) (use s 1 in \<open>simp_all add: worn_def\<close>)
  next
    case (2 r)
    let ?gone = "s\<lparr>working := delete_otp (ro_id r) (committed s), committed := delete_otp (ro_id r) (committed s)\<rparr>"
    note dl = commit_at_rest [OF storable_otps(1) [OF st, of "ro_id r"], of s]
    note gone = challenges_delete [OF 2]
    show ?thesis
    proof (cases "ro_expires_at r \<le> now e")
      case True
      then have "?none ?gone = (y, t)" using run m ws 2 dl by (simp add: verify_registration_otp_def load_otp_stored)
      then show ?thesis by (rule refused_worn) (use dl(2) gone in \<open>simp_all add: worn_def\<close>)
    next
      case False
      have "ro_otp_hmac r \<noteq> otp_hmac e m (py_strip code)" using wrong 2 by simp
      then have rf: "refuse_otp e m r s = (y, t)" using run m ws 2 False by (simp add: verify_registration_otp_def load_otp_stored)
      show ?thesis
      proof (cases "registration_otp_max_attempts \<le> ro_attempt_count r + 1")
        case True
        from rf have "bindA (audit_event e ''registration_otp'' ''locked'' None
          [(''reason'', JStr ''invalid_code''), (''email_ref'', email_ref e m), (''attempts'', JInt (ro_attempt_count r + 1))] None) (\<lambda>_.
          raise (RegistrationOtpError generic_otp_error 400 None)) ?gone = (y, t)"
          using True ws dl by (simp add: refuse_otp_def Let_def)
        then show ?thesis by (rule refused_worn) (use dl(2) gone in \<open>simp_all add: worn_def\<close>)
      next
        case less: False
        let ?f = "\<lambda>q. q\<lparr>ro_attempt_count := ro_attempt_count r + 1, ro_updated_at := now e\<rparr>"
        let ?more = "s\<lparr>working := update_otp (ro_id r) ?f (committed s), committed := update_otp (ro_id r) ?f (committed s)\<rparr>"
        note up = commit_at_rest [OF storable_otps(2) [OF st, of ?f "ro_id r"], of s]
        have ch: "challenges e (web s) m (update_otp (ro_id r) ?f (committed s)) = [?f r]"
          by (rule challenges_update [OF 2]) (simp add: is_otp_for_def)
        from rf have "bindA (audit_event e ''registration_otp'' ''failed'' None
          [(''reason'', JStr ''invalid_code''), (''email_ref'', email_ref e m), (''attempts'', JInt (ro_attempt_count r + 1))] None) (\<lambda>_.
          raise (RegistrationOtpError generic_otp_error 400 None)) ?more = (y, t)"
          using less ws up by (simp add: refuse_otp_def Let_def)
        then show ?thesis by (rule refused_worn) (use up(2) ch 2 less in \<open>simp_all add: worn_def\<close>)
      qed
    qed
  qed
qed

text \<open>Guesses at the code of one address, from one browser, each at its own time.\<close>

definition serve_guess :: "env \<Rightarrow> string \<Rightarrow> time \<times> string \<Rightarrow> unit request" where
  "serve_guess e email = (\<lambda>(at, code). served (verify_registration_otp (e\<lparr>now := at\<rparr>) email code))"

lemma at_another_time [simp]:
  "challenges (e\<lparr>now := at\<rparr>) = challenges e" "otp_hmac (e\<lparr>now := at\<rparr>) = otp_hmac e"
  "require_customer_email (e\<lparr>now := at\<rparr>) = require_customer_email e"
proof -
  have h: "active_hmac_hex (e\<lparr>now := at\<rparr>) = active_hmac_hex e" by (simp add: fun_eq_iff active_hmac_hex_def active_key_def)
  have "json_text (e\<lparr>now := at\<rparr>) = json_text e" by (rule ext) (simp add: json_text_def split: json.split)
  then have "otp_binding (e\<lparr>now := at\<rparr>) = otp_binding e" by (intro ext) (simp only: otp_binding_def sess_text_def h)
  with h show "challenges (e\<lparr>now := at\<rparr>) = challenges e" by (intro ext) (simp add: challenges_def otp_email_hash_def)
  show "otp_hmac (e\<lparr>now := at\<rparr>) = otp_hmac e" by (intro ext) (simp only: otp_hmac_def h)
  show "require_customer_email (e\<lparr>now := at\<rparr>) = require_customer_email e"
  proof -
    have "root_admin_emails (e\<lparr>now := at\<rparr>) = root_admin_emails e" "admin_allowed_email_domains (e\<lparr>now := at\<rparr>) = admin_allowed_email_domains e"
      "customer_temp_email_domains (e\<lparr>now := at\<rparr>) = customer_temp_email_domains e"
      by (simp_all add: root_admin_emails_def admin_allowed_email_domains_def customer_temp_email_domains_def)
    then show ?thesis by (intro ext) (simp only: require_customer_email_def customer_email_policy_violation_def)
  qed
qed

lemma worn_at_another_time [simp]: "worn (e\<lparr>now := at\<rparr>) = worn e"
  by (simp add: fun_eq_iff worn_def)

definition guesses_wrong :: "env \<Rightarrow> web_session \<Rightarrow> string \<Rightarrow> (time \<times> string) list \<Rightarrow> database \<Rightarrow> bool" where
  "guesses_wrong e w m gs db \<longleftrightarrow>
     (\<forall>r \<in> set (challenges e w m db). \<forall>g \<in> set gs. ro_otp_hmac r \<noteq> otp_hmac e m (py_strip (snd g)))"

lemma guess_wears:
  assumes "at_rest s" "require_customer_email e email = Inr m" "guesses_wrong e (web s) m [g] (committed s)"
    and "serve_guess e email g s = (y, t)"
  shows "isl y \<and> at_rest t \<and> web t = web s \<and> worn e (web s) m (committed s) (committed t)"
proof -
  obtain at code where g: "g = (at, code)" by (cases g)
  from assms(4) obtain t' where "verify_registration_otp (e\<lparr>now := at\<rparr>) email code s = (y, t')" "t = t'\<lparr>working := committed t'\<rparr>"
    by (auto simp: serve_guess_def g served_eq)
  with wrong_code_wears [of "e\<lparr>now := at\<rparr>" email code s y t' m] assms(1-3) show ?thesis
    by (auto simp: guesses_wrong_def g at_rest_def)
qed

lemma guesses_wear:
  assumes "at_rest s" "require_customer_email e email = Inr m" "guesses_wrong e (web s) m gs (committed s)" "n \<le> length gs"
    and "\<forall>r \<in> set (challenges e (web s) m (committed s)).
      registration_otp_max_attempts - int n \<le> ro_attempt_count r \<and> ro_attempt_count r < registration_otp_max_attempts"
  shows "list_all isl (fst (run_all (serve_guess e email) gs s)) \<and> at_rest (snd (run_all (serve_guess e email) gs s))
    \<and> challenges e (web (snd (run_all (serve_guess e email) gs s))) m (committed (snd (run_all (serve_guess e email) gs s))) = []"
  using assms
proof (induction gs arbitrary: s n)
  case Nil
  then have "n = 0" by simp
  then have "r \<notin> set (challenges e (web s) m (committed s))" for r using Nil.prems(5) by force
  then have "challenges e (web s) m (committed s) = []" by (cases "challenges e (web s) m (committed s)") auto
  with Nil show ?case by simp
next
  case (Cons g gs)
  obtain y t where run: "serve_guess e email g s = (y, t)" by fastforce
  from guess_wears [OF Cons.prems(1,2) _ run] Cons.prems(3)
  have w: "isl y" "at_rest t" "web t = web s" "worn e (web s) m (committed s) (committed t)"
    by (auto simp: guesses_wrong_def)
  have wrong: "guesses_wrong e (web t) m gs (committed t)"
    using w(3,4) Cons.prems(3) by (fastforce simp: guesses_wrong_def worn_def)
  have count: "\<forall>r \<in> set (challenges e (web t) m (committed t)).
      registration_otp_max_attempts - int (n - 1) \<le> ro_attempt_count r \<and> ro_attempt_count r < registration_otp_max_attempts"
    using w(3,4) Cons.prems(5) by (fastforce simp: worn_def)
  have "n - 1 \<le> length gs" using Cons.prems(4) by simp
  from Cons.IH [OF w(2) Cons.prems(2) wrong this count] run w(1) show ?case
    by (cases "run_all (serve_guess e email) gs t") simp
qed

text \<open>
  C22. The code of a registration cannot be guessed by trying: after five wrong codes for an address in one browser session, no matter
  when they are tried, every further code is refused, the right one too, until a new code is requested.
\<close>

theorem otp_guesses_bounded:
  assumes "at_rest s" and "require_customer_email e email = Inr m"
    and "\<forall>r \<in> set (challenges e (web s) m (committed s)). 0 \<le> ro_attempt_count r \<and> ro_attempt_count r < registration_otp_max_attempts"
    and "guesses_wrong e (web s) m gs (committed s)" and "registration_otp_max_attempts \<le> int (length gs)"
  shows "list_all isl (fst (run_all (serve_guess e email) gs s))
    \<and> isl (fst (serve_guess e email g (snd (run_all (serve_guess e email) gs s))))"
proof -
  let ?t = "snd (run_all (serve_guess e email) gs s)"
  have "nat registration_otp_max_attempts \<le> length gs" using assms(5) by simp
  from guesses_wear [OF assms(1,2,4) this] assms(3)
  have t: "list_all isl (fst (run_all (serve_guess e email) gs s))" "at_rest ?t" "challenges e (web ?t) m (committed ?t) = []"
    by (auto simp: registration_otp_max_attempts_def)
  obtain y t' where "serve_guess e email g ?t = (y, t')" by fastforce
  with guess_wears [OF t(2) assms(2) _ this] t show ?thesis by (simp add: guesses_wrong_def)
qed

subsection \<open>Examples\<close>

definition sample_otp :: registration_otp where
  "sample_otp = \<lparr>ro_id = 1, ro_session_binding_hash = otp_binding sample_env64 (web (fresh_world empty_db)),
     ro_email_hash = replicate 64 (CHR ''a''), ro_otp_hmac = replicate 64 (CHR ''b''), ro_attempt_count = 0,
     ro_resend_available_at = 0, ro_expires_at = now sample_env64 + 1, ro_used_at = None, ro_created_at = 0, ro_updated_at = 0\<rparr>"

definition otp_world :: world where
  "otp_world = fresh_world (empty_db\<lparr>registration_otps := [sample_otp]\<rparr>)"

theorem otp_guesses_bounded_witness:
  "isl (fst (serve_guess sample_env64 ''jo@example.com'' (0, ''123456'')
     (snd (run_all (serve_guess sample_env64 ''jo@example.com'') (replicate 5 (0, ''000000'')) otp_world))))"
proof -
  have m: "require_customer_email sample_env64 ''jo@example.com'' = Inr ''jo@example.com''" by code_simp
  have "storable (empty_db\<lparr>registration_otps := [r]\<rparr>)" for r by code_simp
  then have r: "at_rest otp_world" by (simp add: at_rest_def otp_world_def fresh_world_def)
  have h: "otp_hmac sample_env64 x y = replicate 64 (CHR ''a'')" for x y
    by (simp add: otp_hmac_def active_hmac_hex_def sample_env64_def)
  have "challenges sample_env64 (web otp_world) ''jo@example.com'' (committed otp_world) = [sample_otp]"
    by (simp add: challenges_def otp_world_def fresh_world_def is_otp_for_def sample_otp_def otp_email_hash_def active_hmac_hex_def
        sample_env64_def)
  then have "guesses_wrong sample_env64 (web otp_world) ''jo@example.com'' (replicate 5 (0, ''000000'')) (committed otp_world)"
    "\<forall>r \<in> set (challenges sample_env64 (web otp_world) ''jo@example.com'' (committed otp_world)).
       0 \<le> ro_attempt_count r \<and> ro_attempt_count r < registration_otp_max_attempts"
    by (simp_all add: guesses_wrong_def h registration_otp_max_attempts_def) (simp_all add: sample_otp_def numeral_eq_Suc)
  with otp_guesses_bounded [OF r m] show ?thesis by (simp add: registration_otp_max_attempts_def)
qed

definition sample_form :: registration_form where
  "sample_form = \<lparr>rg_email = [], rg_username = ''jo'', rg_password = ''open sesame now'', rg_confirm_password = ''open sesame now'',
     rg_full_name = ''Jo'', rg_phone_number = ''81234567''\<rparr>"

definition verified_world :: world where
  "verified_world = (fresh_world empty_db)\<lparr>web := \<lparr>ws_sid = ''sid'', ws_data =
     [(otp_verified_key, JStr ''jo@example.com''), (otp_verified_at_key, JInt (now_s sample_env64))], ws_modified = False\<rparr>\<rparr>"

abbreviation sample_customer :: "string \<Rightarrow> user" where
  "sample_customer h \<equiv> new_customer sample_env64 sample_form ''jo@example.com'' ''jo@example.com'' h ''000000000000'' empty_db"

lemma prepared_example:
  assumes "hash_password sample_env64 (random_text sample_env64 9) (rg_password sample_form) = Some h"
  shows "prepare_customer sample_env64 sample_form verified_world = (Inr (sample_customer h, ''jo@example.com'', []), verified_world)"
proof -
  have 1: "registration_email sample_env64 sample_form verified_world = (Inr ''jo@example.com'', verified_world)" by code_simp
  have 2: "canonicalize_customer_email sample_env64 ''jo@example.com'' = Inr ''jo@example.com''" by code_simp
  have 3: "validate_password_policy sample_env64 (rg_password sample_form) verified_world = (Inr [], verified_world)" by code_simp
  have 4: "username_taken (rg_username sample_form) verified_world = (Inr False, verified_world)"
    "phone_number_taken (rg_phone_number sample_form) verified_world = (Inr False, verified_world)"
    "email_taken ''jo@example.com'' verified_world = (Inr False, verified_world)" by code_simp+
  have 5: "generate_account_number sample_env64 verified_world = (Inr ''000000000000'', verified_world)" by code_simp
  have 6: "rg_password sample_form = rg_confirm_password sample_form" "working verified_world = empty_db"
    by (simp_all add: sample_form_def verified_world_def fresh_world_def)
  show ?thesis using 1 2 3 4 5 6 assms by (simp add: prepare_customer_def try_catch_def bindA_def)
qed

lemma register_returns:
  assumes "prepare_customer e form s = (Inr (u, email, w), s1)" and "audit_ready e"
    and "sign_registration_credit_integrity e (new_uuid e) (u_id u) registration_welcome_credit_amount ''completed'' (now e) = Inr sig"
    and "storable (add_user u (working s1))" "storable (post_registration (new_uuid e) sig u (now e) (working s1))"
    and "\<forall>c \<in> set (registration_credits (working s1)). cr_user_id c \<noteq> u_id u"
  shows "\<exists>t. register_user e form s = (Inr (u, w), t)"
proof -
  let ?s2 = "s1\<lparr>working := post_registration (new_uuid e) sig u (now e) (working s1)\<rparr>"
  obtain ev where ev: "audit_event_required e ''registration_credit'' ''success'' (Some (u_id u))
             [(''credit_type'', JStr ''welcome''), (''amount'', JStr ''fixed_sgd_100''),
              (''credit_ref'', opt_json JStr (audit_reference e ''registration_credit'' (new_uuid e) 32))] None ?s2
       = (Inr (), ?s2\<lparr>working := add_audit ev (working ?s2)\<rparr>)"
    using audit_event_required_ready [OF assms(2)] by blast
  have "filter (\<lambda>c. cr_user_id c = u_id u) (registration_credits (working s1)) = []"
    using assms(6) by (simp add: filter_empty_conv)
  moreover have "commitA (?s2\<lparr>working := add_audit ev (working ?s2)\<rparr>) =
      (Inr (), ?s2\<lparr>working := add_audit ev (working ?s2), committed := add_audit ev (working ?s2)\<rparr>)"
    using commitA_ok [of "?s2\<lparr>working := add_audit ev (working ?s2)\<rparr>"] assms(5) by simp
  ultimately obtain s3 where st: "store_customer e u s1 = (Inr (), s3)"
    using ev assms(3,4)
    by (simp add: store_customer_def try_catch_def flushA_def storable_def apply_registration_welcome_credit_def add_user_def
        flip: post_registration_def [unfolded add_user_def])
  obtain s4 where "consume_verified_registration_email e email s3 = (Inr (), s4)"
    by (metis (full_types) consume_verified_returns old.unit.exhaust surj_pair sum.exhaust)
  moreover obtain s5 where "audit_event e ''registration'' ''success'' (Some (u_id u))
       [(''password_screening'', JStr (if w = [] then ''local_and_live'' else ''local_only_fallback''))] None s4 = (Inr (), s5)"
    using audit_event_returns by blast
  ultimately show ?thesis using assms(1) st by (simp add: register_user_def)
qed

lemma sample_registration_signature:
  "sign_registration_credit_integrity sample_env64 r i a st c = Inr (replicate 64 (CHR ''a''), ''k1'', ''hmac-sha256'', 1)"
  using sample_ring
  by (simp add: sign_registration_credit_integrity_def sign_credit_integrity_def credit_digest_def Let_def sample_cfg_def sample_env64_def
      sample_env_def transaction_integrity_algorithm_def transaction_integrity_version_def)

lemma verified_world_fields: "working verified_world = empty_db" "committed verified_world = empty_db" "references_known empty_db"
  by (simp_all add: verified_world_def fresh_world_def references_known_def empty_db_def)

lemma register_example: "\<exists>h t. register_user sample_env64 sample_form verified_world = (Inr (sample_customer h, []), t)"
proof -
  obtain h where h: "hash_password sample_env64 (random_text sample_env64 9) (rg_password sample_form) = Some h"
    by (simp add: hash_password_def pbkdf2_digest_def is_password_raw_length_safe_def sample_env64_def sample_env_def sample_cfg_def
        sample_form_def Let_def)
  have "storable (add_user (sample_customer h') empty_db)"
    "storable (post_registration ''u-1'' (replicate 64 (CHR ''a''), ''k1'', ''hmac-sha256'', 1) (sample_customer h') (now sample_env64) empty_db)" for h'
    by code_simp+
  moreover have "audit_ready sample_env64" "new_uuid sample_env64 = ''u-1''"
    by (simp_all add: audit_ready_def sample_env64_def sample_env_def sample_cfg_def)
  ultimately show ?thesis
    using register_returns [OF prepared_example [OF h] _ sample_registration_signature] by (auto simp: verified_world_fields empty_db_def)
qed

theorem registration_effect_witness:
  "\<exists>u t sig. register_user sample_env64 sample_form verified_world = (Inr (u, []), t)
     \<and> money_view (committed t) = money_view (post_registration (new_uuid sample_env64) sig u (now sample_env64) empty_db)"
proof -
  obtain h t where t: "register_user sample_env64 sample_form verified_world = (Inr (sample_customer h, []), t)" using register_example by blast
  from registration_effect [OF t] t show ?thesis by (auto simp: verified_world_fields both_def)
qed

end
