(* ===== verification/Password_Reset.thy ===== *)
theory Password_Reset
  imports Registration
begin

section \<open>Password reset\<close>

text \<open>
  The customer flow of \<^verbatim>\<open>app/auth/password_reset.py\<close>: a mailed link is exchanged once for a reset transaction, the second factor of
  the account is verified in the transaction, and the password is replaced. The dictionary of a transaction is the record below; a
  missing \<^verbatim>\<open>expires_at\<close> is \<open>None\<close>. The random texts 33 and 34 are the selector and the verifier of a new token, number 35 the id of a
  transaction. The URL and the bodies of mails are not represented.
\<close>

definition generic_reset_error :: string where
  "generic_reset_error = ''That reset link is no longer valid. Please request a new one from the login page.''"

definition reset_transaction_expired_error :: string where
  "reset_transaction_expired_error = ''Password reset transaction expired''"

definition reset_transaction_session_key :: string where
  "reset_transaction_session_key = ''password_reset_transaction_id''"

definition generic_authentication_code_error :: string where
  "generic_authentication_code_error = ''Invalid authentication code.''"

definition generic_verification_method_error :: string where
  "generic_verification_method_error = ''Invalid verification method.''"

definition too_many_attempts :: string where
  "too_many_attempts = ''Too many attempts. Please try again later.''"

definition reset_mfa_totp :: string where "reset_mfa_totp = ''totp''"
definition reset_mfa_recovery_code :: string where "reset_mfa_recovery_code = ''recovery_code''"
definition reset_mfa_none :: string where "reset_mfa_none = ''none''"

definition reset_mfa_methods :: "string list" where
  "reset_mfa_methods = [reset_mfa_totp, reset_mfa_recovery_code]"

definition reset_mfa_method_aliases :: "(string \<times> string) list" where
  "reset_mfa_method_aliases = [(''authenticator'', reset_mfa_totp), (reset_mfa_totp, reset_mfa_totp),
     (''recovery'', reset_mfa_recovery_code), (reset_mfa_recovery_code, reset_mfa_recovery_code)]"

record reset_dict =
  td_id :: string
  td_token_id :: int
  td_user_id :: int
  td_purpose :: string
  td_mfa_required :: string
  td_available :: "string list"
  td_preferred :: "string option"
  td_default :: "string option"
  td_mfa_verified :: bool
  td_recovery_verified :: bool
  td_no_mfa_user :: bool
  td_failure_count :: int
  td_last_failure :: "string option"
  td_mfa_verified_at :: "int option"
  td_created_at :: int
  td_expires_at :: "int option"

record reset_view =
  rv_mfa_required :: string
  rv_available :: "string list"
  rv_preferred :: "string option"
  rv_default :: "string option"
  rv_mfa_verified :: bool
  rv_recovery_verified :: bool
  rv_no_mfa_user :: bool
  rv_expires_in :: int

subsection \<open>Helpers\<close>

definition is_admin_like_user :: "user \<Rightarrow> bool" where
  "is_admin_like_user u =
     (u_account_type u \<noteq> ''customer'' \<or>
      (let username = py_casefold (py_strip (u_username u)); email = py_casefold (py_strip (u_email u));
           admin_names = [''admin'', ''administrator'', ''root'', ''superuser''] in
       case partition_on (CHR ''@'') email of (local, _, domain) \<Rightarrow>
         username \<in> set admin_names \<or> local \<in> set admin_names \<or> take 6 domain = ''admin.''))"

definition account_reset_blocked :: "user \<Rightarrow> bool" where
  "account_reset_blocked u \<longleftrightarrow> u_is_frozen u \<or> u_security_locked_at u \<noteq> None"

definition reset_token_hmac :: "env \<Rightarrow> string \<Rightarrow> string" where
  "reset_token_hmac e verifier = active_hmac_hex e (''password-reset-token:'' @ verifier) 64"

definition reset_lookup_hash :: "env \<Rightarrow> string \<Rightarrow> string" where
  "reset_lookup_hash e transaction_id = active_hmac_hex e (''password-reset-transaction:'' @ transaction_id) 64"

definition find_customer_user :: "string \<Rightarrow> user option request" where
  "find_customer_user identifier =
     (let normalized = normalize_text identifier in
      if normalized = [] then ret None
      else bindA (queryA (\<lambda>db. filter (\<lambda>u. matches_identifier normalized u \<and> u_account_type u = ''customer'') (users db))) scalar_one_or_none)"

definition consume_public_recovery_limit :: "env \<Rightarrow> string \<Rightarrow> string \<Rightarrow> int \<Rightarrow> int \<Rightarrow> unit request" where
  "consume_public_recovery_limit e scope prin limit window_seconds =
     try_catch (bindA (consume_durable_rate_limit e scope (client_ip e @ '':'' @ prin) limit window_seconds) (\<lambda>_. ret ()))
       (\<lambda>err. case err of
          DurableRateLimitExceeded retry_after \<Rightarrow>
            bindA (audit_event e scope ''blocked'' None [(''reason'', JStr ''durable_rate_limit'')] None) (\<lambda>_.
            raise (AuthError too_many_attempts 429 (Some retry_after)))
        | _ \<Rightarrow> raise err)"

definition enforce_reset_backoff :: "env \<Rightarrow> string \<Rightarrow> string \<Rightarrow> unit request" where
  "enforce_reset_backoff e scope prin =
     try_catch (apply_exponential_backoff e scope prin)
       (\<lambda>err. case err of
          AuthBackoffRequired retry_after \<Rightarrow>
            bindA (audit_event e ''auth_backoff'' ''blocked'' None [(''scope'', JStr scope), (''retry_after'', JInt retry_after)] None) (\<lambda>_.
            raise (AuthError too_many_attempts 429 (Some retry_after)))
        | _ \<Rightarrow> raise err)"

definition request_user_agent :: "env \<Rightarrow> string" where
  "request_user_agent e = take 256 (text_or (req_user_agent e) ''unknown'')"

subsection \<open>The second factor of a reset\<close>

definition available_reset_mfa_methods_for_user :: "user \<Rightarrow> database \<Rightarrow> string list" where
  "available_reset_mfa_methods_for_user u db =
     (if u_mfa_enabled u
      then reset_mfa_totp # (if 0 < unused_recovery_code_count (u_id u) recovery_purpose_totp db then [reset_mfa_recovery_code] else [])
      else [])"

definition fallback_reset_mfa_method :: "string list \<Rightarrow> string" where
  "fallback_reset_mfa_method available = (if reset_mfa_totp \<in> set available then reset_mfa_totp else reset_mfa_none)"

definition reset_method_alias :: "string \<Rightarrow> string option" where
  "reset_method_alias value = map_of reset_mfa_method_aliases (py_casefold (py_strip value))"

definition normalize_reset_mfa_method :: "string \<Rightarrow> py_error + string" where
  "normalize_reset_mfa_method value =
     (case reset_method_alias value of
        Some m \<Rightarrow> if m \<in> set reset_mfa_methods then Inr m else Inl (auth_error generic_verification_method_error 400)
      | None \<Rightarrow> Inl (auth_error generic_verification_method_error 400))"

definition public_reset_mfa_method :: "string option \<Rightarrow> string option" where
  "public_reset_mfa_method value =
     (case reset_method_alias (or_default value []) of Some m \<Rightarrow> if m \<in> set reset_mfa_methods then Some m else None | None \<Rightarrow> None)"

fun public_methods :: "string list \<Rightarrow> string list \<Rightarrow> string list" where
  "public_methods [] acc = acc"
| "public_methods (raw # raws) acc =
     public_methods raws (case public_reset_mfa_method (Some raw) of
       Some m \<Rightarrow> if m \<in> set acc then acc else acc @ [m] | None \<Rightarrow> acc)"

definition transaction_expires_in :: "env \<Rightarrow> reset_dict \<Rightarrow> int" where
  "transaction_expires_in e td =
     (case td_expires_at td of Some at \<Rightarrow> max 0 (at - now_s e) | None \<Rightarrow> cfg_reset_transaction_ttl (cfg e))"

definition public_transaction :: "env \<Rightarrow> reset_dict \<Rightarrow> reset_view" where
  "public_transaction e td =
     \<lparr>rv_mfa_required = td_mfa_required td, rv_available = public_methods (td_available td) [],
      rv_preferred = public_reset_mfa_method (td_preferred td), rv_default = public_reset_mfa_method (td_default td),
      rv_mfa_verified = td_mfa_verified td, rv_recovery_verified = td_recovery_verified td, rv_no_mfa_user = td_no_mfa_user td,
      rv_expires_in = transaction_expires_in e td\<rparr>"

subsection \<open>Stored transactions\<close>

definition has_lookup :: "string \<Rightarrow> reset_transaction \<Rightarrow> bool" where
  "has_lookup h r \<longleftrightarrow> rx_lookup_hash r = h"

definition find_transaction :: "env \<Rightarrow> string \<Rightarrow> reset_transaction option request" where
  "find_transaction e transaction_id =
     bindA (queryA (\<lambda>db. filter (has_lookup (reset_lookup_hash e transaction_id)) (reset_transactions db))) scalar_one_or_none"

definition new_transaction :: "env \<Rightarrow> string \<Rightarrow> database \<Rightarrow> reset_transaction" where
  "new_transaction e h db =
     \<lparr>rx_id = next_id (map rx_id (reset_transactions db)), rx_lookup_hash = h, rx_token_id = 0, rx_user_id = 0, rx_purpose = [],
      rx_mfa_required = [], rx_available_mfa_methods = [], rx_preferred_mfa_method = None, rx_default_mfa_method = None,
      rx_mfa_verified = False, rx_recovery_code_verified = False, rx_no_mfa_user = False, rx_failure_count = 0,
      rx_last_failure_reason = None, rx_mfa_verified_at = None, rx_expires_at = now e, rx_used_at = None, rx_created_at = now e\<rparr>"

definition stored_transaction :: "env \<Rightarrow> reset_dict \<Rightarrow> reset_transaction \<Rightarrow> reset_transaction" where
  "stored_transaction e td r =
     r\<lparr>rx_token_id := td_token_id td, rx_user_id := td_user_id td, rx_purpose := text_or (td_purpose td) ''password_reset'',
       rx_mfa_required := text_or (td_mfa_required td) reset_mfa_none, rx_available_mfa_methods := td_available td,
       rx_preferred_mfa_method := td_preferred td, rx_default_mfa_method := td_default td, rx_mfa_verified := td_mfa_verified td,
       rx_recovery_code_verified := td_recovery_verified td, rx_no_mfa_user := td_no_mfa_user td,
       rx_failure_count := td_failure_count td, rx_last_failure_reason := td_last_failure td,
       rx_mfa_verified_at := td_mfa_verified_at td, rx_expires_at := now e + seconds (cfg_reset_transaction_ttl (cfg e)), rx_used_at := None\<rparr>"

definition put_transaction :: "env \<Rightarrow> reset_dict \<Rightarrow> reset_transaction option \<Rightarrow> database \<Rightarrow> database" where
  "put_transaction e td found db =
     (case found of
        Some r \<Rightarrow> db\<lparr>reset_transactions := upd_where (\<lambda>q. rx_id q = rx_id r) (stored_transaction e td) (reset_transactions db)\<rparr>
      | None \<Rightarrow> db\<lparr>reset_transactions := reset_transactions db @
          [stored_transaction e td (new_transaction e (reset_lookup_hash e (td_id td)) db)]\<rparr>)"

definition store_transaction :: "env \<Rightarrow> reset_dict \<Rightarrow> unit request" where
  "store_transaction e td =
     bindA (find_transaction e (td_id td)) (\<lambda>found.
     bindA (updateA (put_transaction e td found)) (\<lambda>_.
     commitA))"

definition drop_transaction :: "int \<Rightarrow> database \<Rightarrow> database" where
  "drop_transaction i db = db\<lparr>reset_transactions := filter (\<lambda>r. rx_id r \<noteq> i) (reset_transactions db)\<rparr>"

definition delete_transaction_id :: "env \<Rightarrow> string \<Rightarrow> unit request" where
  "delete_transaction_id e transaction_id =
     bindA (find_transaction e transaction_id) (\<lambda>found.
     case found of None \<Rightarrow> ret ()
     | Some r \<Rightarrow> bindA (updateA (drop_transaction (rx_id r))) (\<lambda>_. commitA))"

definition clear_reset_transaction :: "env \<Rightarrow> reset_dict \<Rightarrow> unit request" where
  "clear_reset_transaction e td = condA (td_id td \<noteq> []) (delete_transaction_id e (td_id td))"

definition forget_reset_transaction :: "unit request" where
  "forget_reset_transaction = webA (\<lambda>w. (sess_pop reset_transaction_session_key w)\<lparr>ws_modified := True\<rparr>)"

definition clear_current_reset_transaction :: "env \<Rightarrow> unit request" where
  "clear_current_reset_transaction e =
     bindA (readA (sess_text e reset_transaction_session_key)) (\<lambda>tx_id.
     bindA (condA (tx_id \<noteq> []) (delete_transaction_id e tx_id)) (\<lambda>_.
     forget_reset_transaction))"

definition transaction_from_record :: "reset_transaction \<Rightarrow> string \<Rightarrow> reset_dict" where
  "transaction_from_record r transaction_id =
     \<lparr>td_id = transaction_id, td_token_id = rx_token_id r, td_user_id = rx_user_id r, td_purpose = rx_purpose r,
      td_mfa_required = rx_mfa_required r, td_available = rx_available_mfa_methods r, td_preferred = rx_preferred_mfa_method r,
      td_default = rx_default_mfa_method r, td_mfa_verified = rx_mfa_verified r, td_recovery_verified = rx_recovery_code_verified r,
      td_no_mfa_user = rx_no_mfa_user r, td_failure_count = rx_failure_count r, td_last_failure = rx_last_failure_reason r,
      td_mfa_verified_at = rx_mfa_verified_at r, td_created_at = rx_created_at r div second_us,
      td_expires_at = Some (rx_expires_at r div second_us)\<rparr>"

definition usable_transaction :: "env \<Rightarrow> reset_transaction \<Rightarrow> bool" where
  "usable_transaction e r \<longleftrightarrow> rx_purpose r = ''password_reset'' \<and> rx_used_at r = None \<and> now e < rx_expires_at r"

definition load_transaction :: "env \<Rightarrow> string \<Rightarrow> reset_dict request" where
  "load_transaction e transaction_id =
     bindA (find_transaction e transaction_id) (\<lambda>found.
     case found of
       None \<Rightarrow> bindA (clear_current_reset_transaction e) (\<lambda>_. raise (auth_error reset_transaction_expired_error 401))
     | Some r \<Rightarrow>
         if \<not> usable_transaction e r
         then bindA (delete_transaction_id e transaction_id) (\<lambda>_. raise (auth_error reset_transaction_expired_error 401))
         else ret (transaction_from_record r transaction_id))"

definition load_current_transaction :: "env \<Rightarrow> reset_dict request" where
  "load_current_transaction e =
     bindA (readA (sess_text e reset_transaction_session_key)) (\<lambda>transaction_id.
     if transaction_id = [] then raise (auth_error ''No active password reset transaction'' 401)
     else load_transaction e transaction_id)"

definition record_transaction_failure :: "env \<Rightarrow> reset_dict \<Rightarrow> string \<Rightarrow> unit request" where
  "record_transaction_failure e td reason =
     (let td = td\<lparr>td_failure_count := td_failure_count td + 1, td_last_failure := Some reason\<rparr> in
      if 5 \<le> td_failure_count td
      then bindA (clear_reset_transaction e td) (\<lambda>_.
        bindA forget_reset_transaction (\<lambda>_.
        raise (auth_error reset_transaction_expired_error 401)))
      else store_transaction e td)"

definition transaction_user :: "env \<Rightarrow> reset_dict \<Rightarrow> user request" where
  "transaction_user e td =
     bindA (queryA (\<lambda>db. user_by_id db (td_user_id td))) (\<lambda>found.
     case found of
       Some u \<Rightarrow> if is_admin_like_user u \<or> account_reset_blocked u
         then bindA (clear_reset_transaction e td) (\<lambda>_. raise (auth_error reset_transaction_expired_error 401))
         else ret u
     | None \<Rightarrow> bindA (clear_reset_transaction e td) (\<lambda>_. raise (auth_error reset_transaction_expired_error 401)))"

subsection \<open>Requesting and exchanging a link\<close>

definition new_reset_token :: "env \<Rightarrow> user \<Rightarrow> database \<Rightarrow> reset_token" where
  "new_reset_token e u db =
     \<lparr>rt_id = next_id (map rt_id (reset_tokens db)), rt_selector = random_text e 33, rt_verifier_hmac = reset_token_hmac e (random_text e 34),
      rt_user_id = u_id u, rt_purpose = ''password_reset'', rt_created_at = now e,
      rt_expires_at = now e + seconds (cfg_reset_token_ttl (cfg e)), rt_used_at = None, rt_exchanged_at = None,
      rt_requested_ip = client_ip e, rt_requested_user_agent = request_user_agent e\<rparr>"

definition add_reset_token :: "reset_token \<Rightarrow> database \<Rightarrow> database" where
  "add_reset_token r db = db\<lparr>reset_tokens := reset_tokens db @ [r]\<rparr>"

definition update_reset_tokens :: "(reset_token \<Rightarrow> bool) \<Rightarrow> (reset_token \<Rightarrow> reset_token) \<Rightarrow> database \<Rightarrow> database" where
  "update_reset_tokens p f db = db\<lparr>reset_tokens := upd_where p f (reset_tokens db)\<rparr>"

definition token_ref :: "env \<Rightarrow> string \<Rightarrow> json" where
  "token_ref e selector = opt_json JStr (audit_reference e ''password_reset_selector'' selector 32)"

definition create_reset_token :: "env \<Rightarrow> user \<Rightarrow> unit request" where
  "create_reset_token e u =
     bindA (queryA (new_reset_token e u)) (\<lambda>r.
     bindA (updateA (add_reset_token r)) (\<lambda>_.
     bindA (audit_event_required e ''password_reset_token_created'' ''success'' (Some (u_id u)) [(''token_ref'', token_ref e (rt_selector r))] None) (\<lambda>_.
     commitA)))"

definition request_password_reset :: "env \<Rightarrow> string \<Rightarrow> unit request" where
  "request_password_reset e identifier =
     bindA (consume_public_recovery_limit e ''password_reset_request'' (normalize_text identifier) 5 (15 * 60)) (\<lambda>_.
     bindA (find_customer_user (normalize_text identifier)) (\<lambda>found.
     bindA (audit_event e ''password_reset_requested'' ''success'' (map_option u_id found)
       [(''principal_ref'', opt_json JStr (principal_reference e identifier))] None) (\<lambda>_.
     if \<not> cfg_reset_enabled (cfg e)
     then audit_event e ''password_reset_failed'' ''blocked'' (map_option u_id found) [(''reason'', JStr ''password_reset_disabled'')] None
     else (case found of
         None \<Rightarrow> ret ()
       | Some u \<Rightarrow>
           if is_admin_like_user u
           then audit_event e ''password_reset_failed'' ''blocked'' (Some (u_id u)) [(''reason'', JStr ''admin_out_of_scope'')] None
           else if account_reset_blocked u then ret ()
           else bindA (create_reset_token e u) (\<lambda>_.
             try_catch (send_security_email e (u_email u) ''SITBank password reset'')
               (\<lambda>_. audit_event e ''password_reset_failed'' ''failure'' (Some (u_id u)) [(''reason'', JStr ''email_delivery_failed'')] None))))))"

definition split_reset_token :: "string \<Rightarrow> py_error + string \<times> string" where
  "split_reset_token raw_token =
     (case partition_on (CHR ''.'') raw_token of (selector, separator, verifier) \<Rightarrow>
      if \<not> separator \<or> selector = [] \<or> verifier = [] \<or> 64 < length selector \<or> 128 < length verifier
      then Inl (auth_error generic_reset_error 401) else Inr (selector, verifier))"

definition reset_token_failure_reason :: "env \<Rightarrow> reset_token \<Rightarrow> string \<Rightarrow> user option \<Rightarrow> string" where
  "reset_token_failure_reason e r verifier found =
     (if rt_used_at r \<noteq> None \<or> rt_exchanged_at r \<noteq> None then ''reused''
      else if rt_expires_at r \<le> now e then ''expired''
      else case found of None \<Rightarrow> ''missing_user''
        | Some u \<Rightarrow>
            if is_admin_like_user u then ''admin_out_of_scope''
            else if account_reset_blocked u then ''account_unavailable''
            else if rt_verifier_hmac r \<noteq> reset_token_hmac e verifier then ''invalid_verifier''
            else ''invalid'')"

definition reset_token_ok :: "env \<Rightarrow> reset_token \<Rightarrow> string \<Rightarrow> user \<Rightarrow> bool" where
  "reset_token_ok e r verifier u \<longleftrightarrow>
     rt_purpose r = ''password_reset'' \<and> rt_used_at r = None \<and> rt_exchanged_at r = None \<and> now e < rt_expires_at r
     \<and> rt_verifier_hmac r = reset_token_hmac e verifier \<and> \<not> is_admin_like_user u \<and> \<not> account_reset_blocked u"

definition refuse_reset_token :: "env \<Rightarrow> reset_token \<Rightarrow> string \<Rightarrow> user option \<Rightarrow> 'a request" where
  "refuse_reset_token e r verifier found =
     (let reason = reset_token_failure_reason e r verifier found; uid = map_option u_id found in
      bindA (if reason = ''reused'' then audit_event e ''password_reset_token_reused'' ''failure'' uid [] None
        else if reason = ''expired'' then audit_event e ''password_reset_token_expired'' ''expired'' uid [] None
        else audit_event e ''password_reset_failed'' ''failure'' uid [(''reason'', JStr reason)] None) (\<lambda>_.
      raise (auth_error generic_reset_error 401)))"

definition fresh_transaction :: "env \<Rightarrow> user \<Rightarrow> reset_token \<Rightarrow> database \<Rightarrow> reset_dict" where
  "fresh_transaction e u r db =
     (let available = available_reset_mfa_methods_for_user u db; required = fallback_reset_mfa_method available in
      \<lparr>td_id = random_text e 35, td_token_id = rt_id r, td_user_id = u_id u, td_purpose = ''password_reset'',
       td_mfa_required = required, td_available = available,
       td_preferred = (if reset_mfa_totp \<in> set available then Some reset_mfa_totp else None), td_default = Some required,
       td_mfa_verified = (required = reset_mfa_none), td_recovery_verified = False, td_no_mfa_user = (required = reset_mfa_none),
       td_failure_count = 0, td_last_failure = None, td_mfa_verified_at = None, td_created_at = now_s e, td_expires_at = None\<rparr>)"

definition create_reset_transaction :: "env \<Rightarrow> user \<Rightarrow> reset_token \<Rightarrow> reset_dict request" where
  "create_reset_transaction e u r =
     bindA (queryA (fresh_transaction e u r)) (\<lambda>td.
     bindA (store_transaction e td) (\<lambda>_. ret td))"

definition open_reset_transaction :: "env \<Rightarrow> user \<Rightarrow> reset_token \<Rightarrow> string \<Rightarrow> reset_view request" where
  "open_reset_transaction e u r selector =
     bindA (audit_event e ''password_reset_token_validated'' ''success'' (Some (u_id u)) [(''token_ref'', token_ref e selector)] None) (\<lambda>_.
     bindA (create_reset_transaction e u r) (\<lambda>td.
     bindA (webA (sess_set ''last_activity_at'' (JInt (now_s e)) \<circ> sess_set reset_transaction_session_key (JStr (td_id td))
       \<circ> set_permanent \<circ> sess_clear)) (\<lambda>_.
     bindA (rotate_session_id e) (\<lambda>_.
     bindA (audit_event e ''password_reset_token_exchanged'' ''success'' (Some (u_id u)) [(''token_ref'', token_ref e selector),
       (''transaction_ref'', opt_json JStr (audit_reference e ''password_reset_transaction'' (td_id td) 32))] None) (\<lambda>_.
     bindA (audit_event e ''password_reset_transaction_created'' ''success'' (Some (u_id u)) [(''mfa_required'', JStr (td_mfa_required td))] None) (\<lambda>_.
     bindA (condA (td_mfa_required td \<noteq> reset_mfa_none)
       (audit_event e ''password_reset_mfa_required'' ''required'' (Some (u_id u)) [(''factor'', JStr (td_mfa_required td))] None)) (\<lambda>_.
     ret (public_transaction e td))))))))"

definition exchange_reset_token :: "env \<Rightarrow> string \<Rightarrow> reset_view request" where
  "exchange_reset_token e raw_token =
     (case split_reset_token raw_token of
        Inl err \<Rightarrow> raise err
      | Inr (selector, verifier) \<Rightarrow>
          bindA (queryA (\<lambda>db. filter (\<lambda>r. rt_selector r = selector) (reset_tokens db))) (\<lambda>rows.
          bindA (scalar_one_or_none rows) (\<lambda>found.
          case found of
            None \<Rightarrow> bindA (audit_event e ''password_reset_failed'' ''failure'' None [(''reason'', JStr ''invalid_selector'')] None) (\<lambda>_.
              raise (auth_error generic_reset_error 401))
          | Some r \<Rightarrow>
              bindA (queryA (\<lambda>db. user_by_id db (rt_user_id r))) (\<lambda>owner.
              case owner of
                None \<Rightarrow> refuse_reset_token e r verifier None
              | Some u \<Rightarrow>
                  if \<not> reset_token_ok e r verifier u then refuse_reset_token e r verifier (Some u)
                  else
                    bindA (updateA (update_reset_tokens (\<lambda>q. rt_id q = rt_id r) (\<lambda>q. q\<lparr>rt_exchanged_at := Some (now e)\<rparr>))) (\<lambda>_.
                    bindA commitA (\<lambda>_.
                    open_reset_transaction e u r selector))))))"

definition current_reset_transaction :: "env \<Rightarrow> reset_view request" where
  "current_reset_transaction e = bindA (load_current_transaction e) (\<lambda>td. ret (public_transaction e td))"

subsection \<open>Verifying the second factor\<close>

definition reset_mfa_failed :: "env \<Rightarrow> user \<Rightarrow> (string \<times> json) list \<Rightarrow> unit request" where
  "reset_mfa_failed e u md = audit_event e ''password_reset_mfa_failed'' ''failure'' (Some (u_id u)) md None"

definition select_reset_mfa_method :: "env \<Rightarrow> string \<Rightarrow> reset_view request" where
  "select_reset_mfa_method e method =
     bindA (load_current_transaction e) (\<lambda>td.
     bindA (transaction_user e td) (\<lambda>u.
     case normalize_reset_mfa_method method of
       Inl err \<Rightarrow> raise err
     | Inr selected \<Rightarrow>
         bindA (queryA (available_reset_mfa_methods_for_user u)) (\<lambda>available.
         if selected \<notin> set available then
           bindA (store_transaction e (td\<lparr>td_available := available\<rparr>)) (\<lambda>_.
           bindA (reset_mfa_failed e u [(''reason'', JStr ''unavailable_factor''), (''requested_factor'', JStr selected)]) (\<lambda>_.
           raise (auth_error generic_verification_method_error 400)))
         else
           let current = text_or (td_mfa_required td) reset_mfa_none in
           if td_mfa_verified td \<and> current \<noteq> selected then
             bindA (reset_mfa_failed e u [(''reason'', JStr ''already_verified''), (''requested_factor'', JStr selected)]) (\<lambda>_.
             raise (auth_error generic_verification_method_error 400))
           else
             let td = td\<lparr>td_available := available, td_mfa_required := selected\<rparr>;
                 td = (if current \<noteq> selected then td\<lparr>td_mfa_verified := False, td_recovery_verified := False\<rparr> else td) in
             bindA (store_transaction e td) (\<lambda>_.
             bindA (audit_event e ''password_reset_mfa_method_selected'' ''success'' (Some (u_id u)) [(''factor'', JStr selected)] None) (\<lambda>_.
             ret (public_transaction e td))))))"

text \<open>\<^verbatim>\<open>_require_selected_reset_mfa_method\<close>, which also refreshes the methods of the dictionary.\<close>

definition require_selected_reset_mfa_method :: "env \<Rightarrow> reset_dict \<Rightarrow> user \<Rightarrow> string \<Rightarrow> reset_dict request" where
  "require_selected_reset_mfa_method e td u required =
     (case normalize_reset_mfa_method required of
        Inl err \<Rightarrow> raise err
      | Inr selected \<Rightarrow>
          bindA (queryA (available_reset_mfa_methods_for_user u)) (\<lambda>available.
          let td = td\<lparr>td_available := available\<rparr> in
          if selected \<notin> set available \<or> td_mfa_required td \<noteq> selected then
            bindA (store_transaction e td) (\<lambda>_.
            bindA (reset_mfa_failed e u [(''reason'', JStr ''wrong_factor''), (''submitted_factor'', JStr required),
              (''required_factor'', JStr (td_mfa_required td))]) (\<lambda>_.
            raise (auth_error generic_authentication_code_error 400)))
          else ret td))"

definition count_reset_failure :: "env \<Rightarrow> reset_dict \<Rightarrow> user \<Rightarrow> string \<Rightarrow> string \<Rightarrow> 'a request" where
  "count_reset_failure e td u reason factor =
     bindA (record_transaction_failure e td reason) (\<lambda>_.
     bindA (reset_mfa_failed e u [(''factor'', JStr factor)]) (\<lambda>_.
     raise (auth_error generic_authentication_code_error 401)))"

definition verify_reset_totp_code :: "env \<Rightarrow> reset_dict \<Rightarrow> user \<Rightarrow> string \<Rightarrow> reset_dict request" where
  "verify_reset_totp_code e td u code =
     (if \<not> is_totp_code code then count_reset_failure e td u ''totp_failed'' ''totp''
      else
        bindA (verify_totp_for_user_outcome e u code ''password_reset_mfa'' None True) (\<lambda>outcome.
        case outcome of
          TOTP_REPLAY \<Rightarrow> bindA (reset_mfa_failed e u [(''factor'', JStr ''totp''), (''reason'', JStr ''totp_replay'')]) (\<lambda>_.
            raise (auth_error generic_authentication_code_error 401))
        | TOTP_INVALID \<Rightarrow> count_reset_failure e td u ''totp_failed'' ''totp''
        | TOTP_VALID \<Rightarrow> ret td))"

definition verify_reset_recovery :: "env \<Rightarrow> reset_dict \<Rightarrow> user \<Rightarrow> string \<Rightarrow> reset_dict request" where
  "verify_reset_recovery e td u code =
     bindA (enforce_reset_backoff e ''password_reset_recovery_code'' (td_id td)) (\<lambda>_.
     bindA (consume_recovery_code e u code recovery_purpose_totp False) (\<lambda>ok.
     if \<not> ok then
       bindA (record_failure e ''password_reset_recovery_code'' (td_id td) None) (\<lambda>_.
       count_reset_failure e td u ''recovery_code_failed'' ''recovery_code'')
     else
       bindA (clear_failures e ''password_reset_recovery_code'' (td_id td)) (\<lambda>_.
       ret (td\<lparr>td_recovery_verified := True\<rparr>))))"

definition verify_reset_authentication_code :: "env \<Rightarrow> string \<Rightarrow> string \<Rightarrow> reset_view request" where
  "verify_reset_authentication_code e code required =
     bindA (load_current_transaction e) (\<lambda>td.
     bindA (transaction_user e td) (\<lambda>u.
     bindA (require_selected_reset_mfa_method e td u required) (\<lambda>td.
     bindA (if required = reset_mfa_totp then verify_reset_totp_code e td u code else verify_reset_recovery e td u code) (\<lambda>td.
     let factor = (if required = reset_mfa_totp then ''totp'' else ''recovery_code'');
         td' = td\<lparr>td_mfa_verified := True, td_mfa_verified_at := Some (now_s e)\<rparr> in
     bindA (audit_event_required e ''password_reset_mfa_verified'' ''success'' (Some (u_id u)) [(''factor'', JStr factor)] None) (\<lambda>_.
     bindA commitA (\<lambda>_.
     bindA (condA (factor = ''recovery_code'') (send_mfa_recovery_code_used_notification e u)) (\<lambda>_.
     bindA (store_transaction e td') (\<lambda>_.
     ret (public_transaction e td')))))))))"

definition reset_transaction_user_and_id :: "env \<Rightarrow> string option \<Rightarrow> (user \<times> string) request" where
  "reset_transaction_user_and_id e required =
     bindA (load_current_transaction e) (\<lambda>td.
     bindA (transaction_user e td) (\<lambda>u.
     case required of
       None \<Rightarrow> ret (u, td_id td)
     | Some m \<Rightarrow> bindA (require_selected_reset_mfa_method e td u m) (\<lambda>td. ret (u, td_id td))))"

definition verify_reset_totp :: "env \<Rightarrow> string \<Rightarrow> reset_view request" where
  "verify_reset_totp e code = verify_reset_authentication_code e code reset_mfa_totp"

definition verify_reset_recovery_code :: "env \<Rightarrow> string \<Rightarrow> reset_view request" where
  "verify_reset_recovery_code e code = verify_reset_authentication_code e code reset_mfa_recovery_code"

subsection \<open>Completion\<close>

record reset_result =
  rr_revoked_sessions :: int
  rr_warnings :: "string list"

definition reset_failure :: "env \<Rightarrow> user \<Rightarrow> string \<Rightarrow> string \<Rightarrow> int \<Rightarrow> 'a request" where
  "reset_failure e u reason message status =
     bindA (audit_event e ''password_reset_failed'' ''failure'' (Some (u_id u)) [(''reason'', JStr reason)] None) (\<lambda>_.
     raise (auth_error message status))"

text \<open>What \<^verbatim>\<open>complete_password_reset\<close> checks before it writes.\<close>

definition admit_password_reset :: "env \<Rightarrow> string \<Rightarrow> string \<Rightarrow> (reset_dict \<times> user \<times> string list) request" where
  "admit_password_reset e new_password confirm_new_password =
     bindA (load_current_transaction e) (\<lambda>td.
     bindA (transaction_user e td) (\<lambda>u.
     if td_mfa_required td \<noteq> reset_mfa_none \<and> \<not> td_mfa_verified td
     then reset_failure e u ''missing_mfa'' ''MFA verification is required before resetting the password'' 403
     else if new_password \<noteq> confirm_new_password then reset_failure e u ''password_mismatch'' ''Passwords must match'' 400
     else
       bindA (try_catch (assert_password_not_reused e u new_password)
         (\<lambda>err. case err of
            PasswordReuseError reason \<Rightarrow> reset_failure e u reason ''New password must not match your current or recent passwords'' 400
          | _ \<Rightarrow> raise err)) (\<lambda>_.
       bindA (try_catch (validate_password_policy e new_password)
         (\<lambda>err. case err of PasswordPolicyError message \<Rightarrow> reset_failure e u ''password_policy'' message 400 | _ \<Rightarrow> raise err)) (\<lambda>warnings.
       ret (td, u, warnings)))))"

definition write_password_reset :: "env \<Rightarrow> reset_dict \<Rightarrow> user \<Rightarrow> string \<Rightarrow> string list \<Rightarrow> int request" where
  "write_password_reset e td u new_password warnings =
     bindA (replace_user_password e u new_password True) (\<lambda>_.
     bindA (updateA (update_user (u_id u) (\<lambda>v. v\<lparr>u_failed_login_count := 0\<rparr>))) (\<lambda>_.
     bindA (updateA (update_reset_tokens (\<lambda>r. rt_user_id r = u_id u \<and> rt_used_at r = None) (\<lambda>r. r\<lparr>rt_used_at := Some (now e)\<rparr>))) (\<lambda>_.
     bindA (revoke_all_sessions e (u_id u) ''password_reset'' None) (\<lambda>revoked.
     bindA (audit_event_required e ''password_reset_completed'' ''success'' (Some (u_id u))
       [(''revoked_sessions'', JInt revoked), (''mfa_required'', JStr (td_mfa_required td)),
        (''recovery_code_used'', JBool (td_recovery_verified td)),
        (''password_screening'', JStr (if warnings = [] then ''local_and_live'' else ''local_only_fallback''))] None) (\<lambda>_.
     bindA commitA (\<lambda>_. ret revoked))))))"

definition finish_password_reset :: "env \<Rightarrow> reset_dict \<Rightarrow> user \<Rightarrow> unit request" where
  "finish_password_reset e td u =
     bindA (clear_reset_transaction e td) (\<lambda>_.
     bindA (webA sess_clear) (\<lambda>_.
     bindA (clear_failures e ''login'' (auth_principal e (u_username u))) (\<lambda>_.
     bindA (clear_failures e ''login'' (auth_principal e (u_email u))) (\<lambda>_.
     try_catch (send_security_email e (u_email u) ''SITBank password reset completed'')
       (\<lambda>_. audit_event e ''password_reset_notification'' ''failure'' (Some (u_id u)) [(''reason'', JStr ''email_delivery_failed'')] None)))))"

definition complete_password_reset :: "env \<Rightarrow> string \<Rightarrow> string \<Rightarrow> reset_result request" where
  "complete_password_reset e new_password confirm_new_password =
     bindA (admit_password_reset e new_password confirm_new_password) (\<lambda>(td, u, warnings).
     bindA (write_password_reset e td u new_password warnings) (\<lambda>revoked.
     bindA (finish_password_reset e td u) (\<lambda>_.
     ret \<lparr>rr_revoked_sessions = revoked, rr_warnings = warnings\<rparr>)))"

subsection \<open>Frames\<close>

text \<open>What an invariant must tolerate to be kept by the reset flow up to the replacement of the password.\<close>

definition txn_free :: "(database \<Rightarrow> bool) \<Rightarrow> bool" where
  "txn_free P \<longleftrightarrow> (\<forall>db xs. P db \<longrightarrow> P (db\<lparr>reset_transactions := xs\<rparr>))"

definition reset_free :: "(database \<Rightarrow> bool) \<Rightarrow> bool" where
  "reset_free P \<longleftrightarrow> login_free P \<and> password_free P \<and> txn_free P"

lemma reset_freeD:
  assumes "reset_free P"
  shows "login_free P" "password_free P" "auth_free P" "replays_free P" "recovery_free P" "sessions_free P" "counters_free P"
    "auth_users_free P" "keeps_audit e P" "txn_free P"
  using assms login_freeD [of P] by (simp_all add: reset_free_def)

lemma money_only_reset: "money_only P \<Longrightarrow> reset_free P"
  by (auto simp: reset_free_def txn_free_def money_frees intro: money_onlyD)

lemma preserves_reset_updates [preserves_rules]:
  assumes "txn_free P"
  shows "preserves (both P) (updateA (put_transaction e td found))" "preserves (both P) (updateA (drop_transaction i))"
  using assms by (auto intro!: preserves_both_updateA simp: put_transaction_def drop_transaction_def txn_free_def split: option.split)

lemma preserves_find_transaction [preserves_rules]: "preserves (both P) (find_transaction e i)"
  unfolding find_transaction_def by (intro preserves_rules)

lemma preserves_store_transaction [preserves_rules]: "txn_free P \<Longrightarrow> preserves (both P) (store_transaction e td)"
  unfolding store_transaction_def by (intro preserves_rules)

lemma preserves_delete_transaction [preserves_rules]: "txn_free P \<Longrightarrow> preserves (both P) (delete_transaction_id e i)"
  unfolding delete_transaction_id_def by (intro preserves_rules)

lemma preserves_clear_transaction [preserves_rules]:
  "txn_free P \<Longrightarrow> preserves (both P) (clear_reset_transaction e td)" "preserves (both P) forget_reset_transaction"
  "txn_free P \<Longrightarrow> preserves (both P) (clear_current_reset_transaction e)"
  unfolding clear_reset_transaction_def clear_current_reset_transaction_def forget_reset_transaction_def by (intro preserves_rules; assumption)+

lemma preserves_load_transaction [preserves_rules]:
  "txn_free P \<Longrightarrow> preserves (both P) (load_current_transaction e)"
  unfolding load_current_transaction_def load_transaction_def by (intro preserves_rules)

lemma preserves_transaction_user [preserves_rules]: "txn_free P \<Longrightarrow> preserves (both P) (transaction_user e td)"
  unfolding transaction_user_def by (intro preserves_rules)

lemma preserves_find_customer_user [preserves_rules]: "preserves (both P) (find_customer_user i)"
  unfolding find_customer_user_def Let_def by (intro preserves_rules)

lemma preserves_public_limit [preserves_rules]:
  "counters_free P \<Longrightarrow> keeps_audit e P \<Longrightarrow> preserves (both P) (consume_public_recovery_limit e sc pr l w)"
  unfolding consume_public_recovery_limit_def by (intro preserves_rules)

lemma preserves_reset_backoff [preserves_rules]:
  "counters_free P \<Longrightarrow> keeps_audit e P \<Longrightarrow> preserves (both P) (enforce_reset_backoff e sc pr)"
  unfolding enforce_reset_backoff_def by (intro preserves_rules)

lemma preserves_refuse_reset_token [preserves_rules]: "keeps_audit e P \<Longrightarrow> preserves (both P) (refuse_reset_token e r v f)"
  unfolding refuse_reset_token_def Let_def by (intro preserves_rules)

lemma preserves_open_reset [preserves_rules]: "reset_free P \<Longrightarrow> preserves (both P) (open_reset_transaction e u r sel)"
  unfolding open_reset_transaction_def create_reset_transaction_def by (intro preserves_rules reset_freeD)

lemma preserves_reset_mfa_failed [preserves_rules]: "keeps_audit e P \<Longrightarrow> preserves (both P) (reset_mfa_failed e u md)"
  unfolding reset_mfa_failed_def by (intro preserves_rules)

lemma preserves_record_transaction_failure [preserves_rules]: "txn_free P \<Longrightarrow> preserves (both P) (record_transaction_failure e td r)"
  unfolding record_transaction_failure_def Let_def by (intro preserves_rules)

lemma preserves_count_reset_failure [preserves_rules]: "reset_free P \<Longrightarrow> preserves (both P) (count_reset_failure e td u r f)"
  unfolding count_reset_failure_def by (intro preserves_rules reset_freeD)

lemma preserves_case_totp [preserves_rules]:
  "preserves I a \<Longrightarrow> preserves I b \<Longrightarrow> preserves I c \<Longrightarrow> preserves I (case x of TOTP_VALID \<Rightarrow> a | TOTP_INVALID \<Rightarrow> b | TOTP_REPLAY \<Rightarrow> c)"
  by (cases x) simp_all

lemma preserves_select_method [preserves_rules]: "reset_free P \<Longrightarrow> preserves (both P) (select_reset_mfa_method e m)"
  unfolding select_reset_mfa_method_def Let_def by (intro preserves_rules reset_freeD)

lemma preserves_verify_reset_code [preserves_rules]: "reset_free P \<Longrightarrow> preserves (both P) (verify_reset_authentication_code e c m)"
  unfolding verify_reset_authentication_code_def require_selected_reset_mfa_method_def verify_reset_totp_code_def
    verify_reset_recovery_def send_mfa_recovery_code_used_notification_def send_recovery_code_used_notification_def Let_def
  by (intro preserves_rules reset_freeD)

lemma preserves_reset_failure [preserves_rules]: "keeps_audit e P \<Longrightarrow> preserves (both P) (reset_failure e u r m c)"
  unfolding reset_failure_def by (intro preserves_rules)

lemma preserves_admit_reset [preserves_rules]: "reset_free P \<Longrightarrow> preserves (both P) (admit_password_reset e n c)"
  unfolding admit_password_reset_def by (intro preserves_rules reset_freeD)

lemma preserves_finish_reset [preserves_rules]:
  "txn_free P \<Longrightarrow> counters_free P \<Longrightarrow> keeps_audit e P \<Longrightarrow> preserves (both P) (finish_password_reset e td u)"
  unfolding finish_password_reset_def by (intro preserves_rules)

lemma preserves_money_tokens:
  assumes "money_only P"
  shows "preserves (both P) (updateA (add_reset_token r))" "preserves (both P) (updateA (update_reset_tokens p f))"
  using assms by (auto intro!: preserves_money_update simp: add_reset_token_def update_reset_tokens_def)

lemma preserves_request_reset [preserves_rules]: "money_only P \<Longrightarrow> preserves (both P) (request_password_reset e i)"
  unfolding request_password_reset_def create_reset_token_def by (intro preserves_rules preserves_money_tokens money_frees)

lemma preserves_exchange [preserves_rules]: "money_only P \<Longrightarrow> preserves (both P) (exchange_reset_token e tok)"
  unfolding exchange_reset_token_def by (intro preserves_rules preserves_money_tokens money_frees money_only_reset)

lemma preserves_complete_reset [preserves_rules]: "money_only P \<Longrightarrow> preserves (both P) (complete_password_reset e n c)"
  unfolding complete_password_reset_def write_password_reset_def
  by (intro preserves_rules preserves_money_tokens money_frees reset_freeD money_only_reset preserves_update_users; (assumption | simp add: account_part_def))

subsection \<open>What a completed reset has checked and done\<close>

lemma load_current_spec:
  assumes "load_current_transaction e s = (Inr td, t)"
  obtains r where "t = s" "sess_text e reset_transaction_session_key (web s) \<noteq> []"
    "filter (has_lookup (reset_lookup_hash e (sess_text e reset_transaction_session_key (web s)))) (reset_transactions (working s)) = [r]"
    "usable_transaction e r" "td = transaction_from_record r (sess_text e reset_transaction_session_key (web s))"
proof -
  let ?id = "sess_text e reset_transaction_session_key (web s)"
  let ?rows = "filter (has_lookup (reset_lookup_hash e ?id)) (reset_transactions (working s))"
  from assms have "?id \<noteq> []" and l: "load_transaction e ?id s = (Inr td, t)"
    by (auto simp: load_current_transaction_def readA_def split: if_splits)
  moreover have "\<exists>r. ?rows = [r] \<and> usable_transaction e r \<and> td = transaction_from_record r ?id \<and> t = s"
  proof (cases "scalar_one_or_none ?rows s")
    case (Pair x s')
    then have f: "find_transaction e ?id s = (x, s')" by (simp add: find_transaction_def)
    from l f obtain r where x: "x = Inr (Some r)" and u: "usable_transaction e r" "td = transaction_from_record r ?id" "t = s'"
      by (cases x) (auto simp: load_transaction_def bindA_eq_Inr split: option.splits if_splits)
    from Pair x have "?rows = [r]" "s' = s" by (auto simp: scalar_one_or_none_def split: list.splits)
    with u show ?thesis by simp
  qed
  ultimately show thesis using that by blast
qed

lemma transaction_user_spec:
  assumes "transaction_user e td s = (Inr u, t)"
  shows "t = s" "user_by_id (working s) (td_user_id td) = Some u" "\<not> is_admin_like_user u" "\<not> account_reset_blocked u"
  using assms by (auto simp: transaction_user_def bindA_eq_Inr split: option.splits if_splits)

lemma raises_reset_failure [simp]: "raises (reset_failure e u r m c)"
  unfolding reset_failure_def by (intro raises_bindA raises_raise)

definition not_recent :: "env \<Rightarrow> user \<Rightarrow> string \<Rightarrow> database \<Rightarrow> bool" where
  "not_recent e u password db \<longleftrightarrow> \<not> verify_password e password (u_password_hash u)
     \<and> \<not> list_ex (\<lambda>r. verify_password e password (ph_password_hash r)) (take (retention_count e) (history_entries (u_id u) db))"

lemma not_reused_spec: "assert_password_not_reused e u password s = (Inr x, t) \<longleftrightarrow> not_recent e u password (working s) \<and> t = s"
  by (auto simp: assert_password_not_reused_def not_recent_def)

lemma admit_spec:
  assumes "admit_password_reset e n c s = (Inr (td, u, w), t)"
  obtains r s1 where
    "filter (has_lookup (reset_lookup_hash e (sess_text e reset_transaction_session_key (web s)))) (reset_transactions (working s)) = [r]"
    "sess_text e reset_transaction_session_key (web s) \<noteq> []" "usable_transaction e r"
    "td = transaction_from_record r (sess_text e reset_transaction_session_key (web s))"
    "user_by_id (working s) (rx_user_id r) = Some u" "\<not> is_admin_like_user u" "\<not> account_reset_blocked u"
    "rx_mfa_required r = reset_mfa_none \<or> rx_mfa_verified r" "n = c" "not_recent e u n (working s)"
    "validate_password_policy e n s = (Inr w, t)"
proof -
  from assms obtain td' s1 u' s2 where l: "load_current_transaction e s = (Inr td', s1)" and us: "transaction_user e td' s1 = (Inr u', s2)"
    by (auto simp: admit_password_reset_def bindA_eq_Inr)
  from l obtain r where r: "s1 = s" "sess_text e reset_transaction_session_key (web s) \<noteq> []"
    "filter (has_lookup (reset_lookup_hash e (sess_text e reset_transaction_session_key (web s)))) (reset_transactions (working s)) = [r]"
    "usable_transaction e r" "td' = transaction_from_record r (sess_text e reset_transaction_session_key (web s))"
    by (rule load_current_spec)
  note u = transaction_user_spec [OF us]
  have h1: "raises (case err of PasswordReuseError reason \<Rightarrow> reset_failure e u' reason ''New password must not match your current or recent passwords'' 400
      | _ \<Rightarrow> raise err)" for err :: py_error
    by (cases err) simp_all
  have h2: "raises (case err of PasswordPolicyError message \<Rightarrow> reset_failure e u' ''password_policy'' message 400 | _ \<Rightarrow> raise err)" for err :: py_error
    by (cases err) simp_all
  have f: "u = u'" "td = td'" "td_mfa_required td' = reset_mfa_none \<or> td_mfa_verified td'" "n = c" "not_recent e u' n (working s)"
    "validate_password_policy e n s = (Inr w, t)"
    using assms l us r(1) u(1)
    by (auto simp: admit_password_reset_def bindA_eq_Inr try_catch_raises [OF h1] try_catch_raises [OF h2] not_reused_spec
        raises_not_Inr [OF raises_reset_failure] split: if_splits)
  show thesis
    by (rule that [OF r(3,2,4)]) (use f r u in \<open>simp_all add: transaction_from_record_def\<close>)
qed

definition reset_done :: "env \<Rightarrow> int \<Rightarrow> string \<Rightarrow> database \<Rightarrow> bool" where
  "reset_done e uid h db \<longleftrightarrow>
     (\<exists>v. user_by_id db uid = Some v \<and> u_password_hash v = h \<and> \<not> u_force_password_change v)
     \<and> (\<forall>r \<in> set (reset_tokens db). rt_user_id r = uid \<longrightarrow> rt_used_at r \<noteq> None)
     \<and> (\<forall>r \<in> set (server_sessions db). \<not> active_session e uid (component_of e None) r)"

lemma reset_done_frees: "txn_free (reset_done e uid h)" "counters_free (reset_done e uid h)" "keeps_audit e' (reset_done e uid h)"
  by (auto simp: txn_free_def counters_free_def reset_done_def user_by_id_def intro: keeps_auditI)

lemma commit_published: "commitA s = (Inr x, t) \<Longrightarrow> storable (working s) \<and> t = s\<lparr>committed := working s\<rparr>"
  by (auto simp: commitA_def storable_def split: if_splits)

lemma reset_done_audit [simp]: "reset_done e uid h (add_audit ev db) = reset_done e uid h db"
  by (simp add: reset_done_def user_by_id_def)

lemma session_rows_frame:
  "users (end_session_rows e r ids (expire_stale_sessions e uid db)) = users db"
  "reset_tokens (end_session_rows e r ids (expire_stale_sessions e uid db)) = reset_tokens db"
  by (simp_all add: end_session_rows_def expire_stale_sessions_def update_session_where_def)

lemma write_reset_spec:
  assumes run: "write_password_reset e td u n w s = (Inr revoked, t)" and u: "user_by_id (working s) (u_id u) = Some v"
  obtains h where "hash_password e (random_text e 6) n = Some h" "both (reset_done e (u_id u) h) t"
proof -
  from run obtain h where h: "hash_password e (random_text e 6) n = Some h"
    by (cases "hash_password e (random_text e 6) n") (auto simp: write_password_reset_def replace_user_password_def bindA_eq_Inr)
  let ?g = "\<lambda>v. v\<lparr>u_password_hash := h, u_password_changed_at := now e, u_force_password_change := False,
      u_force_password_change_reason := None, u_force_password_change_at := None\<rparr>"
  let ?d1 = "prune_history e (u_id u) (update_user (u_id u) ?g (add_history e (u_id u) (u_password_hash u) (working s)))"
  let ?d = "update_reset_tokens (\<lambda>r. rt_user_id r = u_id u \<and> rt_used_at r = None) (\<lambda>r. r\<lparr>rt_used_at := Some (now e)\<rparr>)
     (update_user (u_id u) (\<lambda>v. v\<lparr>u_failed_login_count := 0\<rparr>) ?d1)"
  from run h obtain s2 s3 where rev: "revoke_all_sessions e (u_id u) ''password_reset'' None (s\<lparr>working := ?d\<rparr>) = (Inr revoked, s2)"
      and aud: "audit_event_required e ''password_reset_completed'' ''success'' (Some (u_id u))
       [(''revoked_sessions'', JInt revoked), (''mfa_required'', JStr (td_mfa_required td)),
        (''recovery_code_used'', JBool (td_recovery_verified td)),
        (''password_screening'', JStr (if w = [] then ''local_and_live'' else ''local_only_fallback''))] None s2 = (Inr (), s3)"
      and com: "commitA s3 = (Inr (), t)"
    by (auto simp: write_password_reset_def replace_user_password_def bindA_eq_Inr)
  have s2: "users (working s2) = users ?d" "reset_tokens (working s2) = reset_tokens ?d"
    using rev by (auto simp: revoke_all_eq Let_def session_rows_frame)
  have "users ?d1 = users (update_user (u_id u) ?g (add_history e (u_id u) (u_password_hash u) (working s)))"
    by (simp add: prune_history_def Let_def)
  then have "user_by_id ?d (u_id u) = user_by_id (update_user (u_id u) (\<lambda>v. v\<lparr>u_failed_login_count := 0\<rparr>)
     (update_user (u_id u) ?g (working s))) (u_id u)"
    by (simp add: user_by_id_def update_reset_tokens_def update_users_def add_history_def)
  then have "\<exists>v'. user_by_id ?d (u_id u) = Some v' \<and> u_password_hash v' = h \<and> \<not> u_force_password_change v'"
    using u user_by_id_member [OF u] by (simp add: user_by_id_update_users)
  moreover have "user_by_id (working s2) (u_id u) = user_by_id ?d (u_id u)" by (simp add: user_by_id_def s2)
  moreover have "\<forall>r \<in> set (reset_tokens (working s2)). rt_user_id r = u_id u \<longrightarrow> rt_used_at r \<noteq> None"
    unfolding s2 by (auto simp: update_reset_tokens_def set_upd_where)
  ultimately have wrote: "reset_done e (u_id u) h (working s2)"
    using revoke_all_leaves_none [OF rev] unfolding reset_done_def by auto
  obtain ev where ev: "working s3 = add_audit ev (working s2)"
    using aud by (cases rule: audit_event_required_cases [of e "''password_reset_completed''" "''success''" "Some (u_id u)"
       "[(''revoked_sessions'', JInt revoked), (''mfa_required'', JStr (td_mfa_required td)),
        (''recovery_code_used'', JBool (td_recovery_verified td)),
        (''password_screening'', JStr (if w = [] then ''local_and_live'' else ''local_only_fallback''))]" None s2]) auto
  have "committed t = working s3" "working t = working s3"
    using commit_published [OF com] by simp_all
  with wrote ev have "both (reset_done e (u_id u) h) t" by (simp add: both_def)
  with h that show thesis by blast
qed

lemma policy_keeps_users:
  assumes "validate_password_policy e n s = (x, t)" and "working s = committed s"
  shows "users (working t) = users (working s)"
proof -
  have "password_free (\<lambda>db. users db = users (committed s))" by (simp add: password_free_def)
  moreover have "both (\<lambda>db. users db = users (committed s)) s" using assms(2) by (simp add: both_def)
  ultimately have "both (\<lambda>db. users db = users (committed s)) t"
    using preservesD' [OF preserves_validate_password_policy assms(1)] by blast
  with assms(2) show ?thesis by (simp add: both_def)
qed

lemma preserves_on_web_mail [preserves_rules]: "preserves (on_web P) (send_security_email e to subj)"
  unfolding send_security_email_def by (auto simp: preserves_def on_web_def)

lemma preserves_on_web_clear_transaction [preserves_rules]: "preserves (on_web P) (clear_reset_transaction e td)"
  unfolding clear_reset_transaction_def delete_transaction_id_def find_transaction_def by (intro preserves_rules)

lemma finished_session:
  assumes "finish_password_reset e td u s = (Inr x, t)"
  shows "ws_data (web t) = []"
proof -
  let ?rest = "bindA (clear_failures e ''login'' (auth_principal e (u_username u))) (\<lambda>_.
     bindA (clear_failures e ''login'' (auth_principal e (u_email u))) (\<lambda>_.
     try_catch (send_security_email e (u_email u) ''SITBank password reset completed'')
       (\<lambda>_. audit_event e ''password_reset_notification'' ''failure'' (Some (u_id u)) [(''reason'', JStr ''email_delivery_failed'')] None)))"
  from assms obtain s1 where r: "?rest (s1\<lparr>web := sess_clear (web s1)\<rparr>) = (Inr x, t)"
    by (auto simp: finish_password_reset_def bindA_eq_Inr webA_def)
  have "preserves (on_web (\<lambda>w. ws_data w = [])) ?rest" by (intro preserves_rules)
  from preservesD' [OF this r] show ?thesis by (simp add: on_web_def sess_clear_def)
qed

lemma completed_reset:
  assumes run: "complete_password_reset e n c s = (Inr result, t)" and s: "working s = committed s"
  obtains r u h where
    "filter (has_lookup (reset_lookup_hash e (sess_text e reset_transaction_session_key (web s)))) (reset_transactions (working s)) = [r]"
    "usable_transaction e r" "user_by_id (working s) (rx_user_id r) = Some u" "\<not> is_admin_like_user u" "\<not> account_reset_blocked u"
    "rx_mfa_required r = reset_mfa_none \<or> rx_mfa_verified r" "n = c" "not_recent e u n (working s)"
    "hash_password e (random_text e 6) n = Some h" "both (reset_done e (u_id u) h) t" "ws_data (web t) = []"
proof -
  from run obtain td u w s1 revoked s2 where ad: "admit_password_reset e n c s = (Inr (td, u, w), s1)"
      and wr: "write_password_reset e td u n w s1 = (Inr revoked, s2)" and fi: "finish_password_reset e td u s2 = (Inr (), t)"
    by (auto simp: complete_password_reset_def bindA_eq_Inr)
  from ad show thesis
  proof (rule admit_spec)
    fix r
    assume r: "filter (has_lookup (reset_lookup_hash e (sess_text e reset_transaction_session_key (web s)))) (reset_transactions (working s)) = [r]"
      "usable_transaction e r" "user_by_id (working s) (rx_user_id r) = Some u" "\<not> is_admin_like_user u" "\<not> account_reset_blocked u"
      "rx_mfa_required r = reset_mfa_none \<or> rx_mfa_verified r" "n = c" "not_recent e u n (working s)"
      and pol: "validate_password_policy e n s = (Inr w, s1)"
    have "user_by_id (working s1) (u_id u) = Some u"
      using r(3) user_by_id_member [OF r(3)] policy_keeps_users [OF pol s] by (simp add: user_by_id_def)
    from write_reset_spec [OF wr this] obtain h where h: "hash_password e (random_text e 6) n = Some h" "both (reset_done e (u_id u) h) s2" by blast
    have "both (reset_done e (u_id u) h) t"
      using preservesD' [OF preserves_finish_reset [OF reset_done_frees] fi h(2)] .
    from that [OF r h(1) this finished_session [OF fi]] show thesis .
  qed
qed

text \<open>
  C25. What a completed password reset has checked and done. When \<^verbatim>\<open>complete_password_reset\<close> returns, the browser session held a reset
  transaction that is stored, unused and unexpired; its owner is a customer account that is not privileged, frozen or locked; the second factor was
  verified in the transaction unless the account had none; the new password differs from the current and the recent ones. Afterwards
  the stored hash is a hash of the new password, every reset link of the account is used up, no session of the account is active, and the
  browser session is empty.
\<close>

theorem password_reset_completed:
  assumes "complete_password_reset e n c s = (Inr result, t)" and "working s = committed s"
  shows "\<exists>r u h.
    filter (has_lookup (reset_lookup_hash e (sess_text e reset_transaction_session_key (web s)))) (reset_transactions (working s)) = [r]
    \<and> usable_transaction e r \<and> user_by_id (working s) (rx_user_id r) = Some u \<and> \<not> is_admin_like_user u \<and> \<not> account_reset_blocked u
    \<and> (rx_mfa_required r = reset_mfa_none \<or> rx_mfa_verified r) \<and> n = c \<and> not_recent e u n (working s)
    \<and> hash_password e (random_text e 6) n = Some h \<and> both (reset_done e (u_id u) h) t \<and> ws_data (web t) = []"
  using completed_reset [OF assms] by metis

subsection \<open>A reset link is exchanged once\<close>

definition link_spent :: "string \<Rightarrow> database \<Rightarrow> bool" where
  "link_spent k db \<longleftrightarrow> (\<forall>r \<in> set (reset_tokens db). rt_selector r = k \<longrightarrow> rt_exchanged_at r \<noteq> None)"

lemma link_spent_free: "reset_free (link_spent k)"
  by (auto simp: reset_free_def txn_free_def login_free_def password_free_def auth_free_def sessions_free_def counters_free_def auth_users_free_def
      replays_free_def recovery_free_def link_spent_def add_replay_record_def intro: keeps_auditI)

definition serve_exchange :: "env \<times> string \<Rightarrow> reset_view request" where
  "serve_exchange = (\<lambda>(e, tok). served (exchange_reset_token e tok))"

definition exchange_key :: "env \<times> string \<Rightarrow> string" where
  "exchange_key = (\<lambda>(e, tok). fst (partition_on (CHR ''.'') tok))"

lemma raises_refuse_reset_token [simp]: "raises (refuse_reset_token e r v f)"
  unfolding refuse_reset_token_def Let_def by (intro raises_bindA raises_raise)

lemma exchange_spec:
  assumes "exchange_reset_token e tok s = (Inr x, t)"
  obtains r u v where "filter (\<lambda>q. rt_selector q = fst (partition_on (CHR ''.'') tok)) (reset_tokens (working s)) = [r]"
      "user_by_id (working s) (rt_user_id r) = Some u" "reset_token_ok e r v u"
      "bindA commitA (\<lambda>_. open_reset_transaction e u r (fst (partition_on (CHR ''.'') tok)))
         (s\<lparr>working := update_reset_tokens (\<lambda>q. rt_id q = rt_id r) (\<lambda>q. q\<lparr>rt_exchanged_at := Some (now e)\<rparr>) (working s)\<rparr>) = (Inr x, t)"
  using assms
  by (auto simp: exchange_reset_token_def split_reset_token_def bindA_eq_Inr scalar_one_or_none_def
      raises_not_Inr [OF raises_refuse_reset_token] split: prod.splits if_splits option.splits list.splits)

lemma preserves_link_spent: "preserves (both (link_spent k)) (exchange_reset_token e tok)"
proof -
  have "preserves (both (link_spent k)) (updateA (update_reset_tokens p (\<lambda>q. q\<lparr>rt_exchanged_at := Some (now e)\<rparr>)))" for p
    by (auto intro!: preserves_both_updateA simp: link_spent_def update_reset_tokens_def set_upd_where split: if_splits)
  then show ?thesis
    unfolding exchange_reset_token_def by (intro preserves_rules link_spent_free reset_freeD)
qed

lemma exchanged_spent:
  assumes "filter (\<lambda>q. rt_selector q = k) (reset_tokens db) = [r]"
  shows "link_spent k (update_reset_tokens (\<lambda>q. rt_id q = rt_id r) (\<lambda>q. q\<lparr>rt_exchanged_at := Some at\<rparr>) db)"
proof -
  have "q = r" if "q \<in> set (reset_tokens db)" "rt_selector q = k" for q
    using that arg_cong [OF assms, of set] by auto
  then show ?thesis by (auto simp: link_spent_def update_reset_tokens_def set_upd_where)
qed

interpretation reset_link: single_use serve_exchange exchange_key "\<lambda>k. both (link_spent k)"
proof
  fix r :: "env \<times> string" and s x t
  obtain e tok where r: "r = (e, tok)" by (cases r)
  assume "serve_exchange r s = (Inr x, t)"
  then obtain t' where run: "exchange_reset_token e tok s = (Inr x, t')" and t: "t = t'\<lparr>working := committed t'\<rparr>"
    by (auto simp: serve_exchange_def r served_eq)
  from run obtain q u where q: "filter (\<lambda>q. rt_selector q = exchange_key r) (reset_tokens (working s)) = [q]"
      and op: "bindA commitA (\<lambda>_. open_reset_transaction e u q (exchange_key r))
         (s\<lparr>working := update_reset_tokens (\<lambda>x. rt_id x = rt_id q) (\<lambda>x. x\<lparr>rt_exchanged_at := Some (now e)\<rparr>) (working s)\<rparr>) = (Inr x, t')"
    by (rule exchange_spec) (simp add: exchange_key_def r)
  from op obtain s1 where c: "commitA (s\<lparr>working := update_reset_tokens (\<lambda>x. rt_id x = rt_id q) (\<lambda>x. x\<lparr>rt_exchanged_at := Some (now e)\<rparr>) (working s)\<rparr>) = (Inr (), s1)"
      and o1: "open_reset_transaction e u q (exchange_key r) s1 = (Inr x, t')"
    by (auto simp: bindA_eq_Inr)
  have "both (link_spent (exchange_key r)) s1"
    using commit_published [OF c] exchanged_spent [OF q] by (simp add: both_def)
  from preservesD' [OF preserves_open_reset [OF link_spent_free] o1 this] t
  show "both (link_spent (exchange_key r)) t" by (simp add: both_def)
next
  fix k s and r :: "env \<times> string"
  assume "both (link_spent k) s"
  moreover have "preserves (both (link_spent k)) (serve_exchange r)"
    unfolding serve_exchange_def by (cases r) (simp add: preserves_served preserves_link_spent)
  ultimately show "both (link_spent k) (snd (serve_exchange r s))" by (simp add: preserves_def)
next
  fix r :: "env \<times> string" and s
  assume sp: "both (link_spent (exchange_key r)) s"
  obtain e tok where r: "r = (e, tok)" by (cases r)
  have "False" if "exchange_reset_token e tok s = (Inr x, t)" for x t
    using that
  proof (rule exchange_spec)
    fix q u v
    assume "filter (\<lambda>q. rt_selector q = fst (partition_on (CHR ''.'') tok)) (reset_tokens (working s)) = [q]" "reset_token_ok e q v u"
    then have "q \<in> set (reset_tokens (working s)) \<and> rt_selector q = exchange_key r \<and> rt_exchanged_at q = None"
      by (auto simp: reset_token_ok_def exchange_key_def r dest!: arg_cong [of _ _ set])
    with sp show False by (auto simp: both_def link_spent_def)
  qed
  then show "isl (fst (serve_exchange r s))"
    by (cases "exchange_reset_token e tok s"; cases "fst (exchange_reset_token e tok s)") (auto simp: serve_exchange_def r served_def)
qed

text \<open>
  C26. A reset link works once: in any sequence of exchanges at most one with a given selector opens a reset transaction, whatever
  verifiers are presented with it.
\<close>

theorem reset_link_single_use:
  "successes exchange_key k rs (fst (run_all serve_exchange rs s)) \<le> 1"
  by (rule reset_link.at_most_one_success)

subsection \<open>An example\<close>

definition sample_transaction :: reset_transaction where
  "sample_transaction = \<lparr>rx_id = 1, rx_lookup_hash = replicate 64 (CHR ''a''), rx_token_id = 1, rx_user_id = 1, rx_purpose = ''password_reset'',
      rx_mfa_required = reset_mfa_totp, rx_available_mfa_methods = [reset_mfa_totp], rx_preferred_mfa_method = None,
      rx_default_mfa_method = Some reset_mfa_totp, rx_mfa_verified = True, rx_recovery_code_verified = False, rx_no_mfa_user = False,
      rx_failure_count = 0, rx_last_failure_reason = None, rx_mfa_verified_at = None, rx_expires_at = now sample_env64 + 1, rx_used_at = None,
      rx_created_at = 0\<rparr>"

definition reset_world :: world where
  "reset_world = (fresh_world (empty_db\<lparr>users := [alice], reset_transactions := [sample_transaction]\<rparr>))\<lparr>web :=
     \<lparr>ws_sid = ''sid'', ws_data = [(reset_transaction_session_key, JStr ''tx'')], ws_modified = False\<rparr>\<rparr>"

definition sample_new_password :: string where
  "sample_new_password = ''correct horse battery staple 9''"

abbreviation sample_dict :: reset_dict where
  "sample_dict \<equiv> transaction_from_record sample_transaction ''tx''"

lemma admit_example:
  "admit_password_reset sample_env64 sample_new_password sample_new_password reset_world = (Inr (sample_dict, alice, []), reset_world)"
  by code_simp

definition reset_db :: "string \<Rightarrow> database" where
  "reset_db h = update_reset_tokens (\<lambda>r. rt_user_id r = 1 \<and> rt_used_at r = None) (\<lambda>r. r\<lparr>rt_used_at := Some (now sample_env64)\<rparr>)
     (update_user 1 (\<lambda>v. v\<lparr>u_failed_login_count := 0\<rparr>)
     (prune_history sample_env64 1 (update_user 1 (\<lambda>v. v\<lparr>u_password_hash := h, u_password_changed_at := now sample_env64,
        u_force_password_change := False, u_force_password_change_reason := None, u_force_password_change_at := None\<rparr>)
     (add_history sample_env64 1 ''pw'' (empty_db\<lparr>users := [alice], reset_transactions := [sample_transaction]\<rparr>)))))"

lemma reset_db_facts: "storable (reset_db h)" "server_sessions (reset_db h) = []" "auth_counters (reset_db h) = []"
    "reset_transactions (reset_db h) = [sample_transaction]" "storable (drop_transaction 1 (reset_db h))"
  by code_simp+

lemma write_example:
  assumes "hash_password sample_env64 (random_text sample_env64 6) sample_new_password = Some h"
  shows "\<exists>ev. write_password_reset sample_env64 sample_dict alice sample_new_password [] reset_world =
     (Inr 0, reset_world\<lparr>working := add_audit ev (reset_db h), committed := add_audit ev (reset_db h)\<rparr>)"
proof -
  have f: "u_id alice = 1" "u_password_hash alice = ''pw''" "audit_ready sample_env64"
    by (simp_all add: alice_def sample_user_def audit_ready_def sample_env64_def sample_env_def sample_cfg_def)
  let ?s = "reset_world\<lparr>working := reset_db h\<rparr>"
  obtain ev where ev: "audit_event_required sample_env64 ''password_reset_completed'' ''success'' (Some 1)
       [(''revoked_sessions'', JInt 0), (''mfa_required'', JStr (td_mfa_required sample_dict)),
        (''recovery_code_used'', JBool (td_recovery_verified sample_dict)), (''password_screening'', JStr ''local_and_live'')] None ?s
      = (Inr (), ?s\<lparr>working := add_audit ev (working ?s)\<rparr>)"
    using audit_event_required_ready [OF f(3)] by blast
  have "revoke_all_sessions sample_env64 1 ''password_reset'' None ?s = (Inr 0, ?s)"
    using reset_db_facts(2) [of h]
    by (simp add: revoke_all_eq Let_def end_session_rows_def expire_stale_sessions_def update_session_where_def)
  moreover have "commitA (?s\<lparr>working := add_audit ev (working ?s)\<rparr>) =
      (Inr (), ?s\<lparr>working := add_audit ev (working ?s), committed := add_audit ev (working ?s)\<rparr>)"
    using commitA_ok [of "?s\<lparr>working := add_audit ev (working ?s)\<rparr>"] reset_db_facts(1) by simp
  ultimately show ?thesis
    using assms f ev
    by (intro exI [of _ ev]) (simp add: write_password_reset_def replace_user_password_def reset_world_def fresh_world_def flip: reset_db_def)
qed

lemma finish_returns:
  assumes "reset_transactions (working s) = [sample_transaction]" "auth_counters (working s) = []" "storable (drop_transaction 1 (working s))"
  shows "\<exists>t. finish_password_reset sample_env64 sample_dict alice s = (Inr (), t)"
proof -
  have h: "reset_lookup_hash sample_env64 ''tx'' = replicate 64 (CHR ''a'')" by code_simp
  have c: "clear_reset_transaction sample_env64 sample_dict s = (Inr (), s\<lparr>working := drop_transaction 1 (working s), committed := drop_transaction 1 (working s)\<rparr>)"
    using assms h commitA_ok [of "s\<lparr>working := drop_transaction 1 (working s)\<rparr>"]
    by (simp add: clear_reset_transaction_def transaction_from_record_def delete_transaction_id_def find_transaction_def has_lookup_def
        sample_transaction_def scalar_one_or_none_def)
  have l: "clear_failures e sc p s' = (Inr (), s')" if "auth_counters (working s') = []" for e sc p and s' :: world
    using that by (simp add: clear_failures_def load_counter_def find_counter_def)
  have "\<exists>t. try_catch (send_security_email sample_env64 (u_email alice) ''SITBank password reset completed'')
       (\<lambda>_. audit_event sample_env64 ''password_reset_notification'' ''failure'' (Some (u_id alice)) [(''reason'', JStr ''email_delivery_failed'')] None)
       s' = (Inr (), t)" for s'
    using audit_event_returns by (cases "email_ok sample_env64") (simp_all add: try_catch_def send_security_email_def)
  then show ?thesis
    using c l assms(2) by (simp add: finish_password_reset_def webA_def drop_transaction_def)
qed

lemma complete_example:
  "\<exists>t. complete_password_reset sample_env64 sample_new_password sample_new_password reset_world = (Inr \<lparr>rr_revoked_sessions = 0, rr_warnings = []\<rparr>, t)"
proof -
  obtain h where h: "hash_password sample_env64 (random_text sample_env64 6) sample_new_password = Some h"
    by (simp add: hash_password_def pbkdf2_digest_def is_password_raw_length_safe_def sample_env64_def sample_env_def sample_cfg_def
        sample_new_password_def Let_def)
  from write_example [OF h] obtain ev where w: "write_password_reset sample_env64 sample_dict alice sample_new_password [] reset_world =
     (Inr 0, reset_world\<lparr>working := add_audit ev (reset_db h), committed := add_audit ev (reset_db h)\<rparr>)" by blast
  have "drop_transaction 1 (add_audit ev (reset_db h)) = add_audit ev (drop_transaction 1 (reset_db h))"
    by (simp add: drop_transaction_def add_audit_def)
  with reset_db_facts [of h] obtain t where "finish_password_reset sample_env64 sample_dict alice
      (reset_world\<lparr>working := add_audit ev (reset_db h), committed := add_audit ev (reset_db h)\<rparr>) = (Inr (), t)"
    using finish_returns [of "reset_world\<lparr>working := add_audit ev (reset_db h), committed := add_audit ev (reset_db h)\<rparr>"] by auto
  with w admit_example show ?thesis by (simp add: complete_password_reset_def)
qed

theorem password_reset_completed_witness:
  "\<exists>h t. complete_password_reset sample_env64 sample_new_password sample_new_password reset_world = (Inr \<lparr>rr_revoked_sessions = 0, rr_warnings = []\<rparr>, t)
     \<and> both (reset_done sample_env64 1 h) t \<and> ws_data (web t) = []"
proof -
  obtain t where t: "complete_password_reset sample_env64 sample_new_password sample_new_password reset_world = (Inr \<lparr>rr_revoked_sessions = 0, rr_warnings = []\<rparr>, t)"
    using complete_example by blast
  have "working reset_world = committed reset_world" "users (working reset_world) = [alice]"
    by (simp_all add: reset_world_def fresh_world_def)
  with password_reset_completed [OF t] t show ?thesis
    by (auto simp: user_by_id_def alice_def sample_user_def split: if_splits)
qed

end
