(* ===== verification/Manual_Recovery.thy ===== *)
theory Manual_Recovery
  imports Password_Reset
begin

section \<open>Manual account recovery\<close>

text \<open>
  The manual recovery requests of \<^verbatim>\<open>app/auth/password_reset.py\<close>: a customer without a second factor asks for a review, administrators move the
  request along its states, and its completion removes the authenticator of the account. Whether a request context exists is the field
  \<open>has_request\<close> of the environment: the operations command that expires requests runs without one.
\<close>

definition manual_recovery_statuses :: "string list" where
  "manual_recovery_statuses = [''pending'', ''under_review'', ''approved'', ''denied'', ''expired'', ''cancelled'', ''completed'']"

definition manual_recovery_active_statuses :: "string list" where
  "manual_recovery_active_statuses = [''pending'', ''under_review'', ''approved'']"

definition manual_recovery_allowed_transitions :: "(string \<times> string list) list" where
  "manual_recovery_allowed_transitions =
     [(''pending'', [''under_review'', ''denied'', ''expired'', ''cancelled'']),
      (''under_review'', [''approved'', ''denied'', ''expired'', ''cancelled'']),
      (''approved'', [''completed'', ''expired'', ''cancelled''])]"

definition allowed_recovery_moves :: "string \<Rightarrow> string list" where
  "allowed_recovery_moves st = (case map_of manual_recovery_allowed_transitions st of None \<Rightarrow> [] | Some sts \<Rightarrow> sts)"

record recovery_view =
  mv_id :: int
  mv_status :: string
  mv_expires_at :: string
  mv_request_count :: int
  mv_completed :: bool

text \<open>\<^verbatim>\<open>_utc_iso\<close>: \<open>isoformat()\<close> with the offset.\<close>

definition utc_iso_offset :: "time \<Rightarrow> string" where
  "utc_iso_offset t = butlast (utc_iso t) @ ''+00:00''"

definition recovery_by_id :: "database \<Rightarrow> int \<Rightarrow> manual_recovery option" where
  "recovery_by_id db i = find (\<lambda>r. mr_id r = i) (manual_recoveries db)"

definition update_recovery :: "int \<Rightarrow> (manual_recovery \<Rightarrow> manual_recovery) \<Rightarrow> database \<Rightarrow> database" where
  "update_recovery i f db = db\<lparr>manual_recoveries := upd_where (\<lambda>r. mr_id r = i) f (manual_recoveries db)\<rparr>"

definition set_manual_recovery_status :: "env \<Rightarrow> string \<Rightarrow> manual_recovery \<Rightarrow> manual_recovery" where
  "set_manual_recovery_status e status r =
     r\<lparr>mr_status := status, mr_updated_at := now e, mr_status_changed_at := now e,
       mr_completed_at := (if status = ''completed'' then Some (now e) else mr_completed_at r)\<rparr>"

definition manual_recovery_request_ref :: "env \<Rightarrow> int \<Rightarrow> json" where
  "manual_recovery_request_ref e i = opt_json JStr (audit_reference e ''manual_recovery_request'' (int_str i) 32)"

definition public_manual_recovery :: "manual_recovery \<Rightarrow> recovery_view" where
  "public_manual_recovery r =
     \<lparr>mv_id = mr_id r, mv_status = mr_status r, mv_expires_at = utc_iso_offset (mr_expires_at r), mv_request_count = mr_request_count r,
      mv_completed = (mr_completed_at r \<noteq> None)\<rparr>"

definition audit_manual_recovery_transition ::
  "env \<Rightarrow> manual_recovery \<Rightarrow> string \<Rightarrow> string \<Rightarrow> string \<Rightarrow> string option \<Rightarrow> bool \<Rightarrow> unit request"
where
  "audit_manual_recovery_transition e r previous_status new_status outcome reason required =
     (let md = [(''request_ref'', manual_recovery_request_ref e (mr_id r)), (''previous_status'', JStr previous_status),
            (''new_status'', JStr new_status), (''reason'', opt_json JStr reason)];
          expired = (new_status = ''expired'' \<and> outcome = ''success'');
          event_type = (if expired then ''manual_recovery_expired'' else ''manual_recovery_status_changed'');
          outcome = (if expired then ''expired'' else outcome) in
      if has_request e
      then if required then audit_event_required e event_type outcome (mr_user_id r) md None
        else audit_event e event_type outcome (mr_user_id r) md None
      else if required then audit_system_event_in_transaction_required e event_type outcome (mr_user_id r) md
        else audit_system_event e event_type outcome (mr_user_id r) md)"

definition normalize_manual_recovery_status :: "string \<Rightarrow> py_error + string" where
  "normalize_manual_recovery_status status =
     (let normalized = py_casefold (py_strip status) in
      if normalized \<notin> set manual_recovery_statuses then Inl (auth_error ''Invalid manual recovery status'' 400) else Inr normalized)"

definition manual_recovery_stale :: "env \<Rightarrow> manual_recovery \<Rightarrow> bool" where
  "manual_recovery_stale e r \<longleftrightarrow> mr_status r \<in> set manual_recovery_active_statuses \<and> mr_expires_at r \<le> now e"

text \<open>\<^verbatim>\<open>_expire_manual_recovery_if_stale\<close> with what both of its callers do when it returns true.\<close>

definition expire_stale_recovery :: "env \<Rightarrow> manual_recovery \<Rightarrow> string \<Rightarrow> 'a request" where
  "expire_stale_recovery e r reason =
     bindA (updateA (update_recovery (mr_id r) (set_manual_recovery_status e ''expired''))) (\<lambda>_.
     bindA (audit_manual_recovery_transition e r (mr_status r) ''expired'' ''success'' (Some reason) True) (\<lambda>_.
     bindA commitA (\<lambda>_.
     raise (auth_error ''Manual recovery request is expired'' 409))))"

definition refuse_recovery_move :: "env \<Rightarrow> manual_recovery \<Rightarrow> string \<Rightarrow> string \<Rightarrow> string \<Rightarrow> 'a request" where
  "refuse_recovery_move e r new_status reason message =
     bindA (audit_manual_recovery_transition e r (mr_status r) new_status ''failure'' (Some reason) False) (\<lambda>_.
     raise (auth_error message 409))"

definition manual_recovery_request_or_error :: "int \<Rightarrow> manual_recovery request" where
  "manual_recovery_request_or_error request_id =
     bindA (queryA (\<lambda>db. recovery_by_id db request_id)) (\<lambda>found.
     case found of None \<Rightarrow> raise (auth_error ''Manual recovery request not found'' 404) | Some r \<Rightarrow> ret r)"

definition move_manual_recovery :: "env \<Rightarrow> manual_recovery \<Rightarrow> string \<Rightarrow> string option \<Rightarrow> recovery_view request" where
  "move_manual_recovery e r status reason =
     bindA (updateA (update_recovery (mr_id r) (set_manual_recovery_status e status))) (\<lambda>_.
     bindA (audit_manual_recovery_transition e r (mr_status r) status ''success'' reason True) (\<lambda>_.
     bindA commitA (\<lambda>_.
     ret (public_manual_recovery (set_manual_recovery_status e status r)))))"

definition transition_manual_recovery_request :: "env \<Rightarrow> int \<Rightarrow> string \<Rightarrow> string option \<Rightarrow> recovery_view request" where
  "transition_manual_recovery_request e request_id new_status reason =
     bindA (manual_recovery_request_or_error request_id) (\<lambda>r.
     if manual_recovery_stale e r then expire_stale_recovery e r ''expired_before_transition''
     else case normalize_manual_recovery_status new_status of
       Inl err \<Rightarrow> raise err
     | Inr status \<Rightarrow>
         if status = mr_status r then ret (public_manual_recovery r)
         else if status \<notin> set (allowed_recovery_moves (mr_status r))
         then refuse_recovery_move e r status ''invalid_transition'' ''Invalid manual recovery status transition''
         else move_manual_recovery e r status reason)"

subsection \<open>Completion\<close>

definition send_manual_recovery_notification :: "env \<Rightarrow> user \<Rightarrow> string \<Rightarrow> unit request" where
  "send_manual_recovery_notification e u subject =
     try_catch (send_security_email e (u_email u) subject)
       (\<lambda>_. audit_event e ''manual_recovery_notification'' ''failure'' (Some (u_id u)) [(''reason'', JStr ''email_delivery_failed'')] None)"

definition clear_authenticator :: "user \<Rightarrow> user" where
  "clear_authenticator u = u\<lparr>u_mfa_enabled := False, u_mfa_secret_nonce := None, u_mfa_secret_ciphertext := None,
     u_mfa_pending_started_at := None, u_mfa_pending_session_hash := None\<rparr>"

record recovery_result =
  rz_request :: recovery_view
  rz_revoked_sessions :: int
  rz_mfa_reenrollment_required :: bool

definition reset_recovered_account :: "env \<Rightarrow> manual_recovery \<Rightarrow> user \<Rightarrow> string option \<Rightarrow> recovery_result request" where
  "reset_recovered_account e r u reason =
     bindA (updateA (update_user (u_id u) clear_authenticator)) (\<lambda>_.
     bindA (revoke_all_sessions e (u_id u) ''manual_recovery'' (Some ''customer'')) (\<lambda>revoked.
     bindA (updateA (update_recovery (mr_id r) (set_manual_recovery_status e ''completed''))) (\<lambda>_.
     let md = [(''request_ref'', manual_recovery_request_ref e (mr_id r)), (''previous_status'', JStr (mr_status r)),
           (''new_status'', JStr ''completed''), (''reason'', opt_json JStr reason), (''revoked_sessions'', JInt revoked),
           (''mfa_reenrollment_required'', JBool True)] in
     bindA (if has_request e
       then bindA (audit_event_required e ''manual_recovery_completed'' ''success'' (Some (u_id u)) md None) (\<lambda>_. commitA)
       else bindA commitA (\<lambda>_. audit_system_event e ''manual_recovery_completed'' ''success'' (Some (u_id u)) md)) (\<lambda>_.
     bindA (send_manual_recovery_notification e u ''SITBank manual recovery completed'') (\<lambda>_.
     ret \<lparr>rz_request = public_manual_recovery (set_manual_recovery_status e ''completed'' r), rz_revoked_sessions = revoked,
          rz_mfa_reenrollment_required = True\<rparr>)))))"

definition complete_manual_recovery_request :: "env \<Rightarrow> int \<Rightarrow> string option \<Rightarrow> recovery_result request" where
  "complete_manual_recovery_request e request_id reason =
     bindA (manual_recovery_request_or_error request_id) (\<lambda>r.
     if manual_recovery_stale e r then expire_stale_recovery e r ''expired_before_completion''
     else if mr_status r \<noteq> ''approved''
     then refuse_recovery_move e r ''completed'' ''completion_requires_approval'' ''Manual recovery request must be approved before completion''
     else
       bindA (queryA (\<lambda>db. Option.bind (mr_user_id r) (\<lambda>i. if i = 0 then None else user_by_id db i))) (\<lambda>found.
       let unavailable = refuse_recovery_move e r ''completed'' ''completion_user_unavailable'' ''Manual recovery request cannot be completed'' in
       case found of
         None \<Rightarrow> unavailable
       | Some u \<Rightarrow> if is_admin_like_user u \<or> account_reset_blocked u then unavailable else reset_recovered_account e r u reason))"

subsection \<open>Expiry and new requests\<close>

definition stale_recoveries :: "env \<Rightarrow> string option \<Rightarrow> int option \<Rightarrow> database \<Rightarrow> manual_recovery list" where
  "stale_recoveries e identifier_ref limit db =
     (let rows = sort_key (\<lambda>r. (mr_expires_at r, mr_id r)) (filter (\<lambda>r. manual_recovery_stale e r
            \<and> (case identifier_ref of None \<Rightarrow> True | Some ref \<Rightarrow> mr_identifier_ref r = ref)) (manual_recoveries db)) in
      case limit of None \<Rightarrow> rows | Some n \<Rightarrow> take (nat (max 1 n)) rows)"

fun audit_expired_recoveries :: "env \<Rightarrow> manual_recovery list \<Rightarrow> unit request" where
  "audit_expired_recoveries e [] = ret ()"
| "audit_expired_recoveries e (r # rs) =
     bindA (audit_manual_recovery_transition e r (mr_status r) ''expired'' ''success'' (Some ''ttl_expired'') True) (\<lambda>_.
     audit_expired_recoveries e rs)"

definition expire_recovery_rows :: "env \<Rightarrow> manual_recovery list \<Rightarrow> database \<Rightarrow> database" where
  "expire_recovery_rows e rs db = db\<lparr>manual_recoveries :=
     upd_where (\<lambda>r. mr_id r \<in> mr_id ` set rs) (set_manual_recovery_status e ''expired'') (manual_recoveries db)\<rparr>"

definition expire_manual_recovery_requests :: "env \<Rightarrow> string option \<Rightarrow> int option \<Rightarrow> int request" where
  "expire_manual_recovery_requests e identifier_ref limit =
     bindA (queryA (stale_recoveries e identifier_ref limit)) (\<lambda>rs.
     bindA (updateA (expire_recovery_rows e rs)) (\<lambda>_.
     bindA (condA (rs \<noteq> []) (bindA (audit_expired_recoveries e rs) (\<lambda>_. commitA))) (\<lambda>_.
     ret (int (length rs)))))"

definition active_manual_recovery_request :: "env \<Rightarrow> string \<Rightarrow> database \<Rightarrow> manual_recovery option" where
  "active_manual_recovery_request e identifier_ref db =
     (case sort_key (\<lambda>r. (- mr_created_at r, - mr_id r)) (filter (\<lambda>r. mr_identifier_ref r = identifier_ref
        \<and> mr_status r \<in> set manual_recovery_active_statuses \<and> now e < mr_expires_at r) (manual_recoveries db)) of
        [] \<Rightarrow> None | r # _ \<Rightarrow> Some r)"

definition resubmitted :: "env \<Rightarrow> string option \<Rightarrow> manual_recovery \<Rightarrow> manual_recovery" where
  "resubmitted e reason r =
     r\<lparr>mr_request_count := (if mr_request_count r = 0 then 1 else mr_request_count r) + 1, mr_requested_ip := client_ip e,
       mr_requested_user_agent := request_user_agent e, mr_last_submitted_at := now e, mr_updated_at := now e, mr_reason := reason\<rparr>"

definition new_manual_recovery :: "env \<Rightarrow> string \<Rightarrow> user option \<Rightarrow> string option \<Rightarrow> database \<Rightarrow> manual_recovery" where
  "new_manual_recovery e identifier_ref linked reason db =
     \<lparr>mr_id = next_id (map mr_id (manual_recoveries db)), mr_identifier_ref = identifier_ref, mr_user_id = map_option u_id linked,
      mr_reason = reason, mr_status = ''pending'', mr_requested_ip = client_ip e, mr_requested_user_agent = request_user_agent e,
      mr_request_count = 1, mr_created_at = now e, mr_updated_at = now e, mr_last_submitted_at = now e,
      mr_expires_at = now e + seconds (cfg_manual_recovery_ttl (cfg e)), mr_status_changed_at = now e, mr_completed_at = None\<rparr>"

definition add_manual_recovery :: "manual_recovery \<Rightarrow> database \<Rightarrow> database" where
  "add_manual_recovery r db = db\<lparr>manual_recoveries := manual_recoveries db @ [r]\<rparr>"

definition add_recovery_ticket :: "env \<Rightarrow> user \<Rightarrow> string option \<Rightarrow> database \<Rightarrow> database" where
  "add_recovery_ticket e u reason db = db\<lparr>support_tickets := support_tickets db @
     [\<lparr>tk_id = next_id (map tk_id (support_tickets db)), tk_user_id = u_id u, tk_category = ''account_recovery'',
       tk_subject = ''Account recovery requested'',
       tk_description = or_default reason ''Customer requested manual account recovery review. No reason was provided.'',
       tk_status = ''open'', tk_resolved_by_user_id = None, tk_resolution_note = None, tk_created_at = now e, tk_updated_at = now e,
       tk_resolved_at = None\<rparr>]\<rparr>"

definition create_account_recovery_support_ticket :: "env \<Rightarrow> user \<Rightarrow> string option \<Rightarrow> unit request" where
  "create_account_recovery_support_ticket e u reason =
     try_catch (bindA (updateA (add_recovery_ticket e u reason)) (\<lambda>_. commitA)) (\<lambda>_. rollbackA)"

definition submit_manual_recovery :: "env \<Rightarrow> string \<Rightarrow> user option \<Rightarrow> string option \<Rightarrow> unit request" where
  "submit_manual_recovery e identifier_ref linked reason =
     bindA (queryA (new_manual_recovery e identifier_ref linked reason)) (\<lambda>r.
     bindA (updateA (add_manual_recovery r)) (\<lambda>_.
     bindA flushA (\<lambda>_.
     bindA (audit_event_required e ''manual_recovery_requested'' ''pending'' (map_option u_id linked)
       [(''principal_ref'', JStr identifier_ref), (''request_ref'', manual_recovery_request_ref e (mr_id r)),
        (''expires_at'', JStr (utc_iso_offset (mr_expires_at r))), (''reason_present'', JBool (reason \<noteq> None)),
        (''reason_length'', JInt (int (length (or_default reason []))))] None) (\<lambda>_.
     bindA commitA (\<lambda>_.
     case linked of None \<Rightarrow> ret ()
     | Some u \<Rightarrow>
         bindA (send_manual_recovery_notification e u ''SITBank manual recovery requested'') (\<lambda>_.
         create_account_recovery_support_ticket e u reason))))))"

definition resubmit_manual_recovery :: "env \<Rightarrow> string \<Rightarrow> user option \<Rightarrow> string option \<Rightarrow> manual_recovery \<Rightarrow> unit request" where
  "resubmit_manual_recovery e identifier_ref linked reason r =
     bindA (updateA (update_recovery (mr_id r) (resubmitted e reason))) (\<lambda>_.
     bindA (audit_event_required e ''manual_recovery_requested'' ''deduped'' (map_option u_id linked)
       [(''principal_ref'', JStr identifier_ref), (''request_ref'', manual_recovery_request_ref e (mr_id r)),
        (''status'', JStr (mr_status r)), (''reason_present'', JBool (reason \<noteq> None)),
        (''reason_length'', JInt (int (length (or_default reason []))))] None) (\<lambda>_.
     commitA))"

definition clean_recovery_reason :: "string option \<Rightarrow> string option" where
  "clean_recovery_reason reason = (let t = take 1000 (py_strip (or_default reason [])) in if t = [] then None else Some t)"

definition recovery_identifier_ref :: "env \<Rightarrow> string \<Rightarrow> string" where
  "recovery_identifier_ref e identifier =
     or_default (principal_reference e identifier) (active_hmac_hex e (''manual-recovery:'' @ normalize_text identifier) 32)"

definition request_manual_recovery :: "env \<Rightarrow> string \<Rightarrow> string option \<Rightarrow> unit request" where
  "request_manual_recovery e identifier reason =
     bindA (consume_public_recovery_limit e ''manual_recovery_request'' (normalize_text identifier) 3 (60 * 60)) (\<lambda>_.
     bindA (find_customer_user identifier) (\<lambda>found.
     let reason = clean_recovery_reason reason;
         ref = recovery_identifier_ref e identifier;
         linked = Option.bind found (\<lambda>u. if is_admin_like_user u then None else Some u) in
     bindA (expire_manual_recovery_requests e (Some ref) None) (\<lambda>_.
     bindA (queryA (active_manual_recovery_request e ref)) (\<lambda>existing.
     case existing of
       Some r \<Rightarrow> resubmit_manual_recovery e ref linked reason r
     | None \<Rightarrow> submit_manual_recovery e ref linked reason))))"

subsection \<open>Frames\<close>

lemma preserves_audit_recovery [preserves_rules]:
  "keeps_audit e P \<Longrightarrow> preserves (both P) (audit_manual_recovery_transition e r p n out reason req)"
  unfolding audit_manual_recovery_transition_def audit_system_event_def audit_system_event_in_transaction_required_def Let_def
  by (intro preserves_rules)

lemma preserves_recovery_notification [preserves_rules]:
  "keeps_audit e P \<Longrightarrow> preserves (both P) (send_manual_recovery_notification e u subj)"
  unfolding send_manual_recovery_notification_def by (intro preserves_rules)

lemma preserves_refuse_recovery_move [preserves_rules]: "keeps_audit e P \<Longrightarrow> preserves (both P) (refuse_recovery_move e r n reason m)"
  unfolding refuse_recovery_move_def by (intro preserves_rules)

lemma preserves_recovery_or_error [preserves_rules]: "preserves (both P) (manual_recovery_request_or_error i)"
  unfolding manual_recovery_request_or_error_def by (intro preserves_rules)

lemma preserves_audit_expired [preserves_rules]: "keeps_audit e P \<Longrightarrow> preserves (both P) (audit_expired_recoveries e rs)"
  by (induction rs) (auto intro!: preserves_rules)

text \<open>What an invariant must tolerate to be kept by the operations on manual recoveries.\<close>

definition desk_free :: "(database \<Rightarrow> bool) \<Rightarrow> bool" where
  "desk_free P \<longleftrightarrow> login_free P \<and> (\<forall>db xs. P db \<longrightarrow> P (db\<lparr>manual_recoveries := xs\<rparr>)) \<and> (\<forall>db xs. P db \<longrightarrow> P (db\<lparr>support_tickets := xs\<rparr>))"

lemma desk_freeD:
  assumes "desk_free P"
  shows "login_free P" "auth_free P" "replays_free P" "recovery_free P" "sessions_free P" "counters_free P" "auth_users_free P" "keeps_audit e P"
  using assms login_freeD [of P] by (simp_all add: desk_free_def)

lemma money_only_desk: "money_only P \<Longrightarrow> desk_free P"
  by (auto simp: desk_free_def money_frees intro: money_onlyD)

lemma preserves_desk_updates:
  assumes "desk_free P"
  shows "preserves (both P) (updateA (update_recovery i f))" "preserves (both P) (updateA (expire_recovery_rows e rs))"
    "preserves (both P) (updateA (add_manual_recovery r))" "preserves (both P) (updateA (add_recovery_ticket e u reason))"
    "preserves (both P) (updateA (update_user k clear_authenticator))"
proof -
  show "preserves (both P) (updateA (update_user k clear_authenticator))"
    using desk_freeD(7) [OF assms] by (rule preserves_update_users) (simp add: clear_authenticator_def account_part_def)
qed (use assms in \<open>auto intro!: preserves_both_updateA
      simp: desk_free_def update_recovery_def expire_recovery_rows_def add_manual_recovery_def add_recovery_ticket_def\<close>)

lemma preserves_expire_requests [preserves_rules]: "desk_free P \<Longrightarrow> preserves (both P) (expire_manual_recovery_requests e ref l)"
  unfolding expire_manual_recovery_requests_def by (intro preserves_rules preserves_desk_updates desk_freeD)

lemma preserves_transition_recovery [preserves_rules]: "desk_free P \<Longrightarrow> preserves (both P) (transition_manual_recovery_request e i st reason)"
  unfolding transition_manual_recovery_request_def expire_stale_recovery_def move_manual_recovery_def
  by (intro preserves_rules preserves_desk_updates desk_freeD)

lemma preserves_complete_recovery [preserves_rules]: "desk_free P \<Longrightarrow> preserves (both P) (complete_manual_recovery_request e i reason)"
  unfolding complete_manual_recovery_request_def expire_stale_recovery_def reset_recovered_account_def audit_system_event_def Let_def
  by (intro preserves_rules preserves_desk_updates desk_freeD)

lemma preserves_request_recovery [preserves_rules]: "desk_free P \<Longrightarrow> preserves (both P) (request_manual_recovery e ident reason)"
  unfolding request_manual_recovery_def resubmit_manual_recovery_def submit_manual_recovery_def create_account_recovery_support_ticket_def Let_def
  by (intro preserves_rules preserves_desk_updates desk_freeD)

subsection \<open>The states of a request\<close>

text \<open>What may become of the requests \<open>rs\<close>: none disappears, each keeps its state or makes an allowed move, and new ones are pending.\<close>

definition recoveries_follow :: "manual_recovery list \<Rightarrow> database \<Rightarrow> bool" where
  "recoveries_follow rs db \<longleftrightarrow> distinct (map mr_id (manual_recoveries db)) \<and> mr_id ` set rs \<subseteq> mr_id ` set (manual_recoveries db)
     \<and> (\<forall>r \<in> set (manual_recoveries db).
          (\<exists>q \<in> set rs. mr_id q = mr_id r \<and> (mr_status r = mr_status q \<or> mr_status r \<in> set (allowed_recovery_moves (mr_status q))))
          \<or> mr_id r \<notin> mr_id ` set rs \<and> mr_status r = ''pending'')"

definition recovery_only :: "(database \<Rightarrow> bool) \<Rightarrow> bool" where
  "recovery_only P \<longleftrightarrow> (\<forall>db db'. manual_recoveries db' = manual_recoveries db \<longrightarrow> P db \<longrightarrow> P db')"

lemma recovery_only_follow: "recovery_only (recoveries_follow rs)" "recovery_only (\<lambda>db. manual_recoveries db = rs)"
  by (auto simp: recovery_only_def recoveries_follow_def)

lemma recovery_only_frees:
  assumes "recovery_only P"
  shows "keeps_audit e P" "counters_free P" "sessions_free P" "preserves (both P) (updateA (update_users p f))"
    "preserves (both P) (updateA (add_recovery_ticket e u reason))"
  using assms
  by (auto simp: recovery_only_def counters_free_def sessions_free_def update_users_def add_recovery_ticket_def
      intro!: keeps_auditI preserves_both_updateA)

lemma follow_refl: "distinct (map mr_id (manual_recoveries db)) \<Longrightarrow> recoveries_follow (manual_recoveries db) db"
  by (auto simp: recoveries_follow_def)

lemma follow_update:
  assumes "distinct (map mr_id rs)"
    and "\<And>r. r \<in> set rs \<Longrightarrow> p r \<Longrightarrow> st = mr_status r \<or> st \<in> set (allowed_recovery_moves (mr_status r))"
  shows "recoveries_follow rs (db\<lparr>manual_recoveries := upd_where p (set_manual_recovery_status e st) rs\<rparr>)"
proof -
  have m: "map mr_id (upd_where p (set_manual_recovery_status e st) rs) = map mr_id rs"
    by (simp add: set_manual_recovery_status_def map_upd_where_frame)
  have "\<exists>q \<in> set rs. mr_id q = mr_id r \<and> (mr_status r = mr_status q \<or> mr_status r \<in> set (allowed_recovery_moves (mr_status q)))"
    if "r \<in> set (upd_where p (set_manual_recovery_status e st) rs)" for r
  proof -
    from that obtain q where q: "q \<in> set rs" "r = (if p q then set_manual_recovery_status e st q else q)" by (auto simp: set_upd_where)
    then show ?thesis using assms(2) [of q] by (auto intro!: bexI [of _ q] simp: set_manual_recovery_status_def)
  qed
  with m assms(1) show ?thesis unfolding recoveries_follow_def by (simp flip: set_map)
qed

lemma follow_move:
  assumes "distinct (map mr_id (manual_recoveries db))" and "r \<in> set (manual_recoveries db)"
    and "st \<in> set (allowed_recovery_moves (mr_status r))"
  shows "recoveries_follow (manual_recoveries db) (update_recovery (mr_id r) (set_manual_recovery_status e st) db)"
proof -
  have "q = r" if "q \<in> set (manual_recoveries db)" "mr_id q = mr_id r" for q
    using assms(1,2) that by (auto simp: distinct_map inj_on_def)
  with assms show ?thesis unfolding update_recovery_def by (intro follow_update) auto
qed

lemma active_may_expire: "st \<in> set manual_recovery_active_statuses \<Longrightarrow> ''expired'' \<in> set (allowed_recovery_moves st)"
  by (auto simp: manual_recovery_active_statuses_def allowed_recovery_moves_def manual_recovery_allowed_transitions_def)

lemma follow_expire:
  assumes "distinct (map mr_id (manual_recoveries db))"
  shows "recoveries_follow (manual_recoveries db) (expire_recovery_rows e (stale_recoveries e ref l db) db)"
proof -
  have st: "r \<in> set (manual_recoveries db) \<and> manual_recovery_stale e r" if "r \<in> set (stale_recoveries e ref l db)" for r
    using that by (cases ref; cases l) (auto simp: stale_recoveries_def Let_def dest!: in_set_takeD)
  have "''expired'' \<in> set (allowed_recovery_moves (mr_status r))"
    if r: "r \<in> set (manual_recoveries db)" "mr_id r \<in> mr_id ` set (stale_recoveries e ref l db)" for r
  proof -
    from r(2) obtain q where "q \<in> set (stale_recoveries e ref l db)" "mr_id q = mr_id r" by auto
    with st r(1) assms have "q = r \<and> manual_recovery_stale e q" by (auto simp: distinct_map inj_on_def)
    then show ?thesis by (auto simp: manual_recovery_stale_def active_may_expire)
  qed
  with assms show ?thesis unfolding expire_recovery_rows_def by (intro follow_update) auto
qed

lemma follow_resubmit: "recoveries_follow rs db \<Longrightarrow> recoveries_follow rs (update_recovery i (resubmitted e reason) db)"
proof -
  assume f: "recoveries_follow rs db"
  have m: "map mr_id (manual_recoveries (update_recovery i (resubmitted e reason) db)) = map mr_id (manual_recoveries db)"
    by (simp add: update_recovery_def resubmitted_def map_upd_where_frame)
  have "\<exists>q \<in> set (manual_recoveries db). mr_id r = mr_id q \<and> mr_status r = mr_status q"
    if "r \<in> set (manual_recoveries (update_recovery i (resubmitted e reason) db))" for r
    using that by (auto simp: update_recovery_def resubmitted_def set_upd_where split: if_splits)
  with f show ?thesis
    unfolding recoveries_follow_def set_map [symmetric] m by metis
qed

lemma follow_add:
  assumes "recoveries_follow rs db"
  shows "recoveries_follow rs (add_manual_recovery (new_manual_recovery e ref linked reason db) db)"
proof -
  have "next_id (map mr_id (manual_recoveries db)) \<notin> mr_id ` set (manual_recoveries db)"
    using next_id_fresh [of "map mr_id (manual_recoveries db)"] by simp
  with assms show ?thesis
    by (auto simp: recoveries_follow_def add_manual_recovery_def new_manual_recovery_def)
qed

text \<open>The requests of this component as steps, served one after the other.\<close>

inductive recovery_step :: "world \<Rightarrow> world \<Rightarrow> bool" where
  submit: "served (request_manual_recovery e ident reason) s = (x, t) \<Longrightarrow> recovery_step s t"
| move: "served (transition_manual_recovery_request e i status reason') s = (y, t) \<Longrightarrow> recovery_step s t"
| complete: "served (complete_manual_recovery_request e i reason') s = (z, t) \<Longrightarrow> recovery_step s t"
| expire: "served (expire_manual_recovery_requests e ref limit) s = (n, t) \<Longrightarrow> recovery_step s t"

lemma recovery_or_error_cases:
  obtains (found) r where "recovery_by_id (working s) i = Some r" "manual_recovery_request_or_error i s = (Inr r, s)"
  | (missing) "manual_recovery_request_or_error i s = (Inl (auth_error ''Manual recovery request not found'' 404), s)"
  by (cases "recovery_by_id (working s) i") (auto simp: manual_recovery_request_or_error_def)

lemma recovery_by_id_member: "recovery_by_id db i = Some r \<Longrightarrow> r \<in> set (manual_recoveries db) \<and> mr_id r = i"
  unfolding recovery_by_id_def by (auto dest: find_SomeD)

text \<open>A state in which the requests are \<open>rs\<close>, and what an action makes of it.\<close>

definition recoveries_at :: "manual_recovery list \<Rightarrow> world \<Rightarrow> bool" where
  "recoveries_at rs s \<longleftrightarrow> both (\<lambda>db. manual_recoveries db = rs) s \<and> distinct (map mr_id rs)"

definition follows_from :: "manual_recovery list \<Rightarrow> 'a request \<Rightarrow> bool" where
  "follows_from rs m \<longleftrightarrow> (\<forall>s. recoveries_at rs s \<longrightarrow> both (recoveries_follow rs) (snd (m s)))"

lemmas follow_frees = recovery_only_frees [OF recovery_only_follow(1)]
lemmas unmoved_frees = recovery_only_frees [OF recovery_only_follow(2)]

lemma unmoved: "recoveries_at rs s \<Longrightarrow> both (recoveries_follow rs) s"
  using follow_refl [of "committed s"] follow_refl [of "working s"] by (auto simp: recoveries_at_def both_def)

lemma follows_from_preserves: "preserves (both (recoveries_follow rs)) m \<Longrightarrow> follows_from rs m"
  unfolding follows_from_def by (blast intro: preservesD [rotated] dest: unmoved)

lemma follows_from_bind:
  assumes "preserves (both (\<lambda>db. manual_recoveries db = rs)) m" and "\<And>x. follows_from rs (k x)"
  shows "follows_from rs (bindA m k)"
  unfolding follows_from_def
proof (intro allI impI)
  fix s
  assume s: "recoveries_at rs s"
  obtain x t where m: "m s = (x, t)" by (cases "m s")
  have t: "recoveries_at rs t" using preservesD' [OF assms(1) m] s by (simp add: recoveries_at_def)
  show "both (recoveries_follow rs) (snd (bindA m k s))"
    using m unmoved [OF t] assms(2) t by (cases x) (auto simp: bindA_def follows_from_def)
qed

lemma follows_from_query:
  assumes "\<And>s. recoveries_at rs s \<Longrightarrow> follows_from rs (k (f (working s)))"
  shows "follows_from rs (bindA (queryA f) k)"
  using assms by (simp add: follows_from_def)

lemma follows_from_update:
  assumes "\<And>db. manual_recoveries db = rs \<Longrightarrow> distinct (map mr_id rs) \<Longrightarrow> recoveries_follow rs (f db)"
    and "preserves (both (recoveries_follow rs)) (k ())"
  shows "follows_from rs (bindA (updateA f) k)"
  unfolding follows_from_def
proof (intro allI impI)
  fix s
  assume s: "recoveries_at rs s"
  then have "both (recoveries_follow rs) (s\<lparr>working := f (working s)\<rparr>)"
    using unmoved [OF s] assms(1) by (simp add: both_def recoveries_at_def)
  from preservesD [OF assms(2) this] show "both (recoveries_follow rs) (snd (bindA (updateA f) k s))" by simp
qed

lemma follows_from_move:
  assumes "r \<in> set rs" "st \<in> set (allowed_recovery_moves (mr_status r))" "preserves (both (recoveries_follow rs)) (k ())"
  shows "follows_from rs (bindA (updateA (update_recovery (mr_id r) (set_manual_recovery_status e st))) k)"
  using follow_move assms by (intro follows_from_update) auto

lemma follows_from_or_error:
  assumes "\<And>r. r \<in> set rs \<Longrightarrow> follows_from rs (k r)"
  shows "follows_from rs (bindA (manual_recovery_request_or_error i) k)"
  unfolding follows_from_def
proof (intro allI impI)
  fix s
  assume s: "recoveries_at rs s"
  show "both (recoveries_follow rs) (snd (bindA (manual_recovery_request_or_error i) k s))"
  proof (cases rule: recovery_or_error_cases [of s i])
    case (found r)
    then have "r \<in> set rs" using recovery_by_id_member [OF found(1)] s by (auto simp: recoveries_at_def both_def)
    with assms s found(2) show ?thesis by (simp add: follows_from_def)
  next
    case missing
    with unmoved [OF s] show ?thesis by (simp add: bindA_def)
  qed
qed

lemma follows_from_then:
  assumes "follows_from rs m" and "\<And>x. preserves (both (recoveries_follow rs)) (k x)"
  shows "follows_from rs (bindA m k)"
  unfolding follows_from_def
proof (intro allI impI)
  fix s
  assume s: "recoveries_at rs s"
  obtain x t where m: "m s = (x, t)" by (cases "m s")
  have "both (recoveries_follow rs) t" using assms(1) s m by (auto simp: follows_from_def dest!: spec [of _ s])
  with m preservesD [OF assms(2)] show "both (recoveries_follow rs) (snd (bindA m k s))" by (cases x) (simp_all add: bindA_def)
qed

lemma follows_from_expire_stale:
  "r \<in> set rs \<Longrightarrow> manual_recovery_stale e r \<Longrightarrow> follows_from rs (expire_stale_recovery e r reason)"
  unfolding expire_stale_recovery_def
  by (rule follows_from_move) (auto simp: manual_recovery_stale_def active_may_expire intro!: preserves_rules follow_frees)

lemma follows_from_refuse: "follows_from rs (refuse_recovery_move e r st why m)"
  by (intro follows_from_preserves preserves_rules follow_frees)

lemma follows_from_raise_ret: "follows_from rs (raise err)" "follows_from rs (ret x)"
  by (intro follows_from_preserves preserves_rules)+

lemma follow_transition: "follows_from rs (transition_manual_recovery_request e i status reason)"
  unfolding transition_manual_recovery_request_def
proof (rule follows_from_or_error)
  fix r
  assume r: "r \<in> set rs"
  have "follows_from rs (move_manual_recovery e r st reason)" if "st \<in> set (allowed_recovery_moves (mr_status r))" for st
    unfolding move_manual_recovery_def by (rule follows_from_move [OF r that]) (intro preserves_rules follow_frees)
  with r show "follows_from rs (if manual_recovery_stale e r then expire_stale_recovery e r ''expired_before_transition''
     else case normalize_manual_recovery_status status of Inl err \<Rightarrow> raise err
     | Inr status \<Rightarrow> if status = mr_status r then ret (public_manual_recovery r)
         else if status \<notin> set (allowed_recovery_moves (mr_status r))
         then refuse_recovery_move e r status ''invalid_transition'' ''Invalid manual recovery status transition''
         else move_manual_recovery e r status reason)"
    by (simp add: follows_from_expire_stale follows_from_refuse follows_from_raise_ret split: sum.split)
qed

lemma follow_reset_account:
  assumes "r \<in> set rs" and "mr_status r = ''approved''"
  shows "follows_from rs (reset_recovered_account e r u reason)"
proof -
  have "''completed'' \<in> set (allowed_recovery_moves (mr_status r))"
    using assms(2) by (simp add: allowed_recovery_moves_def manual_recovery_allowed_transitions_def)
  then show ?thesis
    unfolding reset_recovered_account_def audit_system_event_def Let_def
    by (intro follows_from_bind [OF unmoved_frees(4)] follows_from_bind [OF preserves_revoke_all_sessions [OF unmoved_frees(3)]]
        follows_from_move [OF assms(1)] preserves_rules follow_frees)
qed

lemma follow_complete: "follows_from rs (complete_manual_recovery_request e i reason)"
  unfolding complete_manual_recovery_request_def Let_def
proof (rule follows_from_or_error)
  fix r
  assume r: "r \<in> set rs"
  let ?no = "refuse_recovery_move e r ''completed'' ''completion_user_unavailable'' ''Manual recovery request cannot be completed''"
  let ?k = "\<lambda>found. case found of None \<Rightarrow> ?no
       | Some u \<Rightarrow> if is_admin_like_user u \<or> account_reset_blocked u then ?no else reset_recovered_account e r u reason"
  have k: "follows_from rs (?k found)" if "mr_status r = ''approved''" for found
    using follow_reset_account [OF r that] by (simp add: follows_from_refuse split: option.split)
  let ?f = "\<lambda>db. Option.bind (mr_user_id r) (\<lambda>i. if i = 0 then None else user_by_id db i)"
  have "follows_from rs (bindA (queryA ?f) ?k)" if "mr_status r = ''approved''"
    by (rule follows_from_query [where k = ?k and f = ?f]) (rule k [OF that])
  with r show "follows_from rs (if manual_recovery_stale e r then expire_stale_recovery e r ''expired_before_completion''
     else if mr_status r \<noteq> ''approved''
     then refuse_recovery_move e r ''completed'' ''completion_requires_approval'' ''Manual recovery request must be approved before completion''
     else bindA (queryA ?f) ?k)"
    by (simp add: follows_from_expire_stale follows_from_refuse)
qed

lemma follow_expire_requests: "follows_from rs (expire_manual_recovery_requests e ref l)"
  unfolding expire_manual_recovery_requests_def
proof (rule follows_from_query, rule follows_from_update)
  fix s and db :: database
  assume "recoveries_at rs s" "manual_recoveries db = rs" "distinct (map mr_id rs)"
  moreover from this have "stale_recoveries e ref l (working s) = stale_recoveries e ref l db"
    by (simp add: recoveries_at_def both_def stale_recoveries_def)
  ultimately show "recoveries_follow rs (expire_recovery_rows e (stale_recoveries e ref l (working s)) db)"
    using follow_expire [of db e ref l] by simp
qed (intro preserves_rules follow_frees)

lemma follow_request: "follows_from rs (request_manual_recovery e ident reason)"
proof -
  have resub: "preserves (both (recoveries_follow rs)) (resubmit_manual_recovery e ref linked why r)" for ref linked why r
    unfolding resubmit_manual_recovery_def by (intro preserves_rules preserves_both_updateA follow_resubmit follow_frees)
  have sub: "preserves (both (recoveries_follow rs)) (submit_manual_recovery e ref linked why)" for ref linked why
  proof (rule preservesI)
    fix s
    assume s: "both (recoveries_follow rs) s"
    let ?r = "new_manual_recovery e ref linked why (working s)"
    have "both (recoveries_follow rs) (s\<lparr>working := add_manual_recovery ?r (working s)\<rparr>)" using s follow_add by (simp add: both_def)
    moreover have "preserves (both (recoveries_follow rs)) (bindA flushA (\<lambda>_.
     bindA (audit_event_required e ''manual_recovery_requested'' ''pending'' (map_option u_id linked)
       [(''principal_ref'', JStr ref), (''request_ref'', manual_recovery_request_ref e (mr_id ?r)),
        (''expires_at'', JStr (utc_iso_offset (mr_expires_at ?r))), (''reason_present'', JBool (why \<noteq> None)),
        (''reason_length'', JInt (int (length (or_default why []))))] None) (\<lambda>_.
     bindA commitA (\<lambda>_.
     case linked of None \<Rightarrow> ret ()
     | Some u \<Rightarrow> bindA (send_manual_recovery_notification e u ''SITBank manual recovery requested'') (\<lambda>_.
         create_account_recovery_support_ticket e u why)))))"
      unfolding create_account_recovery_support_ticket_def by (intro preserves_rules follow_frees)
    ultimately show "both (recoveries_follow rs) (snd (submit_manual_recovery e ref linked why s))"
      using preservesD by (fastforce simp: submit_manual_recovery_def)
  qed
  show ?thesis
    unfolding request_manual_recovery_def Let_def
    by (intro follows_from_bind [OF preserves_public_limit [OF unmoved_frees(2,1)]] follows_from_bind [OF preserves_find_customer_user]
        follows_from_then [OF follow_expire_requests] preserves_rules sub resub)
qed

lemma follows_served:
  assumes "follows_from rs m" and "recoveries_at rs s" and "served m s = (x, t)"
  shows "recoveries_follow rs (committed t) \<and> working t = committed t"
  using assms by (auto simp: follows_from_def served_eq both_def dest!: spec [of _ s])

lemma step_follows:
  assumes "recovery_step s t" and "recoveries_at rs s"
  shows "recoveries_follow rs (committed t) \<and> working t = committed t"
  using assms(1)
  by cases (rule follows_served [OF _ assms(2)], rule follow_request follow_transition follow_complete follow_expire_requests, assumption)+

text \<open>The states without an outgoing move.\<close>

definition decided :: "string \<Rightarrow> bool" where
  "decided st \<longleftrightarrow> allowed_recovery_moves st = []"

lemma decided_statuses: "st \<in> set manual_recovery_statuses \<Longrightarrow> decided st \<longleftrightarrow> st \<notin> set manual_recovery_active_statuses"
  by (auto simp: decided_def allowed_recovery_moves_def manual_recovery_allowed_transitions_def manual_recovery_statuses_def
      manual_recovery_active_statuses_def)

lemma follow_decided:
  assumes "recoveries_follow rs db" "distinct (map mr_id rs)" "q \<in> set rs" "decided (mr_status q)"
  shows "\<exists>r \<in> set (manual_recoveries db). mr_id r = mr_id q \<and> mr_status r = mr_status q"
proof -
  from assms(1,3) obtain r where r: "r \<in> set (manual_recoveries db)" "mr_id r = mr_id q" by (force simp: recoveries_follow_def)
  with assms(1,3) obtain q' where q': "q' \<in> set rs" "mr_id q' = mr_id r"
      "mr_status r = mr_status q' \<or> mr_status r \<in> set (allowed_recovery_moves (mr_status q'))"
    unfolding recoveries_follow_def by (metis image_eqI)
  with assms(2,3) r(2) have "q' = q" by (auto simp: distinct_map inj_on_def)
  with q'(3) assms(4) r show ?thesis by (auto simp: decided_def)
qed

lemma reached_states:
  assumes "recovery_step\<^sup>*\<^sup>* s t" and "working s = committed s" and "distinct (map mr_id (manual_recoveries (committed s)))"
  shows "recoveries_at (manual_recoveries (committed t)) t
    \<and> (\<forall>r \<in> set (manual_recoveries (committed s)). decided (mr_status r)
        \<longrightarrow> (\<exists>q \<in> set (manual_recoveries (committed t)). mr_id q = mr_id r \<and> mr_status q = mr_status r))"
  using assms(1)
proof (induction rule: rtranclp_induct)
  case base
  then show ?case using assms(2,3) by (auto simp: recoveries_at_def both_def)
next
  case (step t u)
  then have t: "recoveries_at (manual_recoveries (committed t)) t" by blast
  note f = step_follows [OF step.hyps(2) t]
  then have "recoveries_at (manual_recoveries (committed u)) u" by (simp add: recoveries_at_def both_def recoveries_follow_def)
  moreover have "distinct (map mr_id (manual_recoveries (committed t)))" using t by (simp add: recoveries_at_def)
  ultimately show ?case
    using step.IH follow_decided [OF conjunct1 [OF f]] by metis
qed

text \<open>
  C30. The states of manual recovery requests. Whatever requests are submitted, moved, completed and expired, in whatever order and however
  they fail, one such step leaves every request in its state or moves it along an allowed transition, deletes none and adds only pending ones; so over
  any number of steps a request that is denied, expired, cancelled or completed stays so.
\<close>

theorem manual_recovery_states:
  assumes "recovery_step\<^sup>*\<^sup>* s t" and "working s = committed s" and "distinct (map mr_id (manual_recoveries (committed s)))"
  shows "(\<forall>u. recovery_step t u \<longrightarrow> recoveries_follow (manual_recoveries (committed t)) (committed u))
    \<and> (\<forall>r \<in> set (manual_recoveries (committed s)). decided (mr_status r)
        \<longrightarrow> (\<exists>q \<in> set (manual_recoveries (committed t)). mr_id q = mr_id r \<and> mr_status q = mr_status r))"
  using reached_states [OF assms] step_follows by blast

subsection \<open>What a completion has checked and done\<close>

definition recovered :: "env \<Rightarrow> int \<Rightarrow> int \<Rightarrow> database \<Rightarrow> bool" where
  "recovered e i uid db \<longleftrightarrow>
     (\<exists>v. user_by_id db uid = Some v \<and> \<not> u_mfa_enabled v \<and> u_mfa_secret_ciphertext v = None \<and> u_mfa_secret_nonce v = None)
     \<and> (\<exists>r. recovery_by_id db i = Some r \<and> mr_status r = ''completed'')
     \<and> (\<forall>r \<in> set (server_sessions db). \<not> active_session e uid (component_of e (Some ''customer'')) r)"

lemma recovered_keeps_audit: "keeps_audit e' (recovered e i uid)"
  by (rule keeps_auditI) (simp add: recovered_def user_by_id_def recovery_by_id_def)

lemma recovery_by_id_update:
  assumes "recovery_by_id db i = Some r" and "\<And>q. mr_id (f q) = mr_id q"
  shows "recovery_by_id (update_recovery i f db) i = Some (f r)"
  using assms recovery_by_id_member [OF assms(1)] by (simp add: recovery_by_id_def update_recovery_def find_upd_where_same)

lemma reset_account_done:
  assumes run: "reset_recovered_account e r u reason s = (Inr z, t)"
    and u: "user_by_id (working s) (u_id u) = Some v" and r: "recovery_by_id (working s) (mr_id r) = Some q"
  shows "both (recovered e (mr_id r) (u_id u)) t"
proof -
  let ?d = "update_user (u_id u) clear_authenticator (working s)"
  let ?md = "\<lambda>revoked. [(''request_ref'', manual_recovery_request_ref e (mr_id r)), (''previous_status'', JStr (mr_status r)),
           (''new_status'', JStr ''completed''), (''reason'', opt_json JStr reason), (''revoked_sessions'', JInt revoked),
           (''mfa_reenrollment_required'', JBool True)]"
  let ?f = "update_recovery (mr_id r) (set_manual_recovery_status e ''completed'')"
  from run obtain revoked s2 s3 where
      rev: "revoke_all_sessions e (u_id u) ''manual_recovery'' (Some ''customer'') (s\<lparr>working := ?d\<rparr>) = (Inr revoked, s2)"
      and au: "(if has_request e
       then bindA (audit_event_required e ''manual_recovery_completed'' ''success'' (Some (u_id u)) (?md revoked) None) (\<lambda>_. commitA)
       else bindA commitA (\<lambda>_. audit_system_event e ''manual_recovery_completed'' ''success'' (Some (u_id u)) (?md revoked)))
        (s2\<lparr>working := ?f (working s2)\<rparr>) = (Inr (), s3)"
      and nt: "send_manual_recovery_notification e u ''SITBank manual recovery completed'' s3 = (Inr (), t)"
    by (auto simp: reset_recovered_account_def bindA_eq_Inr Let_def)
  have s2: "users (working s2) = users ?d" "manual_recoveries (working s2) = manual_recoveries (working s)"
    using rev by (auto simp: revoke_all_eq Let_def end_session_rows_def expire_stale_sessions_def update_session_where_def update_users_def)
  have "\<exists>v'. user_by_id ?d (u_id u) = Some v' \<and> \<not> u_mfa_enabled v' \<and> u_mfa_secret_ciphertext v' = None \<and> u_mfa_secret_nonce v' = None"
    using u user_by_id_member [OF u] by (simp add: user_by_id_update_users clear_authenticator_def)
  moreover have "recovery_by_id (working s2) (mr_id r) = Some q" using r by (simp add: recovery_by_id_def s2)
  from recovery_by_id_update [OF this, of "set_manual_recovery_status e ''completed''"]
  have "\<exists>q'. recovery_by_id (?f (working s2)) (mr_id r) = Some q' \<and> mr_status q' = ''completed''" by (simp add: set_manual_recovery_status_def)
  ultimately have w: "recovered e (mr_id r) (u_id u) (?f (working s2))"
    using revoke_all_leaves_none [OF rev] by (auto simp: recovered_def update_recovery_def user_by_id_def s2(1))
  have s3: "both (recovered e (mr_id r) (u_id u)) s3"
  proof (cases "has_request e")
    case True
    with au obtain s4 where a: "audit_event_required e ''manual_recovery_completed'' ''success'' (Some (u_id u)) (?md revoked) None
        (s2\<lparr>working := ?f (working s2)\<rparr>) = (Inr (), s4)" and c: "commitA s4 = (Inr (), s3)" by (auto simp: bindA_eq_Inr)
    obtain ev where "working s4 = add_audit ev (?f (working s2))"
      using a by (cases rule: audit_event_required_cases [of e "''manual_recovery_completed''" "''success''" "Some (u_id u)" "?md revoked" None
          "s2\<lparr>working := ?f (working s2)\<rparr>"]) auto
    with w commit_published [OF c] show ?thesis by (simp add: both_def recovered_def user_by_id_def recovery_by_id_def)
  next
    case False
    with au obtain s4 where c: "commitA (s2\<lparr>working := ?f (working s2)\<rparr>) = (Inr (), s4)"
      and a: "audit_system_event e ''manual_recovery_completed'' ''success'' (Some (u_id u)) (?md revoked) s4 = (Inr (), s3)"
      by (auto simp: bindA_eq_Inr)
    have "both (recovered e (mr_id r) (u_id u)) s4" using commit_published [OF c] w by (simp add: both_def)
    moreover have "preserves (both (recovered e (mr_id r) (u_id u))) (audit_system_event e t' o' i' m')" for t' o' i' m'
      unfolding audit_system_event_def by (intro preserves_rules recovered_keeps_audit)
    ultimately show ?thesis using a by (blast dest: preservesD')
  qed
  from preservesD' [OF preserves_recovery_notification [OF recovered_keeps_audit] nt s3] show ?thesis .
qed

lemma raises_expire_stale [simp]: "raises (expire_stale_recovery e r reason)"
  unfolding expire_stale_recovery_def by (intro raises_bindA raises_raise)

lemma raises_refuse_move [simp]: "raises (refuse_recovery_move e r st why m)"
  unfolding refuse_recovery_move_def by (intro raises_bindA raises_raise)

lemma completed_recovery:
  assumes "complete_manual_recovery_request e i reason s = (Inr z, t)"
  shows "\<exists>r u. recovery_by_id (working s) i = Some r \<and> mr_status r = ''approved'' \<and> now e < mr_expires_at r
    \<and> mr_user_id r = Some (u_id u) \<and> user_by_id (working s) (u_id u) = Some u \<and> \<not> is_admin_like_user u \<and> \<not> account_reset_blocked u
    \<and> both (recovered e i (u_id u)) t"
  using assms
proof (cases rule: recovery_or_error_cases [of s i])
  case (found r)
  have i: "mr_id r = i" using recovery_by_id_member [OF found(1)] by simp
  from assms found have r: "\<not> manual_recovery_stale e r" "mr_status r = ''approved''"
    by (auto simp: complete_manual_recovery_request_def raises_not_Inr [OF raises_expire_stale] raises_not_Inr [OF raises_refuse_move] split: if_splits)
  from assms found r obtain u where u: "Option.bind (mr_user_id r) (\<lambda>i. if i = 0 then None else user_by_id (working s) i) = Some u"
      "\<not> is_admin_like_user u" "\<not> account_reset_blocked u" "reset_recovered_account e r u reason s = (Inr z, t)"
    by (auto simp: complete_manual_recovery_request_def Let_def raises_not_Inr [OF raises_refuse_move] split: option.splits if_splits)
  then have "mr_user_id r = Some (u_id u)" "user_by_id (working s) (u_id u) = Some u"
    using user_by_id_member by (cases "mr_user_id r"; force split: if_splits)+
  moreover from this have "both (recovered e i (u_id u)) t" using reset_account_done [OF u(4)] found(1) i by blast
  ultimately show ?thesis using r u(2,3) found(1)
    by (auto simp: manual_recovery_stale_def manual_recovery_active_statuses_def)
qed (simp add: complete_manual_recovery_request_def bindA_def)

text \<open>
  C31. What the completion of a manual recovery has checked and done. When \<^verbatim>\<open>complete_manual_recovery_request\<close> returns, the request was
  approved and not expired and its account is that of a customer who is neither privileged nor frozen nor locked; afterwards the request is
  completed, the account has no authenticator and no secret, and no customer session of it is active.
\<close>

theorem manual_recovery_completion:
  assumes "complete_manual_recovery_request e i reason s = (Inr z, t)"
  shows "\<exists>r u. recovery_by_id (working s) i = Some r \<and> mr_status r = ''approved'' \<and> now e < mr_expires_at r
    \<and> mr_user_id r = Some (u_id u) \<and> user_by_id (working s) (u_id u) = Some u \<and> \<not> is_admin_like_user u \<and> \<not> account_reset_blocked u
    \<and> both (recovered e i (u_id u)) t"
  using assms by (rule completed_recovery)

subsection \<open>Examples\<close>

definition sample_recovery :: "int \<Rightarrow> string \<Rightarrow> manual_recovery" where
  "sample_recovery i st = \<lparr>mr_id = i, mr_identifier_ref = ''ref'', mr_user_id = Some 1, mr_reason = None, mr_status = st,
      mr_requested_ip = [], mr_requested_user_agent = [], mr_request_count = 1, mr_created_at = 0, mr_updated_at = 0, mr_last_submitted_at = 0,
      mr_expires_at = now sample_env64 + 1, mr_status_changed_at = 0, mr_completed_at = None\<rparr>"

definition recovery_world :: world where
  "recovery_world = fresh_world (empty_db\<lparr>users := [alice], manual_recoveries := [sample_recovery 1 ''approved'', sample_recovery 2 ''denied'']\<rparr>)"

definition completed_db :: database where
  "completed_db = update_recovery 1 (set_manual_recovery_status sample_env64 ''completed'')
     (update_user 1 clear_authenticator (working recovery_world))"

lemma complete_recovery_example:
  "\<exists>z t. complete_manual_recovery_request sample_env64 1 None recovery_world = (Inr z, t)"
proof -
  have f: "u_id alice = 1" "audit_ready sample_env64" "has_request sample_env64"
    by (simp_all add: alice_def sample_user_def audit_ready_def sample_env64_def sample_env_def sample_cfg_def)
  let ?r = "sample_recovery 1 ''approved''"
  let ?s = "recovery_world\<lparr>working := completed_db\<rparr>"
  have st: "storable completed_db" by code_simp
  have w: "server_sessions (update_user 1 clear_authenticator (working recovery_world)) = []"
    by (simp add: recovery_world_def fresh_world_def empty_db_def update_users_def)
  obtain ev where ev: "audit_event_required sample_env64 ''manual_recovery_completed'' ''success'' (Some 1)
       [(''request_ref'', manual_recovery_request_ref sample_env64 1), (''previous_status'', JStr ''approved''),
           (''new_status'', JStr ''completed''), (''reason'', JNull), (''revoked_sessions'', JInt 0),
           (''mfa_reenrollment_required'', JBool True)] None ?s = (Inr (), ?s\<lparr>working := add_audit ev (working ?s)\<rparr>)"
    using audit_event_required_ready [OF f(2)] by blast
  have rev: "revoke_all_sessions sample_env64 1 ''manual_recovery'' (Some ''customer'')
      (recovery_world\<lparr>working := update_user 1 clear_authenticator (working recovery_world)\<rparr>)
      = (Inr 0, recovery_world\<lparr>working := update_user 1 clear_authenticator (working recovery_world)\<rparr>)"
    using w by (simp add: revoke_all_eq Let_def end_session_rows_def expire_stale_sessions_def update_session_where_def)
  have c: "commitA (?s\<lparr>working := add_audit ev (working ?s)\<rparr>) =
      (Inr (), ?s\<lparr>working := add_audit ev (working ?s), committed := add_audit ev (working ?s)\<rparr>)"
    using commitA_ok [of "?s\<lparr>working := add_audit ev (working ?s)\<rparr>"] st by simp
  obtain t where "send_manual_recovery_notification sample_env64 alice ''SITBank manual recovery completed''
      (?s\<lparr>working := add_audit ev (working ?s), committed := add_audit ev (working ?s)\<rparr>) = (Inr (), t)"
    by (cases "email_ok sample_env64")
       (auto simp: send_manual_recovery_notification_def try_catch_def send_security_email_def intro: exE [OF audit_event_returns])
  then have "\<exists>z t. reset_recovered_account sample_env64 ?r alice None recovery_world = (Inr z, t)"
    using f rev ev c
    by (simp add: reset_recovered_account_def Let_def sample_recovery_def opt_json_def flip: completed_db_def)
  moreover have "manual_recovery_request_or_error 1 recovery_world = (Inr ?r, recovery_world)" by code_simp
  moreover have "\<not> manual_recovery_stale sample_env64 ?r" "mr_status ?r = ''approved''" "mr_user_id ?r = Some 1"
      "user_by_id (working recovery_world) 1 = Some alice" "\<not> is_admin_like_user alice" "\<not> account_reset_blocked alice"
    by code_simp+
  ultimately show ?thesis by (simp add: complete_manual_recovery_request_def Let_def)
qed

theorem manual_recovery_completion_witness:
  "\<exists>z t. complete_manual_recovery_request sample_env64 1 None recovery_world = (Inr z, t) \<and> both (recovered sample_env64 1 1) t"
proof -
  obtain z t where t: "complete_manual_recovery_request sample_env64 1 None recovery_world = (Inr z, t)" using complete_recovery_example by blast
  have "mr_user_id r = Some 1" if "recovery_by_id (working recovery_world) 1 = Some r" for r
    using that by (auto simp: recovery_world_def fresh_world_def recovery_by_id_def sample_recovery_def)
  with manual_recovery_completion [OF t] t show ?thesis by fastforce
qed

theorem manual_recovery_states_witness:
  "\<exists>t. recovery_step\<^sup>*\<^sup>* recovery_world t \<and> recovery_by_id (committed t) 1 \<noteq> recovery_by_id (committed recovery_world) 1
     \<and> (\<exists>q \<in> set (manual_recoveries (committed t)). mr_id q = 2 \<and> mr_status q = ''denied'')"
proof -
  obtain z t where t: "complete_manual_recovery_request sample_env64 1 None recovery_world = (Inr z, t)" using complete_recovery_example by blast
  let ?t = "t\<lparr>working := committed t\<rparr>"
  have "recovery_step recovery_world ?t" by (rule recovery_step.complete [of sample_env64 1 None _ "Inr z"]) (simp add: served_def t)
  then have r: "recovery_step\<^sup>*\<^sup>* recovery_world ?t" by blast
  have w: "working recovery_world = committed recovery_world" "distinct (map mr_id (manual_recoveries (committed recovery_world)))"
      "sample_recovery 2 ''denied'' \<in> set (manual_recoveries (committed recovery_world))" "mr_id (sample_recovery i st) = i"
      "mr_status (sample_recovery i st) = st" "decided ''denied''"
      "recovery_by_id (committed recovery_world) 1 = Some (sample_recovery 1 ''approved'')" for i st
    by (simp_all add: recovery_world_def fresh_world_def sample_recovery_def decided_def allowed_recovery_moves_def
        manual_recovery_allowed_transitions_def recovery_by_id_def)
  obtain uid where "both (recovered sample_env64 1 uid) t"
    using completed_recovery [OF t] by blast
  then have "\<exists>q. recovery_by_id (committed ?t) 1 = Some q \<and> mr_status q = ''completed''" by (auto simp: both_def recovered_def)
  then have "recovery_by_id (committed ?t) 1 \<noteq> recovery_by_id (committed recovery_world) 1" using w(5,7) by auto
  moreover from conjunct2 [OF manual_recovery_states [OF r w(1,2)]] w(3-6)
  have "\<exists>q \<in> set (manual_recoveries (committed ?t)). mr_id q = 2 \<and> mr_status q = ''denied''" by fastforce
  ultimately show ?thesis using r by blast
qed

end
