(* ===== verification/Staff_Roles.thy ===== *)
theory Staff_Roles
  imports Manual_Recovery
begin

section \<open>Staff roles and separation of duties\<close>

text \<open>
  Who may act for the bank: the role predicates and session guards of \<^verbatim>\<open>app/admin/services.py\<close>, and the checks of
  \<^verbatim>\<open>app/admin/separation.py\<close> that keep a member of staff from acting on their own customer account. An acting user is the row the session
  guard read at the beginning of the request.
\<close>

definition staff_account_types :: "string list" where
  "staff_account_types = [''staff'', ''admin'', ''root_admin'']"

definition fresh_mfa_required_error :: string where
  "fresh_mfa_required_error = ''Fresh MFA verification is required''"

text \<open>\<open>x or "customer"\<close> of the account type.\<close>

definition account_type_of :: "user \<Rightarrow> string" where
  "account_type_of u = text_or (u_account_type u) ''customer''"

definition is_customer_user :: "user option \<Rightarrow> bool" where
  "is_customer_user u = (case u of None \<Rightarrow> False | Some u \<Rightarrow> account_type_of u = ''customer'')"

definition is_staff_user :: "user option \<Rightarrow> bool" where
  "is_staff_user u = (case u of None \<Rightarrow> False | Some u \<Rightarrow> account_type_of u \<in> set staff_account_types)"

definition is_active_staff_user :: "env \<Rightarrow> user option \<Rightarrow> bool" where
  "is_active_staff_user e u = (case u of None \<Rightarrow> False | Some v \<Rightarrow>
     is_staff_user u \<and> u_account_status v = ''active'' \<and> u_mfa_enabled v \<and> is_privileged_workplace_email e (u_email v))"

text \<open>\<^verbatim>\<open>_normalize_email\<close> of an address that passed the workplace check, which excludes the characters and lengths it refuses.\<close>

definition normalize_email_text :: "string \<Rightarrow> string" where
  "normalize_email_text email =
     (case partition_on (CHR ''@'') (py_strip email) of (local, separator, domain) \<Rightarrow>
      if separator then local @ ''@'' @ py_casefold (py_strip domain) else py_strip email)"

definition is_root_admin :: "env \<Rightarrow> user option \<Rightarrow> bool" where
  "is_root_admin e u = (case u of None \<Rightarrow> False | Some v \<Rightarrow>
     u_account_type v = ''root_admin'' \<and> is_privileged_workplace_email e (u_email v)
     \<and> py_casefold (normalize_email_text (u_email v)) \<in> set (root_admin_emails e))"

definition is_plain_staff_user :: "user option \<Rightarrow> bool" where
  "is_plain_staff_user u = (case u of None \<Rightarrow> False | Some v \<Rightarrow> account_type_of v = ''staff'')"

definition is_active_root_admin :: "env \<Rightarrow> user option \<Rightarrow> bool" where
  "is_active_root_admin e u \<longleftrightarrow> is_root_admin e u \<and> is_active_staff_user e u"

definition role_rank :: "string \<Rightarrow> int" where
  "role_rank role = (case map_of [(''customer'', 0), (''staff'', 10), (''admin'', 20), (''root_admin'', 30)] (py_casefold (py_strip (text_or role ''customer''))) of None \<Rightarrow> -1 | Some n \<Rightarrow> n)"

text \<open>An audited refusal.\<close>

definition staff_block :: "env \<Rightarrow> user option \<Rightarrow> string \<Rightarrow> string \<Rightarrow> (string \<times> json) list \<Rightarrow> string \<Rightarrow> int \<Rightarrow> 'a request" where
  "staff_block e actor event_type outcome md message status =
     bindA (audit_event e event_type outcome (map_option u_id actor) md None) (\<lambda>_.
     raise (auth_error message status))"

definition require_staff_session :: "env \<Rightarrow> user request" where
  "require_staff_session e =
     bindA (readA (\<lambda>w. sess_get w ''user_id'')) (\<lambda>user_id.
     if \<not> py_truthy user_id then raise (auth_error ''Authentication required'' 401)
     else case json_int user_id of
       None \<Rightarrow> raise (ValueError ''invalid literal for int()'')
     | Some i \<Rightarrow>
         bindA (queryA (\<lambda>db. user_by_id db i)) (\<lambda>found.
         case found of
           Some u \<Rightarrow> if is_active_staff_user e found then ret u
             else staff_block e found ''admin_access_denied'' ''blocked'' [(''reason'', JStr ''not_active_staff'')] ''Forbidden'' 403
         | None \<Rightarrow> staff_block e found ''admin_access_denied'' ''blocked'' [(''reason'', JStr ''not_active_staff'')] ''Forbidden'' 403))"

definition require_plain_staff_session :: "env \<Rightarrow> user request" where
  "require_plain_staff_session e =
     bindA (require_staff_session e) (\<lambda>u.
     if \<not> is_plain_staff_user (Some u)
     then staff_block e (Some u) ''dispute_queue_access'' ''blocked'' [(''reason'', JStr ''admin_or_root_admin_excluded'')] ''Forbidden'' 403
     else ret u)"

definition require_root_admin_session :: "env \<Rightarrow> user request" where
  "require_root_admin_session e =
     bindA (require_staff_session e) (\<lambda>u.
     if \<not> is_root_admin e (Some u)
     then staff_block e (Some u) ''staff_invite_authorization'' ''blocked'' [(''reason'', JStr ''not_root_admin'')] ''Forbidden'' 403
     else ret u)"

definition require_admin_session :: "env \<Rightarrow> user request" where
  "require_admin_session e =
     bindA (require_staff_session e) (\<lambda>u.
     if role_rank (u_account_type u) < role_rank ''admin''
     then staff_block e (Some u) ''admin_role_authorization'' ''blocked'' [(''reason'', JStr ''admin_role_required'')] ''Forbidden'' 403
     else ret u)"

definition require_plain_staff :: "env \<Rightarrow> user \<Rightarrow> string \<Rightarrow> unit request" where
  "require_plain_staff e actor event_type =
     (if is_plain_staff_user (Some actor) then ret ()
      else staff_block e (Some actor) event_type ''blocked'' [(''reason'', JStr ''admin_or_root_admin_excluded'')] ''Forbidden'' 403)"

definition require_active_root_admin :: "env \<Rightarrow> user \<Rightarrow> string \<Rightarrow> unit request" where
  "require_active_root_admin e actor event_type =
     (if is_active_root_admin e (Some actor) then ret ()
      else staff_block e (Some actor) event_type ''blocked'' [(''reason'', JStr ''not_active_root_admin'')] ''Forbidden'' 403)"

text \<open>\<open>not totp_code or not _verify_totp_for_user(...)\<close> negated, which is also \<^verbatim>\<open>verify_admin_totp_step_up\<close>.\<close>

definition verify_admin_totp_step_up :: "env \<Rightarrow> user \<Rightarrow> string option \<Rightarrow> string \<Rightarrow> bool request" where
  "verify_admin_totp_step_up e actor totp_code scope =
     (if or_default totp_code [] = [] then ret False
      else verify_totp_for_user e actor (or_default totp_code []) scope None True)"

definition require_manual_recovery_reason :: "env \<Rightarrow> string \<Rightarrow> string \<Rightarrow> user \<Rightarrow> string request" where
  "require_manual_recovery_reason e reason event_type actor =
     (let txt = py_strip reason in
      if txt = [] then staff_block e (Some actor) event_type ''failure'' [(''reason'', JStr ''missing_reason'')] ''Reason is required'' 400
      else if 512 < length txt then staff_block e (Some actor) event_type ''failure'' [(''reason'', JStr ''reason_too_long'')] ''Reason is too long'' 400
      else ret txt)"

subsection \<open>Separation from the own customer account\<close>

definition id_ref :: "env \<Rightarrow> string \<Rightarrow> int \<Rightarrow> json" where
  "id_ref e namespace i = opt_json JStr (audit_reference e namespace (int_str i) 32)"

definition separation_block :: "env \<Rightarrow> user \<Rightarrow> user \<Rightarrow> string \<Rightarrow> string \<Rightarrow> 'a request" where
  "separation_block e actor target action_type reason =
     (let md = [(''action_type'', JStr (take 80 (text_or action_type ''privileged_customer_action''))), (''reason'', JStr reason),
            (''target_customer_ref'', id_ref e ''customer_user'' (u_id target))] in
      bindA (if has_request e then audit_event e ''staff_self_customer_action_blocked'' ''blocked'' (Some (u_id actor)) md None
        else audit_system_event e ''staff_self_customer_action_blocked'' ''blocked'' (Some (u_id actor)) md) (\<lambda>_.
      raise (auth_error ''This privileged action is not permitted for that customer account'' 403)))"

definition has_active_identity_link :: "int \<Rightarrow> int \<Rightarrow> bool request" where
  "has_active_identity_link staff_user_id customer_user_id =
     bindA (queryA (\<lambda>db. map pl_id (filter (\<lambda>l. pl_staff_user_id l = staff_user_id \<and> pl_customer_user_id l = customer_user_id \<and> pl_revoked_at l = None)
       (person_links db)))) (\<lambda>ids.
     bindA (scalar_one_or_none ids) (\<lambda>found.
     ret (case found of None \<Rightarrow> False | Some i \<Rightarrow> i \<noteq> 0)))"

definition assert_not_self_customer_action :: "env \<Rightarrow> user \<Rightarrow> user \<Rightarrow> string \<Rightarrow> unit request" where
  "assert_not_self_customer_action e actor target action_type =
     (if u_account_type actor \<notin> set staff_account_types then separation_block e actor target action_type ''actor_not_staff''
      else if u_account_type target \<noteq> ''customer'' then separation_block e actor target action_type ''target_not_customer''
      else
        bindA (has_active_identity_link (u_id actor) (u_id target)) (\<lambda>linked.
        let actor_emails = [normalize_text (u_email actor), normalize_text (or_default (u_staff_personal_email actor) [])];
            target_email = normalize_text (u_email target) in
        if linked then separation_block e actor target action_type ''explicit_identity_link''
        else if target_email \<noteq> [] \<and> target_email \<in> set actor_emails
        then separation_block e actor target action_type ''verified_email_overlap''
        else ret ()))"

subsection \<open>Frames\<close>

lemma preserves_staff_block [preserves_rules]: "keeps_audit e P \<Longrightarrow> preserves (both P) (staff_block e a t out md m c)"
  unfolding staff_block_def by (intro preserves_rules)

lemma raises_staff_block [simp]: "raises (staff_block e a t out md m c)"
  unfolding staff_block_def by (intro raises_bindA raises_raise)

lemma preserves_session_guards [preserves_rules]:
  assumes "keeps_audit e P"
  shows "preserves (both P) (require_staff_session e)" "preserves (both P) (require_plain_staff_session e)"
    "preserves (both P) (require_root_admin_session e)" "preserves (both P) (require_admin_session e)"
proof -
  show s: "preserves (both P) (require_staff_session e)"
    unfolding require_staff_session_def by (intro preserves_rules assms)
  show "preserves (both P) (require_plain_staff_session e)"
    unfolding require_plain_staff_session_def by (intro preserves_rules s assms)
  show "preserves (both P) (require_root_admin_session e)"
    unfolding require_root_admin_session_def by (intro preserves_rules s assms)
  show "preserves (both P) (require_admin_session e)"
    unfolding require_admin_session_def by (intro preserves_rules s assms)
qed

lemma preserves_role_guards [preserves_rules]:
  "keeps_audit e P \<Longrightarrow> preserves (both P) (require_plain_staff e a t)"
  "keeps_audit e P \<Longrightarrow> preserves (both P) (require_active_root_admin e a t)"
  "keeps_audit e P \<Longrightarrow> preserves (both P) (require_manual_recovery_reason e r t a)"
  unfolding require_plain_staff_def require_active_root_admin_def require_manual_recovery_reason_def Let_def by (intro preserves_rules; assumption)+

lemma preserves_separation [preserves_rules]:
  "keeps_audit e P \<Longrightarrow> preserves (both P) (separation_block e a t ac r)"
  "keeps_audit e P \<Longrightarrow> preserves (both P) (assert_not_self_customer_action e a t ac)"
  unfolding assert_not_self_customer_action_def has_active_identity_link_def separation_block_def audit_system_event_def Let_def
  by (intro preserves_rules; assumption)+

lemma raises_separation_block [simp]: "raises (separation_block e a t ac r)"
  unfolding separation_block_def Let_def by (intro raises_bindA raises_raise)

end
