(* ===== verification/Admin_Actions.thy ===== *)
theory Admin_Actions
  imports Staff_Roles
begin

section \<open>Maker and checker\<close>

text \<open>
  The privileged actions of \<^verbatim>\<open>app/admin/services.py\<close> that need two root administrators: one creates an action request (lifecycle of a staff
  account, decision on a manual recovery, unlocking of a customer), another approves it, and the approval executes it. A request carries a keyed digest
  of its content. Handlers return the row; the dictionaries with display texts made from it are not represented. \<open>int()\<close> of a stored target
  raises \<open>ValueError\<close> for a text that is no number.
\<close>

definition admin_action_request_ttl_seconds :: int where "admin_action_request_ttl_seconds = 24 * 60 * 60"
definition admin_action_execution_reason :: string where "admin_action_execution_reason = ''maker_checker_approved''"

definition staff_action_operation_types :: "(string \<times> string) list" where
  "staff_action_operation_types =
     [(''deactivate'', ''staff_deactivate''), (''reactivate'', ''staff_reactivate''), (''reset_activation'', ''staff_reset_activation'')]"

definition manual_recovery_status_operation_types :: "(string \<times> string) list" where
  "manual_recovery_status_operation_types = [(''approved'', ''manual_recovery_approve''), (''denied'', ''manual_recovery_deny'')]"

definition manual_recovery_admin_transition_statuses :: "string list" where
  "manual_recovery_admin_transition_statuses = [''under_review'', ''approved'', ''denied'']"

definition admin_account_managed_types :: "string list" where
  "admin_account_managed_types = [''staff'', ''admin'']"

definition root_admin_reviewable_lock_reasons :: "string list" where
  "root_admin_reviewable_lock_reasons = [''password_failed_attempts'', ''mfa_failed_attempts'', ''staff_fraud_freeze'']"

subsection \<open>Action requests\<close>

definition safe_admin_action_payload :: "env \<Rightarrow> (string \<times> json) list \<Rightarrow> (string \<times> json) list" where
  "safe_admin_action_payload e payload =
     fold (\<lambda>(key, val) safe.
       let key_text = py_strip key; value_text = py_casefold (py_strip (if py_truthy val then json_text e val else [])) in
       if key_text \<notin> {''action'', ''status'', ''lock_reason'', ''locked_at''} \<or> value_text = [] then safe
       else dict_set key_text (JStr value_text) safe) payload []"

definition admin_action_fields :: "env \<Rightarrow> admin_action \<Rightarrow> (string \<times> json) list" where
  "admin_action_fields e a =
     [(''id'', JInt (aa_id a)), (''operation_type'', JStr (aa_operation_type a)), (''target_type'', JStr (aa_target_type a)),
      (''target_id'', JStr (aa_target_id a)), (''operation_payload'', JObj (safe_admin_action_payload e (aa_operation_payload a))),
      (''requester_id'', JInt (aa_requester_id a)), (''requester_role'', JStr (aa_requester_role a)),
      (''reason_present'', JBool (aa_reason_present a)), (''reason_length'', JInt (aa_reason_length a)),
      (''created_at'', JStr (utc_iso_offset (aa_created_at a))), (''expires_at'', JStr (utc_iso_offset (aa_expires_at a)))]"

definition admin_action_request_hmac :: "env \<Rightarrow> admin_action \<Rightarrow> string" where
  "admin_action_request_hmac e a = active_hmac_hex e (''admin-action-request:'' @ json_dumps (JObj (admin_action_fields e a))) 64"

definition action_by_id :: "database \<Rightarrow> int \<Rightarrow> admin_action option" where
  "action_by_id db i = find (\<lambda>a. aa_id a = i) (admin_actions db)"

definition update_action :: "int \<Rightarrow> (admin_action \<Rightarrow> admin_action) \<Rightarrow> database \<Rightarrow> database" where
  "update_action i f db = db\<lparr>admin_actions := upd_where (\<lambda>a. aa_id a = i) f (admin_actions db)\<rparr>"

definition add_action :: "admin_action \<Rightarrow> database \<Rightarrow> database" where
  "add_action a db = db\<lparr>admin_actions := admin_actions db @ [a]\<rparr>"

definition new_admin_action ::
  "env \<Rightarrow> user \<Rightarrow> string \<Rightarrow> string \<Rightarrow> string \<Rightarrow> (string \<times> json) list \<Rightarrow> string \<Rightarrow> database \<Rightarrow> admin_action"
where
  "new_admin_action e actor operation_type target_type target_id payload reason_text db =
     \<lparr>aa_id = next_id (map aa_id (admin_actions db)), aa_operation_type = operation_type, aa_target_type = target_type, aa_target_id = target_id,
      aa_operation_payload = safe_admin_action_payload e payload, aa_requester_id = u_id actor, aa_requester_role = u_account_type actor,
      aa_approver_id = None, aa_status = ''pending'', aa_reason_present = (reason_text \<noteq> []), aa_reason_length = int (length reason_text),
      aa_metadata_hmac = ''pending'', aa_created_at = now e, aa_updated_at = now e,
      aa_expires_at = now e + seconds admin_action_request_ttl_seconds, aa_decided_at = None, aa_executed_at = None\<rparr>"

definition action_ref :: "env \<Rightarrow> admin_action \<Rightarrow> json" where
  "action_ref e a = id_ref e ''admin_action_request'' (aa_id a)"

definition admin_action_target_ref :: "env \<Rightarrow> admin_action \<Rightarrow> json" where
  "admin_action_target_ref e a = opt_json JStr (audit_reference e (aa_target_type a) (aa_target_id a) 32)"

definition create_admin_action_request ::
  "env \<Rightarrow> user \<Rightarrow> string \<Rightarrow> string \<Rightarrow> string \<Rightarrow> (string \<times> json) list \<Rightarrow> string option \<Rightarrow> admin_action request"
where
  "create_admin_action_request e actor operation_type target_type target_id payload reason =
     bindA (require_active_root_admin e actor ''admin_action_request_create'') (\<lambda>_.
     let reason_text = py_strip (or_default reason []) in
     bindA (queryA (new_admin_action e actor operation_type target_type target_id payload reason_text)) (\<lambda>a.
     bindA (updateA (add_action a)) (\<lambda>_.
     bindA flushA (\<lambda>_.
     let a' = a\<lparr>aa_metadata_hmac := admin_action_request_hmac e a\<rparr> in
     bindA (updateA (update_action (aa_id a) (\<lambda>_. a'))) (\<lambda>_.
     bindA (audit_event_required e ''admin_action_request_created'' ''success'' (Some (u_id actor))
       [(''request_ref'', action_ref e a), (''operation_type'', JStr operation_type), (''target_type'', JStr target_type),
        (''target_ref'', admin_action_target_ref e a), (''reason_present'', JBool (reason_text \<noteq> [])),
        (''reason_length'', JInt (int (length reason_text)))] None) (\<lambda>_.
     bindA commitA (\<lambda>_. ret a')))))))"

definition admin_action_request_or_error :: "int \<Rightarrow> admin_action request" where
  "admin_action_request_or_error request_id =
     bindA (queryA (\<lambda>db. action_by_id db request_id)) (\<lambda>found.
     case found of None \<Rightarrow> raise (auth_error ''Admin action request not found'' 404) | Some a \<Rightarrow> ret a)"

definition action_stale :: "env \<Rightarrow> admin_action \<Rightarrow> bool" where
  "action_stale e a \<longleftrightarrow> aa_status a = ''pending'' \<and> aa_expires_at a \<le> now e"

definition expired_action :: "env \<Rightarrow> admin_action \<Rightarrow> admin_action" where
  "expired_action e a = a\<lparr>aa_status := ''expired'', aa_decided_at := Some (now e), aa_updated_at := now e\<rparr>"

definition audit_action_expired :: "env \<Rightarrow> user \<Rightarrow> admin_action \<Rightarrow> unit request" where
  "audit_action_expired e actor a =
     audit_event_required e ''admin_action_request_expired'' ''success'' (Some (u_id actor))
       [(''request_ref'', action_ref e a), (''operation_type'', JStr (aa_operation_type a))] None"

definition expire_admin_action_request_if_stale :: "env \<Rightarrow> admin_action \<Rightarrow> user \<Rightarrow> unit request" where
  "expire_admin_action_request_if_stale e a actor =
     (if \<not> action_stale e a then ret ()
      else
        bindA (updateA (update_action (aa_id a) (expired_action e))) (\<lambda>_.
        bindA (audit_action_expired e actor a) (\<lambda>_.
        bindA commitA (\<lambda>_.
        raise (auth_error ''Admin action request is expired'' 409)))))"

fun expire_actions :: "env \<Rightarrow> user \<Rightarrow> admin_action list \<Rightarrow> unit request" where
  "expire_actions e actor [] = ret ()"
| "expire_actions e actor (a # rest) =
     bindA (updateA (update_action (aa_id a) (expired_action e))) (\<lambda>_.
     bindA (audit_action_expired e actor a) (\<lambda>_.
     expire_actions e actor rest))"

definition expire_stale_admin_action_requests :: "env \<Rightarrow> user \<Rightarrow> unit request" where
  "expire_stale_admin_action_requests e actor =
     bindA (queryA (\<lambda>db. filter (action_stale e) (admin_actions db))) (\<lambda>stale.
     bindA (expire_actions e actor stale) (\<lambda>_.
     condA (stale \<noteq> []) commitA))"

definition pending_admin_action_request_or_error :: "env \<Rightarrow> int \<Rightarrow> user \<Rightarrow> admin_action request" where
  "pending_admin_action_request_or_error e request_id actor =
     bindA (admin_action_request_or_error request_id) (\<lambda>a.
     bindA (expire_admin_action_request_if_stale e a actor) (\<lambda>_.
     if aa_status a \<noteq> ''pending''
     then staff_block e (Some actor) ''admin_action_request_state'' ''blocked''
       [(''reason'', JStr ''not_pending''), (''request_ref'', action_ref e a), (''status'', JStr (aa_status a))] ''Admin action request is not pending'' 409
     else ret a))"

definition assert_admin_action_request_hmac_valid :: "env \<Rightarrow> admin_action \<Rightarrow> user \<Rightarrow> unit request" where
  "assert_admin_action_request_hmac_valid e a actor =
     (if aa_metadata_hmac a \<noteq> admin_action_request_hmac e a
      then staff_block e (Some actor) ''admin_action_request_integrity'' ''failure'' [(''request_ref'', action_ref e a)]
        ''Admin action request integrity check failed'' 409
      else ret ())"

definition assert_requester_still_eligible :: "env \<Rightarrow> admin_action \<Rightarrow> user \<Rightarrow> unit request" where
  "assert_requester_still_eligible e a actor =
     bindA (queryA (\<lambda>db. user_by_id db (aa_requester_id a))) (\<lambda>requester.
     if \<not> is_active_root_admin e requester
     then staff_block e (Some actor) ''admin_action_request_approve'' ''blocked''
       [(''reason'', JStr ''requester_ineligible''), (''request_ref'', action_ref e a)] ''Admin action requester is no longer eligible'' 409
     else ret ())"

text \<open>The step-up of the three decisions, with the audit of a wrong code.\<close>

definition decide_step_up :: "env \<Rightarrow> user \<Rightarrow> admin_action \<Rightarrow> string option \<Rightarrow> string \<Rightarrow> string \<Rightarrow> unit request" where
  "decide_step_up e actor a totp_code scope event_type =
     bindA (verify_admin_totp_step_up e actor totp_code (scope @ aa_operation_type a)) (\<lambda>ok.
     if ok then ret ()
     else staff_block e (Some actor) event_type ''failure''
       [(''reason'', JStr ''invalid_totp_step_up''), (''request_ref'', action_ref e a)] fresh_mfa_required_error 403)"

subsection \<open>Lifecycle of staff accounts\<close>

definition lifecycle_block :: "env \<Rightarrow> user \<Rightarrow> string \<Rightarrow> (string \<times> json) list \<Rightarrow> string \<Rightarrow> int \<Rightarrow> 'a request" where
  "lifecycle_block e actor outcome md message status = staff_block e (Some actor) ''staff_account_lifecycle'' outcome md message status"

definition validate_staff_account_lifecycle_request :: "env \<Rightarrow> user \<Rightarrow> int \<Rightarrow> string \<Rightarrow> (string \<times> user) request" where
  "validate_staff_account_lifecycle_request e actor target_user_id action =
     (if \<not> is_root_admin e (Some actor) then lifecycle_block e actor ''blocked'' [(''reason'', JStr ''not_root_admin'')] ''Forbidden'' 403
      else
        let normalized_action = py_casefold (py_strip action);
            why = (\<lambda>reason. [(''reason'', JStr reason), (''action'', JStr normalized_action)]) in
        if map_of staff_action_operation_types normalized_action = None
        then lifecycle_block e actor ''failure'' [(''reason'', JStr ''invalid_action'')] ''Invalid staff account action'' 400
        else
          bindA (queryA (\<lambda>db. user_by_id db target_user_id)) (\<lambda>found.
          case found of
            None \<Rightarrow> lifecycle_block e actor ''blocked'' (why ''target_not_manageable'') ''Staff account not found'' 404
          | Some target \<Rightarrow>
              if u_id target = u_id actor then lifecycle_block e actor ''blocked'' (why ''self_management_denied'') ''Forbidden'' 403
              else if u_account_type target \<notin> set admin_account_managed_types
              then lifecycle_block e actor ''blocked'' (why ''target_not_manageable'') ''Staff account not found'' 404
              else ret (normalized_action, target)))"

definition lifecycle_update :: "string \<Rightarrow> user \<Rightarrow> user" where
  "lifecycle_update action u =
     (if action = ''deactivate'' then u\<lparr>u_account_status := ''revoked''\<rparr>
      else if action = ''reactivate'' then u\<lparr>u_account_status := ''active''\<rparr>
      else (clear_authenticator u)\<lparr>u_account_status := ''setup_pending'', u_workplace_email_verified_at := None\<rparr>)"

definition lifecycle_event :: "string \<Rightarrow> string" where
  "lifecycle_event action =
     (if action = ''deactivate'' then ''staff_account_deactivated''
      else if action = ''reactivate'' then ''staff_account_reactivated'' else ''staff_activation_reset'')"

datatype action_result =
    StaffUpdated user
  | RecoveryMoved recovery_view
  | RecoveryCompleted recovery_result
  | CustomerUnlocked int int

definition execute_staff_account_lifecycle :: "env \<Rightarrow> user \<Rightarrow> int \<Rightarrow> string \<Rightarrow> action_result request" where
  "execute_staff_account_lifecycle e actor target_user_id action =
     bindA (validate_staff_account_lifecycle_request e actor target_user_id action) (\<lambda>(action, target).
     if action = ''reactivate'' \<and> (\<not> u_mfa_enabled target \<or> u_workplace_email_verified_at target = None)
     then staff_block e (Some actor) ''staff_account_reactivated'' ''blocked''
       [(''reason'', JStr ''activation_prerequisites_missing''), (''target_staff_ref'', id_ref e ''staff_user'' (u_id target))]
       ''Staff account activation requirements are incomplete'' 409
     else
       bindA (updateA (update_user (u_id target) (lifecycle_update action))) (\<lambda>_.
       bindA (if action = ''reactivate'' then ret 0 else revoke_all_sessions e (u_id target) ''revoked'' None) (\<lambda>revoked.
       bindA (audit_event_required e (lifecycle_event action) ''success'' (Some (u_id actor))
         [(''target_staff_ref'', id_ref e ''staff_user'' (u_id target)), (''target_role'', JStr (u_account_type target)),
          (''target_status'', JStr (u_account_status (lifecycle_update action target))), (''revoked_sessions'', JInt revoked)] None) (\<lambda>_.
       ret (StaffUpdated (lifecycle_update action target))))))"

definition transition_staff_account_as_root_admin :: "env \<Rightarrow> user \<Rightarrow> int \<Rightarrow> string \<Rightarrow> string option \<Rightarrow> admin_action request" where
  "transition_staff_account_as_root_admin e actor target_user_id action totp_code =
     bindA (validate_staff_account_lifecycle_request e actor target_user_id action) (\<lambda>(action, target).
     bindA (verify_admin_totp_step_up e actor totp_code (''staff_account_'' @ action)) (\<lambda>ok.
     if \<not> ok
     then lifecycle_block e actor ''failure'' [(''reason'', JStr ''invalid_totp_step_up''), (''action'', JStr action),
       (''target_staff_ref'', id_ref e ''staff_user'' (u_id target))] fresh_mfa_required_error 403
     else create_admin_action_request e actor (or_default (map_of staff_action_operation_types action) []) ''staff_user'' (int_str (u_id target))
       [(''action'', JStr action)] None))"

subsection \<open>Decisions on manual recoveries\<close>

definition assert_not_self_manual_recovery_action :: "env \<Rightarrow> user \<Rightarrow> int \<Rightarrow> string \<Rightarrow> unit request" where
  "assert_not_self_manual_recovery_action e actor request_id action_type =
     bindA (queryA (\<lambda>db. Option.bind (recovery_by_id db request_id) (\<lambda>r. Option.bind (mr_user_id r) (user_by_id db)))) (\<lambda>found.
     case found of None \<Rightarrow> ret () | Some target \<Rightarrow> assert_not_self_customer_action e actor target action_type)"

text \<open>
  \<^verbatim>\<open>_validate_manual_recovery_transition_request\<close> and \<^verbatim>\<open>_validate_manual_recovery_completion_request\<close>: both write \<open>expired\<close> into any request whose
  time is over, whatever its state.
\<close>

definition recovery_block :: "env \<Rightarrow> user \<Rightarrow> string \<Rightarrow> string \<Rightarrow> string \<Rightarrow> int \<Rightarrow> string \<Rightarrow> int \<Rightarrow> 'a request" where
  "recovery_block e actor event_type outcome reason request_id message status =
     staff_block e (Some actor) event_type outcome
       [(''reason'', JStr reason), (''request_ref'', id_ref e ''manual_recovery_request'' request_id)] message status"

definition marked_expired :: "env \<Rightarrow> manual_recovery \<Rightarrow> manual_recovery" where
  "marked_expired e r = r\<lparr>mr_status := ''expired'', mr_status_changed_at := now e, mr_updated_at := now e\<rparr>"

definition validate_manual_recovery :: "env \<Rightarrow> user \<Rightarrow> int \<Rightarrow> string \<Rightarrow> (string \<Rightarrow> bool) \<Rightarrow> string \<Rightarrow> string \<Rightarrow> unit request" where
  "validate_manual_recovery e actor request_id event_type admissible reason message =
     bindA (queryA (\<lambda>db. recovery_by_id db request_id)) (\<lambda>found.
     case found of
       None \<Rightarrow> staff_block e (Some actor) event_type ''blocked'' [(''reason'', JStr ''request_not_found'')] ''Manual recovery request not found'' 404
     | Some r \<Rightarrow>
         if mr_expires_at r \<le> now e then
           bindA (updateA (update_recovery (mr_id r) (marked_expired e))) (\<lambda>_.
           bindA (audit_event e event_type ''blocked'' (Some (u_id actor))
             [(''reason'', JStr ''request_expired''), (''request_ref'', id_ref e ''manual_recovery_request'' request_id)] None) (\<lambda>_.
           bindA commitA (\<lambda>_.
           raise (auth_error ''Manual recovery request is expired'' 409))))
         else if \<not> admissible (mr_status r) then recovery_block e actor event_type ''failure'' reason request_id message 409
         else ret ())"

definition recovery_decision_admissible :: "string \<Rightarrow> string \<Rightarrow> bool" where
  "recovery_decision_admissible status current =
     (case map_of [(''pending'', [''denied'']), (''under_review'', [''approved'', ''denied''])] current of None \<Rightarrow> False | Some sts \<Rightarrow> status \<in> set sts)"

definition validate_manual_recovery_transition_request :: "env \<Rightarrow> user \<Rightarrow> int \<Rightarrow> string \<Rightarrow> unit request" where
  "validate_manual_recovery_transition_request e actor request_id status =
     validate_manual_recovery e actor request_id ''manual_recovery_admin_transition'' (recovery_decision_admissible status) ''invalid_transition''
       ''Invalid manual recovery status transition''"

definition validate_manual_recovery_completion_request :: "env \<Rightarrow> user \<Rightarrow> int \<Rightarrow> unit request" where
  "validate_manual_recovery_completion_request e actor request_id =
     validate_manual_recovery e actor request_id ''manual_recovery_admin_complete'' (\<lambda>current. current = ''approved'') ''completion_requires_approval''
       ''Manual recovery request must be approved before completion''"

datatype transition_answer =
    ApprovalRequired admin_action
  | RecoveryUpdated recovery_view

definition transition_manual_recovery_request_as_admin ::
  "env \<Rightarrow> user \<Rightarrow> int \<Rightarrow> string \<Rightarrow> string \<Rightarrow> string option \<Rightarrow> transition_answer request"
where
  "transition_manual_recovery_request_as_admin e actor request_id status reason totp_code =
     (let event = ''manual_recovery_admin_transition''; block = staff_block e (Some actor) event in
      if \<not> is_root_admin e (Some actor) then block ''blocked'' [(''reason'', JStr ''not_root_admin'')] ''Forbidden'' 403
      else
        let status = py_casefold (py_strip status) in
        if status \<notin> set manual_recovery_admin_transition_statuses
        then block ''failure'' [(''reason'', JStr ''invalid_status'')] ''Invalid manual recovery status'' 400
        else
          bindA (require_manual_recovery_reason e reason event actor) (\<lambda>reason.
          bindA (verify_admin_totp_step_up e actor totp_code (''manual_recovery_transition_'' @ status)) (\<lambda>ok.
          if \<not> ok then block ''failure'' [(''reason'', JStr ''invalid_totp_step_up'')] fresh_mfa_required_error 403
          else
            bindA (assert_not_self_manual_recovery_action e actor request_id ''manual_recovery_transition'') (\<lambda>_.
            case map_of manual_recovery_status_operation_types status of
              Some operation \<Rightarrow>
                bindA (validate_manual_recovery_transition_request e actor request_id status) (\<lambda>_.
                bindA (create_admin_action_request e actor operation ''manual_recovery_request'' (int_str request_id) [(''status'', JStr status)]
                  (Some reason)) (\<lambda>a.
                ret (ApprovalRequired a)))
            | None \<Rightarrow>
                bindA (transition_manual_recovery_request e request_id status (Some reason)) (\<lambda>view.
                bindA (audit_event e event ''success'' (Some (u_id actor))
                  [(''request_ref'', id_ref e ''manual_recovery_request'' request_id), (''new_status'', JStr (mv_status view)),
                   (''reason_recorded'', JBool True)] None) (\<lambda>_.
                ret (RecoveryUpdated view)))))))"

definition complete_manual_recovery_request_as_admin :: "env \<Rightarrow> user \<Rightarrow> int \<Rightarrow> string \<Rightarrow> string option \<Rightarrow> admin_action request" where
  "complete_manual_recovery_request_as_admin e actor request_id reason totp_code =
     (let event = ''manual_recovery_admin_complete''; block = staff_block e (Some actor) event in
      if \<not> is_root_admin e (Some actor) then block ''blocked'' [(''reason'', JStr ''not_root_admin'')] ''Forbidden'' 403
      else
        bindA (require_manual_recovery_reason e reason event actor) (\<lambda>reason.
        bindA (verify_admin_totp_step_up e actor totp_code ''manual_recovery_complete'') (\<lambda>ok.
        if \<not> ok then block ''failure'' [(''reason'', JStr ''invalid_totp_step_up'')] fresh_mfa_required_error 403
        else
          bindA (assert_not_self_manual_recovery_action e actor request_id ''manual_recovery_complete'') (\<lambda>_.
          bindA (validate_manual_recovery_completion_request e actor request_id) (\<lambda>_.
          create_admin_action_request e actor ''manual_recovery_complete'' ''manual_recovery_request'' (int_str request_id)
            [(''action'', JStr ''complete'')] (Some reason))))))"

subsection \<open>Unlocking a customer\<close>

definition customer_block :: "env \<Rightarrow> user \<Rightarrow> string \<Rightarrow> string \<Rightarrow> string \<Rightarrow> int \<Rightarrow> string \<Rightarrow> int \<Rightarrow> 'a request" where
  "customer_block e actor event_type outcome reason target_id message status =
     staff_block e (Some actor) event_type outcome
       [(''reason'', JStr reason), (''target_customer_ref'', id_ref e ''customer_user'' target_id)] message status"

definition reviewable_lock :: "user \<Rightarrow> bool" where
  "reviewable_lock u \<longleftrightarrow> u_account_type u = ''customer'' \<and> u_is_frozen u \<and> u_security_locked_at u \<noteq> None
     \<and> (case u_security_lock_reason u of None \<Rightarrow> False | Some r \<Rightarrow> r \<in> set root_admin_reviewable_lock_reasons)"

text \<open>A customer read for update, when a condition on the row holds.\<close>

definition customer_for_update :: "env \<Rightarrow> int \<Rightarrow> user \<Rightarrow> string \<Rightarrow> (user \<Rightarrow> bool) \<Rightarrow> string \<Rightarrow> user request" where
  "customer_for_update e target_user_id actor event_type eligible message =
     bindA (queryA (\<lambda>db. user_by_id db target_user_id)) (\<lambda>found.
     case found of
       Some u \<Rightarrow> if eligible u then ret u else customer_block e actor event_type ''blocked'' ''target_not_eligible'' target_user_id message 409
     | None \<Rightarrow> customer_block e actor event_type ''blocked'' ''target_not_eligible'' target_user_id message 409)"

definition locked_customer_for_update :: "env \<Rightarrow> int \<Rightarrow> user \<Rightarrow> string \<Rightarrow> user request" where
  "locked_customer_for_update e target_user_id actor event_type =
     customer_for_update e target_user_id actor event_type reviewable_lock ''Customer security lock is not eligible for unlock''"

definition locked_at_text :: "user \<Rightarrow> string" where
  "locked_at_text u = (case u_security_locked_at u of None \<Rightarrow> [] | Some t \<Rightarrow> utc_iso_offset t)"

definition request_customer_security_unlock :: "env \<Rightarrow> user \<Rightarrow> int \<Rightarrow> string \<Rightarrow> string option \<Rightarrow> admin_action request" where
  "request_customer_security_unlock e actor target_user_id reason totp_code =
     (let event = ''customer_security_unlock_request'' in
      bindA (require_active_root_admin e actor event) (\<lambda>_.
      bindA (require_manual_recovery_reason e reason event actor) (\<lambda>reason.
      bindA (locked_customer_for_update e target_user_id actor event) (\<lambda>target.
      bindA (assert_not_self_customer_action e actor target ''customer_security_unlock'') (\<lambda>_.
      bindA (verify_admin_totp_step_up e actor totp_code event) (\<lambda>ok.
      if \<not> ok then customer_block e actor event ''failure'' ''invalid_totp_step_up'' (u_id target) fresh_mfa_required_error 403
      else
        bindA (create_admin_action_request e actor ''customer_security_unlock'' ''customer_user'' (int_str (u_id target))
          [(''action'', JStr ''unlock''), (''lock_reason'', JStr (or_default (u_security_lock_reason target) ''None'')),
           (''locked_at'', JStr (locked_at_text target))] (Some reason)) (\<lambda>a.
        bindA (audit_event e ''customer_security_unlock_requested'' ''success'' (Some (u_id actor))
          [(''request_ref'', action_ref e a), (''target_customer_ref'', id_ref e ''customer_user'' (u_id target)),
           (''previous_lock_reason'', opt_json JStr (u_security_lock_reason target)), (''actor_role'', JStr (u_account_type actor)),
           (''reason_present'', JBool True), (''reason_length'', JInt (int (length reason)))] None) (\<lambda>_.
        ret a))))))))"

definition unlocked :: "user \<Rightarrow> user" where
  "unlocked u = u\<lparr>u_is_frozen := False, u_security_locked_at := None, u_security_lock_reason := None, u_failed_login_count := 0\<rparr>"

definition security_counter_of :: "int \<Rightarrow> auth_counter \<Rightarrow> bool" where
  "security_counter_of uid c \<longleftrightarrow> ac_user_id c = Some uid \<and> ac_scope c \<in> {''user_security:password'', ''user_security:mfa''}"

text \<open>\<open>str((payload or {}).get(key) or "")\<close>.\<close>

definition payload_text :: "env \<Rightarrow> admin_action \<Rightarrow> string \<Rightarrow> string" where
  "payload_text e a key =
     (case map_of (aa_operation_payload a) key of None \<Rightarrow> [] | Some v \<Rightarrow> if py_truthy v then json_text e v else [])"

definition clear_security_lock :: "env \<Rightarrow> user \<Rightarrow> admin_action \<Rightarrow> user \<Rightarrow> action_result request" where
  "clear_security_lock e actor a target =
     bindA (queryA (\<lambda>db. int (length (filter (security_counter_of (u_id target)) (auth_counters db))))) (\<lambda>cleared.
     bindA (updateA (delete_counters (security_counter_of (u_id target)))) (\<lambda>_.
     bindA (updateA (update_user (u_id target) unlocked)) (\<lambda>_.
     bindA (revoke_all_sessions e (u_id target) ''security_unlock'' (Some ''customer'')) (\<lambda>revoked.
     bindA (audit_event_required e ''customer_security_unlock_completed'' ''success'' (Some (u_id actor))
       [(''request_ref'', action_ref e a), (''target_customer_ref'', id_ref e ''customer_user'' (u_id target)),
        (''previous_lock_reason'', JStr (or_default (u_security_lock_reason target) ''None'')), (''actor_role'', JStr (u_account_type actor)),
        (''revoked_sessions'', JInt revoked), (''cleared_user_security_counters'', JInt cleared)] None) (\<lambda>_.
     ret (CustomerUnlocked (u_id target) revoked))))))"

definition execute_customer_security_unlock :: "env \<Rightarrow> user \<Rightarrow> admin_action \<Rightarrow> int \<Rightarrow> action_result request" where
  "execute_customer_security_unlock e actor a target_id =
     bindA (locked_customer_for_update e target_id actor ''customer_security_unlock_execute'') (\<lambda>target.
     bindA (assert_not_self_customer_action e actor target ''customer_security_unlock'') (\<lambda>_.
     if py_casefold (or_default (u_security_lock_reason target) []) \<noteq> payload_text e a ''lock_reason''
        \<or> py_casefold (locked_at_text target) \<noteq> payload_text e a ''locked_at''
     then staff_block e (Some actor) ''customer_security_unlock_execute'' ''blocked''
       [(''reason'', JStr ''stale_lock_state''), (''request_ref'', action_ref e a),
        (''target_customer_ref'', id_ref e ''customer_user'' (u_id target))] ''Customer security lock state changed'' 409
     else clear_security_lock e actor a target))"

definition execute_manual_recovery_transition :: "env \<Rightarrow> user \<Rightarrow> admin_action \<Rightarrow> int \<Rightarrow> action_result request" where
  "execute_manual_recovery_transition e actor a target_id =
     bindA (assert_not_self_manual_recovery_action e actor target_id ''manual_recovery_transition'') (\<lambda>_.
     bindA (transition_manual_recovery_request e target_id (payload_text e a ''status'') (Some admin_action_execution_reason)) (\<lambda>view.
     bindA (audit_event e ''manual_recovery_admin_transition'' ''success'' (Some (u_id actor))
       [(''request_ref'', opt_json JStr (audit_reference e ''manual_recovery_request'' (aa_target_id a) 32)), (''new_status'', JStr (mv_status view)),
        (''reason_recorded'', JBool True), (''maker_checker_request_ref'', action_ref e a)] None) (\<lambda>_.
     ret (RecoveryMoved view))))"

definition execute_manual_recovery_complete :: "env \<Rightarrow> user \<Rightarrow> admin_action \<Rightarrow> int \<Rightarrow> action_result request" where
  "execute_manual_recovery_complete e actor a target_id =
     bindA (assert_not_self_manual_recovery_action e actor target_id ''manual_recovery_complete'') (\<lambda>_.
     bindA (complete_manual_recovery_request e target_id (Some admin_action_execution_reason)) (\<lambda>result.
     bindA (audit_event e ''manual_recovery_admin_complete'' ''success'' (Some (u_id actor))
       [(''request_ref'', opt_json JStr (audit_reference e ''manual_recovery_request'' (aa_target_id a) 32)),
        (''maker_checker_request_ref'', action_ref e a), (''mfa_reenrollment_required'', JBool (rz_mfa_reenrollment_required result)),
        (''revoked_sessions'', JInt (rz_revoked_sessions result))] None) (\<lambda>_.
     ret (RecoveryCompleted result))))"

definition int_target :: "admin_action \<Rightarrow> (int \<Rightarrow> 'a request) \<Rightarrow> 'a request" where
  "int_target a k = (case py_int_str (aa_target_id a) of None \<Rightarrow> raise (ValueError ''invalid literal for int()'') | Some i \<Rightarrow> k i)"

definition execute_admin_action_request :: "env \<Rightarrow> user \<Rightarrow> admin_action \<Rightarrow> action_result request" where
  "execute_admin_action_request e actor a =
     (if aa_operation_type a \<in> set (map snd staff_action_operation_types)
      then int_target a (\<lambda>i. execute_staff_account_lifecycle e actor i (payload_text e a ''action''))
      else if aa_operation_type a \<in> {''manual_recovery_approve'', ''manual_recovery_deny''}
      then int_target a (execute_manual_recovery_transition e actor a)
      else if aa_operation_type a = ''manual_recovery_complete'' then int_target a (execute_manual_recovery_complete e actor a)
      else if aa_operation_type a = ''customer_security_unlock'' then int_target a (execute_customer_security_unlock e actor a)
      else raise (auth_error ''Admin action request cannot be executed'' 409))"

subsection \<open>Approval, rejection, cancellation\<close>

definition execution_error_caught :: "py_error \<Rightarrow> bool" where
  "execution_error_caught err = (case err of OverflowError \<Rightarrow> False | KeyError \<Rightarrow> False | InvalidOperation \<Rightarrow> False | InvalidTag \<Rightarrow> False | _ \<Rightarrow> True)"

fun error_type_name :: "py_error \<Rightarrow> string" where
  "error_type_name (AuthError m c r) = ''AuthError''"
| "error_type_name (FrozenAccountError m c) = ''FrozenAccountError''"
| "error_type_name (AuditWriteError m) = ''AuditWriteError''"
| "error_type_name (RuntimeError m) = ''RuntimeError''"
| "error_type_name IntegrityError = ''IntegrityError''"
| "error_type_name DataError = ''DataError''"
| "error_type_name NoResultFound = ''NoResultFound''"
| "error_type_name MultipleResultsFound = ''MultipleResultsFound''"
| "error_type_name (AuthBackoffRequired n) = ''AuthBackoffRequired''"
| "error_type_name (DurableRateLimitExceeded n) = ''DurableRateLimitExceeded''"
| "error_type_name (MFASecretEnvelopeError m) = ''MFASecretEnvelopeError''"
| "error_type_name (SessionPayloadIntegrityError m) = ''SessionPayloadIntegrityError''"
| "error_type_name (RegistrationOtpError m c r) = ''RegistrationOtpError''"
| "error_type_name (PasswordPolicyError m) = ''PasswordPolicyError''"
| "error_type_name (PasswordReuseError m) = ''PasswordReuseError''"
| "error_type_name (IdentityPolicyError m) = ''IdentityPolicyError''"
| "error_type_name (ProgrammingError m) = ''ProgrammingError''"
| "error_type_name _ = ''ValueError''"

definition failed_action :: "env \<Rightarrow> user \<Rightarrow> admin_action \<Rightarrow> admin_action" where
  "failed_action e actor a = a\<lparr>aa_approver_id := Some (u_id actor), aa_status := ''execution_failed'',
     aa_decided_at := (case aa_decided_at a of None \<Rightarrow> Some (now e) | Some t \<Rightarrow> Some t), aa_updated_at := now e\<rparr>"

definition mark_admin_action_request_execution_failed :: "env \<Rightarrow> user \<Rightarrow> admin_action \<Rightarrow> string \<Rightarrow> string \<Rightarrow> unit request" where
  "mark_admin_action_request_execution_failed e actor a reason type_name =
     bindA (updateA (update_action (aa_id a) (failed_action e actor))) (\<lambda>_.
     bindA (audit_event_required e ''admin_action_request_execute'' ''failure'' (Some (u_id actor))
       [(''reason'', JStr reason), (''error_type'', JStr (take 80 type_name)), (''request_ref'', action_ref e a),
        (''operation_type'', JStr (aa_operation_type a))] None) (\<lambda>_.
     commitA))"

definition execution_failed :: "env \<Rightarrow> user \<Rightarrow> int \<Rightarrow> py_error \<Rightarrow> 'a request" where
  "execution_failed e actor request_id err =
     (if \<not> execution_error_caught err then raise err
      else
        bindA rollbackA (\<lambda>_.
        bindA (admin_action_request_or_error request_id) (\<lambda>a.
        bindA (mark_admin_action_request_execution_failed e actor a ''execution_error'' (error_type_name err)) (\<lambda>_.
        raise (auth_error ''Admin action request execution failed'' 409)))))"

definition send_customer_security_unlock_notification :: "env \<Rightarrow> int \<Rightarrow> unit request" where
  "send_customer_security_unlock_notification e user_id =
     (let event = ''customer_security_unlock_notification'';
          unavailable = audit_event e event ''failure'' None
            [(''reason'', JStr ''customer_unavailable''), (''target_customer_ref'', id_ref e ''customer_user'' user_id)] None in
      bindA (queryA (\<lambda>db. user_by_id db user_id)) (\<lambda>found.
      case found of
        None \<Rightarrow> unavailable
      | Some u \<Rightarrow>
          if u_account_type u \<noteq> ''customer'' then unavailable
          else
            bindA (try_catch (bindA (send_security_email e (u_email u) ''SITBank account security lock cleared'') (\<lambda>_. ret True))
              (\<lambda>_. bindA (audit_event e event ''failure'' (Some (u_id u)) [(''reason'', JStr ''email_delivery_failed'')] None) (\<lambda>_. ret False))) (\<lambda>sent.
            condA sent (audit_event e event ''queued'' (Some (u_id u)) [] None))))"

definition executed_action :: "env \<Rightarrow> user \<Rightarrow> admin_action \<Rightarrow> admin_action" where
  "executed_action e actor a = a\<lparr>aa_approver_id := Some (u_id actor), aa_status := ''executed'', aa_decided_at := Some (now e),
     aa_executed_at := Some (now e), aa_updated_at := now e\<rparr>"

text \<open>What is checked before an approval executes the request.\<close>

definition admit_approval :: "env \<Rightarrow> user \<Rightarrow> int \<Rightarrow> string option \<Rightarrow> admin_action request" where
  "admit_approval e actor request_id totp_code =
     bindA (require_active_root_admin e actor ''admin_action_request_approve'') (\<lambda>_.
     bindA (pending_admin_action_request_or_error e request_id actor) (\<lambda>a.
     bindA (assert_admin_action_request_hmac_valid e a actor) (\<lambda>_.
     bindA (assert_requester_still_eligible e a actor) (\<lambda>_.
     if aa_requester_id a = u_id actor
     then staff_block e (Some actor) ''admin_action_request_approve'' ''blocked''
       [(''reason'', JStr ''self_approval_denied''), (''request_ref'', action_ref e a)] ''Requester cannot approve their own admin action request'' 403
     else bindA (decide_step_up e actor a totp_code ''admin_action_approve_'' ''admin_action_request_approve'') (\<lambda>_. ret a)))))"

definition record_execution :: "env \<Rightarrow> user \<Rightarrow> admin_action \<Rightarrow> action_result \<Rightarrow> (admin_action \<times> action_result) request" where
  "record_execution e actor a result =
     bindA (updateA (update_action (aa_id a) (executed_action e actor))) (\<lambda>_.
     bindA (audit_event_required e ''admin_action_request_executed'' ''success'' (Some (u_id actor))
       [(''request_ref'', action_ref e a), (''operation_type'', JStr (aa_operation_type a)), (''target_type'', JStr (aa_target_type a)),
        (''target_ref'', admin_action_target_ref e a), (''requester_ref'', id_ref e ''admin_user'' (aa_requester_id a))] None) (\<lambda>_.
     bindA commitA (\<lambda>_.
     bindA (case result of CustomerUnlocked uid _ \<Rightarrow> send_customer_security_unlock_notification e uid | _ \<Rightarrow> ret ()) (\<lambda>_.
     ret (executed_action e actor a, result)))))"

definition approve_admin_action_request_as_root_admin :: "env \<Rightarrow> user \<Rightarrow> int \<Rightarrow> string option \<Rightarrow> (admin_action \<times> action_result) request" where
  "approve_admin_action_request_as_root_admin e actor request_id totp_code =
     bindA (admit_approval e actor request_id totp_code) (\<lambda>a.
     bindA (try_catch (execute_admin_action_request e actor a) (execution_failed e actor request_id)) (\<lambda>result.
     record_execution e actor a result))"

definition rejected_action :: "env \<Rightarrow> user \<Rightarrow> admin_action \<Rightarrow> admin_action" where
  "rejected_action e actor a = a\<lparr>aa_approver_id := Some (u_id actor), aa_status := ''rejected'', aa_decided_at := Some (now e), aa_updated_at := now e\<rparr>"

definition reject_admin_action_request_as_root_admin :: "env \<Rightarrow> user \<Rightarrow> int \<Rightarrow> string option \<Rightarrow> admin_action request" where
  "reject_admin_action_request_as_root_admin e actor request_id totp_code =
     (let event = ''admin_action_request_reject'' in
      bindA (require_active_root_admin e actor event) (\<lambda>_.
      bindA (pending_admin_action_request_or_error e request_id actor) (\<lambda>a.
      bindA (assert_admin_action_request_hmac_valid e a actor) (\<lambda>_.
      if aa_requester_id a = u_id actor
      then staff_block e (Some actor) event ''blocked'' [(''reason'', JStr ''self_rejection_denied''), (''request_ref'', action_ref e a)]
        ''Requester cannot reject their own admin action request'' 403
      else
        bindA (decide_step_up e actor a totp_code ''admin_action_reject_'' event) (\<lambda>_.
        bindA (updateA (update_action (aa_id a) (rejected_action e actor))) (\<lambda>_.
        bindA (audit_event_required e ''admin_action_request_rejected'' ''success'' (Some (u_id actor))
          [(''request_ref'', action_ref e a), (''operation_type'', JStr (aa_operation_type a))] None) (\<lambda>_.
        bindA commitA (\<lambda>_.
        bindA (condA (aa_operation_type a = ''customer_security_unlock'')
          (audit_event e ''customer_security_unlock_denied'' ''blocked'' (Some (u_id actor))
            [(''request_ref'', action_ref e a), (''target_customer_ref'', admin_action_target_ref e a), (''actor_role'', JStr (u_account_type actor))] None)) (\<lambda>_.
        ret (rejected_action e actor a))))))))))"

definition cancelled_action :: "env \<Rightarrow> admin_action \<Rightarrow> admin_action" where
  "cancelled_action e a = a\<lparr>aa_status := ''cancelled'', aa_decided_at := Some (now e), aa_updated_at := now e\<rparr>"

definition cancel_admin_action_request_as_root_admin :: "env \<Rightarrow> user \<Rightarrow> int \<Rightarrow> string option \<Rightarrow> admin_action request" where
  "cancel_admin_action_request_as_root_admin e actor request_id totp_code =
     (let event = ''admin_action_request_cancel'' in
      bindA (require_active_root_admin e actor event) (\<lambda>_.
      bindA (pending_admin_action_request_or_error e request_id actor) (\<lambda>a.
      bindA (assert_admin_action_request_hmac_valid e a actor) (\<lambda>_.
      if aa_requester_id a \<noteq> u_id actor
      then staff_block e (Some actor) event ''blocked'' [(''reason'', JStr ''not_requester''), (''request_ref'', action_ref e a)]
        ''Only the requester can cancel this admin action request'' 403
      else
        bindA (decide_step_up e actor a totp_code ''admin_action_cancel_'' event) (\<lambda>_.
        bindA (updateA (update_action (aa_id a) (cancelled_action e))) (\<lambda>_.
        bindA (audit_event_required e ''admin_action_request_cancelled'' ''success'' (Some (u_id actor))
          [(''request_ref'', action_ref e a), (''operation_type'', JStr (aa_operation_type a))] None) (\<lambda>_.
        bindA commitA (\<lambda>_.
        ret (cancelled_action e a)))))))))"

definition admin_action_requests_for_admin :: "env \<Rightarrow> user \<Rightarrow> admin_action list request" where
  "admin_action_requests_for_admin e actor =
     bindA (require_active_root_admin e actor ''admin_action_request_review'') (\<lambda>_.
     bindA (expire_stale_admin_action_requests e actor) (\<lambda>_.
     bindA (queryA (\<lambda>db. sort_key (\<lambda>a. (- aa_created_at a, - aa_id a)) (admin_actions db))) (\<lambda>requests.
     bindA (audit_event e ''admin_action_request_review'' ''success'' (Some (u_id actor)) [] None) (\<lambda>_.
     ret requests))))"

definition admin_action_request_detail_for_admin :: "env \<Rightarrow> user \<Rightarrow> int \<Rightarrow> admin_action request" where
  "admin_action_request_detail_for_admin e actor request_id =
     bindA (require_active_root_admin e actor ''admin_action_request_detail'') (\<lambda>_.
     bindA (admin_action_request_or_error request_id) (\<lambda>a.
     bindA (expire_admin_action_request_if_stale e a actor) (\<lambda>_.
     bindA (audit_event e ''admin_action_request_detail'' ''success'' (Some (u_id actor)) [(''request_ref'', action_ref e a)] None) (\<lambda>_.
     ret a))))"

subsection \<open>Frames\<close>

definition execution_free :: "(database \<Rightarrow> bool) \<Rightarrow> bool" where
  "execution_free P \<longleftrightarrow> desk_free P \<and> (\<forall>db i act. P db \<longrightarrow> P (update_user i (lifecycle_update act) db))"

lemma execution_freeD:
  assumes "execution_free P"
  shows "desk_free P" "login_free P" "auth_free P" "replays_free P" "recovery_free P" "sessions_free P" "counters_free P" "auth_users_free P"
    "keeps_audit e P" "preserves (both P) (updateA (update_user i (lifecycle_update act)))"
  using assms desk_freeD [of P] by (auto simp: execution_free_def intro!: preserves_both_updateA)

lemma preserves_case_result [preserves_rules]:
  "(\<And>i n. preserves I (f i n)) \<Longrightarrow> preserves I (g) \<Longrightarrow> preserves I (case r of CustomerUnlocked i n \<Rightarrow> f i n | _ \<Rightarrow> g)"
  by (cases r) simp_all

lemma preserves_staff_step_up [preserves_rules]:
  "login_free P \<Longrightarrow> preserves (both P) (verify_admin_totp_step_up e a c sc)"
  unfolding verify_admin_totp_step_up_def verify_totp_for_user_def by (intro preserves_rules login_freeD)

lemma preserves_lifecycle_block [preserves_rules]:
  "keeps_audit e P \<Longrightarrow> preserves (both P) (lifecycle_block e a out md m c)"
  "keeps_audit e P \<Longrightarrow> preserves (both P) (recovery_block e a t out r i m c)"
  "keeps_audit e P \<Longrightarrow> preserves (both P) (customer_block e a t out r i m c)"
  unfolding lifecycle_block_def recovery_block_def customer_block_def by (intro preserves_rules; assumption)+

lemma preserves_validate_lifecycle [preserves_rules]:
  "keeps_audit e P \<Longrightarrow> preserves (both P) (validate_staff_account_lifecycle_request e a i act)"
  unfolding validate_staff_account_lifecycle_request_def Let_def by (intro preserves_rules)

lemma preserves_execute_lifecycle [preserves_rules]:
  "execution_free P \<Longrightarrow> preserves (both P) (execute_staff_account_lifecycle e a i act)"
  unfolding execute_staff_account_lifecycle_def by (intro preserves_rules execution_freeD)

lemma preserves_customer_for_update [preserves_rules]:
  "keeps_audit e P \<Longrightarrow> preserves (both P) (customer_for_update e i a t p m)"
  "keeps_audit e P \<Longrightarrow> preserves (both P) (locked_customer_for_update e i a t)"
  unfolding locked_customer_for_update_def customer_for_update_def by (intro preserves_rules; assumption)+

lemma preserves_unlocked [preserves_rules]: "auth_users_free P \<Longrightarrow> preserves (both P) (updateA (update_user i unlocked))"
  by (rule preserves_update_users) (simp_all add: unlocked_def account_part_def)

lemma preserves_execute_unlock [preserves_rules]:
  "execution_free P \<Longrightarrow> preserves (both P) (execute_customer_security_unlock e a r i)"
  unfolding execute_customer_security_unlock_def clear_security_lock_def by (intro preserves_rules execution_freeD)

lemma preserves_not_self_recovery [preserves_rules]:
  "keeps_audit e P \<Longrightarrow> preserves (both P) (assert_not_self_manual_recovery_action e a i t)"
  unfolding assert_not_self_manual_recovery_action_def by (intro preserves_rules)

lemma preserves_execute_recovery [preserves_rules]:
  "execution_free P \<Longrightarrow> preserves (both P) (execute_manual_recovery_transition e a r i)"
  "execution_free P \<Longrightarrow> preserves (both P) (execute_manual_recovery_complete e a r i)"
  unfolding execute_manual_recovery_transition_def execute_manual_recovery_complete_def by (intro preserves_rules execution_freeD; assumption)+

lemma preserves_int_target [preserves_rules]: "(\<And>i. preserves I (k i)) \<Longrightarrow> preserves I (int_target a k)"
  unfolding int_target_def by (intro preserves_rules)

lemma preserves_execute [preserves_rules]: "execution_free P \<Longrightarrow> preserves (both P) (execute_admin_action_request e a r)"
  unfolding execute_admin_action_request_def by (intro preserves_rules)

lemma preserves_unlock_notification [preserves_rules]:
  "keeps_audit e P \<Longrightarrow> preserves (both P) (send_customer_security_unlock_notification e i)"
  unfolding send_customer_security_unlock_notification_def Let_def by (intro preserves_rules)

text \<open>Invariants that a decision on a request keeps.\<close>

definition decision_free :: "(database \<Rightarrow> bool) \<Rightarrow> bool" where
  "decision_free P \<longleftrightarrow> execution_free P \<and> (\<forall>db i f. (\<forall>a. aa_id (f a) = aa_id a \<and> aa_status (f a) \<noteq> ''pending'') \<longrightarrow> P db \<longrightarrow> P (update_action i f db))"

lemma decision_freeD:
  assumes "decision_free P"
  shows "execution_free P" "login_free P" "keeps_audit e P" "preserves (both P) (updateA (update_action i (expired_action e)))"
    "preserves (both P) (updateA (update_action i (executed_action e u)))" "preserves (both P) (updateA (update_action i (failed_action e u)))"
    "preserves (both P) (updateA (update_action i (rejected_action e u)))" "preserves (both P) (updateA (update_action i (cancelled_action e)))"
  using assms execution_freeD [of P]
  by (auto simp: decision_free_def expired_action_def executed_action_def failed_action_def rejected_action_def cancelled_action_def
      intro!: preserves_both_updateA)

lemma preserves_action_or_error [preserves_rules]: "preserves (both P) (admin_action_request_or_error i)"
  unfolding admin_action_request_or_error_def by (intro preserves_rules)

lemma preserves_expire_action [preserves_rules]:
  "decision_free P \<Longrightarrow> preserves (both P) (expire_admin_action_request_if_stale e a u)"
  unfolding expire_admin_action_request_if_stale_def audit_action_expired_def by (intro preserves_rules decision_freeD)

lemma preserves_expire_actions [preserves_rules]:
  assumes "decision_free P"
  shows "preserves (both P) (expire_actions e u xs)"
proof (induction xs)
  case Nil
  show ?case unfolding expire_actions.simps by (intro preserves_rules)
next
  case (Cons a xs)
  then show ?case
    unfolding expire_actions.simps audit_action_expired_def by (intro preserves_rules decision_freeD assms)
qed

lemma preserves_pending_action [preserves_rules]:
  "decision_free P \<Longrightarrow> preserves (both P) (pending_admin_action_request_or_error e i u)"
  unfolding pending_admin_action_request_or_error_def by (intro preserves_rules decision_freeD)

lemma preserves_action_guards [preserves_rules]:
  "keeps_audit e P \<Longrightarrow> preserves (both P) (assert_admin_action_request_hmac_valid e a u)"
  "keeps_audit e P \<Longrightarrow> preserves (both P) (assert_requester_still_eligible e a u)"
  unfolding assert_admin_action_request_hmac_valid_def assert_requester_still_eligible_def by (intro preserves_rules; assumption)+

lemma preserves_decide_step_up [preserves_rules]: "login_free P \<Longrightarrow> preserves (both P) (decide_step_up e u a c sc t)"
  unfolding decide_step_up_def by (intro preserves_rules login_freeD)

lemma preserves_admit_approval [preserves_rules]: "decision_free P \<Longrightarrow> preserves (both P) (admit_approval e u i c)"
  unfolding admit_approval_def by (intro preserves_rules decision_freeD)

lemma preserves_execution_failed [preserves_rules]: "decision_free P \<Longrightarrow> preserves (both P) (execution_failed e u i err)"
  unfolding execution_failed_def mark_admin_action_request_execution_failed_def by (intro preserves_rules decision_freeD)

lemma preserves_record_execution [preserves_rules]: "decision_free P \<Longrightarrow> preserves (both P) (record_execution e u a r)"
  unfolding record_execution_def by (intro preserves_rules decision_freeD)

lemma preserves_approve [preserves_rules]: "decision_free P \<Longrightarrow> preserves (both P) (approve_admin_action_request_as_root_admin e u i c)"
  unfolding approve_admin_action_request_as_root_admin_def by (intro preserves_rules decision_freeD)

lemma preserves_reject_action [preserves_rules]: "decision_free P \<Longrightarrow> preserves (both P) (reject_admin_action_request_as_root_admin e u i c)"
  unfolding reject_admin_action_request_as_root_admin_def Let_def by (intro preserves_rules decision_freeD)

lemma preserves_cancel [preserves_rules]: "decision_free P \<Longrightarrow> preserves (both P) (cancel_admin_action_request_as_root_admin e u i c)"
  unfolding cancel_admin_action_request_as_root_admin_def Let_def by (intro preserves_rules decision_freeD)

lemma preserves_list_actions [preserves_rules]:
  "decision_free P \<Longrightarrow> preserves (both P) (admin_action_requests_for_admin e u)"
  "decision_free P \<Longrightarrow> preserves (both P) (admin_action_request_detail_for_admin e u i)"
  unfolding admin_action_requests_for_admin_def admin_action_request_detail_for_admin_def expire_stale_admin_action_requests_def
  by (intro preserves_rules decision_freeD; assumption)+

text \<open>The books are not touched by any of this.\<close>

lemma money_only_execution: "money_only P \<Longrightarrow> execution_free P"
  unfolding execution_free_def
proof (intro conjI allI impI)
  fix db i act
  assume P: "money_only P" and "P db"
  moreover have "money_view (update_user i (lifecycle_update act) db) = money_view db"
    by (simp add: money_view_def update_users_def upd_where_def lifecycle_update_def clear_authenticator_def money_user_def comp_def)
  ultimately show "P (update_user i (lifecycle_update act) db)" by (blast dest: money_onlyD)
qed (rule money_only_desk)

lemma money_only_decision: "money_only P \<Longrightarrow> decision_free P"
  by (auto simp: decision_free_def money_only_execution update_action_def intro: money_onlyD)

lemma preserves_create_action [preserves_rules]:
  assumes "money_only P"
  shows "preserves (both P) (create_admin_action_request e u op tt tid pl r)"
proof -
  have "preserves (both P) (updateA (add_action a))" "preserves (both P) (updateA (update_action i f))" for a i f
    using assms by (auto intro!: preserves_money_update simp: add_action_def update_action_def)
  with assms show ?thesis
    unfolding create_admin_action_request_def Let_def by (intro preserves_rules money_frees)
qed

lemma preserves_validate_recovery [preserves_rules]:
  assumes "desk_free P"
  shows "preserves (both P) (validate_manual_recovery e u i t p r m)"
  unfolding validate_manual_recovery_def by (intro preserves_rules preserves_desk_updates assms desk_freeD)

lemma preserves_action_requests [preserves_rules]:
  assumes "money_only P"
  shows "preserves (both P) (transition_staff_account_as_root_admin e u i act c)"
    "preserves (both P) (transition_manual_recovery_request_as_admin e u i st reason c)"
    "preserves (both P) (complete_manual_recovery_request_as_admin e u i reason c)"
    "preserves (both P) (request_customer_security_unlock e u i reason c)"
  unfolding transition_staff_account_as_root_admin_def transition_manual_recovery_request_as_admin_def
    complete_manual_recovery_request_as_admin_def request_customer_security_unlock_def
    validate_manual_recovery_transition_request_def validate_manual_recovery_completion_request_def Let_def
  by (intro preserves_rules assms money_frees money_only_desk)+

subsection \<open>A request is executed once\<close>

definition action_closed :: "int \<Rightarrow> database \<Rightarrow> bool" where
  "action_closed i db \<longleftrightarrow> (\<forall>a \<in> set (admin_actions db). aa_id a = i \<longrightarrow> aa_status a \<noteq> ''pending'')"

lemma closed_decision_free: "decision_free (action_closed i)"
  by (auto simp: decision_free_def execution_free_def desk_free_def login_free_def auth_free_def sessions_free_def counters_free_def
      auth_users_free_def replays_free_def recovery_free_def action_closed_def update_action_def update_users_def set_upd_where
      add_replay_record_def intro: keeps_auditI split: if_splits)

definition serve_approval :: "env \<times> user \<times> int \<times> string option \<Rightarrow> (admin_action \<times> action_result) request" where
  "serve_approval = (\<lambda>(e, actor, i, code). served (approve_admin_action_request_as_root_admin e actor i code))"

definition approval_key :: "env \<times> user \<times> int \<times> string option \<Rightarrow> int" where
  "approval_key = (\<lambda>(e, actor, i, code). i)"

lemma action_by_id_member: "action_by_id db i = Some a \<Longrightarrow> a \<in> set (admin_actions db) \<and> aa_id a = i"
  unfolding action_by_id_def by (auto dest: find_SomeD)

text \<open>What an approval has checked when it goes on to execute.\<close>

definition approvable :: "env \<Rightarrow> user \<Rightarrow> admin_action \<Rightarrow> database \<Rightarrow> bool" where
  "approvable e actor a db \<longleftrightarrow> aa_status a = ''pending'' \<and> now e < aa_expires_at a \<and> aa_metadata_hmac a = admin_action_request_hmac e a
     \<and> aa_requester_id a \<noteq> u_id actor \<and> is_active_root_admin e (Some actor)
     \<and> (\<exists>maker. user_by_id db (aa_requester_id a) = Some maker \<and> is_active_root_admin e (Some maker))"

lemma pending_spec:
  assumes "pending_admin_action_request_or_error e i actor s = (Inr a, t)"
  shows "action_by_id (working s) i = Some a" "aa_status a = ''pending''" "now e < aa_expires_at a" "t = s"
proof -
  have r: "raises (bindA (updateA (update_action (aa_id a) (expired_action e))) (\<lambda>_. bindA (audit_action_expired e actor a) (\<lambda>_.
        bindA commitA (\<lambda>_. raise (auth_error ''Admin action request is expired'' 409)))))" for a :: admin_action
    by (intro raises_bindA raises_raise)
  from assms show "action_by_id (working s) i = Some a" "aa_status a = ''pending''" "now e < aa_expires_at a" "t = s"
    by (auto simp: pending_admin_action_request_or_error_def admin_action_request_or_error_def bindA_eq_Inr expire_admin_action_request_if_stale_def
        action_stale_def raises_not_Inr [OF raises_staff_block] raises_not_Inr [OF r, unfolded bindA_updateA] split: option.splits if_splits)
qed

lemma admit_approval_spec:
  assumes "admit_approval e actor i code s = (Inr a, t)"
  shows "action_by_id (working s) i = Some a" "approvable e actor a (working s)"
    "verify_totp_for_user e actor (or_default code []) (''admin_action_approve_'' @ aa_operation_type a) None True s = (Inr True, t)"
proof -
  from assms obtain a' where p: "pending_admin_action_request_or_error e i actor s = (Inr a', s)" and root: "is_active_root_admin e (Some actor)"
    and rest: "assert_admin_action_request_hmac_valid e a' actor s = (Inr (), s)" "assert_requester_still_eligible e a' actor s = (Inr (), s)"
      "aa_requester_id a' \<noteq> u_id actor" "decide_step_up e actor a' code ''admin_action_approve_'' ''admin_action_request_approve'' s = (Inr (), t)" "a = a'"
    by (auto simp: admit_approval_def bindA_eq_Inr require_active_root_admin_def assert_admin_action_request_hmac_valid_def
        assert_requester_still_eligible_def raises_not_Inr [OF raises_staff_block] dest: pending_spec(4) split: if_splits)
  note p' = pending_spec [OF p]
  show "action_by_id (working s) i = Some a" using p'(1) rest(5) by simp
  have "aa_metadata_hmac a = admin_action_request_hmac e a"
    using rest(1,5) by (auto simp: assert_admin_action_request_hmac_valid_def raises_not_Inr [OF raises_staff_block] split: if_splits)
  moreover have "\<exists>maker. user_by_id (working s) (aa_requester_id a) = Some maker \<and> is_active_root_admin e (Some maker)"
    using rest(2,5) by (auto simp: assert_requester_still_eligible_def raises_not_Inr [OF raises_staff_block] is_active_root_admin_def is_root_admin_def
        split: if_splits option.splits)
  ultimately show "approvable e actor a (working s)" using p' root rest(3,5) by (simp add: approvable_def)
  show "verify_totp_for_user e actor (or_default code []) (''admin_action_approve_'' @ aa_operation_type a) None True s = (Inr True, t)"
    using rest(4,5) by (auto simp: decide_step_up_def verify_admin_totp_step_up_def bindA_eq_Inr raises_not_Inr [OF raises_staff_block] split: if_splits)
qed

lemma raises_execution_failed [simp]: "raises (execution_failed e u i err)"
  unfolding execution_failed_def by (simp add: raises_bindA)

lemma actions_execution_free: "execution_free (\<lambda>db. admin_actions db = as)"
  by (auto simp: execution_free_def desk_free_def login_free_def auth_free_def sessions_free_def counters_free_def auth_users_free_def
      replays_free_def recovery_free_def update_users_def add_replay_record_def intro: keeps_auditI)

lemma record_execution_spec:
  assumes run: "record_execution e actor a r s = (Inr x, t)"
  shows "both (\<lambda>db. admin_actions db = upd_where (\<lambda>b. aa_id b = aa_id a) (executed_action e actor) (admin_actions (working s))) t"
    and "x = (executed_action e actor a, r)"
proof -
  let ?as = "upd_where (\<lambda>b. aa_id b = aa_id a) (executed_action e actor) (admin_actions (working s))"
  let ?md = "[(''request_ref'', action_ref e a), (''operation_type'', JStr (aa_operation_type a)), (''target_type'', JStr (aa_target_type a)),
        (''target_ref'', admin_action_target_ref e a), (''requester_ref'', id_ref e ''admin_user'' (aa_requester_id a))]"
  let ?s = "s\<lparr>working := update_action (aa_id a) (executed_action e actor) (working s)\<rparr>"
  let ?n = "case r of CustomerUnlocked uid _ \<Rightarrow> send_customer_security_unlock_notification e uid | _ \<Rightarrow> ret ()"
  from run obtain s1 s2 where a: "audit_event_required e ''admin_action_request_executed'' ''success'' (Some (u_id actor)) ?md None ?s = (Inr (), s1)"
      and c: "commitA s1 = (Inr (), s2)" and n: "?n s2 = (Inr (), t)" and x: "x = (executed_action e actor a, r)"
    by (auto simp: record_execution_def bindA_eq_Inr)
  from x show "x = (executed_action e actor a, r)" .
  obtain ev where "working s1 = add_audit ev (working ?s)"
    using a by (cases rule: audit_event_required_cases [of e "''admin_action_request_executed''" "''success''" "Some (u_id actor)" ?md None ?s]) auto
  then have "both (\<lambda>db. admin_actions db = ?as) s2"
    using commit_published [OF c] by (simp add: both_def update_action_def)
  moreover have "preserves (both (\<lambda>db. admin_actions db = ?as)) ?n"
    by (intro preserves_rules execution_freeD actions_execution_free)
  ultimately show "both (\<lambda>db. admin_actions db = ?as) t" using n by (blast dest: preservesD')
qed

lemma approved_action:
  assumes run: "approve_admin_action_request_as_root_admin e actor i code s = (Inr x, t)" and s: "working s = committed s"
  shows "\<exists>a r s1 s2. x = (executed_action e actor a, r) \<and> action_by_id (committed s) i = Some a \<and> approvable e actor a (committed s)
    \<and> verify_totp_for_user e actor (or_default code []) (''admin_action_approve_'' @ aa_operation_type a) None True s = (Inr True, s1)
    \<and> execute_admin_action_request e actor a s1 = (Inr r, s2)
    \<and> both (\<lambda>db. admin_actions db = upd_where (\<lambda>b. aa_id b = i) (executed_action e actor) (admin_actions (committed s))) t"
proof -
  from run obtain a s1 r s2 where ad: "admit_approval e actor i code s = (Inr a, s1)"
      and ex: "execute_admin_action_request e actor a s1 = (Inr r, s2)" and re: "record_execution e actor a r s2 = (Inr x, t)"
    by (auto simp: approve_admin_action_request_as_root_admin_def bindA_eq_Inr try_catch_raises [OF raises_execution_failed])
  note ad' = admit_approval_spec [OF ad]
  have i: "aa_id a = i" using action_by_id_member [OF ad'(1)] by simp
  let ?P = "\<lambda>db. admin_actions db = admin_actions (committed s)"
  have "both ?P s" using s by (simp add: both_def)
  moreover have "preserves (both ?P) (verify_totp_for_user e actor c sc None True)" for c sc
    unfolding verify_totp_for_user_def by (intro preserves_rules execution_freeD actions_execution_free)
  ultimately have "both ?P s1" using ad'(3) by (blast dest: preservesD')
  then have "both ?P s2" using preservesD' [OF preserves_execute [OF actions_execution_free] ex] by blast
  then have "admin_actions (working s2) = admin_actions (committed s)" by (simp add: both_def)
  with record_execution_spec [OF re] ad' ex s i show ?thesis by auto
qed

interpretation approval: single_use serve_approval approval_key "\<lambda>i. both (action_closed i)"
proof
  fix q :: "env \<times> user \<times> int \<times> string option" and s x t
  obtain e actor i code where q: "q = (e, actor, i, code)" by (cases q)
  assume "serve_approval q s = (Inr x, t)"
  then obtain t' where "approve_admin_action_request_as_root_admin e actor i code s = (Inr x, t')" and t: "t = t'\<lparr>working := committed t'\<rparr>"
    by (auto simp: serve_approval_def q served_eq)
  then obtain a s1 r s2 where ad: "admit_approval e actor i code s = (Inr a, s1)" and re: "record_execution e actor a r s2 = (Inr x, t')"
    by (auto simp: approve_admin_action_request_as_root_admin_def bindA_eq_Inr)
  have "aa_id a = i" using action_by_id_member [OF admit_approval_spec(1) [OF ad]] by simp
  with record_execution_spec(1) [OF re] t show "both (action_closed (approval_key q)) t"
    by (auto simp: both_def action_closed_def approval_key_def q set_upd_where executed_action_def split: if_splits)
next
  fix i s and q :: "env \<times> user \<times> int \<times> string option"
  assume "both (action_closed i) s"
  moreover have "preserves (both (action_closed i)) (serve_approval q)"
    unfolding serve_approval_def by (cases q) (simp add: preserves_served preserves_approve closed_decision_free)
  ultimately show "both (action_closed i) (snd (serve_approval q s))" by (simp add: preserves_def)
next
  fix q :: "env \<times> user \<times> int \<times> string option" and s
  assume closed: "both (action_closed (approval_key q)) s"
  obtain e actor i code where q: "q = (e, actor, i, code)" by (cases q)
  have "False" if "approve_admin_action_request_as_root_admin e actor i code s = (Inr x, t)" for x t
  proof -
    from that obtain a s1 where ad: "admit_approval e actor i code s = (Inr a, s1)"
      by (auto simp: approve_admin_action_request_as_root_admin_def bindA_eq_Inr)
    from admit_approval_spec [OF ad] closed show False
      by (auto simp: both_def action_closed_def approval_key_def q approvable_def dest!: action_by_id_member)
  qed
  then show "isl (fst (serve_approval q s))"
    by (cases "approve_admin_action_request_as_root_admin e actor i code s"; cases "fst (approve_admin_action_request_as_root_admin e actor i code s)")
       (auto simp: serve_approval_def q served_def)
qed

text \<open>
  C28. A privileged action takes two administrators. When an approval returns, the action request was pending, unexpired and carried the digest
  of its content; the approver and the requester are two different active root administrators; the approver gave an accepted authenticator code
  for this kind of approval; the action was executed, and the request is recorded as executed by the approver.
\<close>

theorem approval_takes_two:
  assumes "approve_admin_action_request_as_root_admin e actor i code s = (Inr x, t)" and "working s = committed s"
  shows "\<exists>a r s1 s2. x = (executed_action e actor a, r) \<and> action_by_id (committed s) i = Some a \<and> approvable e actor a (committed s)
    \<and> verify_totp_for_user e actor (or_default code []) (''admin_action_approve_'' @ aa_operation_type a) None True s = (Inr True, s1)
    \<and> execute_admin_action_request e actor a s1 = (Inr r, s2)
    \<and> both (\<lambda>db. admin_actions db = upd_where (\<lambda>b. aa_id b = i) (executed_action e actor) (admin_actions (committed s))) t"
  using assms by (rule approved_action)

text \<open>
  C29. An action request is executed once: in any sequence of approvals, by whomever and however they fail, at most one approval of a given request
  returns.
\<close>

theorem approval_executes_once:
  "successes approval_key i qs (fst (run_all serve_approval qs s)) \<le> 1"
  by (rule approval.at_most_one_success)

subsection \<open>The digest of a request\<close>

text \<open>What an action request asks for, as far as its digest covers it.\<close>

definition action_content :: "env \<Rightarrow> admin_action \<Rightarrow> int \<times> string \<times> string \<times> string \<times> json \<times> int \<times> string \<times> string \<times> string" where
  "action_content e a = (aa_id a, aa_operation_type a, aa_target_type a, aa_target_id a, sort_keys (JObj (safe_admin_action_payload e (aa_operation_payload a))),
     aa_requester_id a, aa_requester_role a, utc_iso_offset (aa_created_at a), utc_iso_offset (aa_expires_at a))"

lemma action_digest_inject:
  assumes "json_dumps (JObj (admin_action_fields e a)) = json_dumps (JObj (admin_action_fields e b))"
  shows "action_content e a = action_content e b"
proof -
  have "map fst (admin_action_fields e a) = map fst (admin_action_fields e b)" "distinct (map fst (admin_action_fields e a))"
    by (simp_all add: admin_action_fields_def)
  from json_dumps_obj_inject [OF assms this] show ?thesis
    by (simp add: admin_action_fields_def action_content_def del: sort_keys.simps(6)) 
qed

text \<open>
  An action request cannot be altered between request and approval. If two requests pass the integrity check of an approval with the same digest,
  they have the same operation, target, payload, requester and times, unless two texts have the same keyed digest.
\<close>

theorem action_request_bound:
  assumes "assert_admin_action_request_hmac_valid e a actor s = (Inr x, t)" and "assert_admin_action_request_hmac_valid e b actor' s' = (Inr x', t')"
    and "aa_metadata_hmac a = aa_metadata_hmac b"
  shows "action_content e a = action_content e b \<or> (\<exists>m m'. m \<noteq> m' \<and> active_hmac_hex e m 64 = active_hmac_hex e m' 64)"
proof -
  have "active_hmac_hex e (''admin-action-request:'' @ json_dumps (JObj (admin_action_fields e a))) 64 =
        active_hmac_hex e (''admin-action-request:'' @ json_dumps (JObj (admin_action_fields e b))) 64"
    using assms by (auto simp: assert_admin_action_request_hmac_valid_def admin_action_request_hmac_def raises_not_Inr [OF raises_staff_block] split: if_splits)
  then show ?thesis
    using action_digest_inject [of e a b] by blast
qed

subsection \<open>Examples\<close>

text \<open>A head office: an administrator who asks, one who approves, and a member of staff.\<close>

definition office_env :: env where
  "office_env = code_env\<lparr>cfg := sample_cfg\<lparr>cfg_root_admin_emails := [''root@sit.example'', ''chief@sit.example'']\<rparr>\<rparr>"

definition officer :: "user \<Rightarrow> string \<Rightarrow> string \<Rightarrow> user" where
  "officer u role email = u\<lparr>u_account_type := role, u_email := email, u_account_number := None, u_phone_number := None\<rparr>"

definition chief :: user where "chief = officer code_user ''root_admin'' ''chief@sit.example''"
definition root :: user where "root = officer bob ''root_admin'' ''root@sit.example''"
definition teller :: user where "teller = officer (sample_user 3 ''carol'' [] 0) ''staff'' ''carol@sit.example''"

definition sample_action :: admin_action where
  "sample_action = \<lparr>aa_id = 7, aa_operation_type = ''staff_deactivate'', aa_target_type = ''staff_user'', aa_target_id = ''3'',
     aa_operation_payload = [(''action'', JStr ''deactivate'')], aa_requester_id = 2, aa_requester_role = ''root_admin'', aa_approver_id = None,
     aa_status = ''pending'', aa_reason_present = False, aa_reason_length = 0, aa_metadata_hmac = replicate 64 (CHR ''a''), aa_created_at = 0,
     aa_updated_at = 0, aa_expires_at = now sample_env + 1, aa_decided_at = None, aa_executed_at = None\<rparr>"

definition office_db :: database where
  "office_db = empty_db\<lparr>users := [chief, root, teller], admin_actions := [sample_action]\<rparr>"

lemma office_env_fields [simp]: "now office_env = now sample_env" "totp_at office_env = (\<lambda>_ _. ''000042'')" "has_request office_env"
  "hmac_sha256 office_env = (\<lambda>_ _. replicate 64 (CHR ''a''))" "audit_ready office_env"
  by (simp_all add: office_env_def audit_ready_def sample_cfg_def)

lemma office_people [simp]: "u_id chief = 1" "u_id root = 2" "u_id teller = 3" "u_account_type teller = ''staff''"
  by (simp_all add: chief_def root_def teller_def officer_def bob_def sample_user_def)

lemma officer_secret:
  assumes "u_mfa_secret_nonce u = Some envelope_nonce_marker" "u_mfa_secret_ciphertext u = Some ''envelope''" "u_id u = 1"
  shows "mfa_secret_for_user office_env u s = (Inr ''SECRET'', s)"
proof -
  have "decrypt_mfa_secret office_env envelope_nonce_marker ''envelope'' 1 s = (Inr ''SECRET'', s)"
    by (rule decrypt_holds [where kvs = "mfa_envelope ''kek1'' ''w'' ''n'' ''c'' ''m''" and kid = "''kek1''" and dek = "''SECRET''"
          and key = "replicate 32 (CHR ''E'')"])
       (simp_all add: office_env_def code_env_def sample_env64_def sample_env_def sample_cfg_def holds_secret_def wraps_dek_def mfa_envelope_def
          envelope_fields_def envelope_version_def envelope_algorithm_def jget_def insert_commute)
  with assms show ?thesis by (simp add: mfa_secret_for_user_def) (simp add: envelope_nonce_marker_def)
qed

lemma office_step:
  "\<exists>step. accepted_totp_step office_env ''SECRET'' ''000042'' (now_s office_env) (totp_valid_window office_env scope None) = Some step"
proof -
  have "totp_valid_window office_env scope None = totp_valid_window code_env scope None" by (simp add: totp_valid_window_def office_env_def)
  moreover have "accepted_totp_step office_env = accepted_totp_step code_env" "now_s office_env = now_s code_env"
    by (simp_all add: accepted_totp_step_def fun_eq_iff now_s_def)
  ultimately show ?thesis using code_step [of scope] by simp
qed

lemma storable_replay: "totp_replays db = [] \<Longrightarrow> storable (add_replay_record e i sc st d ttl db) \<longleftrightarrow> storable db"
  by (simp add: add_replay_record_def storable_def numerics_ok_def constraints_ok_def)

lemma officer_accepted:
  assumes "u_mfa_secret_nonce u = Some envelope_nonce_marker" "u_mfa_secret_ciphertext u = Some ''envelope''" "u_id u = 1"
    and "auth_counters (working s) = []" "totp_replays (working s) = []" "storable (working s)"
  shows "\<exists>t sc st d ttl. verify_admin_totp_step_up office_env u (Some ''000042'') scope s = (Inr True, t)
    \<and> working t = add_replay_record office_env 1 sc st d ttl (working s) \<and> committed t = working t"
proof -
  obtain step where step: "accepted_totp_step office_env ''SECRET'' ''000042'' (now_s office_env) (totp_valid_window office_env scope None) = Some step"
    using office_step by blast
  have "six_digits ''000042''" by code_simp
  with verify_accepts [OF officer_secret [OF assms(1-3)], of "''000042''" scope step s True] step assms(3-6) storable_replay [OF assms(5)]
  obtain t where "verify_totp_for_user_outcome office_env u ''000042'' scope None True s = (Inr TOTP_VALID, t)"
      "working t = add_replay_record office_env 1 (totp_replay_scope scope) step (totp_code_digest office_env 1 (totp_replay_scope scope) step ''000042'')
        (replay_ttl (totp_valid_window office_env scope None)) (working s)" "committed t = working t"
    by auto
  moreover from this(1) have "verify_admin_totp_step_up office_env u (Some ''000042'') scope s = (Inr True, t)"
    by (simp add: verify_admin_totp_step_up_def verify_totp_for_user_def or_default_def)
  ultimately show ?thesis by blast
qed

lemma chief_roles: "is_active_root_admin office_env (Some chief)" "is_active_root_admin office_env (Some root)"
  by code_simp+

definition deactivated_db :: "database \<Rightarrow> database" where
  "deactivated_db db = update_user 3 (lifecycle_update ''deactivate'') db"

lemma deactivate_example:
  assumes "user_by_id (working s) 3 = Some teller" and "server_sessions (working s) = []"
  shows "\<exists>ev. execute_admin_action_request office_env chief sample_action s =
    (Inr (StaffUpdated (lifecycle_update ''deactivate'' teller)), s\<lparr>working := add_audit ev (deactivated_db (working s))\<rparr>)"
proof -
  have p: "py_int_str ''3'' = Some 3" "payload_text office_env sample_action ''action'' = ''deactivate''"
      "py_casefold (py_strip ''deactivate'') = ''deactivate''" by code_simp+
  have r: "is_root_admin office_env (Some chief)" using chief_roles(1) by (simp add: is_active_root_admin_def)
  have v: "validate_staff_account_lifecycle_request office_env chief 3 ''deactivate'' s = (Inr (''deactivate'', teller), s)"
    using assms(1) r by (simp add: validate_staff_account_lifecycle_request_def p Let_def staff_action_operation_types_def admin_account_managed_types_def)
  have rev: "revoke_all_sessions office_env 3 ''revoked'' None (s\<lparr>working := deactivated_db (working s)\<rparr>) = (Inr 0, s\<lparr>working := deactivated_db (working s)\<rparr>)"
    using assms(2) by (simp add: revoke_all_eq Let_def end_session_rows_def expire_stale_sessions_def update_session_where_def deactivated_db_def update_users_def)
  let ?s = "s\<lparr>working := deactivated_db (working s)\<rparr>"
  obtain ev where "audit_event_required office_env (lifecycle_event ''deactivate'') ''success'' (Some (u_id chief))
         [(''target_staff_ref'', id_ref office_env ''staff_user'' (u_id teller)), (''target_role'', JStr (u_account_type teller)),
          (''target_status'', JStr (u_account_status (lifecycle_update ''deactivate'' teller))), (''revoked_sessions'', JInt 0)] None
         ?s = (Inr (), ?s\<lparr>working := add_audit ev (working ?s)\<rparr>)"
    using audit_event_required_ready [OF office_env_fields(5)] by blast
  with v rev p show ?thesis
    by (auto simp: execute_admin_action_request_def staff_action_operation_types_def int_target_def execute_staff_account_lifecycle_def sample_action_def
        simp flip: deactivated_db_def)
qed


lemma storable_office: "storable office_db" "storable (deactivated_db office_db)"
proof -
  have "storable (empty_db\<lparr>users := [officer (alice\<lparr>u_mfa_secret_nonce := x, u_mfa_secret_ciphertext := y\<rparr>) ''root_admin'' ''chief@sit.example'', root, teller], admin_actions := [sample_action]\<rparr>)"
      "storable (deactivated_db (empty_db\<lparr>users := [officer (alice\<lparr>u_mfa_secret_nonce := x, u_mfa_secret_ciphertext := y\<rparr>) ''root_admin'' ''chief@sit.example'', root, teller], admin_actions := [sample_action]\<rparr>))" for x y by code_simp+
  then show "storable office_db" "storable (deactivated_db office_db)" by (simp_all add: office_db_def chief_def code_user_def)
qed

lemma admit_approval_example:
  "\<exists>s1 sc st d ttl. admit_approval office_env chief 7 (Some ''000042'') (fresh_world office_db) = (Inr sample_action, s1)
    \<and> working s1 = add_replay_record office_env 1 sc st d ttl office_db"
proof -
  have "u_mfa_secret_nonce chief = Some envelope_nonce_marker" "u_mfa_secret_ciphertext chief = Some ''envelope''"
    by (simp_all add: chief_def officer_def code_user_def)
  from officer_accepted [OF this, of "fresh_world office_db" "''admin_action_approve_'' @ aa_operation_type sample_action"] storable_office(1)
  obtain s1 sc st d ttl where "verify_admin_totp_step_up office_env chief (Some ''000042'') (''admin_action_approve_'' @ aa_operation_type sample_action)
      (fresh_world office_db) = (Inr True, s1)" "working s1 = add_replay_record office_env 1 sc st d ttl office_db"
    by (auto simp: fresh_world_def office_db_def empty_db_def)
  moreover have "action_by_id office_db 7 = Some sample_action" "user_by_id office_db 2 = Some root"
    by (simp_all add: office_db_def action_by_id_def sample_action_def user_by_id_def)
  ultimately show ?thesis using chief_roles
    by (auto simp: admit_approval_def require_active_root_admin_def pending_admin_action_request_or_error_def admin_action_request_or_error_def fresh_world_def
        expire_admin_action_request_if_stale_def action_stale_def assert_admin_action_request_hmac_valid_def admin_action_request_hmac_def active_hmac_hex_def
        assert_requester_still_eligible_def decide_step_up_def sample_action_def)
qed

lemma approve_example:
  "\<exists>x t. approve_admin_action_request_as_root_admin office_env chief 7 (Some ''000042'') (fresh_world office_db) = (Inr x, t)"
proof -
  obtain s1 sc st d ttl where s1: "admit_approval office_env chief 7 (Some ''000042'') (fresh_world office_db) = (Inr sample_action, s1)"
    "working s1 = add_replay_record office_env 1 sc st d ttl office_db" using admit_approval_example by blast
  have "user_by_id (working s1) 3 = Some teller" "server_sessions (working s1) = []"
    by (simp_all add: s1(2) add_replay_record_def user_by_id_def office_db_def empty_db_def)
  then obtain ev where ex: "execute_admin_action_request office_env chief sample_action s1 =
    (Inr (StaffUpdated (lifecycle_update ''deactivate'' teller)), s1\<lparr>working := add_audit ev (deactivated_db (working s1))\<rparr>)"
    using deactivate_example by blast
  let ?s = "s1\<lparr>working := update_action 7 (executed_action office_env chief) (add_audit ev (deactivated_db (working s1)))\<rparr>"
  let ?a = "sample_action"
  obtain ev' where ev': "audit_event_required office_env ''admin_action_request_executed'' ''success'' (Some (u_id chief))
       [(''request_ref'', action_ref office_env ?a), (''operation_type'', JStr (aa_operation_type ?a)), (''target_type'', JStr (aa_target_type ?a)),
        (''target_ref'', admin_action_target_ref office_env ?a), (''requester_ref'', id_ref office_env ''admin_user'' (aa_requester_id ?a))] None ?s =
       (Inr (), ?s\<lparr>working := add_audit ev' (working ?s)\<rparr>)"
    using audit_event_required_ready [OF office_env_fields(5)] by blast
  have "totp_replays (deactivated_db office_db) = []" by (simp add: deactivated_db_def update_users_def office_db_def empty_db_def)
  moreover have "list_all admin_action_check (upd_where (\<lambda>a. aa_id a = 7) (executed_action office_env chief) (admin_actions office_db))"
    by (simp add: office_db_def upd_where_def sample_action_def executed_action_def admin_action_check_def)
  ultimately have "storable (working (?s\<lparr>working := add_audit ev' (working ?s)\<rparr>))"
    using storable_replay storable_office(2) by (simp add: s1(2)) (simp add: storable_def numerics_ok_def constraints_ok_def update_action_def add_replay_record_def deactivated_db_def update_users_def)
  then have "commitA (?s\<lparr>working := add_audit ev' (working ?s)\<rparr>) =
      (Inr (), ?s\<lparr>working := add_audit ev' (working ?s), committed := add_audit ev' (working ?s)\<rparr>)" by (simp add: commitA_ok)
  moreover have "aa_id ?a = 7" by (simp add: sample_action_def)
  ultimately have "\<exists>x t. record_execution office_env chief ?a (StaffUpdated (lifecycle_update ''deactivate'' teller))
      (s1\<lparr>working := add_audit ev (deactivated_db (working s1))\<rparr>) = (Inr x, t)"
    using ev' by (simp add: record_execution_def)
  with ex s1(1) show ?thesis by (auto simp: approve_admin_action_request_as_root_admin_def try_catch_def)
qed


theorem approval_takes_two_witness:
  "\<exists>x t. approve_admin_action_request_as_root_admin office_env chief 7 (Some ''000042'') (fresh_world office_db) = (Inr x, t)
     \<and> aa_approver_id (fst x) = Some 1 \<and> aa_requester_id (fst x) = 2 \<and> map aa_status (admin_actions (committed t)) = [''executed'']"
proof -
  obtain x t where t: "approve_admin_action_request_as_root_admin office_env chief 7 (Some ''000042'') (fresh_world office_db) = (Inr x, t)"
    using approve_example by blast
  have a: "action_by_id (committed (fresh_world office_db)) 7 = Some sample_action" "admin_actions (committed (fresh_world office_db)) = [sample_action]"
      "aa_id sample_action = 7" "aa_requester_id sample_action = 2"
    by (simp_all add: office_db_def action_by_id_def sample_action_def fresh_world_def)
  from approval_takes_two [OF t] a t show ?thesis
    by (auto simp: fresh_world_def both_def upd_where_def executed_action_def)
qed

theorem action_request_bound_witness:
  "assert_admin_action_request_hmac_valid office_env sample_action chief (fresh_world office_db) = (Inr (), fresh_world office_db)
   \<and> (action_content office_env sample_action = action_content office_env (executed_action office_env chief sample_action)
     \<or> (\<exists>m m'. m \<noteq> m' \<and> active_hmac_hex office_env m 64 = active_hmac_hex office_env m' 64))"
proof -
  have "assert_admin_action_request_hmac_valid office_env a chief s = (Inr (), s)" if "aa_metadata_hmac a = replicate 64 (CHR ''a'')" for a s
    using that by (simp add: assert_admin_action_request_hmac_valid_def admin_action_request_hmac_def active_hmac_hex_def)
  moreover have "aa_metadata_hmac sample_action = replicate 64 (CHR ''a'')"
      "aa_metadata_hmac (executed_action office_env chief sample_action) = replicate 64 (CHR ''a'')"
    by (simp_all add: sample_action_def executed_action_def)
  ultimately show ?thesis using action_request_bound [of office_env sample_action chief _ _ _ "executed_action office_env chief sample_action" chief] by metis
qed

subsection \<open>Requests whose time is over\<close>

lemma audit_event_ready:
  assumes "audit_ready e" and "storable (working s)"
  shows "\<exists>ev. audit_event e t out uid md sid s = (Inr (), s\<lparr>working := add_audit ev (working s), committed := add_audit ev (working s)\<rparr>)"
proof -
  obtain ev where "audit_event_required e t out uid md sid s = (Inr (), s\<lparr>working := add_audit ev (working s)\<rparr>)"
    using audit_event_required_ready [OF assms(1)] by blast
  then have "insert_event e (draft_event e t out uid md (audit_session_id sid s)) s = (Inr (), s\<lparr>working := add_audit ev (working s)\<rparr>)"
    using assms(1)
    by (cases rule: insert_event_cases [of e "draft_event e t out uid md (audit_session_id sid s)" s])
       (auto simp: audit_event_required_def audit_ready_def try_catch_def)
  moreover have "commitA (s\<lparr>working := add_audit ev (working s)\<rparr>) = (Inr (), s\<lparr>working := add_audit ev (working s), committed := add_audit ev (working s)\<rparr>)"
    using assms(2) by (simp add: commitA_ok)
  ultimately show ?thesis using assms(1) by (auto simp: audit_event_def audit_ready_def try_catch_def)
qed

lemma expire_validation:
  assumes "recovery_by_id (working s) i = Some r" and "mr_expires_at r \<le> now e" and "audit_ready e"
    and "storable (update_recovery i (marked_expired e) (working s))"
  shows "\<exists>t. validate_manual_recovery e actor i ty p why m s = (Inl (auth_error ''Manual recovery request is expired'' 409), t)
    \<and> recovery_by_id (committed t) i = Some (marked_expired e r)"
proof -
  let ?s = "s\<lparr>working := update_recovery i (marked_expired e) (working s)\<rparr>"
  have i: "mr_id r = i" using recovery_by_id_member [OF assms(1)] by simp
  have storable_s: "storable (working ?s)" using assms(4) by simp
  obtain ev where ev: "audit_event e ty ''blocked'' (Some (u_id actor)) [(''reason'', JStr ''request_expired''),
      (''request_ref'', id_ref e ''manual_recovery_request'' i)] None ?s = (Inr (), ?s\<lparr>working := add_audit ev (working ?s), committed := add_audit ev (working ?s)\<rparr>)"
    using audit_event_ready [OF assms(3) storable_s] by blast
  have w: "recovery_by_id (working ?s) i = Some (marked_expired e r)"
    using recovery_by_id_update [OF assms(1), of "marked_expired e"] by (simp add: marked_expired_def)
  have "commitA (?s\<lparr>working := add_audit ev (working ?s), committed := add_audit ev (working ?s)\<rparr>) =
      (Inr (), ?s\<lparr>working := add_audit ev (working ?s), committed := add_audit ev (working ?s)\<rparr>)"
    using assms(4) by (simp add: commitA_ok)
  with ev w assms(1,2) i show ?thesis
    by (simp add: validate_manual_recovery_def recovery_by_id_def)
qed

text \<open>
  C32. The guards of the administrators' recovery actions write over decisions. A request that was completed, denied or otherwise decided, once its
  time is over, is set to expired by \<^verbatim>\<open>_validate_manual_recovery_transition_request\<close> and by \<^verbatim>\<open>_validate_manual_recovery_completion_request\<close>,
  and the change is committed: a move that the table of transitions does not allow.
\<close>

theorem expiry_overwrites_decision:
  assumes "recovery_by_id (working s) i = Some r" and "decided (mr_status r)" and "mr_expires_at r \<le> now e" and "audit_ready e"
    and "storable (update_recovery i (marked_expired e) (working s))"
  shows "(\<exists>t. validate_manual_recovery_transition_request e actor i st s = (Inl (auth_error ''Manual recovery request is expired'' 409), t)
      \<and> recovery_by_id (committed t) i = Some (marked_expired e r))
    \<and> (\<exists>t. validate_manual_recovery_completion_request e actor i s = (Inl (auth_error ''Manual recovery request is expired'' 409), t)
      \<and> recovery_by_id (committed t) i = Some (marked_expired e r))
    \<and> mr_status (marked_expired e r) \<notin> set (allowed_recovery_moves (mr_status r))"
  using expire_validation [OF assms(1,3-5)] assms(2)
  by (simp add: validate_manual_recovery_transition_request_def validate_manual_recovery_completion_request_def decided_def)

theorem expiry_overwrites_decision_witness:
  "\<exists>t. validate_manual_recovery_completion_request (sample_env64\<lparr>now := now sample_env64 + 1\<rparr>) root 2 recovery_world =
      (Inl (auth_error ''Manual recovery request is expired'' 409), t)
    \<and> map_option mr_status (recovery_by_id (committed recovery_world) 2) = Some ''denied''
    \<and> map_option mr_status (recovery_by_id (committed t) 2) = Some ''expired''"
proof -
  let ?e = "sample_env64\<lparr>now := now sample_env64 + 1\<rparr>" and ?r = "sample_recovery 2 ''denied''"
  have r: "recovery_by_id (working recovery_world) 2 = Some ?r" "recovery_by_id (committed recovery_world) 2 = Some ?r"
    by (simp_all add: recovery_world_def fresh_world_def recovery_by_id_def sample_recovery_def)
  have "decided (mr_status ?r)" "mr_expires_at ?r \<le> now ?e" "mr_status ?r = ''denied''"
    by (simp_all add: sample_recovery_def decided_def allowed_recovery_moves_def manual_recovery_allowed_transitions_def)
  moreover have "audit_ready ?e" by (simp add: audit_ready_def sample_env64_def sample_env_def sample_cfg_def)
  moreover have "storable (update_recovery 2 (marked_expired ?e) (working recovery_world))" by code_simp
  ultimately show ?thesis
    using expiry_overwrites_decision [OF r(1), of ?e root "[]"] r(2) by (auto simp: marked_expired_def)
qed

end
