(* ===== verification/Staff_Desk.thy ===== *)
theory Staff_Desk
  imports Admin_Actions
begin

section \<open>The work of bank staff\<close>

text \<open>
  The operations of plain bank staff in \<^verbatim>\<open>app/admin/services.py\<close>: reviewing disputes and support tickets, freezing a customer and unfreezing a
  customer who froze the account. The two status changes are split where another request can come in between: the row that was read
  is an argument of the second half, which may run in a later state. Lists are returned as rows.
\<close>

definition audited_read :: "env \<Rightarrow> user \<Rightarrow> string \<Rightarrow> (string \<times> json) list \<Rightarrow> unit request" where
  "audited_read e actor event_type md =
     try_catch (bindA (audit_event_required e event_type ''success'' (Some (u_id actor)) md None) (\<lambda>_. commitA))
       (\<lambda>err. case err of AuditWriteError _ \<Rightarrow> bindA rollbackA (\<lambda>_. raise err) | _ \<Rightarrow> raise err)"

text \<open>\<open>str(note or "").strip() or None\<close>.\<close>

definition note_text :: "string option \<Rightarrow> string option" where
  "note_text note = (let t = py_strip (or_default note []) in if t = [] then None else Some t)"

text \<open>
  The change of a status that both queues make: refuse a move that the table does not have, then update the rows that still are in the state
  that was read; if that is not one row, somebody else was first. \<open>update\<close> is the record update of the table.
\<close>

definition conditional_move ::
  "env \<Rightarrow> user \<Rightarrow> string \<Rightarrow> (string \<times> json) list \<Rightarrow> bool \<Rightarrow> (database \<Rightarrow> 'r list) \<Rightarrow> (('r list \<Rightarrow> 'r list) \<Rightarrow> database \<Rightarrow> database)
    \<Rightarrow> ('r \<Rightarrow> bool) \<Rightarrow> ('r \<Rightarrow> 'r) \<Rightarrow> string \<Rightarrow> unit request"
where
  "conditional_move e actor event md allowed rows update hit decide stale_message =
     (if \<not> allowed
      then staff_block e (Some actor) event ''blocked'' ((''reason'', JStr ''illegal_transition'') # md) ''Invalid status transition'' 409
      else
        bindA (queryA (\<lambda>db. length (filter hit (rows db)))) (\<lambda>rowcount.
        bindA (updateA (update (upd_where hit decide))) (\<lambda>_.
        if rowcount \<noteq> 1
        then bindA rollbackA (\<lambda>_.
          staff_block e (Some actor) event ''blocked'' ((''reason'', JStr ''stale_transition'') # md) stale_message 409)
        else audited_read e actor event md)))"

subsection \<open>Disputes\<close>

definition dispute_status_transitions :: "string \<Rightarrow> string list" where
  "dispute_status_transitions st =
     (if st = ''open'' then [''under_review'', ''resolved'', ''rejected''] else if st = ''under_review'' then [''resolved'', ''rejected''] else [])"

definition dispute_ref :: "env \<Rightarrow> dispute \<Rightarrow> string \<times> json" where
  "dispute_ref e d = (''dispute_ref'', id_ref e ''transaction_dispute'' (di_id d))"

definition transaction_dispute_or_404 :: "int \<Rightarrow> dispute request" where
  "transaction_dispute_or_404 dispute_id =
     bindA (queryA (\<lambda>db. find (\<lambda>d. di_id d = dispute_id) (disputes db))) (\<lambda>found.
     case found of None \<Rightarrow> raise (auth_error ''Not found'' 404) | Some d \<Rightarrow> ret d)"

definition disputes_for_staff :: "env \<Rightarrow> user \<Rightarrow> dispute list request" where
  "disputes_for_staff e actor =
     bindA (require_plain_staff e actor ''dispute_queue_review'') (\<lambda>_.
     bindA (queryA (\<lambda>db. sort_key (\<lambda>d. (- di_created_at d, - di_id d)) (disputes db))) (\<lambda>ds.
     bindA (audited_read e actor ''dispute_queue_review'' []) (\<lambda>_. ret ds)))"

definition dispute_detail_for_staff :: "env \<Rightarrow> user \<Rightarrow> int \<Rightarrow> dispute request" where
  "dispute_detail_for_staff e actor dispute_id =
     bindA (require_plain_staff e actor ''dispute_detail_view'') (\<lambda>_.
     bindA (transaction_dispute_or_404 dispute_id) (\<lambda>d.
     bindA (audited_read e actor ''dispute_detail_view'' [dispute_ref e d]) (\<lambda>_. ret d)))"

definition decided_dispute :: "env \<Rightarrow> user \<Rightarrow> dispute \<Rightarrow> string \<Rightarrow> string option \<Rightarrow> dispute \<Rightarrow> dispute" where
  "decided_dispute e actor d new_status note x =
     x\<lparr>di_status := new_status, di_resolver_id := Some (u_id actor), di_resolution_note := note_text note,
       di_decided_at := (if new_status \<in> {''resolved'', ''rejected''} then Some (now e) else di_decided_at d), di_updated_at := now e\<rparr>"

definition dispute_move_md :: "env \<Rightarrow> dispute \<Rightarrow> string \<Rightarrow> (string \<times> json) list" where
  "dispute_move_md e d new_status = [dispute_ref e d, (''from_status'', JStr (di_status d)), (''to_status'', JStr new_status)]"

text \<open>The second half: \<open>d\<close> is the row as it was read.\<close>

definition apply_dispute_status :: "env \<Rightarrow> user \<Rightarrow> dispute \<Rightarrow> string \<Rightarrow> string option \<Rightarrow> dispute request" where
  "apply_dispute_status e actor d new_status note =
     bindA (conditional_move e actor ''transaction_dispute_status_change'' (dispute_move_md e d new_status)
       (new_status \<in> set (dispute_status_transitions (di_status d))) disputes disputes_update
       (\<lambda>x. di_id x = di_id d \<and> di_status x = di_status d) (decided_dispute e actor d new_status note)
       ''Dispute was already updated by another reviewer'') (\<lambda>_.
     ret (decided_dispute e actor d new_status note d))"

definition transition_dispute_status_for_staff :: "env \<Rightarrow> user \<Rightarrow> int \<Rightarrow> string \<Rightarrow> string option \<Rightarrow> dispute request" where
  "transition_dispute_status_for_staff e actor dispute_id new_status note =
     bindA (require_plain_staff e actor ''transaction_dispute_status_change'') (\<lambda>_.
     bindA (transaction_dispute_or_404 dispute_id) (\<lambda>d.
     apply_dispute_status e actor d new_status note))"

subsection \<open>Support tickets\<close>

definition support_ticket_status_transitions :: "string \<Rightarrow> string list" where
  "support_ticket_status_transitions st =
     (if st = ''open'' then [''in_review'', ''resolved'', ''closed''] else if st = ''in_review'' then [''resolved'', ''closed''] else [])"

definition ticket_ref :: "env \<Rightarrow> support_ticket \<Rightarrow> string \<times> json" where
  "ticket_ref e k = (''ticket_ref'', id_ref e ''support_ticket'' (tk_id k))"

definition support_ticket_or_404 :: "int \<Rightarrow> support_ticket request" where
  "support_ticket_or_404 ticket_id =
     bindA (queryA (\<lambda>db. find (\<lambda>k. tk_id k = ticket_id) (support_tickets db))) (\<lambda>found.
     case found of None \<Rightarrow> raise (auth_error ''Not found'' 404) | Some k \<Rightarrow> ret k)"

definition support_tickets_for_staff :: "env \<Rightarrow> user \<Rightarrow> support_ticket list request" where
  "support_tickets_for_staff e actor =
     bindA (require_plain_staff e actor ''support_ticket_queue_review'') (\<lambda>_.
     bindA (queryA (\<lambda>db. sort_key (\<lambda>k. (- tk_created_at k, - tk_id k)) (support_tickets db))) (\<lambda>ks.
     bindA (audited_read e actor ''support_ticket_queue_review'' []) (\<lambda>_. ret ks)))"

definition support_ticket_detail_for_staff :: "env \<Rightarrow> user \<Rightarrow> int \<Rightarrow> support_ticket request" where
  "support_ticket_detail_for_staff e actor ticket_id =
     bindA (require_plain_staff e actor ''support_ticket_detail_view'') (\<lambda>_.
     bindA (support_ticket_or_404 ticket_id) (\<lambda>k.
     bindA (audited_read e actor ''support_ticket_detail_view'' [ticket_ref e k]) (\<lambda>_. ret k)))"

definition decided_ticket :: "env \<Rightarrow> user \<Rightarrow> support_ticket \<Rightarrow> string \<Rightarrow> string option \<Rightarrow> support_ticket \<Rightarrow> support_ticket" where
  "decided_ticket e actor k new_status note x =
     x\<lparr>tk_status := new_status, tk_resolved_by_user_id := Some (u_id actor), tk_resolution_note := note_text note,
       tk_resolved_at := (if new_status \<in> {''resolved'', ''closed''} then Some (now e) else tk_resolved_at k), tk_updated_at := now e\<rparr>"

definition ticket_move_md :: "env \<Rightarrow> support_ticket \<Rightarrow> string \<Rightarrow> (string \<times> json) list" where
  "ticket_move_md e k new_status = [ticket_ref e k, (''from_status'', JStr (tk_status k)), (''to_status'', JStr new_status)]"

definition apply_ticket_status :: "env \<Rightarrow> user \<Rightarrow> support_ticket \<Rightarrow> string \<Rightarrow> string option \<Rightarrow> support_ticket request" where
  "apply_ticket_status e actor k new_status note =
     bindA (conditional_move e actor ''support_ticket_status_change'' (ticket_move_md e k new_status)
       (new_status \<in> set (support_ticket_status_transitions (tk_status k))) support_tickets support_tickets_update
       (\<lambda>x. tk_id x = tk_id k \<and> tk_status x = tk_status k) (decided_ticket e actor k new_status note)
       ''Support ticket was already updated by another reviewer'') (\<lambda>_.
     ret (decided_ticket e actor k new_status note k))"

definition transition_support_ticket_status_for_staff :: "env \<Rightarrow> user \<Rightarrow> int \<Rightarrow> string \<Rightarrow> string option \<Rightarrow> support_ticket request" where
  "transition_support_ticket_status_for_staff e actor ticket_id new_status note =
     bindA (require_plain_staff e actor ''support_ticket_status_change'') (\<lambda>_.
     bindA (support_ticket_or_404 ticket_id) (\<lambda>k.
     apply_ticket_status e actor k new_status note))"

subsection \<open>Freezing and unfreezing customers\<close>

definition staff_fraud_freeze_reason :: string where "staff_fraud_freeze_reason = ''staff_fraud_freeze''"

definition is_voluntary_customer_self_freeze :: "user \<Rightarrow> bool" where
  "is_voluntary_customer_self_freeze u \<longleftrightarrow> u_account_type u = ''customer'' \<and> u_is_frozen u \<and> u_security_lock_reason u = None"

definition is_freezable_customer :: "user \<Rightarrow> bool" where
  "is_freezable_customer u \<longleftrightarrow> u_account_type u = ''customer'' \<and> \<not> u_is_frozen u \<and> u_account_status u = ''active''"

definition self_frozen_customers_for_staff :: "env \<Rightarrow> user \<Rightarrow> user list request" where
  "self_frozen_customers_for_staff e actor =
     bindA (require_plain_staff e actor ''customer_self_freeze_review'') (\<lambda>_.
     bindA (queryA (\<lambda>db. sort_key u_id (filter is_voluntary_customer_self_freeze (users db)))) (\<lambda>us.
     bindA (audit_event e ''customer_self_freeze_review'' ''success'' (Some (u_id actor)) [] None) (\<lambda>_. ret us)))"

definition locked_customers_for_admin :: "env \<Rightarrow> user \<Rightarrow> user list request" where
  "locked_customers_for_admin e actor =
     bindA (require_active_root_admin e actor ''customer_security_unlock_review'') (\<lambda>_.
     bindA (queryA (\<lambda>db. sort_key (\<lambda>u. (case u_security_locked_at u of None \<Rightarrow> 0 | Some t \<Rightarrow> t, u_id u)) (filter reviewable_lock (users db)))) (\<lambda>us.
     bindA (audit_event e ''customer_security_unlock_review'' ''success'' (Some (u_id actor)) [] None) (\<lambda>_. ret us)))"

definition customer_lookup_for_staff_freeze :: "env \<Rightarrow> user \<Rightarrow> string \<Rightarrow> user option request" where
  "customer_lookup_for_staff_freeze e actor identifier =
     bindA (require_plain_staff e actor ''customer_freeze_lookup'') (\<lambda>_.
     let normalized = py_lower (py_strip identifier) in
     if normalized = [] then ret None
     else
       bindA (queryA (\<lambda>db. filter (\<lambda>u. matches_identifier normalized u \<and> is_freezable_customer u) (users db))) (\<lambda>rows.
       bindA (scalar_one_or_none rows) (\<lambda>found.
       bindA (audit_event e ''customer_freeze_lookup'' (if found \<noteq> None then ''success'' else ''not_found'') (Some (u_id actor)) [] None) (\<lambda>_.
       ret found))))"

text \<open>What both operations check: the reason, the customer, the separation and the code.\<close>

definition admit_customer_action :: "env \<Rightarrow> user \<Rightarrow> int \<Rightarrow> string \<Rightarrow> string option \<Rightarrow> string \<Rightarrow> (user \<Rightarrow> bool) \<Rightarrow> string \<Rightarrow> (user \<times> string) request" where
  "admit_customer_action e actor target_user_id reason totp_code event eligible message =
     bindA (require_plain_staff e actor event) (\<lambda>_.
     bindA (require_manual_recovery_reason e reason event actor) (\<lambda>reason.
     bindA (customer_for_update e target_user_id actor event eligible message) (\<lambda>target.
     bindA (assert_not_self_customer_action e actor target event) (\<lambda>_.
     bindA (verify_admin_totp_step_up e actor totp_code event) (\<lambda>ok.
     if \<not> ok then customer_block e actor event ''failure'' ''invalid_totp_step_up'' (u_id target) fresh_mfa_required_error 403
     else ret (target, reason))))))"

definition customer_action_md :: "env \<Rightarrow> user \<Rightarrow> user \<Rightarrow> int \<Rightarrow> string \<Rightarrow> (string \<times> json) list" where
  "customer_action_md e actor target revoked reason =
     [(''target_customer_ref'', id_ref e ''customer_user'' (u_id target)), (''actor_role'', JStr (u_account_type actor)),
      (''revoked_sessions'', JInt revoked), (''reason'', JStr reason)]"

definition unfreeze_customer_as_staff :: "env \<Rightarrow> user \<Rightarrow> int \<Rightarrow> string \<Rightarrow> string option \<Rightarrow> int request" where
  "unfreeze_customer_as_staff e actor target_user_id reason totp_code =
     (let event = ''customer_self_freeze_unlock'' in
      bindA (admit_customer_action e actor target_user_id reason totp_code event is_voluntary_customer_self_freeze
        ''Customer account is not eligible for this unfreeze action'') (\<lambda>(target, reason).
      bindA (updateA (update_user (u_id target) (\<lambda>u. u\<lparr>u_is_frozen := False\<rparr>))) (\<lambda>_.
      bindA (revoke_all_sessions e (u_id target) event (Some ''customer'')) (\<lambda>revoked.
      bindA (audit_event_required e event ''success'' (Some (u_id actor)) (customer_action_md e actor target revoked reason) None) (\<lambda>_.
      bindA commitA (\<lambda>_. ret revoked))))))"

definition send_staff_freeze_notification :: "env \<Rightarrow> user \<Rightarrow> unit request" where
  "send_staff_freeze_notification e customer =
     (let event = ''staff_freeze_notification'' in
      bindA (try_catch (bindA (send_security_email e (u_email customer) ''SITBank account frozen by staff'') (\<lambda>_. ret True))
        (\<lambda>_. bindA (audit_event e event ''failure'' (Some (u_id customer)) [(''reason'', JStr ''email_delivery_failed'')] None) (\<lambda>_. ret False))) (\<lambda>sent.
      condA sent (audit_event e event ''queued'' (Some (u_id customer)) [] None)))"

definition staff_frozen :: "env \<Rightarrow> user \<Rightarrow> user" where
  "staff_frozen e u = u\<lparr>u_is_frozen := True, u_security_lock_reason := Some staff_fraud_freeze_reason, u_security_locked_at := Some (now e)\<rparr>"

definition freeze_customer_as_staff :: "env \<Rightarrow> user \<Rightarrow> int \<Rightarrow> string \<Rightarrow> string option \<Rightarrow> int request" where
  "freeze_customer_as_staff e actor target_user_id reason totp_code =
     (let event = ''customer_freeze_as_staff'' in
      bindA (admit_customer_action e actor target_user_id reason totp_code event is_freezable_customer
        ''Customer account is not eligible for this freeze action'') (\<lambda>(target, reason).
      bindA (updateA (update_user (u_id target) (staff_frozen e))) (\<lambda>_.
      bindA (revoke_all_sessions e (u_id target) event (Some ''customer'')) (\<lambda>revoked.
      bindA (try_catch (audit_event_required e event ''success'' (Some (u_id actor)) (customer_action_md e actor target revoked reason) None)
        (\<lambda>err. case err of AuditWriteError _ \<Rightarrow> bindA rollbackA (\<lambda>_. raise err) | _ \<Rightarrow> raise err)) (\<lambda>_.
      bindA commitA (\<lambda>_.
      bindA (send_staff_freeze_notification e target) (\<lambda>_. ret revoked)))))))"

subsection \<open>Frames\<close>

lemma preserves_audited_read [preserves_rules]: "keeps_audit e P \<Longrightarrow> preserves (both P) (audited_read e a t md)"
  unfolding audited_read_def by (intro preserves_rules)

lemma preserves_conditional_move:
  "keeps_audit e P \<Longrightarrow> preserves (both P) (updateA (update (upd_where hit f))) \<Longrightarrow> preserves (both P) (conditional_move e a t md ok rows update hit f m)"
  unfolding conditional_move_def by (intro preserves_rules)

lemma preserves_desk_moves [preserves_rules]:
  assumes "money_only P"
  shows "preserves (both P) (transition_dispute_status_for_staff e a i st n)" "preserves (both P) (transition_support_ticket_status_for_staff e a i st n)"
proof -
  have d: "preserves (both P) (updateA (disputes_update f))" "preserves (both P) (updateA (support_tickets_update g))" for f g
    by (rule preserves_money_update; simp add: assms money_view_def)+
  show "preserves (both P) (transition_dispute_status_for_staff e a i st n)" "preserves (both P) (transition_support_ticket_status_for_staff e a i st n)"
    unfolding transition_dispute_status_for_staff_def transition_support_ticket_status_for_staff_def transaction_dispute_or_404_def
      support_ticket_or_404_def apply_dispute_status_def apply_ticket_status_def
    by (intro preserves_rules preserves_conditional_move d assms money_frees)+
qed

lemma preserves_freeze_notification [preserves_rules]: "keeps_audit e P \<Longrightarrow> preserves (both P) (send_staff_freeze_notification e u)"
  unfolding send_staff_freeze_notification_def Let_def by (intro preserves_rules)

lemma preserves_admit_customer_action [preserves_rules]:
  "login_free P \<Longrightarrow> preserves (both P) (admit_customer_action e a i r c t p m)"
  unfolding admit_customer_action_def by (intro preserves_rules login_freeD)

lemma preserves_staff_freezes [preserves_rules]:
  assumes "money_only P"
  shows "preserves (both P) (freeze_customer_as_staff e a i r c)" "preserves (both P) (unfreeze_customer_as_staff e a i r c)"
proof -
  have u: "preserves (both P) (updateA (update_user i (staff_frozen e)))" "preserves (both P) (updateA (update_user i (\<lambda>u. u\<lparr>u_is_frozen := False\<rparr>)))" for i
    by (rule preserves_money_update; simp add: assms money_view_def update_users_def upd_where_def staff_frozen_def money_user_def comp_def)+
  show "preserves (both P) (freeze_customer_as_staff e a i r c)" "preserves (both P) (unfreeze_customer_as_staff e a i r c)"
    unfolding freeze_customer_as_staff_def unfreeze_customer_as_staff_def Let_def by (intro preserves_rules u assms money_frees)+
qed

subsection \<open>Reviewers who work on one queue\<close>

text \<open>
  What the two queues share: a table whose rows have a key and a status, a table of moves that leads on and never back, and a review that is
  the conditional move on the row as it was read, which may be long out of date.
\<close>

locale review_queue =
  fixes rows :: "database \<Rightarrow> 'r list" and update :: "('r list \<Rightarrow> 'r list) \<Rightarrow> database \<Rightarrow> database"
    and key :: "'r \<Rightarrow> int" and status :: "'r \<Rightarrow> string" and moves :: "string \<Rightarrow> string list" and rank :: "string \<Rightarrow> nat"
    and decide :: "env \<Rightarrow> user \<Rightarrow> 'r \<Rightarrow> string \<Rightarrow> string option \<Rightarrow> 'r \<Rightarrow> 'r"
    and event :: string and md :: "env \<Rightarrow> 'r \<Rightarrow> string \<Rightarrow> (string \<times> json) list" and message :: string
    and review :: "env \<Rightarrow> user \<Rightarrow> 'r \<Rightarrow> string \<Rightarrow> string option \<Rightarrow> 'r request"
  assumes rows_update: "rows (update g db) = g (rows db)" and rows_audit: "rows (add_audit ev db) = rows db"
    and key_decide: "key (decide e a d st n x) = key x" and status_decide: "status (decide e a d st n x) = st"
    and onward: "st' \<in> set (moves st) \<Longrightarrow> rank st < rank st'"
    and moves_trans: "st' \<in> set (moves st) \<Longrightarrow> st'' \<in> set (moves st') \<Longrightarrow> st'' \<in> set (moves st)"
    and review_is: "review e a d st n = bindA (conditional_move e a event (md e d st) (st \<in> set (moves (status d))) rows update
      (\<lambda>x. key x = key d \<and> status x = status d) (decide e a d st n) message) (\<lambda>_. ret (decide e a d st n d))"
begin

definition followed :: "'r \<Rightarrow> 'r \<Rightarrow> bool" where
  "followed q r \<longleftrightarrow> key r = key q \<and> (status r = status q \<or> status r \<in> set (moves (status q)))"

definition reviewed :: "env \<times> user \<times> 'r \<times> string \<times> string option \<Rightarrow> 'r request" where
  "reviewed = (\<lambda>(e, a, d, st, n). served (review e a d st n))"

definition seen :: "env \<times> user \<times> 'r \<times> string \<times> string option \<Rightarrow> int \<times> string" where
  "seen = (\<lambda>(e, a, d, st, n). (key d, status d))"

lemma kept_rows:
  assumes "preserves (both (\<lambda>db. rows db = rs)) m" and "m s = (x, t)" and "rows (committed s) = rs" "rows (working s) = rs"
  shows "rows (committed t) = rs"
  using preservesD' [OF assms(1,2)] assms(3,4) by (simp add: both_def)

lemma rows_keep_audit: "keeps_audit e (\<lambda>db. rows db = rs)"
  by (rule keeps_auditI) (simp add: rows_audit)

lemma review_cases:
  assumes run: "review e a d st n s = (x, t)" and s: "working s = committed s"
  obtains "isl x" "rows (committed t) = rows (committed s)"
  | "st \<in> set (moves (status d))" "length (filter (\<lambda>x. key x = key d \<and> status x = status d) (rows (committed s))) = 1"
    "rows (committed t) = upd_where (\<lambda>x. key x = key d \<and> status x = status d) (decide e a d st n) (rows (committed s))"
proof -
  let ?hit = "\<lambda>x. key x = key d \<and> status x = status d" and ?rs = "rows (committed s)"
  let ?w = "update (upd_where ?hit (decide e a d st n)) (working s)"
  let ?ok = "st \<in> set (moves (status d))" and ?one = "length (filter ?hit ?rs) = 1"
  have block: "rows (committed t') = ?rs \<and> isl y"
    if "staff_block e (Some a) event ''blocked'' m msg c s' = (y, t')" "rows (committed s') = ?rs" "rows (working s') = ?rs" for m msg c s' t' and y :: "py_error + unit"
    using kept_rows [OF preserves_staff_block [OF rows_keep_audit] that] that(1) by (cases y) (auto simp: raises_not_Inr [OF raises_staff_block])
  obtain y t' where c: "conditional_move e a event (md e d st) ?ok rows update ?hit (decide e a d st n) message s = (y, t')" by fastforce
  have t: "t = t'" "isl x = isl y" using run c by (auto simp: review_is bindA_def split: sum.splits)
  consider "\<not> ?ok" | "?ok" "\<not> ?one" | "?ok" "?one" by blast
  then show ?thesis
  proof cases
    case 1
    then have "rows (committed t') = ?rs \<and> isl y" using block c s by (simp add: conditional_move_def)
    then show ?thesis using that(1) t by simp
  next
    case 2
    then have "rows (committed t') = ?rs \<and> isl y"
      using block [of _ _ _ "s\<lparr>working := committed s\<rparr>"] c s by (simp add: conditional_move_def)
    then show ?thesis using that(1) t by simp
  next
    case 3
    with c s have r: "audited_read e a event (md e d st) (s\<lparr>working := ?w\<rparr>) = (y, t')" by (simp add: conditional_move_def)
    have "rows (committed t') = upd_where ?hit (decide e a d st n) ?rs \<or> isl y \<and> rows (committed t') = ?rs"
    proof (cases rule: audit_event_required_cases [of e event "''success''" "Some (u_id a)" "md e d st" None "s\<lparr>working := ?w\<rparr>"])
      case (1 ev)
      let ?s = "s\<lparr>working := add_audit ev ?w\<rparr>"
      from 1 r have m: "try_catch (\<lambda>_. commitA ?s) (\<lambda>err. case err of AuditWriteError _ \<Rightarrow> bindA rollbackA (\<lambda>_. raise err) | _ \<Rightarrow> raise err) ?s = (y, t')"
        by (simp add: audited_read_def try_catch_def)
      show ?thesis
        using m s by (cases rule: commitA_cases [of ?s]) (auto simp: try_catch_def rows_update rows_audit bindA_def split: py_error.splits)
    next
      case (2 msg)
      with r show ?thesis by (auto simp: audited_read_def try_catch_def)
    qed
    then show ?thesis using that 3 t by auto
  qed
qed

lemma review_follows:
  assumes "review e a d st n s = (x, t)" and "working s = committed s"
  shows "list_all2 followed (rows (committed s)) (rows (committed t))"
  using assms
proof (cases rule: review_cases)
  case 1
  then show ?thesis by (simp add: list_all2_refl followed_def)
next
  case 2
  then show ?thesis by (simp add: upd_where_def list_all2_map2 followed_def key_decide status_decide list_all2_same)
qed

lemma followed_trans: "followed p q \<Longrightarrow> followed q r \<Longrightarrow> followed p r"
  using moves_trans unfolding followed_def by metis

lemma reviewed_step:
  assumes "reviewed q s = (x, t)" and "working s = committed s"
  shows "working t = committed t" "list_all2 followed (rows (committed s)) (rows (committed t))"
  using assms review_follows by (auto simp: reviewed_def served_eq split: prod.splits)

lemma run_follows:
  assumes "working s = committed s"
  shows "list_all2 followed (rows (committed s)) (rows (committed (snd (run_all reviewed qs s))))"
  using assms
proof (induction qs arbitrary: s)
  case Nil
  then show ?case by (simp add: list_all2_refl followed_def)
next
  case (Cons q qs)
  obtain x t where t: "reviewed q s = (x, t)" by fastforce
  note step = reviewed_step [OF t Cons.prems]
  show ?case using list_all2_trans [OF followed_trans step(2) Cons.IH [OF step(1)]] t by (simp add: case_prod_beta)
qed

text \<open>The rows with key \<open>i\<close> have gone on from the status \<open>st\<close>.\<close>

definition passed :: "int \<times> string \<Rightarrow> world \<Rightarrow> bool" where
  "passed k s \<longleftrightarrow> working s = committed s \<and> (\<forall>r \<in> set (rows (committed s)). key r = fst k \<longrightarrow> rank (snd k) < rank (status r))"

lemma passed_stays:
  assumes "passed k s"
  shows "passed k (snd (reviewed q s))"
proof -
  obtain x t where t: "reviewed q s = (x, t)" by fastforce
  from assms have s: "working s = committed s" by (simp add: passed_def)
  note step = reviewed_step [OF t s]
  have "rank (snd k) < rank (status r)" if r: "r \<in> set (rows (committed t))" "key r = fst k" for r
  proof -
    obtain i where i: "i < length (rows (committed t))" "r = rows (committed t) ! i" using r(1) by (auto simp: in_set_conv_nth)
    then have "rows (committed s) ! i \<in> set (rows (committed s))" "followed (rows (committed s) ! i) r"
      using list_all2_lengthD [OF step(2)] list_all2_nthD2 [OF step(2) i(1)] by auto
    with assms r(2) onward show ?thesis by (fastforce simp: passed_def followed_def)
  qed
  with step t show ?thesis by (simp add: passed_def)
qed

lemma one_hit:
  assumes "length (filter p xs) = 1"
  obtains r where "r \<in> set xs" "p r"
proof -
  have "filter p xs \<noteq> []" using assms by auto
  then show ?thesis using that by (auto simp: filter_empty_conv)
qed

lemma passed_refused: "passed (seen q) s \<Longrightarrow> isl (fst (reviewed q s))"
proof -
  assume p: "passed (seen q) s"
  obtain e a d st n where q: "q = (e, a, d, st, n)" by (cases q)
  obtain x t where t: "review e a d st n s = (x, t)" by fastforce
  have "working s = committed s" using p by (simp add: passed_def)
  with t have "isl x"
  proof (cases rule: review_cases)
    case 2
    obtain r where "r \<in> set (rows (committed s))" "key r = key d \<and> status r = status d" by (rule one_hit [OF 2(2)])
    with p q show ?thesis by (auto simp: passed_def seen_def)
  qed
  with q t show ?thesis by (simp add: reviewed_def served_def)
qed

lemma reviewed_passes:
  assumes "reviewed q s = (Inr x, t)" and s: "working s = committed s" and "distinct (map key (rows (committed s)))"
  shows "passed (seen q) t"
proof -
  obtain e a d st n where q: "q = (e, a, d, st, n)" by (cases q)
  from assms(1) obtain t' where t': "review e a d st n s = (Inr x, t')" "t = t'\<lparr>working := committed t'\<rparr>"
    by (auto simp: q reviewed_def served_eq)
  from t'(1) s show ?thesis
  proof (cases rule: review_cases)
    case 2
    have one: "key r = key d \<Longrightarrow> status r = status d" if "r \<in> set (rows (committed s))" for r
    proof -
      obtain r0 where "r0 \<in> set (rows (committed s))" "key r0 = key d \<and> status r0 = status d" by (rule one_hit [OF 2(2)])
      with that assms(3) show "key r = key d \<Longrightarrow> status r = status d" by (metis distinct_map inj_onD)
    qed
    then show ?thesis using 2 t'(2) onward by (auto simp: passed_def seen_def q set_upd_where key_decide status_decide)
  qed simp
qed

lemma one_reviewer:
  assumes "working s = committed s" and "distinct (map key (rows (committed s)))"
  shows "successes seen k qs (fst (run_all reviewed qs s)) \<le> 1"
  using assms
proof (induction qs arbitrary: s)
  case (Cons q qs)
  obtain x t where t: "reviewed q s = (x, t)" by fastforce
  note step = reviewed_step [OF t Cons.prems(1)]
  have "map key (rows (committed t)) = map key (rows (committed s))"
    using step(2) by (induction rule: list_all2_induct) (auto simp: followed_def)
  then have ih: "successes seen k qs (fst (run_all reviewed qs t)) \<le> 1" using Cons step(1) by simp
  have "successes seen k qs (fst (run_all reviewed qs t)) = 0" if "\<not> isl x" "seen q = k"
  proof -
    have "passed k t" using that reviewed_passes [OF _ Cons.prems, of q _ t] t by (cases x) auto
    then show ?thesis
    proof (induction qs arbitrary: t)
      case (Cons r qs)
      then show ?case using passed_stays [of k t r] passed_refused [of r t]
        by (cases "reviewed r t") (auto simp: case_prod_beta)
    qed simp
  qed
  with ih t show ?case by (auto simp: case_prod_beta)
qed simp

end

definition review_rank :: "string \<Rightarrow> nat" where
  "review_rank st = (if st = ''open'' then 0 else if st \<in> {''under_review'', ''in_review''} then 1 else 2)"

interpretation dispute_queue: review_queue disputes disputes_update di_id di_status dispute_status_transitions review_rank decided_dispute
  "''transaction_dispute_status_change''" dispute_move_md "''Dispute was already updated by another reviewer''" apply_dispute_status
  by unfold_locales (auto simp: decided_dispute_def dispute_status_transitions_def review_rank_def apply_dispute_status_def split: if_splits)

interpretation ticket_queue: review_queue support_tickets support_tickets_update tk_id tk_status support_ticket_status_transitions review_rank decided_ticket
  "''support_ticket_status_change''" ticket_move_md "''Support ticket was already updated by another reviewer''" apply_ticket_status
  by unfold_locales (auto simp: decided_ticket_def support_ticket_status_transitions_def review_rank_def apply_ticket_status_def split: if_splits)

text \<open>A review request with the row its reviewer has read, and what the reviewer saw.\<close>

definition review_dispute :: "env \<times> user \<times> dispute \<times> string \<times> string option \<Rightarrow> dispute request" where
  "review_dispute = (\<lambda>(e, actor, d, st, note). served (apply_dispute_status e actor d st note))"

definition review_ticket :: "env \<times> user \<times> support_ticket \<times> string \<times> string option \<Rightarrow> support_ticket request" where
  "review_ticket = (\<lambda>(e, actor, k, st, note). served (apply_ticket_status e actor k st note))"

definition seen_dispute :: "env \<times> user \<times> dispute \<times> string \<times> string option \<Rightarrow> int \<times> string" where
  "seen_dispute = (\<lambda>(e, actor, d, st, note). (di_id d, di_status d))"

definition seen_ticket :: "env \<times> user \<times> support_ticket \<times> string \<times> string option \<Rightarrow> int \<times> string" where
  "seen_ticket = (\<lambda>(e, actor, k, st, note). (tk_id k, tk_status k))"

lemma review_defs: "review_dispute = dispute_queue.reviewed" "seen_dispute = dispute_queue.seen"
  "review_ticket = ticket_queue.reviewed" "seen_ticket = ticket_queue.seen"
  by (simp_all add: review_dispute_def review_ticket_def seen_dispute_def seen_ticket_def dispute_queue.reviewed_def dispute_queue.seen_def
      ticket_queue.reviewed_def ticket_queue.seen_def)

text \<open>
  C35. Reviewers cannot overrule each other. Whoever works on the disputes, in any order and each with a row that was read at any time before,
  of those who saw a dispute in one status at most one changes it, and no dispute ever makes a move that is not in the table of transitions: a
  resolved or rejected dispute stays so.
\<close>

theorem dispute_reviews:
  assumes "working s = committed s" and "distinct (map di_id (disputes (committed s)))"
  shows "successes seen_dispute k qs (fst (run_all review_dispute qs s)) \<le> 1
    \<and> list_all2 (\<lambda>q r. di_id r = di_id q \<and> (di_status r = di_status q \<or> di_status r \<in> set (dispute_status_transitions (di_status q))))
        (disputes (committed s)) (disputes (committed (snd (run_all review_dispute qs s))))"
  using dispute_queue.one_reviewer [OF assms, of k qs] dispute_queue.run_follows [OF assms(1), of qs]
  by (simp add: review_defs dispute_queue.followed_def [abs_def])

text \<open>The same of support tickets.\<close>

theorem ticket_reviews:
  assumes "working s = committed s" and "distinct (map tk_id (support_tickets (committed s)))"
  shows "successes seen_ticket k qs (fst (run_all review_ticket qs s)) \<le> 1
    \<and> list_all2 (\<lambda>q r. tk_id r = tk_id q \<and> (tk_status r = tk_status q \<or> tk_status r \<in> set (support_ticket_status_transitions (tk_status q))))
        (support_tickets (committed s)) (support_tickets (committed (snd (run_all review_ticket qs s))))"
  using ticket_queue.one_reviewer [OF assms, of k qs] ticket_queue.run_follows [OF assms(1), of qs]
  by (simp add: review_defs ticket_queue.followed_def [abs_def])

subsection \<open>What a freeze by staff has checked and done\<close>

text \<open>The target is not known to be the customer account of the actor.\<close>

definition separate_person :: "user \<Rightarrow> user \<Rightarrow> database \<Rightarrow> bool" where
  "separate_person actor target db \<longleftrightarrow>
     set (map pl_id (filter (\<lambda>l. pl_staff_user_id l = u_id actor \<and> pl_customer_user_id l = u_id target \<and> pl_revoked_at l = None) (person_links db))) \<subseteq> {0}
     \<and> (normalize_text (u_email target) = [] \<or> (normalize_text (u_email target) \<noteq> normalize_text (u_email actor)
        \<and> normalize_text (u_email target) \<noteq> normalize_text (or_default (u_staff_personal_email actor) [])))"

lemma customer_for_update_spec:
  assumes "customer_for_update e i actor ev p m s = (Inr u, t)"
  shows "user_by_id (working s) i = Some u" "p u" "t = s"
  using assms by (auto simp: customer_for_update_def customer_block_def raises_not_Inr [OF raises_staff_block] split: option.splits if_splits)

lemma role_guard_spec:
  "require_plain_staff e actor ev s = (Inr x, t) \<Longrightarrow> is_plain_staff_user (Some actor) \<and> t = s"
  "require_manual_recovery_reason e reason ev actor s = (Inr r, t) \<Longrightarrow> r = py_strip reason \<and> r \<noteq> [] \<and> length r \<le> 512 \<and> t = s"
  by (auto simp: require_plain_staff_def require_manual_recovery_reason_def Let_def raises_not_Inr [OF raises_staff_block] split: if_splits)

lemma scalar_spec: "scalar_one_or_none rows s = (Inr r, t) \<Longrightarrow> t = s \<and> set rows = set_option r"
  by (auto simp: scalar_one_or_none_def split: list.splits)

lemma separation_spec:
  assumes "assert_not_self_customer_action e actor target ev s = (Inr x, t)"
  shows "t = s \<and> separate_person actor target (working s)"
proof -
  let ?ids = "map pl_id (filter (\<lambda>l. pl_staff_user_id l = u_id actor \<and> pl_customer_user_id l = u_id target \<and> pl_revoked_at l = None) (person_links (working s)))"
  from assms obtain r where "scalar_one_or_none ?ids s = (Inr r, t)" "\<forall>i. r = Some i \<longrightarrow> i = 0"
      "normalize_text (u_email target) = [] \<or> (normalize_text (u_email target) \<noteq> normalize_text (u_email actor)
        \<and> normalize_text (u_email target) \<noteq> normalize_text (or_default (u_staff_personal_email actor) []))"
    by (auto simp: assert_not_self_customer_action_def has_active_identity_link_def bindA_eq_Inr Let_def
        raises_not_Inr [OF raises_separation_block] split: if_splits option.splits)
  with scalar_spec [of ?ids s r t] show ?thesis unfolding separate_person_def by (cases r) auto
qed

lemma admit_customer_spec:
  assumes "admit_customer_action e actor i reason code ev p m s = (Inr (u, r), t)"
  shows "is_plain_staff_user (Some actor)" "r = py_strip reason" "r \<noteq> []" "user_by_id (working s) i = Some u" "p u"
    "separate_person actor u (working s)" "verify_admin_totp_step_up e actor code ev s = (Inr True, t)"
proof -
  from assms obtain s1 s2 s3 s4 where "require_plain_staff e actor ev s = (Inr (), s1)" "require_manual_recovery_reason e reason ev actor s1 = (Inr r, s2)"
      "customer_for_update e i actor ev p m s2 = (Inr u, s3)" "assert_not_self_customer_action e actor u ev s3 = (Inr (), s4)"
      "verify_admin_totp_step_up e actor code ev s4 = (Inr True, t)"
    by (auto simp: admit_customer_action_def bindA_eq_Inr customer_block_def raises_not_Inr [OF raises_staff_block] split: if_splits)
  then show "is_plain_staff_user (Some actor)" "r = py_strip reason" "r \<noteq> []" "user_by_id (working s) i = Some u" "p u"
    "separate_person actor u (working s)" "verify_admin_totp_step_up e actor code ev s = (Inr True, t)"
    using role_guard_spec customer_for_update_spec separation_spec by metis+
qed

definition customer_at :: "int \<Rightarrow> database \<Rightarrow> bool" where
  "customer_at i db \<longleftrightarrow> (\<exists>v. user_by_id db i = Some v \<and> u_account_type v = ''customer'')"

lemma customer_at_account_part: "map account_part us = map account_part (users db) \<Longrightarrow> customer_at i (db\<lparr>users := us\<rparr>) = customer_at i db"
proof -
  assume m: "map account_part us = map account_part (users db)"
  have f: "map_option account_part (find (\<lambda>u. u_id u = i) xs) = find (\<lambda>u. u_id u = i) (map account_part xs)" for xs
    by (induction xs) (simp_all add: account_part_def)
  have "map_option account_part (user_by_id (db\<lparr>users := us\<rparr>) i) = map_option account_part (user_by_id db i)"
    using f [of us] f [of "users db"] m by (simp add: user_by_id_def)
  moreover have "u_account_type u = u_account_type (account_part u)" for u by (simp add: account_part_def)
  ultimately show ?thesis unfolding customer_at_def by (cases "user_by_id (db\<lparr>users := us\<rparr>) i"; cases "user_by_id db i") (simp_all, metis)
qed

lemma customer_at_free: "login_free (customer_at i)"
  by (auto simp: login_free_def auth_free_def sessions_free_def counters_free_def auth_users_free_def replays_free_def recovery_free_def
      customer_at_account_part add_replay_record_def intro!: keeps_auditI) (auto simp: customer_at_def user_by_id_def)

definition frozen_by_staff :: "env \<Rightarrow> int \<Rightarrow> database \<Rightarrow> bool" where
  "frozen_by_staff e i db \<longleftrightarrow>
     (\<exists>v. user_by_id db i = Some v \<and> u_is_frozen v \<and> u_security_lock_reason v = Some staff_fraud_freeze_reason \<and> reviewable_lock v)
     \<and> (\<forall>r \<in> set (server_sessions db). \<not> active_session e i (component_of e (Some ''customer'')) r)"

lemma frozen_keeps_audit: "keeps_audit e' (frozen_by_staff e i)"
  by (rule keeps_auditI) (simp add: frozen_by_staff_def user_by_id_def)

lemma freeze_done:
  assumes run: "freeze_customer_as_staff e actor i reason code s = (Inr n, t)" and s: "working s = committed s"
  shows "\<exists>u s1. user_by_id (committed s) i = Some u \<and> is_freezable_customer u \<and> is_plain_staff_user (Some actor) \<and> py_strip reason \<noteq> []
    \<and> separate_person actor u (committed s)
    \<and> verify_admin_totp_step_up e actor code ''customer_freeze_as_staff'' s = (Inr True, s1)" and "both (frozen_by_staff e i) t"
proof -
  let ?ev = "''customer_freeze_as_staff''"
  let ?d = "\<lambda>s. s\<lparr>working := update_user i (staff_frozen e) (working s)\<rparr>"
  from run obtain u r s1 s2 s3 s4 where
      ad: "admit_customer_action e actor i reason code ?ev is_freezable_customer ''Customer account is not eligible for this freeze action'' s = (Inr (u, r), s1)"
      and rev: "revoke_all_sessions e (u_id u) ?ev (Some ''customer'') (s1\<lparr>working := update_user (u_id u) (staff_frozen e) (working s1)\<rparr>) = (Inr n, s2)"
      and au: "try_catch (audit_event_required e ?ev ''success'' (Some (u_id actor)) (customer_action_md e actor u n r) None)
        (\<lambda>err. case err of AuditWriteError _ \<Rightarrow> bindA rollbackA (\<lambda>_. raise err) | _ \<Rightarrow> raise err) s2 = (Inr (), s3)"
      and c: "commitA s3 = (Inr (), s4)" and nt: "send_staff_freeze_notification e u s4 = (Inr (), t)"
    by (auto simp: freeze_customer_as_staff_def Let_def bindA_eq_Inr)
  note a = admit_customer_spec [OF ad]
  have i: "u_id u = i" using user_by_id_member [OF a(4)] by simp
  from a s show "\<exists>u s1. user_by_id (committed s) i = Some u \<and> is_freezable_customer u \<and> is_plain_staff_user (Some actor) \<and> py_strip reason \<noteq> []
    \<and> separate_person actor u (committed s) \<and> verify_admin_totp_step_up e actor code ?ev s = (Inr True, s1)" by metis
  have "both (customer_at i) s" using a(4,5) s by (auto simp: both_def customer_at_def is_freezable_customer_def)
  then have "both (customer_at i) s1" using preservesD' [OF preserves_staff_step_up [OF customer_at_free] a(7)] by blast
  then obtain v where v: "user_by_id (working s1) i = Some v" "u_account_type v = ''customer''" by (auto simp: both_def customer_at_def)
  have us: "users (working s2) = users (update_user i (staff_frozen e) (working s1))"
    using rev i by (auto simp: revoke_all_eq Let_def end_session_rows_def expire_stale_sessions_def update_session_where_def)
  have "user_by_id (update_user i (staff_frozen e) (working s1)) i = Some (staff_frozen e v)"
    using v(1) user_by_id_member [OF v(1)] by (simp add: user_by_id_update_users staff_frozen_def)
  then have "frozen_by_staff e i (working s2)"
    using revoke_all_leaves_none [OF rev] i v(2) us
    by (auto simp: frozen_by_staff_def user_by_id_def staff_frozen_def reviewable_lock_def staff_fraud_freeze_reason_def root_admin_reviewable_lock_reasons_def)
  moreover obtain ev where "working s3 = add_audit ev (working s2)"
    using au by (cases rule: audit_event_required_cases [of e ?ev "''success''" "Some (u_id actor)" "customer_action_md e actor u n r" None s2])
      (auto simp: try_catch_def bindA_def)
  ultimately have "both (frozen_by_staff e i) s4" using commit_published [OF c] by (auto simp: both_def frozen_by_staff_def user_by_id_def)
  then show "both (frozen_by_staff e i) t" using preservesD' [OF preserves_freeze_notification [OF frozen_keeps_audit] nt] by blast
qed

lemma no_self_release:
  assumes "both (frozen_by_staff e i) s"
  shows "isl (fst (unfreeze_customer_as_staff e' actor i reason code s))"
proof (rule ccontr)
  assume "\<not> isl (fst (unfreeze_customer_as_staff e' actor i reason code s))"
  then obtain n t where "unfreeze_customer_as_staff e' actor i reason code s = (Inr n, t)"
    by (cases "unfreeze_customer_as_staff e' actor i reason code s"; cases "fst (unfreeze_customer_as_staff e' actor i reason code s)") auto
  then obtain u r s1 where "admit_customer_action e' actor i reason code ''customer_self_freeze_unlock'' is_voluntary_customer_self_freeze
      ''Customer account is not eligible for this unfreeze action'' s = (Inr (u, r), s1)"
    by (auto simp: unfreeze_customer_as_staff_def Let_def bindA_eq_Inr)
  from admit_customer_spec(4,5) [OF this] assms show False
    by (auto simp: both_def frozen_by_staff_def is_voluntary_customer_self_freeze_def)
qed

text \<open>
  C36. Freezing a customer. When \<^verbatim>\<open>freeze_customer_as_staff\<close> returns, the actor is plain bank staff, gave a reason and an accepted authenticator
  code, and acts on an active customer who is not known to be the same person; afterwards the customer is frozen with the reason
  \<open>staff_fraud_freeze\<close>, waits in the queue that root administrators review, and has no active customer session; and no member of staff can lift the
  freeze with \<^verbatim>\<open>unfreeze_customer_as_staff\<close>, the action for customers who froze themselves.
\<close>

theorem staff_freeze_effect:
  assumes "freeze_customer_as_staff e actor i reason code s = (Inr n, t)" and "working s = committed s"
  shows "(\<exists>u s1. user_by_id (committed s) i = Some u \<and> is_freezable_customer u \<and> is_plain_staff_user (Some actor) \<and> py_strip reason \<noteq> []
      \<and> separate_person actor u (committed s) \<and> verify_admin_totp_step_up e actor code ''customer_freeze_as_staff'' s = (Inr True, s1))
    \<and> both (frozen_by_staff e i) t
    \<and> isl (fst (unfreeze_customer_as_staff e' actor' i reason' code' t))"
  using freeze_done [OF assms] no_self_release by blast

subsection \<open>Examples\<close>

definition clerk :: user where "clerk = officer code_user ''staff'' ''clerk@sit.example''"

definition desk_db :: database where "desk_db = empty_db\<lparr>users := [clerk, bob]\<rparr>"

lemma desk_people [simp]: "u_id clerk = 1" "u_id bob = 2" "user_by_id desk_db 2 = Some bob" "totp_replays desk_db = []"
  by (simp_all add: clerk_def officer_def bob_def sample_user_def desk_db_def user_by_id_def empty_db_def)

lemma storable_desk: "storable desk_db" "storable (update_user 2 (staff_frozen office_env) desk_db)"
proof -
  have "storable (empty_db\<lparr>users := [officer (alice\<lparr>u_mfa_secret_nonce := x, u_mfa_secret_ciphertext := y\<rparr>) ''staff'' ''clerk@sit.example'', bob]\<rparr>)"
      "storable (update_user 2 (staff_frozen office_env) (empty_db\<lparr>users := [officer (alice\<lparr>u_mfa_secret_nonce := x, u_mfa_secret_ciphertext := y\<rparr>) ''staff'' ''clerk@sit.example'', bob]\<rparr>))"
    for x y by code_simp+
  then show "storable desk_db" "storable (update_user 2 (staff_frozen office_env) desk_db)" by (simp_all add: desk_db_def clerk_def code_user_def)
qed

lemma admit_clerk:
  "\<exists>s1 sc st d ttl. admit_customer_action office_env clerk 2 ''fraud'' (Some ''000042'') ''customer_freeze_as_staff'' is_freezable_customer m (fresh_world desk_db)
      = (Inr (bob, ''fraud''), s1) \<and> working s1 = add_replay_record office_env 1 sc st d ttl desk_db"
proof -
  have k: "u_mfa_secret_nonce clerk = Some envelope_nonce_marker" "u_mfa_secret_ciphertext clerk = Some ''envelope''"
    by (simp_all add: clerk_def officer_def code_user_def)
  have "auth_counters desk_db = []" by (simp add: desk_db_def empty_db_def)
  with officer_accepted [OF k, of "fresh_world desk_db" "''customer_freeze_as_staff''"] storable_desk(1)
  obtain s1 sc st d ttl where s1: "verify_admin_totp_step_up office_env clerk (Some ''000042'') ''customer_freeze_as_staff'' (fresh_world desk_db) = (Inr True, s1)"
      "working s1 = add_replay_record office_env 1 sc st d ttl desk_db"
    by (auto simp: fresh_world_def)
  have p: "is_plain_staff_user (Some clerk)" "is_freezable_customer bob" "py_strip ''fraud'' = ''fraud''"
    by (simp add: is_plain_staff_user_def account_type_of_def clerk_def officer_def text_or_def, code_simp+)
  have "u_account_type clerk \<in> set staff_account_types" "u_account_type bob = ''customer''" "normalize_text (u_email bob) = ''bob''"
      "normalize_text (u_email clerk) = ''clerk@sit.example''" "u_staff_personal_email clerk = None" "normalize_text [] = []" "person_links desk_db = []"
    by (simp add: staff_account_types_def clerk_def officer_def, code_simp, code_simp, simp add: clerk_def officer_def, code_simp,
        simp add: clerk_def officer_def code_user_def alice_def sample_user_def, code_simp, simp add: desk_db_def empty_db_def)
  moreover from this have "has_active_identity_link 1 2 (fresh_world desk_db) = (Inr False, fresh_world desk_db)"
    by (simp add: has_active_identity_link_def scalar_one_or_none_def fresh_world_def)
  ultimately have "assert_not_self_customer_action office_env clerk bob ''customer_freeze_as_staff'' (fresh_world desk_db) = (Inr (), fresh_world desk_db)"
    by (auto simp: assert_not_self_customer_action_def or_default_def Let_def bindA_eq_Inr)
  with s1 p show ?thesis
    by (auto simp: admit_customer_action_def require_plain_staff_def require_manual_recovery_reason_def customer_for_update_def fresh_world_def)
qed

lemma freeze_example: "\<exists>n t. freeze_customer_as_staff office_env clerk 2 ''fraud'' (Some ''000042'') (fresh_world desk_db) = (Inr n, t)"
proof -
  let ?ev = "''customer_freeze_as_staff''"
  obtain s1 sc st d ttl where s1: "admit_customer_action office_env clerk 2 ''fraud'' (Some ''000042'') ?ev is_freezable_customer
      ''Customer account is not eligible for this freeze action'' (fresh_world desk_db) = (Inr (bob, ''fraud''), s1)"
    "working s1 = add_replay_record office_env 1 sc st d ttl desk_db" using admit_clerk by blast
  let ?s = "s1\<lparr>working := update_user 2 (staff_frozen office_env) (working s1)\<rparr>"
  have rev: "revoke_all_sessions office_env 2 ?ev (Some ''customer'') ?s = (Inr 0, ?s)"
    by (simp add: s1(2) revoke_all_eq Let_def end_session_rows_def expire_stale_sessions_def update_session_where_def update_users_def add_replay_record_def
        desk_db_def empty_db_def)
  obtain ev where ev: "audit_event_required office_env ?ev ''success'' (Some (u_id clerk)) (customer_action_md office_env clerk bob 0 ''fraud'') None ?s =
      (Inr (), ?s\<lparr>working := add_audit ev (working ?s)\<rparr>)"
    using audit_event_required_ready [OF office_env_fields(5)] by blast
  have "totp_replays (update_user 2 (staff_frozen office_env) desk_db) = []" by (simp add: update_users_def)
  moreover have "update_user 2 (staff_frozen office_env) (working s1) = add_replay_record office_env 1 sc st d ttl (update_user 2 (staff_frozen office_env) desk_db)"
    by (simp add: s1(2) add_replay_record_def update_users_def)
  ultimately have "storable (update_user 2 (staff_frozen office_env) (working s1))" using storable_replay storable_desk(2) by simp
  then have c: "commitA (?s\<lparr>working := add_audit ev (working ?s)\<rparr>) = (Inr (), ?s\<lparr>working := add_audit ev (working ?s), committed := add_audit ev (working ?s)\<rparr>)"
    by (simp add: commitA_ok)
  obtain t where "send_staff_freeze_notification office_env bob (?s\<lparr>working := add_audit ev (working ?s), committed := add_audit ev (working ?s)\<rparr>) = (Inr (), t)"
    by (auto simp: send_staff_freeze_notification_def try_catch_def send_security_email_def Let_def office_env_def code_env_def sample_env64_def sample_env_def
        intro: exE [OF audit_event_returns])
  with s1(1) rev ev c show ?thesis by (auto simp: freeze_customer_as_staff_def Let_def try_catch_def)
qed

theorem staff_freeze_effect_witness:
  "\<exists>n t. freeze_customer_as_staff office_env clerk 2 ''fraud'' (Some ''000042'') (fresh_world desk_db) = (Inr n, t)
     \<and> both (frozen_by_staff office_env 2) t \<and> isl (fst (unfreeze_customer_as_staff office_env clerk 2 ''mistake'' (Some ''000042'') t))"
  using freeze_example staff_freeze_effect by (force simp: fresh_world_def)

definition sample_dispute :: dispute where
  "sample_dispute = \<lparr>di_id = 1, di_transaction_id = 1, di_reporter_id = 2, di_issue_type = ''other'', di_reason = ''x'', di_status = ''open'',
     di_resolver_id = None, di_resolution_note = None, di_created_at = 0, di_updated_at = 0, di_decided_at = None\<rparr>"

definition sample_ticket :: support_ticket where
  "sample_ticket = \<lparr>tk_id = 1, tk_user_id = 2, tk_category = ''account_recovery'', tk_subject = ''x'', tk_description = ''y'', tk_status = ''open'',
     tk_resolved_by_user_id = None, tk_resolution_note = None, tk_created_at = 0, tk_updated_at = 0, tk_resolved_at = None\<rparr>"

definition queue_world :: world where
  "queue_world = fresh_world (empty_db\<lparr>disputes := [sample_dispute], support_tickets := [sample_ticket]\<rparr>)"

lemma audited_read_ready:
  assumes "audit_ready e" and "storable (working s)"
  shows "\<exists>t. audited_read e a ev md s = (Inr (), t)"
proof -
  obtain ae where "audit_event_required e ev ''success'' (Some (u_id a)) md None s = (Inr (), s\<lparr>working := add_audit ae (working s)\<rparr>)"
    using audit_event_required_ready [OF assms(1)] by blast
  moreover have "commitA (s\<lparr>working := add_audit ae (working s)\<rparr>) = (Inr (), s\<lparr>working := add_audit ae (working s), committed := add_audit ae (working s)\<rparr>)"
    using assms(2) by (simp add: commitA_ok)
  ultimately show ?thesis by (simp add: audited_read_def try_catch_def)
qed

lemma review_example:
  "\<exists>x t. review_dispute (office_env, clerk, sample_dispute, ''resolved'', None) queue_world = (Inr x, t)"
  "\<exists>x t. review_ticket (office_env, clerk, sample_ticket, ''closed'', None) queue_world = (Inr x, t)"
proof -
  let ?d = "upd_where (\<lambda>x. di_id x = di_id sample_dispute \<and> di_status x = di_status sample_dispute) (decided_dispute office_env clerk sample_dispute ''resolved'' None)"
  let ?k = "upd_where (\<lambda>x. tk_id x = tk_id sample_ticket \<and> tk_status x = tk_status sample_ticket) (decided_ticket office_env clerk sample_ticket ''closed'' None)"
  have st: "storable (disputes_update ?d (working queue_world))" "storable (support_tickets_update ?k (working queue_world))"
    by (simp_all add: queue_world_def fresh_world_def storable_def numerics_ok_def constraints_ok_def empty_db_def decided_dispute_def decided_ticket_def
        sample_dispute_def sample_ticket_def dispute_check_def support_ticket_check_def distinct_some_def List.map_filter_def)
  obtain t where "audited_read office_env clerk ''transaction_dispute_status_change'' (dispute_move_md office_env sample_dispute ''resolved'')
      (queue_world\<lparr>working := disputes_update ?d (working queue_world)\<rparr>) = (Inr (), t)"
    using audited_read_ready [OF office_env_fields(5), of "queue_world\<lparr>working := disputes_update ?d (working queue_world)\<rparr>"] st(1) by fastforce
  moreover have "disputes (working queue_world) = [sample_dispute]" "''resolved'' \<in> set (dispute_status_transitions (di_status sample_dispute))"
    by (simp_all add: queue_world_def fresh_world_def sample_dispute_def dispute_status_transitions_def)
  ultimately show "\<exists>x t. review_dispute (office_env, clerk, sample_dispute, ''resolved'', None) queue_world = (Inr x, t)"
    by (simp add: review_dispute_def served_eq apply_dispute_status_def conditional_move_def bindA_eq_Inr)
  obtain t where "audited_read office_env clerk ''support_ticket_status_change'' (ticket_move_md office_env sample_ticket ''closed'')
      (queue_world\<lparr>working := support_tickets_update ?k (working queue_world)\<rparr>) = (Inr (), t)"
    using audited_read_ready [OF office_env_fields(5), of "queue_world\<lparr>working := support_tickets_update ?k (working queue_world)\<rparr>"] st(2) by fastforce
  moreover have "support_tickets (working queue_world) = [sample_ticket]" "''closed'' \<in> set (support_ticket_status_transitions (tk_status sample_ticket))"
    by (simp_all add: queue_world_def fresh_world_def sample_ticket_def support_ticket_status_transitions_def)
  ultimately show "\<exists>x t. review_ticket (office_env, clerk, sample_ticket, ''closed'', None) queue_world = (Inr x, t)"
    by (simp add: review_ticket_def served_eq apply_ticket_status_def conditional_move_def bindA_eq_Inr)
qed

lemma queue_world_ok: "working queue_world = committed queue_world" "distinct (map di_id (disputes (committed queue_world)))"
  "distinct (map tk_id (support_tickets (committed queue_world)))"
  by (simp_all add: queue_world_def fresh_world_def)

text \<open>Two reviewers have read the same row; the first decides, the second is refused.\<close>

theorem dispute_reviews_witness:
  "successes seen_dispute (1, ''open'') [(office_env, clerk, sample_dispute, ''resolved'', None), (office_env, chief, sample_dispute, ''rejected'', None)]
     (fst (run_all review_dispute [(office_env, clerk, sample_dispute, ''resolved'', None), (office_env, chief, sample_dispute, ''rejected'', None)] queue_world)) = 1"
proof -
  obtain x t where t: "review_dispute (office_env, clerk, sample_dispute, ''resolved'', None) queue_world = (Inr x, t)" using review_example(1) by blast
  have "seen_dispute (office_env, clerk, sample_dispute, ''resolved'', None) = (1, ''open'')" by (simp add: seen_dispute_def sample_dispute_def)
  with dispute_reviews [OF queue_world_ok(1,2), of "(1, ''open'')"
      "[(office_env, clerk, sample_dispute, ''resolved'', None), (office_env, chief, sample_dispute, ''rejected'', None)]"] t
  show ?thesis by (simp add: case_prod_beta)
qed

theorem ticket_reviews_witness:
  "successes seen_ticket (1, ''open'') [(office_env, clerk, sample_ticket, ''closed'', None), (office_env, chief, sample_ticket, ''resolved'', None)]
     (fst (run_all review_ticket [(office_env, clerk, sample_ticket, ''closed'', None), (office_env, chief, sample_ticket, ''resolved'', None)] queue_world)) = 1"
proof -
  obtain x t where t: "review_ticket (office_env, clerk, sample_ticket, ''closed'', None) queue_world = (Inr x, t)" using review_example(2) by blast
  have "seen_ticket (office_env, clerk, sample_ticket, ''closed'', None) = (1, ''open'')" by (simp add: seen_ticket_def sample_ticket_def)
  with ticket_reviews [OF queue_world_ok(1,3), of "(1, ''open'')"
      "[(office_env, clerk, sample_ticket, ''closed'', None), (office_env, chief, sample_ticket, ''resolved'', None)]"] t
  show ?thesis by (simp add: case_prod_beta)
qed

end
