(* ===== verification/Staff_Login.thy ===== *)
theory Staff_Login
  imports Staff_Desk
begin

section \<open>Staff login and own credentials\<close>

text \<open>
  The second application of the system signs staff in with their own functions in \<^verbatim>\<open>app/admin/services.py\<close>: the password step
  (\<open>authenticate_admin_primary\<close>), the authenticator step (\<open>complete_admin_mfa_login\<close>), the logout, and the changes a member of staff makes to
  the own password and authenticator. The provisioning URI and the QR code shown for a new authenticator are not modelled: starting a change
  returns the new secret.
\<close>

definition generic_admin_login_error :: string where
  "generic_admin_login_error = ''Invalid workplace email, password, or authentication code''"

definition invalid_workplace_email_error :: string where
  "invalid_workplace_email_error = ''Invalid workplace email''"

definition admin_auth_backoff_error :: string where
  "admin_auth_backoff_error = ''Too many attempts. Please try again later.''"

subsection \<open>Workplace addresses\<close>

definition contains_alias_separator :: "env \<Rightarrow> string \<Rightarrow> bool" where
  "contains_alias_separator e local =
     (let separators = (if cfg_staff_alias_separators (cfg e) = [] then [''+''] else cfg_staff_alias_separators (cfg e)) in
      list_ex (\<lambda>separator. separator \<noteq> [] \<and> contains separator local) separators)"

definition normalize_workplace_email :: "env \<Rightarrow> string \<Rightarrow> py_error + string" where
  "normalize_workplace_email e email =
     (case require_privileged_workplace_email e email of
        Inl _ \<Rightarrow> Inl (auth_error invalid_workplace_email_error 400)
      | Inr normalized \<Rightarrow>
          if contains_alias_separator e (fst (partition_on (CHR ''@'') normalized)) then Inl (auth_error invalid_workplace_email_error 400)
          else Inr normalized)"

definition admin_normalize_email :: "string \<Rightarrow> string request" where
  "admin_normalize_email email =
     (let txt = py_strip email in
      if list_ex (\<lambda>c. of_char c \<in> {0, 10, 13 :: nat}) txt \<or> 255 < length txt then raise (auth_error ''Invalid email'' 400)
      else ret (normalize_email_text email))"

definition admin_auth_principal :: "env \<Rightarrow> string \<Rightarrow> string request" where
  "admin_auth_principal e identifier =
     bindA (admin_normalize_email identifier) (\<lambda>normalized.
     ret (text_or (req_remote_addr e) ''unknown'' @ '':'' @ py_casefold normalized))"

definition admin_mfa_failure_principal :: "env \<Rightarrow> int \<Rightarrow> string" where
  "admin_mfa_failure_principal e uid =
     py_casefold (py_strip (text_or (req_remote_addr e) ''unknown'')) @ '':staff-user:'' @ int_str uid"

definition admin_enforce_auth_backoff :: "env \<Rightarrow> string \<Rightarrow> string \<Rightarrow> unit request" where
  "admin_enforce_auth_backoff e scope prin =
     try_catch (apply_exponential_backoff e scope prin)
       (\<lambda>err. case err of
          AuthBackoffRequired retry_after \<Rightarrow>
            bindA (audit_event e ''auth_backoff'' ''blocked'' None [(''scope'', JStr scope), (''retry_after'', JInt retry_after)] None) (\<lambda>_.
            raise (AuthError admin_auth_backoff_error 429 (Some retry_after)))
        | _ \<Rightarrow> raise err)"

definition staff_workplace_match :: "string \<Rightarrow> user \<Rightarrow> bool" where
  "staff_workplace_match email u \<longleftrightarrow> py_casefold (u_email u) = py_casefold email \<and> u_account_type u \<in> set staff_account_types"

definition staff_user_by_workplace_email :: "string \<Rightarrow> user option request" where
  "staff_user_by_workplace_email email = bindA (queryA (\<lambda>db. filter (staff_workplace_match email) (users db))) scalar_one_or_none"

subsection \<open>The password step\<close>

text \<open>
  \<^verbatim>\<open>_normalize_admin_login_email\<close>: an address that is not a workplace address costs as much as a wrong password. The check against the dummy
  hash has no effect but its running time and is left out.
\<close>

definition normalize_admin_login_email :: "env \<Rightarrow> string \<Rightarrow> string request" where
  "normalize_admin_login_email e workplace_email =
     (case normalize_workplace_email e workplace_email of
        Inr normalized \<Rightarrow> ret normalized
      | Inl _ \<Rightarrow>
          bindA (admin_normalize_email workplace_email) (\<lambda>normalized_email.
          bindA (admin_auth_principal e normalized_email) (\<lambda>prin.
          bindA (admin_enforce_auth_backoff e ''admin_login'' prin) (\<lambda>_.
          bindA (audit_event e ''admin_login'' ''failure'' None
            [(''known_user'', JBool False), (''reason'', JStr ''invalid_workplace_email''),
             (''principal_ref'', opt_json JStr (principal_reference e normalized_email))] None) (\<lambda>_.
          bindA (record_failure e ''admin_login'' prin None) (\<lambda>_.
          raise (auth_error generic_admin_login_error 401)))))))"

definition admin_password_matches :: "env \<Rightarrow> user option \<Rightarrow> string \<Rightarrow> bool" where
  "admin_password_matches e u password =
     (is_password_raw_length_safe e password \<and>
      verify_password e password (case u of Some v \<Rightarrow> u_password_hash v | None \<Rightarrow> dummy_password_hash e))"

definition refuse_admin_login :: "env \<Rightarrow> user option \<Rightarrow> bool \<Rightarrow> string \<Rightarrow> string \<Rightarrow> 'a request" where
  "refuse_admin_login e found password_ok normalized_email prin =
     bindA (audit_event e ''admin_login'' ''failure'' (map_option u_id found)
       [(''known_user'', JBool (found \<noteq> None)), (''reason'', JStr ''invalid_credentials_or_ineligible_staff''),
        (''principal_ref'', opt_json JStr (principal_reference e normalized_email))] None) (\<lambda>_.
     bindA (record_failure e ''admin_login'' prin None) (\<lambda>_.
     bindA (case found of
         Some u \<Rightarrow> condA (\<not> password_ok)
           (bindA (updateA (update_user (u_id u) (\<lambda>v. v\<lparr>u_failed_login_count := u_failed_login_count v + 1\<rparr>))) (\<lambda>_.
            record_user_security_failure e u ''password'' ''password_failed_attempts''))
       | None \<Rightarrow> ret ()) (\<lambda>_.
     raise (auth_error generic_admin_login_error 401))))"

definition admin_login_candidate :: "env \<Rightarrow> user option \<Rightarrow> string \<Rightarrow> user option" where
  "admin_login_candidate e found password =
     (case found of None \<Rightarrow> None
      | Some u \<Rightarrow> if admin_password_matches e found password \<and> is_active_staff_user e found \<and> u_workplace_email_verified_at u \<noteq> None
                 then Some u else None)"

definition start_admin_challenge :: "env \<Rightarrow> user \<Rightarrow> string \<Rightarrow> unit request" where
  "start_admin_challenge e u password =
     (if u_is_frozen u \<or> u_security_locked_at u \<noteq> None then
        staff_block e (Some u) ''admin_login'' ''blocked'' [(''reason'', JStr (text_or (or_default (u_security_lock_reason u) []) ''locked''))]
          generic_admin_login_error 401
      else
        bindA (rehash_if_needed e u password) (\<lambda>_.
        bindA commitA (\<lambda>_.
        bindA (clear_failures e ''admin_mfa_login'' (admin_mfa_failure_principal e (u_id u))) (\<lambda>_.
        bindA (begin_password_authenticated_session e (u_id u)) (\<lambda>_.
        audit_event e ''admin_login_password'' ''success'' (Some (u_id u)) [(''mfa_required'', JBool True)] None)))))"

definition authenticate_admin_primary :: "env \<Rightarrow> string \<Rightarrow> string \<Rightarrow> unit request" where
  "authenticate_admin_primary e workplace_email password =
     bindA (normalize_admin_login_email e workplace_email) (\<lambda>normalized_email.
     bindA (admin_auth_principal e normalized_email) (\<lambda>prin.
     bindA (admin_enforce_auth_backoff e ''admin_login'' prin) (\<lambda>_.
     bindA (staff_user_by_workplace_email normalized_email) (\<lambda>found.
     case admin_login_candidate e found password of
       None \<Rightarrow> refuse_admin_login e found (admin_password_matches e found password) normalized_email prin
     | Some u \<Rightarrow> start_admin_challenge e u password))))"

subsection \<open>The authenticator step\<close>

definition enforce_admin_mfa_failure_limit :: "env \<Rightarrow> user \<Rightarrow> string \<Rightarrow> bool \<Rightarrow> unit request" where
  "enforce_admin_mfa_failure_limit e u prin audit_block =
     try_catch (enforce_durable_failure_limit e ''admin_mfa_login'' prin (cfg_admin_mfa_failure_limit (cfg e)))
       (\<lambda>err. case err of
          DurableRateLimitExceeded retry_after \<Rightarrow>
            bindA (condA audit_block (audit_event e ''admin_mfa_login'' ''blocked'' (Some (u_id u))
              [(''reason'', JStr ''wrong_code_threshold_exceeded''), (''retry_after'', JInt retry_after)] None)) (\<lambda>_.
            raise (AuthError generic_admin_login_error 429 (Some retry_after)))
        | _ \<Rightarrow> raise err)"

definition refuse_admin_code :: "env \<Rightarrow> user \<Rightarrow> string \<Rightarrow> 'a request" where
  "refuse_admin_code e u prin =
     (let failure_limit = cfg_admin_mfa_failure_limit (cfg e) in
      bindA (record_failure e ''admin_mfa_login'' prin (Some (cfg_admin_mfa_failure_window_seconds (cfg e)))) (\<lambda>attempts.
      bindA (audit_event e ''admin_mfa_login'' (if failure_limit < attempts then ''blocked'' else ''failure'') (Some (u_id u))
        [(''reason'', JStr (if failure_limit < attempts then ''wrong_code_threshold_exceeded'' else ''invalid_totp'')),
         (''failure_count'', JInt attempts)] None) (\<lambda>_.
      bindA (condA (failure_limit < attempts) (enforce_admin_mfa_failure_limit e u prin False)) (\<lambda>_.
      raise (auth_error generic_admin_login_error 401)))))"

record admin_login =
  al_session_ref :: string
  al_user :: user

definition finish_admin_login :: "env \<Rightarrow> user \<Rightarrow> string \<Rightarrow> admin_login request" where
  "finish_admin_login e u prin =
     bindA (clear_failures e ''admin_mfa_login'' prin) (\<lambda>_.
     bindA (updateA (update_user (u_id u) (\<lambda>v. v\<lparr>u_failed_login_count := 0, u_last_login_at := Some (now e)\<rparr>))) (\<lambda>_.
     bindA commitA (\<lambda>_.
     bindA (admin_auth_principal e (u_email u)) (\<lambda>login_principal.
     bindA (clear_failures e ''admin_login'' login_principal) (\<lambda>_.
     bindA (clear_user_security_failures e (u_id u) ''password'') (\<lambda>_.
     bindA (establish_authenticated_session e (u_id u) True ''admin_password+totp'') (\<lambda>session_id.
     bindA (audit_event e ''admin_mfa_login'' ''success'' (Some (u_id u)) [] (Some session_id)) (\<lambda>_.
     ret \<lparr>al_session_ref = public_session_reference e (Some session_id), al_user = u\<rparr>))))))))"

definition check_admin_code :: "env \<Rightarrow> user \<Rightarrow> string \<Rightarrow> admin_login request" where
  "check_admin_code e u code =
     (let prin = admin_mfa_failure_principal e (u_id u) in
      bindA (enforce_admin_mfa_failure_limit e u prin True) (\<lambda>_.
      bindA (verify_totp_for_user_outcome e u code ''admin_mfa_login'' None False) (\<lambda>outcome.
      case outcome of
        TOTP_REPLAY \<Rightarrow> staff_block e (Some u) ''admin_mfa_login'' ''failure'' [(''reason'', JStr ''totp_replay'')] generic_admin_login_error 401
      | TOTP_INVALID \<Rightarrow> refuse_admin_code e u prin
      | TOTP_VALID \<Rightarrow> finish_admin_login e u prin)))"

definition complete_admin_mfa_login :: "env \<Rightarrow> string \<Rightarrow> admin_login request" where
  "complete_admin_mfa_login e code =
     bindA (readA (\<lambda>w. sess_get w ''pending_mfa_user_id'')) (\<lambda>pending.
     if \<not> py_truthy pending then raise (auth_error ''No pending MFA challenge'' 401)
     else (case json_int pending of
         None \<Rightarrow> raise (ValueError ''invalid literal for int()'')
       | Some uid \<Rightarrow>
           bindA (queryA (\<lambda>db. user_by_id db uid)) (\<lambda>found.
           case (if is_active_staff_user e found then found else None) of
             None \<Rightarrow> bindA (audit_event e ''admin_mfa_login'' ''failure'' (Some uid) [(''reason'', JStr ''not_active_staff'')] None) (\<lambda>_.
               raise (auth_error ''No pending MFA challenge'' 401))
           | Some u \<Rightarrow> check_admin_code e u code)))"

definition logout_admin_session :: "env \<Rightarrow> unit request" where
  "logout_admin_session e =
     bindA (readA (\<lambda>w. json_or (sess_get w ''user_id'') (sess_get w ''pending_mfa_user_id''))) (\<lambda>user_id.
     bindA (revoke_current_session e ''logout'') (\<lambda>_.
     if py_truthy user_id \<and> json_int user_id = None then raise (ValueError ''invalid literal for int()'')
     else audit_event e ''admin_logout'' ''success'' (if py_truthy user_id then json_int user_id else None) [] None))"

subsection \<open>The own password\<close>

definition refuse_own_password :: "env \<Rightarrow> user \<Rightarrow> string \<Rightarrow> string \<Rightarrow> int \<Rightarrow> 'a request" where
  "refuse_own_password e actor reason = staff_block e (Some actor) ''admin_password_change'' ''failure'' [(''reason'', JStr reason)]"

definition admit_own_password :: "env \<Rightarrow> user \<Rightarrow> string \<Rightarrow> string \<Rightarrow> string \<Rightarrow> string option \<Rightarrow> unit request" where
  "admit_own_password e actor current_password new_password confirm_new_password totp_code =
     (if new_password \<noteq> confirm_new_password then refuse_own_password e actor ''password_mismatch'' ''Passwords must match'' 400
      else if \<not> verify_password e current_password (u_password_hash actor) then
        bindA (audit_event e ''admin_password_change'' ''failure'' (Some (u_id actor)) [(''reason'', JStr ''invalid_current_password'')] None) (\<lambda>_.
        bindA (record_user_security_failure e actor ''password_change'' ''password_change_failed_attempts'') (\<lambda>_.
        raise (auth_error ''Current password is invalid'' 401)))
      else
        bindA (try_catch (assert_password_not_reused e actor new_password)
          (\<lambda>err. case err of
             PasswordReuseError reason \<Rightarrow> refuse_own_password e actor reason ''New password must not match your current or recent passwords'' 400
           | _ \<Rightarrow> raise err)) (\<lambda>_.
        bindA (try_catch (validate_password_policy e new_password)
          (\<lambda>err. case err of PasswordPolicyError message \<Rightarrow> refuse_own_password e actor ''password_policy'' message 400 | _ \<Rightarrow> raise err)) (\<lambda>_.
        bindA (verify_admin_totp_step_up e actor totp_code ''admin_password_change'') (\<lambda>verified.
        if verified then ret () else refuse_own_password e actor ''invalid_totp_step_up'' fresh_mfa_required_error 403))))"

definition change_own_password :: "env \<Rightarrow> user \<Rightarrow> string \<Rightarrow> string \<Rightarrow> string \<Rightarrow> string option \<Rightarrow> int request" where
  "change_own_password e actor current_password new_password confirm_new_password totp_code =
     bindA (admit_own_password e actor current_password new_password confirm_new_password totp_code) (\<lambda>_.
     bindA (replace_user_password e actor new_password True) (\<lambda>_.
     bindA (updateA (update_user (u_id actor) (\<lambda>v. v\<lparr>u_failed_login_count := 0\<rparr>))) (\<lambda>_.
     bindA (revoke_all_sessions e (u_id actor) ''admin_password_change'' (Some ''admin'')) (\<lambda>revoked.
     bindA (clear_user_security_failures e (u_id actor) ''password_change'') (\<lambda>_.
     bindA (audit_event_required e ''admin_password_change'' ''success'' (Some (u_id actor))
       [(''revoked_sessions'', JInt revoked), (''actor_role'', JStr (u_account_type actor))] None) (\<lambda>_.
     bindA commitA (\<lambda>_. ret revoked)))))))"

subsection \<open>The own authenticator\<close>

definition admin_mfa_change_secret_key :: string where "admin_mfa_change_secret_key = ''admin_mfa_change_secret''"
definition admin_mfa_change_started_key :: string where "admin_mfa_change_started_key = ''admin_mfa_change_started_at''"
definition admin_mfa_change_user_key :: string where "admin_mfa_change_user_key = ''admin_mfa_change_user_id''"
definition admin_mfa_change_ttl_seconds :: int where "admin_mfa_change_ttl_seconds = 600"

definition clear_pending_mfa_change :: "unit request" where
  "clear_pending_mfa_change = webA (\<lambda>w. (sess_pop admin_mfa_change_user_key (sess_pop admin_mfa_change_started_key
     (sess_pop admin_mfa_change_secret_key w)))\<lparr>ws_modified := True\<rparr>)"

definition pending_mfa_change_secret :: "env \<Rightarrow> user \<Rightarrow> string option request" where
  "pending_mfa_change_secret e actor =
     bindA (readA id) (\<lambda>w.
     if sess_get w admin_mfa_change_user_key \<noteq> JInt (u_id actor) then ret None
     else case json_int (json_or (sess_get w admin_mfa_change_started_key) (JInt 0)) of
       None \<Rightarrow> raise (ValueError ''invalid literal for int()'')
     | Some started_at \<Rightarrow>
         if started_at = 0 \<or> admin_mfa_change_ttl_seconds < now_s e - started_at
         then bindA clear_pending_mfa_change (\<lambda>_. ret None)
         else let secret = sess_get w admin_mfa_change_secret_key in
           ret (if py_truthy secret then Some (json_text e secret) else None))"

definition refuse_own_mfa_change :: "env \<Rightarrow> user \<Rightarrow> string \<Rightarrow> string \<Rightarrow> int \<Rightarrow> 'a request" where
  "refuse_own_mfa_change e actor reason = staff_block e (Some actor) ''admin_mfa_change'' ''failure'' [(''reason'', JStr reason)]"

text \<open>The random text 36 of the request is the new secret.\<close>

definition start_own_mfa_change :: "env \<Rightarrow> user \<Rightarrow> string option \<Rightarrow> string request" where
  "start_own_mfa_change e actor totp_code =
     bindA (verify_admin_totp_step_up e actor totp_code ''admin_mfa_change_start'') (\<lambda>verified.
     if \<not> verified
     then refuse_own_mfa_change e actor ''invalid_totp_step_up'' fresh_mfa_required_error 403
     else
       bindA (webA (sess_set admin_mfa_change_user_key (JInt (u_id actor)) \<circ> sess_set admin_mfa_change_started_key (JInt (now_s e))
         \<circ> sess_set admin_mfa_change_secret_key (JStr (random_text e 36)))) (\<lambda>_.
       bindA (audit_event e ''admin_mfa_change'' ''started'' (Some (u_id actor)) [] None) (\<lambda>_.
       ret (random_text e 36))))"

definition activate_own_secret :: "env \<Rightarrow> user \<Rightarrow> string \<Rightarrow> int request" where
  "activate_own_secret e actor secret =
     bindA (encrypt_mfa_secret e secret (u_id actor) None) (\<lambda>(nonce, ciphertext).
     bindA (updateA (update_user (u_id actor) (\<lambda>v. v\<lparr>u_mfa_secret_nonce := Some nonce, u_mfa_secret_ciphertext := Some ciphertext,
       u_mfa_enabled := True\<rparr>))) (\<lambda>_.
     bindA clear_pending_mfa_change (\<lambda>_.
     bindA (revoke_all_sessions e (u_id actor) ''admin_mfa_change'' (Some ''admin'')) (\<lambda>revoked.
     bindA (audit_event_required e ''admin_mfa_change'' ''success'' (Some (u_id actor))
       [(''revoked_sessions'', JInt revoked), (''actor_role'', JStr (u_account_type actor))] None) (\<lambda>_.
     bindA commitA (\<lambda>_. ret revoked))))))"

definition confirm_own_mfa_change :: "env \<Rightarrow> user \<Rightarrow> string option \<Rightarrow> int request" where
  "confirm_own_mfa_change e actor totp_code =
     bindA (pending_mfa_change_secret e actor) (\<lambda>pending.
      case pending of
        None \<Rightarrow> refuse_own_mfa_change e actor ''no_pending_reset'' ''Start a new authenticator reset before confirming'' 409
      | Some secret \<Rightarrow>
          bindA (verify_totp_secret_for_user_outcome e actor secret (or_default totp_code []) ''admin_mfa_change_confirm'' None True) (\<lambda>outcome.
          case outcome of
            TOTP_REPLAY \<Rightarrow> refuse_own_mfa_change e actor ''totp_replay'' ''Authentication code already used'' 401
          | TOTP_INVALID \<Rightarrow> refuse_own_mfa_change e actor ''invalid_totp'' ''Invalid authentication code'' 401
          | TOTP_VALID \<Rightarrow> activate_own_secret e actor secret))"

subsection \<open>The password step admits active staff only\<close>

lemma raises_backoff_handler: "raises (case err of AuthBackoffRequired r \<Rightarrow>
     bindA (audit_event e ''auth_backoff'' ''blocked'' None [(''scope'', JStr scope), (''retry_after'', JInt r)] None) (\<lambda>_.
     raise (AuthError m 429 (Some r))) | _ \<Rightarrow> raise err)"
  by (cases err) (auto intro: raises_bindA)

lemma admin_backoff_passes:
  assumes "admin_enforce_auth_backoff e scope prin s = (Inr x, t)"
  shows "users (working t) = users (working s)"
  using assms unfolding admin_enforce_auth_backoff_def try_catch_raises [OF raises_backoff_handler]
  by (auto simp: apply_exponential_backoff_def load_counter_def delete_counters_def Let_def bindA_eq_Inr split: option.splits if_splits)

lemma admin_auth_principal_pure: "admin_auth_principal e i s = (Inr p, t) \<Longrightarrow> t = s"
  by (auto simp: admin_auth_principal_def admin_normalize_email_def Let_def bindA_eq_Inr split: if_splits)

lemma raises_refuse_admin_login: "raises (refuse_admin_login e f ok n p)"
  unfolding refuse_admin_login_def by (intro raises_bindA raises_raise)

lemma login_email_normalized:
  assumes "normalize_admin_login_email e email s = (Inr n, t)"
  shows "t = s \<and> normalize_workplace_email e email = Inr n"
  using assms by (auto simp: normalize_admin_login_email_def bindA_eq_Inr split: sum.splits)

lemma admin_challenge_session:
  assumes "start_admin_challenge e u password s = (Inr r, t)"
  shows "\<not> u_is_frozen u \<and> u_security_locked_at u = None
    \<and> sess_get (web t) ''user_id'' = JNull \<and> sess_get (web t) ''pending_mfa_user_id'' = JInt (u_id u)"
proof -
  from assms obtain s1 s2 where l: "\<not> u_is_frozen u" "u_security_locked_at u = None"
    and b: "begin_password_authenticated_session e (u_id u) s1 = (Inr (), s2)"
    and a: "audit_event e ''admin_login_password'' ''success'' (Some (u_id u)) [(''mfa_required'', JBool True)] None s2 = (Inr r, t)"
    by (auto simp: start_admin_challenge_def bindA_eq_Inr raises_not_Inr [OF raises_staff_block] split: if_splits)
  from pending_session_keys [OF b] key_kept [OF preserves_on_web_audit_event a] l show ?thesis by blast
qed

text \<open>
  The password step of a staff login. When \<^verbatim>\<open>authenticate_admin_primary\<close> returns, the address normalizes to a workplace address without an alias,
  exactly one staff account has it, that account is active staff with an enrolled authenticator and a verified address, its stored hash matches the
  password, and it is neither frozen nor locked. The session is then only waiting for the authenticator code: nobody is signed in.
\<close>

theorem staff_password_step:
  assumes "authenticate_admin_primary e email password s = (Inr r, t)"
  shows "\<exists>n u. normalize_workplace_email e email = Inr n \<and> filter (staff_workplace_match n) (users (working s)) = [u]
    \<and> is_active_staff_user e (Some u) \<and> u_workplace_email_verified_at u \<noteq> None \<and> verify_password e password (u_password_hash u)
    \<and> \<not> u_is_frozen u \<and> u_security_locked_at u = None
    \<and> sess_get (web t) ''user_id'' = JNull \<and> sess_get (web t) ''pending_mfa_user_id'' = JInt (u_id u)"
proof -
  from assms obtain n s1 prin s2 y s3 found s4 where
    1: "normalize_admin_login_email e email s = (Inr n, s1)" and 2: "admin_auth_principal e n s1 = (Inr prin, s2)"
    and 3: "admin_enforce_auth_backoff e ''admin_login'' prin s2 = (Inr y, s3)"
    and 4: "staff_user_by_workplace_email n s3 = (Inr found, s4)"
    and 5: "(case admin_login_candidate e found password of
       None \<Rightarrow> refuse_admin_login e found (admin_password_matches e found password) n prin
     | Some u \<Rightarrow> start_admin_challenge e u password) s4 = (Inr r, t)"
    unfolding authenticate_admin_primary_def bindA_eq_Inr by blast
  from 5 obtain u where u: "admin_login_candidate e found password = Some u" "start_admin_challenge e u password s4 = (Inr r, t)"
    by (auto simp: raises_not_Inr [OF raises_refuse_admin_login] split: option.splits)
  from u(1) have f: "found = Some u" "admin_password_matches e (Some u) password" "is_active_staff_user e (Some u)"
      "u_workplace_email_verified_at u \<noteq> None"
    by (auto simp: admin_login_candidate_def split: option.splits if_splits)
  from 4 f(1) have "filter (staff_workplace_match n) (users (working s3)) = [u]"
    by (auto simp: staff_user_by_workplace_email_def scalar_one_or_none_def split: list.splits)
  moreover have "users (working s3) = users (working s)"
    using admin_backoff_passes [OF 3] admin_auth_principal_pure [OF 2] login_email_normalized [OF 1] by simp
  ultimately show ?thesis
    using f login_email_normalized [OF 1] admin_challenge_session [OF u(2)] by (auto simp: admin_password_matches_def)
qed

subsection \<open>The authenticator step\<close>

lemma raises_refuse_admin_code: "raises (refuse_admin_code e u p)"
  unfolding refuse_admin_code_def Let_def by (intro raises_bindA raises_raise)

lemma finished_admin_login:
  assumes "finish_admin_login e u prin s = (Inr r, t)"
  shows "al_user r = u \<and> sess_get (web t) ''user_id'' = JInt (u_id u)"
proof -
  from assms obtain s1 sid s2 where
    1: "establish_authenticated_session e (u_id u) True ''admin_password+totp'' s1 = (Inr sid, s2)"
    and 2: "audit_event e ''admin_mfa_login'' ''success'' (Some (u_id u)) [] (Some sid) s2 = (Inr (), t)" and r: "al_user r = u"
    by (auto simp: finish_admin_login_def bindA_eq_Inr)
  from key_kept [OF preserves_on_web_audit_event 2 established_session_user [OF 1]] r show ?thesis by blast
qed

lemma signed_in_session:
  assumes "complete_admin_mfa_login e code s = (Inr r, t)"
  obtains uid u s1 s2 where "json_int (sess_get (web s) ''pending_mfa_user_id'') = Some uid" "user_by_id (working s) uid = Some u"
    "is_active_staff_user e (Some u)" "verify_totp_for_user_outcome e u code ''admin_mfa_login'' None False s1 = (Inr TOTP_VALID, s2)"
    "al_user r = u" "sess_get (web t) ''user_id'' = JInt uid"
proof -
  from assms obtain uid u where p: "json_int (sess_get (web s) ''pending_mfa_user_id'') = Some uid" "user_by_id (working s) uid = Some u"
      "is_active_staff_user e (Some u)" and c: "check_admin_code e u code s = (Inr r, t)"
    by (auto simp: complete_admin_mfa_login_def bindA_eq_Inr split: option.splits if_splits)
  from c obtain s1 outcome s2 where v: "verify_totp_for_user_outcome e u code ''admin_mfa_login'' None False s1 = (Inr outcome, s2)"
      and k: "(case outcome of
        TOTP_REPLAY \<Rightarrow> staff_block e (Some u) ''admin_mfa_login'' ''failure'' [(''reason'', JStr ''totp_replay'')] generic_admin_login_error 401
      | TOTP_INVALID \<Rightarrow> refuse_admin_code e u (admin_mfa_failure_principal e (u_id u))
      | TOTP_VALID \<Rightarrow> finish_admin_login e u (admin_mfa_failure_principal e (u_id u))) s2 = (Inr r, t)"
    unfolding check_admin_code_def Let_def bindA_eq_Inr by blast
  from k have "outcome = TOTP_VALID" "finish_admin_login e u (admin_mfa_failure_principal e (u_id u)) s2 = (Inr r, t)"
    by (auto simp: raises_not_Inr [OF raises_refuse_admin_code] raises_not_Inr [OF raises_staff_block] split: totp_outcome.splits)
  with v p finished_admin_login user_by_id_member [OF p(2)] that show thesis by blast
qed

text \<open>
  The authenticator step of a staff login. When \<^verbatim>\<open>complete_admin_mfa_login\<close> returns, the session was waiting for the code of an account that is active
  staff, and the code was accepted as an authenticator code that was not used before. The session then belongs to that account.
\<close>

theorem staff_code_step:
  assumes "complete_admin_mfa_login e code s = (Inr r, t)"
  shows "\<exists>uid u. json_int (sess_get (web s) ''pending_mfa_user_id'') = Some uid \<and> user_by_id (working s) uid = Some u
    \<and> is_active_staff_user e (Some u) \<and> (\<exists>s' t'. verify_totp_for_user_outcome e u code ''admin_mfa_login'' None False s' = (Inr TOTP_VALID, t'))
    \<and> al_user r = u \<and> sess_get (web t) ''user_id'' = JInt uid"
  using signed_in_session [OF assms] by metis

subsection \<open>Changing the own authenticator\<close>

text \<open>The stored authenticators, and what the check of a code leaves of them.\<close>

definition authenticators :: "database \<Rightarrow> (int \<times> string option \<times> string option \<times> bool) list" where
  "authenticators db = map (\<lambda>u. (u_id u, u_mfa_secret_nonce u, u_mfa_secret_ciphertext u, u_mfa_enabled u)) (users db)"

lemma authenticators_frame:
  "sessions_free (\<lambda>db. authenticators db = A)" "counters_free (\<lambda>db. authenticators db = A)" "replays_free (\<lambda>db. authenticators db = A)"
  "keeps_audit e (\<lambda>db. authenticators db = A)"
  by (auto simp: sessions_free_def counters_free_def replays_free_def add_replay_record_def authenticators_def intro: keeps_auditI)

lemma authenticators_lock: "preserves (both (\<lambda>db. authenticators db = A)) (lock_user_account e u r sc n)"
proof -
  have "preserves (both (\<lambda>db. authenticators db = A)) (updateA (update_user i (\<lambda>u. u\<lparr>u_is_frozen := True, u_security_locked_at := l,
       u_security_lock_reason := r\<rparr>)))" for i l r
    by (rule preserves_both_updateA) (auto simp: authenticators_def update_users_def intro: map_upd_where_frame)
  then show ?thesis unfolding lock_user_account_def by (intro preserves_rules authenticators_frame)
qed

lemma authenticators_failure: "preserves (both (\<lambda>db. authenticators db = A)) (record_user_security_failure e u sc r)"
  unfolding record_user_security_failure_def Let_def by (intro preserves_rules authenticators_frame authenticators_lock)

lemma authenticators_code_check: "preserves (both (\<lambda>db. authenticators db = A)) (verify_totp_secret_for_user_outcome e u sec code sc w tr)"
proof -
  let ?I = "both (\<lambda>db. authenticators db = A)"
  have b: "preserves ?I (enforce_auth_backoff e scope pr)" for scope pr
    unfolding enforce_auth_backoff_def
    by (rule preserves_try_catch) (auto split: py_error.split intro!: preserves_rules authenticators_frame)
  have h: "preserves ?I (case err of AuthError _ _ _ \<Rightarrow> bindA (record_user_security_failure e u ''mfa'' r) (\<lambda>_. raise err) | _ \<Rightarrow> raise err)" for r and err :: py_error
    by (cases err) (auto intro!: preserves_rules authenticators_failure)
  have a: "preserves ?I (accept_totp_step e u code sc w tr step)" for step
    unfolding accept_totp_step_def Let_def by (intro preserves_rules authenticators_frame)
  show ?thesis
    unfolding verify_totp_secret_for_user_outcome_def Let_def
    by (intro preserves_rules authenticators_frame a preserves_try_catch [OF b h])
qed

lemma authenticators_step_up: "preserves (both (\<lambda>db. authenticators db = A)) (verify_admin_totp_step_up e u code sc)"
  unfolding verify_admin_totp_step_up_def verify_totp_for_user_def verify_totp_for_user_outcome_def
  by (intro preserves_rules authenticators_frame authenticators_code_check)

lemma preserves_refuse_own_mfa_change [preserves_rules]: "keeps_audit e P \<Longrightarrow> preserves (both P) (refuse_own_mfa_change e u r m c)"
  unfolding refuse_own_mfa_change_def by (intro preserves_rules)

lemma raises_refuse_own_mfa_change: "raises (refuse_own_mfa_change e u r m c)"
  unfolding refuse_own_mfa_change_def by simp

lemma start_keeps_authenticators: "preserves (both (\<lambda>db. authenticators db = A)) (start_own_mfa_change e actor code)"
  unfolding start_own_mfa_change_def by (intro preserves_rules authenticators_frame authenticators_step_up)

lemma staged_secret:
  assumes "pending_mfa_change_secret e actor s = (Inr (Some secret), t)"
  shows "t = s \<and> sess_get (web s) admin_mfa_change_user_key = JInt (u_id actor)
    \<and> (\<exists>started. json_int (json_or (sess_get (web s) admin_mfa_change_started_key) (JInt 0)) = Some started
         \<and> started \<noteq> 0 \<and> now_s e - started \<le> admin_mfa_change_ttl_seconds)
    \<and> py_truthy (sess_get (web s) admin_mfa_change_secret_key) \<and> secret = json_text e (sess_get (web s) admin_mfa_change_secret_key)"
  using assms by (auto simp: pending_mfa_change_secret_def Let_def bindA_eq_Inr split: if_splits option.splits)

lemma preserves_pending_mfa_change [preserves_rules]: "preserves (both P) (pending_mfa_change_secret e actor)"
  unfolding pending_mfa_change_secret_def clear_pending_mfa_change_def Let_def by (intro preserves_rules)

definition secret_changed :: "env \<Rightarrow> int \<Rightarrow> string \<Rightarrow> string \<Rightarrow> database \<Rightarrow> bool" where
  "secret_changed e uid nonce ct db \<longleftrightarrow>
     (\<exists>v. user_by_id db uid = Some v \<and> u_mfa_secret_nonce v = Some nonce \<and> u_mfa_secret_ciphertext v = Some ct \<and> u_mfa_enabled v)
     \<and> (\<forall>r \<in> set (server_sessions db). \<not> active_session e uid ''admin'' r)"

text \<open>Once the new secret is encrypted, its activation is published in one commit or not at all.\<close>

definition store_own_secret :: "env \<Rightarrow> user \<Rightarrow> string \<times> string \<Rightarrow> int request" where
  "store_own_secret e actor = (\<lambda>(nonce, ct).
     bindA (updateA (update_user (u_id actor) (\<lambda>v. v\<lparr>u_mfa_secret_nonce := Some nonce, u_mfa_secret_ciphertext := Some ct,
       u_mfa_enabled := True\<rparr>))) (\<lambda>_.
     bindA clear_pending_mfa_change (\<lambda>_.
     bindA (revoke_all_sessions e (u_id actor) ''admin_mfa_change'' (Some ''admin'')) (\<lambda>revoked.
     bindA (audit_event_required e ''admin_mfa_change'' ''success'' (Some (u_id actor))
       [(''revoked_sessions'', JInt revoked), (''actor_role'', JStr (u_account_type actor))] None) (\<lambda>_.
     bindA commitA (\<lambda>_. ret revoked))))))"

lemma activate_split: "activate_own_secret e actor secret = bindA (encrypt_mfa_secret e secret (u_id actor) None) (store_own_secret e actor)"
  unfolding activate_own_secret_def store_own_secret_def by (rule refl)

lemma sess_get_modified [simp]: "sess_get (w\<lparr>ws_modified := b\<rparr>) k = sess_get w k"
  by (simp add: sess_get_def)

lemma sess_get_popped [simp]: "sess_get (sess_pop k w) k = JNull"
  by (auto simp: sess_get_def sess_pop_def jget_def simp flip: map_of_eq_None_iff split: option.split dest: map_of_SomeD)

lemma stored_secret:
  assumes run: "store_own_secret e actor (nonce, ct) s = (x, t)"
  shows "x = Inl err \<Longrightarrow> committed t = committed s"
    and "x = Inr revoked \<Longrightarrow> user_by_id (working s) (u_id actor) = Some v \<Longrightarrow>
      both (secret_changed e (u_id actor) nonce ct) t \<and> sess_get (web t) admin_mfa_change_secret_key = JNull"
proof -
  let ?f = "\<lambda>v. v\<lparr>u_mfa_secret_nonce := Some nonce, u_mfa_secret_ciphertext := Some ct, u_mfa_enabled := True\<rparr>"
  let ?g = "\<lambda>w. (sess_pop admin_mfa_change_user_key (sess_pop admin_mfa_change_started_key (sess_pop admin_mfa_change_secret_key w)))\<lparr>ws_modified := True\<rparr>"
  let ?s1 = "s\<lparr>working := update_user (u_id actor) ?f (working s), web := ?g (web s)\<rparr>"
  obtain k s2 where rev: "revoke_all_sessions e (u_id actor) ''admin_mfa_change'' (Some ''admin'') ?s1 = (Inr k, s2)"
    by (simp add: revoke_all_eq Let_def)
  then have s2: "users (working s2) = users (update_user (u_id actor) ?f (working s))" "committed s2 = committed s" "web s2 = ?g (web s)"
    by (auto simp: revoke_all_eq Let_def session_rows_frame)
  let ?md = "[(''revoked_sessions'', JInt k), (''actor_role'', JStr (u_account_type actor))]"
  have r: "bindA (audit_event_required e ''admin_mfa_change'' ''success'' (Some (u_id actor)) ?md None) (\<lambda>_. bindA commitA (\<lambda>_. ret k)) s2 = (x, t)"
    using run rev by (simp add: store_own_secret_def clear_pending_mfa_change_def webA_def)
  show "committed t = committed s" if "x = Inl err"
    using r that s2(2)
    by (cases rule: audit_event_required_cases [of e "''admin_mfa_change''" "''success''" "Some (u_id actor)" ?md None s2])
       (auto simp: bindA_def commitA_def split: if_splits)
  assume x: "x = Inr revoked" and v: "user_by_id (working s) (u_id actor) = Some v"
  from r x obtain ev where t: "t = s2\<lparr>working := add_audit ev (working s2), committed := add_audit ev (working s2)\<rparr>"
    by (cases rule: audit_event_required_cases [of e "''admin_mfa_change''" "''success''" "Some (u_id actor)" ?md None s2])
       (auto simp: bindA_def commitA_def split: if_splits)
  have "user_by_id (working s2) (u_id actor) = Some (?f v)"
    using v user_by_id_member [OF v] user_by_id_update_users [of ?f "\<lambda>u. u_id u = u_id actor" "working s" "u_id actor"] by (simp add: user_by_id_def s2(1))
  with revoke_all_leaves_none [OF rev] have "secret_changed e (u_id actor) nonce ct (working s2)"
    by (auto simp: secret_changed_def component_of_def)
  then show "both (secret_changed e (u_id actor) nonce ct) t \<and> sess_get (web t) admin_mfa_change_secret_key = JNull"
    using t s2(3) by (auto simp: both_def secret_changed_def user_by_id_def sess_get_pop admin_mfa_change_secret_key_def admin_mfa_change_started_key_def
        admin_mfa_change_user_key_def)
qed

lemma authenticators_user:
  assumes "authenticators db = authenticators db'" and "user_by_id db' i = Some v"
  shows "\<exists>v'. user_by_id db i = Some v'"
proof -
  have ids: "map u_id (users db) = map u_id (users db')"
    using arg_cong [OF assms(1), of "map fst"] by (simp add: authenticators_def comp_def)
  from user_by_id_member [OF assms(2)] have "i \<in> set (map u_id (users db'))" by auto
  then have "i \<in> set (map u_id (users db))" using ids by simp
  then obtain u where "u \<in> set (users db)" "u_id u = i" by auto
  then show ?thesis by (cases "user_by_id db i") (auto simp: user_by_id_def find_None_iff)
qed

lemma triple_kept: "preserves I m \<Longrightarrow> (\<And>s. I s \<Longrightarrow> R s) \<Longrightarrow> triple I m (\<lambda>_. I) R"
  by (fastforce simp: triple_def preserves_def split: prod.splits sum.splits)

lemma triple_refused: "keeps_audit e P \<Longrightarrow> (\<And>s. both P s \<Longrightarrow> R s) \<Longrightarrow> triple (both P) (refuse_own_mfa_change e actor r m c) Q R"
  by (rule triple_raises [where I = "both P"]) (auto intro!: preserves_rules simp: raises_refuse_own_mfa_change)

lemma confirm_failed:
  fixes A
  defines "R \<equiv> \<lambda>s. authenticators (committed s) = A"
  shows "triple (both (\<lambda>db. authenticators db = A)) (confirm_own_mfa_change e actor code) (\<lambda>_ _. True) R"
proof -
  let ?I = "both (\<lambda>db. authenticators db = A)"
  have R: "\<And>s. ?I s \<Longrightarrow> R s" by (simp add: both_def R_def)
  have "triple ?I (store_own_secret e actor nc) (\<lambda>_ _. True) R" for nc
    by (rule tripleI; cases nc) (auto simp: R_def both_def dest: stored_secret(1) [OF _ refl])
  then have a: "triple ?I (activate_own_secret e actor secret) (\<lambda>_ _. True) R" for secret
    unfolding activate_split
    by (intro triple_bindA [where Q = "\<lambda>_. ?I"] triple_kept preserves_encrypt_mfa_secret authenticators_frame R)
  have refuse: "triple ?I (refuse_own_mfa_change e actor r m c) (\<lambda>_ _. True) R" for r m c
    by (rule triple_refused) (auto intro: authenticators_frame R)
  have "triple ?I (case outcome of
            TOTP_REPLAY \<Rightarrow> refuse_own_mfa_change e actor ''totp_replay'' ''Authentication code already used'' 401
          | TOTP_INVALID \<Rightarrow> refuse_own_mfa_change e actor ''invalid_totp'' ''Invalid authentication code'' 401
          | TOTP_VALID \<Rightarrow> activate_own_secret e actor secret) (\<lambda>_ _. True) R" for outcome secret
    by (cases outcome) (simp_all add: a refuse)
  then have "triple ?I (case pending of
        None \<Rightarrow> refuse_own_mfa_change e actor ''no_pending_reset'' ''Start a new authenticator reset before confirming'' 409
      | Some secret \<Rightarrow>
          bindA (verify_totp_secret_for_user_outcome e actor secret (or_default code []) ''admin_mfa_change_confirm'' None True) (\<lambda>outcome.
          case outcome of
            TOTP_REPLAY \<Rightarrow> refuse_own_mfa_change e actor ''totp_replay'' ''Authentication code already used'' 401
          | TOTP_INVALID \<Rightarrow> refuse_own_mfa_change e actor ''invalid_totp'' ''Invalid authentication code'' 401
          | TOTP_VALID \<Rightarrow> activate_own_secret e actor secret)) (\<lambda>_ _. True) R" for pending
    by (cases pending) (auto intro!: triple_bindA [where Q = "\<lambda>_. ?I"] triple_kept authenticators_code_check R refuse)
  then show ?thesis
    unfolding confirm_own_mfa_change_def by (intro triple_bindA [where Q = "\<lambda>_. ?I"] triple_kept preserves_pending_mfa_change R)
qed

lemma confirm_accepted:
  assumes "confirm_own_mfa_change e actor code s = (Inr k, t)"
  obtains secret s1 s2 s3 nonce ct where "pending_mfa_change_secret e actor s = (Inr (Some secret), s1)"
    "verify_totp_secret_for_user_outcome e actor secret (or_default code []) ''admin_mfa_change_confirm'' None True s1 = (Inr TOTP_VALID, s2)"
    "encrypt_mfa_secret e secret (u_id actor) None s2 = (Inr (nonce, ct), s3)" "store_own_secret e actor (nonce, ct) s3 = (Inr k, t)"
  using assms
  by (auto simp: confirm_own_mfa_change_def activate_split bindA_eq_Inr raises_not_Inr [OF raises_refuse_own_mfa_change] split: option.splits totp_outcome.splits)
    (metis totp_outcome.exhaust)

text \<open>
  C34. The change of the own authenticator. When \<^verbatim>\<open>confirm_own_mfa_change\<close> returns, a secret was staged in this browser session for the same
  member of staff at most ten minutes before, and the check of codes accepted the code for it in the
  state it met. The staged secret, encrypted, is then the stored authenticator, no
  session of the account on the staff application is active, and the staged secret is gone from the browser session. In every other case, a wrong
  code or a failing commit included, every stored authenticator is as before; starting a change never touches one.
\<close>

theorem own_authenticator_change:
  assumes run: "confirm_own_mfa_change e actor code s = (x, t)" and clean: "working s = committed s"
    and stored: "user_by_id (committed s) (u_id actor) = Some v"
  shows "(case x of
      Inl _ \<Rightarrow> authenticators (committed t) = authenticators (committed s)
    | Inr _ \<Rightarrow> \<exists>secret started nonce ct.
        sess_get (web s) admin_mfa_change_user_key = JInt (u_id actor)
        \<and> json_int (json_or (sess_get (web s) admin_mfa_change_started_key) (JInt 0)) = Some started \<and> now_s e - started \<le> 600
        \<and> secret = json_text e (sess_get (web s) admin_mfa_change_secret_key)
        \<and> (\<exists>s1 s2. verify_totp_secret_for_user_outcome e actor secret (or_default code []) ''admin_mfa_change_confirm'' None True s1 = (Inr TOTP_VALID, s2))
        \<and> (\<exists>s1 s2. encrypt_mfa_secret e secret (u_id actor) None s1 = (Inr (nonce, ct), s2))
        \<and> both (secret_changed e (u_id actor) nonce ct) t \<and> sess_get (web t) admin_mfa_change_secret_key = JNull)
    \<and> (\<forall>step_up y t'. start_own_mfa_change e actor step_up s = (y, t') \<longrightarrow> authenticators (committed t') = authenticators (committed s))"
  (is "?confirm \<and> ?start")
proof
  let ?I = "both (\<lambda>db. authenticators db = authenticators (committed s))"
  have s: "?I s" using clean by (simp add: both_def)
  show ?start using preservesD' [OF start_keeps_authenticators _ s] by (auto simp: both_def)
  show ?confirm
  proof (cases x)
    case (Inl err)
    with tripleD_err [OF confirm_failed s] run show ?thesis by simp
  next
    case (Inr k)
    from run [unfolded Inr] show ?thesis
    proof (rule confirm_accepted)
      fix secret s1 s2 s3 nonce ct
      assume p: "pending_mfa_change_secret e actor s = (Inr (Some secret), s1)"
        and o': "verify_totp_secret_for_user_outcome e actor secret (or_default code []) ''admin_mfa_change_confirm'' None True s1 = (Inr TOTP_VALID, s2)"
        and c: "encrypt_mfa_secret e secret (u_id actor) None s2 = (Inr (nonce, ct), s3)" and r: "store_own_secret e actor (nonce, ct) s3 = (Inr k, t)"
      have "?I s3"
        using preservesD' [OF preserves_encrypt_mfa_secret [OF authenticators_frame(4)] c preservesD' [OF authenticators_code_check o'
          preservesD' [OF preserves_pending_mfa_change p s]]] .
      then obtain v' where "user_by_id (working s3) (u_id actor) = Some v'" using authenticators_user [OF _ stored] by (auto simp: both_def)
      from stored_secret(2) [OF r refl this] staged_secret [OF p] o' c Inr show ?thesis
        by (simp add: admin_mfa_change_ttl_seconds_def) blast
    qed
  qed
qed

subsection \<open>Frames\<close>

text \<open>The money is not touched by a staff login or by a change of own credentials.\<close>

lemma preserves_admin_normalize [preserves_rules]:
  "preserves I (admin_normalize_email email)" "preserves I (admin_auth_principal e email)"
  unfolding admin_auth_principal_def admin_normalize_email_def Let_def by (intro preserves_rules)+

lemma preserves_admin_backoff [preserves_rules]:
  "counters_free P \<Longrightarrow> keeps_audit e P \<Longrightarrow> preserves (both P) (admin_enforce_auth_backoff e sc pr)"
  unfolding admin_enforce_auth_backoff_def
  by (rule preserves_try_catch) (auto split: py_error.split intro!: preserves_rules)

lemma preserves_admin_mfa_limit [preserves_rules]:
  "counters_free P \<Longrightarrow> keeps_audit e P \<Longrightarrow> preserves (both P) (enforce_admin_mfa_failure_limit e u pr b)"
  unfolding enforce_admin_mfa_failure_limit_def
  by (rule preserves_try_catch) (auto split: py_error.split intro!: preserves_rules)

lemma preserves_staff_password_step [preserves_rules]: "login_free P \<Longrightarrow> preserves (both P) (authenticate_admin_primary e email pw)"
  unfolding authenticate_admin_primary_def normalize_admin_login_email_def refuse_admin_login_def start_admin_challenge_def rehash_if_needed_def
    staff_user_by_workplace_email_def
  by (intro preserves_rules preserves_update_users login_freeD; (assumption | simp add: account_part_def))

lemma preserves_check_admin_code [preserves_rules]: "login_free P \<Longrightarrow> preserves (both P) (check_admin_code e u code)"
proof -
  assume P: "login_free P"
  have f: "preserves (both P) (finish_admin_login e u pr)" "preserves (both P) (refuse_admin_code e u pr)" for pr
    unfolding finish_admin_login_def refuse_admin_code_def Let_def
    by (intro preserves_rules preserves_update_users login_freeD P; simp add: account_part_def)+
  show ?thesis unfolding check_admin_code_def Let_def by (intro preserves_rules f login_freeD P)
qed

lemma preserves_staff_code_step [preserves_rules]: "login_free P \<Longrightarrow> preserves (both P) (complete_admin_mfa_login e code)"
  unfolding complete_admin_mfa_login_def by (intro preserves_rules login_freeD; assumption)

lemma preserves_admin_logout [preserves_rules]: "login_free P \<Longrightarrow> preserves (both P) (logout_admin_session e)"
  unfolding logout_admin_session_def by (intro preserves_rules login_freeD; assumption)

lemma preserves_step_up_login [preserves_rules]: "login_free P \<Longrightarrow> preserves (both P) (verify_admin_totp_step_up e u code sc)"
  unfolding verify_admin_totp_step_up_def verify_totp_for_user_def by (intro preserves_rules login_freeD; assumption)

lemma preserves_refuse_own_password [preserves_rules]: "keeps_audit e P \<Longrightarrow> preserves (both P) (refuse_own_password e u r m c)"
  unfolding refuse_own_password_def by (intro preserves_rules)

lemma preserves_own_password [preserves_rules]: "reset_free P \<Longrightarrow> preserves (both P) (change_own_password e u cur new conf code)"
proof -
  assume P: "reset_free P"
  have h: "preserves (both P) (case err of PasswordReuseError reason \<Rightarrow> refuse_own_password e u reason m 400 | _ \<Rightarrow> raise err)"
      "preserves (both P) (case err of PasswordPolicyError message \<Rightarrow> refuse_own_password e u r message 400 | _ \<Rightarrow> raise err)" for m r and err :: py_error
    by (cases err; auto intro!: preserves_rules reset_freeD P)+
  have "preserves (both P) (admit_own_password e u cur new conf code)"
    unfolding admit_own_password_def by (intro preserves_rules preserves_try_catch h reset_freeD P)
  then show ?thesis unfolding change_own_password_def
    by (intro preserves_rules preserves_update_users reset_freeD P) (auto simp: account_part_def)
qed

lemma preserves_own_mfa_change [preserves_rules]:
  assumes "login_free P"
  shows "preserves (both P) (start_own_mfa_change e u code)" "preserves (both P) (confirm_own_mfa_change e u code)"
proof -
  show "preserves (both P) (start_own_mfa_change e u code)"
    unfolding start_own_mfa_change_def by (intro preserves_rules login_freeD assms)
  have a: "preserves (both P) (activate_own_secret e u secret)" for secret
    unfolding activate_own_secret_def clear_pending_mfa_change_def case_prod_beta
    by (intro preserves_rules preserves_update_users login_freeD assms) (simp add: account_part_def)
  show "preserves (both P) (confirm_own_mfa_change e u code)"
    unfolding confirm_own_mfa_change_def by (intro preserves_rules a login_freeD assms)
qed

subsection \<open>A login with a code\<close>

definition pending_staff :: world where
  "pending_staff = (fresh_world (empty_db\<lparr>users := [chief]\<rparr>))\<lparr>web := \<lparr>ws_sid = ''sid'', ws_data = [(''pending_mfa_user_id'', JInt 1)], ws_modified = False\<rparr>\<rparr>"

definition signed_in :: "user \<Rightarrow> user" where
  "signed_in u = u\<lparr>u_failed_login_count := 0, u_last_login_at := Some (now office_env)\<rparr>"

lemma chief_login_fields:
  "u_mfa_secret_nonce chief = Some envelope_nonce_marker" "u_mfa_secret_ciphertext chief = Some ''envelope''" "u_id chief = 1"
  "u_email chief = ''chief@sit.example''" "is_active_staff_user office_env (Some chief)"
proof -
  show "is_active_staff_user office_env (Some chief)" by code_simp
qed (simp_all add: chief_def officer_def code_user_def alice_def sample_user_def)

lemma chief_storable: "storable (empty_db\<lparr>users := [chief]\<rparr>)" "storable (empty_db\<lparr>users := [signed_in chief]\<rparr>)"
proof -
  let ?c = "\<lambda>x y. officer (alice\<lparr>u_mfa_secret_nonce := x, u_mfa_secret_ciphertext := y\<rparr>) ''root_admin'' ''chief@sit.example''"
  have "storable (empty_db\<lparr>users := [?c x y]\<rparr>)" "storable (empty_db\<lparr>users := [signed_in (?c x y)]\<rparr>)" for x y
    by code_simp+
  then show "storable (empty_db\<lparr>users := [chief]\<rparr>)" "storable (empty_db\<lparr>users := [signed_in chief]\<rparr>)"
    by (auto simp: chief_def code_user_def)
qed

lemma office_principal: "\<exists>p. admin_auth_principal office_env ''chief@sit.example'' s = (Inr p, s)"
proof -
  have "\<not> list_ex (\<lambda>c. of_char c \<in> {0, 10, 13 :: nat}) (py_strip ''chief@sit.example'') \<and> length (py_strip ''chief@sit.example'') \<le> 255" by code_simp
  then show ?thesis by (simp add: admin_auth_principal_def admin_normalize_email_def)
qed

lemma chief_accepted:
  "\<exists>s1 sc st d ttl. verify_totp_for_user_outcome office_env chief ''000042'' ''admin_mfa_login'' None False pending_staff = (Inr TOTP_VALID, s1)
    \<and> working s1 = add_replay_record office_env 1 sc st d ttl (empty_db\<lparr>users := [chief]\<rparr>)"
proof -
  have w: "working pending_staff = empty_db\<lparr>users := [chief]\<rparr>" by (simp add: pending_staff_def fresh_world_def)
  note u = chief_login_fields
  obtain step where step: "accepted_totp_step office_env ''SECRET'' ''000042'' (now_s office_env) (totp_valid_window office_env ''admin_mfa_login'' None) = Some step"
    using office_step by blast
  have six: "six_digits ''000042''" by code_simp
  from verify_accepts [OF officer_secret [OF u(1-3)] six step, of pending_staff False] w chief_storable(1) storable_replay u(3)
  show ?thesis by (auto simp: empty_db_def) blast
qed

lemma staff_login_returns: "\<exists>r t. complete_admin_mfa_login office_env ''000042'' pending_staff = (Inr r, t)"
proof -
  let ?s = pending_staff
  have w: "working ?s = empty_db\<lparr>users := [chief]\<rparr>" by (simp add: pending_staff_def fresh_world_def)
  note u = chief_login_fields
  obtain s1 sc st d ttl where s1: "verify_totp_for_user_outcome office_env chief ''000042'' ''admin_mfa_login'' None False ?s = (Inr TOTP_VALID, s1)"
      "working s1 = add_replay_record office_env 1 sc st d ttl (empty_db\<lparr>users := [chief]\<rparr>)"
    using chief_accepted by blast
  let ?d = "update_user 1 (\<lambda>v. v\<lparr>u_failed_login_count := 0, u_last_login_at := Some (now office_env)\<rparr>) (working s1)"
  let ?s2 = "s1\<lparr>working := ?d, committed := ?d\<rparr>"
  have d: "?d = add_replay_record office_env 1 sc st d ttl (empty_db\<lparr>users := [signed_in chief]\<rparr>)"
    using u(3) by (simp add: s1(2) add_replay_record_def update_users_def upd_where_def signed_in_def empty_db_def)
  have "storable ?d" unfolding d using chief_storable(2) by (simp add: storable_replay empty_db_def)
  then have c: "commitA (s1\<lparr>working := ?d\<rparr>) = (Inr (), ?s2)" by (simp add: commitA_ok)
  have none: "auth_counters (working s1) = []" "auth_counters (working ?s2) = []" "server_sessions (working ?s2) = []"
    by (simp_all add: s1(2) add_replay_record_def update_users_def empty_db_def)
  obtain sid s3 where s3: "establish_authenticated_session office_env 1 True ''admin_password+totp'' ?s2 = (Inr sid, s3)"
    using establish_returns [OF none(3)] by blast
  obtain s4 where s4: "audit_event office_env ''admin_mfa_login'' ''success'' (Some 1) [] (Some sid) s3 = (Inr (), s4)"
    using audit_event_returns by blast
  obtain p where p: "admin_auth_principal office_env ''chief@sit.example'' ?s2 = (Inr p, ?s2)" using office_principal by blast
  obtain r where fin: "finish_admin_login office_env chief (admin_mfa_failure_principal office_env (u_id chief)) s1 = (Inr r, s4)"
    using c none s3 s4 p u(3,4) by (simp add: finish_admin_login_def)
  have "enforce_admin_mfa_failure_limit office_env chief q b ?s = (Inr (), ?s)" for q b
    by (simp add: enforce_admin_mfa_failure_limit_def try_catch_def enforce_durable_failure_limit_def office_env_def sample_cfg_def w empty_db_def)
  moreover have "user_by_id (working ?s) 1 = Some chief" using u(3) by (simp add: w user_by_id_def)
  moreover have "sess_get (web ?s) ''pending_mfa_user_id'' = JInt 1" by (simp add: pending_staff_def sess_get_def jget_def)
  ultimately show ?thesis
    using fin s1(1) u(5)
    by (auto simp: complete_admin_mfa_login_def check_admin_code_def Let_def json_int_def)
qed

theorem staff_code_step_witness:
  "\<exists>r t. complete_admin_mfa_login office_env ''000042'' pending_staff = (Inr r, t) \<and> is_active_staff_user office_env (Some (al_user r))
     \<and> sess_get (web t) ''user_id'' = JInt 1"
proof -
  obtain r t where t: "complete_admin_mfa_login office_env ''000042'' pending_staff = (Inr r, t)"
    using staff_login_returns by blast
  have "json_int (sess_get (web pending_staff) ''pending_mfa_user_id'') = Some 1"
    by (simp add: pending_staff_def sess_get_def jget_def json_int_def)
  with staff_code_step [OF t] t show ?thesis by auto
qed

subsection \<open>A login and a change of the authenticator\<close>

definition clerk :: user where
  "clerk = (officer login_user ''staff'' ''carol@sit.example'')\<lparr>u_workplace_email_verified_at := Some 0\<rparr>"

definition clerk_world :: world where
  "clerk_world = fresh_world (empty_db\<lparr>users := [clerk]\<rparr>)"

lemma clerk_login: "\<exists>t. authenticate_admin_primary password_env ''Carol@sit.example'' ''open sesame'' clerk_world = (Inr (), t)"
proof -
  have n: "normalize_workplace_email password_env ''Carol@sit.example'' = Inr ''carol@sit.example''" by code_simp
  have ok: "\<not> list_ex (\<lambda>c. of_char c \<in> {0, 10, 13 :: nat}) (py_strip ''carol@sit.example'') \<and> length (py_strip ''carol@sit.example'') \<le> 255" by code_simp
  then obtain p where p: "admin_auth_principal password_env ''carol@sit.example'' clerk_world = (Inr p, clerk_world)"
    by (simp add: admin_auth_principal_def admin_normalize_email_def)
  let ?c = "\<lambda>h. (officer (alice\<lparr>u_password_hash := h\<rparr>) ''staff'' ''carol@sit.example'')\<lparr>u_workplace_email_verified_at := Some 0\<rparr>"
  have g: "staff_workplace_match ''carol@sit.example'' (?c h)" "is_active_staff_user password_env (Some (?c h))" "storable (empty_db\<lparr>users := [?c h]\<rparr>)" for h
    by code_simp+
  then have c: "staff_workplace_match ''carol@sit.example'' clerk" "is_active_staff_user password_env (Some clerk)" "storable (working clerk_world)"
    by (simp_all add: clerk_def login_user_def clerk_world_def fresh_world_def)
  have f: "staff_user_by_workplace_email ''carol@sit.example'' clerk_world = (Inr (Some clerk), clerk_world)"
    using c(1) by (simp add: staff_user_by_workplace_email_def scalar_one_or_none_def clerk_world_def fresh_world_def)
  have none: "auth_counters (working clerk_world) = []" by (simp add: clerk_world_def fresh_world_def empty_db_def)
  have b: "admin_enforce_auth_backoff password_env ''admin_login'' p clerk_world = (Inr (), clerk_world)"
    using none by (simp add: admin_enforce_auth_backoff_def apply_exponential_backoff_def try_catch_def backoff_start_attempts_def)
  have u: "u_password_hash clerk = login_hash" "u_workplace_email_verified_at clerk = Some 0" "\<not> u_is_frozen clerk" "u_security_locked_at clerk = None" "u_id clerk = 1"
    by (simp_all add: clerk_def officer_def login_user_def alice_def sample_user_def)
  have "admin_password_matches password_env (Some clerk) ''open sesame''"
    using login_hash_accepts(1) u by (simp add: admin_password_matches_def is_password_raw_length_safe_def password_env_def sample_env_def sample_cfg_def)
  then have cand: "admin_login_candidate password_env (Some clerk) ''open sesame'' = Some clerk"
    using c(2) u by (simp add: admin_login_candidate_def)
  let ?s = "clerk_world\<lparr>committed := working clerk_world\<rparr>"
  have com: "commitA clerk_world = (Inr (), ?s)" using c(3) by (simp add: commitA_ok)
  obtain s1 where s1: "begin_password_authenticated_session password_env 1 ?s = (Inr (), s1)" using begin_session_returns by blast
  obtain s2 where s2: "audit_event password_env ''admin_login_password'' ''success'' (Some 1) [(''mfa_required'', JBool True)] None s1 = (Inr (), s2)"
    using audit_event_returns by blast
  have "start_admin_challenge password_env clerk ''open sesame'' clerk_world = (Inr (), s2)"
    using u com s1 s2 none login_hash_accepts(2) by (simp add: start_admin_challenge_def rehash_if_needed_def)
  with n p b f cand show ?thesis by (simp add: authenticate_admin_primary_def normalize_admin_login_email_def)
qed

theorem staff_password_step_witness:
  "\<exists>t. authenticate_admin_primary password_env ''Carol@sit.example'' ''open sesame'' clerk_world = (Inr (), t)
     \<and> sess_get (web t) ''user_id'' = JNull \<and> sess_get (web t) ''pending_mfa_user_id'' = JInt 1"
proof -
  obtain t where t: "authenticate_admin_primary password_env ''Carol@sit.example'' ''open sesame'' clerk_world = (Inr (), t)"
    using clerk_login by blast
  have "u_id u = 1" if "filter P (users (working clerk_world)) = [u]" for P u
    using that by (auto simp: clerk_world_def fresh_world_def clerk_def officer_def login_user_def alice_def sample_user_def split: if_splits)
  with staff_password_step [OF t] t show ?thesis by auto
qed

definition staged_world :: world where
  "staged_world = (fresh_world (empty_db\<lparr>users := [chief]\<rparr>))\<lparr>web := \<lparr>ws_sid = ''sid'', ws_data = [(admin_mfa_change_secret_key, JStr ''SECRET''),
     (admin_mfa_change_started_key, JInt (now_s office_env)), (admin_mfa_change_user_key, JInt 1)], ws_modified = False\<rparr>\<rparr>"

lemma store_example:
  assumes "server_sessions (working s) = []"
    and "storable (update_user 1 (\<lambda>v. v\<lparr>u_mfa_secret_nonce := Some nonce, u_mfa_secret_ciphertext := Some ct, u_mfa_enabled := True\<rparr>) (working s))"
  shows "\<exists>t. store_own_secret office_env chief (nonce, ct) s = (Inr 0, t)"
proof -
  let ?d = "update_user 1 (\<lambda>v. v\<lparr>u_mfa_secret_nonce := Some nonce, u_mfa_secret_ciphertext := Some ct, u_mfa_enabled := True\<rparr>) (working s)"
  let ?s = "s\<lparr>working := ?d, web := (sess_pop admin_mfa_change_user_key (sess_pop admin_mfa_change_started_key
     (sess_pop admin_mfa_change_secret_key (web s))))\<lparr>ws_modified := True\<rparr>\<rparr>"
  have rev: "revoke_all_sessions office_env 1 ''admin_mfa_change'' (Some ''admin'') ?s = (Inr 0, ?s)"
    using assms(1) by (simp add: revoke_all_eq Let_def end_session_rows_def expire_stale_sessions_def update_session_where_def update_users_def)
  obtain ev where "audit_event_required office_env ''admin_mfa_change'' ''success'' (Some 1)
       [(''revoked_sessions'', JInt 0), (''actor_role'', JStr (u_account_type chief))] None ?s = (Inr (), ?s\<lparr>working := add_audit ev (working ?s)\<rparr>)"
    using audit_event_required_ready [OF office_env_fields(5)] by blast
  with rev assms(2) show ?thesis
    by (simp add: store_own_secret_def clear_pending_mfa_change_def webA_def commitA_ok)
qed

lemma encrypt_example:
  assumes "committed s = working s"
  shows "\<exists>ct t. encrypt_mfa_secret office_env secret 1 None s = (Inr (envelope_nonce_marker, ct), t)
    \<and> (working t = working s \<or> (\<exists>ev. working t = add_audit ev (working s)))"
proof -
  have "map_of (cfg_kek_keys (cfg office_env)) (cfg_kek_active_id (cfg office_env)) = Some (replicate 32 (CHR ''E''))"
    by (simp add: office_env_def sample_cfg_def)
  then show ?thesis
    using assms by (cases rule: audit_event_cases [of office_env s "''mfa_secret_'' @ ''encrypt''" "''success''" "Some 1" "[(''kek_id'', JStr (cfg_kek_active_id (cfg office_env)))]" None])
      (auto simp: encrypt_mfa_secret_def Let_def kek_def audit_mfa_crypto_def try_catch_def)
qed

lemma change_example: "\<exists>t. confirm_own_mfa_change office_env chief (Some ''000042'') staged_world = (Inr 0, t)"
proof -
  note u = chief_login_fields
  have w: "working staged_world = empty_db\<lparr>users := [chief]\<rparr>" by (simp add: staged_world_def fresh_world_def)
  have pend: "pending_mfa_change_secret office_env chief staged_world = (Inr (Some ''SECRET''), staged_world)"
    by (simp add: pending_mfa_change_secret_def staged_world_def sess_get_def jget_def admin_mfa_change_secret_key_def admin_mfa_change_started_key_def
        admin_mfa_change_user_key_def json_or_def json_int_def admin_mfa_change_ttl_seconds_def json_text_def now_s_def sample_env_def second_us_def)
  obtain step where step: "accepted_totp_step office_env ''SECRET'' ''000042'' (now_s office_env) (totp_valid_window office_env ''admin_mfa_change_confirm'' None) = Some step"
    using office_step by blast
  have six: "six_digits ''000042''" by code_simp
  from verify_accepts [OF officer_secret [OF u(1-3)] six step, of staged_world True] w chief_storable(1) storable_replay u(3)
  obtain s1 where v: "verify_totp_for_user_outcome office_env chief ''000042'' ''admin_mfa_change_confirm'' None True staged_world = (Inr TOTP_VALID, s1)"
      and s1: "\<exists>sc st d ttl. working s1 = add_replay_record office_env 1 sc st d ttl (empty_db\<lparr>users := [chief]\<rparr>)" "committed s1 = working s1"
    by (auto simp: empty_db_def) blast
  have v: "verify_totp_secret_for_user_outcome office_env chief ''SECRET'' ''000042'' ''admin_mfa_change_confirm'' None True staged_world = (Inr TOTP_VALID, s1)"
    using v officer_secret [OF u(1-3)] by (simp add: verify_totp_for_user_outcome_def)
  obtain ct s2 where e: "encrypt_mfa_secret office_env ''SECRET'' 1 None s1 = (Inr (envelope_nonce_marker, ct), s2)"
      and s2: "working s2 = working s1 \<or> (\<exists>ev. working s2 = add_audit ev (working s1))"
    using encrypt_example [OF s1(2)] by blast
  let ?f = "\<lambda>v. v\<lparr>u_mfa_secret_nonce := Some envelope_nonce_marker, u_mfa_secret_ciphertext := Some ct, u_mfa_enabled := True\<rparr>"
  have "storable (empty_db\<lparr>users := [?f (officer (alice\<lparr>u_mfa_secret_nonce := x, u_mfa_secret_ciphertext := y\<rparr>) ''root_admin'' ''chief@sit.example'')]\<rparr>)" for x y
    by code_simp
  then have "storable (empty_db\<lparr>users := [?f chief]\<rparr>)" by (simp add: chief_def code_user_def)
  then have "storable (update_user 1 ?f (add_replay_record office_env 1 sc st d ttl (empty_db\<lparr>users := [chief]\<rparr>)))" for sc st d ttl
    using storable_replay [of "empty_db\<lparr>users := [?f chief]\<rparr>"] u(3) by (simp add: add_replay_record_def update_users_def upd_where_def empty_db_def)
  then have st: "storable (update_user 1 ?f (working s2))" "server_sessions (working s2) = []"
    using s1(1) s2 by (auto simp: update_users_def add_audit_def add_replay_record_def storable_def numerics_ok_def constraints_ok_def empty_db_def)
  from store_example [OF st(2,1)] pend v e u(3) show ?thesis
    by (auto simp: confirm_own_mfa_change_def activate_split or_default_def)
qed

theorem own_authenticator_change_witness:
  "\<exists>nonce ct t. confirm_own_mfa_change office_env chief (Some ''000042'') staged_world = (Inr 0, t) \<and> both (secret_changed office_env 1 nonce ct) t"
proof -
  obtain t where t: "confirm_own_mfa_change office_env chief (Some ''000042'') staged_world = (Inr 0, t)" using change_example by blast
  have "working staged_world = committed staged_world" "user_by_id (committed staged_world) (u_id chief) = Some chief"
    by (simp_all add: staged_world_def fresh_world_def user_by_id_def)
  from own_authenticator_change [OF t this] t show ?thesis by auto
qed

end
