(* ===== verification/State_Cleanup.thy ===== *)
theory State_Cleanup
  imports Registration
begin

section \<open>Clean-up of expired state\<close>

text \<open>
  \<^verbatim>\<open>app/security/state_cleanup.py\<close>, \<^verbatim>\<open>app/security/retention.py\<close> and the command \<^verbatim>\<open>run-retention-cleanup\<close> of \<^verbatim>\<open>app/ops/commands.py\<close>: batches of expired
  rows are deleted from eleven tables, in one transaction with the audit event that reports them. A batch is the rows with the smallest ids that
  satisfy the condition of the table, up to the limit. \<^verbatim>\<open>log_committed_system_audit_event\<close>, which the command calls after the commit, only writes
  the committed event to the log and is left out.
\<close>

definition batch_ids :: "('r \<Rightarrow> int) \<Rightarrow> ('r \<Rightarrow> bool) \<Rightarrow> int \<Rightarrow> 'r list \<Rightarrow> int list" where
  "batch_ids key p limit rows = take (nat limit) (sort (map key (filter p rows)))"

definition prune :: "('r \<Rightarrow> int) \<Rightarrow> ('r \<Rightarrow> bool) \<Rightarrow> int \<Rightarrow> 'r list \<Rightarrow> 'r list" where
  "prune key p limit rows = filter (\<lambda>r. key r \<notin> set (batch_ids key p limit rows)) rows"

text \<open>\<open>update\<close> is the record update of the table; a condition may read the database.\<close>

definition delete_rows ::
  "(database \<Rightarrow> 'r list) \<Rightarrow> (('r list \<Rightarrow> 'r list) \<Rightarrow> database \<Rightarrow> database) \<Rightarrow> ('r \<Rightarrow> int) \<Rightarrow> (database \<Rightarrow> 'r \<Rightarrow> bool) \<Rightarrow> int \<Rightarrow> bool \<Rightarrow> int request"
where
  "delete_rows rows update key p limit dry_run =
     bindA (queryA (\<lambda>db. batch_ids key (p db) limit (rows db))) (\<lambda>ids.
     if ids = [] then ret 0
     else if dry_run then ret (int (length ids))
     else bindA (updateA (update (filter (\<lambda>r. key r \<notin> set ids)))) (\<lambda>_. ret (int (length ids))))"

definition batch_limit :: "env \<Rightarrow> int option \<Rightarrow> int" where
  "batch_limit e limit = max 1 (min (case limit of Some n \<Rightarrow> n | None \<Rightarrow> cfg_cleanup_batch_size (cfg e)) 5000)"

definition session_overdue :: "time \<Rightarrow> server_session \<Rightarrow> bool" where
  "session_overdue t r \<longleftrightarrow> ss_revoked_at r = None \<and> ss_ended_at r = None \<and> ss_expires_at r \<le> t"

definition overdue_sessions :: "time \<Rightarrow> int \<Rightarrow> database \<Rightarrow> server_session list" where
  "overdue_sessions t limit db = take (nat limit) (sort_key (\<lambda>r. (ss_expires_at r, ss_id r)) (filter (session_overdue t) (server_sessions db)))"

definition ended_session :: "time \<Rightarrow> server_session \<Rightarrow> server_session" where
  "ended_session t r = r\<lparr>ss_payload := None, ss_revoked_at := Some t, ss_ended_at := Some t, ss_ended_reason := Some ''expired''\<rparr>"

definition end_sessions :: "time \<Rightarrow> int list \<Rightarrow> database \<Rightarrow> database" where
  "end_sessions t ids db = db\<lparr>server_sessions := upd_where (\<lambda>r. ss_id r \<in> set ids) (ended_session t) (server_sessions db)\<rparr>"

definition mark_expired_sessions :: "time \<Rightarrow> int \<Rightarrow> bool \<Rightarrow> int request" where
  "mark_expired_sessions t limit dry_run =
     bindA (queryA (overdue_sessions t limit)) (\<lambda>records.
     if dry_run then ret (int (length records))
     else bindA (updateA (end_sessions t (map ss_id records))) (\<lambda>_. ret (int (length records))))"

text \<open>The conditions of the tables, at an instant and with a cutoff.\<close>

definition old_session :: "time \<Rightarrow> server_session \<Rightarrow> bool" where
  "old_session cutoff r = (case ss_ended_at r of None \<Rightarrow> False | Some t \<Rightarrow> t < cutoff)"

definition spent_token :: "time \<Rightarrow> database \<Rightarrow> reset_token \<Rightarrow> bool" where
  "spent_token t db r \<longleftrightarrow> rt_expires_at r \<le> t \<and> rt_id r \<notin> rx_token_id ` set (reset_transactions db)"

definition idle_breaker :: "time \<Rightarrow> circuit_breaker \<Rightarrow> bool" where
  "idle_breaker cutoff r \<longleftrightarrow> cb_state r \<noteq> ''open'' \<and> cb_updated_at r < cutoff"

definition terminal_topup :: "time \<Rightarrow> topup_request \<Rightarrow> bool" where
  "terminal_topup cutoff r \<longleftrightarrow> tr_status r \<in> {''completed'', ''expired'', ''failed''} \<and> tr_expires_at r < cutoff"

definition cleanup_batches :: "time \<Rightarrow> time \<Rightarrow> int \<Rightarrow> bool \<Rightarrow> (string \<times> int) list request" where
  "cleanup_batches t cutoff limit dry =
     bindA (mark_expired_sessions t limit dry) (\<lambda>n1.
     bindA (delete_rows server_sessions server_sessions_update ss_id (\<lambda>_. old_session cutoff) limit dry) (\<lambda>n2.
     bindA (delete_rows auth_counters auth_counters_update ac_id (\<lambda>_ r. ac_window_expires_at r \<le> t) limit dry) (\<lambda>n3.
     bindA (delete_rows totp_replays totp_replays_update rp_id (\<lambda>_ r. rp_expires_at r \<le> t) limit dry) (\<lambda>n4.
     bindA (delete_rows registration_otps registration_otps_update ro_id (\<lambda>_ r. ro_expires_at r \<le> t) limit dry) (\<lambda>n5.
     bindA (delete_rows reset_transactions reset_transactions_update rx_id (\<lambda>_ r. rx_expires_at r \<le> t) limit dry) (\<lambda>n6.
     bindA (delete_rows reset_tokens reset_tokens_update rt_id (spent_token t) limit dry) (\<lambda>n7.
     bindA (delete_rows alert_dedupes alert_dedupes_update ad_id (\<lambda>_ r. ad_expires_at r \<le> t) limit dry) (\<lambda>n8.
     bindA (delete_rows circuit_breakers circuit_breakers_update cb_id (\<lambda>_. idle_breaker cutoff) limit dry) (\<lambda>n9.
     bindA (delete_rows idempotency_rows idempotency_rows_update pi_id (\<lambda>_ r. pi_expires_at r \<le> t) limit dry) (\<lambda>n10.
     bindA (delete_rows known_devices known_devices_update kd_id (\<lambda>_ r. kd_expires_at r \<le> t) limit dry) (\<lambda>n11.
     bindA (delete_rows topup_requests topup_requests_update tr_id (\<lambda>_. terminal_topup cutoff) limit dry) (\<lambda>n12.
     ret [(''expired_sessions_marked'', n1), (''old_sessions_deleted'', n2), (''auth_attempt_counters_deleted'', n3),
       (''totp_replay_records_deleted'', n4), (''registration_otp_challenges_deleted'', n5), (''password_reset_transactions_deleted'', n6),
       (''password_reset_tokens_deleted'', n7), (''security_alert_dedupe_deleted'', n8), (''security_circuit_breakers_deleted'', n9),
       (''public_transaction_idempotency_deleted'', n10), (''expired_known_devices_deleted'', n11),
       (''terminal_topup_approval_requests_deleted'', n12)]))))))))))))"

definition cleanup_expired_security_state :: "env \<Rightarrow> time option \<Rightarrow> int option \<Rightarrow> bool \<Rightarrow> bool \<Rightarrow> (string \<times> int) list request" where
  "cleanup_expired_security_state e at limit dry_run commit =
     (let t = (case at of Some t \<Rightarrow> t | None \<Rightarrow> now e);
          cutoff = t - seconds (86400 * cfg_state_retention_days (cfg e)) in
      bindA (cleanup_batches t cutoff (batch_limit e limit) dry_run) (\<lambda>counts.
      bindA (if dry_run then rollbackA else if commit then commitA else flushA) (\<lambda>_.
      ret counts)))"

subsection \<open>The reviewed job\<close>

record retention_report =
  rr_mode :: string
  rr_dry_run :: bool
  rr_retention_days :: int
  rr_batch_limit :: int
  rr_category_counts :: "(string \<times> int) list"

definition configured_int :: "string \<Rightarrow> int \<Rightarrow> int \<Rightarrow> int \<Rightarrow> py_error + int" where
  "configured_int name value minimum maximum =
     (if value < minimum \<or> maximum < value then Inl (ValueError (name @ '' must be between '' @ int_str minimum @ '' and '' @ int_str maximum)) else Inr value)"

definition validated_limit :: "int option \<Rightarrow> py_error + int option" where
  "validated_limit limit =
     (case limit of None \<Rightarrow> Inr None
      | Some n \<Rightarrow> if n < 1 \<or> 5000 < n then Inl (ValueError ''--limit must be between 1 and 5000'') else Inr (Some n))"

definition run_retention_cleanup :: "env \<Rightarrow> time option \<Rightarrow> int option \<Rightarrow> bool \<Rightarrow> bool \<Rightarrow> bool \<Rightarrow> retention_report request" where
  "run_retention_cleanup e at limit dry_run confirm commit =
     (case configured_int ''SECURITY_STATE_RETENTION_DAYS'' (cfg_state_retention_days (cfg e)) 1 365 of
        Inl err \<Rightarrow> raise err
      | Inr days \<Rightarrow>
     (case configured_int ''SECURITY_STATE_CLEANUP_BATCH_SIZE'' (cfg_cleanup_batch_size (cfg e)) 1 5000 of
        Inl err \<Rightarrow> raise err
      | Inr configured \<Rightarrow>
     (case validated_limit limit of
        Inl err \<Rightarrow> raise err
      | Inr requested \<Rightarrow>
          if \<not> dry_run \<and> \<not> confirm then raise (ValueError ''State-changing retention cleanup requires --confirm'')
          else
            bindA (cleanup_expired_security_state e at requested dry_run commit) (\<lambda>counts.
            ret \<lparr>rr_mode = (if dry_run then ''dry_run'' else ''confirmed''), rr_dry_run = dry_run, rr_retention_days = days,
              rr_batch_limit = (case requested of Some n \<Rightarrow> n | None \<Rightarrow> configured), rr_category_counts = counts\<rparr>))))"

text \<open>\<^verbatim>\<open>_run_audited_retention_cleanup\<close>; the text of a \<^verbatim>\<open>ClickException\<close> is the left result.\<close>

definition requested_metadata :: "int option \<Rightarrow> bool \<Rightarrow> (string \<times> json) list" where
  "requested_metadata limit confirm =
     [(''mode'', JStr (if confirm then ''confirmed'' else ''dry_run'')), (''dry_run'', JBool (\<not> confirm)),
      (''batch_limit_requested'', opt_json JInt limit)]"

definition completed_metadata :: "retention_report \<Rightarrow> (string \<times> json) list" where
  "completed_metadata r =
     [(''mode'', JStr (rr_mode r)), (''dry_run'', JBool (rr_dry_run r)), (''retention_days'', JInt (rr_retention_days r)),
      (''batch_limit'', JInt (rr_batch_limit r)), (''category_counts'', JObj (map (map_prod id JInt) (rr_category_counts r))),
      (''scheduling'', JStr ''weekly_operator_reviewed_dry_run'')]"

definition retention_failed :: "env \<Rightarrow> int option \<Rightarrow> bool \<Rightarrow> py_error \<Rightarrow> unit request" where
  "retention_failed e limit confirm err =
     bindA rollbackA (\<lambda>_.
     condA confirm (audit_system_event e ''retention_cleanup'' ''failed'' None
       (requested_metadata limit confirm @ [(''error_type'', JStr (case err of ValueError _ \<Rightarrow> ''RetentionCleanupError'' | _ \<Rightarrow> error_type err))])))"

definition retention_message :: "py_error \<Rightarrow> string" where
  "retention_message err = (case err of ValueError m \<Rightarrow> m | _ \<Rightarrow> ''Retention cleanup failed and no cleanup changes were committed'')"

definition report_retention :: "env \<Rightarrow> int option \<Rightarrow> bool \<Rightarrow> retention_report \<Rightarrow> (string + retention_report) request" where
  "report_retention e limit confirm result =
     (if confirm then
        try_catch
          (bindA (audit_system_event_in_transaction_required e ''retention_cleanup'' ''completed'' None (completed_metadata result)) (\<lambda>_.
           bindA commitA (\<lambda>_.
           ret (Inr result))))
          (\<lambda>err. bindA (retention_failed e limit True err) (\<lambda>_.
           ret (Inl ''Retention cleanup rolled back because completion audit evidence could not be recorded'')))
      else
        bindA (audit_system_event e ''retention_cleanup'' ''dry_run'' None (completed_metadata result)) (\<lambda>_.
        ret (Inr result)))"

text \<open>The event that has to be on record before rows are deleted.\<close>

definition start_retention :: "env \<Rightarrow> int option \<Rightarrow> bool \<Rightarrow> bool request" where
  "start_retention e limit confirm =
     try_catch
       (bindA (condA confirm (audit_system_event_required e ''retention_cleanup'' ''started'' None (requested_metadata limit confirm))) (\<lambda>_. ret True))
       (\<lambda>err. case err of AuditWriteError _ \<Rightarrow> ret False | _ \<Rightarrow> raise err)"

definition attempt_retention :: "env \<Rightarrow> int option \<Rightarrow> bool \<Rightarrow> (string + retention_report) request" where
  "attempt_retention e limit confirm =
     try_catch
       (bindA (run_retention_cleanup e None limit (\<not> confirm) confirm (\<not> confirm)) (\<lambda>r. ret (Inr r)))
       (\<lambda>err. bindA (retention_failed e limit confirm err) (\<lambda>_. ret (Inl (retention_message err))))"

definition run_audited_retention_cleanup :: "env \<Rightarrow> int option \<Rightarrow> bool \<Rightarrow> (string + retention_report) request" where
  "run_audited_retention_cleanup e limit confirm =
     bindA (start_retention e limit confirm) (\<lambda>started.
     if \<not> started then ret (Inl ''Retention cleanup refused because audit evidence is unavailable'')
     else
       bindA (attempt_retention e limit confirm) (\<lambda>outcome.
       case outcome of
         Inl message \<Rightarrow> ret (Inl message)
       | Inr result \<Rightarrow> report_retention e limit confirm result))"

subsection \<open>What a batch does to a table\<close>

lemma batch_subset: "set (batch_ids key p limit rows) \<subseteq> key ` {r \<in> set rows. p r}"
  unfolding batch_ids_def by (auto dest!: in_set_takeD)

lemma subseq_prune: "subseq (prune key p limit rows) rows"
  unfolding prune_def by (rule subseq_filter_left)

lemma prune_keeps:
  assumes "distinct (map key rows)"
  shows "filter (\<lambda>r. \<not> p r) (prune key p limit rows) = filter (\<lambda>r. \<not> p r) rows"
proof -
  have "key r \<notin> set (batch_ids key p limit rows)" if "r \<in> set rows" "\<not> p r" for r
    using batch_subset [of key p limit rows] assms that by (auto simp: distinct_map inj_on_def)
  then show ?thesis unfolding prune_def by (auto intro: filter_cong)
qed

lemma remove_ids:
  assumes "distinct (map key rows)" and "distinct ids" and "set ids \<subseteq> key ` set (filter p rows)"
  shows "length (filter (\<lambda>r. p r \<and> key r \<notin> set ids) rows) = length (filter p rows) - length ids"
proof -
  let ?ids = "set ids"
  have d: "distinct (map key (filter p rows))" using assms(1) by (rule distinct_map_filter)
  have inj: "inj_on key (set (filter p rows))" using d by (simp add: distinct_map)
  have "filter (\<lambda>r. p r \<and> key r \<notin> ?ids) rows = filter (\<lambda>r. key r \<notin> ?ids) (filter p rows)"
    by (simp add: conj_commute)
  moreover have "distinct (filter p rows)" using d by (simp add: distinct_map)
  then have "distinct (filter (\<lambda>r. key r \<notin> ?ids) (filter p rows))" by (rule distinct_filter)
  from distinct_card [OF this] have "length (filter (\<lambda>r. key r \<notin> ?ids) (filter p rows)) = card {r \<in> set (filter p rows). key r \<notin> ?ids}"
    by (simp only: set_filter)
  moreover have "card (key ` {r \<in> set (filter p rows). key r \<notin> ?ids}) = card {r \<in> set (filter p rows). key r \<notin> ?ids}"
    by (rule card_image) (rule inj_on_subset [OF inj], auto)
  moreover have "key ` {r \<in> set (filter p rows). key r \<notin> ?ids} = key ` set (filter p rows) - ?ids" by auto
  moreover have "card (key ` set (filter p rows) - ?ids) = length (filter p rows) - card ?ids"
    using card_Diff_subset [OF _ assms(3)] card_image [OF inj] distinct_card [OF \<open>distinct (filter p rows)\<close>] by (simp del: set_filter)
  ultimately show ?thesis using distinct_card [OF assms(2)] by simp
qed

lemma prune_removes:
  assumes "distinct (map key rows)"
  shows "length (filter p (prune key p limit rows)) = length (filter p rows) - nat limit"
proof -
  let ?ids = "batch_ids key p limit rows"
  have d: "distinct (map key (filter p rows))" using assms by (rule distinct_map_filter)
  have "distinct ?ids" "length ?ids = min (nat limit) (length (filter p rows))" using d by (simp_all add: batch_ids_def)
  moreover have "set ?ids \<subseteq> key ` set (filter p rows)" using batch_subset [of key p limit rows] by auto
  ultimately show ?thesis using remove_ids [OF assms, of ?ids p] by (simp add: prune_def conj_commute min_def)
qed

lemma prune_other:
  "distinct (map key rows) \<Longrightarrow> (\<And>r. q r \<Longrightarrow> \<not> p r) \<Longrightarrow> filter q (prune key p limit rows) = filter q rows"
proof -
  assume d: "distinct (map key rows)" and q: "\<And>r. q r \<Longrightarrow> \<not> p r"
  have "filter q zs = filter q (filter (\<lambda>r. \<not> p r) zs)" for zs using q by (auto intro: filter_cong)
  with prune_keeps [OF d, of p limit] show ?thesis by metis
qed

text \<open>A column of the database and its update.\<close>

locale table =
  fixes rows :: "database \<Rightarrow> 'r list" and update :: "('r list \<Rightarrow> 'r list) \<Rightarrow> database \<Rightarrow> database"
  assumes update_cong: "f (rows db) = g (rows db) \<Longrightarrow> update f db = update g db" and update_same: "update (\<lambda>xs. xs) db = db"
begin

lemma delete_rows_apply:
  "delete_rows rows update key p limit False s =
    (Inr (int (length (batch_ids key (p (working s)) limit (rows (working s))))), s\<lparr>working := update (prune key (p (working s)) limit) (working s)\<rparr>)"
proof -
  let ?ids = "batch_ids key (p (working s)) limit (rows (working s))"
  have u: "update (filter (\<lambda>r. key r \<notin> set ?ids)) (working s) = update (prune key (p (working s)) limit) (working s)"
    by (rule update_cong) (simp add: prune_def)
  have "update (prune key (p (working s)) limit) (working s) = working s" if "?ids = []"
    using update_cong [of "prune key (p (working s)) limit" "working s" "\<lambda>xs. xs"] that by (simp add: prune_def update_same)
  then show ?thesis by (auto simp: delete_rows_def u)
qed

lemma delete_rows_run: "bindA (delete_rows rows update key p limit False) k s =
    k (int (length (batch_ids key (p (working s)) limit (rows (working s))))) (s\<lparr>working := update (prune key (p (working s)) limit) (working s)\<rparr>)"
  by (simp add: bindA_def delete_rows_apply)

end

interpretation server_sessions_table: table server_sessions server_sessions_update
  by unfold_locales (auto intro: database.equality)

interpretation auth_counters_table: table auth_counters auth_counters_update
  by unfold_locales (auto intro: database.equality)

interpretation totp_replays_table: table totp_replays totp_replays_update
  by unfold_locales (auto intro: database.equality)

interpretation registration_otps_table: table registration_otps registration_otps_update
  by unfold_locales (auto intro: database.equality)

interpretation reset_transactions_table: table reset_transactions reset_transactions_update
  by unfold_locales (auto intro: database.equality)

interpretation reset_tokens_table: table reset_tokens reset_tokens_update
  by unfold_locales (auto intro: database.equality)

interpretation alert_dedupes_table: table alert_dedupes alert_dedupes_update
  by unfold_locales (auto intro: database.equality)

interpretation circuit_breakers_table: table circuit_breakers circuit_breakers_update
  by unfold_locales (auto intro: database.equality)

interpretation idempotency_rows_table: table idempotency_rows idempotency_rows_update
  by unfold_locales (auto intro: database.equality)

interpretation known_devices_table: table known_devices known_devices_update
  by unfold_locales (auto intro: database.equality)

interpretation topup_requests_table: table topup_requests topup_requests_update
  by unfold_locales (auto intro: database.equality)

lemmas delete_runs = server_sessions_table.delete_rows_run auth_counters_table.delete_rows_run totp_replays_table.delete_rows_run registration_otps_table.delete_rows_run reset_transactions_table.delete_rows_run reset_tokens_table.delete_rows_run alert_dedupes_table.delete_rows_run circuit_breakers_table.delete_rows_run idempotency_rows_table.delete_rows_run known_devices_table.delete_rows_run topup_requests_table.delete_rows_run

text \<open>The whole clean-up as a function on the database.\<close>

definition cleaned :: "time \<Rightarrow> time \<Rightarrow> int \<Rightarrow> database \<Rightarrow> database" where
  "cleaned t cutoff limit db =
     (let db = end_sessions t (map ss_id (overdue_sessions t limit db)) db;
          db = server_sessions_update (prune ss_id (old_session cutoff) limit) db;
          db = auth_counters_update (prune ac_id (\<lambda>r. ac_window_expires_at r \<le> t) limit) db;
          db = totp_replays_update (prune rp_id (\<lambda>r. rp_expires_at r \<le> t) limit) db;
          db = registration_otps_update (prune ro_id (\<lambda>r. ro_expires_at r \<le> t) limit) db;
          db = reset_transactions_update (prune rx_id (\<lambda>r. rx_expires_at r \<le> t) limit) db;
          db = reset_tokens_update (prune rt_id (spent_token t db) limit) db;
          db = alert_dedupes_update (prune ad_id (\<lambda>r. ad_expires_at r \<le> t) limit) db;
          db = circuit_breakers_update (prune cb_id (idle_breaker cutoff) limit) db;
          db = idempotency_rows_update (prune pi_id (\<lambda>r. pi_expires_at r \<le> t) limit) db;
          db = known_devices_update (prune kd_id (\<lambda>r. kd_expires_at r \<le> t) limit) db
      in topup_requests_update (prune tr_id (terminal_topup cutoff) limit) db)"

lemma cleanup_batches_apply:
  "\<exists>counts. cleanup_batches t cutoff limit False s = (Inr counts, s\<lparr>working := cleaned t cutoff limit (working s)\<rparr>)"
  unfolding cleanup_batches_def mark_expired_sessions_def
  by (simp add: delete_runs cleaned_def Let_def)

lemma delete_rows_dry: "\<exists>n. delete_rows rows update key p limit True s = (Inr n, s)"
  by (simp add: delete_rows_def)

lemma dry_bind: "\<exists>n. m s = (Inr n, s) \<Longrightarrow> (\<And>n. \<exists>c. k n s = (Inr c, s)) \<Longrightarrow> \<exists>c. bindA m k s = (Inr c, s)"
  by (auto simp: bindA_def)

lemma cleanup_batches_dry: "\<exists>counts. cleanup_batches t cutoff limit True s = (Inr counts, s)"
  unfolding cleanup_batches_def by (intro dry_bind delete_rows_dry) (simp_all add: mark_expired_sessions_def)

definition cutoff_at :: "env \<Rightarrow> time \<Rightarrow> time" where
  "cutoff_at e t = t - seconds (86400 * cfg_state_retention_days (cfg e))"

lemma bindA_apply: "m s = (Inr x, t) \<Longrightarrow> bindA m k s = k x t"
  by (simp add: bindA_def)

lemma cleanup_uncommitted:
  assumes "cleanup_expired_security_state e None limit False False s = (x, t)"
  shows "committed t = committed s" "x = Inr counts \<Longrightarrow> working t = cleaned (now e) (cutoff_at e (now e)) (batch_limit e limit) (working s)"
proof -
  obtain counts' where "cleanup_batches (now e) (cutoff_at e (now e)) (batch_limit e limit) False s =
      (Inr counts', s\<lparr>working := cleaned (now e) (cutoff_at e (now e)) (batch_limit e limit) (working s)\<rparr>)" using cleanup_batches_apply by blast
  with assms have "bindA flushA (\<lambda>_. ret counts') (s\<lparr>working := cleaned (now e) (cutoff_at e (now e)) (batch_limit e limit) (working s)\<rparr>) = (x, t)"
    by (simp add: cleanup_expired_security_state_def Let_def cutoff_at_def bindA_def)
  then show "committed t = committed s" "x = Inr counts \<Longrightarrow> working t = cleaned (now e) (cutoff_at e (now e)) (batch_limit e limit) (working s)"
    by (auto simp: bindA_def flushA_def split: if_splits)
qed

lemma cleanup_dry:
  assumes "cleanup_expired_security_state e at limit True commit s = (x, t)"
  shows "committed t = committed s" "working t = committed s"
proof -
  let ?t = "case at of Some t \<Rightarrow> t | None \<Rightarrow> now e"
  obtain counts where "cleanup_batches ?t (?t - seconds (86400 * cfg_state_retention_days (cfg e))) (batch_limit e limit) True s = (Inr counts, s)"
    using cleanup_batches_dry by blast
  then show "committed t = committed s" "working t = committed s" using assms by (auto simp: cleanup_expired_security_state_def Let_def bindA_def)
qed

lemma run_retention_spec:
  assumes "run_retention_cleanup e None limit (\<not> confirm) confirm (\<not> confirm) s = (x, t)"
  shows "committed t = committed s \<and>
    (\<not> isl x \<longrightarrow> working t = (if confirm then cleaned (now e) (cutoff_at e (now e)) (batch_limit e limit) (working s) else committed s))"
proof -
  have v: "validated_limit limit = Inr l \<Longrightarrow> l = limit" for l
    by (auto simp: validated_limit_def split: option.splits if_splits)
  consider err where "x = Inl err" "t = s"
    | y where "cleanup_expired_security_state e None limit (\<not> confirm) (\<not> confirm) s = (y, t)" "isl y = isl x"
    using assms
    by (auto simp: run_retention_cleanup_def bindA_def split: sum.splits prod.splits dest!: v)
  then show ?thesis
  proof cases
    case (2 y)
    have "committed t = committed s" using 2(1) cleanup_dry(1) cleanup_uncommitted(1) by (cases confirm) auto
    moreover have "\<not> isl x \<longrightarrow> working t = (if confirm then cleaned (now e) (cutoff_at e (now e)) (batch_limit e limit) (working s) else committed s)"
      using 2 cleanup_uncommitted(2) cleanup_dry(2) by (cases y; cases confirm) auto
    ultimately show ?thesis ..
  qed simp_all
qed

lemma retention_failed_spec:
  assumes "retention_failed e limit confirm err s = (x, t)" and "same_but_audit a (committed s)"
  shows "same_but_audit a (committed t)"
proof -
  have "preserves (both (same_but_audit a)) (condA confirm (audit_system_event e t' o' u' m'))" for t' o' u' m'
    unfolding audit_system_event_def by (intro preserves_rules keeps_same_but_audit)
  moreover have "both (same_but_audit a) (s\<lparr>working := committed s\<rparr>)" using assms(2) by (simp add: both_def)
  ultimately have "both (same_but_audit a) t"
    using assms(1) unfolding retention_failed_def by (simp add: bindA_apply [OF rollbackA_apply]) (blast dest: preservesD')
  then show ?thesis by (simp add: both_def)
qed

lemma report_spec:
  assumes run: "report_retention e limit confirm r s = (x, t)" and s: "same_but_audit a (committed s)" "\<not> confirm \<longrightarrow> same_but_audit a (working s)"
  shows "same_but_audit a (committed t) \<or>
    (confirm \<and> x = Inr (Inr r) \<and> (\<exists>ev. committed t = add_audit ev (working s)
      \<and> sealed e (draft_system_event e ''retention_cleanup'' ''completed'' None (completed_metadata r)) (audit_rows (working s)) ev))"
proof (cases confirm)
  case False
  have p: "preserves (both (same_but_audit a)) (audit_system_event e t' o' u' m')" for t' o' u' m'
    unfolding audit_system_event_def by (intro preserves_rules keeps_same_but_audit)
  have "both (same_but_audit a) s" using s False by (simp add: both_def)
  moreover have "preserves (both (same_but_audit a)) (report_retention e limit False r)"
    unfolding report_retention_def if_False by (intro preserves_rules p)
  ultimately have "both (same_but_audit a) t" using run False by (auto dest: preservesD')
  then show ?thesis by (simp add: both_def)
next
  case True
  let ?d = "draft_system_event e ''retention_cleanup'' ''completed'' None (completed_metadata r)"
  let ?h = "\<lambda>err. bindA (retention_failed e limit True err) (\<lambda>_. ret (Inl ''Retention cleanup rolled back because completion audit evidence could not be recorded''))"
  have failed: "same_but_audit a (committed t)" if "?h err s' = (x, t)" "committed s' = committed s" for err s'
    using that s(1) retention_failed_spec [of e limit True err s' _ _ a] by (auto simp: bindA_def split: prod.splits sum.splits)
  show ?thesis
  proof (cases rule: insert_event_cases [of e ?d s])
    case (1 ev)
    let ?s = "s\<lparr>working := add_audit ev (working s)\<rparr>"
    show ?thesis
      using run True 1 failed
      by (cases rule: commitA_cases [of ?s])
         (auto simp: report_retention_def audit_system_event_in_transaction_required_def write_system_audit_event_def try_catch_def bindA_def)
  next
    case (2 err)
    then show ?thesis
      using run True failed
      by (auto simp: report_retention_def audit_system_event_in_transaction_required_def write_system_audit_event_def try_catch_def bindA_def)
  qed
qed

lemma attempt_spec:
  assumes "attempt_retention e limit confirm s = (x, t)" and "both (same_but_audit a) s"
  shows "same_but_audit a (committed t)"
    and "x = Inr (Inr r) \<Longrightarrow> (confirm \<longrightarrow> working t = cleaned (now e) (cutoff_at e (now e)) (batch_limit e limit) (working s))
      \<and> (\<not> confirm \<longrightarrow> same_but_audit a (working t))"
proof -
  obtain z s2 where z: "run_retention_cleanup e None limit (\<not> confirm) confirm (\<not> confirm) s = (z, s2)" by fastforce
  note sp = run_retention_spec [OF z]
  have c2: "same_but_audit a (committed s2)" using sp assms(2) by (simp add: both_def)
  have "same_but_audit a (committed t) \<and> (x = Inr (Inr r) \<longrightarrow> \<not> isl z \<and> t = s2)"
  proof (cases z)
    case (Inl err)
    with assms(1) z obtain w where w: "retention_failed e limit confirm err s2 = (w, t)" "x \<noteq> Inr (Inr r)"
      by (auto simp: attempt_retention_def bindA_def try_catch_def split: prod.splits sum.splits)
    then show ?thesis using retention_failed_spec [OF w(1) c2] by simp
  next
    case (Inr r')
    with assms(1) z have "t = s2" by (simp add: attempt_retention_def bindA_def try_catch_def)
    with Inr c2 show ?thesis by simp
  qed
  then show "same_but_audit a (committed t)" "x = Inr (Inr r) \<Longrightarrow> (confirm \<longrightarrow> working t = cleaned (now e) (cutoff_at e (now e)) (batch_limit e limit) (working s))
      \<and> (\<not> confirm \<longrightarrow> same_but_audit a (working t))" using sp c2 by auto
qed

lemma preserves_start_retention: "preserves (both (same_but_audit a)) (start_retention e limit confirm)"
  unfolding start_retention_def audit_system_event_required_def by (intro preserves_rules keeps_same_but_audit)

lemma audited_cleanup:
  assumes run: "run_audited_retention_cleanup e limit confirm s = (x, t)" and s: "working s = committed s"
  shows "same_but_audit (committed s) (committed t) \<or>
    (confirm \<and> (\<exists>r db ev. x = Inr (Inr r) \<and> same_but_audit (committed s) db
      \<and> committed t = add_audit ev (cleaned (now e) (cutoff_at e (now e)) (batch_limit e limit) db)
      \<and> sealed e (draft_system_event e ''retention_cleanup'' ''completed'' None (completed_metadata r)) (audit_rows db) ev))"
proof -
  let ?P = "same_but_audit (committed s)"
  obtain y s1 where y: "start_retention e limit confirm s = (y, s1)" by fastforce
  have s1: "both ?P s1" using preservesD' [OF preserves_start_retention y] s by (simp add: both_def)
  obtain z s2 where z: "attempt_retention e limit confirm s1 = (z, s2)" by fastforce
  note sp = attempt_spec [OF z s1]
  consider "committed t = committed s1" | "committed t = committed s2" | r where "z = Inr (Inr r)" "report_retention e limit confirm r s2 = (x, t)"
    using run y z by (auto simp: run_audited_retention_cleanup_def bindA_def split: sum.splits if_splits)
  then show ?thesis
  proof cases
    case 1
    then show ?thesis using s1 by (simp add: both_def)
  next
    case 2
    then show ?thesis using sp(1) by simp
  next
    case (3 r)
    have rows: "audit_rows (cleaned t' c l db) = audit_rows db" for t' c l db by (simp add: cleaned_def Let_def end_sessions_def)
    from report_spec [OF 3(2) sp(1)] sp(2) [OF 3(1)] s1 show ?thesis
      by (auto simp: both_def rows intro!: exI [of _ "working s1"])
  qed
qed

subsection \<open>What stays and what goes\<close>

definition pruned :: "('r \<Rightarrow> bool) \<Rightarrow> 'r list \<Rightarrow> 'r list \<Rightarrow> bool" where
  "pruned p xs ys \<longleftrightarrow> subseq ys xs \<and> filter (\<lambda>r. \<not> p r) ys = filter (\<lambda>r. \<not> p r) xs"

lemma pruned_prune: "distinct (map key xs) \<Longrightarrow> pruned p xs (prune key p limit xs)"
  by (simp add: pruned_def subseq_prune prune_keeps)

lemma pruned_weaken: "pruned p xs ys \<Longrightarrow> (\<And>r. p r \<Longrightarrow> q r) \<Longrightarrow> pruned q xs ys"
proof -
  assume p: "pruned p xs ys" and q: "\<And>r. p r \<Longrightarrow> q r"
  have "filter (\<lambda>r. \<not> q r) zs = filter (\<lambda>r. \<not> q r) (filter (\<lambda>r. \<not> p r) zs)" for zs using q by (auto intro: filter_cong)
  with p show ?thesis unfolding pruned_def by metis
qed

definition ids_distinct :: "database \<Rightarrow> bool" where
  "ids_distinct db \<longleftrightarrow> distinct (map ss_id (server_sessions db)) \<and> distinct (map ac_id (auth_counters db)) \<and> distinct (map rp_id (totp_replays db))
     \<and> distinct (map ro_id (registration_otps db)) \<and> distinct (map rx_id (reset_transactions db)) \<and> distinct (map rt_id (reset_tokens db))
     \<and> distinct (map ad_id (alert_dedupes db)) \<and> distinct (map cb_id (circuit_breakers db)) \<and> distinct (map pi_id (idempotency_rows db))
     \<and> distinct (map kd_id (known_devices db)) \<and> distinct (map tr_id (topup_requests db))"

text \<open>Only expired rows go, at the instant \<open>t\<close> and with the cutoff \<open>c\<close>; the records that are to be kept are untouched.\<close>

definition live_kept :: "time \<Rightarrow> time \<Rightarrow> database \<Rightarrow> database \<Rightarrow> bool" where
  "live_kept t c db db' \<longleftrightarrow>
     pruned (\<lambda>r. ac_window_expires_at r \<le> t) (auth_counters db) (auth_counters db')
     \<and> pruned (\<lambda>r. rp_expires_at r \<le> t) (totp_replays db) (totp_replays db')
     \<and> pruned (\<lambda>r. ro_expires_at r \<le> t) (registration_otps db) (registration_otps db')
     \<and> pruned (\<lambda>r. rx_expires_at r \<le> t) (reset_transactions db) (reset_transactions db')
     \<and> pruned (\<lambda>r. rt_expires_at r \<le> t \<and> rt_id r \<notin> rx_token_id ` set (reset_transactions db')) (reset_tokens db) (reset_tokens db')
     \<and> pruned (\<lambda>r. ad_expires_at r \<le> t) (alert_dedupes db) (alert_dedupes db')
     \<and> pruned (idle_breaker c) (circuit_breakers db) (circuit_breakers db')
     \<and> pruned (\<lambda>r. pi_expires_at r \<le> t) (idempotency_rows db) (idempotency_rows db')
     \<and> pruned (\<lambda>r. kd_expires_at r \<le> t) (known_devices db) (known_devices db')
     \<and> pruned (terminal_topup c) (topup_requests db) (topup_requests db')
     \<and> (\<forall>r \<in> set (server_sessions db). \<not> session_overdue t r \<and> \<not> old_session c r \<longrightarrow> r \<in> set (server_sessions db'))
     \<and> money_view db' = money_view db \<and> users db' = users db \<and> payees db' = payees db \<and> audit_rows db' = audit_rows db
     \<and> manual_recoveries db' = manual_recoveries db \<and> support_tickets db' = support_tickets db \<and> staff_invites db' = staff_invites db"

lemma overdue_member: "r \<in> set (overdue_sessions t l db) \<Longrightarrow> r \<in> set (server_sessions db) \<and> session_overdue t r"
  by (auto simp: overdue_sessions_def dest!: in_set_takeD)

lemma live_session_kept:
  assumes d: "distinct (map ss_id (server_sessions db))" and r: "r \<in> set (server_sessions db)" "\<not> session_overdue t r" "\<not> old_session c r"
  shows "r \<in> set (server_sessions (cleaned t c l db))"
proof -
  let ?ids = "map ss_id (overdue_sessions t l db)"
  let ?rs = "upd_where (\<lambda>r. ss_id r \<in> set ?ids) (ended_session t) (server_sessions db)"
  have "ss_id r \<notin> set ?ids" using d r(1,2) overdue_member [of _ t l db] by (auto simp: distinct_map inj_on_def)
  then have "r \<in> set ?rs" using r(1) by (force simp: set_upd_where)
  moreover have "distinct (map ss_id ?rs)" using d by (simp add: ended_session_def map_upd_where_frame)
  then have "filter (\<lambda>r. \<not> old_session c r) (prune ss_id (old_session c) l ?rs) = filter (\<lambda>r. \<not> old_session c r) ?rs" by (rule prune_keeps)
  from arg_cong [OF this, of set] have "{q \<in> set ?rs. \<not> old_session c q} \<subseteq> set (prune ss_id (old_session c) l ?rs)" by auto
  ultimately have "r \<in> set (prune ss_id (old_session c) l ?rs)" using r(3) by blast
  then show ?thesis by (simp add: cleaned_def Let_def end_sessions_def)
qed

lemma cleaned_money: "money_view (cleaned t c l db) = money_view db"
  by (simp add: cleaned_def Let_def end_sessions_def money_view_def)

lemma cleaned_live: "ids_distinct db \<Longrightarrow> live_kept t c db (cleaned t c l db)"
  unfolding live_kept_def cleaned_money
  by (intro conjI ballI impI)
     (auto simp: live_session_kept ids_distinct_def, (simp_all add: cleaned_def Let_def end_sessions_def pruned_prune ids_distinct_def spent_token_def [abs_def]))

lemma prune_checks:
  "distinct (map f xs) \<Longrightarrow> distinct (map f (prune key p l xs))" "list_all q xs \<Longrightarrow> list_all q (prune key p l xs)"
  unfolding prune_def by (simp_all add: distinct_map_filter list_all_iff)

lemma storable_cleaned:
  assumes "storable db"
  shows "storable (cleaned t c l db)"
proof -
  have "distinct (map (\<lambda>r. (ss_component r, ss_lookup_hash r)) (server_sessions (cleaned t c l db)))"
    using assms by (simp add: storable_def constraints_ok_def cleaned_def Let_def end_sessions_def prune_checks ended_session_def map_upd_where_frame)
  with assms show ?thesis
    by (simp add: storable_def constraints_ok_def numerics_ok_def prune_checks cleaned_def Let_def end_sessions_def)
qed

lemma cleanup_committed:
  assumes "storable (working s)"
  shows "\<exists>counts. cleanup_expired_security_state e (Some t) limit False True s =
    (Inr counts, s\<lparr>working := cleaned t (cutoff_at e t) (batch_limit e limit) (working s), committed := cleaned t (cutoff_at e t) (batch_limit e limit) (working s)\<rparr>)"
proof -
  let ?db = "cleaned t (cutoff_at e t) (batch_limit e limit) (working s)"
  obtain counts where "cleanup_batches t (cutoff_at e t) (batch_limit e limit) False s = (Inr counts, s\<lparr>working := ?db\<rparr>)"
    using cleanup_batches_apply by blast
  moreover have "commitA (s\<lparr>working := ?db\<rparr>) = (Inr (), s\<lparr>working := ?db, committed := ?db\<rparr>)"
    using storable_cleaned [OF assms] by (simp add: commitA_ok)
  ultimately show ?thesis by (simp add: cleanup_expired_security_state_def Let_def cutoff_at_def bindA_apply)
qed

text \<open>
  How many rows wait to be handled: active sessions past their end, sessions that ended before the cutoff, and the expired rows of the other
  tables. A reset link can go once no transaction of it is left, so expired links are counted together with the expired transactions that
  hold them back; an expired link with a transaction that has not expired is not counted.
\<close>

definition doomed_token :: "time \<Rightarrow> database \<Rightarrow> reset_token \<Rightarrow> bool" where
  "doomed_token t db r \<longleftrightarrow> rt_expires_at r \<le> t \<and> rt_id r \<notin> rx_token_id ` set (filter (\<lambda>x. \<not> rx_expires_at x \<le> t) (reset_transactions db))"

definition backlog :: "time \<Rightarrow> time \<Rightarrow> database \<Rightarrow> nat list" where
  "backlog t c db = [length (filter (session_overdue t) (server_sessions db)), length (filter (old_session c) (server_sessions db)),
     length (filter (\<lambda>r. ac_window_expires_at r \<le> t) (auth_counters db)), length (filter (\<lambda>r. rp_expires_at r \<le> t) (totp_replays db)),
     length (filter (\<lambda>r. ro_expires_at r \<le> t) (registration_otps db)), length (filter (\<lambda>r. rx_expires_at r \<le> t) (reset_transactions db)),
     length (filter (\<lambda>r. rx_expires_at r \<le> t) (reset_transactions db)) + length (filter (doomed_token t db) (reset_tokens db)),
     length (filter (\<lambda>r. ad_expires_at r \<le> t) (alert_dedupes db)), length (filter (idle_breaker c) (circuit_breakers db)),
     length (filter (\<lambda>r. pi_expires_at r \<le> t) (idempotency_rows db)), length (filter (\<lambda>r. kd_expires_at r \<le> t) (known_devices db)),
     length (filter (terminal_topup c) (topup_requests db))]"

lemma length_filter_mono: "(\<And>x. p x \<Longrightarrow> q x) \<Longrightarrow> length (filter p xs) \<le> length (filter q xs)"
  by (induction xs) (auto simp: le_SucI)

lemma filter_upd_where: "(\<And>r. \<not> q (f r)) \<Longrightarrow> filter q (upd_where p f rs) = filter (\<lambda>r. q r \<and> \<not> p r) rs"
  by (induction rs) auto

lemma cleaned_tables:
  "auth_counters (cleaned t c l db) = prune ac_id (\<lambda>r. ac_window_expires_at r \<le> t) l (auth_counters db)"
  "totp_replays (cleaned t c l db) = prune rp_id (\<lambda>r. rp_expires_at r \<le> t) l (totp_replays db)"
  "registration_otps (cleaned t c l db) = prune ro_id (\<lambda>r. ro_expires_at r \<le> t) l (registration_otps db)"
  "reset_transactions (cleaned t c l db) = prune rx_id (\<lambda>r. rx_expires_at r \<le> t) l (reset_transactions db)"
  "alert_dedupes (cleaned t c l db) = prune ad_id (\<lambda>r. ad_expires_at r \<le> t) l (alert_dedupes db)"
  "circuit_breakers (cleaned t c l db) = prune cb_id (idle_breaker c) l (circuit_breakers db)"
  "idempotency_rows (cleaned t c l db) = prune pi_id (\<lambda>r. pi_expires_at r \<le> t) l (idempotency_rows db)"
  "known_devices (cleaned t c l db) = prune kd_id (\<lambda>r. kd_expires_at r \<le> t) l (known_devices db)"
  "topup_requests (cleaned t c l db) = prune tr_id (terminal_topup c) l (topup_requests db)"
  by (simp_all add: cleaned_def Let_def end_sessions_def)

lemma overdue_cleaned:
  assumes d: "distinct (map ss_id (server_sessions db))"
  shows "length (filter (session_overdue t) (server_sessions (cleaned t c l db))) = length (filter (session_overdue t) (server_sessions db)) - nat l"
proof -
  let ?rs = "server_sessions db" and ?o = "session_overdue t"
  let ?ids = "map ss_id (overdue_sessions t l db)"
  let ?us = "upd_where (\<lambda>r. ss_id r \<in> set ?ids) (ended_session t) ?rs"
  have du: "distinct (map ss_id ?us)" using d by (simp add: ended_session_def map_upd_where_frame)
  have e: "\<not> ?o (ended_session t r)" for r by (simp add: session_overdue_def ended_session_def)
  have "filter ?o ?us = filter (\<lambda>r. ?o r \<and> ss_id r \<notin> set ?ids) ?rs" by (rule filter_upd_where) (rule e)
  moreover have "distinct (map ss_id (sort_key (\<lambda>r. (ss_expires_at r, ss_id r)) (filter ?o ?rs)))"
    using distinct_map_filter [OF d] by (simp add: distinct_map)
  then have ids: "distinct ?ids" by (simp add: overdue_sessions_def take_map [symmetric])
  have "set ?ids \<subseteq> ss_id ` set (filter ?o ?rs)" using overdue_member by fastforce
  from remove_ids [OF d ids this] have "length (filter (\<lambda>r. ?o r \<and> ss_id r \<notin> set ?ids) ?rs) = length (filter ?o ?rs) - nat l"
    by (simp add: overdue_sessions_def)
  moreover have "filter ?o (prune ss_id (old_session c) l ?us) = filter ?o ?us"
    by (rule prune_other [OF du]) (auto simp: session_overdue_def old_session_def)
  ultimately show ?thesis by (simp add: cleaned_def Let_def end_sessions_def)
qed

lemma old_cleaned:
  assumes d: "distinct (map ss_id (server_sessions db))" and c: "c \<le> t"
  shows "length (filter (old_session c) (server_sessions (cleaned t c l db))) = length (filter (old_session c) (server_sessions db)) - nat l"
proof -
  let ?rs = "server_sessions db" and ?ids = "map ss_id (overdue_sessions t l db)"
  let ?us = "upd_where (\<lambda>r. ss_id r \<in> set ?ids) (ended_session t) ?rs"
  have du: "distinct (map ss_id ?us)" using d by (simp add: ended_session_def map_upd_where_frame)
  have "old_session c (if ss_id r \<in> set ?ids then ended_session t r else r) = old_session c r" if r: "r \<in> set ?rs" for r
  proof (cases "ss_id r \<in> set ?ids")
    case True
    then obtain q where "q \<in> set ?rs" "session_overdue t q" "ss_id q = ss_id r" using overdue_member by fastforce
    then have "session_overdue t r" using d r by (auto simp: distinct_map inj_on_def)
    then show ?thesis using c by (simp add: old_session_def session_overdue_def ended_session_def)
  qed simp
  then have "length (filter (old_session c) ?us) = length (filter (old_session c) ?rs)"
    by (simp add: upd_where_def filter_map comp_def cong: filter_cong)
  with prune_removes [OF du, of "old_session c" l] show ?thesis by (simp add: cleaned_def Let_def end_sessions_def)
qed

text \<open>The transactions go first, so the links they held back are reached in the same run or a later one.\<close>

lemma reset_rows_cleaned:
  assumes dx: "distinct (map rx_id (reset_transactions db))" and dt: "distinct (map rt_id (reset_tokens db))"
  shows "length (filter (\<lambda>r. rx_expires_at r \<le> t) (reset_transactions (cleaned t c l db)))
      + length (filter (doomed_token t (cleaned t c l db)) (reset_tokens (cleaned t c l db)))
    \<le> length (filter (\<lambda>r. rx_expires_at r \<le> t) (reset_transactions db)) + length (filter (doomed_token t db) (reset_tokens db)) - nat l"
proof -
  let ?xp = "\<lambda>r. rx_expires_at r \<le> t" and ?d = "cleaned t c l db"
  let ?xs = "prune rx_id ?xp l (reset_transactions db)"
  let ?sp = "\<lambda>r. rt_expires_at r \<le> t \<and> rt_id r \<notin> rx_token_id ` set ?xs"
  have x: "reset_transactions ?d = ?xs" and r: "reset_tokens ?d = prune rt_id ?sp l (reset_tokens db)"
    by (simp_all add: cleaned_def Let_def end_sessions_def spent_token_def [abs_def])
  have live: "filter (\<lambda>x. \<not> ?xp x) ?xs = filter (\<lambda>x. \<not> ?xp x) (reset_transactions db)" by (rule prune_keeps [OF dx])
  then have doom: "doomed_token t ?d = doomed_token t db" by (simp add: doomed_token_def fun_eq_iff x)
  have lx: "length (filter ?xp ?xs) = length (filter ?xp (reset_transactions db)) - nat l" by (rule prune_removes [OF dx])
  have "length (filter (doomed_token t db) (reset_tokens ?d)) \<le> length (filter (doomed_token t db) (reset_tokens db))"
    unfolding r prune_def filter_filter by (rule length_filter_mono) simp
  moreover have "length (filter (doomed_token t db) (reset_tokens ?d)) = length (filter (doomed_token t db) (reset_tokens db)) - nat l"
    if "filter ?xp ?xs = []"
  proof -
    have "filter (\<lambda>x. \<not> ?xp x) ?xs = ?xs" using that by (auto simp: filter_empty_conv filter_id_conv)
    with live have "?sp = doomed_token t db" by (simp add: doomed_token_def fun_eq_iff)
    with prune_removes [OF dt, of ?sp l] show ?thesis by (simp only: r)
  qed
  moreover have "nat l < length (filter ?xp (reset_transactions db))" if "filter ?xp ?xs \<noteq> []"
    using lx that by (metis length_0_conv zero_less_diff neq0_conv)
  ultimately show ?thesis using lx unfolding doom x by (cases "filter ?xp ?xs = []") (auto simp: le_diff_conv2)
qed

lemma backlog_cleaned:
  assumes "ids_distinct db" and "c \<le> t"
  shows "list_all2 (\<lambda>k' k. k' \<le> k - nat l) (backlog t c (cleaned t c l db)) (backlog t c db)"
proof -
  note d = assms(1) [unfolded ids_distinct_def]
  show ?thesis
    unfolding backlog_def list_all2_Cons cleaned_tables
    using d overdue_cleaned [of db t c l] old_cleaned [OF _ assms(2), of db l] reset_rows_cleaned [of db t c l, unfolded cleaned_tables]
    by (intro conjI list.rel_intros) (simp_all add: prune_removes)
qed

lemma ids_distinct_cleaned: "ids_distinct db \<Longrightarrow> ids_distinct (cleaned t c l db)"
  by (simp add: ids_distinct_def cleaned_def Let_def end_sessions_def prune_checks ended_session_def map_upd_where_frame)

lemma backlog_steps:
  "list_all2 (\<lambda>k' k. k' \<le> k - n * l) xs ys \<Longrightarrow> list_all2 (\<lambda>k' k. k' \<le> k - l) ys zs \<Longrightarrow> list_all2 (\<lambda>k' k. k' \<le> k - Suc n * l) xs (zs :: nat list)"
  by (erule (1) list_all2_trans [rotated]) auto

lemma repeated_cleanup:
  assumes "storable (working s)" and "ids_distinct (working s)" and "cutoff_at e t \<le> t"
  shows "\<exists>xs u. run_all (\<lambda>_ :: unit. cleanup_expired_security_state e (Some t) limit False True) (replicate n ()) s = (xs, u) \<and> list_all (\<lambda>x. \<not> isl x) xs
    \<and> list_all2 (\<lambda>k' k. k' \<le> k - n * nat (batch_limit e limit)) (backlog t (cutoff_at e t) (working u)) (backlog t (cutoff_at e t) (working s))
    \<and> (0 < n \<longrightarrow> committed u = working u)"
  using assms(1,2)
proof (induction n arbitrary: s)
  case 0
  show ?case by (simp add: list_all2_refl)
next
  case (Suc n)
  let ?db = "cleaned t (cutoff_at e t) (batch_limit e limit) (working s)"
  let ?s = "s\<lparr>working := ?db, committed := ?db\<rparr>"
  obtain counts where c: "cleanup_expired_security_state e (Some t) limit False True s = (Inr counts, ?s)"
    using cleanup_committed [OF Suc.prems(1)] by blast
  have "storable (working ?s)" "ids_distinct (working ?s)" using storable_cleaned ids_distinct_cleaned Suc.prems by simp_all
  from Suc.IH [OF this] obtain xs u where u: "run_all (\<lambda>_ :: unit. cleanup_expired_security_state e (Some t) limit False True) (replicate n ()) ?s = (xs, u)"
      "list_all (\<lambda>x. \<not> isl x) xs"
      "list_all2 (\<lambda>k' k. k' \<le> k - n * nat (batch_limit e limit)) (backlog t (cutoff_at e t) (working u)) (backlog t (cutoff_at e t) ?db)"
      "0 < n \<longrightarrow> committed u = working u"
    by auto
  have "n = 0 \<longrightarrow> committed u = working u" using u(1) by auto
  with u c backlog_steps [OF u(3) backlog_cleaned [OF Suc.prems(2) assms(3)]] show ?case
    by (auto simp: case_prod_beta)
qed

lemma live_kept_refl: "live_kept t c db db"
  by (simp add: live_kept_def pruned_def)

text \<open>
  C38. The clean-up job deletes nothing that is alive. Whatever a run does, of every table only rows that are expired at its instant (or past the
  retention cutoff) are gone, in their order and nothing else; sessions that neither expired nor ended long ago are untouched; a reset link whose
  transaction remains stays; accounts, ledger, credits, audit events, recovery requests, tickets and invites are exactly as before.
\<close>

theorem cleanup_keeps_live:
  assumes "cleanup_expired_security_state e (Some t) limit dry_run True s = (x, u)" and "working s = committed s" and "ids_distinct (committed s)"
  shows "live_kept t (cutoff_at e t) (committed s) (committed u)"
proof (cases dry_run)
  case True
  then show ?thesis using cleanup_dry(1) [of e "Some t" limit True s x u] assms(1) live_kept_refl by simp
next
  case False
  obtain counts where c: "cleanup_batches t (cutoff_at e t) (batch_limit e limit) False s =
      (Inr counts, s\<lparr>working := cleaned t (cutoff_at e t) (batch_limit e limit) (working s)\<rparr>)" using cleanup_batches_apply by blast
  let ?s = "s\<lparr>working := cleaned t (cutoff_at e t) (batch_limit e limit) (working s)\<rparr>"
  have "bindA commitA (\<lambda>_. ret counts) ?s = (x, u)"
    using assms(1) False c by (simp add: cleanup_expired_security_state_def Let_def cutoff_at_def bindA_apply)
  then have "committed u = committed s \<or> committed u = working ?s" by (cases rule: commitA_cases [of ?s]) (auto simp: bindA_def)
  then show ?thesis using live_kept_refl cleaned_live [OF assms(3)] assms(2) by auto
qed

text \<open>
  C39. Repeating the clean-up ends. From a database that satisfies its constraints and with a retention time that is not negative, every run
  succeeds, and \<open>n\<close> runs at one instant take \<open>n\<close> times the batch limit off each backlog, as long as there is one: the active sessions past their
  end, the sessions that ended before the cutoff, the expired rows of the other tables, and the expired reset links together with the
  expired transactions that hold them back. Once \<open>n\<close> batches cover every backlog nothing is left to do: no session is overdue or old, and no
  expired row remains, but for the links whose transaction has not expired.
\<close>

theorem cleanup_drains:
  assumes "storable (working s)" and "ids_distinct (working s)" and "0 \<le> cfg_state_retention_days (cfg e)" and "0 < n"
  shows "\<exists>xs u. run_all (\<lambda>_ :: unit. cleanup_expired_security_state e (Some t) limit False True) (replicate n ()) s = (xs, u)
    \<and> list_all (\<lambda>x. \<not> isl x) xs
    \<and> list_all2 (\<lambda>k' k. k' \<le> k - n * nat (batch_limit e limit)) (backlog t (cutoff_at e t) (committed u)) (backlog t (cutoff_at e t) (working s))
    \<and> ((\<forall>k \<in> set (backlog t (cutoff_at e t) (working s)). k \<le> n * nat (batch_limit e limit)) \<longrightarrow>
         set (backlog t (cutoff_at e t) (committed u)) \<subseteq> {0})"
proof -
  have "cutoff_at e t \<le> t" using assms(3) by (simp add: cutoff_at_def seconds_def second_us_def)
  from repeated_cleanup [OF assms(1,2) this, of limit n] assms(4) obtain xs u where
      "run_all (\<lambda>_ :: unit. cleanup_expired_security_state e (Some t) limit False True) (replicate n ()) s = (xs, u)" "list_all (\<lambda>x. \<not> isl x) xs"
      and b: "list_all2 (\<lambda>k' k. k' \<le> k - n * nat (batch_limit e limit)) (backlog t (cutoff_at e t) (committed u)) (backlog t (cutoff_at e t) (working s))"
    by auto
  moreover have "set (backlog t (cutoff_at e t) (committed u)) \<subseteq> {0}"
    if "\<forall>k \<in> set (backlog t (cutoff_at e t) (working s)). k \<le> n * nat (batch_limit e limit)"
  proof
    fix k assume "k \<in> set (backlog t (cutoff_at e t) (committed u))"
    with b obtain k' where "k' \<in> set (backlog t (cutoff_at e t) (working s))" "k \<le> k' - n * nat (batch_limit e limit)"
      by (metis in_set_conv_nth list_all2_conv_all_nth)
    with that show "k \<in> {0}" by fastforce
  qed
  ultimately show ?thesis by blast
qed

text \<open>
  C37. No deletion without evidence. Whatever the command \<^verbatim>\<open>run-retention-cleanup\<close> meets, afterwards the database differs from before by audit events only,
  or the command was confirmed and succeeded and the published database is the cleaned one together with the sealed event that holds
  the result the command returns.
\<close>

theorem retention_evidence:
  assumes "run_audited_retention_cleanup e limit confirm s = (x, t)" and "working s = committed s"
  shows "same_but_audit (committed s) (committed t) \<or>
    (confirm \<and> (\<exists>r db ev. x = Inr (Inr r) \<and> same_but_audit (committed s) db
      \<and> committed t = add_audit ev (cleaned (now e) (cutoff_at e (now e)) (batch_limit e limit) db)
      \<and> sealed e (draft_system_event e ''retention_cleanup'' ''completed'' None (completed_metadata r)) (audit_rows db) ev))"
  using assms by (rule audited_cleanup)

subsection \<open>Examples\<close>

text \<open>An expired counter and an expired reset link.\<close>

definition stale_token :: reset_token where
  "stale_token = \<lparr>rt_id = 4, rt_selector = ''s'', rt_verifier_hmac = ''v'', rt_user_id = 1, rt_purpose = ''password_reset'', rt_created_at = 0,
     rt_expires_at = 1, rt_used_at = None, rt_exchanged_at = None, rt_requested_ip = ''10.0.0.1'', rt_requested_user_agent = ''ua''\<rparr>"

definition stale_world :: world where
  "stale_world = fresh_world (empty_db\<lparr>auth_counters := [two_failures], reset_tokens := [stale_token]\<rparr>)"

lemma stale_world_ok: "working stale_world = committed stale_world" "storable (working stale_world)" "ids_distinct (working stale_world)"
  "backlog (now sample_env64) c (working stale_world) = [0, 0, 1, 0, 0, 0, 1, 0, 0, 0, 0, 0]" "batch_limit sample_env64 None = 500"
  by (simp_all add: stale_world_def fresh_world_def empty_db_def storable_def constraints_ok_def numerics_ok_def distinct_some_def List.map_filter_def
      ids_distinct_def backlog_def two_failures_def batch_limit_def sample_env64_def sample_env_def sample_cfg_def stale_token_def doomed_token_def)

theorem cleanup_drains_witness:
  "\<exists>xs u. run_all (\<lambda>_ :: unit. cleanup_expired_security_state sample_env64 (Some (now sample_env64)) None False True) (replicate 1 ()) stale_world = (xs, u)
    \<and> list_all (\<lambda>x. \<not> isl x) xs \<and> set (backlog (now sample_env64) (cutoff_at sample_env64 (now sample_env64)) (committed u)) \<subseteq> {0}"
proof -
  have "0 \<le> cfg_state_retention_days (cfg sample_env64)" by (simp add: sample_env64_def sample_env_def sample_cfg_def)
  from cleanup_drains [OF stale_world_ok(2,3) this, of 1 "now sample_env64" None] show ?thesis
    unfolding stale_world_ok(4,5) by auto
qed

theorem cleanup_keeps_live_witness:
  "\<exists>x u. cleanup_expired_security_state sample_env64 (Some 0) None False True stale_world = (x, u)
    \<and> live_kept 0 (cutoff_at sample_env64 0) (committed stale_world) (committed u)"
proof -
  obtain x u where "cleanup_expired_security_state sample_env64 (Some 0) None False True stale_world = (x, u)" by fastforce
  with cleanup_keeps_live [OF this] stale_world_ok show ?thesis by auto
qed

theorem retention_evidence_witness:
  "\<exists>x t. run_audited_retention_cleanup sample_env64 None True stale_world = (x, t)
    \<and> (same_but_audit (committed stale_world) (committed t) \<or> (\<exists>r. x = Inr (Inr r)))"
proof -
  obtain x t where t: "run_audited_retention_cleanup sample_env64 None True stale_world = (x, t)" by fastforce
  with retention_evidence [OF t stale_world_ok(1)] show ?thesis by blast
qed

end
