(* ===== verification/Transfer_Limits.thy ===== *)
theory Transfer_Limits
  imports Money Forms
begin

section \<open>Changing the daily limits\<close>

text \<open>
  The settings page of the daily transfer limits: \<^verbatim>\<open>resolve_transfer_limit_choice\<close> and
  \<^verbatim>\<open>send_transfer_limit_change_notification\<close> of \<^verbatim>\<open>app/banking/services.py\<close> and the handler \<^verbatim>\<open>transfer_limits_submit\<close> of
  \<^verbatim>\<open>app/banking/routes.py\<close>. The two limits have the same presets, bounds and precision (\<^verbatim>\<open>app/banking/limits.py\<close>). The body of the
  e-mail is not modelled.
\<close>

definition decimal_cents :: "string \<Rightarrow> py_error + cents" where
  "decimal_cents s = (case decimal_of_text s of None \<Rightarrow> Inl InvalidOperation
     | Some d \<Rightarrow> (case quantize_cents d of Some (Cents c) \<Rightarrow> Inr c | _ \<Rightarrow> Inl InvalidOperation))"

definition is_finite :: "py_decimal \<Rightarrow> bool" where
  "is_finite d = (case d of Finite _ _ _ \<Rightarrow> True | _ \<Rightarrow> False)"

text \<open>\<^verbatim>\<open>text.rsplit(".", 1)[1]\<close>.\<close>

definition after_last_point :: "string \<Rightarrow> string" where
  "after_last_point s = rev (takeWhile (\<lambda>c. c \<noteq> CHR ''.'') (rev s))"

definition resolve_custom_daily_limit :: "string \<Rightarrow> cents \<Rightarrow> cents \<Rightarrow> py_error + cents" where
  "resolve_custom_daily_limit custom_value minimum maximum =
     (let custom_text = py_strip custom_value in
      if custom_text = [] then Inl (auth_error ''Enter a custom amount.'' 400)
      else if CHR ''.'' \<in> set custom_text \<and> 2 < length (after_last_point custom_text)
      then Inl (auth_error ''Custom amount must use cents precision.'' 400)
      else (case decimal_of_text custom_text of
          None \<Rightarrow> Inl (auth_error ''Enter a valid custom amount.'' 400)
        | Some d \<Rightarrow>
            if \<not> is_finite d then Inl (auth_error ''Enter a valid custom amount.'' 400)
            else (case decimal_cents custom_text of
                Inl err \<Rightarrow> Inl err
              | Inr amount \<Rightarrow>
                  if amount < minimum then Inl (auth_error (''Custom amount must be at least SGD '' @ money_str minimum @ ''.'') 400)
                  else if maximum < amount then Inl (auth_error (''Custom amount must not exceed SGD '' @ money_str maximum @ ''.'') 400)
                  else Inr amount)))"

definition resolve_daily_limit_choice :: "string \<Rightarrow> string \<Rightarrow> string list \<Rightarrow> cents \<Rightarrow> cents \<Rightarrow> py_error + cents" where
  "resolve_daily_limit_choice choice custom_value presets minimum maximum =
     (let choice_text = py_strip choice in
      if choice_text \<in> set presets then decimal_cents choice_text
      else if choice_text = ''custom'' then resolve_custom_daily_limit custom_value minimum maximum
      else Inl (auth_error ''Invalid limit selection.'' 400))"

definition resolve_transfer_limit_choice :: "string \<Rightarrow> string \<Rightarrow> py_error + cents" where
  "resolve_transfer_limit_choice choice custom_value =
     resolve_daily_limit_choice choice custom_value daily_limit_presets daily_limit_min daily_limit_max"

definition resolve_local_transfer_limit_choice :: "string \<Rightarrow> string \<Rightarrow> py_error + cents" where
  "resolve_local_transfer_limit_choice choice custom_value =
     resolve_daily_limit_choice choice custom_value daily_limit_presets daily_limit_min daily_limit_max"

definition send_transfer_limit_change_notification :: "env \<Rightarrow> user \<Rightarrow> string \<Rightarrow> unit request" where
  "send_transfer_limit_change_notification e u outcome =
     (let normalized = py_casefold (py_strip outcome) in
      if normalized \<notin> {''success'', ''failure''} then raise (ValueError ''Unsupported transfer limit notification outcome'')
      else send_banking_email e u
        (''SITBank transfer limit change '' @ (if normalized = ''success'' then ''successful'' else ''unsuccessful''))
        ''banking_transfer_limit_notification'' [(''outcome'', JStr normalized)])"

definition set_daily_limits :: "int \<Rightarrow> cents \<Rightarrow> cents \<Rightarrow> database \<Rightarrow> database" where
  "set_daily_limits uid payup_limit local_transfer_limit =
     update_user uid (\<lambda>v. v\<lparr>u_payup_daily_limit := payup_limit, u_local_transfer_daily_limit := local_transfer_limit\<rparr>)"

definition resolve_limits :: "transfer_limits_form \<Rightarrow> py_error + cents \<times> cents" where
  "resolve_limits f =
     (case resolve_transfer_limit_choice (tl_payup_limit f) (tl_payup_limit_custom f) of
        Inl err \<Rightarrow> Inl err
      | Inr payup_limit \<Rightarrow>
          (case resolve_local_transfer_limit_choice (tl_local_transfer_limit f) (tl_local_transfer_limit_custom f) of
             Inl err \<Rightarrow> Inl err
           | Inr local_transfer_limit \<Rightarrow> Inr (payup_limit, local_transfer_limit)))"

definition refuse_limits :: "env \<Rightarrow> user \<Rightarrow> int \<Rightarrow> response request" where
  "refuse_limits e u status =
     bindA (send_transfer_limit_change_notification e u ''failure'') (\<lambda>_. ret (Render ''transfer_limits.html'' status))"

definition store_limits :: "env \<Rightarrow> user \<Rightarrow> cents \<Rightarrow> cents \<Rightarrow> response request" where
  "store_limits e u payup_limit local_transfer_limit =
     bindA (updateA (set_daily_limits (u_id u) payup_limit local_transfer_limit)) (\<lambda>_.
     bindA commitA (\<lambda>_.
     bindA (audit_event e ''transfer_limits_change'' ''success'' (Some (u_id u))
       [(''payup_daily_limit'', JStr (money_str payup_limit)), (''local_transfer_daily_limit'', JStr (money_str local_transfer_limit))] None) (\<lambda>_.
     bindA (send_transfer_limit_change_notification e u ''success'') (\<lambda>_.
     ret (Redirect_to ''banking.transfer_limits'')))))"

definition transfer_limits_submit :: "env \<Rightarrow> bool \<Rightarrow> user \<Rightarrow> transfer_limits_form \<Rightarrow> response request" where
  "transfer_limits_submit e csrf u f =
     (if \<not> csrf \<or> \<not> transfer_limits_form_ok f then refuse_limits e u 400
      else (case resolve_limits f of
          Inl err \<Rightarrow> (case auth_status err of Some st \<Rightarrow> refuse_limits e u st | None \<Rightarrow> raise err)
        | Inr (payup_limit, local_transfer_limit) \<Rightarrow>
            bindA (on_auth_error
              (bindA (verify_high_risk_authorization e u (Some (tl_totp_code f)) ''transfer_limits_change'' True) (\<lambda>_. ret None))
              (\<lambda>st. bindA (refuse_limits e u st) (\<lambda>page. ret (Some page)))) (\<lambda>refused.
            case refused of
              Some page \<Rightarrow> ret page
            | None \<Rightarrow> store_limits e u payup_limit local_transfer_limit)))"

subsection \<open>Which limits can be chosen\<close>

text \<open>A plain amount is read as the number of cents it shows, on the presets and on custom texts.\<close>

lemma decimal_cents_plain: "plain_amount w f \<Longrightarrow> decimal_cents (plain_text w f) = Inr (int (plain_cents w f))"
  using quantize_plain plain_cents_bound by (simp add: decimal_cents_def)

lemma preset_cents:
  assumes "p \<in> set daily_limit_presets"
  shows "\<exists>c. decimal_cents p = Inr c \<and> daily_limit_min \<le> c \<and> c \<le> daily_limit_max"
proof -
  have "plain_amount p []" "plain_text p [] = p"
    using assms by (auto simp: daily_limit_presets_def plain_amount_def plain_text_def py_isdigit_def)
  then have "decimal_cents p = Inr (int (plain_cents p []))" using decimal_cents_plain by metis
  moreover have "daily_limit_min \<le> int (plain_cents p [])" "int (plain_cents p []) \<le> daily_limit_max"
    using assms by (auto simp: daily_limit_presets_def plain_cents_def digits_val_def daily_limit_min_def daily_limit_max_def)
  ultimately show ?thesis by blast
qed

lemma resolved_limit_bounds:
  assumes "resolve_daily_limit_choice choice custom daily_limit_presets daily_limit_min daily_limit_max = Inr c"
  shows "daily_limit_min \<le> c \<and> c \<le> daily_limit_max"
proof (cases "py_strip choice \<in> set daily_limit_presets")
  case True
  from preset_cents [OF True] assms True show ?thesis by (auto simp: resolve_daily_limit_choice_def Let_def)
next
  case False
  with assms show ?thesis
    by (auto simp: resolve_daily_limit_choice_def resolve_custom_daily_limit_def Let_def split: if_splits option.splits sum.splits)
qed

lemma resolved_limits:
  "resolve_limits f = Inr (p, l) \<Longrightarrow> daily_limit_min \<le> p \<and> p \<le> daily_limit_max \<and> daily_limit_min \<le> l \<and> l \<le> daily_limit_max"
  using resolved_limit_bounds
  by (auto simp: resolve_limits_def resolve_transfer_limit_choice_def resolve_local_transfer_limit_choice_def split: sum.splits)

subsection \<open>Frames\<close>

lemma preserves_limit_notification [preserves_rules]:
  "keeps_audit e P \<Longrightarrow> preserves (both P) (send_transfer_limit_change_notification e u out)"
  unfolding send_transfer_limit_change_notification_def Let_def by (intro preserves_rules)

lemma preserves_refuse_limits [preserves_rules]: "keeps_audit e P \<Longrightarrow> preserves (both P) (refuse_limits e u st)"
  unfolding refuse_limits_def by (intro preserves_rules)

lemma preserves_transfer_limits:
  assumes "money_only P" and "\<And>db p l. P db \<Longrightarrow> P (set_daily_limits (u_id u) p l db)"
  shows "preserves (both P) (transfer_limits_submit e csrf u f)"
  unfolding transfer_limits_submit_def store_limits_def
  by (intro preserves_rules preserves_both_updateA money_frees assms)

lemma banking_email_returns: "\<exists>t. send_banking_email e u subject ev md s = (Inr (), t)"
  by (cases "email_ok e") (simp_all add: send_banking_email_def send_security_email_def try_catch_def audit_event_returns)

lemma limit_notification_returns: "\<exists>t. send_transfer_limit_change_notification e u ''success'' s = (Inr (), t)"
proof -
  have "py_casefold (py_strip ''success'') = ''success''" by code_simp
  then show ?thesis by (simp add: send_transfer_limit_change_notification_def Let_def banking_email_returns)
qed

lemma money_view_set_limits:
  "money_view d = money_view db \<Longrightarrow> money_view (set_daily_limits i p l d) = money_view (set_daily_limits i p l db)"
proof -
  assume v: "money_view d = money_view db"
  have "map money_user (users (set_daily_limits i p l d)) =
      map (\<lambda>(j, b, x, y). if j = i then (j, b, p, l) else (j, b, x, y)) (map money_user (users d))" for d
    by (simp add: set_daily_limits_def update_users_def upd_where_def money_user_def)
  moreover have "transactions (set_daily_limits i p l d) = transactions d"
    "registration_credits (set_daily_limits i p l d) = registration_credits d" "topup_credits (set_daily_limits i p l d) = topup_credits d" for d
    by (simp_all add: set_daily_limits_def update_users_def)
  ultimately show ?thesis using v by (simp add: money_view_def del: map_map)
qed

lemma store_limits_cases:
  assumes "store_limits e u p l s = (x, t)" and "both (\<lambda>d. money_view d = V) s"
  shows "(x = Inr (Redirect_to ''banking.transfer_limits'') \<and> money_view (committed t) = money_view (set_daily_limits (u_id u) p l (working s)))
    \<or> (isl x \<and> money_view (committed t) = V)"
proof -
  let ?s = "s\<lparr>working := set_daily_limits (u_id u) p l (working s)\<rparr>" and ?V = "money_view (set_daily_limits (u_id u) p l (working s))"
  show ?thesis
  proof (cases rule: commitA_cases [of ?s])
    case 1
    let ?s1 = "?s\<lparr>committed := working ?s\<rparr>"
    have audits: "keeps_audit e (\<lambda>d. money_view d = ?V)" by (rule money_only_frees) (rule money_only_view)
    obtain s2 where 2: "audit_event e ''transfer_limits_change'' ''success'' (Some (u_id u))
       [(''payup_daily_limit'', JStr (money_str p)), (''local_transfer_daily_limit'', JStr (money_str l))] None ?s1 = (Inr (), s2)"
      using audit_event_returns by blast
    obtain s3 where 3: "send_transfer_limit_change_notification e u ''success'' s2 = (Inr (), s3)" using limit_notification_returns by blast
    have "both (\<lambda>d. money_view d = ?V) ?s1" by (simp add: both_def)
    then have "both (\<lambda>d. money_view d = ?V) s3"
      using preservesD' [OF preserves_both_audit_event [OF audits] 2] preservesD' [OF preserves_limit_notification [OF audits] 3] by blast
    moreover have "x = Inr (Redirect_to ''banking.transfer_limits'')" "t = s3"
      using assms(1) 1 2 3 by (simp_all add: store_limits_def)
    ultimately show ?thesis by (simp add: both_def)
  next
    case (2 err)
    with assms show ?thesis by (auto simp: store_limits_def both_def bindA_def)
  qed
qed

lemma refused_page:
  assumes "refuse_limits e u st s = (x, t)" and "both (\<lambda>d. money_view d = V) s"
  shows "(\<forall>y. x \<noteq> Inr (Redirect_to y)) \<and> both (\<lambda>d. money_view d = V) t"
proof -
  have "keeps_audit e (\<lambda>d. money_view d = V)" by (rule money_only_frees) (rule money_only_view)
  from preservesD' [OF preserves_refuse_limits [OF this] assms] assms(1) show ?thesis
    by (auto simp: refuse_limits_def bindA_eq_Inr)
qed

lemma limits_changed:
  assumes run: "transfer_limits_submit e csrf u f s = (x, t)" and w: "working s = committed s"
  shows "case x of
      Inr (Redirect_to _) \<Rightarrow> csrf \<and> transfer_limits_form_ok f \<and> (\<exists>p l s1. resolve_limits f = Inr (p, l)
        \<and> daily_limit_min \<le> p \<and> p \<le> daily_limit_max \<and> daily_limit_min \<le> l \<and> l \<le> daily_limit_max
        \<and> verify_high_risk_authorization e u (Some (tl_totp_code f)) ''transfer_limits_change'' True s = (Inr (), s1)
        \<and> money_view (committed t) = money_view (set_daily_limits (u_id u) p l (committed s)))
    | _ \<Rightarrow> money_view (committed t) = money_view (committed s)"
proof -
  let ?V = "money_view (committed s)" and ?a = "verify_high_risk_authorization e u (Some (tl_totp_code f)) ''transfer_limits_change'' True"
  have b: "both (\<lambda>d. money_view d = ?V) s" using w by (simp add: both_def)
  have unchanged: ?thesis if "\<forall>y. x \<noteq> Inr (Redirect_to y)" "both (\<lambda>d. money_view d = ?V) t"
    using that by (auto simp: both_def split: sum.split response.split)
  show ?thesis
  proof (cases "csrf \<and> transfer_limits_form_ok f")
    case False
    with run have "refuse_limits e u 400 s = (x, t)" by (auto simp: transfer_limits_submit_def)
    from refused_page [OF this b] unchanged show ?thesis by blast
  next
    case ok: True
    show ?thesis
    proof (cases "resolve_limits f")
      case (Inl err)
      then have "t = s \<and> isl x \<or> (\<exists>st. refuse_limits e u st s = (x, t))"
        using run ok by (auto simp: transfer_limits_submit_def split: option.splits)
      then show ?thesis
      proof
        assume "t = s \<and> isl x"
        then show ?thesis using b by (intro unchanged) auto
      qed (use refused_page [OF _ b] unchanged in blast)
    next
      case (Inr pl)
      then obtain p l where pl: "resolve_limits f = Inr (p, l)" by (cases pl) auto
      obtain y s1 where a: "?a s = (y, s1)" by fastforce
      have m: "money_only (\<lambda>d. money_view d = ?V)" by (rule money_only_view)
      have b1: "both (\<lambda>d. money_view d = ?V) s1"
        using preservesD' [OF preserves_verify_high_risk_authorization a b] m by (simp add: money_frees)
      show ?thesis
      proof (cases y)
        case (Inr z)
        then have "store_limits e u p l s1 = (x, t)"
          using run ok pl a by (simp add: transfer_limits_submit_def on_auth_error_def try_catch_def)
        from store_limits_cases [OF this b1] show ?thesis
        proof
          assume r: "x = Inr (Redirect_to ''banking.transfer_limits'') \<and> money_view (committed t) = money_view (set_daily_limits (u_id u) p l (working s1))"
          have "money_view (set_daily_limits (u_id u) p l (working s1)) = money_view (set_daily_limits (u_id u) p l (committed s))"
            using b1 by (intro money_view_set_limits) (simp add: both_def)
          with r ok pl a Inr resolved_limits [OF pl] show ?thesis by auto
        qed (auto split: sum.split)
      next
        case (Inl err)
        then have "(isl x \<and> t = s1) \<or> (\<exists>st page. refuse_limits e u st s1 = (page, t) \<and> x = page)"
          using run ok pl a
          by (auto simp: transfer_limits_submit_def on_auth_error_def try_catch_def bindA_def split: option.splits sum.splits prod.splits)
        then show ?thesis
        proof
          assume "isl x \<and> t = s1"
          then show ?thesis using b1 by (intro unchanged) auto
        qed (use refused_page [OF _ b1] unchanged in blast)
      qed
    qed
  qed
qed

subsection \<open>Property\<close>

text \<open>
  C33. The daily limits change only by a confirmed form. When the settings page answers with the redirection, the form was sent with its
  CSRF token and valid, its two choices name limits between 100 and 10000 dollars, the authenticator check for this action passed in the
  state the request found, and in the committed database exactly the two limits of this account have the chosen values: no balance, ledger
  row or other limit is different. With every other answer and every exception the limits, balances and ledger rows are unchanged.
\<close>

theorem limits_change_effect:
  assumes "transfer_limits_submit e csrf u f s = (x, t)" and "working s = committed s"
  shows "case x of
      Inr (Redirect_to _) \<Rightarrow> csrf \<and> transfer_limits_form_ok f \<and> (\<exists>p l s1. resolve_limits f = Inr (p, l)
        \<and> daily_limit_min \<le> p \<and> p \<le> daily_limit_max \<and> daily_limit_min \<le> l \<and> l \<le> daily_limit_max
        \<and> verify_high_risk_authorization e u (Some (tl_totp_code f)) ''transfer_limits_change'' True s = (Inr (), s1)
        \<and> money_view (committed t) = money_view (set_daily_limits (u_id u) p l (committed s)))
    | _ \<Rightarrow> money_view (committed t) = money_view (committed s)"
  using assms by (rule limits_changed)

subsection \<open>Example\<close>

definition sample_limits :: transfer_limits_form where
  "sample_limits = \<lparr>tl_payup_limit = ''500'', tl_payup_limit_custom = [], tl_local_transfer_limit = ''custom'',
     tl_local_transfer_limit_custom = ''750.5'', tl_totp_code = ''000042''\<rparr>"

definition limits_world :: world where
  "limits_world = (fresh_world (empty_db\<lparr>users := [code_user], topup_requests := []\<rparr>))\<lparr>web := \<lparr>ws_sid = [], ws_data = [], ws_modified = False\<rparr>\<rparr>"

lemma sample_limits_resolved: "resolve_limits sample_limits = Inr (50000, 75050)"
proof -
  have p: "plain_amount ''500'' []" "plain_amount ''750'' ''5''" "plain_text ''500'' [] = ''500''" "plain_text ''750'' ''5'' = ''750.5''"
    "plain_cents ''500'' [] = 50000" "plain_cents ''750'' ''5'' = 75050"
    by (simp_all add: plain_amount_def plain_text_def plain_cents_def digits_val_def py_isdigit_def)
  have d: "decimal_cents ''500'' = Inr 50000" "decimal_cents ''750.5'' = Inr 75050"
    using decimal_cents_plain [OF p(1)] decimal_cents_plain [OF p(2)] p(3-) by simp_all
  obtain x where x: "decimal_of_text ''750.5'' = Some x" "is_finite x"
    using parse_plain [OF p(2)] p(4) by (simp add: is_finite_def)
  have "py_strip ''500'' = ''500''" "py_strip ''custom'' = ''custom''" "py_strip ''750.5'' = ''750.5''" by code_simp+
  then show ?thesis
    using d x
    by (simp add: resolve_limits_def sample_limits_def resolve_transfer_limit_choice_def resolve_local_transfer_limit_choice_def
        resolve_daily_limit_choice_def resolve_custom_daily_limit_def after_last_point_def daily_limit_presets_def daily_limit_min_def
        daily_limit_max_def Let_def)
qed

lemma store_limits_returns:
  assumes "storable (set_daily_limits (u_id u) p l (working s))"
  shows "\<exists>t. store_limits e u p l s = (Inr (Redirect_to ''banking.transfer_limits''), t)"
proof -
  let ?s = "s\<lparr>working := set_daily_limits (u_id u) p l (working s), committed := set_daily_limits (u_id u) p l (working s)\<rparr>"
  have 1: "commitA (s\<lparr>working := set_daily_limits (u_id u) p l (working s)\<rparr>) = (Inr (), ?s)" using assms by (simp add: commitA_ok)
  obtain s2 where 2: "audit_event e ''transfer_limits_change'' ''success'' (Some (u_id u))
     [(''payup_daily_limit'', JStr (money_str p)), (''local_transfer_daily_limit'', JStr (money_str l))] None ?s = (Inr (), s2)"
    using audit_event_returns by blast
  obtain s3 where "send_transfer_limit_change_notification e u ''success'' s2 = (Inr (), s3)" using limit_notification_returns by blast
  with 1 2 show ?thesis by (simp add: store_limits_def)
qed

lemma sample_authorized:
  "\<exists>t. verify_high_risk_authorization code_env code_user (Some ''000042'') ''transfer_limits_change'' True limits_world = (Inr (), t)
     \<and> storable (set_daily_limits 1 50000 75050 (working t))"
proof -
  let ?db = "empty_db\<lparr>users := [code_user], topup_requests := []\<rparr>" and ?sc = "''transfer_limits_change''"
  have st: "storable (set_daily_limits 1 50000 75050 ?db)"
  proof -
    have "storable (set_daily_limits 1 50000 75050 (empty_db\<lparr>users := [alice\<lparr>u_mfa_secret_nonce := x, u_mfa_secret_ciphertext := y\<rparr>], topup_requests := []\<rparr>))"
      for x y by code_simp
    then show ?thesis by (simp add: code_user_def)
  qed
  have w: "working limits_world = ?db" "sess_get (web limits_world) ''user_id'' = JNull" "\<not> has_session_id code_env (web limits_world)"
    by (simp_all add: limits_world_def fresh_world_def sess_get_def jget_def has_session_id_def current_session_id_def)
  then have 1: "require_stable_session_for_sensitive_action code_env ?sc limits_world = (Inr (), limits_world)"
    by (simp add: require_stable_session_for_sensitive_action_def readA_def)
  obtain s2 sc step d ttl where 2: "verify_totp_for_user_outcome code_env code_user ''000042'' ?sc None True limits_world = (Inr TOTP_VALID, s2)"
    and w2: "working s2 = add_replay_record code_env 1 sc step d ttl ?db" "committed s2 = working s2"
    using code_accepted [OF w(1), of ?sc True] storable_code_user w(1) by auto
  obtain s3 where 3: "audit_event code_env ?sc ''mfa_success'' (Some 1) [] None s2 = (Inr (), s3)" using audit_event_returns by blast
  have "sess_get (web s2) ''user_id'' = JNull"
    using code_accepted_web [OF w(1) _ 2] storable_code_user w(1,2) by simp
  then have "sess_get (web s3) ''user_id'' = JNull" using key_kept [OF preserves_on_web_audit_event 3] by simp
  then have 4: "rotate_if_own_session code_env code_user True s3 = (Inr (), s3)" by (simp add: rotate_if_own_session_def readA_def)
  have "verify_high_risk_authorization code_env code_user (Some ''000042'') ?sc True limits_world = (Inr (), s3)"
    using 1 2 3 4 by (simp add: verify_high_risk_authorization_def has_enrolled_mfa_method_def no_code_def or_default_def check_totp_outcome_def)
  moreover have "storable (set_daily_limits 1 50000 75050 (working s3))"
  proof -
    have "storable (set_daily_limits 1 50000 75050 (working s2))"
      using st unfolding w2(1) by (simp add: set_daily_limits_def update_users_def add_replay_record_def storable_def numerics_ok_def
          constraints_ok_def empty_db_def)
    moreover have "set_daily_limits 1 50000 75050 (add_audit ev db) = add_audit ev (set_daily_limits 1 50000 75050 db)" for ev db
      by (simp add: set_daily_limits_def update_users_def add_audit_def)
    ultimately show ?thesis
      using 3 w2(2) by (cases rule: audit_event_cases [of code_env s2 ?sc "''mfa_success''" "Some 1" "[]" None]) auto
  qed
  ultimately show ?thesis by blast
qed

theorem limits_change_effect_witness:
  "\<exists>t. transfer_limits_submit code_env True code_user sample_limits limits_world = (Inr (Redirect_to ''banking.transfer_limits''), t)
     \<and> money_view (committed t) = money_view (set_daily_limits 1 50000 75050 (committed limits_world))"
proof -
  have ok: "transfer_limits_form_ok sample_limits" by code_simp
  have code: "tl_totp_code sample_limits = ''000042''" by (simp add: sample_limits_def)
  obtain s1 where s1: "verify_high_risk_authorization code_env code_user (Some ''000042'') ''transfer_limits_change'' True limits_world = (Inr (), s1)"
    "storable (set_daily_limits 1 50000 75050 (working s1))"
    using sample_authorized by blast
  obtain t where "store_limits code_env code_user 50000 75050 s1 = (Inr (Redirect_to ''banking.transfer_limits''), t)"
    using store_limits_returns [of code_user 50000 75050 s1] s1(2) by auto
  then have t: "transfer_limits_submit code_env True code_user sample_limits limits_world = (Inr (Redirect_to ''banking.transfer_limits''), t)"
    using ok code s1(1) sample_limits_resolved by (simp add: transfer_limits_submit_def on_auth_error_def try_catch_def)
  have "working limits_world = committed limits_world" by (simp add: limits_world_def fresh_world_def)
  from limits_change_effect [OF t this] t sample_limits_resolved show ?thesis by auto
qed

end
