(* ===== verification/Bank.thy ===== *)
theory Bank
  imports Payup Topup Staff_Login State_Cleanup Transfer_Limits
begin

section \<open>The bank as a whole\<close>

text \<open>
  All modelled requests as one step relation on the state of the bank. A request starts from the committed database, with the
  browser session of whoever sends it, and what it leaves uncommitted is dropped when it ends. The invariants of the books are proved
  for every reachable state from the contract \<open>books_invariant\<close>, whose laws say what the requests may post to the ledger, and its extension
  \<open>limit_free_books\<close> by the change of the daily limits.
\<close>

text \<open>The state the next request finds: any browser session \<open>w\<close> may be the one that sends it.\<close>

definition next_request :: "web_session \<Rightarrow> world \<Rightarrow> world" where
  "next_request w t = t\<lparr>working := committed t, web := w\<rparr>"

inductive bank_request :: "world \<Rightarrow> world \<Rightarrow> bool" where
  local_transfer: "execute_local_transfer e sender payee tok s = (x, t) \<Longrightarrow> bank_request s (next_request w t)"
| payup_transfer: "execute_payup_transfer e sender tok auth s = (x, t) \<Longrightarrow> bank_request s (next_request w t)"
| topup_request: "topup_submit e csrf u amount s = (x, t) \<Longrightarrow> bank_request s (next_request w t)"
| topup_approval: "topup_approve_submit e csrf tok code s = (x, t) \<Longrightarrow> bank_request s (next_request w t)"
| registration_code: "request_registration_otp e email s = (x, t) \<Longrightarrow> bank_request s (next_request w t)"
| registration_verify: "verify_registration_otp e email code s = (x, t) \<Longrightarrow> bank_request s (next_request w t)"
| registration: "register_user e form s = (x, t) \<Longrightarrow> bank_request s (next_request w t)"
| login_password: "authenticate_primary e ident password s = (x, t) \<Longrightarrow> bank_request s (next_request w t)"
| login_code: "complete_pending_mfa e code s = (x, t) \<Longrightarrow> bank_request s (next_request w t)"
| reset_request: "request_password_reset e ident s = (x, t) \<Longrightarrow> bank_request s (next_request w t)"
| reset_exchange: "exchange_reset_token e tok s = (x, t) \<Longrightarrow> bank_request s (next_request w t)"
| reset_method: "select_reset_mfa_method e method s = (x, t) \<Longrightarrow> bank_request s (next_request w t)"
| reset_code: "verify_reset_authentication_code e code factor s = (x, t) \<Longrightarrow> bank_request s (next_request w t)"
| reset_complete: "complete_password_reset e password confirmation s = (x, t) \<Longrightarrow> bank_request s (next_request w t)"
| recovery_request: "request_manual_recovery e ident reason s = (x, t) \<Longrightarrow> bank_request s (next_request w t)"
| recovery_expiry: "expire_manual_recovery_requests e ref limit s = (x, t) \<Longrightarrow> bank_request s (next_request w t)"
| recovery_decision: "transition_manual_recovery_request_as_admin e actor i status reason' code s = (x, t) \<Longrightarrow> bank_request s (next_request w t)"
| recovery_completion: "complete_manual_recovery_request_as_admin e actor i reason' code s = (x, t) \<Longrightarrow> bank_request s (next_request w t)"
| staff_lifecycle: "transition_staff_account_as_root_admin e actor i act code s = (x, t) \<Longrightarrow> bank_request s (next_request w t)"
| unlock_request: "request_customer_security_unlock e actor i reason' code s = (x, t) \<Longrightarrow> bank_request s (next_request w t)"
| action_approval: "approve_admin_action_request_as_root_admin e actor i code s = (x, t) \<Longrightarrow> bank_request s (next_request w t)"
| action_rejection: "reject_admin_action_request_as_root_admin e actor i code s = (x, t) \<Longrightarrow> bank_request s (next_request w t)"
| action_cancellation: "cancel_admin_action_request_as_root_admin e actor i code s = (x, t) \<Longrightarrow> bank_request s (next_request w t)"
| dispute_review: "transition_dispute_status_for_staff e actor i status note s = (x, t) \<Longrightarrow> bank_request s (next_request w t)"
| ticket_review: "transition_support_ticket_status_for_staff e actor i status note s = (x, t) \<Longrightarrow> bank_request s (next_request w t)"
| staff_freeze: "freeze_customer_as_staff e actor i reason' code s = (x, t) \<Longrightarrow> bank_request s (next_request w t)"
| staff_unfreeze: "unfreeze_customer_as_staff e actor i reason' code s = (x, t) \<Longrightarrow> bank_request s (next_request w t)"
| staff_password: "authenticate_admin_primary e ident password s = (x, t) \<Longrightarrow> bank_request s (next_request w t)"
| staff_code: "complete_admin_mfa_login e code s = (x, t) \<Longrightarrow> bank_request s (next_request w t)"
| staff_logout: "logout_admin_session e s = (x, t) \<Longrightarrow> bank_request s (next_request w t)"
| own_password: "change_own_password e actor current password confirmation step_up s = (x, t) \<Longrightarrow> bank_request s (next_request w t)"
| own_mfa_start: "start_own_mfa_change e actor step_up s = (x, t) \<Longrightarrow> bank_request s (next_request w t)"
| own_mfa_confirm: "confirm_own_mfa_change e actor step_up s = (x, t) \<Longrightarrow> bank_request s (next_request w t)"
| retention_cleanup: "run_audited_retention_cleanup e limit confirm s = (x, t) \<Longrightarrow> bank_request s (next_request w t)"
| logout: "logout_current_session e s = (x, t) \<Longrightarrow> bank_request s (next_request w t)"

text \<open>The limits page is a request of its own: it is the only one that changes a daily limit.\<close>

inductive bank_step :: "world \<Rightarrow> world \<Rightarrow> bool" where
  request: "bank_request s t \<Longrightarrow> bank_step s t"
| limits_change: "transfer_limits_submit e csrf u form s = (x, t) \<Longrightarrow> bank_step s (next_request w t)"

inductive_simps bank_request_simps: "bank_request s t"

inductive_cases bank_step_cases: "bank_step s t"

lemma bank_step_clean: "bank_step s t \<Longrightarrow> working t = committed t"
  by (auto elim!: bank_step_cases simp: bank_request_simps next_request_def)


subsection \<open>Requests that do not touch the books\<close>

lemma money_only_topup_free: "money_only P \<Longrightarrow> topup_free P"
  by (auto simp: topup_free_def money_only_login update_topup_def intro: money_onlyD)

lemma preserves_logout [preserves_rules]: "money_only P \<Longrightarrow> preserves (both P) (logout_current_session e)"
  unfolding logout_current_session_def Let_def by (intro preserves_rules money_frees)

lemma preserves_topup_submit [preserves_rules]: "money_only P \<Longrightarrow> preserves (both P) (topup_submit e csrf u a)"
  unfolding topup_submit_def generate_topup_token_def
  by (intro preserves_rules preserves_money_update) (simp_all add: add_topup_request_def)

subsection \<open>The contract of the books\<close>

locale books_invariant =
  fixes I :: "database \<Rightarrow> bool"
  assumes money: "money_only I"
    and local_transfer: "survives_local_transfer e I"
    and payup_transfer: "survives_payup e I"
    and topup: "I db \<Longrightarrow> user_by_id db i = Some u \<Longrightarrow> 0 \<le> a \<Longrightarrow> I (post_topup ref csig tsig i a c db)"
    and registration: "I db \<Longrightarrow> u_id u \<notin> u_id ` set (users db) \<Longrightarrow> u_balance u = 0 \<Longrightarrow> I (post_registration ref sig u c db)"
    and references: "I db \<Longrightarrow> references_known db"
begin

lemma local_keeps: "preserves (both I) (execute_local_transfer e sender payee tok)"
  by (rule execute_local_transfer_survives) (rule local_transfer)

lemma payup_keeps: "preserves (both I) (execute_payup_transfer e sender tok auth)"
  by (rule execute_payup_survives) (rule payup_transfer)

lemma topup_keeps:
  assumes run: "topup_approve_submit e csrf tok code s = (x, t)" and s: "both I s"
  shows "both I t"
  using run money_only_topup_free [OF money] s
proof (cases rule: approve_cases)
  case (credited r u s1)
  have s1: "both I s1"
    using preservesD' [OF preserves_verify_totp_code credited(7) s] money by (simp add: money_frees)
  from credited(8) money_only_topup_free [OF money] s1 show ?thesis
  proof (cases rule: finish_topup_cases)
    case (approved ref r' csig tsig v)
    have "0 \<le> tr_amount r'"
    proof -
      have "r' \<in> set (topup_requests (working s1))" using find_SomeD [OF approved(2)] by simp
      moreover have "map tr_amount (topup_requests (credited_request e r' u ref csig tsig (working s1))) = map tr_amount (topup_requests (working s1))"
        by (simp add: credited_requests completed_topup_def update_topup_def map_upd_where_frame)
      moreover have "\<forall>a \<in> set (map tr_amount (topup_requests (credited_request e r' u ref csig tsig (working s1)))). 0 \<le> a"
        using approved(8) by (auto simp: storable_def constraints_ok_def list_all_iff topup_request_check_def min_transaction_amount_def)
      ultimately show ?thesis by simp
    qed
    then have "I (post_topup ref csig tsig (u_id u) (tr_amount r') (now e) (working s1))"
      using topup s1 approved(3) by (auto simp: both_def)
    moreover have "money_view (credited_request e r' u ref csig tsig (working s1)) =
        money_view (post_topup ref csig tsig (u_id u) (tr_amount r') (now e) (working s1))"
      using money_view_post_topup [of "completed_topup e r' ref (working s1)" "working s1"]
      by (simp add: credited_request_def completed_topup_def update_topup_def)
    ultimately have "I (credited_request e r' u ref csig tsig (working s1))" using money_onlyD [OF money] by metis
    then show ?thesis
      using approved(9) money_onlyD [OF money same_but_audit_money] by (auto simp: both_def)
  qed
qed

lemma registration_keeps:
  assumes run: "register_user e form s = (x, t)" and s: "I (committed s)" "working s = committed s"
  shows "I (committed t)"
proof -
  have "both (\<lambda>d. money_view d = money_view (committed s)) s" using s(2) by (simp add: both_def)
  from registered [OF run this references [OF s(1)]] show ?thesis
  proof (cases x)
    case (Inl err)
    with registered [OF run \<open>both _ s\<close> references [OF s(1)]] s(1) show ?thesis by (auto intro: money_onlyD [OF money])
  next
    case (Inr p)
    obtain u w where "p = (u, w)" by (cases p)
    with registered [OF run \<open>both _ s\<close> references [OF s(1)]] Inr obtain sig where
      "u_balance u = 0" "u_id u \<notin> u_id ` set (users (committed s))"
      "money_view (committed t) = money_view (post_registration (new_uuid e) sig u (now e) (committed s))"
      by (auto simp: both_def)
    with registration [OF s(1)] show ?thesis by (metis money_onlyD [OF money])
  qed
qed

lemma cleanup_keeps:
  assumes run: "run_audited_retention_cleanup e limit confirm s = (x, t)" and s: "I (committed s)" "working s = committed s"
  shows "I (committed t)"
proof -
  have "money_view (committed t) = money_view (committed s)"
    using audited_cleanup [OF run s(2)] same_but_audit_money cleaned_money by auto
  then show ?thesis using s(1) money_onlyD [OF money] by metis
qed

lemma request_keeps:
  assumes "bank_request s t" and "I (committed s)" "working s = committed s"
  shows "I (committed t)"
proof -
  have s: "both I s" using assms(2,3) by (simp add: both_def)
  have kept: "I (committed (next_request w t'))" if "preserves (both I) m" "m s = (y, t')" for w t' and m :: "'c request" and y
    using preservesD' [OF that s] by (simp add: next_request_def both_def)
  show ?thesis
    using assms(1)
  proof cases
    case local_transfer
    then show ?thesis using kept [OF local_keeps] by simp
  next
    case payup_transfer
    then show ?thesis using kept [OF payup_keeps] by simp
  next
    case topup_request
    then show ?thesis using kept [OF preserves_topup_submit [OF money]] by simp
  next
    case topup_approval
    then show ?thesis using topup_keeps [OF _ s] by (simp add: next_request_def both_def)
  next
    case registration_code
    then show ?thesis using kept [OF preserves_request_otp [OF money]] by simp
  next
    case registration_verify
    then show ?thesis using kept [OF preserves_verify_otp [OF money]] by simp
  next
    case registration
    then show ?thesis using registration_keeps [OF _ assms(2,3)] by (simp add: next_request_def)
  next
    case login_password
    then show ?thesis using kept [OF preserves_authenticate_primary [OF money_only_login [OF money]]] by simp
  next
    case login_code
    then show ?thesis using kept [OF preserves_complete_pending_mfa [OF money_only_login [OF money]]] by simp
  next
    case reset_request
    then show ?thesis using kept [OF preserves_request_reset [OF money]] by simp
  next
    case reset_exchange
    then show ?thesis using kept [OF preserves_exchange [OF money]] by simp
  next
    case reset_method
    then show ?thesis using kept [OF preserves_select_method [OF money_only_reset [OF money]]] by simp
  next
    case reset_code
    then show ?thesis using kept [OF preserves_verify_reset_code [OF money_only_reset [OF money]]] by simp
  next
    case reset_complete
    then show ?thesis using kept [OF preserves_complete_reset [OF money]] by simp
  next
    case recovery_request
    then show ?thesis using kept [OF preserves_request_recovery [OF money_only_desk [OF money]]] by simp
  next
    case recovery_expiry
    then show ?thesis using kept [OF preserves_expire_requests [OF money_only_desk [OF money]]] by simp
  next
    case recovery_decision
    then show ?thesis using kept [OF preserves_action_requests(2) [OF money]] by simp
  next
    case recovery_completion
    then show ?thesis using kept [OF preserves_action_requests(3) [OF money]] by simp
  next
    case staff_lifecycle
    then show ?thesis using kept [OF preserves_action_requests(1) [OF money]] by simp
  next
    case unlock_request
    then show ?thesis using kept [OF preserves_action_requests(4) [OF money]] by simp
  next
    case action_approval
    then show ?thesis using kept [OF preserves_approve [OF money_only_decision [OF money]]] by simp
  next
    case action_rejection
    then show ?thesis using kept [OF preserves_reject_action [OF money_only_decision [OF money]]] by simp
  next
    case action_cancellation
    then show ?thesis using kept [OF preserves_cancel [OF money_only_decision [OF money]]] by simp
  next
    case dispute_review
    then show ?thesis using kept [OF preserves_desk_moves(1) [OF money]] by simp
  next
    case ticket_review
    then show ?thesis using kept [OF preserves_desk_moves(2) [OF money]] by simp
  next
    case staff_freeze
    then show ?thesis using kept [OF preserves_staff_freezes(1) [OF money]] by simp
  next
    case staff_unfreeze
    then show ?thesis using kept [OF preserves_staff_freezes(2) [OF money]] by simp
  next
    case staff_password
    then show ?thesis using kept [OF preserves_staff_password_step [OF money_only_login [OF money]]] by simp
  next
    case staff_code
    then show ?thesis using kept [OF preserves_staff_code_step [OF money_only_login [OF money]]] by simp
  next
    case staff_logout
    then show ?thesis using kept [OF preserves_admin_logout [OF money_only_login [OF money]]] by simp
  next
    case own_password
    then show ?thesis using kept [OF preserves_own_password [OF money_only_reset [OF money]]] by simp
  next
    case own_mfa_start
    then show ?thesis using kept [OF preserves_own_mfa_change(1) [OF money_only_login [OF money]]] by simp
  next
    case own_mfa_confirm
    then show ?thesis using kept [OF preserves_own_mfa_change(2) [OF money_only_login [OF money]]] by simp
  next
    case retention_cleanup
    then show ?thesis using cleanup_keeps [OF _ assms(2,3)] by (simp add: next_request_def)
  next
    case logout
    then show ?thesis using kept [OF preserves_logout [OF money]] by simp
  qed
qed

end

text \<open>Invariants that do not depend on the daily limits hold in every reachable state.\<close>

locale limit_free_books = books_invariant +
  assumes limits: "I db \<Longrightarrow> I (set_daily_limits i p l db)"
begin

lemma step_keeps:
  assumes "bank_step s t" and "I (committed s)" "working s = committed s"
  shows "I (committed t) \<and> working t = committed t"
  using assms(1)
proof cases
  case request
  then show ?thesis using request_keeps [OF _ assms(2,3)] bank_step_clean [OF assms(1)] by simp
next
  case (limits_change e csrf u form x t' w)
  have "preserves (both I) (transfer_limits_submit e csrf u form)" using money limits by (rule preserves_transfer_limits)
  from preservesD' [OF this limits_change(2)] limits_change(1) assms(2,3) show ?thesis by (simp add: both_def next_request_def)
qed

lemma reachable_keeps:
  assumes "bank_step\<^sup>*\<^sup>* s t" and "I (committed s)" "working s = committed s"
  shows "I (committed t)"
proof -
  from assms have "I (committed t) \<and> working t = committed t"
    by (induction rule: rtranclp_induct) (auto dest: step_keeps)
  then show ?thesis ..
qed

end

subsection \<open>The books are sound\<close>

lemma sound_view: "money_view d = money_view db \<Longrightarrow> sound_books d = sound_books db"
  using money_onlyD [OF money_only_sound] by metis

lemma same_balances:
  assumes "map (\<lambda>u. (u_id u, u_balance u)) (users d) = map (\<lambda>u. (u_id u, u_balance u)) (users db)"
    and "transactions d = transactions db" "registration_credits d = registration_credits db" "topup_credits d = topup_credits db"
  shows "sound_books d = sound_books db"
proof -
  have "map u_id (users d) = map u_id (users db)" "map u_balance (users d) = map u_balance (users db)"
    using arg_cong [OF assms(1), of "map fst"] arg_cong [OF assms(1), of "map snd"] by (simp_all add: comp_def)
  moreover from this(1) have "u_id ` set (users d) = u_id ` set (users db)" by (metis image_set)
  moreover have "(\<forall>u \<in> set (users d). Q (u_id u) (u_balance u)) = (\<forall>u \<in> set (users db). Q (u_id u) (u_balance u))" for Q
    using arg_cong [OF assms(1), of "\<lambda>xs. \<forall>(i, b) \<in> set xs. Q i b"] by simp
  note this [of "\<lambda>i b. b = account_net i db"] this [of "\<lambda>i b. 0 \<le> b"]
  moreover have "account_net i d = account_net i db" for i using assms(2-4) by (simp add: account_net_def)
  ultimately show ?thesis
    using assms(2-4)
    by (simp add: sound_books_def ledger_ok_def solvent_books_def total_is_credited_def total_balance_def credited_def references_known_def)
qed

lemma sound_frames [simp]:
  "sound_books (consume_pending i t db) = sound_books db" "sound_books (consume_payup i t db) = sound_books db"
  "sound_books (mark_pending_ref i r db) = sound_books db" "sound_books (mark_payup_ref i r db) = sound_books db"
  by (rule sound_view, simp add: consume_pending_def consume_payup_def mark_pending_ref_def mark_payup_ref_def)+

lemma references_transfer:
  assumes "references_known db" "user_by_id db s = Some u" "user_by_id db r = Some v"
  shows "references_known (add_transaction ref sig s r pe a d ty c (add_balance r a (add_balance s (- a) db)))"
proof -
  have "s \<in> u_id ` set (users db)" "r \<in> u_id ` set (users db)"
    using user_by_id_member [OF assms(2)] user_by_id_member [OF assms(3)] by auto
  then show ?thesis
    using assms(1) by (auto simp: references_known_def) (auto simp: add_transaction_def split: prod.splits)
qed

lemma sound_transfer:
  assumes "sound_books db" "user_by_id db s = Some u" "user_by_id db r = Some v" "s \<noteq> r" "0 \<le> a" "a \<le> u_balance u" "ty \<noteq> ''topup''"
  shows "sound_books (add_transaction ref sig s r pe a d ty c (add_balance r a (add_balance s (- a) db)))"
proof -
  let ?d = "add_transaction ref sig s r pe a d ty c (add_balance r a (add_balance s (- a) db))"
  have l: "ledger_ok db" and so: "solvent_books db" and tc: "total_is_credited db" and rk: "references_known db"
    using assms(1) by (auto simp: sound_books_def)
  have dist: "distinct (map u_id (users db))" using l by (simp add: ledger_ok_def)
  have "solvent db" using so user_by_id_member unfolding solvent_def solvent_books_def by blast
  then have sv: "solvent ?d" using solvent_transfer assms(2,4-6) by simp
  have "distinct (map u_id (users ?d))" using dist by simp
  then have "solvent_books ?d" using sv user_by_id_key unfolding solvent_def solvent_books_def by blast
  moreover have "references_known ?d" using rk assms(2,3) by (rule references_transfer)
  moreover have "total_is_credited ?d"
    using tc total_transfer [OF dist assms(2,3), of a] by (simp add: total_is_credited_def credited_def)
  ultimately show ?thesis using ledger_ok_transfer [OF l assms(4,7)] by (simp add: sound_books_def)
qed

lemma sound_set_limits: "sound_books db \<Longrightarrow> sound_books (set_daily_limits i p l db)"
proof -
  let ?f = "\<lambda>v. v\<lparr>u_payup_daily_limit := p, u_local_transfer_daily_limit := l\<rparr>" and ?d = "set_daily_limits i p l db"
  have d: "users ?d = upd_where (\<lambda>u. u_id u = i) ?f (users db)" "transactions ?d = transactions db"
    "registration_credits ?d = registration_credits db" "topup_credits ?d = topup_credits db"
    by (simp_all add: set_daily_limits_def update_users_def)
  have "map (\<lambda>u. (u_id u, u_balance u)) (users ?d) = map (\<lambda>u. (u_id u, u_balance u)) (users db)"
    unfolding d by (rule map_upd_where_frame) simp
  from same_balances [OF this d(2-4)] show "sound_books db \<Longrightarrow> sound_books ?d" by simp
qed

interpretation sound: limit_free_books sound_books
proof
  show "money_only sound_books" by (rule money_only_sound)
  show "survives_local_transfer e sound_books" for e
  proof (rule survivesI)
    show "keeps_audit e sound_books" by (rule money_only_frees) (rule money_only_sound)
    fix db ref sig sid rid pid amt d i u v
    assume "sound_books db" "user_by_id db sid = Some u" "user_by_id db rid = Some v" "sid \<noteq> rid" "min_transaction_amount \<le> amt" "amt \<le> u_balance u"
    then show "sound_books (post_local_transfer ref sig sid rid pid amt d (now e) i db)"
      by (simp add: post_local_transfer_def sound_transfer min_transaction_amount_def)
  qed simp
  show "survives_payup e sound_books" for e
    by (rule survives_payupI)
       (simp_all add: money_only_frees(4) [OF money_only_sound] post_payup_def sound_transfer min_transaction_amount_def)
  show "sound_books db \<Longrightarrow> user_by_id db i = Some u \<Longrightarrow> 0 \<le> a \<Longrightarrow> sound_books (post_topup ref csig tsig i a c db)" for db i u a ref csig tsig c
    by (rule sound_books_post_topup)
  show "sound_books db \<Longrightarrow> u_id u \<notin> u_id ` set (users db) \<Longrightarrow> u_balance u = 0 \<Longrightarrow> sound_books (post_registration ref sig u c db)" for db u ref sig c
    by (rule sound_books_post_registration)
  show "sound_books db \<Longrightarrow> references_known db" for db by (simp add: sound_books_def)
  show "sound_books db \<Longrightarrow> sound_books (set_daily_limits i p l db)" for db i p l by (rule sound_set_limits)
qed

text \<open>
  C1. The books of the bank are sound in every reachable state. Started from sound books and whatever requests arrive in whatever order,
  with whatever inputs, clocks and failures of the audit store and the mail relay, every balance equals the credits of the account plus what the
  ledger says it received minus what it sent, no balance is negative, all the money there is came from a signed credit row, and every ledger
  row speaks of accounts that exist.
\<close>

theorem bank_books_sound:
  assumes "bank_step\<^sup>*\<^sup>* s t" and "sound_books (committed s)" and "working s = committed s"
  shows "sound_books (committed t)"
  using assms by (rule sound.reachable_keeps)

text \<open>An empty bank, and the customer who registers in it.\<close>

theorem bank_books_sound_witness:
  "\<exists>t. bank_step\<^sup>*\<^sup>* verified_world t \<and> users (committed t) \<noteq> [] \<and> sound_books (committed t)"
proof -
  obtain h t where t: "register_user sample_env64 sample_form verified_world = (Inr (sample_customer h, []), t)" using register_example by blast
  let ?t = "next_request (web t) t"
  have "both (\<lambda>d. money_view d = money_view empty_db) verified_world" by (simp add: both_def verified_world_fields)
  from registered [OF t this verified_world_fields(3)] obtain sig where
    "money_view (committed t) = money_view (post_registration (new_uuid sample_env64) sig (sample_customer h) (now sample_env64) empty_db)"
    by (auto simp: both_def)
  then have "map money_user (users (committed t)) \<noteq> []" by (simp add: money_view_def add_user_def add_balance_def upd_where_def)
  then have u: "users (committed ?t) \<noteq> []" by (simp add: next_request_def)
  have r: "bank_step\<^sup>*\<^sup>* verified_world ?t" using bank_step.request [OF bank_request.registration [OF t]] by blast
  have "sound_books empty_db"
    by (simp add: sound_books_def ledger_ok_def solvent_books_def total_is_credited_def total_balance_def credited_def
        references_known_def empty_db_def)
  with bank_books_sound [OF r] u r show ?thesis by (auto simp: verified_world_fields)
qed

end
