(* ===== verification/Daily_Limits.thy ===== *)
theory Daily_Limits
  imports Bank
begin

section \<open>The daily limits over whole days\<close>

text \<open>
  What an account sends in one day of Singapore, in all the states that requests of any kind can reach, compared with the limits of the account.
  The code compares a new transfer with what was sent since midnight; here the transactions of a day are added up afterwards, whatever the
  clocks of the requests were. A customer may lower or raise the limits in between, so the bound is the largest limit the account had.
\<close>

text \<open>The amount sent in the Singapore day of the instant \<open>x\<close>.\<close>

definition sent_on_day :: "string \<Rightarrow> int \<Rightarrow> time \<Rightarrow> database \<Rightarrow> cents" where
  "sent_on_day ttype i x db =
     sum_list (map tx_amount (filter (\<lambda>t. tx_sender_id t = i \<and> tx_type t = ttype \<and> tx_status t = ''completed''
       \<and> sgt_day_start_utc (tx_created_at t) = sgt_day_start_utc x) (transactions db)))"

definition limits_within :: "cents \<Rightarrow> cents \<Rightarrow> int \<Rightarrow> database \<Rightarrow> bool" where
  "limits_within Ll Lp i db \<longleftrightarrow>
     (\<forall>u. user_by_id db i = Some u \<longrightarrow> u_local_transfer_daily_limit u \<le> Ll \<and> u_payup_daily_limit u \<le> Lp)"

definition amounts_ok :: "database \<Rightarrow> bool" where
  "amounts_ok db \<longleftrightarrow> (\<forall>t \<in> set (transactions db). 0 \<le> tx_amount t)"

definition sent_within :: "cents \<Rightarrow> cents \<Rightarrow> int \<Rightarrow> database \<Rightarrow> bool" where
  "sent_within Ll Lp i db \<longleftrightarrow>
     (\<forall>x. sent_on_day ''local_transfer'' i x db \<le> Ll \<and> sent_on_day ''payup'' i x db \<le> Lp)"

text \<open>The invariant of requests that leave the limits alone: the bounds, or the limit of the account where it is higher.\<close>

definition limit_of :: "(user \<Rightarrow> cents) \<Rightarrow> int \<Rightarrow> database \<Rightarrow> cents" where
  "limit_of f i db = (case user_by_id db i of Some u \<Rightarrow> f u | None \<Rightarrow> 0)"

definition day_books :: "cents \<Rightarrow> cents \<Rightarrow> int \<Rightarrow> database \<Rightarrow> bool" where
  "day_books Ll Lp i db \<longleftrightarrow> 0 \<le> Ll \<and> 0 \<le> Lp \<and> references_known db \<and> amounts_ok db
     \<and> sent_within (max Ll (limit_of u_local_transfer_daily_limit i db)) (max Lp (limit_of u_payup_daily_limit i db)) i db"

subsection \<open>What a ledger row adds to a day\<close>

lemma sent_on_day_cong: "transactions d = transactions db \<Longrightarrow> sent_on_day ty i x d = sent_on_day ty i x db"
  by (simp add: sent_on_day_def)

lemma sent_on_day_frames [simp]:
  "sent_on_day ty i x (add_balance j a db) = sent_on_day ty i x db" "sent_on_day ty i x (consume_pending j t db) = sent_on_day ty i x db"
  "sent_on_day ty i x (mark_pending_ref j r db) = sent_on_day ty i x db"
  by (simp_all add: sent_on_day_def)

lemma amounts_ok_cong: "transactions d = transactions db \<Longrightarrow> amounts_ok d = amounts_ok db"
  by (simp add: amounts_ok_def)

lemma sent_on_day_add:
  "sent_on_day ty i x (add_transaction ref sig s r pe a d ty' c db) = sent_on_day ty i x db +
     (if s = i \<and> ty' = ty \<and> sgt_day_start_utc c = sgt_day_start_utc x then a else 0)"
  by (auto simp: sent_on_day_def add_transaction_def split: prod.split)

lemma amounts_ok_add [simp]:
  "amounts_ok (add_transaction ref sig s r pe a d ty c db) \<longleftrightarrow> amounts_ok db \<and> 0 \<le> a"
  by (auto simp: amounts_ok_def add_transaction_def split: prod.split)

text \<open>What the code counts at an instant is at least what was sent in the day of that instant.\<close>

lemma sum_filter_mono:
  assumes "\<forall>x \<in> set xs. 0 \<le> (f x :: int)" and "\<And>x. x \<in> set xs \<Longrightarrow> p x \<Longrightarrow> q x"
  shows "sum_list (map f (filter p xs)) \<le> sum_list (map f (filter q xs))"
  using assms by (induction xs) force+

lemma sent_on_day_used:
  assumes "amounts_ok db" shows "sent_on_day ty i (now e) db \<le> used_today ty e i db"
  unfolding sent_on_day_def used_today_def
proof (rule sum_filter_mono)
  show "\<forall>t \<in> set (transactions db). 0 \<le> tx_amount t" using assms by (simp add: amounts_ok_def)
qed (metis sgt_day_start_bounds(1))

lemma sent_unknown: "references_known db \<Longrightarrow> i \<notin> u_id ` set (users db) \<Longrightarrow> sent_on_day ty i x db = 0"
  unfolding sent_on_day_def by (rule sum_list_filter_none) (auto simp: references_known_def)

lemma sent_same_day:
  "sgt_day_start_utc y = sgt_day_start_utc x \<Longrightarrow> sent_on_day ty i y db = sent_on_day ty i x db"
  by (simp add: sent_on_day_def)

text \<open>A transfer the code allows stays within the limit of its day.\<close>

lemma sent_after_transfer:
  assumes "amounts_ok db" and "user_by_id db s = Some u" and "used_today ty e s db + a \<le> f u"
    and "sent_on_day ty i x db \<le> max L (limit_of f i db)"
  shows "sent_on_day ty i x (add_transaction ref sig s r pe a d ty (now e) db) \<le> max L (limit_of f i db)"
proof (cases "s = i \<and> sgt_day_start_utc (now e) = sgt_day_start_utc x")
  case True
  then have "sent_on_day ty i x db + a \<le> f u"
    using sent_on_day_used [OF assms(1), of ty i e] sent_same_day [of "now e" x] assms(3) by simp
  with True assms(2) show ?thesis by (simp add: sent_on_day_add limit_of_def)
qed (use assms(4) in \<open>auto simp: sent_on_day_add\<close>)

subsection \<open>Every request keeps the invariant\<close>

lemma limit_of_add_balance [simp]:
  assumes "\<And>u b. f (u\<lparr>u_balance := b\<rparr>) = f u"
  shows "limit_of f i (add_balance j a db) = limit_of f i db"
  using assms by (simp add: limit_of_def user_by_id_add_balance split: option.split)

lemma limit_of_users: "users d = users db \<Longrightarrow> limit_of f i d = limit_of f i db"
  by (simp add: limit_of_def user_by_id_def)

lemma limit_of_view:
  assumes "money_view d = money_view db" and "\<And>u v. money_user u = money_user v \<Longrightarrow> f u = f v"
  shows "limit_of f i d = limit_of f i db"
proof -
  have "map money_user (users d) = map money_user (users db)" using assms(1) by (simp add: money_view_def)
  then have "map_option money_user (user_by_id d i) = map_option money_user (user_by_id db i)"
    unfolding user_by_id_def by (rule find_same_view) (simp add: money_user_def)
  then show ?thesis
    by (cases "user_by_id d i"; cases "user_by_id db i") (auto simp: limit_of_def intro: assms(2))
qed

lemma money_only_day: "money_only (day_books Ll Lp i)"
proof (rule money_onlyI)
  fix db d assume v: "money_view d = money_view db" and b: "day_books Ll Lp i db"
  have t: "transactions d = transactions db" using v by (simp add: money_view_def)
  have "limit_of u_local_transfer_daily_limit i d = limit_of u_local_transfer_daily_limit i db"
    "limit_of u_payup_daily_limit i d = limit_of u_payup_daily_limit i db"
    using v by (rule limit_of_view, simp add: money_user_def)+
  then show "day_books Ll Lp i d"
    using b money_onlyD [OF money_only_references v]
    by (simp add: day_books_def amounts_ok_cong [OF t] sent_within_def sent_on_day_cong [OF t])
qed

lemma day_books_view: "money_view d = money_view db \<Longrightarrow> day_books Ll Lp i d = day_books Ll Lp i db"
  using money_onlyD [OF money_only_day] by metis

text \<open>A row of another type than the two kinds of transfers does not count.\<close>

lemma day_books_transfer:
  assumes b: "day_books Ll Lp i db" and u: "user_by_id db s = Some u" "user_by_id db r = Some v" and a: "0 \<le> a"
    and l: "ty = ''local_transfer'' \<Longrightarrow> used_today ty e s db + a \<le> u_local_transfer_daily_limit u"
    and p: "ty = ''payup'' \<Longrightarrow> used_today ty e s db + a \<le> u_payup_daily_limit u"
  shows "day_books Ll Lp i (add_transaction ref sig s r pe a d ty (now e) (add_balance r a (add_balance s (- a) db)))"
proof -
  let ?db = "add_balance r a (add_balance s (- a) db)"
  have t: "transactions ?db = transactions db" by simp
  obtain u' where u': "user_by_id ?db s = Some u'"
    "u_local_transfer_daily_limit u' = u_local_transfer_daily_limit u" "u_payup_daily_limit u' = u_payup_daily_limit u"
    using u(1) by (auto simp: user_by_id_add_balance)
  have ok: "amounts_ok ?db" using b by (simp add: day_books_def amounts_ok_cong [OF t])
  have lim: "limit_of u_local_transfer_daily_limit i ?db = limit_of u_local_transfer_daily_limit i db"
    "limit_of u_payup_daily_limit i ?db = limit_of u_payup_daily_limit i db" by simp_all
  have old: "sent_on_day ''local_transfer'' i x ?db \<le> max Ll (limit_of u_local_transfer_daily_limit i ?db)"
    "sent_on_day ''payup'' i x ?db \<le> max Lp (limit_of u_payup_daily_limit i ?db)" for x
    using b by (simp_all add: day_books_def sent_within_def sent_on_day_cong [OF t])
  have new: "sent_on_day ''local_transfer'' i x (add_transaction ref sig s r pe a d ty (now e) ?db)
      \<le> max Ll (limit_of u_local_transfer_daily_limit i ?db)"
    "sent_on_day ''payup'' i x (add_transaction ref sig s r pe a d ty (now e) ?db) \<le> max Lp (limit_of u_payup_daily_limit i ?db)" for x
  proof -
    show "sent_on_day ''local_transfer'' i x (add_transaction ref sig s r pe a d ty (now e) ?db)
      \<le> max Ll (limit_of u_local_transfer_daily_limit i ?db)"
    proof (cases "ty = ''local_transfer''")
      case True
      with l u'(2) show ?thesis using sent_after_transfer [OF ok u'(1) _ old(1)] by (simp add: True)
    qed (use old(1) in \<open>simp add: sent_on_day_add\<close>)
    show "sent_on_day ''payup'' i x (add_transaction ref sig s r pe a d ty (now e) ?db) \<le> max Lp (limit_of u_payup_daily_limit i ?db)"
    proof (cases "ty = ''payup''")
      case True
      with p u'(3) show ?thesis using sent_after_transfer [OF ok u'(1) _ old(2)] by (simp add: True)
    qed (use old(2) in \<open>simp add: sent_on_day_add\<close>)
  qed
  have "limit_of f i (add_transaction ref sig s r pe a d ty (now e) ?db) = limit_of f i ?db" for f by (simp add: limit_of_def)
  with new show ?thesis
    using b a ok references_transfer [OF _ u] by (simp add: day_books_def sent_within_def)
qed

lemma day_books_topup:
  assumes b: "day_books Ll Lp i db" and u: "user_by_id db j = Some u" and a: "0 \<le> a"
  shows "day_books Ll Lp i (post_topup ref csig tsig j a c db)"
proof -
  let ?d = "post_topup ref csig tsig j a c db"
  have "j \<in> u_id ` set (users db)" using user_by_id_member [OF u] by auto
  then have "references_known ?d"
    using b by (auto simp: day_books_def references_known_def post_topup_def ids_add_balance)
       (auto simp: add_topup_credit_def add_transaction_def ids_add_balance split: prod.splits)
  moreover have t: "transactions (add_topup_credit ref csig j a c (add_balance j a db)) = transactions db"
    by (simp add: add_topup_credit_def split: prod.split)
  then have "sent_on_day ty i x ?d = sent_on_day ty i x db" if "ty \<noteq> ''topup''" for ty x
    using that by (auto simp: post_topup_def sent_on_day_add sent_on_day_cong [OF t])
  moreover have "amounts_ok ?d" using b a by (simp add: post_topup_def amounts_ok_cong [OF t] day_books_def)
  moreover have "limit_of u_local_transfer_daily_limit i ?d = limit_of u_local_transfer_daily_limit i db"
    "limit_of u_payup_daily_limit i ?d = limit_of u_payup_daily_limit i db"
    using limit_of_users [of ?d "add_balance j a db"] by simp_all
  ultimately show ?thesis using b by (simp add: day_books_def sent_within_def)
qed

lemma day_books_registration:
  assumes b: "day_books Ll Lp i db" and fresh: "u_id u \<notin> u_id ` set (users db)"
  shows "day_books Ll Lp i (post_registration ref sig u c db)"
proof -
  let ?d = "post_registration ref sig u c db"
  have us: "users ?d = users (add_balance (u_id u) registration_welcome_credit_amount (add_user u db))" by simp
  obtain r where r: "registration_credits ?d = registration_credits db @ [r]" "cr_user_id r = u_id u"
    using credits_post_registration by blast
  have "references_known ?d" using b r by (auto simp: day_books_def references_known_def us add_user_def)
  moreover have t: "transactions ?d = transactions db" by simp
  moreover have "sent_within (max Ll (limit_of u_local_transfer_daily_limit i ?d)) (max Lp (limit_of u_payup_daily_limit i ?d)) i ?d"
  proof (cases "i = u_id u")
    case True
    with b fresh have "sent_on_day ty i x ?d = 0" for ty x
      using sent_unknown [of db i ty x] by (simp add: sent_on_day_cong [OF t] day_books_def)
    then show ?thesis using b by (simp add: sent_within_def day_books_def le_max_iff_disj)
  next
    case False
    then have "user_by_id (add_user u db) i = user_by_id db i"
      by (simp add: user_by_id_def add_user_def find_append split: option.split)
    then have "limit_of f i (add_user u db) = limit_of f i db" for f by (simp add: limit_of_def)
    then show ?thesis
      using b limit_of_users [OF us] by (simp add: day_books_def sent_within_def sent_on_day_cong [OF t])
  qed
  ultimately show ?thesis using b by (simp add: day_books_def amounts_ok_cong [OF t])
qed

lemma day_books_frames [simp]:
  "day_books Ll Lp i (consume_pending j t db) = day_books Ll Lp i db" "day_books Ll Lp i (consume_payup j t db) = day_books Ll Lp i db"
  "day_books Ll Lp i (mark_pending_ref j r db) = day_books Ll Lp i db" "day_books Ll Lp i (mark_payup_ref j r db) = day_books Ll Lp i db"
  by (rule day_books_view, simp add: consume_pending_def consume_payup_def mark_pending_ref_def mark_payup_ref_def)+

interpretation day: books_invariant "day_books Ll Lp i" for Ll Lp i
proof
  show "money_only (day_books Ll Lp i)" by (rule money_only_day)
  show "survives_local_transfer e (day_books Ll Lp i)" for e
  proof (rule survivesI)
    show "day_books Ll Lp i (post_local_transfer ref sig sid rid pid amt d (now e) j db)"
      if "day_books Ll Lp i db" "user_by_id db sid = Some u" "user_by_id db rid = Some v" "min_transaction_amount \<le> amt"
        "local_transfer_amount_used_today e sid db + amt \<le> u_local_transfer_daily_limit u"
      for db ref sig sid rid pid amt d j u v
      using day_books_transfer [OF that(1-3), of amt "''local_transfer''" e] that(4,5)
      by (simp add: post_local_transfer_def local_transfer_amount_used_today_def min_transaction_amount_def)
  qed (simp_all add: money_only_frees(4) [OF money_only_day])
  show "survives_payup e (day_books Ll Lp i)" for e
  proof (rule survives_payupI)
    show "day_books Ll Lp i (post_payup ref sig sid rid amt d (now e) j db)"
      if "day_books Ll Lp i db" "user_by_id db sid = Some u" "user_by_id db rid = Some v" "min_transaction_amount \<le> amt"
        "payup_amount_used_today e sid db + amt \<le> u_payup_daily_limit u"
      for db ref sig sid rid amt d j u v
      using day_books_transfer [OF that(1-3), of amt "''payup''" e] that(4,5)
      by (simp add: post_payup_def payup_amount_used_today_def min_transaction_amount_def)
  qed (simp_all add: money_only_frees(4) [OF money_only_day])
  show "day_books Ll Lp i db \<Longrightarrow> user_by_id db j = Some u \<Longrightarrow> 0 \<le> a \<Longrightarrow> day_books Ll Lp i (post_topup ref csig tsig j a c db)"
    for db j u a ref csig tsig c by (rule day_books_topup)
  show "day_books Ll Lp i db \<Longrightarrow> u_id u \<notin> u_id ` set (users db) \<Longrightarrow> u_balance u = 0 \<Longrightarrow> day_books Ll Lp i (post_registration ref sig u c db)"
    for db u ref sig c by (rule day_books_registration)
  show "day_books Ll Lp i db \<Longrightarrow> references_known db" for db by (simp add: day_books_def)
qed

subsection \<open>Days with changes of the limits\<close>

text \<open>What was sent does not depend on the limits, so a change of the limits leaves it within the bounds.\<close>

definition kept_day :: "cents \<Rightarrow> cents \<Rightarrow> int \<Rightarrow> database \<Rightarrow> bool" where
  "kept_day Ll Lp i db \<longleftrightarrow> references_known db \<and> amounts_ok db \<and> sent_within Ll Lp i db"

lemma kept_day_view:
  assumes "u_id ` set (users d) = u_id ` set (users db)" "transactions d = transactions db"
    "registration_credits d = registration_credits db" "topup_credits d = topup_credits db"
  shows "kept_day Ll Lp i d = kept_day Ll Lp i db"
  using assms by (simp add: kept_day_def references_known_def amounts_ok_def sent_within_def sent_on_day_def)

lemma money_only_kept: "money_only (kept_day Ll Lp i)"
proof (rule money_onlyI)
  fix db d assume v: "money_view d = money_view db" and k: "kept_day Ll Lp i db"
  have "u_id ` set (users d) = u_id ` set (users db)" using v by (intro id_set_view) (simp add: money_view_def)
  with v k kept_day_view [of d db] show "kept_day Ll Lp i d" by (simp add: money_view_def)
qed

lemma kept_set_limits: "kept_day Ll Lp i db \<Longrightarrow> kept_day Ll Lp i (set_daily_limits j p l db)"
proof -
  have "map u_id (users (set_daily_limits j p l db)) = map u_id (users db)"
    by (simp add: set_daily_limits_def update_users_def map_upd_where_frame)
  then have "u_id ` set (users (set_daily_limits j p l db)) = u_id ` set (users db)" by (metis image_set)
  then have "kept_day Ll Lp i (set_daily_limits j p l db) = kept_day Ll Lp i db"
    by (rule kept_day_view) (simp_all add: set_daily_limits_def update_users_def)
  then show "kept_day Ll Lp i db \<Longrightarrow> kept_day Ll Lp i (set_daily_limits j p l db)" by simp
qed

lemma limit_of_within:
  "limits_within Ll Lp i db \<Longrightarrow> 0 \<le> Ll \<Longrightarrow> 0 \<le> Lp \<Longrightarrow>
   max Ll (limit_of u_local_transfer_daily_limit i db) = Ll \<and> max Lp (limit_of u_payup_daily_limit i db) = Lp"
  by (auto simp: limits_within_def limit_of_def split: option.splits)

lemma day_books_within: "limits_within Ll Lp i db \<Longrightarrow> day_books Ll Lp i db \<longleftrightarrow> 0 \<le> Ll \<and> 0 \<le> Lp \<and> kept_day Ll Lp i db"
  using limit_of_within by (auto simp: day_books_def kept_day_def)

lemma kept_day_step:
  assumes step: "bank_step s t" and k: "kept_day Ll Lp i (committed s)" and w: "working s = committed s"
    and l: "limits_within Ll Lp i (committed s)" "limits_within Ll Lp i (committed t)" "0 \<le> Ll" "0 \<le> Lp"
  shows "kept_day Ll Lp i (committed t)"
  using step
proof cases
  case request
  have "day_books Ll Lp i (committed s)" using day_books_within [OF l(1)] k l(3,4) by simp
  from day.request_keeps [OF request this w] day_books_within [OF l(2)] show ?thesis by simp
next
  case (limits_change e csrf u form x t' v)
  have "preserves (both (kept_day Ll Lp i)) (transfer_limits_submit e csrf u form)"
    by (rule preserves_transfer_limits [OF money_only_kept kept_set_limits])
  from preservesD' [OF this limits_change(2)] limits_change(1) k w show ?thesis by (simp add: both_def next_request_def)
qed

text \<open>
  C5. The daily limits hold over whole days. Take any run of the bank, with requests of any kind, by anyone, in any order, at any instants and
  with any failures, changes of the limits and completed transfers among them, in which the limits of one account are at most \<open>Ll\<close> (local
  transfers) and \<open>Lp\<close> (PayUp) after every request. Then in no day of Singapore does the account send more than \<open>Ll\<close> by local transfers or more
  than \<open>Lp\<close> by PayUp, if that is so at the start, where the books have no negative amounts and no row of an unknown account.
\<close>

theorem daily_limits_hold:
  assumes "(\<lambda>s t. bank_step s t \<and> limits_within Ll Lp i (committed t))\<^sup>*\<^sup>* s t"
    and "working s = committed s" and "limits_within Ll Lp i (committed s)" and "0 \<le> Ll" and "0 \<le> Lp"
    and "references_known (committed s)" and "amounts_ok (committed s)"
    and "\<And>x. sent_on_day ''local_transfer'' i x (committed s) \<le> Ll" and "\<And>x. sent_on_day ''payup'' i x (committed s) \<le> Lp"
  shows "sent_on_day ''local_transfer'' i x (committed t) \<le> Ll \<and> sent_on_day ''payup'' i x (committed t) \<le> Lp"
proof -
  have "kept_day Ll Lp i (committed s)" using assms(6-9) by (simp add: kept_day_def sent_within_def)
  from assms(1) this assms(2,3) have "kept_day Ll Lp i (committed t) \<and> working t = committed t \<and> limits_within Ll Lp i (committed t)"
  proof (induction rule: rtranclp_induct)
    case (step y z)
    then show ?case using kept_day_step [OF _ _ _ _ _ assms(4,5)] bank_step_clean by blast
  qed simp
  then show ?thesis by (simp add: kept_day_def sent_within_def)
qed

text \<open>Alice sends 25.00 to Bob on a day on which she had sent nothing.\<close>

lemma sample_bank_rows:
  "working sample_bank = committed sample_bank" "transactions (committed sample_bank) = []" "registration_credits (committed sample_bank) = []"
  "topup_credits (committed sample_bank) = []" "pending_transfers (committed sample_bank) = [sample_pending]"
  "user_by_id (committed sample_bank) 1 = Some alice" "u_id alice = 1"
  by (simp_all add: sample_bank_def fresh_world_def empty_db_def user_by_id_def alice_def sample_user_def)

lemma sample_day:
  "\<exists>t. bank_step sample_bank t \<and> limits_within (u_local_transfer_daily_limit alice) (u_payup_daily_limit alice) 1 (committed t)
     \<and> (\<forall>ty x. sent_on_day ty 1 x (committed t) =
          (if ty = ''local_transfer'' \<and> sgt_day_start_utc (now sample_env) = sgt_day_start_utc x then 2500 else 0))"
proof -
  obtain t where t: "execute_local_transfer sample_env alice sample_payee ''tok'' sample_bank = (Inr (new_uuid sample_env), t)"
    using sample_transfer_completes by blast
  let ?t = "next_request (web t) t" and ?db = "committed sample_bank"
  note db = sample_bank_rows
  from execute_ok [OF t] obtain recipient p amount sig where
    p: "p = sample_pending" "pt_amount p = 1000 * amount"
    and posted: "same_but_audit (posted_local_transfer sample_env alice sample_payee recipient p amount sig ?db) (committed t)"
    by (auto simp: db both_def)
  have amount: "amount = 2500" using p by (simp add: sample_pending_def)
  let ?P = "posted_local_transfer sample_env alice sample_payee recipient p amount sig ?db"
  have view: "money_view (committed t) = money_view ?P" using posted by (rule same_but_audit_money)
  have trans: "transactions (committed t) = transactions ?P" using view by (simp add: money_view_def)
  have "sent_on_day ty 1 x (committed ?t) = (if ty = ''local_transfer'' \<and> sgt_day_start_utc (now sample_env) = sgt_day_start_utc x then 2500 else 0)" for ty x
  proof -
    have "sent_on_day ty 1 x (committed ?t) = sent_on_day ty 1 x ?P" using trans by (simp add: sent_on_day_def next_request_def)
    also have "\<dots> = sent_on_day ty 1 x ?db + (if ''local_transfer'' = ty \<and> sgt_day_start_utc (now sample_env) = sgt_day_start_utc x then amount else 0)"
      by (simp add: posted_local_transfer_def post_local_transfer_def sent_on_day_add db)
    finally show ?thesis by (simp add: sent_on_day_def db amount)
  qed
  note sent = this
  have step: "bank_step sample_bank ?t" using bank_step.request [OF bank_request.local_transfer [OF t]] .
  have "limit_of f 1 (committed ?t) = f alice" if "\<And>u v. money_user u = money_user v \<Longrightarrow> f u = f v" "\<And>u b. f (u\<lparr>u_balance := b\<rparr>) = f u" for f
  proof -
    have "limit_of f 1 (committed ?t) = limit_of f 1 ?P" using limit_of_view [OF view that(1)] by (simp add: next_request_def)
    then show ?thesis
      by (simp add: limit_of_def posted_local_transfer_def post_local_transfer_def user_by_id_add_balance db that(2))
  qed
  from this [of u_local_transfer_daily_limit] this [of u_payup_daily_limit]
  have within: "limits_within (u_local_transfer_daily_limit alice) (u_payup_daily_limit alice) 1 (committed ?t)"
    by (auto simp: limits_within_def limit_of_def money_user_def split: option.splits)
  from step within sent show ?thesis by blast
qed

theorem daily_limits_hold_witness:
  "\<exists>t. bank_step sample_bank t \<and> sent_on_day ''local_transfer'' 1 (now sample_env) (committed t) = 2500
     \<and> 2500 \<le> u_local_transfer_daily_limit alice \<and> sent_on_day ''payup'' 1 (now sample_env) (committed t) \<le> u_payup_daily_limit alice"
proof -
  obtain t where t: "bank_step sample_bank t" "limits_within (u_local_transfer_daily_limit alice) (u_payup_daily_limit alice) 1 (committed t)"
    "\<And>ty x. sent_on_day ty 1 x (committed t) =
       (if ty = ''local_transfer'' \<and> sgt_day_start_utc (now sample_env) = sgt_day_start_utc x then 2500 else 0)"
    using sample_day by blast
  have run: "(\<lambda>s t. bank_step s t \<and> limits_within (u_local_transfer_daily_limit alice) (u_payup_daily_limit alice) 1 (committed t))\<^sup>*\<^sup>*
      sample_bank t"
    using t by blast
  have "sent_on_day ''local_transfer'' 1 (now sample_env) (committed t) \<le> u_local_transfer_daily_limit alice
      \<and> sent_on_day ''payup'' 1 (now sample_env) (committed t) \<le> u_payup_daily_limit alice"
  proof (rule daily_limits_hold [OF run])
    show "working sample_bank = committed sample_bank" by (rule sample_bank_rows)
    show "limits_within (u_local_transfer_daily_limit alice) (u_payup_daily_limit alice) 1 (committed sample_bank)" by (simp add: limits_within_def sample_bank_rows)
    show "0 \<le> u_local_transfer_daily_limit alice" "0 \<le> u_payup_daily_limit alice" by code_simp+
    show "references_known (committed sample_bank)" "amounts_ok (committed sample_bank)" by (simp_all add: references_known_def amounts_ok_def sample_bank_rows)
    show "sent_on_day ''local_transfer'' 1 x (committed sample_bank) \<le> u_local_transfer_daily_limit alice" "sent_on_day ''payup'' 1 x (committed sample_bank) \<le> u_payup_daily_limit alice" for x
      by (simp_all add: sent_on_day_def sample_bank_rows alice_def sample_user_def)
  qed
  with t show ?thesis by auto
qed

end
