(* ===== verification/Recovery_Use.thy ===== *)
theory Recovery_Use
  imports Password_Reset
begin

section \<open>One use of a recovery code\<close>

text \<open>
  The two places where a recovery code is accepted, \<^verbatim>\<open>complete_pending_mfa\<close> of \<^verbatim>\<open>app/auth/services.py\<close> and
  \<^verbatim>\<open>verify_reset_recovery_code\<close> of \<^verbatim>\<open>app/auth/password_reset.py\<close>, call \<^verbatim>\<open>consume_recovery_code\<close> without a commit of its own: the
  code is marked in the open session and the caller commits after its audit event. In every sequence of such attempts, from whatever
  browser sessions, a code is accepted at most once.
\<close>

datatype code_attempt =
    Login_code env web_session string
  | Reset_code env web_session string

text \<open>An attempt is a request of its own: it finds the committed database and the browser session of whoever sends it.\<close>

fun serve_code :: "code_attempt \<Rightarrow> unit request" where
  "serve_code (Login_code e w code) = (\<lambda>s. served (bindA (complete_pending_mfa e code) (\<lambda>_. ret ())) (s\<lparr>working := committed s, web := w\<rparr>))"
| "serve_code (Reset_code e w code) = (\<lambda>s. served (bindA (verify_reset_recovery_code e code) (\<lambda>_. ret ())) (s\<lparr>working := committed s, web := w\<rparr>))"

text \<open>
  The stored digest an attempt asks for, with its user and purpose. At the login the user is the one whose second factor the browser
  session waits for, and a code of six digits is not a recovery code; in a password reset it is the user of the open transaction.
\<close>

definition reset_user :: "env \<Rightarrow> web_session \<Rightarrow> database \<Rightarrow> int option" where
  "reset_user e w db =
     (case filter (has_lookup (reset_lookup_hash e (sess_text e reset_transaction_session_key w))) (reset_transactions db) of
        [r] \<Rightarrow> Some (rx_user_id r) | _ \<Rightarrow> None)"

fun attempt_key :: "code_attempt \<Rightarrow> world \<Rightarrow> (int \<times> string \<times> string) option" where
  "attempt_key (Login_code e w code) s =
     (if is_totp_code code then None
      else map_option (\<lambda>uid. recovery_key e uid code) (json_int (sess_get w ''pending_mfa_user_id'')))"
| "attempt_key (Reset_code e w code) s = map_option (\<lambda>uid. recovery_key e uid code) (reset_user e w (committed s))"

subsection \<open>The reset step\<close>

lemma code_spent_reset_free: "reset_free (code_spent k)"
  using code_spent_login_free [of k]
  by (simp add: reset_free_def txn_free_def password_free_def code_spent_def)

lemma reset_backoff_frame:
  assumes "enforce_reset_backoff e sc p s = (Inr x, t)"
  shows "\<exists>cs. t = s\<lparr>working := (working s)\<lparr>auth_counters := cs\<rparr>\<rparr>"
proof -
  have h: "raises (case err of AuthBackoffRequired retry_after \<Rightarrow>
            bindA (audit_event e ''auth_backoff'' ''blocked'' None [(''scope'', JStr sc), (''retry_after'', JInt retry_after)] None) (\<lambda>_.
            raise (AuthError too_many_attempts 429 (Some retry_after))) | _ \<Rightarrow> raise err)" for err
    by (cases err) (auto intro!: raises_bindA)
  from assms obtain c where "load_counter e sc p s = (Inr c, t)"
    unfolding enforce_reset_backoff_def try_catch_raises [OF h]
    by (auto simp: apply_exponential_backoff_def bindA_eq_Inr Let_def split: if_splits)
  then show ?thesis by (rule load_counter_frame)
qed

lemma raises_count_reset_failure [simp]: "raises (count_reset_failure e td u r f)"
  unfolding count_reset_failure_def by (intro raises_bindA raises_raise)

lemma reset_code_consumed:
  assumes "verify_reset_recovery e td u code s = (Inr td', t)"
  obtains q where "q \<in> set (recovery_codes (working s))" "usable_code e (u_id u) recovery_purpose_totp code q"
    "distinct (map rc_code_hmac (recovery_codes (working t))) \<Longrightarrow> code_spent (recovery_key e (u_id u) code) (working t)"
proof -
  note r = raises_not_Inr [OF raises_count_reset_failure]
  from assms obtain s1 s2 where 1: "enforce_reset_backoff e ''password_reset_recovery_code'' (td_id td) s = (Inr (), s1)"
    and 2: "consume_recovery_code e u code recovery_purpose_totp False s1 = (Inr True, s2)"
    and 3: "clear_failures e ''password_reset_recovery_code'' (td_id td) s2 = (Inr (), t)"
    by (auto simp: verify_reset_recovery_def bindA_eq_Inr r split: if_splits)
  have c: "recovery_codes (working s1) = recovery_codes (working s)" "recovery_codes (working t) = recovery_codes (working s2)"
    using reset_backoff_frame [OF 1] clear_failures_codes [OF 3] by auto
  from 2 obtain q where "q \<in> set (recovery_codes (working s1))" "usable_code e (u_id u) recovery_purpose_totp code q"
    and m: "map rc_code_hmac (recovery_codes (working s2)) = map rc_code_hmac (recovery_codes (working s1))"
    and sp: "distinct (map rc_code_hmac (recovery_codes (working s1))) \<Longrightarrow> code_spent (recovery_key e (u_id u) code) (working s2)"
    unfolding recovery_key_def by (elim consumed_code) blast
  with c show thesis by (intro that) (auto simp: code_spent_def)
qed

lemma reset_recovery_step:
  assumes "verify_reset_recovery_code e code s = (Inr v, t)"
  obtains uid q where "reset_user e (web s) (working s) = Some uid"
    "q \<in> set (recovery_codes (working s))" "usable_code e uid recovery_purpose_totp code q"
    "both (code_spent (recovery_key e uid code)) t"
proof -
  have ne: "reset_mfa_recovery_code \<noteq> reset_mfa_totp" by (simp add: reset_mfa_recovery_code_def reset_mfa_totp_def)
  from assms ne obtain td u td1 td2 s1 s2 s3 s4 s5 s6 s7 where
    1: "load_current_transaction e s = (Inr td, s1)" and 2: "transaction_user e td s1 = (Inr u, s2)"
    and 3: "require_selected_reset_mfa_method e td u reset_mfa_recovery_code s2 = (Inr td1, s3)"
    and 4: "verify_reset_recovery e td1 u code s3 = (Inr td2, s4)"
    and 5: "audit_event_required e ''password_reset_mfa_verified'' ''success'' (Some (u_id u)) [(''factor'', JStr ''recovery_code'')] None s4 = (Inr (), s5)"
    and 6: "commitA s5 = (Inr (), s6)"
    and 7: "send_mfa_recovery_code_used_notification e u s6 = (Inr (), s7)"
    and 8: "store_transaction e (td2\<lparr>td_mfa_verified := True, td_mfa_verified_at := Some (now_s e)\<rparr>) s7 = (Inr (), t)"
    by (auto simp: verify_reset_recovery_code_def verify_reset_authentication_code_def bindA_eq_Inr Let_def condA_def)
  from 1 obtain r where r: "s1 = s" "td = transaction_from_record r (sess_text e reset_transaction_session_key (web s))"
    "filter (has_lookup (reset_lookup_hash e (sess_text e reset_transaction_session_key (web s)))) (reset_transactions (working s)) = [r]"
    by (elim load_current_spec) auto
  have u: "s2 = s" "u_id u = rx_user_id r"
    using transaction_user_spec(1,2) [OF 2] user_by_id_member r by (fastforce simp: transaction_from_record_def)+
  have "s3 = s2"
    using 3 by (auto simp: require_selected_reset_mfa_method_def bindA_eq_Inr Let_def split: sum.splits if_splits)
  with 4 u obtain q where q: "q \<in> set (recovery_codes (working s))" "usable_code e (u_id u) recovery_purpose_totp code q"
    and sp: "distinct (map rc_code_hmac (recovery_codes (working s4))) \<Longrightarrow> code_spent (recovery_key e (u_id u) code) (working s4)"
    by (elim reset_code_consumed) auto
  let ?k = "recovery_key e (u_id u) code"
  have "both (code_spent ?k) s6"
    by (rule commit_spends [OF 6]) (use sp audit_required_codes [OF 5] in \<open>simp add: code_spent_def\<close>)
  then have "both (code_spent ?k) s7"
    using preservesD' [OF preserves_used_notification [OF login_freeD(7) [OF code_spent_login_free]] 7] by blast
  then have "both (code_spent ?k) t"
    using preservesD' [OF preserves_store_transaction [OF reset_freeD(10) [OF code_spent_reset_free]] 8] by blast
  with q u r(3) show thesis by (intro that [of "rx_user_id r" q]) (simp_all add: reset_user_def)
qed

subsection \<open>The contract\<close>

lemma login_recovery_step:
  assumes "complete_pending_mfa e code s = (Inr v, t)" and "\<not> is_totp_code code"
  obtains uid q where "json_int (sess_get (web s) ''pending_mfa_user_id'') = Some uid"
    "q \<in> set (recovery_codes (working s))" "usable_code e uid recovery_purpose_totp code q"
    "both (code_spent (recovery_key e uid code)) t"
proof -
  from second_step [OF assms(1)] assms(2) obtain uid u s1 cs where
    "json_int (sess_get (web s) ''pending_mfa_user_id'') = Some uid" "user_by_id (working s) uid = Some u"
    "s1 = s\<lparr>working := (working s)\<lparr>auth_counters := cs\<rparr>\<rparr>" "factor_accepted e u code s1"
    "both (code_spent (recovery_key e uid code)) t"
    by auto
  with assms(2) user_by_id_member show thesis by (auto simp: factor_accepted_def intro: that)
qed

lemma spent_not_usable:
  "code_spent (recovery_key e uid code) db \<Longrightarrow> q \<in> set (recovery_codes db) \<Longrightarrow> \<not> usable_code e uid recovery_purpose_totp code q"
  by (auto simp: code_spent_def recovery_key_def usable_code_def)

lemma serve_code_success:
  assumes "serve_code r s = (Inr x, t)" and "attempt_key r s = Some k"
  shows "\<not> code_spent k (committed s) \<and> code_spent k (committed t)"
proof (cases r)
  case (Login_code e w code)
  let ?s = "s\<lparr>working := committed s, web := w\<rparr>"
  from assms Login_code obtain v t' where m: "complete_pending_mfa e code ?s = (Inr v, t')" "\<not> is_totp_code code" "committed t = committed t'"
    by (auto simp: served_eq bindA_eq_Inr split: if_splits)
  from m(1,2) show ?thesis
  proof (rule login_recovery_step)
    fix uid q
    assume a: "json_int (sess_get (web ?s) ''pending_mfa_user_id'') = Some uid" "q \<in> set (recovery_codes (working ?s))"
      "usable_code e uid recovery_purpose_totp code q" "both (code_spent (recovery_key e uid code)) t'"
    then have "k = recovery_key e uid code" using assms(2) m(2) Login_code by simp
    with a m(3) show ?thesis using spent_not_usable [of e uid code "committed s" q] by (auto simp: both_def)
  qed
next
  case (Reset_code e w code)
  let ?s = "s\<lparr>working := committed s, web := w\<rparr>"
  from assms Reset_code obtain v t' where m: "verify_reset_recovery_code e code ?s = (Inr v, t')" "committed t = committed t'"
    by (auto simp: served_eq bindA_eq_Inr)
  from m(1) show ?thesis
    by (rule reset_recovery_step) (use assms(2) m(2) Reset_code spent_not_usable in \<open>auto simp: both_def\<close>)
qed

lemma serve_code_keeps:
  assumes "code_spent k (committed s)"
  shows "code_spent k (committed (snd (serve_code r s)))"
proof -
  have b: "both (code_spent k) (s\<lparr>working := committed s, web := w\<rparr>)" for w using assms by (simp add: both_def)
  have "preserves (both (code_spent k)) (served (bindA (complete_pending_mfa e code) (\<lambda>_. ret ())))"
    "preserves (both (code_spent k)) (served (bindA (verify_reset_recovery_code e code) (\<lambda>_. ret ())))" for e code
    unfolding verify_reset_recovery_code_def
    by (intro preserves_served preserves_bindA preserves_complete_pending_mfa preserves_verify_reset_code preserves_ret
        code_spent_login_free code_spent_reset_free)+
  from preservesD [OF this(1) b] preservesD [OF this(2) b] show ?thesis by (cases r) (simp_all add: both_def)
qed

interpretation code_use: single_use_at serve_code attempt_key "\<lambda>k s. code_spent k (committed s)"
proof
  show "attempt_key r s = Some k \<Longrightarrow> serve_code r s = (Inr x, t) \<Longrightarrow> code_spent k (committed t)" for r s k x t
    using serve_code_success by blast
  show "code_spent k (committed s) \<Longrightarrow> code_spent k (committed (snd (serve_code r s)))" for k s r by (rule serve_code_keeps)
  show "attempt_key r s = Some k \<Longrightarrow> code_spent k (committed s) \<Longrightarrow> isl (fst (serve_code r s))" for r s k
    using serve_code_success by (cases "serve_code r s"; cases "fst (serve_code r s)") auto
qed

text \<open>
  C20. A recovery code works once. Take any sequence of second steps of a login and of recovery code steps of a password reset, in any
  browser sessions and however they fail. Among the attempts that ask for one user and one stored digest, however the code is spelled
  (case and separators are ignored), at most one succeeds.
\<close>

theorem recovery_code_single_use: "uses serve_code attempt_key k rs s \<le> 1"
  by (rule code_use.at_most_one_use)

text \<open>The code of the sample account: the first attempt succeeds, the second one with another spelling does not.\<close>

lemma sample_code_accepted_once:
  "uses serve_code attempt_key (recovery_key code_env 1 ''ab12cd34-ef56ab78'')
     [Login_code code_env (web code_world) ''AB12CD34 EF56AB78'', Login_code code_env (web code_world) ''ab12cd34ef56ab78''] code_world = 1"
proof -
  let ?k = "recovery_key code_env 1 ''ab12cd34-ef56ab78''" and ?c = "''AB12CD34 EF56AB78''"
  have n: "\<not> is_totp_code ?c" "normalize_recovery_code ?c = normalize_recovery_code ''ab12cd34-ef56ab78''" by code_simp+
  obtain v t where t: "complete_pending_mfa code_env ?c code_world = (Inr v, t)" using recovery_step_example by blast
  have w: "code_world\<lparr>working := committed code_world, web := web code_world\<rparr> = code_world"
    by (simp add: code_world_def fresh_world_def)
  have j: "json_int (sess_get (web code_world) ''pending_mfa_user_id'') = Some 1"
    by (simp add: code_world_def sess_get_def jget_def json_int_def)
  have "attempt_key (Login_code code_env (web code_world) ?c) code_world = Some ?k"
    using n j by (simp add: recovery_key_def recovery_code_hmac_def recovery_message_def)
  moreover have "\<not> isl (fst (serve_code (Login_code code_env (web code_world) ?c) code_world))"
    using t by (simp add: w served_def bindA_def)
  ultimately have "1 \<le> uses serve_code attempt_key ?k
     [Login_code code_env (web code_world) ?c, Login_code code_env (web code_world) ''ab12cd34ef56ab78''] code_world"
    by (simp del: serve_code.simps attempt_key.simps)
  with code_use.at_most_one_use show ?thesis by (simp only: le_antisym)
qed

end
