(* ===== verification/Spec2Isabelle.thy ===== *)
theory Spec2Isabelle
  imports Audit_Verify Daily_Limits Recovery_Use
begin

text \<open>
  A verification library for SITBank, a bank web application in Python (Flask, SQLAlchemy). It models the services that decide who may do
  what with accounts and money, and proves the properties that make them correct. All sources below are under \<^verbatim>\<open>src/\<close>.

  \<^bold>\<open>The program and its parts.\<close> Customers register, log in with a password and an authenticator code, keep a balance, send money to payees
  (local transfers) or to phone numbers (PayUp), and add money with a QR code that a second device approves. Bank staff review disputes and
  tickets and freeze customers; root administrators act in pairs (maker and checker). All parts share one database. Every sensitive step
  writes a hash-chained audit event, every ledger row and credit is signed, sessions are rows of the database whose payload is signed, and
  counters of failures slow down and finally lock an account. The model follows this structure:

  \<^item> \<open>Prelude\<close>: actions (state, exception, result), the calculus \<open>preserves\<close> for invariants of actions, lists of requests (\<open>run_all\<close>), tables
    (\<open>upd_where\<close>), Python text functions, and the contract \<open>single_use\<close>.
  \<^item> \<open>Json\<close>, \<open>Json_Reader\<close>, \<open>Calendar\<close>, \<open>Decimals\<close>: what the code uses of \<^verbatim>\<open>json.dumps\<close> (injective printing), of \<^verbatim>\<open>datetime\<close> (ISO texts, days of
    Singapore) and of \<^verbatim>\<open>decimal\<close>.
  \<^item> \<open>Models\<close>: \<^verbatim>\<open>app/models.py\<close>, one record per table with its check and unique constraints (\<open>constraints_ok\<close>), the column range of money
    (\<open>numerics_ok\<close>), and the record \<open>database\<close>.
  \<^item> \<open>Request\<close>: the environment \<open>env\<close> of a request and the state \<open>world\<close>: the committed database, the working copy of the SQLAlchemy session, the
    outgoing mail and the browser session. \<open>commitA\<close> publishes the working copy when it satisfies the constraints and raises otherwise;
    \<open>rollbackA\<close> drops it. Also the keyed references of \<^verbatim>\<open>app/security/session_hmac.py\<close>.
  \<^item> \<open>Redaction\<close>, \<open>Audit_Log\<close>, \<open>Audit_Verify\<close>: \<^verbatim>\<open>app/security/sensitive_values.py\<close> and \<^verbatim>\<open>app/security/audit.py\<close>: redaction of metadata, the writers
    of events, the verifier of the chain and the anchors.
  \<^item> \<open>Ledger_Integrity\<close>: \<^verbatim>\<open>app/security/transaction_integrity.py\<close>, signatures of transactions and credits.
  \<^item> \<open>Banking\<close>, \<open>Transfers\<close>, \<open>Payup\<close>, \<open>Topup\<close>, \<open>Transfer_Limits\<close>, \<open>Forms\<close>: the money-moving part of \<^verbatim>\<open>app/banking/services.py\<close>,
    \<^verbatim>\<open>app/banking/topup_tokens.py\<close>, the handlers of top-ups and daily limits of \<^verbatim>\<open>app/banking/routes.py\<close>, \<^verbatim>\<open>app/auth/mfa_policy.py\<close> and \<^verbatim>\<open>app/banking/forms.py\<close>.
  \<^item> \<open>Session_Payload\<close>, \<open>Web_Sessions\<close>: the signed envelope and the table of sessions (\<^verbatim>\<open>app/security/sessions.py\<close>).
  \<^item> \<open>Rate_Limits\<close>, \<open>Mfa_Crypto\<close>, \<open>Passwords\<close>, \<open>Recovery_Codes\<close>, \<open>Totp\<close>, \<open>Login\<close>, \<open>Login_Safety\<close>: \<^verbatim>\<open>app/security/rate_limits.py\<close>, \<^verbatim>\<open>crypto.py\<close>,
    \<^verbatim>\<open>passwords.py\<close>, \<^verbatim>\<open>password_history.py\<close>, \<^verbatim>\<open>app/auth/recovery_codes.py\<close> and the login half of \<^verbatim>\<open>app/auth/services.py\<close>.
  \<^item> \<open>Identity_Policy\<close>, \<open>Registration\<close>: \<^verbatim>\<open>app/security/identity_policy.py\<close>, \<^verbatim>\<open>app/auth/registration_otp.py\<close> and \<^verbatim>\<open>register_user\<close>.
  \<^item> \<open>Password_Reset\<close>, \<open>Manual_Recovery\<close>: \<^verbatim>\<open>app/auth/password_reset.py\<close>. \<open>Recovery_Use\<close>: the two places where a recovery code is accepted, the
    login and the password reset, as one sequence of attempts.
  \<^item> \<open>Staff_Roles\<close>, \<open>Admin_Actions\<close>, \<open>Staff_Desk\<close>: roles, separation of duties (\<^verbatim>\<open>app/admin/separation.py\<close>), action requests that need two
    administrators, and the work of bank staff, of \<^verbatim>\<open>app/admin/services.py\<close>.
  \<^item> \<open>Staff_Login\<close>: the login of bank staff and the changes of their own password and authenticator, of \<^verbatim>\<open>app/admin/services.py\<close>.
  \<^item> \<open>State_Cleanup\<close>: \<^verbatim>\<open>app/security/state_cleanup.py\<close>, \<^verbatim>\<open>app/security/retention.py\<close> and the command \<^verbatim>\<open>run-retention-cleanup\<close> of \<^verbatim>\<open>app/ops/commands.py\<close>.
  \<^item> \<open>Auth_Frames\<close>, \<open>Money\<close>: which columns the operations on sessions and credentials write, and which ones the books read.
  \<^item> \<open>Bank\<close>: all modelled requests as one step relation \<open>bank_step\<close> (\<open>bank_request\<close> and the change of the daily limits), and the invariant of the books in every
    reachable state. \<open>Daily_Limits\<close>: what an account sends in a day of Singapore along such runs.

  \<^bold>\<open>How code becomes definitions.\<close> A service function is an action \<open>'a request\<close>: from a \<open>world\<close> to an exception or a value and a new \<open>world\<close>. A
  \<^verbatim>\<open>raise\<close> is a value of \<open>py_error\<close>, \<^verbatim>\<open>try/except\<close> is \<open>try_catch\<close>, an early return is a branch; every audit event, commit, rollback and mail
  is a step of the action, in the order of the code. \<open>served m\<close> is the request \<open>m\<close> with what it left uncommitted dropped at its end. Definitions keep
  the names of the source without the leading underscore. Money columns are integers of cents, pending amounts integers of a thousandth of a
  cent, times integers of microseconds; Python integers are \<open>int\<close>. A row lock (\<^verbatim>\<open>with_for_update\<close>) is a read, because a request of the model runs
  alone; where the code itself guards against another request in between (the conditional updates of the review queues), the second half of
  the operation is a definition of its own that takes the row as it was read, and the theorem holds for rows that are out of date.

  \<^bold>\<open>Parameters.\<close> Third-party code is a field of \<open>env\<close>: HMAC, SHA-256, PBKDF2, AES-GCM, the TOTP function, base64, the reader of JSON, the
  breach lookup, the clock, random texts and numbers (indexed by their place in the code), whether the audit store and the mail relay work. Theorems that need
  something of them say so in a hypothesis (the form of a digest, a round trip of decryption after encryption), and the witnesses discharge it with concrete
  functions. Nothing is assumed about collisions of HMAC: the theorems on tampering name the two texts that would have to collide
  (\<open>hmac_clash\<close>), those of the rows in question under the key these rows name.

  \<^bold>\<open>What is proved.\<close> The books: in every state that requests of any kind can reach, every balance is the credits plus receipts minus payments of the
  ledger, no balance is negative and all money comes from signed credits (\<open>Bank\<close>); a transfer, a top-up and a registration change the books
  by exactly what they say or not at all, on no day does an account send more than the highest limit it has had, confirmations work once. Evidence: a signed
  row that was changed verifies exactly if its old and its new signing input have one keyed digest, and an audit log that was changed behind an anchor is
  validated only if the two payloads of an event have one. Access: what a login,
  a password reset, a recovery, an approval, a freeze and a change of an authenticator have checked when they return, and that codes, links and approvals work once. Work
  flows: recovery requests, disputes and tickets move along their tables of transitions, refining the abstract tables; the clean-up job deletes only what is
  expired, reports it, and repeated often enough leaves nothing to delete.

  \<^bold>\<open>Contracts.\<close> \<open>single_use\<close> (a key that a success spends is never accepted again) is interpreted for local and PayUp confirmations, top-ups, TOTP
  codes, reset links and approvals; \<open>ledger_signer\<close> for the three kinds of signed rows; \<open>review_queue\<close> for disputes and tickets;
  \<open>table\<close> (a column of the database and its update) for the eleven tables of the clean-up;
  \<open>books_invariant\<close> (what requests may post) for the sums of a day and, extended to changes of the limits (\<open>limit_free_books\<close>), for the soundness of the
  books. Recovery codes, whose key depends on the state, use the weaker contract \<open>single_use_at\<close>, which \<open>single_use\<close> implies. Frames are shared: an invariant is classified once by what it reads
  (\<open>money_only\<close>, \<open>login_free\<close>, \<open>desk_free\<close>, \<open>decision_free\<close>), and the rules \<open>preserves_rules\<close> carry it through whole handlers.

  \<^bold>\<open>Bounds.\<close> Every loop of the modelled code is structural recursion or has a termination proof; there is no fuel. The loop that looks for a free account number
  runs over its ten attempts, as in the code. Characters are those of Isabelle's \<open>char\<close>, so texts are sequences of code points below 256.

  \<^bold>\<open>Not modelled.\<close> Templates, pages, QR images and the texts of mails; the lengths of VARCHAR columns; the Flask-Limiter decorators; the remaining route
  handlers of \<^verbatim>\<open>app/*/routes.py\<close>, which parse forms and call the services; of \<^verbatim>\<open>app/admin/services.py\<close> the staff
  invites, the audit viewer and the dashboards; of \<^verbatim>\<open>app/auth/services.py\<close> enrolment and profile
  changes; delivery of alerts (\<^verbatim>\<open>app/security/alerts.py\<close>), edge checks, configuration and the other operations commands: they
  read the environment or talk to other services.
\<close>

end
